(* ===== verification/Prelude.thy ===== *)
theory Prelude
  imports Main "HOL-Library.AList" "HOL-Library.Sublist" "HOL-Library.Multiset"
begin

text \<open>
  What the components share: the JavaScript values the TypeScript sources use (strings,
  optional properties, objects used as dictionaries, timestamps, stable sorting), the
  errors the code throws, the collections of facts the component proofs draw on, and the
  generic lemmas about all of these.

  Conventions. A property \<open>f?: T\<close> is a field of type \<open>T option\<close>. A
  \<open>Record<string, T>\<close> is an association list in insertion order, as
  \<open>Object.values\<close> reports it (keys that look like array indices, which JavaScript
  would list first, and keys of \<open>Object.prototype\<close> are outside the model). A number
  that is an integer in the code is an \<open>int\<close> or \<open>nat\<close>; the model does not round
  above 2 to the power 53.
\<close>

section \<open>Collections of facts\<close>

named_theorems record_simps \<open>reading and writing dictionaries\<close>
named_theorems preserves_intros \<open>invariants of effectful actions, one rule per combinator\<close>
named_theorems wp_simps \<open>weakest preconditions of the combinators\<close>

section \<open>Errors\<close>

text \<open>
  The classes of \<open>packages/shared/src/errors/index.ts\<close> the modelled code throws, and the
  two built-in ones (\<open>Error\<close>, \<open>RangeError\<close>). The details object is kept as the list of
  its string members, in the order the code writes them.
\<close>

datatype error_class =
    ConfigError | StateStoreError | WorkflowPolicyError | SchemaValidationError
  | SafetyViolationError | StateIntegrityError | StepTimeoutError | StepCancelledError
  | PlainError | RangeError | TypeError

datatype js_error = Js_Error (error_class: error_class) (error_message: string) (error_details: "string list")

type_synonym 'a result = "js_error + 'a"

section \<open>Strings\<close>

definition is_space :: "char \<Rightarrow> bool" where
  "is_space c = (c \<in> {CHR 0x09, CHR 0x0A, CHR 0x0B, CHR 0x0C, CHR 0x0D, CHR 0x20, CHR 0xA0})"

definition js_trim :: "string \<Rightarrow> string" where
  "js_trim s = rev (dropWhile is_space (rev (dropWhile is_space s)))"

definition blank :: "string \<Rightarrow> bool" where
  "blank s = (js_trim s = [])"

fun str_includes :: "string \<Rightarrow> string \<Rightarrow> bool" where
  "str_includes [] t = (t = [])"
| "str_includes (c # s) t = (prefix t (c # s) \<or> str_includes s t)"

definition lower_char :: "char \<Rightarrow> char" where
  "lower_char c = (if 65 \<le> (of_char c :: nat) \<and> (of_char c :: nat) \<le> 90
                   then char_of ((of_char c :: nat) + 32) else c)"

definition to_lower :: "string \<Rightarrow> string" where
  "to_lower = map lower_char"

fun join :: "string \<Rightarrow> string list \<Rightarrow> string" where
  "join sep [] = []"
| "join sep [x] = x"
| "join sep (x # y # xs) = x @ sep @ join sep (y # xs)"

fun split_on :: "char \<Rightarrow> string \<Rightarrow> string list" where
  "split_on c [] = [[]]"
| "split_on c (x # xs) =
     (if x = c then [] # split_on c xs
      else (case split_on c xs of [] \<Rightarrow> [[x]] | w # ws \<Rightarrow> (x # w) # ws))"

fun nat_to_string :: "nat \<Rightarrow> string" where
  "nat_to_string n =
     (if n < 10 then [char_of (48 + n)]
      else nat_to_string (n div 10) @ [char_of (48 + n mod 10)])"

declare nat_to_string.simps [simp del]

definition int_to_string :: "int \<Rightarrow> string" where
  "int_to_string i = (if i < 0 then ''-'' @ nat_to_string (nat (- i)) else nat_to_string (nat i))"

lemma join_append_one: "xs \<noteq> [] \<Longrightarrow> join sep (xs @ [y]) = join sep xs @ sep @ y"
  by (induction sep xs rule: join.induct) auto

lemma split_on_nonempty [simp]: "split_on c s \<noteq> []"
  by (induction s) (auto split: list.splits)

lemma split_on_no_sep: "c \<notin> set s \<Longrightarrow> split_on c s = [s]"
  by (induction s) auto

lemma split_on_append: "c \<notin> set s \<Longrightarrow> split_on c (s @ c # t) = s # split_on c t"
  by (induction s) auto

lemma split_on_join:
  assumes "ws \<noteq> []" and "\<forall>w \<in> set ws. c \<notin> set w"
  shows "split_on c (join [c] ws) = ws"
  using assms
proof (induction "[c]" ws rule: join.induct)
  case (3 x y xs)
  then show ?case by (simp add: split_on_append)
qed (simp_all add: split_on_no_sep)

lemma join_inj:
  assumes "xs \<noteq> []" "ys \<noteq> []" "\<forall>w \<in> set xs. c \<notin> set w" "\<forall>w \<in> set ys. c \<notin> set w"
    and "join [c] xs = join [c] ys"
  shows "xs = ys"
  using assms split_on_join by metis

lemma nat_to_string_digits: "x \<in> set (nat_to_string n) \<Longrightarrow> 48 \<le> (of_char x :: nat) \<and> (of_char x :: nat) \<le> 57"
proof (induction n rule: nat_to_string.induct)
  case (1 n)
  then show ?case
    by (cases "n < 10") (auto simp: nat_to_string.simps[of n])
qed

lemma nat_to_string_no_colon: "CHR '':'' \<notin> set (nat_to_string n)"
  using nat_to_string_digits[of "CHR '':''" n] by auto

lemma set_dropWhile_subset: "set (dropWhile P xs) \<subseteq> set xs"
  by (auto dest: set_dropWhileD)

lemma set_js_trim: "set (js_trim s) \<subseteq> set s"
  unfolding js_trim_def by (auto dest!: set_dropWhileD)

lemma js_trim_Nil [simp]: "js_trim [] = []"
  by (simp add: js_trim_def)

lemma blank_Nil [simp]: "blank []"
  by (simp add: blank_def)

lemma blank_iff: "blank s \<longleftrightarrow> (\<forall>c \<in> set s. is_space c)"
proof -
  have "blank s \<longleftrightarrow> dropWhile is_space (rev (dropWhile is_space s)) = []"
    by (simp add: blank_def js_trim_def)
  also have "\<dots> \<longleftrightarrow> (\<forall>c \<in> set (dropWhile is_space s). is_space c)"
    by simp
  also have "\<dots> \<longleftrightarrow> (\<forall>c \<in> set s. is_space c)"
    by (induction s) auto
  finally show ?thesis .
qed

lemma str_includes_iff: "str_includes s t \<longleftrightarrow> sublist t s"
  by (induction s) (auto simp: sublist_Cons_right)

lemma str_includes_append_right: "str_includes t u \<Longrightarrow> str_includes (s @ t) u"
  by (simp add: str_includes_iff sublist_appendI sublist_append)

section \<open>Optional properties and truthiness\<close>

text \<open>\<open>truthy\<close> is how an \<open>if\<close> reads a \<open>string | undefined\<close>: the empty string counts as
  absent, so \<open>{...(x ? {f: x} : {})}\<close> copies a property only when it is not empty.\<close>

definition truthy :: "string option \<Rightarrow> bool" where
  "truthy x = (case x of None \<Rightarrow> False | Some s \<Rightarrow> s \<noteq> [])"

definition when_truthy :: "string option \<Rightarrow> string option" where
  "when_truthy x = (if truthy x then x else None)"

definition or_default :: "'a option \<Rightarrow> 'a \<Rightarrow> 'a" where
  "or_default x d = (case x of None \<Rightarrow> d | Some v \<Rightarrow> v)"

lemma truthy_simps [simp]: "\<not> truthy None" "truthy (Some s) = (s \<noteq> [])"
  by (simp_all add: truthy_def)

lemma or_default_simps [simp]: "or_default None d = d" "or_default (Some v) d = v"
  by (simp_all add: or_default_def)

section \<open>Dictionaries\<close>

type_synonym 'v jsrec = "(string \<times> 'v) list"

abbreviation rec_get :: "'v jsrec \<Rightarrow> string \<Rightarrow> 'v option" where
  "rec_get r k \<equiv> map_of r k"

abbreviation rec_set :: "string \<Rightarrow> 'v \<Rightarrow> 'v jsrec \<Rightarrow> 'v jsrec" where
  "rec_set k v r \<equiv> AList.update k v r"

abbreviation rec_values :: "'v jsrec \<Rightarrow> 'v list" where
  "rec_values r \<equiv> map snd r"

abbreviation rec_keys :: "'v jsrec \<Rightarrow> string list" where
  "rec_keys r \<equiv> map fst r"

definition rec_has :: "'v jsrec \<Rightarrow> string \<Rightarrow> bool" where
  "rec_has r k = (rec_get r k \<noteq> None)"

lemma rec_get_set [record_simps, simp]: "rec_get (rec_set k v r) j = (if j = k then Some v else rec_get r j)"
  by (simp add: update_conv')

lemma rec_has_set [record_simps, simp]: "rec_has (rec_set k v r) j \<longleftrightarrow> j = k \<or> rec_has r j"
  by (simp add: rec_has_def)

lemma distinct_keys_set [record_simps]: "distinct (rec_keys r) \<Longrightarrow> distinct (rec_keys (rec_set k v r))"
  by (simp add: distinct_update)

lemma rec_values_iff:
  "distinct (rec_keys r) \<Longrightarrow> v \<in> set (rec_values r) \<longleftrightarrow> (\<exists>k. rec_get r k = Some v)"
  by (force simp: map_of_eq_Some_iff)

lemma rec_has_iff_key: "rec_has r k \<longleftrightarrow> k \<in> set (rec_keys r)"
  by (auto simp: rec_has_def map_of_eq_None_iff)

text \<open>\<open>[...new Set(xs)]\<close>: the first occurrences, in order.\<close>

fun dedup_from :: "'a list \<Rightarrow> 'a list \<Rightarrow> 'a list" where
  "dedup_from seen [] = []"
| "dedup_from seen (x # xs) =
     (if x \<in> set seen then dedup_from seen xs else x # dedup_from (x # seen) xs)"

definition dedup :: "'a list \<Rightarrow> 'a list" where
  "dedup xs = dedup_from [] xs"

lemma set_dedup_from: "set (dedup_from seen xs) = set xs - set seen"
  by (induction xs arbitrary: seen) auto

lemma set_dedup [simp]: "set (dedup xs) = set xs"
  by (simp add: dedup_def set_dedup_from)

lemma distinct_dedup_from: "distinct (dedup_from seen xs)"
  by (induction xs arbitrary: seen) (auto simp: set_dedup_from)

lemma distinct_dedup [simp]: "distinct (dedup xs)"
  by (simp add: dedup_def distinct_dedup_from)

end
