(* ===== verification/Ordering.thy ===== *)
theory Ordering
  imports Prelude
begin

text \<open>
  \<open>Array.prototype.sort\<close> with a comparator, which is a stable sort, and the comparators the
  code passes to it. The interface of a comparator is the locale \<open>comparator\<close> (what the
  language asks of one: \<open>sgn (cmp x y) = - sgn (cmp y x)\<close> and transitivity); what sorting
  with one gives is proved inside it. \<open>localeCompare\<close> is an argument of the definitions
  that use it, because its order depends on the runtime's collation tables.
\<close>

section \<open>The sort\<close>

type_synonym 'a cmp = "'a \<Rightarrow> 'a \<Rightarrow> int"

fun insert_by :: "'a cmp \<Rightarrow> 'a \<Rightarrow> 'a list \<Rightarrow> 'a list" where
  "insert_by cmp x [] = [x]"
| "insert_by cmp x (y # ys) = (if cmp x y \<le> 0 then x # y # ys else y # insert_by cmp x ys)"

fun sort_by :: "'a cmp \<Rightarrow> 'a list \<Rightarrow> 'a list" where
  "sort_by cmp [] = []"
| "sort_by cmp (x # xs) = insert_by cmp x (sort_by cmp xs)"

lemma mset_insert_by [simp]: "mset (insert_by cmp x xs) = add_mset x (mset xs)"
  by (induction xs) auto

lemma mset_sort_by [simp]: "mset (sort_by cmp xs) = mset xs"
  by (induction xs) auto

lemma set_insert_by [simp]: "set (insert_by cmp x xs) = insert x (set xs)"
  by (induction xs) auto

lemma set_sort_by [simp]: "set (sort_by cmp xs) = set xs"
  by (induction xs) auto

lemma length_sort_by [simp]: "length (sort_by cmp xs) = length xs"
  by (metis mset_sort_by size_mset)

lemma insert_by_snoc: "cmp x y \<le> 0 \<Longrightarrow> insert_by cmp x (ys @ [y]) = insert_by cmp x ys @ [y]"
  by (induction ys) auto

lemma sort_by_snoc_greatest: "\<forall>x \<in> set xs. cmp x y \<le> 0 \<Longrightarrow> sort_by cmp (xs @ [y]) = sort_by cmp xs @ [y]"
  by (induction xs) (auto simp: insert_by_snoc)

lemma sort_by_Nil_iff [simp]: "sort_by cmp xs = [] \<longleftrightarrow> xs = []"
  by (metis length_0_conv length_sort_by)

section \<open>Comparators\<close>

locale comparator =
  fixes cmp :: "'a \<Rightarrow> 'a \<Rightarrow> int"
  assumes sgn_flip: "sgn (cmp x y) = - sgn (cmp y x)"
    and cmp_trans: "cmp x y \<le> 0 \<Longrightarrow> cmp y z \<le> 0 \<Longrightarrow> cmp x z \<le> 0"
begin

lemma flip_le: "0 < cmp x y \<longleftrightarrow> cmp y x < 0"
  using sgn_flip[of x y] by (auto simp: sgn_if split: if_splits)

lemma flip_eq: "cmp x y = 0 \<longleftrightarrow> cmp y x = 0"
  using sgn_flip[of x y] by (auto simp: sgn_if split: if_splits)

lemma total: "cmp x y \<le> 0 \<or> cmp y x \<le> 0"
  using flip_le[of x y] by linarith

lemma self [simp]: "cmp x x = 0"
  using sgn_flip[of x x] by (auto simp: sgn_if split: if_splits)

lemma sorted_insert_by:
  "sorted_wrt (\<lambda>a b. cmp a b \<le> 0) xs \<Longrightarrow> sorted_wrt (\<lambda>a b. cmp a b \<le> 0) (insert_by cmp x xs)"
proof (induction xs)
  case (Cons y ys)
  show ?case
  proof (cases "cmp x y \<le> 0")
    case True
    with Cons.prems show ?thesis by (auto intro: cmp_trans)
  next
    case False
    then have "cmp y x \<le> 0" using total by blast
    with False Cons show ?thesis by auto
  qed
qed simp

lemma sorted_sort_by: "sorted_wrt (\<lambda>a b. cmp a b \<le> 0) (sort_by cmp xs)"
  by (induction xs) (auto intro: sorted_insert_by)

lemma sort_by_head_least: "sort_by cmp xs = y # ys \<Longrightarrow> x \<in> set xs \<Longrightarrow> cmp y x \<le> 0"
proof -
  assume s: "sort_by cmp xs = y # ys" and x: "x \<in> set xs"
  have "x \<in> set (y # ys)" using x s by (metis set_sort_by)
  moreover have "sorted_wrt (\<lambda>a b. cmp a b \<le> 0) (y # ys)" using sorted_sort_by[of xs] s by simp
  ultimately show ?thesis by auto
qed

lemma insert_by_least: "\<forall>y \<in> set ys. cmp x y \<le> 0 \<Longrightarrow> insert_by cmp x ys = x # ys"
  by (cases ys) auto

lemma sort_by_sorted: "sorted_wrt (\<lambda>a b. cmp a b \<le> 0) xs \<Longrightarrow> sort_by cmp xs = xs"
  by (induction xs) (auto simp: insert_by_least)

end

text \<open>Comparing by an integer key, in either direction.\<close>

definition key_cmp :: "('a \<Rightarrow> int) \<Rightarrow> 'a cmp" where
  "key_cmp f x y = f x - f y"

definition then_cmp :: "'a cmp \<Rightarrow> 'a cmp \<Rightarrow> 'a cmp" where
  "then_cmp c d x y = (if c x y \<noteq> 0 then c x y else d x y)"

definition on_cmp :: "('a \<Rightarrow> 'b) \<Rightarrow> 'b cmp \<Rightarrow> 'a cmp" where
  "on_cmp f c x y = c (f x) (f y)"

definition flip_cmp :: "'a cmp \<Rightarrow> 'a cmp" where
  "flip_cmp c x y = c y x"

lemma comparator_key: "comparator (key_cmp f)"
  by unfold_locales (auto simp: key_cmp_def sgn_if)

lemma comparator_on: "comparator c \<Longrightarrow> comparator (on_cmp f c)"
  unfolding comparator_def on_cmp_def by blast

lemma comparator_flip: "comparator c \<Longrightarrow> comparator (flip_cmp c)"
  unfolding comparator_def flip_cmp_def by metis

lemma comparator_then:
  assumes "comparator c" and "comparator d"
  shows "comparator (then_cmp c d)"
proof (unfold_locales, goal_cases)
  case (1 x y)
  then show ?case
    using comparator.sgn_flip[OF assms(1), of x y] comparator.sgn_flip[OF assms(2), of x y]
      comparator.flip_eq[OF assms(1), of x y]
    by (simp add: then_cmp_def)
next
  case (2 x y z)
  have le: "c x y \<le> 0" "c y z \<le> 0" using 2 by (auto simp: then_cmp_def split: if_splits)
  then have xz: "c x z \<le> 0" by (rule comparator.cmp_trans[OF assms(1)])
  show ?case
  proof (cases "c x z = 0")
    case True
    then have zx: "c z x \<le> 0" using comparator.flip_eq[OF assms(1), of x z] by simp
    have "c z y \<le> 0" "c y x \<le> 0"
      using comparator.cmp_trans[OF assms(1)] zx le by blast+
    then have "c x y = 0" "c y z = 0"
      using le comparator.flip_le[OF assms(1), of x y] comparator.flip_le[OF assms(1), of y z]
        comparator.flip_le[OF assms(1), of y x] comparator.flip_le[OF assms(1), of z y] by linarith+
    then show ?thesis
      using 2 True comparator.cmp_trans[OF assms(2), of x y z] by (simp add: then_cmp_def)
  qed (use xz in \<open>simp add: then_cmp_def\<close>)
qed

text \<open>
  An order of strings to run the model with: by code units. It agrees with
  \<open>localeCompare\<close> on strings of digits of equal length and on strings of lower case
  letters.
\<close>

fun code_unit_compare :: "string cmp" where
  "code_unit_compare [] [] = 0"
| "code_unit_compare [] (y # ys) = -1"
| "code_unit_compare (x # xs) [] = 1"
| "code_unit_compare (x # xs) (y # ys) =
     (if x = y then code_unit_compare xs ys else (of_char x :: int) - of_char y)"

lemma code_unit_compare_flip: "code_unit_compare x y = - code_unit_compare y x"
  by (induction x y rule: code_unit_compare.induct) auto

lemma of_char_int_eq [simp]: "(of_char x :: int) = of_char y \<longleftrightarrow> x = y"
  by simp

lemma code_unit_compare_trans:
  "code_unit_compare x y \<le> 0 \<Longrightarrow> code_unit_compare y z \<le> 0 \<Longrightarrow> code_unit_compare x z \<le> 0"
proof (induction x y arbitrary: z rule: code_unit_compare.induct)
  case 1 then show ?case by simp
next
  case (2 y ys) then show ?case by (cases z) auto
next
  case (3 x xs) then show ?case by simp
next
  case (4 x xs y ys)
  then show ?case
  proof (cases z)
    case (Cons w ws)
    have neq: "(of_char a :: int) \<noteq> of_char b" if "a \<noteq> b" for a b using that by simp
    consider "x = y" | "x \<noteq> y" "(of_char x :: int) < of_char y"
      using 4(2) neq by (force split: if_splits)
    then show ?thesis
      by cases (use 4 Cons neq in \<open>auto split: if_splits\<close>, (smt (verit))?)
  qed auto
qed

interpretation code_units: comparator code_unit_compare
  by unfold_locales (metis code_unit_compare_flip sgn_minus, rule code_unit_compare_trans)

end
