(* ===== verification/Backlog_Model.thy ===== *)
theory Backlog_Model
  imports Ordering
begin

text \<open>
  \<open>packages/core/src/backlog.ts\<close> and \<open>packages/workflow/src/task-splitting.ts\<close>: tasks,
  features and epics, what makes a task executable, and how a task that keeps failing is
  split in two.
\<close>

section \<open>Data\<close>

datatype task_kind =
    Bootstrap | Analysis | Architecture | Planning | Implementation | Review | Testing
  | Documentation | Release

datatype task_status = Todo | In_Progress | In_Review | In_Testing | Done | Blocked | Superseded

datatype priority = P0 | P1 | P2 | P3

datatype estimated_risk = Risk_Low | Risk_Medium | Risk_High

datatype epic_status = Epic_Todo | Epic_In_Progress | Epic_Done | Epic_Blocked | Epic_Superseded

record epic =
  epic_id :: string
  epic_title :: string
  epic_goal :: string
  epic_state :: epic_status
  epic_features :: "string list"

record feature =
  feature_id :: string
  feature_epic :: string
  feature_title :: string
  feature_outcome :: string
  feature_risks :: "string list"
  feature_tasks :: "string list"

record task =
  task_id :: string
  task_feature :: string
  task_split_from :: "string option"
  task_title :: string
  task_kind :: task_kind
  task_status :: task_status
  task_priority :: priority
  task_depends :: "string list"
  task_criteria :: "string list"
  task_modules :: "string list"
  task_risk :: estimated_risk

record backlog =
  backlog_epics :: "epic jsrec"
  backlog_features :: "feature jsrec"
  backlog_tasks :: "task jsrec"

section \<open>Operations\<close>

fun priorityWeight :: "priority \<Rightarrow> int" where
  "priorityWeight P0 = 400"
| "priorityWeight P1 = 300"
| "priorityWeight P2 = 200"
| "priorityWeight P3 = 100"

text \<open>The kind of a task is never empty (its type has no empty member), so the second test
  of the source adds no issue.\<close>

definition validateBacklogTask :: "task \<Rightarrow> string list" where
  "validateBacklogTask t =
     (if task_criteria t = [] then [''Task '' @ task_id t @ '' must declare acceptance criteria''] else [])
     @ (if task_split_from t = Some (task_id t)
        then [''Task '' @ task_id t @ '' cannot split from itself''] else [])"

definition isExecutableTask :: "string list \<Rightarrow> string list \<Rightarrow> task \<Rightarrow> bool" where
  "isExecutableTask completed blocked t =
     (if task_status t \<noteq> Todo then False
      else if task_id t \<in> set blocked then False
      else if validateBacklogTask t \<noteq> [] then False
      else (\<forall>d \<in> set (task_depends t). d \<in> set completed))"

text \<open>An order on priorities, the most urgent greatest, for the library's automation.\<close>

instantiation priority :: linorder
begin

definition less_eq_priority :: "priority \<Rightarrow> priority \<Rightarrow> bool" where
  "p \<le> q \<longleftrightarrow> priorityWeight p \<le> priorityWeight q"

definition less_priority :: "priority \<Rightarrow> priority \<Rightarrow> bool" where
  "p < q \<longleftrightarrow> priorityWeight p < priorityWeight q"

instance
proof
  fix p q r :: priority
  show "p < q \<longleftrightarrow> p \<le> q \<and> \<not> q \<le> p" by (auto simp: less_eq_priority_def less_priority_def)
  show "p \<le> p" by (simp add: less_eq_priority_def)
  show "p \<le> q \<Longrightarrow> q \<le> r \<Longrightarrow> p \<le> r" by (simp add: less_eq_priority_def)
  show "p \<le> q \<Longrightarrow> q \<le> p \<Longrightarrow> p = q" by (cases p; cases q) (auto simp: less_eq_priority_def)
  show "p \<le> q \<or> q \<le> p" by (auto simp: less_eq_priority_def)
qed

end

section \<open>Splitting\<close>

record split_plan =
  plan_parent :: string
  plan_completion :: string
  plan_children :: "task \<times> task"
  plan_rationale :: string

fun boostPriority :: "priority \<Rightarrow> priority" where
  "boostPriority P3 = P2"
| "boostPriority P2 = P1"
| "boostPriority p = p"

definition splitAcceptanceCriteria :: "string list \<Rightarrow> string list \<times> string list" where
  "splitAcceptanceCriteria cs =
     (if length cs \<le> 1
      then ([''Implement the narrowest viable change for the parent task''],
            cs @ [''Validate the remaining integration path after the narrow change''])
      else (let midpoint = (length cs + 1) div 2 in (take midpoint cs, drop midpoint cs)))"

definition splitTaskForRetry :: "task \<Rightarrow> string \<Rightarrow> split_plan" where
  "splitTaskForRetry t reason =
     (let (firstCriteria, secondCriteria) = splitAcceptanceCriteria (task_criteria t);
          firstChildId = task_id t @ ''--part-1'';
          secondChildId = task_id t @ ''--part-2'';
          firstChild = t\<lparr>task_id := firstChildId, task_split_from := Some (task_id t),
                         task_title := task_title t @ '' [part 1]'',
                         task_priority := boostPriority (task_priority t),
                         task_depends := task_depends t, task_criteria := firstCriteria,
                         task_status := Todo\<rparr>;
          secondChild = t\<lparr>task_id := secondChildId, task_split_from := Some (task_id t),
                         task_title := task_title t @ '' [part 2]'',
                         task_priority := boostPriority (task_priority t),
                         task_depends := [firstChildId], task_criteria := secondCriteria,
                         task_status := Todo\<rparr>
      in \<lparr>plan_parent = task_id t, plan_completion = secondChildId,
          plan_children = (firstChild, secondChild),
          plan_rationale = ''Task '' @ task_id t @ '' was split after repeated failure: '' @ reason\<rparr>)"

abbreviation plan_child_list :: "split_plan \<Rightarrow> task list" where
  "plan_child_list p \<equiv> [fst (plan_children p), snd (plan_children p)]"

lemma boostPriority_ge: "p \<le> boostPriority p"
  by (cases p) (auto simp: less_eq_priority_def)

lemma boostPriority_not_P0: "boostPriority p = P0 \<longleftrightarrow> p = P0"
  by (cases p) auto

lemma splitAcceptanceCriteria_nonempty:
  "splitAcceptanceCriteria cs = (a, b) \<Longrightarrow> a \<noteq> [] \<and> b \<noteq> []"
  by (auto simp: splitAcceptanceCriteria_def Let_def split: if_splits)

lemma splitAcceptanceCriteria_covers:
  "splitAcceptanceCriteria cs = (a, b) \<Longrightarrow> set cs \<subseteq> set a \<union> set b"
  by (auto simp: splitAcceptanceCriteria_def Let_def split: if_splits)
     (metis Un_iff append_take_drop_id set_append)

lemma splitTaskForRetry_sel:
  "plan_completion (splitTaskForRetry t r) = task_id t @ ''--part-2''"
  "task_id (fst (plan_children (splitTaskForRetry t r))) = task_id t @ ''--part-1''"
  "task_id (snd (plan_children (splitTaskForRetry t r))) = task_id t @ ''--part-2''"
  "task_split_from (fst (plan_children (splitTaskForRetry t r))) = Some (task_id t)"
  "task_split_from (snd (plan_children (splitTaskForRetry t r))) = Some (task_id t)"
  "task_depends (fst (plan_children (splitTaskForRetry t r))) = task_depends t"
  "task_depends (snd (plan_children (splitTaskForRetry t r))) = [task_id t @ ''--part-1'']"
  "task_status (fst (plan_children (splitTaskForRetry t r))) = Todo"
  "task_status (snd (plan_children (splitTaskForRetry t r))) = Todo"
  "task_feature (fst (plan_children (splitTaskForRetry t r))) = task_feature t"
  "task_feature (snd (plan_children (splitTaskForRetry t r))) = task_feature t"
  "task_criteria (fst (plan_children (splitTaskForRetry t r))) = fst (splitAcceptanceCriteria (task_criteria t))"
  "task_criteria (snd (plan_children (splitTaskForRetry t r))) = snd (splitAcceptanceCriteria (task_criteria t))"
  "task_priority (fst (plan_children (splitTaskForRetry t r))) = boostPriority (task_priority t)"
  "task_priority (snd (plan_children (splitTaskForRetry t r))) = boostPriority (task_priority t)"
  by (simp_all add: splitTaskForRetry_def Let_def split: prod.splits)

lemma splitTaskForRetry_children_valid:
  "c \<in> set (plan_child_list (splitTaskForRetry t r)) \<Longrightarrow> validateBacklogTask c = []"
  using splitAcceptanceCriteria_nonempty[of "task_criteria t"]
  by (cases "splitAcceptanceCriteria (task_criteria t)")
     (auto simp: validateBacklogTask_def splitTaskForRetry_sel)

end
