(* ===== verification/Roles.thy ===== *)
theory Roles
  imports Prelude Complex_Main
begin

text \<open>
  \<open>packages/core/src/roles.ts\<close>, \<open>execution-policy-engine.ts\<close>, \<open>review.ts\<close>, \<open>testing.ts\<close> and
  \<open>code-execution.ts\<close>: the agent roles, what a role may do in a run, and the outputs the
  workflow reads. Loggers are left out. An \<open>AbortSignal\<close> is a number that identifies it;
  whether it has fired is a question to the environment (see \<open>Role_Runner\<close>).
\<close>

section \<open>Roles and tools\<close>

datatype agent_role =
    Bootstrap_Analyst | Architect | Planner | Release_Auditor | State_Steward
  | Integration_Manager | Task_Manager | Prompt_Engineer | Coder | Reviewer | Tester | Docs_Writer

record tool_profile =
  allowedWritePaths :: "string list"
  canWriteRepo :: bool
  canApproveChanges :: bool
  canRunTests :: bool

datatype tool_execution_policy = Orchestrator_Default | Read_Only_Analysis | Quality_Gate

datatype tool_permission_scope = Read_Only | Repo_Write | Test_Execution

datatype evidence_source = State_Snapshot | Runtime_Events | Artifacts_Source

datatype package_manager = Npm | Pnpm

datatype quality_gate_mode = Tooling | Synthetic

type_synonym signal = nat

record tool_execution_context =
  tx_policy :: tool_execution_policy
  tx_permissionScope :: tool_permission_scope
  tx_workspaceRoot :: string
  tx_evidenceSource :: evidence_source
  tx_packageManager :: "package_manager option"
  tx_qualityGateMode :: "quality_gate_mode option"

record execution_policy_rule =
  maxChangedFiles :: int
  forbiddenDirectories :: "string list"
  requiredChecks :: "string list"

record role_execution_context =
  cx_runId :: string
  cx_taskId :: "string option"
  cx_role :: agent_role
  cx_stateSummary :: string
  cx_toolProfile :: tool_profile
  cx_toolExecution :: tool_execution_context
  cx_policyRules :: "execution_policy_rule option"
  cx_abortSignal :: "signal option"

record 'o role_response =
  resp_role :: agent_role
  resp_summary :: string
  resp_output :: 'o
  resp_warnings :: "string list"
  resp_risks :: "string list"
  resp_needsHumanDecision :: bool
  resp_confidence :: rat

datatype tool_call_name =
    File_Read | File_Write | File_List | File_Exists | Git_Status | Git_Diff
  | Git_Current_Branch | Typescript_Check | Typescript_Diagnostics | Shell_Exec
  | Testing_Run | Diff_Workspace | Search_Repo

section \<open>The execution policy engine\<close>

record role_model_constraint =
  rc_policy :: tool_execution_policy
  rc_permissionScope :: tool_permission_scope
  rc_canWriteRepo :: bool
  rc_canRunTests :: bool

fun default_rules_by_policy :: "tool_execution_policy \<Rightarrow> execution_policy_rule" where
  "default_rules_by_policy Read_Only_Analysis =
     \<lparr>maxChangedFiles = 0, forbiddenDirectories = [''.git'', ''.github/workflows''], requiredChecks = []\<rparr>"
| "default_rules_by_policy Orchestrator_Default =
     \<lparr>maxChangedFiles = 50, forbiddenDirectories = [''.git'', ''.github/workflows''],
      requiredChecks = [''lint'', ''typecheck'']\<rparr>"
| "default_rules_by_policy Quality_Gate =
     \<lparr>maxChangedFiles = 0, forbiddenDirectories = [''.git'', ''.github/workflows''],
      requiredChecks = [''lint'', ''typecheck'', ''test'', ''build'']\<rparr>"

definition analysis_constraint :: role_model_constraint where
  "analysis_constraint = \<lparr>rc_policy = Read_Only_Analysis, rc_permissionScope = Read_Only,
     rc_canWriteRepo = False, rc_canRunTests = False\<rparr>"

definition quality_constraint :: role_model_constraint where
  "quality_constraint = \<lparr>rc_policy = Quality_Gate, rc_permissionScope = Test_Execution,
     rc_canWriteRepo = False, rc_canRunTests = True\<rparr>"

definition writer_constraint :: role_model_constraint where
  "writer_constraint = \<lparr>rc_policy = Orchestrator_Default, rc_permissionScope = Repo_Write,
     rc_canWriteRepo = True, rc_canRunTests = False\<rparr>"

fun role_model_constraints :: "agent_role \<Rightarrow> role_model_constraint" where
  "role_model_constraints Bootstrap_Analyst = analysis_constraint"
| "role_model_constraints Architect = analysis_constraint"
| "role_model_constraints Planner = analysis_constraint"
| "role_model_constraints Release_Auditor = quality_constraint"
| "role_model_constraints State_Steward = quality_constraint"
| "role_model_constraints Integration_Manager = writer_constraint"
| "role_model_constraints Task_Manager = analysis_constraint"
| "role_model_constraints Prompt_Engineer = analysis_constraint"
| "role_model_constraints Coder = writer_constraint"
| "role_model_constraints Reviewer = analysis_constraint"
| "role_model_constraints Tester = quality_constraint"
| "role_model_constraints Docs_Writer = writer_constraint"

record execution_policy_engine_input =
  pe_role :: agent_role
  pe_runId :: string
  pe_stateSummary :: string
  pe_workspaceRoot :: string
  pe_allowedWritePaths :: "string list"
  pe_evidenceSource :: evidence_source
  pe_packageManager :: "package_manager option"
  pe_qualityGateMode :: "quality_gate_mode option"
  pe_taskId :: "string option"
  pe_abortSignal :: "signal option"

definition resolve_policy :: "execution_policy_engine_input \<Rightarrow> role_execution_context" where
  "resolve_policy i =
     (let constraint = role_model_constraints (pe_role i);
          baseRules = default_rules_by_policy (rc_policy constraint)
      in \<lparr>cx_runId = pe_runId i, cx_taskId = when_truthy (pe_taskId i), cx_role = pe_role i,
          cx_stateSummary = pe_stateSummary i,
          cx_toolProfile =
            \<lparr>allowedWritePaths = (if rc_canWriteRepo constraint then pe_allowedWritePaths i else []),
             canWriteRepo = rc_canWriteRepo constraint, canApproveChanges = False,
             canRunTests = rc_canRunTests constraint\<rparr>,
          cx_toolExecution =
            \<lparr>tx_policy = rc_policy constraint, tx_permissionScope = rc_permissionScope constraint,
             tx_workspaceRoot = pe_workspaceRoot i, tx_evidenceSource = pe_evidenceSource i,
             tx_packageManager = pe_packageManager i, tx_qualityGateMode = pe_qualityGateMode i\<rparr>,
          cx_policyRules = Some baseRules, cx_abortSignal = pe_abortSignal i\<rparr>)"

section \<open>Outputs the workflow reads\<close>

record review_result =
  approved :: bool
  blockingIssues :: "string list"
  nonBlockingSuggestions :: "string list"
  missingTests :: "string list"
  review_notes :: "string list"

datatype quality_stage = Build_Stage | Lint_Stage | Typecheck_Stage | Test_Stage

fun quality_stage_text :: "quality_stage \<Rightarrow> string" where
  "quality_stage_text Build_Stage = ''build''"
| "quality_stage_text Lint_Stage = ''lint''"
| "quality_stage_text Typecheck_Stage = ''typecheck''"
| "quality_stage_text Test_Stage = ''test''"

datatype quality_status = Passing | Failing

record quality_stage_result =
  qs_stage :: quality_stage
  qs_status :: quality_status
  qs_diagnostics :: "string list"

record test_execution_result =
  test_passed :: bool
  testPlan :: "string list"
  test_evidence :: "string list"
  test_failures :: "string list"
  missingCoverage :: "string list"
  qualityStages :: "quality_stage_result list option"

definition isApproved :: "review_result \<Rightarrow> bool" where
  "isApproved r = (approved r \<and> length (blockingIssues r) = 0)"

definition isTestPassed :: "test_execution_result \<Rightarrow> bool" where
  "isTestPassed r = (test_passed r \<and> length (test_failures r) = 0)"

datatype evidence_type = Tool_Observation | Workspace_Diff | Artifact_Evidence | Llm_Decision | No_Op

record code_execution_evidence =
  ce_type :: evidence_type
  ce_description :: string
  ce_reference :: "string option"

record code_execution_output =
  changed :: bool
  code_summary :: string
  changedFiles :: "string list"
  code_evidence :: "code_execution_evidence list"
  noOpReason :: "string option"

text \<open>The outputs are typed, so the tests that a member is an array hold.\<close>

definition validateCodeExecutionOutput :: "code_execution_output \<Rightarrow> string list" where
  "validateCodeExecutionOutput out =
     (if blank (code_summary out) then [''Coder output summary is required''] else [])
     @ (if changed out then
          (if code_evidence out = [] then [''Coder output changed=true requires evidence''] else [])
          @ (if changedFiles out = [] then [''Coder output changed=true requires changedFiles''] else [])
        else if (case noOpReason out of None \<Rightarrow> True | Some r \<Rightarrow> blank r)
        then [''Coder output changed=false requires noOpReason''] else [])"

definition no_op_explained :: "code_execution_output \<Rightarrow> bool" where
  "no_op_explained out = (case noOpReason out of None \<Rightarrow> False | Some r \<Rightarrow> \<not> blank r)"

lemma validateCodeExecutionOutput_ok:
  "validateCodeExecutionOutput out = [] \<longleftrightarrow>
     \<not> blank (code_summary out) \<and>
     (if changed out then code_evidence out \<noteq> [] \<and> changedFiles out \<noteq> [] else no_op_explained out)"
  by (auto simp: validateCodeExecutionOutput_def no_op_explained_def split: option.splits)

text \<open>A role gets write access to the repository exactly when it is an integration
  manager, a coder or a documentation writer; a role without it has no writable path and no
  write permission scope; no role may approve changes; every role has rules that forbid
  the git directory and the workflow definitions.\<close>

theorem resolve_policy_least_privilege:
  "(canWriteRepo (cx_toolProfile (resolve_policy i)) \<longleftrightarrow>
      pe_role i \<in> {Integration_Manager, Coder, Docs_Writer})
   \<and> (tx_permissionScope (cx_toolExecution (resolve_policy i)) = Repo_Write \<longleftrightarrow>
      canWriteRepo (cx_toolProfile (resolve_policy i)))
   \<and> allowedWritePaths (cx_toolProfile (resolve_policy i)) =
       (if canWriteRepo (cx_toolProfile (resolve_policy i)) then pe_allowedWritePaths i else [])
   \<and> (canRunTests (cx_toolProfile (resolve_policy i)) \<longleftrightarrow>
      tx_permissionScope (cx_toolExecution (resolve_policy i)) = Test_Execution)
   \<and> \<not> canApproveChanges (cx_toolProfile (resolve_policy i))
   \<and> map_option forbiddenDirectories (cx_policyRules (resolve_policy i))
       = Some [''.git'', ''.github/workflows'']"
  by (cases "pe_role i")
     (simp_all add: resolve_policy_def analysis_constraint_def quality_constraint_def writer_constraint_def)

end
