(* ===== verification/Timestamps.thy ===== *)
theory Timestamps
  imports Ordering
begin

text \<open>
  Timestamp strings. The code passes instants around as the text of
  \<open>Date.prototype.toISOString\<close> and reads them back with \<open>Date.parse\<close> or
  \<open>new Date(s).getTime()\<close>. \<open>Iso t\<close> is that text for the instant \<open>t\<close> (milliseconds since
  the epoch); \<open>Other_Text s\<close> is a string that does not parse. Reading the second kind gives
  \<open>NaN\<close>, which is \<open>None\<close> here: every comparison with it is false, and
  \<open>new Date(NaN).toISOString()\<close> throws a \<open>RangeError\<close>. On the first kind
  \<open>localeCompare\<close> is the order of the instants (fixed-width digits, years 0 to 9999).
\<close>

datatype stamp = Iso int | Other_Text string

fun date_ms :: "stamp \<Rightarrow> int option" where
  "date_ms (Iso t) = Some t"
| "date_ms (Other_Text s) = None"

definition to_iso :: "int option \<Rightarrow> stamp result" where
  "to_iso t = (case t of None \<Rightarrow> Inl (Js_Error RangeError ''Invalid time value'' [])
                       | Some ms \<Rightarrow> Inr (Iso ms))"

definition num_add :: "int option \<Rightarrow> int \<Rightarrow> int option" where
  "num_add x d = map_option (\<lambda>v. v + d) x"

definition num_lt :: "int option \<Rightarrow> int option \<Rightarrow> bool" where
  "num_lt x y = (case (x, y) of (Some a, Some b) \<Rightarrow> a < b | _ \<Rightarrow> False)"

definition num_le :: "int option \<Rightarrow> int option \<Rightarrow> bool" where
  "num_le x y = (case (x, y) of (Some a, Some b) \<Rightarrow> a \<le> b | _ \<Rightarrow> False)"

fun stamp_compare :: "stamp cmp" where
  "stamp_compare (Iso a) (Iso b) = a - b"
| "stamp_compare (Iso a) (Other_Text s) = -1"
| "stamp_compare (Other_Text s) (Iso b) = 1"
| "stamp_compare (Other_Text s) (Other_Text t) = code_unit_compare s t"

definition stamp_blank :: "stamp \<Rightarrow> bool" where
  "stamp_blank s = (s = Other_Text [])"

lemma num_simps [simp]:
  "num_lt (Some a) (Some b) = (a < b)" "num_le (Some a) (Some b) = (a \<le> b)"
  "\<not> num_lt None y" "\<not> num_lt x None" "\<not> num_le None y" "\<not> num_le x None"
  "num_add (Some a) d = Some (a + d)" "num_add None d = None"
  "to_iso (Some t) = Inr (Iso t)"
  by (auto simp: num_lt_def num_le_def num_add_def to_iso_def split: option.splits)

lemma to_iso_Inr: "to_iso t = Inr s \<longleftrightarrow> (\<exists>ms. t = Some ms \<and> s = Iso ms)"
  by (auto simp: to_iso_def split: option.splits)

lemma stamp_compare_trans:
  "stamp_compare x y \<le> 0 \<Longrightarrow> stamp_compare y z \<le> 0 \<Longrightarrow> stamp_compare x z \<le> 0"
  by (cases x; cases y; cases z) (auto intro: code_unit_compare_trans)

lemma stamp_compare_neg: "stamp_compare x y = - stamp_compare y x"
  by (cases x; cases y) (simp_all, rule code_unit_compare_flip)

lemma stamp_compare_flip: "sgn (stamp_compare x y) = - sgn (stamp_compare y x)"
  by (subst stamp_compare_neg) simp

interpretation stamps: comparator stamp_compare
  by unfold_locales (rule stamp_compare_flip, rule stamp_compare_trans)

text \<open>Newest first and oldest first, the two orders the stores list records in.\<close>

definition newest_first :: "('a \<Rightarrow> stamp) \<Rightarrow> 'a list \<Rightarrow> 'a list" where
  "newest_first f = sort_by (flip_cmp (on_cmp f stamp_compare))"

definition oldest_first :: "('a \<Rightarrow> stamp) \<Rightarrow> 'a list \<Rightarrow> 'a list" where
  "oldest_first f = sort_by (on_cmp f stamp_compare)"

lemma set_newest_first [simp]: "set (newest_first f xs) = set xs"
  by (simp add: newest_first_def)

lemma mset_oldest_first [simp]: "mset (oldest_first f xs) = mset xs"
  by (simp add: oldest_first_def)

lemma set_oldest_first [simp]: "set (oldest_first f xs) = set xs"
  by (simp add: oldest_first_def)

lemma newest_first_comparator: "comparator (flip_cmp (on_cmp f stamp_compare))"
  by (intro comparator_flip comparator_on stamps.comparator_axioms)

lemma oldest_first_comparator: "comparator (on_cmp f stamp_compare)"
  by (intro comparator_on stamps.comparator_axioms)

lemma newest_first_head:
  assumes "newest_first f xs = y # ys" and "x \<in> set xs"
  shows "stamp_compare (f x) (f y) \<le> 0"
  using comparator.sort_by_head_least[OF newest_first_comparator[of f], of xs y ys x] assms
  by (simp add: newest_first_def flip_cmp_def on_cmp_def)

lemma oldest_first_sorted:
  "sorted_wrt (\<lambda>a b. stamp_compare (f a) (f b) \<le> 0) xs \<Longrightarrow> oldest_first f xs = xs"
  using comparator.sort_by_sorted[OF oldest_first_comparator[of f], of xs]
  by (simp add: oldest_first_def on_cmp_def)

end
