(* ===== verification/Policy.thy ===== *)
theory Policy
  imports Timestamps
begin

text \<open>
  Policy decisions: \<open>packages/core/src/execution-policy-decision.ts\<close>,
  \<open>policy/policy-outcome.ts\<close>, \<open>policy/risk-classification.ts\<close>,
  \<open>policy-decision-errors.ts\<close>, \<open>autonomy/autonomy-level.ts\<close> of the core package, and
  \<open>policy-engine/evaluate-policy.ts\<close>, \<open>autonomy/level-controller.ts\<close>,
  \<open>policy-decision-contract.ts\<close> and \<open>policy/risk-mapper.ts\<close> of the application package.

  A Zod schema is modelled by the predicate its literal states (\<open>z.string().min(1)\<close> is
  "not empty", an enumeration holds by typing, \<open>superRefine\<close> is its body). The wording of
  Zod's own messages is not code of the repository: the functions that return issue texts
  take the list of Zod's messages as an argument.
\<close>

section \<open>Data\<close>

datatype action_type = Git_Commit | Git_Push | Pr_Draft | Artifact_Write | External_Api

datatype risk_level = Low | Medium | High

datatype decision_result = Allow | Deny | Decision_Error

record policy_decision =
  pd_decisionId :: string
  pd_tenantId :: string
  pd_projectId :: string
  pd_runId :: string
  pd_stepId :: string
  pd_attempt :: int
  pd_actionType :: action_type
  pd_riskLevel :: risk_level
  pd_decision :: decision_result
  pd_reasonCodes :: "string list"
  pd_decidedAt :: stamp
  pd_decider :: string
  pd_inputHash :: string
  pd_traceId :: string
  pd_policyVersion :: string

text \<open>The order of \<open>RISK_ORDER\<close>.\<close>

fun risk_order :: "risk_level \<Rightarrow> nat" where
  "risk_order Low = 0"
| "risk_order Medium = 1"
| "risk_order High = 2"

instantiation risk_level :: linorder
begin

definition less_eq_risk_level :: "risk_level \<Rightarrow> risk_level \<Rightarrow> bool" where
  "a \<le> b \<longleftrightarrow> risk_order a \<le> risk_order b"

definition less_risk_level :: "risk_level \<Rightarrow> risk_level \<Rightarrow> bool" where
  "a < b \<longleftrightarrow> risk_order a < risk_order b"

instance
proof
  fix a b c :: risk_level
  show "a < b \<longleftrightarrow> a \<le> b \<and> \<not> b \<le> a" by (auto simp: less_eq_risk_level_def less_risk_level_def)
  show "a \<le> a" by (simp add: less_eq_risk_level_def)
  show "a \<le> b \<Longrightarrow> b \<le> c \<Longrightarrow> a \<le> c" by (simp add: less_eq_risk_level_def)
  show "a \<le> b \<Longrightarrow> b \<le> a \<Longrightarrow> a = b" by (cases a; cases b) (auto simp: less_eq_risk_level_def)
  show "a \<le> b \<or> b \<le> a" by (auto simp: less_eq_risk_level_def)
qed

end

section \<open>Validation of a decision\<close>

text \<open>\<open>is_iso\<close> stands for \<open>z.iso.datetime({ offset: true })\<close>.\<close>

definition executionPolicyDecisionSchema :: "(stamp \<Rightarrow> bool) \<Rightarrow> policy_decision \<Rightarrow> bool" where
  "executionPolicyDecisionSchema is_iso d =
     (pd_decisionId d \<noteq> [] \<and> pd_tenantId d \<noteq> [] \<and> pd_projectId d \<noteq> [] \<and> pd_runId d \<noteq> []
      \<and> pd_stepId d \<noteq> [] \<and> 0 \<le> pd_attempt d \<and> [] \<notin> set (pd_reasonCodes d)
      \<and> is_iso (pd_decidedAt d) \<and> pd_decider d \<noteq> [] \<and> pd_inputHash d \<noteq> [] \<and> pd_traceId d \<noteq> []
      \<and> pd_policyVersion d \<noteq> []
      \<and> \<not> (pd_decision d \<noteq> Allow \<and> length (pd_reasonCodes d) = 0))"

record decision_validation_context =
  dc_tenantId :: "string option"
  dc_projectId :: "string option"
  dc_runId :: "string option"

text \<open>\<open>zod\<close> is the list \<open>parsed.error.issues\<close> gives, rendered; empty when the parse succeeds.\<close>

definition validateExecutionPolicyDecision ::
  "(policy_decision \<Rightarrow> string list) \<Rightarrow> policy_decision \<Rightarrow> decision_validation_context \<Rightarrow> string list" where
  "validateExecutionPolicyDecision zod d c =
     zod d
     @ (case dc_tenantId c of Some t \<Rightarrow>
          if pd_tenantId d \<noteq> t then [''tenantId: decision tenantId does not match project state orgId''] else []
        | None \<Rightarrow> [])
     @ (case dc_projectId c of Some p \<Rightarrow>
          if pd_projectId d \<noteq> p then [''projectId: decision projectId does not match project state projectId''] else []
        | None \<Rightarrow> [])
     @ (case dc_runId c of Some r \<Rightarrow>
          if pd_runId d \<noteq> r then [''runId: decision runId does not match execution activeRunId''] else []
        | None \<Rightarrow> [])"

datatype policy_error_code = POLICY_DENIED | POLICY_DECISION_MISSING | POLICY_DECISION_STALE

fun action_type_text :: "action_type \<Rightarrow> string" where
  "action_type_text Git_Commit = ''git_commit''"
| "action_type_text Git_Push = ''git_push''"
| "action_type_text Pr_Draft = ''pr_draft''"
| "action_type_text Artifact_Write = ''artifact_write''"
| "action_type_text External_Api = ''external_api''"

fun formatPolicyDecisionError :: "policy_error_code \<Rightarrow> string \<Rightarrow> string" where
  "formatPolicyDecisionError POLICY_DENIED a = ''Policy denied side-effect action: '' @ a"
| "formatPolicyDecisionError POLICY_DECISION_MISSING a =
     ''Persisted policy decision is missing for side-effect action: '' @ a"
| "formatPolicyDecisionError POLICY_DECISION_STALE a =
     ''Persisted policy decision is stale for side-effect action: '' @ a"

definition assertPolicyDecisionForAction ::
  "(policy_decision \<Rightarrow> string list) \<Rightarrow> policy_decision option \<Rightarrow> action_type \<Rightarrow>
   string \<Rightarrow> string \<Rightarrow> string \<Rightarrow> policy_decision result" where
  "assertPolicyDecisionForAction zod decision action tenant project run =
     (case decision of
        None \<Rightarrow> Inl (Js_Error PlainError (formatPolicyDecisionError POLICY_DECISION_MISSING (action_type_text action)) [])
      | Some d \<Rightarrow>
          if validateExecutionPolicyDecision zod d
               \<lparr>dc_tenantId = Some tenant, dc_projectId = Some project, dc_runId = Some run\<rparr> \<noteq> []
          then Inl (Js_Error PlainError (formatPolicyDecisionError POLICY_DECISION_STALE (action_type_text action)) [])
          else if pd_decision d \<noteq> Allow
          then Inl (Js_Error PlainError (formatPolicyDecisionError POLICY_DENIED (action_type_text action)) [])
          else Inr d)"

section \<open>Risk of an action\<close>

datatype ownership_team = Orchestration_Team | Release_Team | Security_Team | Platform_Team

datatype approval_action =
    Appr_Git_Push | Appr_Pr_Draft | Appr_Db_Migration | Appr_File_Delete
  | Appr_Api_Breaking_Change | Appr_Dependency_Bump | Appr_Security_Auth_Change
  | Appr_Production_Config_Change | Appr_Bulk_File_Change

record 'a risk_classification =
  rk_action :: 'a
  rk_riskLevel :: risk_level
  rk_owner :: ownership_team

definition classification :: "'a \<Rightarrow> risk_level \<Rightarrow> ownership_team \<Rightarrow> 'a risk_classification" where
  "classification a r t = \<lparr>rk_action = a, rk_riskLevel = r, rk_owner = t\<rparr>"

fun classifyExecutionPolicyActionRisk :: "action_type \<Rightarrow> action_type risk_classification" where
  "classifyExecutionPolicyActionRisk Artifact_Write = classification Artifact_Write Low Orchestration_Team"
| "classifyExecutionPolicyActionRisk External_Api = classification External_Api High Security_Team"
| "classifyExecutionPolicyActionRisk Git_Commit = classification Git_Commit Medium Release_Team"
| "classifyExecutionPolicyActionRisk Git_Push = classification Git_Push High Release_Team"
| "classifyExecutionPolicyActionRisk Pr_Draft = classification Pr_Draft High Release_Team"

fun classifyApprovalRequestedActionRisk :: "approval_action \<Rightarrow> approval_action risk_classification" where
  "classifyApprovalRequestedActionRisk Appr_Git_Push = classification Appr_Git_Push High Release_Team"
| "classifyApprovalRequestedActionRisk Appr_Pr_Draft = classification Appr_Pr_Draft High Release_Team"
| "classifyApprovalRequestedActionRisk Appr_Db_Migration = classification Appr_Db_Migration High Platform_Team"
| "classifyApprovalRequestedActionRisk Appr_File_Delete = classification Appr_File_Delete High Orchestration_Team"
| "classifyApprovalRequestedActionRisk Appr_Api_Breaking_Change = classification Appr_Api_Breaking_Change High Orchestration_Team"
| "classifyApprovalRequestedActionRisk Appr_Dependency_Bump = classification Appr_Dependency_Bump Medium Security_Team"
| "classifyApprovalRequestedActionRisk Appr_Security_Auth_Change = classification Appr_Security_Auth_Change High Security_Team"
| "classifyApprovalRequestedActionRisk Appr_Production_Config_Change = classification Appr_Production_Config_Change High Platform_Team"
| "classifyApprovalRequestedActionRisk Appr_Bulk_File_Change = classification Appr_Bulk_File_Change High Orchestration_Team"

lemma classifyExecutionPolicyActionRisk_action [simp]: "rk_action (classifyExecutionPolicyActionRisk a) = a"
  by (cases a) (simp_all add: classification_def)

lemma classifyApprovalRequestedActionRisk_action [simp]: "rk_action (classifyApprovalRequestedActionRisk a) = a"
  by (cases a) (simp_all add: classification_def)

lemma approval_risk_not_low: "rk_riskLevel (classifyApprovalRequestedActionRisk a) \<noteq> Low"
  by (cases a) (simp_all add: classification_def)

section \<open>Policy outcomes\<close>

datatype outcome_type = Out_Allow | Out_Deny | Out_Requires_Approval | Out_Defer

record policy_outcome =
  outcome :: outcome_type
  reasonCodes :: "string list"
  rationale :: string

definition policyOutcomeSchema :: "policy_outcome \<Rightarrow> bool" where
  "policyOutcomeSchema o1 =
     ([] \<notin> set (reasonCodes o1) \<and> rationale o1 \<noteq> []
      \<and> \<not> (outcome o1 = Out_Allow \<and> 0 < length (reasonCodes o1))
      \<and> \<not> (outcome o1 \<noteq> Out_Allow \<and> length (reasonCodes o1) = 0))"

text \<open>\<open>policyOutcomeSchema.parse\<close> returns its argument or throws.\<close>

definition parse_outcome :: "policy_outcome \<Rightarrow> policy_outcome result" where
  "parse_outcome o1 =
     (if policyOutcomeSchema o1 then Inr o1 else Inl (Js_Error PlainError ''ZodError'' []))"

record evaluate_policy_input =
  ep_riskLevel :: risk_level
  ep_requiresApproval :: bool
  ep_isPolicyBackendHealthy :: bool
  ep_denyReasonCodes :: "string list option"

fun outcome_by_risk :: "risk_level \<Rightarrow> outcome_type" where
  "outcome_by_risk Low = Out_Allow"
| "outcome_by_risk Medium = Out_Requires_Approval"
| "outcome_by_risk High = Out_Deny"

definition evaluatePolicy :: "evaluate_policy_input \<Rightarrow> policy_outcome result" where
  "evaluatePolicy i =
     (if \<not> ep_isPolicyBackendHealthy i then
        parse_outcome \<lparr>outcome = Out_Defer, reasonCodes = [''policy_backend_unavailable''],
          rationale = ''Policy backend unavailable; action deferred until policy service recovers.''\<rparr>
      else if (case ep_denyReasonCodes i of None \<Rightarrow> False | Some cs \<Rightarrow> 0 < length cs) then
        parse_outcome \<lparr>outcome = Out_Deny, reasonCodes = dedup (or_default (ep_denyReasonCodes i) []),
          rationale = ''Action explicitly denied by policy reason codes.''\<rparr>
      else let baseOutcome = outcome_by_risk (ep_riskLevel i) in
        if ep_requiresApproval i \<and> baseOutcome \<noteq> Out_Deny then
          parse_outcome \<lparr>outcome = Out_Requires_Approval, reasonCodes = [''manual_approval_required''],
            rationale = ''Action requires explicit approval before execution.''\<rparr>
        else if baseOutcome = Out_Allow then
          parse_outcome \<lparr>outcome = Out_Allow, reasonCodes = [],
            rationale = ''Risk level within autonomous execution allowance.''\<rparr>
        else if baseOutcome = Out_Requires_Approval then
          parse_outcome \<lparr>outcome = Out_Requires_Approval, reasonCodes = [''risk_moderate''],
            rationale = ''Moderate risk action requires approval by default policy.''\<rparr>
        else parse_outcome \<lparr>outcome = Out_Deny, reasonCodes = [''risk_high''],
            rationale = ''High risk action denied by default policy.''\<rparr>)"

section \<open>Autonomy levels\<close>

datatype autonomy_level = L0 | L1 | L2 | L3 | L4 | L5

record autonomy_profile =
  ap_level :: autonomy_level
  ap_maxRiskLevel :: risk_level
  ap_allowAutomatedExecution :: bool
  ap_requiresHumanApproval :: bool
  ap_allowSideEffects :: bool

definition autonomy_profile_of ::
  "autonomy_level \<Rightarrow> risk_level \<Rightarrow> bool \<Rightarrow> bool \<Rightarrow> bool \<Rightarrow> autonomy_profile" where
  "autonomy_profile_of l r automated human effects =
     \<lparr>ap_level = l, ap_maxRiskLevel = r, ap_allowAutomatedExecution = automated,
      ap_requiresHumanApproval = human, ap_allowSideEffects = effects\<rparr>"

fun getAutonomyPolicyProfile :: "autonomy_level \<Rightarrow> autonomy_profile" where
  "getAutonomyPolicyProfile L0 = autonomy_profile_of L0 Low False True False"
| "getAutonomyPolicyProfile L1 = autonomy_profile_of L1 Low False True False"
| "getAutonomyPolicyProfile L2 = autonomy_profile_of L2 Low True True False"
| "getAutonomyPolicyProfile L3 = autonomy_profile_of L3 Medium True True True"
| "getAutonomyPolicyProfile L4 = autonomy_profile_of L4 Medium True False True"
| "getAutonomyPolicyProfile L5 = autonomy_profile_of L5 High True False True"

record autonomy_input =
  al_autonomyLevel :: autonomy_level
  al_riskLevel :: risk_level
  al_requestedSideEffects :: "bool option"
  al_emergencyStop :: "bool option"

record autonomy_decision =
  ad_autonomyLevel :: autonomy_level
  ad_profile :: autonomy_profile
  ad_outcome :: policy_outcome

definition isRiskAllowed :: "risk_level \<Rightarrow> risk_level \<Rightarrow> bool" where
  "isRiskAllowed r m = (risk_order r \<le> risk_order m)"

definition evaluateAutonomyLevel :: "autonomy_input \<Rightarrow> autonomy_decision" where
  "evaluateAutonomyLevel i =
     (let level = al_autonomyLevel i; profile = getAutonomyPolicyProfile level;
          decide = (\<lambda>o1. \<lparr>ad_autonomyLevel = level, ad_profile = profile, ad_outcome = o1\<rparr>)
      in if or_default (al_emergencyStop i) False then
           decide \<lparr>outcome = Out_Deny, reasonCodes = [''emergency_stop_active''],
             rationale = ''Emergency stop is active; autonomous actions are denied.''\<rparr>
         else if or_default (al_requestedSideEffects i) False \<and> \<not> ap_allowSideEffects profile then
           decide \<lparr>outcome = Out_Deny, reasonCodes = [''side_effects_not_allowed_for_autonomy_level''],
             rationale = ''Current autonomy level does not permit side-effect actions.''\<rparr>
         else if \<not> isRiskAllowed (al_riskLevel i) (ap_maxRiskLevel profile) then
           decide \<lparr>outcome = Out_Deny, reasonCodes = [''risk_above_autonomy_threshold''],
             rationale = ''Requested risk level exceeds autonomy threshold.''\<rparr>
         else if ap_requiresHumanApproval profile then
           decide \<lparr>outcome = Out_Requires_Approval, reasonCodes = [''autonomy_level_requires_human_approval''],
             rationale = ''Policy requires human approval for this autonomy level.''\<rparr>
         else if \<not> ap_allowAutomatedExecution profile then
           decide \<lparr>outcome = Out_Defer, reasonCodes = [''autonomy_level_disables_automation''],
             rationale = ''Autonomous execution is disabled for this autonomy level.''\<rparr>
         else decide \<lparr>outcome = Out_Allow, reasonCodes = [],
             rationale = ''Action allowed by autonomy level policy profile.''\<rparr>)"

lemma parse_outcome_Inr: "parse_outcome o1 = Inr o2 \<longleftrightarrow> policyOutcomeSchema o1 \<and> o2 = o1"
  by (auto simp: parse_outcome_def)

lemmas evaluatePolicy_unfold = evaluatePolicy_def parse_outcome_def policyOutcomeSchema_def Let_def

text \<open>C2. The policy evaluator allows an action exactly when the backend is healthy, no deny
  code is given, no approval is required and the risk is low; every outcome it returns
  satisfies the outcome schema; and it throws exactly when a healthy backend meets an empty
  deny code.\<close>

theorem evaluatePolicy_allows_only_low_risk:
  "(case evaluatePolicy i of
      Inr o1 \<Rightarrow> policyOutcomeSchema o1
        \<and> (outcome o1 = Out_Allow \<longleftrightarrow> ep_isPolicyBackendHealthy i
             \<and> or_default (ep_denyReasonCodes i) [] = [] \<and> \<not> ep_requiresApproval i \<and> ep_riskLevel i = Low)
        \<and> \<not> (ep_isPolicyBackendHealthy i \<and> [] \<in> set (or_default (ep_denyReasonCodes i) []))
    | Inl e \<Rightarrow> ep_isPolicyBackendHealthy i \<and> [] \<in> set (or_default (ep_denyReasonCodes i) []))"
proof -
  have len: "dedup cs \<noteq> []" if "cs \<noteq> []" for cs :: "string list"
    using that set_dedup[of cs] by (metis set_empty)
  show ?thesis
    by (cases "ep_denyReasonCodes i"; cases "ep_riskLevel i")
       (auto simp: evaluatePolicy_unfold len)
qed

text \<open>Under the autonomy profiles an action is allowed without a human exactly at levels
  L4 and L5, up to the profile's risk and while the emergency stop is off; side effects that
  the profile forbids are denied; and the outcome "defer", which the code has a branch for, is
  never returned, since every profile without automated execution also requires a human.\<close>

theorem evaluateAutonomyLevel_gates:
  "(outcome (ad_outcome (evaluateAutonomyLevel i)) = Out_Allow \<longleftrightarrow>
      \<not> or_default (al_emergencyStop i) False
      \<and> al_autonomyLevel i \<in> {L4, L5}
      \<and> al_riskLevel i \<le> ap_maxRiskLevel (getAutonomyPolicyProfile (al_autonomyLevel i)))
   \<and> (or_default (al_requestedSideEffects i) False \<and> al_autonomyLevel i \<in> {L0, L1, L2} \<longrightarrow>
      outcome (ad_outcome (evaluateAutonomyLevel i)) = Out_Deny)
   \<and> outcome (ad_outcome (evaluateAutonomyLevel i)) \<noteq> Out_Defer
   \<and> policyOutcomeSchema (ad_outcome (evaluateAutonomyLevel i))"
  by (cases "al_autonomyLevel i"; cases "al_riskLevel i")
     (auto simp: evaluateAutonomyLevel_def Let_def autonomy_profile_of_def isRiskAllowed_def
        less_eq_risk_level_def policyOutcomeSchema_def)

text \<open>The theorem above at a side effect requested at level L2.\<close>

theorem evaluateAutonomyLevel_gates_witness:
  "outcome (ad_outcome (evaluateAutonomyLevel
     \<lparr>al_autonomyLevel = L2, al_riskLevel = Low, al_requestedSideEffects = Some True,
      al_emergencyStop = None\<rparr>)) = Out_Deny"
  using evaluateAutonomyLevel_gates
    [of "\<lparr>al_autonomyLevel = L2, al_riskLevel = Low, al_requestedSideEffects = Some True,
          al_emergencyStop = None\<rparr>"]
  by simp

end
