(* ===== verification/Effects.thy ===== *)
theory Effects
  imports Prelude
begin

text \<open>
  Code that reads and writes shared objects and may throw: a function from the state of the
  world to a result and the state it leaves. A throw does not undo the writes made before
  it, as in the source. The combinators are the sequence, \<open>if\<close>, \<open>for\<close>, \<open>try/catch\<close> and
  \<open>try/finally\<close> of the handlers. \<open>preserves P m\<close> says that \<open>m\<close> keeps \<open>P\<close> whether it
  returns or throws; its rules are collected in \<open>preserves_intros\<close>.
\<close>

type_synonym ('s, 'a) act = "'s \<Rightarrow> 'a result \<times> 's"

definition ret :: "'a \<Rightarrow> ('s, 'a) act" where
  "ret x s = (Inr x, s)"

definition throw :: "js_error \<Rightarrow> ('s, 'a) act" where
  "throw e s = (Inl e, s)"

definition bindA :: "('s, 'a) act \<Rightarrow> ('a \<Rightarrow> ('s, 'b) act) \<Rightarrow> ('s, 'b) act" where
  "bindA m f s = (case m s of (Inl e, s') \<Rightarrow> (Inl e, s') | (Inr x, s') \<Rightarrow> f x s')"

definition thenA :: "('s, 'a) act \<Rightarrow> ('s, 'b) act \<Rightarrow> ('s, 'b) act" where
  "thenA m k = bindA m (\<lambda>_. k)"

definition getA :: "('s \<Rightarrow> 'a) \<Rightarrow> ('s, 'a) act" where
  "getA f s = (Inr (f s), s)"

definition modA :: "('s \<Rightarrow> 's) \<Rightarrow> ('s, unit) act" where
  "modA f s = (Inr (), f s)"

definition liftA :: "'a result \<Rightarrow> ('s, 'a) act" where
  "liftA r s = (r, s)"

definition whenA :: "bool \<Rightarrow> ('s, unit) act \<Rightarrow> ('s, unit) act" where
  "whenA b m = (if b then m else ret ())"

definition catchA :: "('s, 'a) act \<Rightarrow> (js_error \<Rightarrow> ('s, 'a) act) \<Rightarrow> ('s, 'a) act" where
  "catchA m h s = (case m s of (Inl e, s') \<Rightarrow> h e s' | (Inr x, s') \<Rightarrow> (Inr x, s'))"

definition finallyA :: "('s, 'a) act \<Rightarrow> ('s, unit) act \<Rightarrow> ('s, 'a) act" where
  "finallyA m f s = (case m s of (r, s') \<Rightarrow> (case f s' of (Inl e, s'') \<Rightarrow> (Inl e, s'')
                                                         | (Inr _, s'') \<Rightarrow> (r, s'')))"

fun forA :: "'a list \<Rightarrow> ('a \<Rightarrow> ('s, unit) act) \<Rightarrow> ('s, unit) act" where
  "forA [] f = ret ()"
| "forA (x # xs) f = thenA (f x) (forA xs f)"

lemmas act_defs = ret_def throw_def bindA_def thenA_def getA_def modA_def liftA_def whenA_def
  catchA_def finallyA_def

lemma bindA_ret [simp]: "bindA (ret x) f = f x"
  by (rule ext) (simp add: bindA_def ret_def)

lemma bindA_throw [simp]: "bindA (throw e) f = throw e"
  by (rule ext) (simp add: bindA_def throw_def)

lemma bindA_assoc: "bindA (bindA m f) g = bindA m (\<lambda>x. bindA (f x) g)"
  by (rule ext) (auto simp: bindA_def split: prod.splits sum.splits)

lemma bindA_run:
  "m s = (Inr x, s') \<Longrightarrow> bindA m f s = f x s'"
  "m s = (Inl e, s') \<Longrightarrow> bindA m f s = (Inl e, s')"
  by (simp_all add: bindA_def)

lemma bindA_Inr_iff:
  "bindA m f s = (Inr y, t) \<longleftrightarrow> (\<exists>x s'. m s = (Inr x, s') \<and> f x s' = (Inr y, t))"
  by (auto simp: bindA_def split: prod.splits sum.splits)

section \<open>Invariants of actions\<close>

definition preserves :: "('s \<Rightarrow> bool) \<Rightarrow> ('s, 'a) act \<Rightarrow> bool" where
  "preserves P m = (\<forall>s. P s \<longrightarrow> P (snd (m s)))"

lemma preservesD: "preserves P m \<Longrightarrow> P s \<Longrightarrow> P (snd (m s))"
  by (simp add: preserves_def)

lemma preserves_ret [preserves_intros]: "preserves P (ret x)"
  by (simp add: preserves_def ret_def)

lemma preserves_throw [preserves_intros]: "preserves P (throw e)"
  by (simp add: preserves_def throw_def)

lemma preserves_liftA [preserves_intros]: "preserves P (liftA r)"
  by (simp add: preserves_def liftA_def)

lemma preserves_getA [preserves_intros]: "preserves P (getA f)"
  by (simp add: preserves_def getA_def)

lemma preserves_bindA [preserves_intros]:
  assumes "preserves P m" and "\<And>x. preserves P (f x)"
  shows "preserves P (bindA m f)"
  unfolding preserves_def bindA_def
proof (intro allI impI)
  fix s assume "P s"
  then have 1: "P (snd (m s))" using assms(1) by (simp add: preserves_def)
  show "P (snd (case m s of (Inl e, s') \<Rightarrow> (Inl e, s') | (Inr x, s') \<Rightarrow> f x s'))"
    using 1 assms(2) by (cases "m s"; cases "fst (m s)") (auto simp: preserves_def)
qed

lemma preserves_thenA [preserves_intros]:
  "preserves P m \<Longrightarrow> preserves P k \<Longrightarrow> preserves P (thenA m k)"
  unfolding thenA_def by (rule preserves_bindA)

lemma preserves_whenA [preserves_intros]: "(b \<Longrightarrow> preserves P m) \<Longrightarrow> preserves P (whenA b m)"
  by (simp add: whenA_def preserves_ret)

lemma preserves_modA: "(\<And>s. P s \<Longrightarrow> P (f s)) \<Longrightarrow> preserves P (modA f)"
  by (simp add: preserves_def modA_def)

lemma preserves_catchA [preserves_intros]:
  assumes "preserves P m" and "\<And>e. preserves P (h e)"
  shows "preserves P (catchA m h)"
  unfolding preserves_def catchA_def
proof (intro allI impI)
  fix s assume "P s"
  then have 1: "P (snd (m s))" using assms(1) by (simp add: preserves_def)
  show "P (snd (case m s of (Inl e, s') \<Rightarrow> h e s' | (Inr x, s') \<Rightarrow> (Inr x, s')))"
    using 1 assms(2) by (cases "m s"; cases "fst (m s)") (auto simp: preserves_def)
qed

lemma preserves_finallyA [preserves_intros]:
  assumes "preserves P m" and "preserves P f"
  shows "preserves P (finallyA m f)"
  unfolding preserves_def finallyA_def
proof (intro allI impI)
  fix s assume "P s"
  then have "P (snd (f (snd (m s))))" using assms by (simp add: preserves_def)
  then show "P (snd (case m s of (r, s') \<Rightarrow>
      (case f s' of (Inl e, s'') \<Rightarrow> (Inl e, s'') | (Inr _, s'') \<Rightarrow> (r, s''))))"
    by (auto split: prod.splits sum.splits)
qed

lemma preserves_forA [preserves_intros]:
  "(\<And>x. x \<in> set xs \<Longrightarrow> preserves P (f x)) \<Longrightarrow> preserves P (forA xs f)"
  by (induction xs) (auto intro!: preserves_intros)

lemma preserves_if [preserves_intros]:
  "(b \<Longrightarrow> preserves P m) \<Longrightarrow> (\<not> b \<Longrightarrow> preserves P n) \<Longrightarrow> preserves P (if b then m else n)"
  by simp

lemma preserves_option [preserves_intros]:
  "(x = None \<Longrightarrow> preserves P m) \<Longrightarrow> (\<And>y. x = Some y \<Longrightarrow> preserves P (n y)) \<Longrightarrow>
   preserves P (case x of None \<Rightarrow> m | Some y \<Rightarrow> n y)"
  by (cases x) auto


section \<open>Weakest preconditions\<close>

text \<open>\<open>wp m Q E s\<close>: run from \<open>s\<close>, the action returns into \<open>Q\<close> or throws into \<open>E\<close>. The equations compute it
  along the structure of a handler.\<close>

definition wp :: "('s, 'a) act \<Rightarrow> ('a \<Rightarrow> 's \<Rightarrow> bool) \<Rightarrow> (js_error \<Rightarrow> 's \<Rightarrow> bool) \<Rightarrow> 's \<Rightarrow> bool" where
  "wp m Q E s = (case m s of (Inl e, t) \<Rightarrow> E e t | (Inr x, t) \<Rightarrow> Q x t)"

lemma wp_ret [wp_simps]: "wp (ret x) Q E s = Q x s"
  by (simp add: wp_def ret_def)

lemma wp_throw [wp_simps]: "wp (throw e) Q E s = E e s"
  by (simp add: wp_def throw_def)

lemma wp_getA [wp_simps]: "wp (getA f) Q E s = Q (f s) s"
  by (simp add: wp_def getA_def)

lemma wp_modA [wp_simps]: "wp (modA g) Q E s = Q () (g s)"
  by (simp add: wp_def modA_def)

lemma wp_bindA [wp_simps]: "wp (bindA m f) Q E s = wp m (\<lambda>x. wp (f x) Q E) E s"
  by (auto simp: wp_def bindA_def split: prod.splits sum.splits)

lemma wp_thenA [wp_simps]: "wp (thenA m k) Q E s = wp m (\<lambda>_. wp k Q E) E s"
  by (simp add: thenA_def wp_bindA)

lemma wp_liftA [wp_simps]: "wp (liftA r) Q E s = (case r of Inl e \<Rightarrow> E e s | Inr x \<Rightarrow> Q x s)"
  by (simp add: wp_def liftA_def)

lemma wp_whenA [wp_simps]: "wp (whenA b m) Q E s = (if b then wp m Q E s else Q () s)"
  by (simp add: whenA_def wp_ret)

lemma wp_catchA [wp_simps]: "wp (catchA m h) Q E s = wp m Q (\<lambda>e. wp (h e) Q E) s"
  by (auto simp: wp_def catchA_def split: prod.splits sum.splits)

lemma wp_finallyA [wp_simps]:
  "wp (finallyA m f) Q E s = wp m (\<lambda>x. wp f (\<lambda>_. Q x) E) (\<lambda>e. wp f (\<lambda>_. E e) E) s"
  by (auto simp: wp_def finallyA_def split: prod.splits sum.splits)

lemma wp_if [wp_simps]: "wp (if b then m else n) Q E s = (if b then wp m Q E s else wp n Q E s)"
  by simp

lemma wp_mono:
  "wp m Q E s \<Longrightarrow> (\<And>x t. m s = (Inr x, t) \<Longrightarrow> Q x t \<Longrightarrow> Q' x t) \<Longrightarrow>
   (\<And>e t. m s = (Inl e, t) \<Longrightarrow> E e t \<Longrightarrow> E' e t) \<Longrightarrow> wp m Q' E' s"
  by (auto simp: wp_def split: prod.splits sum.splits)

lemma wpI:
  "(\<And>x t. m s = (Inr x, t) \<Longrightarrow> Q x t) \<Longrightarrow> (\<And>e t. m s = (Inl e, t) \<Longrightarrow> E e t) \<Longrightarrow> wp m Q E s"
  by (auto simp: wp_def split: prod.splits sum.splits)

lemma wp_return: "wp m Q E s \<Longrightarrow> m s = (Inr x, t) \<Longrightarrow> Q x t"
  by (simp add: wp_def)

lemma wp_throws: "wp m Q E s \<Longrightarrow> m s = (Inl e, t) \<Longrightarrow> E e t"
  by (simp add: wp_def)

lemma wp_conj: "wp m Q E s \<Longrightarrow> wp m Q' E' s \<Longrightarrow> wp m (\<lambda>x t. Q x t \<and> Q' x t) (\<lambda>e t. E e t \<and> E' e t) s"
  by (auto simp: wp_def split: prod.splits sum.splits)

lemma wp_true: "wp m (\<lambda>_ _. True) (\<lambda>_ _. True) s"
  by (auto simp: wp_def split: prod.splits sum.splits)

lemma preserves_iff_wp: "preserves P m \<longleftrightarrow> (\<forall>s. P s \<longrightarrow> wp m (\<lambda>_. P) (\<lambda>_. P) s)"
proof -
  have "wp m (\<lambda>_. P) (\<lambda>_. P) s \<longleftrightarrow> P (snd (m s))" for s
    by (cases "m s"; cases "fst (m s)") (auto simp: wp_def)
  then show ?thesis by (simp add: preserves_def)
qed

lemma preserves_wp: "preserves P m \<Longrightarrow> P s \<Longrightarrow> wp m (\<lambda>_. P) (\<lambda>_. P) s"
  by (simp add: preserves_iff_wp)

lemma wp_total: "wp m (\<lambda>x t. P x t) (\<lambda>_ _. False) s \<Longrightarrow> \<exists>x t. m s = (Inr x, t) \<and> P x t"
  by (cases "m s"; cases "fst (m s)") (auto simp: wp_def)


section \<open>What a step leaves alone\<close>

text \<open>\<open>keeps R m\<close>: every run of \<open>m\<close>, whether it returns or throws, stays within \<open>R\<close>. For a reflexive and transitive
  \<open>R\<close>, a frame, the combinators keep what their parts keep.\<close>

definition keeps :: "('s \<Rightarrow> 's \<Rightarrow> bool) \<Rightarrow> ('s, 'a) act \<Rightarrow> bool" where
  "keeps R m = (\<forall>s. wp m (\<lambda>_. R s) (\<lambda>_. R s) s)"

lemma keepsI: "(\<And>s. wp m (\<lambda>_. R s) (\<lambda>_. R s) s) \<Longrightarrow> keeps R m"
  by (simp add: keeps_def)

lemma keepsD: "keeps R m \<Longrightarrow> wp m (\<lambda>_. R s) (\<lambda>_. R s) s"
  by (simp add: keeps_def)

lemma keeps_mono: "keeps R m \<Longrightarrow> (\<And>s t. R s t \<Longrightarrow> R' s t) \<Longrightarrow> keeps R' m"
  unfolding keeps_def by (blast intro: wp_mono)

lemma keeps_snd: "keeps R m \<Longrightarrow> R s (snd (m s))"
  unfolding keeps_def by (erule allE[of _ s]) (auto simp: wp_def split: prod.splits sum.splits)

locale frame =
  fixes R :: "'s \<Rightarrow> 's \<Rightarrow> bool"
  assumes frame_refl: "R s s"
    and frame_trans: "R s t \<Longrightarrow> R t u \<Longrightarrow> R s u"
begin

lemma keeps_after: "keeps R m \<Longrightarrow> R s t \<Longrightarrow> wp m (\<lambda>_. R s) (\<lambda>_. R s) t"
  by (rule wp_mono[OF keepsD[where R = R]]) (auto intro: frame_trans)

lemma keeps_still: "keeps R (ret x)" "keeps R (throw e)" "keeps R (liftA r)" "keeps R (getA f)"
  by (auto simp: keeps_def wp_simps frame_refl split: sum.split)

lemma keeps_bindA: "keeps R m \<Longrightarrow> (\<And>x. keeps R (g x)) \<Longrightarrow> keeps R (bindA m g)"
  by (rule keepsI) (auto simp: wp_bindA intro!: wp_mono[OF keepsD[where R = R]] keeps_after)

lemma keeps_thenA: "keeps R m \<Longrightarrow> keeps R k \<Longrightarrow> keeps R (thenA m k)"
  unfolding thenA_def by (rule keeps_bindA)

lemma keeps_whenA: "(c \<Longrightarrow> keeps R m) \<Longrightarrow> keeps R (whenA c m)"
  by (simp add: whenA_def keeps_still)

lemma keeps_catchA: "keeps R m \<Longrightarrow> (\<And>e. keeps R (h e)) \<Longrightarrow> keeps R (catchA m h)"
  by (rule keepsI) (auto simp: wp_catchA intro!: wp_mono[OF keepsD[where R = R]] keeps_after)

lemma keeps_finallyA: "keeps R m \<Longrightarrow> keeps R f \<Longrightarrow> keeps R (finallyA m f)"
  by (rule keepsI) (auto simp: wp_finallyA intro!: wp_mono[OF keepsD[where R = R]] keeps_after)

lemma keeps_if: "(c \<Longrightarrow> keeps R m) \<Longrightarrow> (\<not> c \<Longrightarrow> keeps R k) \<Longrightarrow> keeps R (if c then m else k)"
  by simp

lemma keeps_forA: "(\<And>x. keeps R (f x)) \<Longrightarrow> keeps R (forA xs f)"
  by (induction xs) (auto intro: keeps_still keeps_thenA)

lemmas keeps_intros = keeps_still keeps_bindA keeps_thenA keeps_whenA keeps_catchA keeps_finallyA keeps_if keeps_forA

end

end
