(* ===== verification/Json.thy ===== *)
theory Json
  imports Ordering
begin

text \<open>
  The canonical JSON texts that are hashed: \<open>canonicalizeEvidencePayload\<close> and \<open>normalize\<close> of
  \<open>packages/core/src/evidence/run-step-evidence.ts\<close> and \<open>canonicalize\<close> of
  \<open>packages/core/src/idempotency/build-idempotency-key.ts\<close>. \<open>stringify\<close> is
  \<open>JSON.stringify\<close> on values with whole numbers. The lemmas show that the text determines the value, so that
  two payloads with one hash are the same payload or a collision of the hash function.
\<close>

section \<open>Values and their text\<close>

datatype json =
    JNull | JBool bool | JNum int | JStr string | JArr "json list" | JObj "(string \<times> json) list"
  | JUndefined

definition hex_digit :: "nat \<Rightarrow> char" where
  "hex_digit n = (if n < 10 then char_of (48 + n) else char_of (87 + n))"

definition escape_char :: "char \<Rightarrow> string" where
  "escape_char c =
     (if c = CHR 0x22 then [CHR 0x5C, CHR 0x22]
      else if c = CHR 0x5C then [CHR 0x5C, CHR 0x5C]
      else if c = CHR 0x08 then [CHR 0x5C, CHR ''b'']
      else if c = CHR 0x09 then [CHR 0x5C, CHR ''t'']
      else if c = CHR 0x0A then [CHR 0x5C, CHR ''n'']
      else if c = CHR 0x0C then [CHR 0x5C, CHR ''f'']
      else if c = CHR 0x0D then [CHR 0x5C, CHR ''r'']
      else if (of_char c :: nat) < 32
      then [CHR 0x5C, CHR ''u'', CHR ''0'', CHR ''0'', hex_digit (of_char c div 16), hex_digit (of_char c mod 16)]
      else [c])"

definition quote_string :: "string \<Rightarrow> string" where
  "quote_string s = CHR 0x22 # concat (map escape_char s) @ [CHR 0x22]"

text \<open>\<open>stringify\<close> writes members in the order they have. An \<open>undefined\<close> member does not occur
  in the texts the code hashes: \<open>normalize\<close> drops it.\<close>

fun stringify :: "json \<Rightarrow> string" where
  "stringify JNull = ''null''"
| "stringify (JBool b) = (if b then ''true'' else ''false'')"
| "stringify (JNum i) = int_to_string i"
| "stringify (JStr s) = quote_string s"
| "stringify (JArr xs) = ''['' @ join '','' (map stringify xs) @ '']''"
| "stringify (JObj kvs) = ''{'' @ join '','' (map (\<lambda>(k, v). quote_string k @ '':'' @ stringify v) kvs) @ ''}''"
| "stringify JUndefined = ''undefined''"

text \<open>\<open>Object.keys(value).sort()\<close> orders keys by code units.\<close>

fun normalize :: "json \<Rightarrow> json" where
  "normalize (JArr xs) = JArr (map normalize xs)"
| "normalize (JObj kvs) =
     JObj (sort_by (on_cmp fst code_unit_compare)
             (map (\<lambda>(k, v). (k, normalize v)) (filter (\<lambda>(k, v). v \<noteq> JUndefined) kvs)))"
| "normalize JUndefined = JStr ''unsupported''"
| "normalize v = v"

definition canonicalizeEvidencePayload :: "json \<Rightarrow> string" where
  "canonicalizeEvidencePayload v = stringify (normalize v)"

text \<open>\<open>canonicalize\<close> sorts the members with \<open>localeCompare\<close>, the argument \<open>lc\<close>.\<close>

fun sort_members :: "string cmp \<Rightarrow> json \<Rightarrow> json" where
  "sort_members lc (JArr xs) = JArr (map (sort_members lc) xs)"
| "sort_members lc (JObj kvs) =
     JObj (sort_by (on_cmp fst lc) (map (\<lambda>(k, v). (k, sort_members lc v)) kvs))"
| "sort_members lc v = v"

definition canonicalize :: "string cmp \<Rightarrow> json \<Rightarrow> string" where
  "canonicalize lc v = stringify (sort_members lc v)"

section \<open>The text determines the value\<close>

fun digits_value :: "nat \<Rightarrow> string \<Rightarrow> nat" where
  "digits_value a [] = a"
| "digits_value a (c # cs) = digits_value (10 * a + (of_char c - 48)) cs"

lemma digits_value_append: "digits_value a (s @ t) = digits_value (digits_value a s) t"
  by (induction s arbitrary: a) auto

lemma digits_value_nat_to_string: "digits_value 0 (nat_to_string n) = n"
proof (induction n rule: nat_to_string.induct)
  case (1 n)
  show ?case
  proof (cases "n < 10")
    case True
    then show ?thesis by (simp add: nat_to_string.simps[of n])
  next
    case False
    have "n mod 10 < 10" by simp
    then have "(of_char (char_of (48 + n mod 10) :: char) :: nat) = 48 + n mod 10" by simp
    then show ?thesis using False 1 by (simp add: nat_to_string.simps[of n] digits_value_append)
  qed
qed

lemma nat_to_string_inj: "nat_to_string m = nat_to_string n \<Longrightarrow> m = n"
  by (metis digits_value_nat_to_string)

lemma nat_to_string_nonempty [simp]: "nat_to_string n \<noteq> []"
  by (subst nat_to_string.simps) simp

definition is_numeral_char :: "char \<Rightarrow> bool" where
  "is_numeral_char c = (c = CHR ''-'' \<or> (48 \<le> (of_char c :: nat) \<and> (of_char c :: nat) \<le> 57))"

lemma int_to_string_chars: "c \<in> set (int_to_string i) \<Longrightarrow> is_numeral_char c"
  using nat_to_string_digits
  by (auto simp: int_to_string_def is_numeral_char_def split: if_splits)

lemma minus_notin_nat: "CHR ''-'' \<notin> set (nat_to_string n)"
  using nat_to_string_digits[of "CHR ''-''" n] by auto

lemma int_to_string_inj: "int_to_string i = int_to_string j \<Longrightarrow> i = j"
proof -
  assume eq: "int_to_string i = int_to_string j"
  have hd_nat: "hd (nat_to_string n) \<noteq> CHR ''-''" for n
    using minus_notin_nat[of n] by (metis hd_in_set nat_to_string_nonempty)
  have mixed: "''-'' @ nat_to_string m \<noteq> nat_to_string n" for m n
    using hd_nat[of n] by (metis append_Cons list.sel(1))
  show ?thesis
  proof (cases "i < 0"; cases "j < 0")
    assume "i < 0" "j < 0"
    then have "nat (- i) = nat (- j)" using eq nat_to_string_inj by (simp add: int_to_string_def)
    then show ?thesis using \<open>i < 0\<close> \<open>j < 0\<close> by simp
  next
    assume "\<not> i < 0" "\<not> j < 0"
    then have "nat i = nat j" using eq nat_to_string_inj by (simp add: int_to_string_def)
    then show ?thesis using \<open>\<not> i < 0\<close> \<open>\<not> j < 0\<close> by simp
  next
    assume "i < 0" "\<not> j < 0"
    then show ?thesis using eq mixed[of "nat (- i)" "nat j"] by (simp add: int_to_string_def)
  next
    assume "\<not> i < 0" "j < 0"
    then show ?thesis using eq mixed[of "nat (- j)" "nat i"] by (simp add: int_to_string_def)
  qed
qed

definition delim :: "string \<Rightarrow> bool" where
  "delim s = (s = [] \<or> hd s \<in> {CHR '','', CHR '']'', CHR ''}''})"

lemma delim_simps [simp]:
  "delim []" "delim (CHR '','' # s)" "delim (CHR '']'' # s)" "delim (CHR ''}'' # s)"
  by (simp_all add: delim_def)

lemma takeWhile_number:
  "delim s \<Longrightarrow> takeWhile is_numeral_char (int_to_string i @ s) = int_to_string i"
proof -
  assume d: "delim s"
  have "takeWhile is_numeral_char s = []"
    using d by (cases s) (auto simp: delim_def is_numeral_char_def)
  then show ?thesis
    using int_to_string_chars by (simp add: takeWhile_append2)
qed

lemma number_self_delimiting:
  "int_to_string i @ s = int_to_string j @ t \<Longrightarrow> delim s \<Longrightarrow> delim t \<Longrightarrow> i = j \<and> s = t"
  by (metis takeWhile_number int_to_string_inj same_append_eq)

lemma escape_char_not_quote: "escape_char c \<noteq> [] \<and> hd (escape_char c) \<noteq> CHR 0x22"
  by (simp add: escape_char_def)

lemma hex_digit_inj: "m < 16 \<Longrightarrow> n < 16 \<Longrightarrow> hex_digit m = hex_digit n \<Longrightarrow> m = n"
proof -
  assume mn: "m < 16" "n < 16" and eq: "hex_digit m = hex_digit n"
  have m: "(of_char (hex_digit m) :: nat) = (if m < 10 then 48 + m else 87 + m)"
    using mn by (simp add: hex_digit_def)
  have n: "(of_char (hex_digit n) :: nat) = (if n < 10 then 48 + n else 87 + n)"
    using mn by (simp add: hex_digit_def)
  have "(if m < 10 then 48 + m else 87 + m) = (if n < 10 then 48 + n else 87 + n)"
    unfolding m[symmetric] n[symmetric] eq ..
  then show ?thesis by (cases "m < 10"; cases "n < 10") simp_all
qed

lemma escape_char_cases:
  "escape_char c = [c] \<and> c \<noteq> CHR 0x5C \<and> c \<noteq> CHR 0x22
   \<or> (\<exists>x. escape_char c = [CHR 0x5C, x] \<and> x \<noteq> CHR ''u''
        \<and> (c, x) \<in> {(CHR 0x22, CHR 0x22), (CHR 0x5C, CHR 0x5C), (CHR 0x08, CHR ''b''), (CHR 0x09, CHR ''t''),
                     (CHR 0x0A, CHR ''n''), (CHR 0x0C, CHR ''f''), (CHR 0x0D, CHR ''r'')})
   \<or> (\<exists>p q. escape_char c = [CHR 0x5C, CHR ''u'', CHR ''0'', CHR ''0'', p, q] \<and> (of_char c :: nat) < 32
        \<and> p = hex_digit (of_char c div 16) \<and> q = hex_digit (of_char c mod 16))"
  by (simp add: escape_char_def)

lemma of_char_hex_inj:
  assumes "(of_char c :: nat) < 32" "(of_char d :: nat) < 32"
    and "hex_digit (of_char c div 16) = hex_digit (of_char d div 16)"
    and "hex_digit (of_char c mod 16) = hex_digit (of_char d mod 16)"
  shows "c = d"
proof -
  have "(of_char c :: nat) div 16 = of_char d div 16" "(of_char c :: nat) mod 16 = of_char d mod 16"
    using assms hex_digit_inj by simp_all
  then have "(of_char c :: nat) = of_char d" by (metis div_mult_mod_eq)
  then show ?thesis by simp
qed

lemma escape_char_prefix_free:
  "escape_char c @ s = escape_char d @ t \<Longrightarrow> c = d \<and> s = t"
  using escape_char_cases[of c] escape_char_cases[of d] of_char_hex_inj[of c d]
  by (elim disjE exE conjE) auto

lemma escaped_self_delimiting:
  "concat (map escape_char x) @ CHR 0x22 # s = concat (map escape_char y) @ CHR 0x22 # t
   \<Longrightarrow> x = y \<and> s = t"
proof (induction x arbitrary: y)
  case Nil
  then show ?case
    using escape_char_not_quote by (cases y) (auto simp: Cons_eq_append_conv, metis list.sel(1))
next
  case (Cons c cs)
  show ?case
  proof (cases y)
    case Nil
    then show ?thesis using Cons.prems escape_char_not_quote[of c]
      by (cases "escape_char c") auto
  next
    case (Cons d ds)
    then have "c = d" "concat (map escape_char cs) @ CHR 0x22 # s = concat (map escape_char ds) @ CHR 0x22 # t"
      using Cons.prems escape_char_prefix_free by auto
    then show ?thesis using Cons.IH Cons by simp
  qed
qed

lemma quote_self_delimiting:
  "quote_string x @ s = quote_string y @ t \<Longrightarrow> x = y \<and> s = t"
  using escaped_self_delimiting[of x s y t] by (simp add: quote_string_def)

lemma list_self_delimiting:
  assumes "\<And>x y s t. x \<in> set xs \<Longrightarrow> f x @ s = f y @ t \<Longrightarrow> delim s \<Longrightarrow> delim t \<Longrightarrow> x = y \<and> s = t"
    and "\<And>x. f x \<noteq> [] \<and> hd (f x) \<noteq> c" and "c = CHR '']'' \<or> c = CHR ''}''" 
    and "join '','' (map f xs) @ c # s = join '','' (map f ys) @ c # t"
  shows "xs = ys \<and> s = t"
  using assms
proof (induction xs arbitrary: ys)
  case Nil
  then show ?case
  proof (cases ys)
    case (Cons y zs)
    have "\<exists>r. join '','' (map f ys) = f y @ r" using Cons by (cases zs) auto
    then show ?thesis using Nil.prems(2)[of y] Nil.prems(4) by (cases "f y") auto
  qed simp
next
  case (Cons x xs)
  have c: "delim (c # u)" for u using Cons.prems(3) by auto
  show ?case
  proof (cases ys)
    case Nil
    have "\<exists>r. join '','' (map f (x # xs)) = f x @ r" by (cases xs) auto
    then show ?thesis using Nil Cons.prems(2)[of x] Cons.prems(4) by (cases "f x") auto
  next
    case (Cons y zs)
    define u where "u = (if xs = [] then c # s else CHR '','' # join '','' (map f xs) @ c # s)"
    define v where "v = (if zs = [] then c # t else CHR '','' # join '','' (map f zs) @ c # t)"
    have "f x @ u = f y @ v"
      using Cons.prems(4) Cons unfolding u_def v_def by (cases xs; cases zs) auto
    moreover have "delim u" "delim v" using c by (auto simp: u_def v_def)
    ultimately have xy: "x = y" "u = v"
      using Cons.prems(1)[of x u y v] by auto
    have "xs = zs \<and> s = t"
    proof (cases "xs = [] \<or> zs = []")
      case True
      then show ?thesis using xy(2) Cons.prems(3) by (auto simp: u_def v_def split: if_splits)
    next
      case False
      then have "join '','' (map f xs) @ c # s = join '','' (map f zs) @ c # t"
        using xy(2) by (simp add: u_def v_def)
      then show ?thesis using Cons.IH[of zs] Cons.prems Cons by auto
    qed
    then show ?thesis using xy Cons by simp
  qed
qed

definition text_tag :: "char \<Rightarrow> nat" where
  "text_tag c = (if is_numeral_char c then 0 else of_char c)"

fun json_tag :: "json \<Rightarrow> nat" where
  "json_tag JNull = 110"
| "json_tag (JBool b) = (if b then 116 else 102)"
| "json_tag (JNum i) = 0"
| "json_tag (JStr s) = 34"
| "json_tag (JArr xs) = 91"
| "json_tag (JObj kvs) = 123"
| "json_tag JUndefined = 117"

lemma int_to_string_nonempty [simp]: "int_to_string i \<noteq> []"
  by (simp add: int_to_string_def)

lemma stringify_nonempty [simp]: "stringify v \<noteq> []"
  by (cases v) (auto simp: quote_string_def)

lemma stringify_tag: "text_tag (hd (stringify v)) = json_tag v"
proof (cases v)
  case (JNum i)
  then show ?thesis
    using int_to_string_chars[of "hd (int_to_string i)" i] by (simp add: text_tag_def)
qed (auto simp: text_tag_def is_numeral_char_def quote_string_def)

lemma json_tag_not_closing: "json_tag v \<noteq> 93 \<and> json_tag v \<noteq> 125 \<and> json_tag v \<noteq> 44"
  by (cases v) auto

lemma stringify_hd_not_closing: "hd (stringify v) \<noteq> CHR '']'' \<and> hd (stringify v) \<noteq> CHR ''}''"
  using stringify_tag[of v] json_tag_not_closing[of v]
  by (auto simp: text_tag_def is_numeral_char_def split: if_splits)

lemma same_tag: "stringify v @ s = stringify w @ t \<Longrightarrow> json_tag v = json_tag w"
  by (metis stringify_tag hd_append2 stringify_nonempty)

lemma member_self_delimiting:
  assumes "\<And>w s t. stringify v @ s = stringify w @ t \<Longrightarrow> delim s \<Longrightarrow> delim t \<Longrightarrow> v = w \<and> s = t"
    and "(\<lambda>(k, v). quote_string k @ '':'' @ stringify v) (k, v) @ s
       = (\<lambda>(k, v). quote_string k @ '':'' @ stringify v) q @ t" "delim s" "delim t"
  shows "(k, v) = q \<and> s = t"
proof (cases q)
  case (Pair l w)
  then have "quote_string k @ ('':'' @ stringify v @ s) = quote_string l @ ('':'' @ stringify w @ t)"
    using assms(2) by simp
  note kv = quote_self_delimiting[OF this]
  have kl: "k = l" by (rule conjunct1[OF kv])
  have vw: "stringify v @ s = stringify w @ t"
    using conjunct2[OF kv] by (simp only: append_Cons append_Nil list.inject HOL.simp_thms)
  from assms(1)[OF vw assms(3,4)] kl Pair show ?thesis by simp
qed

lemma stringify_self_delimiting:
  "stringify v @ s = stringify w @ t \<Longrightarrow> delim s \<Longrightarrow> delim t \<Longrightarrow> v = w \<and> s = t"
proof (induction v arbitrary: w s t)
  case JNull
  then show ?case using same_tag[OF JNull(1)] by (cases w) (auto split: if_splits)
next
  case (JBool b)
  then show ?case using same_tag[OF JBool(1)] by (cases w) (auto split: if_splits)
next
  case (JNum i)
  then obtain j where w: "w = JNum j"
    using same_tag[OF JNum(1)] by (cases w) (auto split: if_splits)
  then show ?case using number_self_delimiting[of i s j t] JNum by simp
next
  case (JStr x)
  then obtain y where w: "w = JStr y"
    using same_tag[OF JStr(1)] by (cases w) (auto split: if_splits)
  then show ?case using quote_self_delimiting[of x s y t] JStr by simp
next
  case (JArr xs)
  then obtain ys where w: "w = JArr ys"
    using same_tag[OF JArr(2)] by (cases w) (auto split: if_splits)
  have "join '','' (map stringify xs) @ CHR '']'' # s = join '','' (map stringify ys) @ CHR '']'' # t"
    using JArr(2) w by simp
  then have "xs = ys \<and> s = t"
    by (rule list_self_delimiting[rotated 3]) (use JArr.IH stringify_hd_not_closing in auto)
  then show ?case using w by simp
next
  case (JObj kvs)
  then obtain lvs where w: "w = JObj lvs"
    using same_tag[OF JObj(2)] by (cases w) (auto split: if_splits)
  let ?f = "\<lambda>(k, v). quote_string k @ '':'' @ stringify v"
  have "join '','' (map ?f kvs) @ CHR ''}'' # s = join '','' (map ?f lvs) @ CHR ''}'' # t"
    using JObj(2) w by simp
  then have "kvs = lvs \<and> s = t"
  proof (rule list_self_delimiting[rotated 3])
    fix x y s t
    assume x: "x \<in> set kvs" and eq: "?f x @ s = ?f y @ t" and d: "delim s" "delim t"
    obtain k v where kv: "x = (k, v)" by (cases x)
    have "\<And>w s t. stringify v @ s = stringify w @ t \<Longrightarrow> delim s \<Longrightarrow> delim t \<Longrightarrow> v = w \<and> s = t"
      using JObj.IH[of x v] x kv by auto
    then show "x = y \<and> s = t" using member_self_delimiting[of v k s y t] eq d kv by blast
  qed (auto simp: quote_string_def)
  then show ?case using w by simp
next
  case JUndefined
  then show ?case using same_tag[OF JUndefined(1)] by (cases w) (auto split: if_splits)
qed

lemma stringify_inj: "stringify v = stringify w \<Longrightarrow> v = w"
  using stringify_self_delimiting[of v "[]" w "[]"] by simp

lemma canonicalizeEvidencePayload_inj:
  "canonicalizeEvidencePayload v = canonicalizeEvidencePayload w \<Longrightarrow> normalize v = normalize w"
  unfolding canonicalizeEvidencePayload_def by (rule stringify_inj)

text \<open>An object whose member order is by code units keeps its text.\<close>

lemma sort_members_JStr [simp]: "sort_members lc (JStr s) = JStr s"
  by simp

lemma canonicalize_inj:
  "canonicalize lc v = canonicalize lc w \<Longrightarrow> sort_members lc v = sort_members lc w"
  unfolding canonicalize_def by (rule stringify_inj)

end
