(* ===== verification/Iso_Text.thy ===== *)
theory Iso_Text
  imports Timestamps Json
begin

text \<open>
  The text \<open>Date.prototype.toISOString\<close> gives for an instant, proleptic Gregorian calendar
  in UTC, and that it determines the instant. It is what the checksum of a piece of evidence
  hashes and what a policy decision's id contains.
\<close>

text \<open>Years start in March here, so the leap day is the last one: \<open>civil_of_days\<close> counts from
  1 March of the year 0, cycles of 400, 100, 4 and 1 years.\<close>

definition civil_of_days :: "int \<Rightarrow> int \<times> int \<times> int" where
  "civil_of_days n =
     (let z = n + 719468; era = z div 146097; doe = z mod 146097;
          c = min 3 (doe div 36524); r = doe - c * 36524;
          q = r div 1461; r4 = r mod 1461;
          a = min 3 (r4 div 365); doy = r4 - a * 365;
          mp = (5 * doy + 2) div 153; d = doy - (153 * mp + 2) div 5 + 1;
          y = 400 * era + 100 * c + 4 * q + a
      in if mp < 10 then (y, mp + 3, d) else (y + 1, mp - 9, d))"

definition pad :: "nat \<Rightarrow> nat \<Rightarrow> string" where
  "pad w n = (let s = nat_to_string n in replicate (w - length s) CHR ''0'' @ s)"

definition year_text :: "int \<Rightarrow> string" where
  "year_text y = (if 0 \<le> y \<and> y \<le> 9999 then pad 4 (nat y)
                  else if y < 0 then ''-'' @ pad 6 (nat (- y)) else ''+'' @ pad 6 (nat y))"

definition iso_text :: "int \<Rightarrow> string" where
  "iso_text t =
     (let day = t div 86400000; ms = t mod 86400000 in
      case civil_of_days day of (y, m, d) \<Rightarrow>
        join ''T'' [join ''-'' [year_text y, pad 2 (nat m), pad 2 (nat d)],
                    pad 2 (nat (ms div 3600000)) @ '':'' @ pad 2 (nat (ms div 60000 mod 60)) @ '':''
                    @ pad 2 (nat (ms div 1000 mod 60)) @ ''.'' @ pad 3 (nat (ms mod 1000)) @ ''Z''])"

fun stamp_text :: "stamp \<Rightarrow> string" where
  "stamp_text (Iso t) = iso_text t"
| "stamp_text (Other_Text s) = s"

section \<open>The text determines the instant\<close>


definition days_of_civil :: "int \<times> int \<times> int \<Rightarrow> int" where
  "days_of_civil x = (case x of (y, m, d) \<Rightarrow>
     let y' = (if m \<le> 2 then y - 1 else y); mp = (if m \<le> 2 then m + 9 else m - 3);
         era = y' div 400; yoe = y' mod 400
     in era * 146097 + (365 * yoe + yoe div 4 - yoe div 100 + (153 * mp + 2) div 5 + d - 1) - 719468)"

lemma div_window:
  fixes x k :: int
  assumes "0 < k"
  shows "k * (x div k) \<le> x" "x < k * (x div k) + k"
proof -
  have "x = k * (x div k) + x mod k" by simp
  moreover have "0 \<le> x mod k" "x mod k < k" using assms by simp_all
  ultimately show "k * (x div k) \<le> x" "x < k * (x div k) + k" by linarith+
qed

lemma cycle_bounds:
  fixes doe :: int
  assumes "0 \<le> doe" "doe < 146097"
  defines "c \<equiv> min 3 (doe div 36524)"
  defines "r \<equiv> doe - c * 36524"
  shows "0 \<le> c" "c \<le> 3" "0 \<le> r" "r \<le> 36524"
proof -
  have "36524 * (doe div 36524) \<le> doe" "doe < 36524 * (doe div 36524) + 36524" "0 \<le> doe div 36524"
    using assms(1) div_window[of 36524 doe] by (simp_all add: pos_imp_zdiv_nonneg_iff)
  then show "0 \<le> c" "c \<le> 3" "0 \<le> r" "r \<le> 36524"
    using assms(2) unfolding c_def r_def min_def by (auto split: if_splits)
qed

lemma civil_of_days_shape:
  obtains era c q a doy mp where
    "n + 719468 = era * 146097 + c * 36524 + q * 1461 + a * 365 + doy"
    "0 \<le> c" "c \<le> 3" "0 \<le> q" "q \<le> 24" "0 \<le> a" "a \<le> 3" "0 \<le> doy" "doy \<le> 365"
    "mp = (5 * doy + 2) div 153"
    "civil_of_days n = (let y = 400 * era + 100 * c + 4 * q + a; d = doy - (153 * mp + 2) div 5 + 1 in
       if mp < 10 then (y, mp + 3, d) else (y + 1, mp - 9, d))"
proof -
  define z where "z = n + 719468"
  define era where "era = z div 146097"
  define doe where "doe = z mod 146097"
  define c where "c = min 3 (doe div 36524)"
  define r where "r = doe - c * 36524"
  define q where "q = r div 1461"
  define r4 where "r4 = r mod 1461"
  define a where "a = min 3 (r4 div 365)"
  define doy where "doy = r4 - a * 365"
  define mp where "mp = (5 * doy + 2) div 153"
  have doe: "0 \<le> doe" "doe < 146097" by (simp_all add: doe_def)
  note c = cycle_bounds[OF doe, folded c_def, folded r_def]
  have q: "0 \<le> q" "q \<le> 24" using c div_window[of 1461 r] unfolding q_def by linarith+
  have r4: "0 \<le> r4" "r4 < 1461" by (simp_all add: r4_def)
  have "365 * (r4 div 365) \<le> r4" "r4 < 365 * (r4 div 365) + 365" "0 \<le> r4 div 365"
    using r4(1) div_window[of 365 r4] by (simp_all add: pos_imp_zdiv_nonneg_iff)
  then have a: "0 \<le> a" "a \<le> 3" "0 \<le> doy" "doy \<le> 365"
    using r4 unfolding a_def doy_def min_def by (auto split: if_splits)
  have sum: "n + 719468 = era * 146097 + c * 36524 + q * 1461 + a * 365 + doy"
  proof -
    have "z = era * 146097 + doe" by (simp add: era_def doe_def)
    moreover have "doe = c * 36524 + r" by (simp add: r_def)
    moreover have "r = q * 1461 + r4" by (simp add: q_def r4_def)
    moreover have "r4 = a * 365 + doy" by (simp add: doy_def)
    ultimately show ?thesis by (simp add: z_def)
  qed
  show thesis
    by (rule that[OF sum c(1,2) q a mp_def])
      (simp only: civil_of_days_def Let_def z_def[symmetric] era_def[symmetric] doe_def[symmetric] c_def[symmetric]
         r_def[symmetric] q_def[symmetric] r4_def[symmetric] a_def[symmetric] doy_def[symmetric] mp_def[symmetric])
qed

lemma civil_of_days_bounds:
  assumes "civil_of_days n = (y, m, d)"
  shows "1 \<le> m \<and> m \<le> 12 \<and> 1 \<le> d \<and> d \<le> 31"
proof -
  obtain era c q a doy mp where s: "0 \<le> doy" "doy \<le> 365" "mp = (5 * doy + 2) div 153"
    "civil_of_days n = (let y = 400 * era + 100 * c + 4 * q + a; d = doy - (153 * mp + 2) div 5 + 1 in
       if mp < 10 then (y, mp + 3, d) else (y + 1, mp - 9, d))"
    by (rule civil_of_days_shape[of n]) blast
  have w: "153 * mp \<le> 5 * doy + 2" "5 * doy + 2 < 153 * mp + 153"
    unfolding s(3) by (rule div_window, simp)+
  have mp: "0 \<le> mp" "mp \<le> 11" using w s(1,2) by linarith+
  define k where "k = (153 * mp + 2) div 5"
  have "5 * k \<le> 153 * mp + 2" "153 * mp + 2 < 5 * k + 5"
    unfolding k_def by (rule div_window, simp)+
  then have "0 \<le> doy - k" "doy - k \<le> 30" using w by linarith+
  then have "0 \<le> doy - (153 * mp + 2) div 5" "doy - (153 * mp + 2) div 5 \<le> 30"
    unfolding k_def .
  then show ?thesis using assms mp s(4) by (auto simp: Let_def split: if_splits)
qed

lemma days_of_civil_of_days: "days_of_civil (civil_of_days n) = n"
proof -
  obtain era c q a doy mp where s:
    "n + 719468 = era * 146097 + c * 36524 + q * 1461 + a * 365 + doy"
    "0 \<le> c" "c \<le> 3" "0 \<le> q" "q \<le> 24" "0 \<le> a" "a \<le> 3" "0 \<le> doy" "doy \<le> 365"
    "mp = (5 * doy + 2) div 153"
    "civil_of_days n = (let y = 400 * era + 100 * c + 4 * q + a; d = doy - (153 * mp + 2) div 5 + 1 in
       if mp < 10 then (y, mp + 3, d) else (y + 1, mp - 9, d))"
    by (rule civil_of_days_shape)
  have mp: "0 \<le> mp" "mp \<le> 11"
    using div_window[of 153 "5 * doy + 2"] s(8,9) unfolding s(10) by linarith+
  define yoe where "yoe = 100 * c + 4 * q + a"
  have yoe: "0 \<le> yoe" "yoe < 400" "yoe div 4 = 25 * c + q" "yoe div 100 = c"
    using s(2-7) div_window[of 4 yoe] div_window[of 100 yoe] unfolding yoe_def by linarith+
  have y: "(400 * era + yoe) div 400 = era" "(400 * era + yoe) mod 400 = yoe"
    using yoe(1,2) by simp_all
  have c1: "civil_of_days n = (if mp < 10 then (400 * era + yoe, mp + 3, doy - (153 * mp + 2) div 5 + 1)
              else (400 * era + yoe + 1, mp - 9, doy - (153 * mp + 2) div 5 + 1))"
    using s(11) by (simp add: Let_def yoe_def algebra_simps)
  have "days_of_civil (civil_of_days n) = era * 146097 + (365 * yoe + yoe div 4 - yoe div 100 + doy) - 719468"
    using mp y unfolding c1 by (simp add: days_of_civil_def Let_def)
  then show ?thesis using s(1) yoe(3,4) by (simp add: yoe_def)
qed

lemma digits_value_zeros: "digits_value 0 (replicate k CHR ''0'' @ s) = digits_value 0 s"
  by (induction k) auto

lemma digits_value_pad [simp]: "digits_value 0 (pad w n) = n"
  by (simp add: pad_def Let_def digits_value_zeros digits_value_nat_to_string)

lemma pad_inj: "pad w m = pad w n \<Longrightarrow> m = n"
  by (metis digits_value_pad)

lemma length_nat_to_string: "n < 10 ^ Suc w \<Longrightarrow> length (nat_to_string n) \<le> Suc w"
proof (induction w arbitrary: n)
  case 0
  then show ?case by (subst nat_to_string.simps) simp
next
  case (Suc w)
  have "n div 10 < 10 ^ Suc w" using Suc.prems by simp
  from Suc.IH[OF this] show ?case by (subst nat_to_string.simps) simp
qed

lemma length_pad: "n < 10 ^ Suc w \<Longrightarrow> length (pad (Suc w) n) = Suc w"
  using length_nat_to_string[of n w] by (simp add: pad_def Let_def)

lemma length_pad2: "n < 100 \<Longrightarrow> length (pad 2 n) = 2" and length_pad3: "n < 1000 \<Longrightarrow> length (pad 3 n) = 3"
  using length_pad[of n 1] length_pad[of n 2] by (simp_all add: numeral_2_eq_2 numeral_3_eq_3)

lemma pad_digit: "c \<in> set (pad w n) \<Longrightarrow> 48 \<le> (of_char c :: nat) \<and> (of_char c :: nat) \<le> 57"
  using nat_to_string_digits[of c n] by (auto simp: pad_def Let_def)

lemma hd_pad: "hd (pad w n) \<noteq> CHR ''-'' \<and> hd (pad w n) \<noteq> CHR ''+''"
proof -
  have "pad w n \<noteq> []" by (simp add: pad_def Let_def)
  from pad_digit[OF hd_in_set[OF this]] show ?thesis by auto
qed

lemma year_text_inj: "year_text y = year_text z \<Longrightarrow> y = z"
proof -
  assume eq: "year_text y = year_text z"
  have hd: "hd (year_text x) = (if 0 \<le> x \<and> x \<le> 9999 then hd (pad 4 (nat x)) else if x < 0 then CHR ''-'' else CHR ''+'')"
    for x by (simp add: year_text_def)
  consider "0 \<le> y \<and> y \<le> 9999" "0 \<le> z \<and> z \<le> 9999" | "y < 0" "z < 0" | "9999 < y" "9999 < z"
    using arg_cong[OF eq, of hd] hd_pad[of 4 "nat y"] hd_pad[of 4 "nat z"] hd[of y] hd[of z]
    by (cases "0 \<le> y \<and> y \<le> 9999"; cases "0 \<le> z \<and> z \<le> 9999"; cases "y < 0"; cases "z < 0") auto
  then show "y = z"
  proof cases
    case 1
    then have "pad 4 (nat y) = pad 4 (nat z)" using eq by (simp add: year_text_def)
    from pad_inj[OF this] 1 show ?thesis by (simp only: eq_nat_nat_iff)
  next
    case 2
    then have "pad 6 (nat (- y)) = pad 6 (nat (- z))" using eq by (simp add: year_text_def)
    from pad_inj[OF this] 2 show ?thesis by simp
  next
    case 3
    then have "pad 6 (nat y) = pad 6 (nat z)" using eq by (simp add: year_text_def)
    from pad_inj[OF this] 3 show ?thesis by simp
  qed
qed

lemma fields_split:
  assumes "y @ CHR ''-'' # m @ CHR ''-'' # d @ CHR ''T'' # h @ CHR '':'' # i @ CHR '':'' # s @ CHR ''.'' # u @ [CHR ''Z'']
      = y' @ CHR ''-'' # m' @ CHR ''-'' # d' @ CHR ''T'' # h' @ CHR '':'' # i' @ CHR '':'' # s' @ CHR ''.'' # u' @ [CHR ''Z'']"
    and "length m = length m'" "length d = length d'" "length h = length h'" "length i = length i'"
    "length s = length s'" "length u = length u'"
  shows "y = y' \<and> m = m' \<and> d = d' \<and> h = h' \<and> i = i' \<and> s = s' \<and> u = u'"
proof -
  have "y = y'" using arg_cong[OF assms(1), of length] assms(1-7) by simp
  then show ?thesis using assms by simp
qed

lemma clock_arith:
  fixes z :: int
  shows "1000 * a + m = z \<Longrightarrow> 60 * b + i = a \<Longrightarrow> 60 * h + j = b \<Longrightarrow> z = h * 3600000 + j * 60000 + i * 1000 + m"
  by simp

lemma clock_split:
  fixes z :: int
  shows "z = (z div 3600000) * 3600000 + (z div 60000 mod 60) * 60000 + (z div 1000 mod 60) * 1000 + z mod 1000"
proof -
  have d: "z div 60000 = z div 1000 div 60" "z div 3600000 = z div 1000 div 60 div 60"
    by (simp_all add: zdiv_zmult2_eq[symmetric])
  show ?thesis
    unfolding d by (rule clock_arith[OF mult_div_mod_eq mult_div_mod_eq mult_div_mod_eq])
qed

theorem iso_text_inj:
  assumes "iso_text s = iso_text t"
  shows "s = t"
proof -
  define S T where "S = s mod 86400000" and "T = t mod 86400000"
  obtain y m d where s: "civil_of_days (s div 86400000) = (y, m, d)" by (metis prod_cases3)
  obtain y' m' d' where t: "civil_of_days (t div 86400000) = (y', m', d')" by (metis prod_cases3)
  have S: "0 \<le> S" "S < 86400000" "0 \<le> T" "T < 86400000" by (simp_all add: S_def T_def)
  have len: "length (pad 2 (nat m)) = 2" "length (pad 2 (nat m')) = 2"
    "length (pad 2 (nat d)) = 2" "length (pad 2 (nat d')) = 2"
    using civil_of_days_bounds[OF s] civil_of_days_bounds[OF t] by (auto intro!: length_pad2)
  have hms: "length (pad 2 (nat (z div 3600000))) = 2" "length (pad 2 (nat (z div 60000 mod 60))) = 2"
    "length (pad 2 (nat (z div 1000 mod 60))) = 2" "length (pad 3 (nat (z mod 1000))) = 3"
    if "0 \<le> z" "z < 86400000" for z :: int
    using that by (auto intro!: length_pad2 length_pad3 simp: nat_less_iff)
  have "year_text y = year_text y' \<and> pad 2 (nat m) = pad 2 (nat m') \<and> pad 2 (nat d) = pad 2 (nat d')
      \<and> pad 2 (nat (S div 3600000)) = pad 2 (nat (T div 3600000))
      \<and> pad 2 (nat (S div 60000 mod 60)) = pad 2 (nat (T div 60000 mod 60))
      \<and> pad 2 (nat (S div 1000 mod 60)) = pad 2 (nat (T div 1000 mod 60))
      \<and> pad 3 (nat (S mod 1000)) = pad 3 (nat (T mod 1000))"
    by (rule fields_split) (use assms s t len hms[OF S(1,2)] hms[OF S(3,4)] in
      \<open>simp_all only: iso_text_def Let_def S_def T_def prod.case join.simps append.simps append_assoc\<close>)
  then have "year_text y = year_text y'" "nat m = nat m'" "nat d = nat d'"
    "nat (S div 3600000) = nat (T div 3600000)" "nat (S div 60000 mod 60) = nat (T div 60000 mod 60)"
    "nat (S div 1000 mod 60) = nat (T div 1000 mod 60)" "nat (S mod 1000) = nat (T mod 1000)"
    by (blast intro: pad_inj)+
  note nats = this
  have eqs: "y = y'" "m = m'" "d = d'"
    using year_text_inj[OF nats(1)] nats(2,3) civil_of_days_bounds[OF s] civil_of_days_bounds[OF t] by linarith+
  have nonneg: "0 \<le> z div 3600000 \<and> 0 \<le> z div 60000 mod 60 \<and> 0 \<le> z div 1000 mod 60 \<and> 0 \<le> z mod 1000"
    if "0 \<le> z" for z :: int using that by (simp add: pos_imp_zdiv_nonneg_iff)
  have parts: "S div 3600000 = T div 3600000" "S div 60000 mod 60 = T div 60000 mod 60"
    "S div 1000 mod 60 = T div 1000 mod 60" "S mod 1000 = T mod 1000"
    using nats(4-7) nonneg[OF S(1)] nonneg[OF S(3)] by (simp_all only: eq_nat_nat_iff)
  have "civil_of_days (s div 86400000) = civil_of_days (t div 86400000)" using s t eqs by simp
  then have day: "s div 86400000 = t div 86400000" by (metis days_of_civil_of_days)
  have "S = T" using clock_split[of S] clock_split[of T] parts by simp
  then show ?thesis using day unfolding S_def T_def by (metis div_mult_mod_eq)
qed

end
