(* ===== verification/Evidence.thy ===== *)
theory Evidence
  imports Iso_Text
begin

text \<open>
  The evidence of a run: \<open>RunStepLogEntry\<close> of \<open>packages/core/src/project-state.ts\<close>, the
  statuses a step goes through (\<open>run-step-transition-table.ts\<close>, \<open>transition-guards.ts\<close>),
  its checksum and the chain of checksums (\<open>evidence/run-step-evidence.ts\<close>), and how the
  executor builds an entry (\<open>packages/execution/src/evidence/append-run-step-evidence.ts\<close>).
  SHA-256 is the argument \<open>sha\<close>; nothing is assumed about it, so what a checksum proves is
  stated up to a collision.
\<close>

section \<open>Entries and their status\<close>

datatype run_step_status =
    Step_Succeeded | Step_Failed | Step_Timed_Out | Step_Cancelled
  | Step_Cancellation_Requested | Step_Compensation_Pending | Step_Compensated

fun status_text :: "run_step_status \<Rightarrow> string" where
  "status_text Step_Succeeded = ''succeeded''"
| "status_text Step_Failed = ''failed''"
| "status_text Step_Timed_Out = ''timed_out''"
| "status_text Step_Cancelled = ''cancelled''"
| "status_text Step_Cancellation_Requested = ''cancellation_requested''"
| "status_text Step_Compensation_Pending = ''compensation_pending''"
| "status_text Step_Compensated = ''compensated''"

record run_step =
  rs_id :: string
  rs_tenant :: string
  rs_project :: string
  rs_run :: string
  rs_step :: string
  rs_attempt :: int
  rs_task :: "string option"
  rs_role :: string
  rs_tool :: "string option"
  rs_input :: string
  rs_output :: string
  rs_status :: run_step_status
  rs_policy :: "string option"
  rs_key :: string
  rs_payload :: "string option"
  rs_checksum :: string
  rs_prev :: "string option"
  rs_trace :: string
  rs_duration :: int
  rs_created :: stamp

definition TERMINAL_RUN_STEP_STATUSES :: "run_step_status list" where
  "TERMINAL_RUN_STEP_STATUSES =
     [Step_Succeeded, Step_Failed, Step_Timed_Out, Step_Cancelled, Step_Compensated]"

fun getAllowedRunStepTransitions :: "run_step_status \<Rightarrow> run_step_status list" where
  "getAllowedRunStepTransitions Step_Cancellation_Requested = [Step_Cancelled, Step_Compensation_Pending]"
| "getAllowedRunStepTransitions Step_Compensation_Pending = [Step_Compensated, Step_Failed]"
| "getAllowedRunStepTransitions _ = []"

definition assertRunStepTransitionAllowed ::
  "run_step_status option \<Rightarrow> run_step_status \<Rightarrow> string \<Rightarrow> string \<Rightarrow> int \<Rightarrow> string \<Rightarrow> unit result" where
  "assertRunStepTransitionAllowed prev nxt run step attempt eid =
     (case prev of
        None \<Rightarrow> Inr ()
      | Some p \<Rightarrow>
          if nxt \<in> set (getAllowedRunStepTransitions p) then Inr ()
          else Inl (Js_Error StateIntegrityError ''Illegal run step status transition''
                 ([''ILLEGAL_RUN_STEP_TRANSITION'', run, step, int_to_string attempt, eid,
                  status_text p, status_text nxt] @ map status_text (getAllowedRunStepTransitions p))))"

section \<open>Checksums\<close>

definition opt_member :: "string \<Rightarrow> string option \<Rightarrow> (string \<times> json) list" where
  "opt_member k x = (if truthy x then [(k, JStr (the x))] else [])"

text \<open>The object \<open>verifyRunStepEvidenceChain\<close> and \<open>appendRunStepEvidence\<close> both write out for
  an entry.\<close>

definition checksum_input :: "run_step \<Rightarrow> json" where
  "checksum_input s = JObj
     ([(''evidenceId'', JStr (rs_id s)), (''tenantId'', JStr (rs_tenant s)),
       (''projectId'', JStr (rs_project s)), (''runId'', JStr (rs_run s)),
       (''stepId'', JStr (rs_step s)), (''attempt'', JNum (rs_attempt s)),
       (''status'', JStr (status_text (rs_status s)))]
      @ opt_member ''policyDecisionId'' (rs_policy s)
      @ [(''idempotencyKey'', JStr (rs_key s)), (''createdAt'', JStr (stamp_text (rs_created s)))]
      @ opt_member ''payloadRef'' (rs_payload s)
      @ opt_member ''prevChecksum'' (rs_prev s)
      @ [(''traceId'', JStr (rs_trace s))])"

definition computeRunStepChecksum :: "(string \<Rightarrow> string) \<Rightarrow> json \<Rightarrow> string" where
  "computeRunStepChecksum sha input = sha (canonicalizeEvidencePayload input)"

fun verify_steps :: "(string \<Rightarrow> string) \<Rightarrow> string option \<Rightarrow> run_step list \<Rightarrow> string list" where
  "verify_steps sha prev [] = []"
| "verify_steps sha prev (s # ss) =
     (if rs_checksum s \<noteq> computeRunStepChecksum sha (checksum_input s)
      then [''checksum_mismatch:'' @ rs_id s] else [])
     @ (if truthy prev \<and> rs_prev s \<noteq> prev then [''chain_mismatch:'' @ rs_id s] else [])
     @ verify_steps sha (Some (rs_checksum s)) ss"

definition verifyRunStepEvidenceChain :: "(string \<Rightarrow> string) \<Rightarrow> run_step list \<Rightarrow> string list" where
  "verifyRunStepEvidenceChain sha steps = verify_steps sha None (oldest_first rs_created steps)"

record evidence_input =
  ei_id :: string
  ei_tenant :: string
  ei_project :: string
  ei_run :: string
  ei_step :: string
  ei_attempt :: int
  ei_task :: "string option"
  ei_role :: string
  ei_tool :: "string option"
  ei_input :: string
  ei_output :: string
  ei_status :: run_step_status
  ei_policy :: "string option"
  ei_key :: string
  ei_payload :: "string option"
  ei_prev :: "string option"
  ei_trace :: string
  ei_duration :: int
  ei_created :: stamp

text \<open>The entry \<open>appendRunStepEvidence\<close> hands to the store.\<close>

definition evidence_entry :: "(string \<Rightarrow> string) \<Rightarrow> evidence_input \<Rightarrow> run_step" where
  "evidence_entry sha i =
     (let step = \<lparr> rs_id = ei_id i, rs_tenant = ei_tenant i, rs_project = ei_project i, rs_run = ei_run i,
                   rs_step = ei_step i, rs_attempt = ei_attempt i, rs_task = when_truthy (ei_task i),
                   rs_role = ei_role i, rs_tool = when_truthy (ei_tool i), rs_input = ei_input i,
                   rs_output = ei_output i, rs_status = ei_status i, rs_policy = when_truthy (ei_policy i),
                   rs_key = ei_key i, rs_payload = when_truthy (ei_payload i), rs_checksum = '''',
                   rs_prev = when_truthy (ei_prev i), rs_trace = ei_trace i,
                   rs_duration = max 0 (ei_duration i), rs_created = ei_created i \<rparr>
      in step \<lparr> rs_checksum := computeRunStepChecksum sha (checksum_input step) \<rparr>)"

section \<open>What a checksum fixes\<close>

lemma status_text_inj: "status_text a = status_text b \<Longrightarrow> a = b"
  by (cases a; cases b) simp_all

lemma opt_member_iff: "(k, v) \<in> set (opt_member j x) \<longleftrightarrow> k = j \<and> (\<exists>s. when_truthy x = Some s \<and> v = JStr s)"
  by (cases x) (auto simp: opt_member_def when_truthy_def)

lemma opt_member_JUndefined [simp]: "filter (\<lambda>(k, v). v \<noteq> JUndefined) (opt_member j x) = opt_member j x"
  by (simp add: opt_member_def)

lemma opt_member_normalize [simp]: "map (\<lambda>(k, v). (k, normalize v)) (opt_member j x) = opt_member j x"
  by (simp add: opt_member_def)

definition members :: "json \<Rightarrow> (string \<times> json) set" where
  "members v = (case v of JObj kvs \<Rightarrow> set kvs | _ \<Rightarrow> {})"

lemma members_normalize: "members (normalize (checksum_input s)) = members (checksum_input s)"
  by (simp add: members_def checksum_input_def)

lemma members_checksum_input:
  "(''evidenceId'', v) \<in> members (checksum_input s) \<longleftrightarrow> v = JStr (rs_id s)"
  "(''tenantId'', v) \<in> members (checksum_input s) \<longleftrightarrow> v = JStr (rs_tenant s)"
  "(''projectId'', v) \<in> members (checksum_input s) \<longleftrightarrow> v = JStr (rs_project s)"
  "(''runId'', v) \<in> members (checksum_input s) \<longleftrightarrow> v = JStr (rs_run s)"
  "(''stepId'', v) \<in> members (checksum_input s) \<longleftrightarrow> v = JStr (rs_step s)"
  "(''attempt'', v) \<in> members (checksum_input s) \<longleftrightarrow> v = JNum (rs_attempt s)"
  "(''status'', v) \<in> members (checksum_input s) \<longleftrightarrow> v = JStr (status_text (rs_status s))"
  "(''policyDecisionId'', v) \<in> members (checksum_input s) \<longleftrightarrow> (\<exists>x. when_truthy (rs_policy s) = Some x \<and> v = JStr x)"
  "(''idempotencyKey'', v) \<in> members (checksum_input s) \<longleftrightarrow> v = JStr (rs_key s)"
  "(''createdAt'', v) \<in> members (checksum_input s) \<longleftrightarrow> v = JStr (stamp_text (rs_created s))"
  "(''payloadRef'', v) \<in> members (checksum_input s) \<longleftrightarrow> (\<exists>x. when_truthy (rs_payload s) = Some x \<and> v = JStr x)"
  "(''prevChecksum'', v) \<in> members (checksum_input s) \<longleftrightarrow> (\<exists>x. when_truthy (rs_prev s) = Some x \<and> v = JStr x)"
  "(''traceId'', v) \<in> members (checksum_input s) \<longleftrightarrow> v = JStr (rs_trace s)"
  by (simp_all add: members_def checksum_input_def opt_member_iff)

definition covered :: "run_step \<Rightarrow> run_step \<Rightarrow> bool" where
  "covered a b \<longleftrightarrow>
     rs_id a = rs_id b \<and> rs_tenant a = rs_tenant b \<and> rs_project a = rs_project b \<and> rs_run a = rs_run b
     \<and> rs_step a = rs_step b \<and> rs_attempt a = rs_attempt b \<and> rs_status a = rs_status b
     \<and> when_truthy (rs_policy a) = when_truthy (rs_policy b) \<and> rs_key a = rs_key b
     \<and> stamp_text (rs_created a) = stamp_text (rs_created b)
     \<and> when_truthy (rs_payload a) = when_truthy (rs_payload b)
     \<and> when_truthy (rs_prev a) = when_truthy (rs_prev b) \<and> rs_trace a = rs_trace b"

lemma option_eq_by_members: "(\<And>v. (\<exists>x. p = Some x \<and> v = JStr x) \<longleftrightarrow> (\<exists>x. q = Some x \<and> v = JStr x)) \<Longrightarrow> p = q"
proof -
  assume h: "\<And>v. (\<exists>x. p = Some x \<and> v = JStr x) \<longleftrightarrow> (\<exists>x. q = Some x \<and> v = JStr x)"
  show ?thesis using h[of "JStr (the p)"] h[of "JStr (the q)"] by (cases p; cases q) auto
qed

lemma covered_by_members:
  assumes "members (checksum_input a) = members (checksum_input b)"
  shows "covered a b"
proof -
  have m: "(k, v) \<in> members (checksum_input a) \<longleftrightarrow> (k, v) \<in> members (checksum_input b)" for k v
    using assms by simp
  have "when_truthy (rs_policy a) = when_truthy (rs_policy b)"
    by (rule option_eq_by_members) (rule m[of "''policyDecisionId''", unfolded members_checksum_input])
  moreover have "when_truthy (rs_payload a) = when_truthy (rs_payload b)"
    by (rule option_eq_by_members) (rule m[of "''payloadRef''", unfolded members_checksum_input])
  moreover have "when_truthy (rs_prev a) = when_truthy (rs_prev b)"
    by (rule option_eq_by_members) (rule m[of "''prevChecksum''", unfolded members_checksum_input])
  moreover have "rs_id a = rs_id b" using m[of "''evidenceId''" "JStr (rs_id a)", unfolded members_checksum_input] by simp
  moreover have "rs_tenant a = rs_tenant b" using m[of "''tenantId''" "JStr (rs_tenant a)", unfolded members_checksum_input] by simp
  moreover have "rs_project a = rs_project b" using m[of "''projectId''" "JStr (rs_project a)", unfolded members_checksum_input] by simp
  moreover have "rs_run a = rs_run b" using m[of "''runId''" "JStr (rs_run a)", unfolded members_checksum_input] by simp
  moreover have "rs_step a = rs_step b" using m[of "''stepId''" "JStr (rs_step a)", unfolded members_checksum_input] by simp
  moreover have "rs_attempt a = rs_attempt b" using m[of "''attempt''" "JNum (rs_attempt a)", unfolded members_checksum_input] by simp
  moreover have "rs_status a = rs_status b"
    using m[of "''status''" "JStr (status_text (rs_status a))", unfolded members_checksum_input] by (simp add: status_text_inj)
  moreover have "rs_key a = rs_key b" using m[of "''idempotencyKey''" "JStr (rs_key a)", unfolded members_checksum_input] by simp
  moreover have "stamp_text (rs_created a) = stamp_text (rs_created b)"
    using m[of "''createdAt''" "JStr (stamp_text (rs_created a))", unfolded members_checksum_input] by simp
  moreover have "rs_trace a = rs_trace b" using m[of "''traceId''" "JStr (rs_trace a)", unfolded members_checksum_input] by simp
  ultimately show ?thesis unfolding covered_def by simp
qed

definition collision :: "(string \<Rightarrow> string) \<Rightarrow> bool" where
  "collision sha \<longleftrightarrow> (\<exists>x y. x \<noteq> y \<and> sha x = sha y)"

definition checksum_ok :: "(string \<Rightarrow> string) \<Rightarrow> run_step \<Rightarrow> bool" where
  "checksum_ok sha s = (rs_checksum s = computeRunStepChecksum sha (checksum_input s))"

lemma checksum_covers:
  assumes "computeRunStepChecksum sha (checksum_input a) = computeRunStepChecksum sha (checksum_input b)"
  shows "covered a b \<or> collision sha"
proof (cases "canonicalizeEvidencePayload (checksum_input a) = canonicalizeEvidencePayload (checksum_input b)")
  case True
  then have "members (normalize (checksum_input a)) = members (normalize (checksum_input b))"
    using canonicalizeEvidencePayload_inj by metis
  then have "covered a b" by (intro covered_by_members) (simp add: members_normalize)
  then show ?thesis ..
next
  case False
  then show ?thesis using assms unfolding computeRunStepChecksum_def collision_def by blast
qed

text \<open>Only these fields: the entry's task, role, tool, input, output and duration are not part
  of the checksum.\<close>

lemma checksum_input_uncovered [simp]:
  "checksum_input (s\<lparr>rs_output := x\<rparr>) = checksum_input s"
  "checksum_input (s\<lparr>rs_input := x\<rparr>) = checksum_input s"
  "checksum_input (s\<lparr>rs_role := x\<rparr>) = checksum_input s"
  "checksum_input (s\<lparr>rs_tool := t\<rparr>) = checksum_input s"
  "checksum_input (s\<lparr>rs_task := t\<rparr>) = checksum_input s"
  "checksum_input (s\<lparr>rs_duration := d\<rparr>) = checksum_input s"
  "checksum_input (s\<lparr>rs_checksum := x\<rparr>) = checksum_input s"
  by (simp_all add: checksum_input_def)

section \<open>Chains\<close>

fun linked :: "string option \<Rightarrow> run_step list \<Rightarrow> bool" where
  "linked prev [] = True"
| "linked prev (s # ss) = ((truthy prev \<longrightarrow> rs_prev s = prev) \<and> linked (Some (rs_checksum s)) ss)"

lemma verify_steps_empty_iff:
  "verify_steps sha prev ss = [] \<longleftrightarrow> (\<forall>s \<in> set ss. checksum_ok sha s) \<and> linked prev ss"
  by (induction sha prev ss rule: verify_steps.induct) (auto simp: checksum_ok_def)

lemma verify_chain_iff:
  "verifyRunStepEvidenceChain sha steps = [] \<longleftrightarrow>
     (\<forall>s \<in> set steps. checksum_ok sha s) \<and> linked None (oldest_first rs_created steps)"
  by (simp add: verifyRunStepEvidenceChain_def verify_steps_empty_iff)

definition link_end :: "string option \<Rightarrow> run_step list \<Rightarrow> string option" where
  "link_end prev ss = (if ss = [] then prev else Some (rs_checksum (last ss)))"

lemma linked_append: "linked prev (ss @ ts) \<longleftrightarrow> linked prev ss \<and> linked (link_end prev ss) ts"
  by (induction ss arbitrary: prev) (auto simp: link_end_def)

lemma evidence_entry_checksum_ok: "checksum_ok sha (evidence_entry sha i)"
  unfolding checksum_ok_def evidence_entry_def Let_def by (subst checksum_input_uncovered) simp

lemma evidence_entry_fields [simp]:
  "rs_created (evidence_entry sha i) = ei_created i"
  "rs_prev (evidence_entry sha i) = when_truthy (ei_prev i)"
  "rs_run (evidence_entry sha i) = ei_run i"
  "rs_step (evidence_entry sha i) = ei_step i"
  "rs_attempt (evidence_entry sha i) = ei_attempt i"
  "rs_status (evidence_entry sha i) = ei_status i"
  "rs_tenant (evidence_entry sha i) = ei_tenant i"
  "rs_project (evidence_entry sha i) = ei_project i"
  "rs_task (evidence_entry sha i) = when_truthy (ei_task i)"
  "rs_id (evidence_entry sha i) = ei_id i"
  "rs_policy (evidence_entry sha i) = when_truthy (ei_policy i)"
  "rs_trace (evidence_entry sha i) = ei_trace i"
  "rs_output (evidence_entry sha i) = ei_output i"
  "0 \<le> rs_duration (evidence_entry sha i)"
  by (simp_all add: evidence_entry_def Let_def)

text \<open>Adding an entry whose \<open>prevChecksum\<close> is the checksum of the newest one, and whose time
  is not older, keeps the chain valid.\<close>

lemma oldest_first_snoc:
  "\<forall>x \<in> set xs. stamp_compare (f x) (f y) \<le> 0 \<Longrightarrow> oldest_first f (xs @ [y]) = oldest_first f xs @ [y]"
  by (simp add: oldest_first_def sort_by_snoc_greatest on_cmp_def)

lemma verified_chain_extend:
  assumes "verifyRunStepEvidenceChain sha steps = []"
    and "checksum_ok sha s" and "\<forall>x \<in> set steps. stamp_compare (rs_created x) (rs_created s) \<le> 0"
    and "rs_prev s = link_end None (oldest_first rs_created steps)"
  shows "verifyRunStepEvidenceChain sha (steps @ [s]) = []"
  using assms by (auto simp: verify_chain_iff oldest_first_snoc linked_append)

lemma linked_chains_covered:
  assumes sha: "\<And>x. sha x \<noteq> []" and nc: "\<not> collision sha"
  shows "\<lbrakk> \<forall>s \<in> set as. checksum_ok sha s; \<forall>s \<in> set bs. checksum_ok sha s;
     linked None as; linked None bs; as \<noteq> []; bs \<noteq> []; rs_prev (hd as) = None; rs_prev (hd bs) = None;
     rs_checksum (last as) = rs_checksum (last bs) \<rbrakk> \<Longrightarrow> list_all2 covered as bs"
proof (induction as arbitrary: bs rule: rev_induct)
  case Nil
  then show ?case by simp
next
  case (snoc a as)
  obtain b bs' where bs: "bs = bs' @ [b]" using snoc.prems(6) by (cases bs rule: rev_cases) auto
  have "computeRunStepChecksum sha (checksum_input a) = computeRunStepChecksum sha (checksum_input b)"
    using snoc.prems(1,2,9) unfolding bs checksum_ok_def by simp
  then have cov: "covered a b" using checksum_covers nc by blast
  have ne: "rs_checksum s \<noteq> []" if "s \<in> set (as @ [a]) \<union> set bs" for s
    using that snoc.prems(1,2) sha unfolding checksum_ok_def computeRunStepChecksum_def by (metis UnE)
  have pa: "rs_prev a = (if as = [] then None else Some (rs_checksum (last as)))"
    using snoc.prems(3,7) ne[of "last as"] by (auto simp: linked_append link_end_def)
  have pb: "rs_prev b = (if bs' = [] then None else Some (rs_checksum (last bs')))"
    using snoc.prems(4,8) ne[of "last bs'"] unfolding bs by (auto simp: linked_append link_end_def)
  have same: "when_truthy (rs_prev a) = when_truthy (rs_prev b)" using cov by (simp add: covered_def)
  show ?case
  proof (cases "as = []")
    case True
    then have "bs' = []" using same pa pb ne[of "last bs'"] bs
      by (auto simp: when_truthy_def split: if_splits)
    then show ?thesis using True cov bs by simp
  next
    case False
    then have ne': "bs' \<noteq> []" and "rs_checksum (last as) = rs_checksum (last bs')"
      using same pa pb ne[of "last as"] ne[of "last bs'"] bs
      by (auto simp: when_truthy_def split: if_splits)
    then have "list_all2 covered as bs'"
      using snoc.IH[of bs'] snoc.prems bs False by (auto simp: linked_append)
    then show ?thesis using cov bs by (simp add: list_all2_appendI)
  qed
qed


definition sample_input :: "string \<Rightarrow> string option \<Rightarrow> int \<Rightarrow> string \<Rightarrow> evidence_input" where
  "sample_input i prev t out = \<lparr> ei_id = i, ei_tenant = ''org'', ei_project = ''p'', ei_run = ''r'', ei_step = ''s'',
     ei_attempt = 0, ei_task = None, ei_role = ''coder'', ei_tool = None, ei_input = '''', ei_output = out,
     ei_status = Step_Succeeded, ei_policy = None, ei_key = ''k'', ei_payload = None, ei_prev = prev,
     ei_trace = ''t'', ei_duration = 1, ei_created = Iso t \<rparr>"

definition sample_chain :: "string \<Rightarrow> run_step list" where
  "sample_chain out =
     (let a = evidence_entry (Cons CHR ''h'') (sample_input ''e1'' None 0 out)
      in [a, evidence_entry (Cons CHR ''h'') (sample_input ''e2'' (Some (rs_checksum a)) 5 out)])"

lemma sample_chain_ordered [simp]: "oldest_first rs_created (sample_chain out) = sample_chain out"
  by (rule oldest_first_sorted) (simp add: sample_chain_def Let_def sample_input_def)

lemma sample_checksum_nonempty [simp]: "rs_checksum (evidence_entry (Cons CHR ''h'') i) \<noteq> []"
  using evidence_entry_checksum_ok[of "Cons CHR ''h''" i]
  by (simp add: checksum_ok_def computeRunStepChecksum_def)

lemma sample_chain_verifies: "verifyRunStepEvidenceChain (Cons CHR ''h'') (sample_chain out) = []"
  unfolding verify_chain_iff sample_chain_ordered
  by (auto simp: sample_chain_def Let_def evidence_entry_checksum_ok sample_input_def when_truthy_def)

lemma sample_chain_last: "rs_checksum (last (sample_chain x)) = rs_checksum (last (sample_chain y))"
proof -
  have 1: "rs_checksum (evidence_entry sha (sample_input i p t x)) = rs_checksum (evidence_entry sha (sample_input i p t y))"
    for sha i p t by (simp add: evidence_entry_def Let_def sample_input_def checksum_input_def)
  show ?thesis by (simp add: sample_chain_def Let_def 1[of _ _ _ _] 1[of _ "''e1''"])
qed


end
