(* ===== verification/Dedup.thy ===== *)
theory Dedup
  imports Timestamps Json
begin

text \<open>
  At-most-once side effects. The key of a side effect
  (\<open>packages/core/src/idempotency/build-idempotency-key.ts\<close>), the registry of keys
  (\<open>packages/state/src/idempotency/dedup-registry.ts\<close>), its in-memory port
  (\<open>in-memory-dedup-registry-port.ts\<close>) and the executor's guard
  (\<open>packages/execution/src/idempotency/side-effect-dedup-guard.ts\<close>). The locale
  \<open>dedup_registry\<close> is the contract a caller relies on; the port and the guard meet it.
\<close>

section \<open>Keys\<close>

record key_input =
  ki_tenant :: string
  ki_project :: string
  ki_run :: string
  ki_task :: string
  ki_stage :: string
  ki_attempt :: int
  ki_side_effect :: string
  ki_normalized :: json

definition plain_error :: "string \<Rightarrow> js_error" where
  "plain_error m = Js_Error PlainError m []"

definition assertKeyPart :: "string \<Rightarrow> string \<Rightarrow> string result" where
  "assertKeyPart value field =
     (let normalized = js_trim value in
      if length normalized = 0 then Inl (plain_error (''buildIdempotencyKey: '' @ field @ '' must be a non-empty string''))
      else if CHR '':'' \<in> set normalized
      then Inl (plain_error (''buildIdempotencyKey: '' @ field @ '' must not include '' @ [CHR 0x27, CHR '':'', CHR 0x27]))
      else Inr normalized)"

fun collect_results :: "'a result list \<Rightarrow> 'a list result" where
  "collect_results [] = Inr []"
| "collect_results (r # rs) =
     (case r of Inl e \<Rightarrow> Inl e
      | Inr x \<Rightarrow> (case collect_results rs of Inl e \<Rightarrow> Inl e | Inr xs \<Rightarrow> Inr (x # xs)))"

definition buildIdempotencyKey :: "string cmp \<Rightarrow> (string \<Rightarrow> string) \<Rightarrow> key_input \<Rightarrow> string result" where
  "buildIdempotencyKey lc sha i =
     (if ki_attempt i < 0 then Inl (plain_error ''buildIdempotencyKey: attempt must be an integer >= 0'')
      else let actionHash = sha (canonicalize lc (ki_normalized i)) in
        (case collect_results
            [assertKeyPart (ki_tenant i) ''tenantId'', assertKeyPart (ki_project i) ''projectId'',
             assertKeyPart (ki_run i) ''runId'', assertKeyPart (ki_task i) ''taskId'',
             assertKeyPart (ki_stage i) ''stage'', Inr (int_to_string (ki_attempt i)),
             (case assertKeyPart (ki_side_effect i) ''sideEffectType'' of
                Inl e \<Rightarrow> Inl e | Inr p \<Rightarrow> Inr (p @ ''-'' @ actionHash))] of
           Inl e \<Rightarrow> Inl e
         | Inr parts \<Rightarrow> Inr (join '':'' parts)))"

lemma assertKeyPart_Inr:
  "assertKeyPart v f = Inr w \<longleftrightarrow> w = js_trim v \<and> w \<noteq> [] \<and> CHR '':'' \<notin> set w"
  by (auto simp: assertKeyPart_def Let_def)

lemma int_to_string_no_colon: "CHR '':'' \<notin> set (int_to_string i)"
  using int_to_string_chars[of "CHR '':''" i] by (auto simp: is_numeral_char_def)

definition key_parts :: "string cmp \<Rightarrow> (string \<Rightarrow> string) \<Rightarrow> key_input \<Rightarrow> string list" where
  "key_parts lc sha i =
     [js_trim (ki_tenant i), js_trim (ki_project i), js_trim (ki_run i), js_trim (ki_task i),
      js_trim (ki_stage i), int_to_string (ki_attempt i),
      js_trim (ki_side_effect i) @ ''-'' @ sha (canonicalize lc (ki_normalized i))]"

lemma buildIdempotencyKey_Inr:
  assumes "buildIdempotencyKey lc sha i = Inr k"
  shows "k = join '':'' (key_parts lc sha i)"
    and "\<forall>p \<in> set (butlast (key_parts lc sha i)). CHR '':'' \<notin> set p"
    and "CHR '':'' \<notin> set (js_trim (ki_side_effect i))" and "0 \<le> ki_attempt i"
    and "js_trim (ki_tenant i) \<noteq> []"
  using assms
  by (auto simp: buildIdempotencyKey_def Let_def key_parts_def assertKeyPart_Inr int_to_string_no_colon
      split: if_splits sum.splits)

text \<open>C8. Idempotency keys do not collide. When \<open>buildIdempotencyKey\<close> accepts two inputs and gives
  both the same key, the inputs have the same attempt and side-effect type, the same tenant, project,
  run, task and stage up to surrounding blanks, and the same canonical payload, unless the canonical texts of
  these very payloads are different texts with the same digest. The digest is a hex text of 64 characters.\<close>

theorem idempotency_key_injective:
  assumes hex: "\<And>x. length (sha x) = 64 \<and> CHR '':'' \<notin> set (sha x)"
    and i: "buildIdempotencyKey lc sha i = Inr k" and j: "buildIdempotencyKey lc sha j = Inr k"
  shows "ki_attempt i = ki_attempt j \<and> js_trim (ki_side_effect i) = js_trim (ki_side_effect j)
    \<and> js_trim (ki_tenant i) = js_trim (ki_tenant j) \<and> js_trim (ki_project i) = js_trim (ki_project j)
    \<and> js_trim (ki_run i) = js_trim (ki_run j) \<and> js_trim (ki_task i) = js_trim (ki_task j)
    \<and> js_trim (ki_stage i) = js_trim (ki_stage j)
    \<and> (sort_members lc (ki_normalized i) = sort_members lc (ki_normalized j)
         \<or> (canonicalize lc (ki_normalized i) \<noteq> canonicalize lc (ki_normalized j)
             \<and> sha (canonicalize lc (ki_normalized i)) = sha (canonicalize lc (ki_normalized j))))"
proof -
  have no: "\<forall>p \<in> set (key_parts lc sha x). CHR '':'' \<notin> set p" if "buildIdempotencyKey lc sha x = Inr k" for x
    using buildIdempotencyKey_Inr(2,3)[OF that] hex by (auto simp: key_parts_def)
  have "key_parts lc sha i = key_parts lc sha j"
    using buildIdempotencyKey_Inr(1)[OF i] buildIdempotencyKey_Inr(1)[OF j] no[OF i] no[OF j]
    by (intro join_inj[of _ _ "CHR '':''"]) (simp_all add: key_parts_def)
  then have eq: "int_to_string (ki_attempt i) = int_to_string (ki_attempt j)"
      "js_trim (ki_side_effect i) @ ''-'' @ sha (canonicalize lc (ki_normalized i))
         = js_trim (ki_side_effect j) @ ''-'' @ sha (canonicalize lc (ki_normalized j))"
      "js_trim (ki_tenant i) = js_trim (ki_tenant j)" "js_trim (ki_project i) = js_trim (ki_project j)"
      "js_trim (ki_run i) = js_trim (ki_run j)" "js_trim (ki_task i) = js_trim (ki_task j)"
      "js_trim (ki_stage i) = js_trim (ki_stage j)"
    by (simp_all add: key_parts_def)
  have s: "js_trim (ki_side_effect i) = js_trim (ki_side_effect j)"
    and h: "sha (canonicalize lc (ki_normalized i)) = sha (canonicalize lc (ki_normalized j))"
    using eq(2) hex by simp_all
  then show ?thesis using eq s int_to_string_inj canonicalize_inj by blast
qed

definition sample_key_input :: key_input where
  "sample_key_input = \<lparr> ki_tenant = ''org'', ki_project = ''p'', ki_run = ''r1'', ki_task = ''t1'', ki_stage = ''push'',
     ki_attempt = 0, ki_side_effect = ''git_push'', ki_normalized = JObj [(''a'', JNum 1)] \<rparr>"

theorem idempotency_key_injective_witness:
  "ki_attempt sample_key_input = ki_attempt (sample_key_input\<lparr>ki_run := '' r1 ''\<rparr>)
   \<and> js_trim (ki_run sample_key_input) = js_trim (ki_run (sample_key_input\<lparr>ki_run := '' r1 ''\<rparr>))"
proof -
  let ?sha = "\<lambda>_ :: string. replicate 64 CHR ''0''"
  have acc: "\<exists>k. buildIdempotencyKey code_unit_compare ?sha sample_key_input = Inr k
      \<and> buildIdempotencyKey code_unit_compare ?sha (sample_key_input\<lparr>ki_run := '' r1 ''\<rparr>) = Inr k"
    by (simp add: buildIdempotencyKey_def sample_key_input_def Let_def assertKeyPart_def js_trim_def is_space_def)
  then obtain k where "buildIdempotencyKey code_unit_compare ?sha sample_key_input = Inr k"
    "buildIdempotencyKey code_unit_compare ?sha (sample_key_input\<lparr>ki_run := '' r1 ''\<rparr>) = Inr k" by blast
  from idempotency_key_injective[OF _ this] show ?thesis by simp
qed

section \<open>The registry\<close>

datatype dedup_status = Dedup_Pending | Dedup_Succeeded | Dedup_Failed | Dedup_Expired

record dedup_entry =
  de_key :: string
  de_status :: dedup_status
  de_owner :: string
  de_created :: stamp
  de_updated :: stamp
  de_expires :: stamp
  de_policy :: "string option"
  de_evidence :: "string option"

record reserve_command =
  rc_key :: string
  rc_owner :: string
  rc_now :: stamp
  rc_ttl :: int

datatype finalize_status = Final_Succeeded | Final_Failed

record finalize_command =
  fc_key :: string
  fc_now :: stamp
  fc_status :: finalize_status
  fc_owner :: "string option"
  fc_policy :: "string option"
  fc_evidence :: "string option"

datatype reserve_outcome = Reserved dedup_entry | Not_Reserved dedup_entry

fun final_status :: "finalize_status \<Rightarrow> dedup_status" where
  "final_status Final_Succeeded = Dedup_Succeeded"
| "final_status Final_Failed = Dedup_Failed"

type_synonym registry = "dedup_entry jsrec"

definition reserveDedupEntry :: "reserve_command \<Rightarrow> registry \<Rightarrow> reserve_outcome result \<times> registry" where
  "reserveDedupEntry i reg =
     (let now = date_ms (rc_now i);
          grant = (\<lambda>r. case to_iso (num_add now (rc_ttl i)) of
                      Inl e \<Rightarrow> (Inl e, r)
                    | Inr expires \<Rightarrow>
                        let nxt = \<lparr> de_key = rc_key i, de_status = Dedup_Pending, de_owner = rc_owner i,
                                    de_created = rc_now i, de_updated = rc_now i, de_expires = expires,
                                    de_policy = None, de_evidence = None \<rparr>
                        in (Inr (Reserved nxt), rec_set (rc_key i) nxt r))
      in case rec_get reg (rc_key i) of
           None \<Rightarrow> grant reg
         | Some current \<Rightarrow>
             if num_le (date_ms (de_expires current)) now
             then grant (rec_set (rc_key i) (current\<lparr>de_status := Dedup_Expired, de_updated := rc_now i\<rparr>) reg)
             else if de_status current = Dedup_Pending \<or> de_status current = Dedup_Succeeded
             then (Inr (Not_Reserved current), reg)
             else grant reg)"

definition finalizeDedupEntry :: "finalize_command \<Rightarrow> registry \<Rightarrow> dedup_entry option \<times> registry" where
  "finalizeDedupEntry i reg =
     (case rec_get reg (fc_key i) of
        None \<Rightarrow> (None, reg)
      | Some current \<Rightarrow>
          let updated = current\<lparr> de_status := final_status (fc_status i), de_updated := fc_now i,
                de_policy := (if truthy (fc_policy i) then fc_policy i else de_policy current),
                de_evidence := (if truthy (fc_evidence i) then fc_evidence i else de_evidence current) \<rparr>
          in (Some updated, rec_set (fc_key i) updated reg))"

section \<open>The port\<close>

datatype suppress_reason = Duplicate_Pending | Duplicate_Succeeded

datatype port_reserve_result = Port_Reserved dedup_entry | Port_Suppressed suppress_reason dedup_entry

datatype port_finalize_result =
    Port_Finalized dedup_entry | Missing_Entry | Lease_Owner_Mismatch dedup_entry

definition port_reserve :: "reserve_command \<Rightarrow> registry \<Rightarrow> port_reserve_result result \<times> registry" where
  "port_reserve c reg =
     (case reserveDedupEntry c reg of
        (Inl e, r) \<Rightarrow> (Inl e, r)
      | (Inr (Reserved e), r) \<Rightarrow> (Inr (Port_Reserved e), r)
      | (Inr (Not_Reserved e), r) \<Rightarrow>
          (Inr (Port_Suppressed (if de_status e = Dedup_Pending then Duplicate_Pending else Duplicate_Succeeded) e), r))"

definition port_finalize :: "finalize_command \<Rightarrow> registry \<Rightarrow> port_finalize_result \<times> registry" where
  "port_finalize c reg =
     (case rec_get reg (fc_key c) of
        None \<Rightarrow> (Missing_Entry, reg)
      | Some current \<Rightarrow>
          if truthy (fc_owner c) \<and> Some (de_owner current) \<noteq> fc_owner c
          then (Lease_Owner_Mismatch current, reg)
          else (case finalizeDedupEntry c reg of
                  (None, r) \<Rightarrow> (Missing_Entry, r)
                | (Some updated, r) \<Rightarrow> (Port_Finalized updated, r)))"

section \<open>The executor's guard\<close>

definition reserveSideEffect :: "reserve_command \<Rightarrow> registry \<Rightarrow> dedup_status option result \<times> registry" where
  "reserveSideEffect c reg =
     (case reserveDedupEntry c reg of
        (Inl e, r) \<Rightarrow> (Inl e, r)
      | (Inr (Not_Reserved e), r) \<Rightarrow> (Inr (Some (de_status e)), r)
      | (Inr (Reserved e), r) \<Rightarrow> (Inr None, r))"

definition completeSideEffect :: "finalize_command \<Rightarrow> registry \<Rightarrow> registry" where
  "completeSideEffect c reg = snd (finalizeDedupEntry c reg)"

section \<open>The contract\<close>

datatype dedup_op = Reserve reserve_command | Finalize finalize_command

fun op_key :: "dedup_op \<Rightarrow> string" where
  "op_key (Reserve c) = rc_key c"
| "op_key (Finalize c) = fc_key c"

text \<open>A history of calls: the keys for which a reservation was granted, and the final registry.\<close>

fun granted_keys ::
  "(reserve_command \<Rightarrow> 's \<Rightarrow> bool \<times> 's) \<Rightarrow> (finalize_command \<Rightarrow> 's \<Rightarrow> 's) \<Rightarrow> dedup_op list \<Rightarrow> 's \<Rightarrow> string list \<times> 's" where
  "granted_keys rsv fin [] s = ([], s)"
| "granted_keys rsv fin (Reserve c # ops) s =
     (case rsv c s of (g, s') \<Rightarrow> case granted_keys rsv fin ops s' of (ks, s'') \<Rightarrow>
        ((if g then rc_key c # ks else ks), s''))"
| "granted_keys rsv fin (Finalize c # ops) s = granted_keys rsv fin ops (fin c s)"

text \<open>Calls that may come between a grant for \<open>k\<close> that expires at \<open>t\<close> and the next one: the key is
  not finalized as failed, and reservations of it are made before \<open>t\<close>.\<close>

fun keeps_reservation :: "string \<Rightarrow> int \<Rightarrow> dedup_op \<Rightarrow> bool" where
  "keeps_reservation k t (Reserve c) = (rc_key c = k \<longrightarrow> num_lt (date_ms (rc_now c)) (Some t))"
| "keeps_reservation k t (Finalize c) = (fc_key c = k \<longrightarrow> fc_status c = Final_Succeeded)"

locale dedup_registry =
  fixes rsv :: "reserve_command \<Rightarrow> 's \<Rightarrow> bool \<times> 's"
    and fin :: "finalize_command \<Rightarrow> 's \<Rightarrow> 's"
    and lookup :: "'s \<Rightarrow> string \<Rightarrow> dedup_entry option"
  assumes grant: "rsv c s = (True, s') \<Longrightarrow> \<exists>n e. date_ms (rc_now c) = Some n \<and> lookup s' (rc_key c) = Some e
      \<and> de_status e = Dedup_Pending \<and> de_expires e = Iso (n + rc_ttl c)"
    and blocked: "lookup s (rc_key c) = Some e \<Longrightarrow> de_status e \<in> {Dedup_Pending, Dedup_Succeeded} \<Longrightarrow>
      num_lt (date_ms (rc_now c)) (date_ms (de_expires e)) \<Longrightarrow> rsv c s = (False, s)"
    and rsv_frame: "k \<noteq> rc_key c \<Longrightarrow> lookup (snd (rsv c s)) k = lookup s k"
    and fin_frame: "k \<noteq> fc_key f \<Longrightarrow> lookup (fin f s) k = lookup s k"
    and fin_keeps: "lookup s (fc_key f) = Some e \<Longrightarrow> fc_status f = Final_Succeeded \<Longrightarrow>
      de_status e \<in> {Dedup_Pending, Dedup_Succeeded} \<Longrightarrow>
      \<exists>e'. lookup (fin f s) (fc_key f) = Some e' \<and> de_expires e' = de_expires e \<and> de_status e' \<in> {Dedup_Pending, Dedup_Succeeded}"
begin

definition held :: "string \<Rightarrow> int \<Rightarrow> 's \<Rightarrow> bool" where
  "held k t s \<longleftrightarrow> (\<exists>e. lookup s k = Some e \<and> de_expires e = Iso t \<and> de_status e \<in> {Dedup_Pending, Dedup_Succeeded})"

lemma grant_held: "rsv c s = (True, s') \<Longrightarrow> \<exists>n. date_ms (rc_now c) = Some n \<and> held (rc_key c) (n + rc_ttl c) s'"
  using grant unfolding held_def by blast

lemma held_fin: "held k t s \<Longrightarrow> keeps_reservation k t (Finalize c) \<Longrightarrow> held k t (fin c s)"
proof (cases "k = fc_key c")
  case True
  assume "held k t s" and "keeps_reservation k t (Finalize c)"
  then obtain e where "lookup s (fc_key c) = Some e" "de_expires e = Iso t" "fc_status c = Final_Succeeded"
    "de_status e \<in> {Dedup_Pending, Dedup_Succeeded}"
    using True unfolding held_def by auto
  from fin_keeps[OF this(1,3,4)] this(2) True show ?thesis unfolding held_def by auto
next
  case False
  assume "held k t s"
  then show ?thesis unfolding held_def fin_frame[OF False] .
qed

lemma held_rsv:
  assumes "held k t s" "keeps_reservation k t (Reserve c)"
  shows "held k t (snd (rsv c s)) \<and> (rc_key c = k \<longrightarrow> \<not> fst (rsv c s))"
proof (cases "rc_key c = k")
  case True
  then obtain e where "lookup s (rc_key c) = Some e" "de_expires e = Iso t" "de_status e \<in> {Dedup_Pending, Dedup_Succeeded}"
    using assms(1) unfolding held_def by blast
  then have "rsv c s = (False, s)" using blocked[of s c e] assms(2) True by simp
  then show ?thesis using assms(1) by simp
next
  case False
  then show ?thesis using assms(1) rsv_frame[of k c s] unfolding held_def by auto
qed

lemma held_run:
  "held k t s \<Longrightarrow> \<forall>op \<in> set ops. keeps_reservation k t op \<Longrightarrow>
   k \<notin> set (fst (granted_keys rsv fin ops s)) \<and> held k t (snd (granted_keys rsv fin ops s))"
proof (induction ops arbitrary: s)
  case (Cons op ops)
  show ?case
  proof (cases op)
    case (Reserve c)
    obtain g s' where r: "rsv c s = (g, s')" by (cases "rsv c s")
    have "held k t s'" "rc_key c = k \<longrightarrow> \<not> g"
      using held_rsv[of k t s c] Cons.prems Reserve r by auto
    then show ?thesis using Cons.IH[of s'] Cons.prems Reserve r by (auto split: prod.splits)
  next
    case (Finalize c)
    then show ?thesis using Cons.IH[of "fin c s"] held_fin[of k t s c] Cons.prems by simp
  qed
qed simp

lemma at_most_once:
  assumes "rsv c s = (True, s')" and "date_ms (rc_now c) = Some n"
    and "\<forall>op \<in> set ops. keeps_reservation (rc_key c) (n + rc_ttl c) op"
  shows "rc_key c \<notin> set (fst (granted_keys rsv fin ops s'))"
  using grant_held[OF assms(1)] held_run[of "rc_key c" "n + rc_ttl c" s' ops] assms(2,3) by auto

end

section \<open>The port and the guard meet the contract\<close>

definition port_granted :: "reserve_command \<Rightarrow> registry \<Rightarrow> bool \<times> registry" where
  "port_granted c reg = (case port_reserve c reg of (r, reg') \<Rightarrow> ((\<exists>e. r = Inr (Port_Reserved e)), reg'))"

definition guard_granted :: "reserve_command \<Rightarrow> registry \<Rightarrow> bool \<times> registry" where
  "guard_granted c reg = (case reserveSideEffect c reg of (r, reg') \<Rightarrow> (r = Inr None, reg'))"

definition entry_granted :: "reserve_command \<Rightarrow> registry \<Rightarrow> bool \<times> registry" where
  "entry_granted c reg = (case reserveDedupEntry c reg of (r, reg') \<Rightarrow> ((\<exists>e. r = Inr (Reserved e)), reg'))"

lemma port_granted_eq: "port_granted = entry_granted"
  by (intro ext) (auto simp: port_granted_def entry_granted_def port_reserve_def split: prod.splits sum.splits reserve_outcome.splits)

lemma guard_granted_eq: "guard_granted = entry_granted"
  by (intro ext) (auto simp: guard_granted_def entry_granted_def reserveSideEffect_def split: prod.splits sum.splits reserve_outcome.splits)

lemma reserve_grants:
  "entry_granted c s = (True, s') \<Longrightarrow> \<exists>n e. date_ms (rc_now c) = Some n \<and> rec_get s' (rc_key c) = Some e
      \<and> de_status e = Dedup_Pending \<and> de_expires e = Iso (n + rc_ttl c)"
  by (cases "date_ms (rc_now c)"; cases "rec_get s (rc_key c)")
     (auto simp: entry_granted_def reserveDedupEntry_def Let_def to_iso_def split: if_splits)

lemma reserve_blocked:
  "rec_get s (rc_key c) = Some e \<Longrightarrow> de_status e \<in> {Dedup_Pending, Dedup_Succeeded} \<Longrightarrow>
   num_lt (date_ms (rc_now c)) (date_ms (de_expires e)) \<Longrightarrow> entry_granted c s = (False, s)"
  by (cases "date_ms (rc_now c)"; cases "date_ms (de_expires e)") (auto simp: entry_granted_def reserveDedupEntry_def Let_def)

lemma reserve_frame: "k \<noteq> rc_key c \<Longrightarrow> rec_get (snd (entry_granted c s)) k = rec_get s k"
  by (auto simp: entry_granted_def reserveDedupEntry_def Let_def split: option.splits sum.splits)

lemma finalize_frame: "k \<noteq> fc_key c \<Longrightarrow> rec_get (snd (finalizeDedupEntry c s)) k = rec_get s k"
  by (auto simp: finalizeDedupEntry_def Let_def split: option.splits)

lemma finalize_keeps:
  "rec_get s (fc_key c) = Some e \<Longrightarrow> fc_status c = Final_Succeeded \<Longrightarrow>
   \<exists>e'. rec_get (snd (finalizeDedupEntry c s)) (fc_key c) = Some e' \<and> de_expires e' = de_expires e \<and> de_status e' = Dedup_Succeeded"
  by (auto simp: finalizeDedupEntry_def Let_def)

lemma port_finalize_cases:
  "snd (port_finalize c s) = s \<or> snd (port_finalize c s) = snd (finalizeDedupEntry c s)"
  by (auto simp: port_finalize_def split: option.splits prod.splits)

interpretation guard: dedup_registry guard_granted completeSideEffect rec_get
  unfolding guard_granted_eq completeSideEffect_def
  by unfold_locales
    (fact reserve_grants, fact reserve_blocked, fact reserve_frame, fact finalize_frame, use finalize_keeps in blast)

interpretation dedup_port: dedup_registry port_granted "\<lambda>c s. snd (port_finalize c s)" rec_get
  unfolding port_granted_eq
proof unfold_locales
  show "k \<noteq> fc_key c \<Longrightarrow> rec_get (snd (port_finalize c s)) k = rec_get s k" for k c s
    using port_finalize_cases[of c s] finalize_frame[of k c s] by auto
  show "rec_get s (fc_key c) = Some e \<Longrightarrow> fc_status c = Final_Succeeded \<Longrightarrow> de_status e \<in> {Dedup_Pending, Dedup_Succeeded} \<Longrightarrow>
      \<exists>e'. rec_get (snd (port_finalize c s)) (fc_key c) = Some e' \<and> de_expires e' = de_expires e \<and> de_status e' \<in> {Dedup_Pending, Dedup_Succeeded}"
    for s c e
    using port_finalize_cases[of c s] finalize_keeps[of s c e] by force
qed (fact reserve_grants, fact reserve_blocked, fact reserve_frame)

text \<open>C7. A reserved side effect is not granted again. After \<open>reserve\<close> on the registry port granted
  a key at the time \<open>n\<close>, no reservation of that key is granted while the clock reads less than \<open>n + ttl\<close>
  and nobody finalizes the key as failed, whatever other calls to the port come in between, finalizations
  by other owners included.\<close>

theorem port_at_most_once:
  assumes "port_reserve c reg = (Inr (Port_Reserved e), reg')" and "date_ms (rc_now c) = Some n"
    and "\<forall>op \<in> set ops. keeps_reservation (rc_key c) (n + rc_ttl c) op"
  shows "rc_key c \<notin> set (fst (granted_keys port_granted (\<lambda>c s. snd (port_finalize c s)) ops reg'))"
  by (rule dedup_port.at_most_once[of c reg reg' n ops]) (use assms in \<open>simp_all add: port_granted_def\<close>)

definition sample_reserve :: "string \<Rightarrow> int \<Rightarrow> reserve_command" where
  "sample_reserve k t = \<lparr> rc_key = k, rc_owner = ''w'', rc_now = Iso t, rc_ttl = 100 \<rparr>"

definition sample_finalize :: "string \<Rightarrow> finalize_status \<Rightarrow> finalize_command" where
  "sample_finalize k st = \<lparr> fc_key = k, fc_now = Iso 50, fc_status = st, fc_owner = None, fc_policy = None, fc_evidence = None \<rparr>"

theorem port_at_most_once_witness:
  "''k'' \<notin> set (fst (granted_keys port_granted (\<lambda>c s. snd (port_finalize c s))
     [Reserve (sample_reserve ''k'' 10), Finalize (sample_finalize ''j'' Final_Failed),
      Finalize (sample_finalize ''k'' Final_Succeeded), Reserve (sample_reserve ''k'' 99)]
     (snd (port_reserve (sample_reserve ''k'' 0) []))))"
  using port_at_most_once[of "sample_reserve ''k'' 0" "[]" _ "snd (port_reserve (sample_reserve ''k'' 0) [])" 0
      "[Reserve (sample_reserve ''k'' 10), Finalize (sample_finalize ''j'' Final_Failed),
        Finalize (sample_finalize ''k'' Final_Succeeded), Reserve (sample_reserve ''k'' 99)]"]
  by (simp add: port_reserve_def reserveDedupEntry_def Let_def sample_reserve_def sample_finalize_def)

text \<open>Once the reservation has expired, or was finalized as failed, the key is granted again.\<close>

lemma reserve_again:
  assumes "rec_get reg (rc_key c) = Some e" and "date_ms (rc_now c) = Some n"
    and "num_le (date_ms (de_expires e)) (Some n) \<or> de_status e \<in> {Dedup_Failed, Dedup_Expired}"
  shows "\<exists>e' reg'. port_reserve c reg = (Inr (Port_Reserved e'), reg')"
  using assms by (auto simp: port_reserve_def reserveDedupEntry_def Let_def)

end
