(* ===== verification/Locks.thy ===== *)
theory Locks
  imports Timestamps Effects
begin

text \<open>
  Locks with fencing tokens: \<open>packages/state/src/locks/distributed-lock.store.ts\<close> (the
  in-memory store, which \<open>createDistributedLockStore\<close> gives a single process) and the two
  clients, \<open>packages/execution/src/leases/execution-lease-authority.ts\<close> and
  \<open>locks/fencing-token-guard.ts\<close>. The locale \<open>lock_store\<close> is the contract
  \<open>DistributedLockStore\<close>; what a client may conclude is proved in it, and the in-memory
  store is shown to meet it.
\<close>

section \<open>The store\<close>

record lock_lease =
  ll_resource :: string
  ll_owner :: string
  ll_token :: nat
  ll_acquired :: stamp
  ll_expires :: stamp

record lock_record =
  lr_lease :: lock_lease
  lr_last :: nat

record lock_state =
  ls_records :: "string \<Rightarrow> lock_record option"
  ls_counter :: nat

record acquire_input =
  aq_resource :: string
  aq_owner :: string
  aq_now :: stamp
  aq_ttl :: int

record renew_input =
  rn_resource :: string
  rn_owner :: string
  rn_token :: nat
  rn_now :: stamp
  rn_ttl :: int

datatype lock_refusal = Missing_Lock | Owner_Mismatch | Stale_Fencing_Token | Expired_Lock

datatype acquire_result = Acquired lock_lease | Already_Locked lock_lease

datatype lease_check = Lease_Ok lock_lease | Lease_Refused lock_refusal "lock_lease option"

datatype release_result = Lock_Released | Not_Released lock_refusal "lock_lease option"

definition empty_lock_state :: lock_state where
  "empty_lock_state = \<lparr> ls_records = (\<lambda>_. None), ls_counter = 0 \<rparr>"

definition validateLease :: "lock_lease \<Rightarrow> string \<Rightarrow> nat \<Rightarrow> stamp \<Rightarrow> lock_refusal option" where
  "validateLease l owner token now =
     (if num_le (date_ms (ll_expires l)) (date_ms now) then Some Expired_Lock
      else if ll_owner l \<noteq> owner then Some Owner_Mismatch
      else if ll_token l \<noteq> token then Some Stale_Fencing_Token
      else None)"

definition nextFencingToken :: "(lock_state, nat) act" where
  "nextFencingToken s = (Inr (ls_counter s + 1), s\<lparr>ls_counter := ls_counter s + 1\<rparr>)"

definition lock_acquire :: "acquire_input \<Rightarrow> (lock_state, acquire_result) act" where
  "lock_acquire i s =
     (case (case ls_records s (aq_resource i) of
              Some cur \<Rightarrow> if num_lt (date_ms (aq_now i)) (date_ms (ll_expires (lr_lease cur))) then Some cur else None
            | None \<Rightarrow> None) of
        Some cur \<Rightarrow> (Inr (Already_Locked (lr_lease cur)), s)
      | None \<Rightarrow>
          bindA nextFencingToken (\<lambda>token.
          bindA (liftA (to_iso (num_add (date_ms (aq_now i)) (aq_ttl i)))) (\<lambda>expires.
            let lease = \<lparr> ll_resource = aq_resource i, ll_owner = aq_owner i, ll_token = token,
                          ll_acquired = aq_now i, ll_expires = expires \<rparr>
            in thenA (modA (\<lambda>s. s\<lparr>ls_records := (ls_records s)(aq_resource i \<mapsto> \<lparr>lr_lease = lease, lr_last = token\<rparr>)\<rparr>))
                     (ret (Acquired lease)))) s)"

definition lock_renew :: "renew_input \<Rightarrow> (lock_state, lease_check) act" where
  "lock_renew i s =
     (case ls_records s (rn_resource i) of
        None \<Rightarrow> (Inr (Lease_Refused Missing_Lock None), s)
      | Some cur \<Rightarrow>
          (case validateLease (lr_lease cur) (rn_owner i) (rn_token i) (rn_now i) of
             Some why \<Rightarrow> (Inr (Lease_Refused why (Some (lr_lease cur))), s)
           | None \<Rightarrow>
               bindA (liftA (to_iso (num_add (date_ms (rn_now i)) (rn_ttl i)))) (\<lambda>expires.
                 let lease = (lr_lease cur)\<lparr>ll_expires := expires\<rparr>
                 in thenA (modA (\<lambda>s. s\<lparr>ls_records := (ls_records s)(rn_resource i \<mapsto> \<lparr>lr_lease = lease, lr_last = lr_last cur\<rparr>)\<rparr>))
                          (ret (Lease_Ok lease))) s))"

definition lock_release :: "string \<Rightarrow> string \<Rightarrow> nat \<Rightarrow> (lock_state, release_result) act" where
  "lock_release resource owner token s =
     (case ls_records s resource of
        None \<Rightarrow> (Inr (Not_Released Missing_Lock None), s)
      | Some cur \<Rightarrow>
          if ll_owner (lr_lease cur) \<noteq> owner then (Inr (Not_Released Owner_Mismatch (Some (lr_lease cur))), s)
          else if ll_token (lr_lease cur) \<noteq> token
          then (Inr (Not_Released Stale_Fencing_Token (Some (lr_lease cur))), s)
          else (Inr Lock_Released, s\<lparr>ls_records := (ls_records s)(resource := None)\<rparr>))"

definition lock_validate :: "string \<Rightarrow> string \<Rightarrow> nat \<Rightarrow> stamp \<Rightarrow> (lock_state, lease_check) act" where
  "lock_validate resource owner token now s =
     (case ls_records s resource of
        None \<Rightarrow> (Inr (Lease_Refused Missing_Lock None), s)
      | Some cur \<Rightarrow>
          (case validateLease (lr_lease cur) owner token now of
             Some why \<Rightarrow> (Inr (Lease_Refused why (Some (lr_lease cur))), s)
           | None \<Rightarrow> (Inr (Lease_Ok (lr_lease cur)), s)))"

section \<open>The contract\<close>

text \<open>A history of a store: every call made on it, by anyone and with any clock reading, and the
  leases it granted, newest first.\<close>

inductive lock_history ::
  "(acquire_input \<Rightarrow> ('s, acquire_result) act) \<Rightarrow> (renew_input \<Rightarrow> ('s, lease_check) act) \<Rightarrow>
   (string \<Rightarrow> string \<Rightarrow> nat \<Rightarrow> ('s, release_result) act) \<Rightarrow> 's \<Rightarrow> lock_lease list \<Rightarrow> 's \<Rightarrow> bool"
  for acq rnw rel s0 where
  start: "lock_history acq rnw rel s0 [] s0"
| acquired: "lock_history acq rnw rel s0 gs s \<Longrightarrow> acq i s = (Inr (Acquired l), s') \<Longrightarrow> lock_history acq rnw rel s0 (l # gs) s'"
| refused: "lock_history acq rnw rel s0 gs s \<Longrightarrow> acq i s = (r, s') \<Longrightarrow> (\<forall>l. r \<noteq> Inr (Acquired l)) \<Longrightarrow> lock_history acq rnw rel s0 gs s'"
| renewed: "lock_history acq rnw rel s0 gs s \<Longrightarrow> rnw j s = (x, s') \<Longrightarrow> lock_history acq rnw rel s0 gs s'"
| released: "lock_history acq rnw rel s0 gs s \<Longrightarrow> rel res own tok s = (y, s') \<Longrightarrow> lock_history acq rnw rel s0 gs s'"

inductive_cases lock_history_emptyE: "lock_history acq rnw rel s0 [] s"

locale lock_store =
  fixes acq :: "acquire_input \<Rightarrow> ('s, acquire_result) act"
    and rnw :: "renew_input \<Rightarrow> ('s, lease_check) act"
    and rel :: "string \<Rightarrow> string \<Rightarrow> nat \<Rightarrow> ('s, release_result) act"
    and val :: "string \<Rightarrow> string \<Rightarrow> nat \<Rightarrow> stamp \<Rightarrow> ('s, lease_check) act"
    and holder :: "'s \<Rightarrow> string \<Rightarrow> lock_lease option"
    and top :: "'s \<Rightarrow> nat"
    and init :: 's
  assumes init_free: "holder init r = None"
    and grant: "acq i s = (Inr (Acquired l), s') \<Longrightarrow> ll_resource l = aq_resource i \<and> ll_owner l = aq_owner i
        \<and> top s < ll_token l \<and> top s' = ll_token l \<and> holder s' = (holder s)(aq_resource i \<mapsto> l)"
    and grant_expired: "acq i s = (Inr (Acquired l), s') \<Longrightarrow> holder s (aq_resource i) = Some h \<Longrightarrow>
        \<not> num_lt (date_ms (aq_now i)) (date_ms (ll_expires h))"
    and no_grant: "acq i s = (x, s') \<Longrightarrow> (\<forall>l. x \<noteq> Inr (Acquired l)) \<Longrightarrow> top s \<le> top s' \<and> holder s' = holder s"
    and renew_top: "top (snd (rnw j s)) = top s"
    and renew_holder: "holder (snd (rnw j s)) r = holder s r \<or> (\<exists>h e. holder s r = Some h
        \<and> holder (snd (rnw j s)) r = Some (h\<lparr>ll_expires := e\<rparr>))"
    and release_top: "top (snd (rel r own tok s)) = top s"
    and release_holder: "holder (snd (rel r own tok s)) q = holder s q \<or>
        (holder (snd (rel r own tok s)) q = None \<and> q = r \<and> (\<exists>h. holder s q = Some h \<and> ll_token h = tok \<and> ll_owner h = own))"
    and valid: "val r own tok now s = (Inr (Lease_Ok l), s') \<Longrightarrow> s' = s \<and> holder s r = Some l \<and> ll_owner l = own
        \<and> ll_token l = tok \<and> \<not> num_le (date_ms (ll_expires l)) (date_ms now)"
begin

definition newest_grant :: "lock_lease list \<Rightarrow> string \<Rightarrow> lock_lease option" where
  "newest_grant gs r = find (\<lambda>g. ll_resource g = r) gs"

definition tracks :: "lock_lease list \<Rightarrow> 's \<Rightarrow> bool" where
  "tracks gs s \<longleftrightarrow>
     sorted_wrt (\<lambda>a b. ll_token b < ll_token a) gs
     \<and> (\<forall>g \<in> set gs. ll_token g \<le> top s)
     \<and> (\<forall>r h. holder s r = Some h \<longrightarrow>
          (\<exists>g. newest_grant gs r = Some g \<and> ll_token g = ll_token h \<and> ll_owner g = ll_owner h))"

lemma tracks_history: "lock_history acq rnw rel init gs s \<Longrightarrow> tracks gs s"
proof (induction rule: lock_history.induct)
  case start
  then show ?case by (simp add: tracks_def init_free)
next
  case (acquired gs s i l s')
  note g = grant[OF acquired.hyps(2)]
  show ?case unfolding tracks_def
  proof (intro conjI)
    show "sorted_wrt (\<lambda>a b. ll_token b < ll_token a) (l # gs)" "\<forall>g \<in> set (l # gs). ll_token g \<le> top s'"
      using g acquired.IH unfolding tracks_def by force+
    show "\<forall>r h. holder s' r = Some h \<longrightarrow>
        (\<exists>g. newest_grant (l # gs) r = Some g \<and> ll_token g = ll_token h \<and> ll_owner g = ll_owner h)"
      using g acquired.IH unfolding tracks_def newest_grant_def by auto
  qed
next
  case (refused gs s i r s')
  then show ?case using no_grant[OF refused.hyps(2,3)] unfolding tracks_def by force
next
  case (renewed gs s j x s')
  have "tracks gs (snd (rnw j s))"
    unfolding tracks_def
  proof (intro conjI allI impI)
    show "sorted_wrt (\<lambda>a b. ll_token b < ll_token a) gs" "\<forall>g \<in> set gs. ll_token g \<le> top (snd (rnw j s))"
      using renewed.IH renew_top[of j s] unfolding tracks_def by simp_all
    fix r h assume "holder (snd (rnw j s)) r = Some h"
    then obtain k where "holder s r = Some k" "ll_token k = ll_token h" "ll_owner k = ll_owner h"
      using renew_holder[of j s r] by fastforce
    then show "\<exists>g. newest_grant gs r = Some g \<and> ll_token g = ll_token h \<and> ll_owner g = ll_owner h"
      using renewed.IH unfolding tracks_def by metis
  qed
  then show ?case using renewed.hyps(2) by simp
next
  case (released gs s res own tok y s')
  have "tracks gs (snd (rel res own tok s))"
    unfolding tracks_def
  proof (intro conjI allI impI)
    show "sorted_wrt (\<lambda>a b. ll_token b < ll_token a) gs" "\<forall>g \<in> set gs. ll_token g \<le> top (snd (rel res own tok s))"
      using released.IH release_top[of res own tok s] unfolding tracks_def by simp_all
    fix r h assume "holder (snd (rel res own tok s)) r = Some h"
    then have "holder s r = Some h" using release_holder[of res own tok s r] by auto
    then show "\<exists>g. newest_grant gs r = Some g \<and> ll_token g = ll_token h \<and> ll_owner g = ll_owner h"
      using released.IH unfolding tracks_def by blast
  qed
  then show ?case using released.hyps(2) by simp
qed

lemma fenced:
  assumes "lock_history acq rnw rel init gs s" and "val r own tok now s = (Inr (Lease_Ok l), s')"
  shows "\<exists>g. newest_grant gs r = Some g \<and> ll_token g = tok \<and> ll_owner g = own
    \<and> (\<forall>g' \<in> set gs. ll_resource g' = r \<and> ll_token g' \<noteq> tok \<longrightarrow> ll_token g' < tok)"
proof -
  have t: "tracks gs s" by (rule tracks_history[OF assms(1)])
  from valid[OF assms(2)] t obtain g where g: "newest_grant gs r = Some g" "ll_token g = tok" "ll_owner g = own"
    unfolding tracks_def by blast
  have "sorted_wrt (\<lambda>a b. ll_token b < ll_token a) gs" using t by (simp add: tracks_def)
  then have "\<forall>g' \<in> set gs. ll_resource g' = r \<and> ll_token g' \<noteq> tok \<longrightarrow> ll_token g' < tok"
    using g(1,2) unfolding newest_grant_def
    by (induction gs) (auto split: if_splits)
  then show ?thesis using g by blast
qed

lemma tokens_increase:
  "lock_history acq rnw rel init gs s \<Longrightarrow> sorted_wrt (\<lambda>a b. ll_token b < ll_token a) gs"
  using tracks_history unfolding tracks_def by blast

end

section \<open>The in-memory store meets the contract\<close>

definition lock_holder :: "lock_state \<Rightarrow> string \<Rightarrow> lock_lease option" where
  "lock_holder s r = map_option lr_lease (ls_records s r)"

lemmas lock_defs = lock_acquire_def lock_renew_def lock_release_def lock_validate_def nextFencingToken_def lock_holder_def
  empty_lock_state_def Let_def act_defs

lemma validateLease_None:
  "validateLease l own tok now = None \<longleftrightarrow>
     \<not> num_le (date_ms (ll_expires l)) (date_ms now) \<and> ll_owner l = own \<and> ll_token l = tok"
  by (auto simp: validateLease_def)

interpretation locks: lock_store lock_acquire lock_renew lock_release lock_validate lock_holder ls_counter empty_lock_state
proof unfold_locales
  show "lock_holder empty_lock_state r = None" for r by (simp add: lock_defs)
  show "lock_acquire i s = (Inr (Acquired l), s') \<Longrightarrow> ll_resource l = aq_resource i \<and> ll_owner l = aq_owner i
      \<and> ls_counter s < ll_token l \<and> ls_counter s' = ll_token l \<and> lock_holder s' = (lock_holder s)(aq_resource i \<mapsto> l)"
    for i s l s'
    by (auto simp: lock_defs fun_eq_iff split: option.splits sum.splits if_splits)
  show "lock_acquire i s = (Inr (Acquired l), s') \<Longrightarrow> lock_holder s (aq_resource i) = Some h \<Longrightarrow>
      \<not> num_lt (date_ms (aq_now i)) (date_ms (ll_expires h))" for i s l s' h
    by (auto simp: lock_defs split: if_splits)
  show "lock_acquire i s = (x, s') \<Longrightarrow> (\<forall>l. x \<noteq> Inr (Acquired l)) \<Longrightarrow>
      ls_counter s \<le> ls_counter s' \<and> lock_holder s' = lock_holder s" for i s x s'
    by (auto simp: lock_defs fun_eq_iff split: option.splits sum.splits if_splits)
  show "ls_counter (snd (lock_renew j s)) = ls_counter s" for j s
    by (auto simp: lock_defs split: option.splits sum.splits)
  show "lock_holder (snd (lock_renew j s)) r = lock_holder s r \<or> (\<exists>h e. lock_holder s r = Some h
      \<and> lock_holder (snd (lock_renew j s)) r = Some (h\<lparr>ll_expires := e\<rparr>))" for j s r
    by (auto simp: lock_defs split: option.splits sum.splits)
  show "ls_counter (snd (lock_release r own tok s)) = ls_counter s" for r own tok s
    by (auto simp: lock_defs split: option.splits)
  show "lock_holder (snd (lock_release r own tok s)) q = lock_holder s q \<or>
      (lock_holder (snd (lock_release r own tok s)) q = None \<and> q = r \<and>
       (\<exists>h. lock_holder s q = Some h \<and> ll_token h = tok \<and> ll_owner h = own))" for r own tok s q
    by (auto simp: lock_defs split: option.splits)
  show "lock_validate r own tok now s = (Inr (Lease_Ok l), s') \<Longrightarrow> s' = s \<and> lock_holder s r = Some l \<and> ll_owner l = own
      \<and> ll_token l = tok \<and> \<not> num_le (date_ms (ll_expires l)) (date_ms now)" for r own tok now s l s'
    by (auto simp: lock_defs validateLease_None split: option.splits)
qed

section \<open>Execution leases\<close>

definition formatScopedLeaseResource :: "string \<Rightarrow> (string \<times> string) option \<Rightarrow> string" where
  "formatScopedLeaseResource resource scope =
     (case scope of None \<Rightarrow> resource | Some (tenant, project) \<Rightarrow> tenant @ '':'' @ project @ '':'' @ resource)"

record lease_handle =
  lh_resource :: string
  lh_owner :: string
  lh_lease :: lock_lease

definition acquireRunLease ::
  "int \<Rightarrow> stamp \<Rightarrow> string \<Rightarrow> string \<Rightarrow> (string \<times> string) option \<Rightarrow> (lock_state, lease_handle option) act" where
  "acquireRunLease ttl now resource owner scope =
     (let res = formatScopedLeaseResource resource scope in
      bindA (lock_acquire \<lparr> aq_resource = res, aq_owner = owner, aq_now = now, aq_ttl = ttl \<rparr>) (\<lambda>r.
        ret (case r of Already_Locked l \<Rightarrow> None
                     | Acquired l \<Rightarrow> Some \<lparr> lh_resource = res, lh_owner = owner, lh_lease = l \<rparr>)))"

text \<open>The handle's \<open>currentLease\<close> variable is part of the value that is passed on.\<close>

definition handle_renew :: "int \<Rightarrow> stamp \<Rightarrow> lease_handle \<Rightarrow> (lock_state, lease_handle \<times> lock_refusal option) act" where
  "handle_renew ttl now h =
     bindA (lock_renew \<lparr> rn_resource = lh_resource h, rn_owner = lh_owner h, rn_token = ll_token (lh_lease h),
                        rn_now = now, rn_ttl = ttl \<rparr>) (\<lambda>r.
       ret (case r of Lease_Refused why _ \<Rightarrow> (h, Some why)
                    | Lease_Ok l \<Rightarrow> (h\<lparr>lh_lease := l\<rparr>, None)))"

definition handle_validate :: "stamp \<Rightarrow> lease_handle \<Rightarrow> (lock_state, lease_handle \<times> lock_refusal option) act" where
  "handle_validate now h =
     bindA (lock_validate (lh_resource h) (lh_owner h) (ll_token (lh_lease h)) now) (\<lambda>r.
       ret (case r of Lease_Refused why _ \<Rightarrow> (h, Some why)
                    | Lease_Ok l \<Rightarrow> (h\<lparr>lh_lease := l\<rparr>, None)))"

fun refusal_text :: "lock_refusal \<Rightarrow> string" where
  "refusal_text Missing_Lock = ''missing_lock''"
| "refusal_text Owner_Mismatch = ''owner_mismatch''"
| "refusal_text Stale_Fencing_Token = ''stale_fencing_token''"
| "refusal_text Expired_Lock = ''expired''"

definition handle_requireValid :: "stamp \<Rightarrow> lease_handle \<Rightarrow> (lock_state, lease_handle) act" where
  "handle_requireValid now h =
     bindA (handle_validate now h) (\<lambda>(h', r).
       case r of None \<Rightarrow> ret h'
       | Some why \<Rightarrow> throw (Js_Error WorkflowPolicyError ''Execution lease is no longer valid''
                            [lh_resource h', lh_owner h', refusal_text why]))"

definition handle_release :: "lease_handle \<Rightarrow> (lock_state, unit) act" where
  "handle_release h =
     bindA (lock_release (lh_resource h) (lh_owner h) (ll_token (lh_lease h))) (\<lambda>r.
       case r of Lock_Released \<Rightarrow> ret ()
       | Not_Released why _ \<Rightarrow> throw (Js_Error WorkflowPolicyError ''Unable to release execution lease''
                                      [lh_resource h, lh_owner h, refusal_text why]))"

section \<open>The fencing token guard\<close>

definition guard_acquire :: "int \<Rightarrow> string \<Rightarrow> string \<Rightarrow> stamp \<Rightarrow> (lock_state, lease_handle option) act" where
  "guard_acquire ttl resource owner now =
     bindA (lock_acquire \<lparr> aq_resource = resource, aq_owner = owner, aq_now = now, aq_ttl = ttl \<rparr>) (\<lambda>r.
       ret (case r of Already_Locked l \<Rightarrow> None
                    | Acquired l \<Rightarrow> Some \<lparr> lh_resource = resource, lh_owner = owner, lh_lease = l \<rparr>))"

definition guard_validate :: "stamp \<Rightarrow> lease_handle \<Rightarrow> (lock_state, lock_refusal option) act" where
  "guard_validate now h =
     bindA (lock_validate (lh_resource h) (lh_owner h) (ll_token (lh_lease h)) now) (\<lambda>r.
       ret (case r of Lease_Refused why _ \<Rightarrow> Some why | Lease_Ok _ \<Rightarrow> None))"

definition guard_release :: "lease_handle \<Rightarrow> (lock_state, unit) act" where
  "guard_release h =
     bindA (lock_release (lh_resource h) (lh_owner h) (ll_token (lh_lease h))) (\<lambda>r.
       case r of Lock_Released \<Rightarrow> ret ()
       | Not_Released why _ \<Rightarrow> throw (Js_Error WorkflowPolicyError ''Unable to release fencing lock''
                                      [lh_resource h, lh_owner h, refusal_text why]))"

section \<open>What the clients may rely on\<close>

abbreviation lock_run :: "lock_lease list \<Rightarrow> lock_state \<Rightarrow> bool" where
  "lock_run \<equiv> lock_history lock_acquire lock_renew lock_release empty_lock_state"

lemma requireValid_validates:
  "handle_requireValid now h s = (Inr h', s') \<Longrightarrow>
   \<exists>l. lock_validate (lh_resource h) (lh_owner h) (ll_token (lh_lease h)) now s = (Inr (Lease_Ok l), s')
       \<and> h' = h\<lparr>lh_lease := l\<rparr>"
  by (auto simp: handle_requireValid_def handle_validate_def bindA_Inr_iff ret_def throw_def
      split: option.splits lease_check.splits) (metis lease_check.exhaust)

lemma valid_blocks_others:
  assumes "lock_validate r own tok now s = (Inr (Lease_Ok l), s')"
    and "aq_resource i = r" and "num_le (date_ms (aq_now i)) (date_ms now)" and "date_ms (ll_expires l) \<noteq> None"
  shows "lock_acquire i s = (Inr (Already_Locked l), s)"
proof -
  from locks.valid[OF assms(1)] have v: "lock_holder s r = Some l" "\<not> num_le (date_ms (ll_expires l)) (date_ms now)"
    by auto
  have "num_lt (date_ms (aq_now i)) (date_ms (ll_expires l))"
    using v(2) assms(3,4) by (cases "date_ms now"; cases "date_ms (aq_now i)"; cases "date_ms (ll_expires l)") auto
  then show ?thesis using v(1) assms(2) by (auto simp: lock_acquire_def lock_holder_def)
qed

lemma acquire_expires_parse: "lock_acquire i s = (Inr (Acquired l), s') \<Longrightarrow> date_ms (ll_expires l) \<noteq> None"
  by (auto simp: lock_defs to_iso_def split: option.splits if_splits)

lemma renew_expires_parse:
  "lock_holder (snd (lock_renew j s)) r = Some l \<Longrightarrow> lock_holder s r = Some l \<or> date_ms (ll_expires l) \<noteq> None"
  by (cases "r = rn_resource j") (auto simp: lock_defs to_iso_def split: option.splits)

lemma lock_run_expires_parse:
  "lock_run gs s \<Longrightarrow> lock_holder s r = Some l \<Longrightarrow> date_ms (ll_expires l) \<noteq> None"
proof (induction arbitrary: r l rule: lock_history.induct)
  case start
  then show ?case by (simp add: lock_defs)
next
  case (acquired gs s i l' s')
  then show ?case
    using locks.grant[OF acquired.hyps(2)] acquire_expires_parse[OF acquired.hyps(2)]
    by (cases "r = aq_resource i") auto
next
  case (refused gs s i x s')
  then show ?case using locks.no_grant[OF refused.hyps(2,3)] by metis
next
  case (renewed gs s j x s')
  then show ?case using renew_expires_parse[of j s r l] by auto
next
  case (released gs s res own tok y s')
  then show ?case
    using locks.release_holder[of res own tok s r] by auto
qed

text \<open>C6. Fencing. In any history of the lock store, by any callers and with any clock readings: the
  fencing tokens granted strictly increase; and when \<open>requireValid\<close> on an execution lease passes, that lease
  is the newest one granted for its resource and belongs to the handle's owner, every other lease ever granted for
  it has a smaller token, and an acquisition of the resource by anyone whose clock reads no later is
  refused.\<close>

theorem execution_lease_fencing:
  assumes "lock_run gs s" and "handle_requireValid now h s = (Inr h', s')"
  shows "sorted_wrt (\<lambda>a b. ll_token b < ll_token a) gs
    \<and> (\<exists>g. find (\<lambda>g. ll_resource g = lh_resource h) gs = Some g
          \<and> ll_token g = ll_token (lh_lease h) \<and> ll_owner g = lh_owner h)
    \<and> (\<forall>g \<in> set gs. ll_resource g = lh_resource h \<and> ll_token g \<noteq> ll_token (lh_lease h)
          \<longrightarrow> ll_token g < ll_token (lh_lease h))
    \<and> (\<forall>i. aq_resource i = lh_resource h \<and> num_le (date_ms (aq_now i)) (date_ms now)
          \<longrightarrow> (\<exists>l. lock_acquire i s = (Inr (Already_Locked l), s)))"
proof -
  obtain l where v: "lock_validate (lh_resource h) (lh_owner h) (ll_token (lh_lease h)) now s = (Inr (Lease_Ok l), s')"
    using requireValid_validates[OF assms(2)] by blast
  have "date_ms (ll_expires l) \<noteq> None" using lock_run_expires_parse[OF assms(1)] locks.valid[OF v] by blast
  then show ?thesis
    using locks.fenced[OF assms(1) v] locks.tokens_increase[OF assms(1)] valid_blocks_others[OF v]
    unfolding locks.newest_grant_def by blast
qed

definition sample_lock_state :: lock_state where
  "sample_lock_state = snd (acquireRunLease 100 (Iso 0) ''run'' ''w1'' (Some (''org'', ''p'')) empty_lock_state)"

definition sample_handle :: lease_handle where
  "sample_handle = \<lparr> lh_resource = ''org:p:run'', lh_owner = ''w1'',
     lh_lease = \<lparr> ll_resource = ''org:p:run'', ll_owner = ''w1'', ll_token = 1, ll_acquired = Iso 0, ll_expires = Iso 100 \<rparr> \<rparr>"

lemma sample_lock_run: "lock_run [lh_lease sample_handle] sample_lock_state"
proof -
  have "lock_acquire \<lparr> aq_resource = ''org:p:run'', aq_owner = ''w1'', aq_now = Iso 0, aq_ttl = 100 \<rparr> empty_lock_state
      = (Inr (Acquired (lh_lease sample_handle)), sample_lock_state)"
    by (simp add: lock_defs sample_lock_state_def sample_handle_def acquireRunLease_def formatScopedLeaseResource_def)
  show ?thesis by (rule lock_history.acquired, rule lock_history.start, fact)
qed

theorem execution_lease_fencing_witness:
  "\<exists>l. lock_acquire \<lparr> aq_resource = ''org:p:run'', aq_owner = ''w2'', aq_now = Iso 40, aq_ttl = 100 \<rparr> sample_lock_state
     = (Inr (Already_Locked l), sample_lock_state)"
proof -
  have "handle_requireValid (Iso 50) sample_handle sample_lock_state = (Inr sample_handle, sample_lock_state)"
    by (simp add: handle_requireValid_def handle_validate_def lock_defs sample_lock_state_def sample_handle_def
        acquireRunLease_def formatScopedLeaseResource_def validateLease_def)
  from execution_lease_fencing[OF sample_lock_run this] show ?thesis by (simp add: sample_handle_def)
qed

text \<open>Leases of different tenants and projects have different resources, as long as the two ids
  contain no colon; with one they may share a resource.\<close>

lemma scoped_resource_injective:
  assumes "formatScopedLeaseResource r (Some (t, p)) = formatScopedLeaseResource r' (Some (t', p'))"
    and "CHR '':'' \<notin> set t \<union> set t' \<union> set p \<union> set p'"
  shows "t = t' \<and> p = p' \<and> r = r'"
proof -
  have "split_on CHR '':'' (t @ CHR '':'' # p @ CHR '':'' # r) = split_on CHR '':'' (t' @ CHR '':'' # p' @ CHR '':'' # r')"
    using assms(1) by (simp add: formatScopedLeaseResource_def)
  then have "t = t'" "p = p'" using assms(2) by (simp_all add: split_on_append)
  then show ?thesis using assms(1) by (simp add: formatScopedLeaseResource_def)
qed

lemma scoped_resource_collision:
  "formatScopedLeaseResource r (Some (''a:b'', ''c'')) = formatScopedLeaseResource r (Some (''a'', ''b:c''))"
  by (simp add: formatScopedLeaseResource_def)

end
