(* ===== verification/Keyed_Mutex.thy ===== *)
theory Keyed_Mutex
  imports Prelude
begin

text \<open>
  \<open>packages/execution/src/locks/keyed-async-mutex.ts\<close> as an interleaving of calls to
  \<open>runExclusive\<close>. A call is numbered in the order it reaches the mutex; it remembers the tail it
  found for its key (\<open>previous\<close>), installs its own tail, waits for \<open>previous\<close> to settle, runs the
  function and finally releases its gate and clears the tail if it is still its own. The step
  relation has one step per point at which another call may come in between.
\<close>

section \<open>State and steps\<close>

datatype phase = Queued | Running | Ended

record mutex =
  mx_count :: nat
  mx_key :: "nat \<Rightarrow> string"
  mx_previous :: "nat \<Rightarrow> nat option"
  mx_phase :: "nat \<Rightarrow> phase"
  mx_tails :: "string \<Rightarrow> nat option"

definition empty_mutex :: mutex where
  "empty_mutex = \<lparr> mx_count = 0, mx_key = (\<lambda>_. ''''), mx_previous = (\<lambda>_. None),
                   mx_phase = (\<lambda>_. Ended), mx_tails = (\<lambda>_. None) \<rparr>"

text \<open>The tail of a call, \<open>previous.then(() => ownGate)\<close>, settles when the previous tail has and
  the gate is released.\<close>

inductive settled :: "mutex \<Rightarrow> nat \<Rightarrow> bool" for m where
  "mx_phase m n = Ended \<Longrightarrow> mx_previous m n = None \<Longrightarrow> settled m n"
| "mx_phase m n = Ended \<Longrightarrow> mx_previous m n = Some p \<Longrightarrow> settled m p \<Longrightarrow> settled m n"

definition mutex_call :: "string \<Rightarrow> mutex \<Rightarrow> mutex" where
  "mutex_call k m = (let n = mx_count m in
     m\<lparr> mx_count := n + 1, mx_key := (mx_key m)(n := k), mx_previous := (mx_previous m)(n := mx_tails m k),
        mx_phase := (mx_phase m)(n := Queued), mx_tails := (mx_tails m)(k \<mapsto> n) \<rparr>)"

definition may_start :: "mutex \<Rightarrow> nat \<Rightarrow> bool" where
  "may_start m n \<longleftrightarrow> n < mx_count m \<and> mx_phase m n = Queued
     \<and> (case mx_previous m n of None \<Rightarrow> True | Some p \<Rightarrow> settled m p)"

definition mutex_start :: "nat \<Rightarrow> mutex \<Rightarrow> mutex" where
  "mutex_start n m = m\<lparr> mx_phase := (mx_phase m)(n := Running) \<rparr>"

definition mutex_finish :: "nat \<Rightarrow> mutex \<Rightarrow> mutex" where
  "mutex_finish n m =
     m\<lparr> mx_phase := (mx_phase m)(n := Ended),
        mx_tails := (if mx_tails m (mx_key m n) = Some n then (mx_tails m)(mx_key m n := None) else mx_tails m) \<rparr>"

inductive mutex_step :: "mutex \<Rightarrow> mutex \<Rightarrow> bool" where
  call: "mutex_step m (mutex_call k m)"
| start: "may_start m n \<Longrightarrow> mutex_step m (mutex_start n m)"
| finish: "n < mx_count m \<Longrightarrow> mx_phase m n = Running \<Longrightarrow> mutex_step m (mutex_finish n m)"

inductive mutex_reach :: "mutex \<Rightarrow> bool" where
  init: "mutex_reach empty_mutex"
| step: "mutex_reach m \<Longrightarrow> mutex_step m m' \<Longrightarrow> mutex_reach m'"

section \<open>Invariant\<close>

text \<open>\<open>before m i n\<close>: the call \<open>i\<close> came before \<open>n\<close> with the same key.\<close>

definition before :: "mutex \<Rightarrow> nat \<Rightarrow> nat \<Rightarrow> bool" where
  "before m i n \<longleftrightarrow> i < n \<and> n < mx_count m \<and> mx_key m i = mx_key m n"

definition tail_ok :: "mutex \<Rightarrow> string \<Rightarrow> bool" where
  "tail_ok m k \<longleftrightarrow> (case mx_tails m k of
      None \<Rightarrow> (\<forall>i < mx_count m. mx_key m i = k \<longrightarrow> mx_phase m i = Ended)
    | Some n \<Rightarrow> n < mx_count m \<and> mx_key m n = k \<and> (\<forall>i < mx_count m. mx_key m i = k \<longrightarrow> i \<le> n))"

definition previous_ok :: "mutex \<Rightarrow> nat \<Rightarrow> bool" where
  "previous_ok m n \<longleftrightarrow> (case mx_previous m n of
      None \<Rightarrow> (\<forall>i. before m i n \<longrightarrow> mx_phase m i = Ended)
    | Some p \<Rightarrow> before m p n \<and> (\<forall>i. before m i n \<longrightarrow> i \<le> p))"

definition started_ok :: "mutex \<Rightarrow> nat \<Rightarrow> bool" where
  "started_ok m n \<longleftrightarrow> (mx_phase m n \<noteq> Queued \<longrightarrow> (\<forall>i. before m i n \<longrightarrow> mx_phase m i = Ended))"

definition mutex_ok :: "mutex \<Rightarrow> bool" where
  "mutex_ok m \<longleftrightarrow> (\<forall>k. tail_ok m k) \<and> (\<forall>n < mx_count m. previous_ok m n) \<and> (\<forall>n < mx_count m. started_ok m n)"

lemma mutex_ok_tail_None:
  "mutex_ok m \<Longrightarrow> mx_tails m k = None \<Longrightarrow> i < mx_count m \<Longrightarrow> mx_key m i = k \<Longrightarrow> mx_phase m i = Ended"
  using tail_ok_def[of m k] by (simp add: mutex_ok_def)

lemma mutex_ok_tail_Some:
  "mutex_ok m \<Longrightarrow> mx_tails m k = Some n \<Longrightarrow>
   n < mx_count m \<and> mx_key m n = k \<and> (\<forall>i < mx_count m. mx_key m i = k \<longrightarrow> i \<le> n)"
  using tail_ok_def[of m k] by (simp add: mutex_ok_def)

lemma mutex_ok_first:
  "mutex_ok m \<Longrightarrow> n < mx_count m \<Longrightarrow> mx_previous m n = None \<Longrightarrow> before m i n \<Longrightarrow> mx_phase m i = Ended"
  using previous_ok_def[of m n] by (simp add: mutex_ok_def)

lemma mutex_ok_previous:
  "mutex_ok m \<Longrightarrow> n < mx_count m \<Longrightarrow> mx_previous m n = Some p \<Longrightarrow> before m p n \<and> (\<forall>i. before m i n \<longrightarrow> i \<le> p)"
  using previous_ok_def[of m n] by (simp add: mutex_ok_def)

lemma mutex_ok_started:
  "mutex_ok m \<Longrightarrow> n < mx_count m \<Longrightarrow> mx_phase m n \<noteq> Queued \<Longrightarrow> before m i n \<Longrightarrow> mx_phase m i = Ended"
  using started_ok_def[of m n] by (simp add: mutex_ok_def)

lemma mutex_ok_empty: "mutex_ok empty_mutex"
  by (simp add: mutex_ok_def tail_ok_def empty_mutex_def)

lemma mutex_ok_call:
  assumes "mutex_ok m"
  shows "mutex_ok (mutex_call k m)"
proof -
  let ?m = "mutex_call k m" and ?n = "mx_count m"
  have b: "before ?m i j \<longleftrightarrow> (if j = ?n then i < ?n \<and> mx_key m i = k else before m i j)" for i j
    unfolding before_def mutex_call_def Let_def by auto
  have ph: "mx_phase ?m i = (if i = ?n then Queued else mx_phase m i)" "mx_previous ?m i = (if i = ?n then mx_tails m k else mx_previous m i)"
    "mx_count ?m = ?n + 1" "mx_tails ?m j = (if j = k then Some ?n else mx_tails m j)"
    "mx_key ?m i = (if i = ?n then k else mx_key m i)" for i j
    unfolding mutex_call_def Let_def by auto
  have "tail_ok ?m j" for j
    using mutex_ok_tail_None[OF assms, of j] mutex_ok_tail_Some[OF assms, of j]
    by (auto simp: tail_ok_def ph split: option.splits)
  moreover have "previous_ok ?m n" if n: "n < mx_count ?m" for n
  proof (cases "n = ?n")
    case True
    then show ?thesis
      using mutex_ok_tail_None[OF assms, of k] mutex_ok_tail_Some[OF assms, of k]
      by (auto simp: previous_ok_def ph b split: option.splits)
  next
    case False
    then have n': "n < mx_count m" using n by (simp add: ph)
    then have ne: "before m i n \<Longrightarrow> i \<noteq> ?n" for i by (auto simp: before_def)
    show ?thesis
      using False ne mutex_ok_first[OF assms n'] mutex_ok_previous[OF assms n']
      by (auto simp: previous_ok_def ph b split: option.splits)
  qed
  moreover have "started_ok ?m n" if n: "n < mx_count ?m" for n
  proof (cases "n = ?n")
    case False
    then have n': "n < mx_count m" using n by (simp add: ph)
    then have ne: "before m i n \<Longrightarrow> i \<noteq> ?n" for i by (auto simp: before_def)
    show ?thesis using False ne mutex_ok_started[OF assms n'] by (simp add: started_ok_def ph b)
  qed (simp add: started_ok_def ph)
  ultimately show ?thesis by (simp add: mutex_ok_def)
qed

lemma settled_ended: "settled m n \<Longrightarrow> mx_phase m n = Ended"
  by (cases rule: settled.cases) auto

lemma mutex_ok_start:
  assumes ok: "mutex_ok m" and may: "may_start m n"
  shows "mutex_ok (mutex_start n m)"
proof -
  define m' where "m' = mutex_start n m"
  have f: "mx_count m' = mx_count m" "mx_previous m' = mx_previous m" "mx_tails m' = mx_tails m" "mx_key m' = mx_key m"
    "mx_phase m' i = (if i = n then Running else mx_phase m i)" "before m' i j = before m i j" for i j
    by (auto simp: m'_def mutex_start_def before_def)
  have n: "n < mx_count m" "mx_phase m n = Queued" using may by (auto simp: may_start_def)
  have pred: "mx_phase m i = Ended" if "before m i n" for i
  proof (cases "mx_previous m n")
    case None
    then show ?thesis using mutex_ok_first[OF ok n(1)] that by blast
  next
    case (Some p)
    then have p: "before m p n" "i \<le> p" using mutex_ok_previous[OF ok n(1) Some] that by blast+
    have "mx_phase m p = Ended" using may Some settled_ended by (simp add: may_start_def)
    then show ?thesis using mutex_ok_started[OF ok, of p i] p that
      by (cases "i = p") (auto simp: before_def)
  qed
  have "tail_ok m' k" for k
    using mutex_ok_tail_None[OF ok, of k n] mutex_ok_tail_None[OF ok, of k] mutex_ok_tail_Some[OF ok, of k] n
    by (auto simp: tail_ok_def f split: option.splits)
  moreover have "previous_ok m' j" if j: "j < mx_count m'" for j
  proof -
    have j': "j < mx_count m" using j by (simp add: f)
    have "mx_previous m j = None \<Longrightarrow> \<not> before m n j" using mutex_ok_first[OF ok j', of n] n by auto
    then show ?thesis
      using mutex_ok_first[OF ok j'] mutex_ok_previous[OF ok j']
      by (auto simp: previous_ok_def f split: option.splits)
  qed
  moreover have "started_ok m' j" if j: "j < mx_count m'" for j
  proof (cases "j = n")
    case True
    have "before m i n \<Longrightarrow> i \<noteq> n" for i by (simp add: before_def)
    then show ?thesis using True pred by (simp add: started_ok_def f)
  next
    case False
    have j': "j < mx_count m" using j by (simp add: f)
    show ?thesis
      using False mutex_ok_started[OF ok j'] mutex_ok_started[OF ok j', of n] n
      by (auto simp: started_ok_def f)
  qed
  ultimately show ?thesis unfolding m'_def by (simp add: mutex_ok_def)
qed

lemma mutex_ok_finish:
  assumes ok: "mutex_ok m" and n: "n < mx_count m" "mx_phase m n = Running"
  shows "mutex_ok (mutex_finish n m)"
proof -
  define m' where "m' = mutex_finish n m"
  have f: "mx_count m' = mx_count m" "mx_previous m' = mx_previous m" "mx_key m' = mx_key m"
    "mx_tails m' k = (if mx_tails m (mx_key m n) = Some n \<and> k = mx_key m n then None else mx_tails m k)"
    "mx_phase m' i = (if i = n then Ended else mx_phase m i)" "before m' i j = before m i j" for i j k
    by (auto simp: m'_def mutex_finish_def before_def)
  have pred: "mx_phase m i = Ended" if "before m i n" for i
    using mutex_ok_started[OF ok n(1)] n(2) that by simp
  have "tail_ok m' k" for k
  proof (cases "mx_tails m (mx_key m n) = Some n \<and> k = mx_key m n")
    case True
    have "mx_phase m i = Ended" if "i < mx_count m" "mx_key m i = k" "i \<noteq> n" for i
      using mutex_ok_tail_Some[OF ok, of k n] True that pred[of i] n(1) by (auto simp: before_def)
    then show ?thesis using True by (auto simp: tail_ok_def f)
  next
    case False
    then have t: "mx_tails m' k = mx_tails m k" by (simp add: f)
    show ?thesis
    proof (cases "mx_tails m k")
      case None
      then show ?thesis using mutex_ok_tail_None[OF ok, of k] by (simp add: tail_ok_def t) (simp add: f)
    next
      case (Some x)
      then show ?thesis using mutex_ok_tail_Some[OF ok, of k x] by (simp add: tail_ok_def t) (simp add: f)
    qed
  qed
  moreover have "previous_ok m' j" if j: "j < mx_count m'" for j
  proof -
    have j': "j < mx_count m" using j by (simp add: f)
    show ?thesis
      using mutex_ok_first[OF ok j'] mutex_ok_previous[OF ok j']
      by (auto simp: previous_ok_def f split: option.splits)
  qed
  moreover have "started_ok m' j" if j: "j < mx_count m'" for j
  proof -
    have j': "j < mx_count m" using j by (simp add: f)
    show ?thesis using mutex_ok_started[OF ok j'] pred by (auto simp: started_ok_def f)
  qed
  ultimately show ?thesis unfolding m'_def by (simp add: mutex_ok_def)
qed

lemma mutex_reach_ok: "mutex_reach m \<Longrightarrow> mutex_ok m"
proof (induction rule: mutex_reach.induct)
  case (step m m')
  from step.hyps(2) step.IH show ?case
    by (cases rule: mutex_step.cases) (auto intro: mutex_ok_call mutex_ok_start mutex_ok_finish)
qed (rule mutex_ok_empty)

lemma all_ended_settled:
  assumes ok: "mutex_ok m"
  shows "n < mx_count m \<Longrightarrow> mx_phase m n = Ended \<Longrightarrow> settled m n"
proof (induction n rule: less_induct)
  case (less n)
  show ?case
  proof (cases "mx_previous m n")
    case None
    then show ?thesis using less.prems settled.intros(1) by blast
  next
    case (Some p)
    then have p: "before m p n" using mutex_ok_previous[OF ok less.prems(1)] by blast
    then have "mx_phase m p = Ended" using mutex_ok_started[OF ok less.prems(1)] less.prems(2) by simp
    then have "settled m p" using less.IH[of p] p by (simp add: before_def)
    then show ?thesis using less.prems Some settled.intros(2) by blast
  qed
qed

text \<open>C9. The keyed mutex is exclusive, first-in first-out and free of deadlock. In every reachable
  interleaving: two different calls with one key never run at the same time; a call runs or has run only when
  every earlier call with its key has ended; and if some call has not ended, a call of its key is running or the
  earliest unfinished one may start, so calls with other keys never block it.\<close>

theorem keyed_mutex_exclusive_fair:
  assumes "mutex_reach m"
  shows "(\<forall>i < mx_count m. \<forall>j < mx_count m.
            mx_phase m i = Running \<and> mx_phase m j = Running \<and> mx_key m i = mx_key m j \<longrightarrow> i = j)
    \<and> (\<forall>n < mx_count m. \<forall>i. mx_phase m n \<noteq> Queued \<and> before m i n \<longrightarrow> mx_phase m i = Ended)
    \<and> (\<forall>n < mx_count m. mx_phase m n \<noteq> Ended \<longrightarrow>
         (\<exists>i < mx_count m. mx_key m i = mx_key m n \<and> (mx_phase m i = Running \<or> may_start m i)))"
proof (intro conjI allI impI)
  note ok = mutex_reach_ok[OF assms]
  fix i j assume ij: "i < mx_count m" "j < mx_count m"
    "mx_phase m i = Running \<and> mx_phase m j = Running \<and> mx_key m i = mx_key m j"
  show "i = j"
    using mutex_ok_started[OF ok ij(1), of j] mutex_ok_started[OF ok ij(2), of i] ij
    by (cases i j rule: linorder_cases) (auto simp: before_def)
next
  fix n i assume "n < mx_count m" "mx_phase m n \<noteq> Queued \<and> before m i n"
  then show "mx_phase m i = Ended" using mutex_ok_started[OF mutex_reach_ok[OF assms]] by blast
next
  note ok = mutex_reach_ok[OF assms]
  fix n assume n: "n < mx_count m" "mx_phase m n \<noteq> Ended"
  define P where "P i \<longleftrightarrow> i < mx_count m \<and> mx_key m i = mx_key m n \<and> mx_phase m i \<noteq> Ended" for i
  define i where "i = (LEAST i. P i)"
  have i: "P i" unfolding i_def by (rule LeastI[of P n]) (simp add: P_def n)
  have first: "mx_phase m j = Ended" if "before m j i" for j
    using not_less_Least[of j P] that i unfolding i_def P_def before_def by fastforce
  have "mx_phase m i = Running \<or> may_start m i"
  proof (cases "mx_phase m i")
    case Queued
    have "settled m p" if "mx_previous m i = Some p" for p
      using mutex_ok_previous[OF ok _ that] i first all_ended_settled[OF ok, of p]
      unfolding P_def before_def by fastforce
    then show ?thesis using Queued i unfolding may_start_def P_def by (auto split: option.splits)
  qed (use i in \<open>auto simp: P_def\<close>)
  then show "\<exists>i < mx_count m. mx_key m i = mx_key m n \<and> (mx_phase m i = Running \<or> may_start m i)"
    using i unfolding P_def by blast
qed

definition sample_mutex :: mutex where
  "sample_mutex = mutex_call ''b'' (mutex_start 0 (mutex_call ''a'' (mutex_call ''a'' empty_mutex)))"

theorem keyed_mutex_exclusive_fair_witness:
  "mx_phase sample_mutex 0 = Running \<and> mx_phase sample_mutex 1 \<noteq> Running
   \<and> (\<exists>i < mx_count sample_mutex. mx_key sample_mutex i = ''b'' \<and> (mx_phase sample_mutex i = Running \<or> may_start sample_mutex i))"
proof -
  have "mutex_reach sample_mutex"
    unfolding sample_mutex_def
    by (intro mutex_reach.step[OF _ mutex_step.call] mutex_reach.step[OF _ mutex_step.start] mutex_reach.init)
      (simp add: may_start_def mutex_call_def empty_mutex_def)
  note fair = keyed_mutex_exclusive_fair[OF this]
  have s: "mx_count sample_mutex = 3" "mx_key sample_mutex 2 = ''b''" "mx_phase sample_mutex 2 = Queued"
    "mx_phase sample_mutex 0 = Running" "mx_phase sample_mutex 1 = Queued"
    by (simp_all add: sample_mutex_def mutex_call_def mutex_start_def empty_mutex_def Let_def)
  have "\<exists>i < mx_count sample_mutex. mx_key sample_mutex i = mx_key sample_mutex 2
      \<and> (mx_phase sample_mutex i = Running \<or> may_start sample_mutex i)"
    by (rule fair[THEN conjunct2, THEN conjunct2, rule_format]) (simp_all add: s)
  then show ?thesis using s by simp
qed

end
