(* ===== verification/Queue_Leases.thy ===== *)
theory Queue_Leases
  imports Timestamps Effects
begin

text \<open>
  Leases on queued jobs: \<open>packages/state/src/leases/lease-store.ts\<close> and the worker's
  \<open>packages/execution/src/worker/lease-manager.ts\<close>, which fills in its owner id, time to live
  and clock; and the back-off of the worker's loop, \<open>apps/worker/src/worker-runner.ts\<close>.
\<close>

section \<open>The store\<close>

record queue_lease =
  ql_job :: string
  ql_owner :: string
  ql_lease :: string
  ql_acquired :: stamp
  ql_expires :: stamp
  ql_heartbeat :: stamp

record queue_input =
  qi_job :: string
  qi_owner :: string
  qi_lease :: string
  qi_ttl :: int
  qi_now :: stamp

type_synonym queue_state = "string \<Rightarrow> queue_lease option"

datatype queue_refusal = Missing_Lease | Lease_Owner_Differs

datatype queue_acquired = Queue_Acquired queue_lease | Already_Leased queue_lease

datatype queue_renewed = Queue_Renewed queue_lease | Queue_Not_Renewed queue_refusal "queue_lease option"

definition extendLease :: "queue_lease \<Rightarrow> stamp \<Rightarrow> int \<Rightarrow> queue_lease result" where
  "extendLease cur now ttl =
     (case to_iso (num_add (date_ms now) ttl) of
        Inl e \<Rightarrow> Inl e
      | Inr expires \<Rightarrow> Inr (cur\<lparr>ql_heartbeat := now, ql_expires := expires\<rparr>))"

definition queue_acquire :: "queue_input \<Rightarrow> (queue_state, queue_acquired) act" where
  "queue_acquire i s =
     (case (case s (qi_job i) of
              Some cur \<Rightarrow> if num_lt (date_ms (qi_now i)) (date_ms (ql_expires cur)) then Some cur else None
            | None \<Rightarrow> None) of
        Some cur \<Rightarrow> (Inr (Already_Leased cur), s)
      | None \<Rightarrow>
          (case to_iso (num_add (date_ms (qi_now i)) (qi_ttl i)) of
             Inl e \<Rightarrow> (Inl e, s)
           | Inr expires \<Rightarrow>
               let lease = \<lparr> ql_job = qi_job i, ql_owner = qi_owner i, ql_lease = qi_lease i, ql_acquired = qi_now i,
                             ql_expires = expires, ql_heartbeat = qi_now i \<rparr>
               in (Inr (Queue_Acquired lease), s(qi_job i \<mapsto> lease))))"

definition queue_heartbeat :: "queue_input \<Rightarrow> (queue_state, queue_renewed) act" where
  "queue_heartbeat i s =
     (case s (qi_job i) of
        None \<Rightarrow> (Inr (Queue_Not_Renewed Missing_Lease None), s)
      | Some cur \<Rightarrow>
          if ql_owner cur \<noteq> qi_owner i \<or> ql_lease cur \<noteq> qi_lease i
          then (Inr (Queue_Not_Renewed Lease_Owner_Differs (Some cur)), s)
          else (case extendLease cur (qi_now i) (qi_ttl i) of
                  Inl e \<Rightarrow> (Inl e, s)
                | Inr lease \<Rightarrow> (Inr (Queue_Renewed lease), s(qi_job i \<mapsto> lease))))"

definition queue_release :: "string \<Rightarrow> string \<Rightarrow> string \<Rightarrow> (queue_state, queue_refusal option) act" where
  "queue_release job owner lease s =
     (case s job of
        None \<Rightarrow> (Inr (Some Missing_Lease), s)
      | Some cur \<Rightarrow>
          if ql_owner cur \<noteq> owner \<or> ql_lease cur \<noteq> lease then (Inr (Some Lease_Owner_Differs), s)
          else (Inr None, s(job := None)))"

section \<open>The lease manager of a worker\<close>

record manager_options =
  mo_owner :: string
  mo_ttl :: int

definition manager_acquire :: "manager_options \<Rightarrow> int \<Rightarrow> string \<Rightarrow> string \<Rightarrow> (queue_state, bool) act" where
  "manager_acquire opt now job lease =
     bindA (queue_acquire \<lparr> qi_job = job, qi_owner = mo_owner opt, qi_lease = lease, qi_ttl = mo_ttl opt, qi_now = Iso now \<rparr>)
       (\<lambda>r. ret (case r of Queue_Acquired _ \<Rightarrow> True | Already_Leased _ \<Rightarrow> False))"

definition manager_heartbeat :: "manager_options \<Rightarrow> int \<Rightarrow> string \<Rightarrow> string \<Rightarrow> (queue_state, queue_refusal option) act" where
  "manager_heartbeat opt now job lease =
     bindA (queue_heartbeat \<lparr> qi_job = job, qi_owner = mo_owner opt, qi_lease = lease, qi_ttl = mo_ttl opt, qi_now = Iso now \<rparr>)
       (\<lambda>r. ret (case r of Queue_Renewed _ \<Rightarrow> None | Queue_Not_Renewed why _ \<Rightarrow> Some why))"

definition manager_release :: "manager_options \<Rightarrow> string \<Rightarrow> string \<Rightarrow> (queue_state, queue_refusal option) act" where
  "manager_release opt job lease = queue_release job (mo_owner opt) lease"

section \<open>Histories of several workers\<close>

datatype queue_op =
    Q_Acquire manager_options int string string
  | Q_Heartbeat manager_options int string string
  | Q_Release manager_options string string

text \<open>What a call reports: whether it was granted.\<close>

fun queue_exec :: "queue_op \<Rightarrow> queue_state \<Rightarrow> bool \<times> queue_state" where
  "queue_exec (Q_Acquire opt now job lease) s = (case manager_acquire opt now job lease s of (r, s') \<Rightarrow> (r = Inr True, s'))"
| "queue_exec (Q_Heartbeat opt now job lease) s = (case manager_heartbeat opt now job lease s of (r, s') \<Rightarrow> (r = Inr None, s'))"
| "queue_exec (Q_Release opt job lease) s = (case manager_release opt job lease s of (r, s') \<Rightarrow> (r = Inr None, s'))"

fun queue_run :: "queue_op list \<Rightarrow> queue_state \<Rightarrow> (queue_op \<times> bool) list \<times> queue_state" where
  "queue_run [] s = ([], s)"
| "queue_run (q # qs) s =
     (case queue_exec q s of (b, s') \<Rightarrow> case queue_run qs s' of (log, s'') \<Rightarrow> ((q, b) # log, s''))"

text \<open>Calls that respect a lease of \<open>job\<close> held by \<open>owner\<close> under \<open>lease\<close> until \<open>t\<close>: acquisitions before
  \<open>t\<close>, heartbeats of the holder that do not shorten it, and no release by the holder.\<close>

fun keeps_lease :: "string \<Rightarrow> string \<Rightarrow> string \<Rightarrow> int \<Rightarrow> queue_op \<Rightarrow> bool" where
  "keeps_lease job owner lease t (Q_Acquire opt now j l) = (j = job \<longrightarrow> now < t)"
| "keeps_lease job owner lease t (Q_Heartbeat opt now j l) =
     (j = job \<and> mo_owner opt = owner \<and> l = lease \<longrightarrow> t \<le> now + mo_ttl opt)"
| "keeps_lease job owner lease t (Q_Release opt j l) = (\<not> (j = job \<and> mo_owner opt = owner \<and> l = lease))"

definition leased :: "string \<Rightarrow> string \<Rightarrow> string \<Rightarrow> int \<Rightarrow> queue_state \<Rightarrow> bool" where
  "leased job owner lease t s \<longleftrightarrow> (\<exists>cur e. s job = Some cur \<and> ql_owner cur = owner \<and> ql_lease cur = lease
     \<and> ql_expires cur = Iso e \<and> t \<le> e)"

lemmas queue_defs = manager_acquire_def manager_heartbeat_def manager_release_def queue_acquire_def
  queue_heartbeat_def queue_release_def extendLease_def act_defs Let_def

lemma acquire_leased:
  "manager_acquire opt now job lease s = (Inr True, s') \<Longrightarrow> leased job (mo_owner opt) lease (now + mo_ttl opt) s'"
  by (auto simp: queue_defs leased_def split: option.splits if_splits)

lemma leased_acquire:
  assumes "leased job owner lease t s" and "j = job \<longrightarrow> now < t"
  shows "leased job owner lease t (snd (manager_acquire opt now j l s))"
    and "j = job \<Longrightarrow> fst (manager_acquire opt now j l s) = Inr False"
proof -
  obtain cur e where "s job = Some cur" "ql_expires cur = Iso e" "t \<le> e" and own: "ql_owner cur = owner" "ql_lease cur = lease"
    using assms(1) unfolding leased_def by blast
  then show "leased job owner lease t (snd (manager_acquire opt now j l s))"
    "j = job \<Longrightarrow> fst (manager_acquire opt now j l s) = Inr False"
    using assms(2) by (cases "j = job"; auto simp: queue_defs leased_def split: option.split)+
qed

lemma leased_heartbeat:
  assumes "leased job owner lease t s" and "j = job \<and> mo_owner opt = owner \<and> l = lease \<longrightarrow> t \<le> now + mo_ttl opt"
  shows "leased job owner lease t (snd (manager_heartbeat opt now j l s))"
    and "j = job \<Longrightarrow> fst (manager_heartbeat opt now j l s)
           = Inr (if mo_owner opt = owner \<and> l = lease then None else Some Lease_Owner_Differs)"
proof -
  obtain cur e where "s job = Some cur" "ql_expires cur = Iso e" "t \<le> e" and own: "ql_owner cur = owner" "ql_lease cur = lease"
    using assms(1) unfolding leased_def by blast
  then show "leased job owner lease t (snd (manager_heartbeat opt now j l s))"
    "j = job \<Longrightarrow> fst (manager_heartbeat opt now j l s)
       = Inr (if mo_owner opt = owner \<and> l = lease then None else Some Lease_Owner_Differs)"
    using assms(2) by (cases "j = job"; auto simp: queue_defs leased_def split: option.split)+
qed

lemma leased_release:
  assumes "leased job owner lease t s" and "\<not> (j = job \<and> mo_owner opt = owner \<and> l = lease)"
  shows "leased job owner lease t (snd (manager_release opt j l s))"
  using assms by (cases "j = job") (auto simp: queue_defs leased_def split: option.split)

lemma keeps_leased:
  assumes l: "leased job owner lease t s" and k: "keeps_lease job owner lease t q"
  shows "leased job owner lease t (snd (queue_exec q s))
    \<and> (\<forall>opt now l. q = Q_Acquire opt now job l \<longrightarrow> \<not> fst (queue_exec q s))
    \<and> (\<forall>opt now l. q = Q_Heartbeat opt now job l \<longrightarrow> fst (queue_exec q s) = (mo_owner opt = owner \<and> l = lease))"
proof (cases q)
  case (Q_Acquire opt now j l')
  show ?thesis using leased_acquire[OF l, of j now opt l'] k Q_Acquire by (auto split: prod.splits)
next
  case (Q_Heartbeat opt now j l')
  show ?thesis using leased_heartbeat[OF l, of j opt l' now] k Q_Heartbeat by (auto split: prod.splits if_splits)
next
  case (Q_Release opt j l')
  show ?thesis using leased_release[OF l, of j opt l'] k Q_Release by (auto split: prod.splits)
qed

lemma queue_run_calls: "map fst (fst (queue_run qs s)) = qs"
  by (induction qs arbitrary: s) (auto split: prod.splits, metis fst_conv)

lemma leased_run:
  "leased job owner lease t s \<Longrightarrow> \<forall>q \<in> set qs. keeps_lease job owner lease t q \<Longrightarrow>
   (\<forall>(q, ok) \<in> set (fst (queue_run qs s)).
      (\<forall>opt now l. q = Q_Acquire opt now job l \<longrightarrow> \<not> ok)
    \<and> (\<forall>opt now l. q = Q_Heartbeat opt now job l \<longrightarrow> ok = (mo_owner opt = owner \<and> l = lease)))"
proof (induction qs arbitrary: s)
  case (Cons q qs)
  obtain b s' where q: "queue_exec q s = (b, s')" by (cases "queue_exec q s")
  have r: "keeps_lease job owner lease t q" using Cons.prems(2) by simp
  have st: "leased job owner lease t s'" "\<forall>opt now l. q = Q_Acquire opt now job l \<longrightarrow> \<not> b"
    "\<forall>opt now l. q = Q_Heartbeat opt now job l \<longrightarrow> b = (mo_owner opt = owner \<and> l = lease)"
    using keeps_leased[OF Cons.prems(1) r] q by auto
  have IH: "\<forall>(q, ok) \<in> set (fst (queue_run qs s')).
      (\<forall>opt now l. q = Q_Acquire opt now job l \<longrightarrow> \<not> ok)
    \<and> (\<forall>opt now l. q = Q_Heartbeat opt now job l \<longrightarrow> ok = (mo_owner opt = owner \<and> l = lease))"
    using Cons.IH[OF st(1)] Cons.prems(2) by simp
  have "set (fst (queue_run (q # qs) s)) = insert (q, b) (set (fst (queue_run qs s')))"
    using q by (simp split: prod.splits)
  then show ?case using IH st(2,3) by auto
qed simp

text \<open>C10. One worker per job. After a lease manager acquired a job at the time \<open>n\<close>, and until \<open>n + ttl\<close>:
  whatever the workers do, short of the holder releasing it or sending a heartbeat that shortens it, no
  acquisition of the job is granted, every heartbeat with the holder's owner and lease id succeeds and every
  other heartbeat on the job is refused.\<close>

theorem job_lease_exclusive:
  assumes "manager_acquire opt n job lease s = (Inr True, s')"
    and "\<forall>q \<in> set qs. keeps_lease job (mo_owner opt) lease (n + mo_ttl opt) q"
  shows "\<forall>(q, ok) \<in> set (fst (queue_run qs s')).
      (\<forall>o' now l. q = Q_Acquire o' now job l \<longrightarrow> \<not> ok)
    \<and> (\<forall>o' now l. q = Q_Heartbeat o' now job l \<longrightarrow> ok = (mo_owner o' = mo_owner opt \<and> l = lease))"
  by (rule leased_run[OF acquire_leased[OF assms(1)] assms(2)])

theorem job_lease_exclusive_witness:
  "fst (queue_run
     [Q_Acquire \<lparr>mo_owner = ''b'', mo_ttl = 10\<rparr> 5 ''j'' ''l2'', Q_Heartbeat \<lparr>mo_owner = ''a'', mo_ttl = 10\<rparr> 6 ''j'' ''l1'']
     (snd (manager_acquire \<lparr>mo_owner = ''a'', mo_ttl = 10\<rparr> 0 ''j'' ''l1'' (\<lambda>_. None))))
   = [(Q_Acquire \<lparr>mo_owner = ''b'', mo_ttl = 10\<rparr> 5 ''j'' ''l2'', False),
      (Q_Heartbeat \<lparr>mo_owner = ''a'', mo_ttl = 10\<rparr> 6 ''j'' ''l1'', True)]"
proof -
  let ?a = "\<lparr>mo_owner = ''a'', mo_ttl = 10\<rparr> :: manager_options" and ?b = "\<lparr>mo_owner = ''b'', mo_ttl = 10\<rparr> :: manager_options"
  let ?qs = "[Q_Acquire ?b 5 ''j'' ''l2'', Q_Heartbeat ?a 6 ''j'' ''l1'']"
  let ?s = "snd (manager_acquire ?a 0 ''j'' ''l1'' (\<lambda>_. None))"
  have "manager_acquire ?a 0 ''j'' ''l1'' (\<lambda>_. None) = (Inr True, ?s)" by (simp add: queue_defs)
  from job_lease_exclusive[OF this, of ?qs]
  have all: "\<forall>(q, ok) \<in> set (fst (queue_run ?qs ?s)).
      (\<forall>o' now l. q = Q_Acquire o' now ''j'' l \<longrightarrow> \<not> ok)
    \<and> (\<forall>o' now l. q = Q_Heartbeat o' now ''j'' l \<longrightarrow> ok = (mo_owner o' = ''a'' \<and> l = ''l1''))" by simp
  obtain x y where "fst (queue_run ?qs ?s) = [(Q_Acquire ?b 5 ''j'' ''l2'', x), (Q_Heartbeat ?a 6 ''j'' ''l1'', y)]"
    using queue_run_calls[of ?qs ?s] by (auto simp: map_eq_Cons_conv)
  with all show ?thesis by simp
qed

section \<open>The worker's back-off\<close>

record worker_options =
  wo_poll :: int
  wo_idle :: int
  wo_max_idle :: int
  wo_error :: int
  wo_max_error :: int

datatype cycle_outcome = Cycle_Work | Cycle_Idle | Cycle_Threw

text \<open>One iteration of \<open>run\<close>: the delay it sleeps and the two delays for the next one.\<close>

fun worker_iteration :: "worker_options \<Rightarrow> cycle_outcome \<Rightarrow> int \<times> int \<Rightarrow> int \<times> int \<times> int" where
  "worker_iteration w Cycle_Work (idle, err) = (wo_poll w, wo_idle w, wo_error w)"
| "worker_iteration w Cycle_Idle (idle, err) = (idle, min (idle * 2) (wo_max_idle w), wo_error w)"
| "worker_iteration w Cycle_Threw (idle, err) = (err, idle, min (err * 2) (wo_max_error w))"

fun worker_delays :: "worker_options \<Rightarrow> cycle_outcome list \<Rightarrow> int \<times> int \<Rightarrow> int list" where
  "worker_delays w [] d = []"
| "worker_delays w (c # cs) d = (case worker_iteration w c d of (ms, d') \<Rightarrow> ms # worker_delays w cs d')"

lemma worker_idle_delays:
  "0 \<le> wo_idle w \<Longrightarrow> d = (min (wo_idle w * 2 ^ k) (max (wo_idle w) (wo_max_idle w)), err) \<Longrightarrow> wo_idle w \<le> wo_max_idle w \<Longrightarrow>
   i < n \<Longrightarrow> worker_delays w (replicate n Cycle_Idle) d ! i = min (wo_idle w * 2 ^ (k + i)) (wo_max_idle w)"
proof (induction n arbitrary: d k i err)
  case (Suc n)
  have nxt: "min (min (wo_idle w * 2 ^ k) (wo_max_idle w) * 2) (wo_max_idle w) = min (wo_idle w * 2 ^ Suc k) (wo_max_idle w)"
    using Suc.prems(1,3) by (auto simp: min_def)
  show ?case
  proof (cases i)
    case 0
    then show ?thesis using Suc.prems by (simp add: max_def)
  next
    case (Suc j)
    have "worker_delays w (replicate n Cycle_Idle) (min (wo_idle w * 2 ^ Suc k) (wo_max_idle w), wo_error w) ! j
        = min (wo_idle w * 2 ^ (Suc k + j)) (wo_max_idle w)"
      by (rule Suc.IH[of _ "Suc k" "wo_error w"]) (use Suc.prems Suc in \<open>simp_all add: max_def\<close>)
    then show ?thesis using Suc.prems Suc nxt by (simp add: max_def)
  qed
qed simp

definition delays_ok :: "worker_options \<Rightarrow> int \<times> int \<Rightarrow> bool" where
  "delays_ok w d \<longleftrightarrow> 0 \<le> fst d \<and> fst d \<le> wo_max_idle w \<and> 0 \<le> snd d \<and> snd d \<le> wo_max_error w"

lemma worker_iteration_bounded:
  assumes "0 \<le> wo_poll w" "delays_ok w (wo_idle w, wo_error w)" "delays_ok w d"
  shows "delays_ok w (snd (worker_iteration w c d))"
    and "0 \<le> fst (worker_iteration w c d)"
    and "fst (worker_iteration w c d) \<le> max (wo_poll w) (max (wo_max_idle w) (wo_max_error w))"
  using assms by (cases d; cases c; simp add: delays_ok_def; linarith?)+

lemma worker_delays_bounded:
  assumes "0 \<le> wo_poll w" "delays_ok w (wo_idle w, wo_error w)"
  shows "delays_ok w d \<Longrightarrow>
    \<forall>ms \<in> set (worker_delays w cs d). 0 \<le> ms \<and> ms \<le> max (wo_poll w) (max (wo_max_idle w) (wo_max_error w))"
proof (induction cs arbitrary: d)
  case (Cons c cs)
  show ?case
    using Cons.IH[OF worker_iteration_bounded(1)[OF assms Cons.prems, of c]]
      worker_iteration_bounded(2,3)[OF assms Cons.prems, of c]
    by (cases "worker_iteration w c d") simp
qed simp

end
