(* ===== verification/State_Records.thy ===== *)
theory State_Records
  imports Backlog_Model Roles Policy
begin

text \<open>
  The records a project's state holds beside the backlog, each with its own checks:
  \<open>artifacts.ts\<close>, \<open>artifact-schema-registry.ts\<close>, \<open>decisions.ts\<close>, \<open>discovery.ts\<close>, \<open>failures.ts\<close>,
  \<open>approvals.ts\<close>, \<open>architecture-findings.ts\<close>, \<open>milestones.ts\<close> (the data) and \<open>events.ts\<close> of
  \<open>packages/core/src\<close>. Ids and instants that the code draws from \<open>crypto.randomUUID\<close> and
  \<open>new Date()\<close> are arguments.
\<close>

section \<open>Artifacts\<close>

datatype artifact_type =
    Bootstrap_Analysis | Architecture_Analysis | Documentation_Artifact | Release_Assessment
  | State_Integrity_Report | Integration_Export | Optimized_Prompt | Run_Summary | Backlog_Export
  | Plan_Artifact | Test_Plan | Report_Artifact | Git_Lifecycle

fun artifact_type_text :: "artifact_type \<Rightarrow> string" where
  "artifact_type_text Bootstrap_Analysis = ''bootstrap_analysis''"
| "artifact_type_text Architecture_Analysis = ''architecture_analysis''"
| "artifact_type_text Documentation_Artifact = ''documentation''"
| "artifact_type_text Release_Assessment = ''release_assessment''"
| "artifact_type_text State_Integrity_Report = ''state_integrity_report''"
| "artifact_type_text Integration_Export = ''integration_export''"
| "artifact_type_text Optimized_Prompt = ''optimized_prompt''"
| "artifact_type_text Run_Summary = ''run_summary''"
| "artifact_type_text Backlog_Export = ''backlog_export''"
| "artifact_type_text Plan_Artifact = ''plan''"
| "artifact_type_text Test_Plan = ''test_plan''"
| "artifact_type_text Report_Artifact = ''report''"
| "artifact_type_text Git_Lifecycle = ''git_lifecycle''"

record artifact =
  art_id :: string
  art_type :: artifact_type
  art_title :: string
  art_location :: "string option"
  art_metadata :: "string jsrec"
  art_created :: stamp

text \<open>\<open>/key|token|secret/i\<close>.\<close>

definition secret_like :: "string \<Rightarrow> bool" where
  "secret_like v = (let l = to_lower v in
     str_includes l ''key'' \<or> str_includes l ''token'' \<or> str_includes l ''secret'')"

definition validateArtifact :: "artifact \<Rightarrow> string list" where
  "validateArtifact a =
     (if blank (art_title a) then [''Artifact title is required''] else [])
     @ (if \<exists>v \<in> set (rec_values (art_metadata a)). secret_like v
        then [''Artifact metadata must not contain secret-like values''] else [])"

definition meta_present :: "artifact \<Rightarrow> string \<Rightarrow> bool" where
  "meta_present a k = (case rec_get (art_metadata a) k of None \<Rightarrow> False | Some v \<Rightarrow> \<not> blank v)"

definition requireMetadata :: "artifact \<Rightarrow> string list \<Rightarrow> string list" where
  "requireMetadata a keys =
     map (\<lambda>k. ''Artifact '' @ artifact_type_text (art_type a) @ '' requires metadata.'' @ k)
       (filter (\<lambda>k. \<not> meta_present a k) keys)"

definition requireAnyMetadata :: "artifact \<Rightarrow> string list \<Rightarrow> string list" where
  "requireAnyMetadata a keys =
     (if \<exists>k \<in> set keys. meta_present a k then []
      else [''Artifact '' @ artifact_type_text (art_type a) @ '' requires at least one of metadata.''
              @ join '', metadata.'' keys])"

definition artifact_validator :: "artifact \<Rightarrow> string list" where
  "artifact_validator a = (case art_type a of
      Bootstrap_Analysis \<Rightarrow> requireMetadata a [''promptId'', ''recommendedNextStep'']
    | Architecture_Analysis \<Rightarrow> requireMetadata a [''promptId'', ''findings'']
    | Documentation_Artifact \<Rightarrow> requireMetadata a [''promptId'']
    | Release_Assessment \<Rightarrow> requireMetadata a [''promptId'', ''verdict'']
    | State_Integrity_Report \<Rightarrow> requireMetadata a [''promptId'', ''ok'']
    | Integration_Export \<Rightarrow> requireMetadata a [''promptId'', ''mappedEntities'']
    | Optimized_Prompt \<Rightarrow> requireMetadata a [''taskId'', ''promptId'']
    | Run_Summary \<Rightarrow> requireAnyMetadata a [''status'', ''summary'']
    | Backlog_Export \<Rightarrow> []
    | Plan_Artifact \<Rightarrow> requireMetadata a [''promptId'', ''milestoneId'']
    | Test_Plan \<Rightarrow> []
    | Report_Artifact \<Rightarrow> []
    | Git_Lifecycle \<Rightarrow> requireMetadata a [''taskId'', ''runId'', ''stage''])"

definition registry_validate :: "artifact \<Rightarrow> string list" where
  "registry_validate a = validateArtifact a @ artifact_validator a"

section \<open>Decisions, discovery and architecture findings\<close>

record decision_item =
  di_id :: string
  di_title :: string
  di_decision :: string
  di_rationale :: string
  di_areas :: "string list"
  di_created :: stamp

definition validateDecision :: "decision_item \<Rightarrow> string list" where
  "validateDecision d =
     (if blank (di_title d) then [''Decision title is required''] else [])
     @ (if blank (di_decision d) then [''Decision body is required''] else [])
     @ (if blank (di_rationale d) then [''Decision rationale is required''] else [])"

record discovery =
  ds_generatedAt :: string
  ds_packageMap :: "string list jsrec"
  ds_subsystemMap :: "string list jsrec"
  ds_packageInventory :: "string list"
  ds_entryPoints :: "string list"
  ds_testInfrastructure :: "string list"
  ds_healthObservations :: "string list"
  ds_unstableAreaCandidates :: "string list"
  ds_criticalPaths :: "string list"
  ds_recommendedNextStep :: string

definition createEmptyProjectDiscovery :: discovery where
  "createEmptyProjectDiscovery =
     \<lparr> ds_generatedAt = '''', ds_packageMap = [], ds_subsystemMap = [], ds_packageInventory = [],
       ds_entryPoints = [], ds_testInfrastructure = [], ds_healthObservations = [],
       ds_unstableAreaCandidates = [], ds_criticalPaths = [], ds_recommendedNextStep = ''bootstrap_analysis'' \<rparr>"

definition validateProjectDiscovery :: "discovery \<Rightarrow> string list" where
  "validateProjectDiscovery d =
     (if blank (ds_recommendedNextStep d) then [''Discovery recommendedNextStep is required''] else [])
     @ (if \<exists>x \<in> set (ds_packageInventory d). blank x
        then [''Discovery packageInventory must not contain empty entries''] else [])
     @ (if \<exists>x \<in> set (ds_criticalPaths d). blank x
        then [''Discovery criticalPaths must not contain empty entries''] else [])"

datatype issue_type =
    Cyclic_Dependency | Layering_Violation | Leaky_Abstraction | Overcoupling
  | Contract_Instability | Critical_Path_Gap

datatype arch_severity = Sev_Low | Sev_Medium | Sev_High | Sev_Critical

record arch_finding =
  af_subsystem :: string
  af_issueType :: issue_type
  af_description :: string
  af_impact :: string
  af_recommendation :: string
  af_modules :: "string list"
  af_severity :: arch_severity

definition validateArchitectureFinding :: "arch_finding \<Rightarrow> string list" where
  "validateArchitectureFinding f =
     (if blank (af_subsystem f) then [''Architecture finding subsystem is required''] else [])
     @ (if blank (af_description f) then [''Architecture finding description is required''] else [])
     @ (if blank (af_impact f) then [''Architecture finding impact is required''] else [])
     @ (if blank (af_recommendation f) then [''Architecture finding recommendation is required''] else [])
     @ (if length (af_modules f) = 0 then [''Architecture finding must reference affected modules''] else [])"

section \<open>Failures\<close>

datatype failure_status = Retryable | Dead_Lettered | Resumed_Failure | Replayed_Failure

record failure =
  fl_id :: string
  fl_task :: string
  fl_role :: agent_role
  fl_reason :: string
  fl_symptoms :: "string list"
  fl_bad :: "string list"
  fl_retry :: bool
  fl_status :: "failure_status option"
  fl_run :: "string option"
  fl_step :: "string option"
  fl_dead :: "stamp option"
  fl_resumed :: "stamp option"
  fl_replayed :: "stamp option"
  fl_created :: stamp

record failure_input =
  fi_task :: string
  fi_role :: agent_role
  fi_reason :: string
  fi_symptoms :: "string list option"
  fi_bad :: "string list option"
  fi_retry :: "bool option"
  fi_status :: "failure_status option"
  fi_run :: "string option"
  fi_step :: "string option"
  fi_dead :: "stamp option"

definition buildFailureRecord :: "string \<Rightarrow> stamp \<Rightarrow> failure_input \<Rightarrow> failure" where
  "buildFailureRecord uuid createdAt i =
     \<lparr> fl_id = uuid, fl_task = fi_task i, fl_role = fi_role i, fl_reason = fi_reason i,
       fl_symptoms = or_default (fi_symptoms i) [], fl_bad = or_default (fi_bad i) [],
       fl_retry = or_default (fi_retry i) True, fl_status = fi_status i, fl_run = fi_run i,
       fl_step = fi_step i, fl_dead = fi_dead i, fl_resumed = None, fl_replayed = None, fl_created = createdAt \<rparr>"

definition toRetryConstraints :: "failure list \<Rightarrow> string list" where
  "toRetryConstraints fs = concat (map (\<lambda>f.
     (''Avoid repeat of failure reason: '' @ fl_reason f)
     # map (\<lambda>p. ''Do not repeat bad pattern: '' @ p) (fl_bad f)) fs)"

section \<open>Approvals, milestones and events\<close>

datatype approval_risk = Appr_Medium | Appr_High

datatype approval_status =
    Approval_Pending | Approval_Approved | Approval_Rejected | Approval_Resumed | Approval_Completed

record approval =
  ar_id :: string
  ar_run :: string
  ar_task :: string
  ar_reason :: string
  ar_action :: approval_action
  ar_risk :: approval_risk
  ar_status :: approval_status
  ar_metadata :: "string jsrec"
  ar_created :: stamp
  ar_approvedAt :: "stamp option"
  ar_approvedBy :: "string option"
  ar_rejectedAt :: "stamp option"
  ar_rejectedBy :: "string option"
  ar_rejectionReason :: "string option"
  ar_resumedAt :: "stamp option"
  ar_resumedBy :: "string option"
  ar_completedAt :: "stamp option"
  ar_policyDecision :: "string option"
  ar_evidence :: "string option"

datatype milestone_status = Mile_Todo | Mile_In_Progress | Mile_Done | Mile_Blocked

record milestone =
  ms_id :: string
  ms_title :: string
  ms_goal :: string
  ms_status :: milestone_status
  ms_epics :: "string list"
  ms_entry :: "string list"
  ms_exit :: "string list"

datatype event_type =
    BOOTSTRAP_COMPLETED | DISCOVERY_COMPLETED | ARCHITECTURE_ANALYZED | BACKLOG_PLANNED | TASK_SPLIT
  | RELEASE_ASSESSED | STATE_INTEGRITY_CHECKED | EXPORT_PREPARED | TASK_SELECTED | PROMPT_GENERATED
  | ROLE_EXECUTED | ROLE_TOOL_REQUESTED | ROLE_OBSERVATION_RECORDED | TOOL_EVIDENCE_RECORDED
  | APPROVAL_REQUESTED | APPROVAL_APPROVED | APPROVAL_REJECTED | APPROVAL_RESUMED | REVIEW_APPROVED
  | REVIEW_REJECTED | TEST_PASSED | TEST_FAILED | TASK_COMPLETED | TASK_BLOCKED | STATE_COMMITTED

record event =
  ev_id :: string
  ev_type :: event_type
  ev_created :: stamp
  ev_payload :: "string list jsrec"
  ev_run :: "string option"
  ev_correlation :: "string option"

text \<open>Payload members are texts or lists of texts; a text is a list of one.\<close>

definition makeEvent ::
  "string \<Rightarrow> stamp \<Rightarrow> event_type \<Rightarrow> string list jsrec \<Rightarrow> string option \<Rightarrow> string option \<Rightarrow> event" where
  "makeEvent uuid now ty payload run correlation =
     (let corr = (case correlation of Some c \<Rightarrow> Some c | None \<Rightarrow> run)
      in \<lparr> ev_id = uuid, ev_type = ty, ev_created = now, ev_payload = payload,
           ev_run = when_truthy run, ev_correlation = when_truthy corr \<rparr>)"

lemma secret_like_example: "secret_like ''monkey-1''" "\<not> secret_like ''task-1''"
  by (simp_all add: secret_like_def to_lower_def lower_char_def)

text \<open>An artifact about a task whose id, or whose summary, contains one of the words is refused, however
  harmless: the check is on the values, not on the member names.\<close>

lemma secret_like_refused:
  "rec_get (art_metadata a) k = Some v \<Longrightarrow> secret_like v \<Longrightarrow>
   ''Artifact metadata must not contain secret-like values'' \<in> set (registry_validate a)"
  using map_of_SomeD[of "art_metadata a" k v] by (force simp: registry_validate_def validateArtifact_def)

end
