(* ===== verification/Project_State.thy ===== *)
theory Project_State
  imports State_Records Evidence Dedup
begin

text \<open>
  \<open>packages/core/src/project-state.ts\<close>: the state of a project, the literals of its Zod
  schemas as a predicate, and the checks across records, \<open>validateProjectState\<close>. What
  Zod itself says (\<open>z_iso\<close>, the meaning of \<open>z.iso.datetime\<close>, and the messages, of which there is
  at least one when a parse fails) is a record of functions, the first argument. Also the
  derived questions of \<open>milestones.ts\<close>.
\<close>

section \<open>Data\<close>

record architecture =
  pa_packageMap :: "string list jsrec"
  pa_subsystemMap :: "string list jsrec"
  pa_unstableAreas :: "string list"
  pa_criticalPaths :: "string list"
  pa_findings :: "arch_finding list"
  pa_analysisSummary :: "string option"

datatype health = Health_Unknown | Health_Passing | Health_Failing

record repo_health =
  rh_build :: health
  rh_tests :: health
  rh_lint :: health
  rh_typecheck :: health

record execution_state =
  ex_activeTask :: "string option"
  ex_activeRun :: "string option"
  ex_completed :: "string list"
  ex_blocked :: "string list"
  ex_retryCounts :: "nat jsrec"
  ex_stepCount :: nat
  ex_runStepLog :: "run_step list"
  ex_dedup :: registry

record project_state =
  ps_revision :: nat
  ps_org :: string
  ps_project :: string
  ps_name :: string
  ps_summary :: string
  ps_milestone :: "string option"
  ps_architecture :: architecture
  ps_discovery :: discovery
  ps_health :: repo_health
  ps_backlog :: backlog
  ps_execution :: execution_state
  ps_milestones :: "milestone jsrec"
  ps_decisions :: "decision_item list"
  ps_failures :: "failure list"
  ps_artifacts :: "artifact list"
  ps_approvals :: "approval list"
  ps_policyDecisions :: "policy_decision list"

section \<open>Schemas\<close>

record zod =
  z_iso :: "stamp \<Rightarrow> bool"
  z_state_messages :: "project_state \<Rightarrow> string \<times> string list"
  z_decision_messages :: "policy_decision \<Rightarrow> string \<times> string list"

abbreviation min1 :: "string \<Rightarrow> bool" where
  "min1 s \<equiv> s \<noteq> []"

definition all_min1 :: "string list \<Rightarrow> bool" where
  "all_min1 xs = (\<forall>x \<in> set xs. min1 x)"

definition opt_min1 :: "string option \<Rightarrow> bool" where
  "opt_min1 x = (case x of None \<Rightarrow> True | Some s \<Rightarrow> min1 s)"

definition opt_iso :: "(stamp \<Rightarrow> bool) \<Rightarrow> stamp option \<Rightarrow> bool" where
  "opt_iso dt x = (case x of None \<Rightarrow> True | Some s \<Rightarrow> dt s)"

definition taskSchema :: "task \<Rightarrow> bool" where
  "taskSchema t = (min1 (task_id t) \<and> min1 (task_feature t) \<and> opt_min1 (task_split_from t) \<and> min1 (task_title t)
     \<and> all_min1 (task_depends t) \<and> all_min1 (task_criteria t) \<and> all_min1 (task_modules t))"

definition epicSchema :: "epic \<Rightarrow> bool" where
  "epicSchema e = (min1 (epic_id e) \<and> min1 (epic_title e) \<and> min1 (epic_goal e) \<and> all_min1 (epic_features e))"

definition featureSchema :: "feature \<Rightarrow> bool" where
  "featureSchema f = (min1 (feature_id f) \<and> min1 (feature_epic f) \<and> min1 (feature_title f)
     \<and> min1 (feature_outcome f) \<and> all_min1 (feature_risks f) \<and> all_min1 (feature_tasks f))"

definition milestoneSchema :: "milestone \<Rightarrow> bool" where
  "milestoneSchema m = (min1 (ms_id m) \<and> min1 (ms_title m) \<and> min1 (ms_goal m) \<and> all_min1 (ms_epics m))"

definition decisionSchema :: "(stamp \<Rightarrow> bool) \<Rightarrow> decision_item \<Rightarrow> bool" where
  "decisionSchema dt d = (min1 (di_id d) \<and> min1 (di_title d) \<and> min1 (di_decision d) \<and> min1 (di_rationale d)
     \<and> all_min1 (di_areas d) \<and> dt (di_created d))"

definition failureSchema :: "(stamp \<Rightarrow> bool) \<Rightarrow> failure \<Rightarrow> bool" where
  "failureSchema dt f = (min1 (fl_id f) \<and> min1 (fl_task f) \<and> min1 (fl_reason f) \<and> all_min1 (fl_symptoms f)
     \<and> all_min1 (fl_bad f) \<and> opt_min1 (fl_run f) \<and> opt_min1 (fl_step f) \<and> opt_iso dt (fl_dead f)
     \<and> opt_iso dt (fl_resumed f) \<and> opt_iso dt (fl_replayed f) \<and> dt (fl_created f))"

definition artifactSchema :: "(stamp \<Rightarrow> bool) \<Rightarrow> artifact \<Rightarrow> bool" where
  "artifactSchema dt a = (min1 (art_id a) \<and> min1 (art_title a) \<and> opt_min1 (art_location a)
     \<and> all_min1 (rec_values (art_metadata a)) \<and> dt (art_created a))"

definition runStepLogEntrySchema :: "(stamp \<Rightarrow> bool) \<Rightarrow> run_step \<Rightarrow> bool" where
  "runStepLogEntrySchema dt s = (min1 (rs_id s) \<and> min1 (rs_tenant s) \<and> min1 (rs_project s) \<and> min1 (rs_run s)
     \<and> min1 (rs_step s) \<and> 0 \<le> rs_attempt s \<and> opt_min1 (rs_task s) \<and> min1 (rs_role s) \<and> opt_min1 (rs_tool s)
     \<and> opt_min1 (rs_policy s) \<and> min1 (rs_key s) \<and> opt_min1 (rs_payload s) \<and> min1 (rs_checksum s)
     \<and> opt_min1 (rs_prev s) \<and> min1 (rs_trace s) \<and> 0 \<le> rs_duration s \<and> dt (rs_created s))"

definition approvalRequestSchema :: "(stamp \<Rightarrow> bool) \<Rightarrow> approval \<Rightarrow> bool" where
  "approvalRequestSchema dt a = (min1 (ar_id a) \<and> min1 (ar_run a) \<and> min1 (ar_task a) \<and> min1 (ar_reason a)
     \<and> all_min1 (rec_values (ar_metadata a)) \<and> dt (ar_created a) \<and> opt_iso dt (ar_approvedAt a)
     \<and> opt_min1 (ar_approvedBy a) \<and> opt_iso dt (ar_rejectedAt a) \<and> opt_min1 (ar_rejectedBy a)
     \<and> opt_min1 (ar_rejectionReason a) \<and> opt_iso dt (ar_resumedAt a) \<and> opt_min1 (ar_resumedBy a)
     \<and> opt_iso dt (ar_completedAt a))"

definition dedupEntrySchema :: "(stamp \<Rightarrow> bool) \<Rightarrow> dedup_entry \<Rightarrow> bool" where
  "dedupEntrySchema dt d = (min1 (de_key d) \<and> min1 (de_owner d) \<and> dt (de_created d) \<and> dt (de_updated d)
     \<and> dt (de_expires d) \<and> opt_min1 (de_policy d) \<and> opt_min1 (de_evidence d))"

definition executionStateSchema :: "(stamp \<Rightarrow> bool) \<Rightarrow> execution_state \<Rightarrow> bool" where
  "executionStateSchema dt e = (opt_min1 (ex_activeTask e) \<and> opt_min1 (ex_activeRun e)
     \<and> all_min1 (ex_completed e) \<and> all_min1 (ex_blocked e)
     \<and> (\<forall>s \<in> set (ex_runStepLog e). runStepLogEntrySchema dt s)
     \<and> (\<forall>d \<in> set (rec_values (ex_dedup e)). dedupEntrySchema dt d))"

definition projectStateDeepSchema :: "zod \<Rightarrow> project_state \<Rightarrow> bool" where
  "projectStateDeepSchema z s =
     (min1 (ps_org s)
      \<and> (\<forall>e \<in> set (rec_values (backlog_epics (ps_backlog s))). epicSchema e)
      \<and> (\<forall>f \<in> set (rec_values (backlog_features (ps_backlog s))). featureSchema f)
      \<and> (\<forall>t \<in> set (rec_values (backlog_tasks (ps_backlog s))). taskSchema t)
      \<and> (\<forall>m \<in> set (rec_values (ps_milestones s)). milestoneSchema m)
      \<and> (\<forall>d \<in> set (ps_decisions s). decisionSchema (z_iso z) d)
      \<and> (\<forall>f \<in> set (ps_failures s). failureSchema (z_iso z) f)
      \<and> (\<forall>a \<in> set (ps_artifacts s). artifactSchema (z_iso z) a)
      \<and> (\<forall>a \<in> set (ps_approvals s). approvalRequestSchema (z_iso z) a)
      \<and> (\<forall>d \<in> set (ps_policyDecisions s). executionPolicyDecisionSchema (z_iso z) d)
      \<and> executionStateSchema (z_iso z) (ps_execution s))"

definition schema_issues :: "zod \<Rightarrow> project_state \<Rightarrow> string list" where
  "schema_issues z s = (if projectStateDeepSchema z s then []
     else fst (z_state_messages z s) # snd (z_state_messages z s))"

definition decision_issues :: "zod \<Rightarrow> policy_decision \<Rightarrow> string list" where
  "decision_issues z d = (if executionPolicyDecisionSchema (z_iso z) d then []
     else fst (z_decision_messages z d) # snd (z_decision_messages z d))"

section \<open>The empty state\<close>

definition createEmptyProjectState :: "string option \<Rightarrow> string \<Rightarrow> string \<Rightarrow> string \<Rightarrow> project_state" where
  "createEmptyProjectState org project name summary =
     \<lparr> ps_revision = 0, ps_org = or_default org ''default-org'', ps_project = project, ps_name = name,
       ps_summary = summary, ps_milestone = None,
       ps_architecture = \<lparr> pa_packageMap = [], pa_subsystemMap = [], pa_unstableAreas = [], pa_criticalPaths = [],
                           pa_findings = [], pa_analysisSummary = None \<rparr>,
       ps_discovery = createEmptyProjectDiscovery,
       ps_health = \<lparr> rh_build = Health_Unknown, rh_tests = Health_Unknown, rh_lint = Health_Unknown,
                     rh_typecheck = Health_Unknown \<rparr>,
       ps_backlog = \<lparr> backlog_epics = [], backlog_features = [], backlog_tasks = [] \<rparr>,
       ps_execution = \<lparr> ex_activeTask = None, ex_activeRun = None, ex_completed = [], ex_blocked = [],
                        ex_retryCounts = [], ex_stepCount = 0, ex_runStepLog = [], ex_dedup = [] \<rparr>,
       ps_milestones = [], ps_decisions = [], ps_failures = [], ps_artifacts = [], ps_approvals = [],
       ps_policyDecisions = [] \<rparr>"

section \<open>Validation\<close>

abbreviation tasks_of :: "project_state \<Rightarrow> task jsrec" where
  "tasks_of s \<equiv> backlog_tasks (ps_backlog s)"

abbreviation features_of :: "project_state \<Rightarrow> feature jsrec" where
  "features_of s \<equiv> backlog_features (ps_backlog s)"

abbreviation epics_of :: "project_state \<Rightarrow> epic jsrec" where
  "epics_of s \<equiv> backlog_epics (ps_backlog s)"

definition feature_task_issues :: "project_state \<Rightarrow> feature \<Rightarrow> string \<Rightarrow> string list" where
  "feature_task_issues s f tid =
     (case rec_get (tasks_of s) tid of
        None \<Rightarrow> [''Feature '' @ feature_id f @ '' references missing task '' @ tid]
      | Some t \<Rightarrow> if task_feature t \<noteq> feature_id f
                 then [''Task '' @ task_id t @ '' featureId does not match feature '' @ feature_id f] else [])"

definition feature_issues :: "project_state \<Rightarrow> feature \<Rightarrow> string list" where
  "feature_issues s f =
     (if rec_get (epics_of s) (feature_epic f) = None
      then [''Feature '' @ feature_id f @ '' references missing epic '' @ feature_epic f] else [])
     @ concat (map (feature_task_issues s f) (feature_tasks f))"

definition epic_issues :: "project_state \<Rightarrow> epic \<Rightarrow> string list" where
  "epic_issues s e = concat (map (\<lambda>fid.
     if rec_get (features_of s) fid = None
     then [''Epic '' @ epic_id e @ '' references missing feature '' @ fid] else []) (epic_features e))"

definition task_issues :: "project_state \<Rightarrow> task \<Rightarrow> string list" where
  "task_issues s t =
     validateBacklogTask t
     @ (case task_split_from t of
          Some p \<Rightarrow> if p \<noteq> [] \<and> rec_get (tasks_of s) p = None
                   then [''Task '' @ task_id t @ '' splitFromTaskId references missing task '' @ p] else []
        | None \<Rightarrow> [])
     @ concat (map (\<lambda>d. if rec_get (tasks_of s) d = None
                        then [''Task '' @ task_id t @ '' depends on missing task '' @ d] else []) (task_depends t))"

definition blocked_issues :: "project_state \<Rightarrow> string \<Rightarrow> string list" where
  "blocked_issues s tid =
     (case rec_get (tasks_of s) tid of
        None \<Rightarrow> [''Blocked task reference is missing: '' @ tid]
      | Some t \<Rightarrow>
          (if task_status t \<noteq> Blocked then [''Blocked task '' @ tid @ '' must have blocked status''] else [])
          @ (let hasFailure = (\<exists>f \<in> set (ps_failures s). fl_task f = tid);
                 hasArtifact = (\<exists>a \<in> set (ps_artifacts s). rec_get (art_metadata a) ''taskId'' = Some tid)
             in if \<not> hasFailure \<and> \<not> hasArtifact
                then [''Blocked task '' @ tid @ '' requires a failure or artifact record''] else []))"

definition completed_issues :: "project_state \<Rightarrow> string \<Rightarrow> string list" where
  "completed_issues s tid =
     (case rec_get (tasks_of s) tid of
        None \<Rightarrow> [''Completed task reference is missing: '' @ tid]
      | Some t \<Rightarrow> if task_status t \<noteq> Done then [''Completed task '' @ tid @ '' must have done status''] else [])"

definition own_decision_issues :: "zod \<Rightarrow> project_state \<Rightarrow> policy_decision \<Rightarrow> string list" where
  "own_decision_issues z s d = validateExecutionPolicyDecision (decision_issues z) d
     \<lparr> dc_tenantId = Some (ps_org s), dc_projectId = Some (ps_project s), dc_runId = Some (pd_runId d) \<rparr>"

definition validateProjectState :: "zod \<Rightarrow> project_state \<Rightarrow> string list" where
  "validateProjectState z s =
     schema_issues z s
     @ validateProjectDiscovery (ps_discovery s)
     @ concat (map validateArchitectureFinding (pa_findings (ps_architecture s)))
     @ concat (map (own_decision_issues z s) (ps_policyDecisions s))
     @ (case pa_analysisSummary (ps_architecture s) of
          Some t \<Rightarrow> if blank t then [''Architecture analysisSummary must not be empty when present''] else []
        | None \<Rightarrow> [])
     @ (case ps_milestone s of
          Some m \<Rightarrow> if m \<noteq> [] \<and> rec_get (ps_milestones s) m = None
                   then [''currentMilestoneId references missing milestone: '' @ m] else []
        | None \<Rightarrow> [])
     @ (case ex_activeTask (ps_execution s) of
          Some t \<Rightarrow> if t \<noteq> [] \<and> rec_get (tasks_of s) t = None
                   then [''activeTaskId references missing task: '' @ t] else []
        | None \<Rightarrow> [])
     @ concat (map (feature_issues s) (rec_values (features_of s)))
     @ concat (map (epic_issues s) (rec_values (epics_of s)))
     @ concat (map (task_issues s) (rec_values (tasks_of s)))
     @ (if length (filter (\<lambda>m. ms_status m = Mile_In_Progress) (rec_values (ps_milestones s))) > 1
        then [''Only one milestone may be in_progress''] else [])
     @ concat (map (blocked_issues s) (ex_blocked (ps_execution s)))
     @ concat (map (completed_issues s) (ex_completed (ps_execution s)))"

definition assertProjectState :: "zod \<Rightarrow> project_state \<Rightarrow> unit result" where
  "assertProjectState z s =
     (let issues = validateProjectState z s in
      if issues = [] then Inr () else Inl (Js_Error StateIntegrityError ''Project state failed validation'' issues))"

section \<open>Milestones\<close>

definition getActiveMilestone :: "project_state \<Rightarrow> milestone option" where
  "getActiveMilestone s =
     (case ps_milestone s of None \<Rightarrow> None | Some m \<Rightarrow> if m = [] then None else rec_get (ps_milestones s) m)"

definition canEnterMilestone :: "project_state \<Rightarrow> milestone \<Rightarrow> bool" where
  "canEnterMilestone s m = (\<forall>c \<in> set (ms_entry m). 0 < length (js_trim c))"

definition milestone_tasks :: "project_state \<Rightarrow> milestone \<Rightarrow> string list" where
  "milestone_tasks s m =
     (let fids = concat (map (\<lambda>e. case rec_get (epics_of s) e of None \<Rightarrow> [] | Some ep \<Rightarrow> epic_features ep) (ms_epics m))
      in concat (map (\<lambda>f. case rec_get (features_of s) f of None \<Rightarrow> [] | Some ft \<Rightarrow> feature_tasks ft) fids))"

definition isMilestoneComplete :: "project_state \<Rightarrow> milestone \<Rightarrow> bool" where
  "isMilestoneComplete s m =
     (0 < length (ms_exit m) \<and> (\<forall>t \<in> set (milestone_tasks s m). t \<in> set (ex_completed (ps_execution s))))"

section \<open>What a valid state guarantees\<close>

definition valid_state :: "zod \<Rightarrow> project_state \<Rightarrow> bool" where
  "valid_state z s \<longleftrightarrow> validateProjectState z s = []"

lemma assertProjectState_ok: "assertProjectState z s = Inr u \<longleftrightarrow> valid_state z s"
  by (simp add: assertProjectState_def valid_state_def Let_def)

lemma concat_map_Nil: "concat (map f xs) = [] \<longleftrightarrow> (\<forall>x \<in> set xs. f x = [])"
  by (induction xs) auto

lemma own_decision_issues_Nil:
  "own_decision_issues z s d = [] \<longleftrightarrow>
     executionPolicyDecisionSchema (z_iso z) d \<and> pd_tenantId d = ps_org s \<and> pd_projectId d = ps_project s"
  by (auto simp: own_decision_issues_def validateExecutionPolicyDecision_def decision_issues_def)

lemma task_issues_Nil:
  "task_issues s t = [] \<longleftrightarrow> validateBacklogTask t = []
     \<and> (\<forall>p. task_split_from t = Some p \<and> p \<noteq> [] \<longrightarrow> rec_has (tasks_of s) p)
     \<and> (\<forall>d \<in> set (task_depends t). rec_has (tasks_of s) d)"
proof -
  have deps: "concat (map (\<lambda>d. if rec_get (tasks_of s) d = None
      then [''Task '' @ task_id t @ '' depends on missing task '' @ d] else []) (task_depends t)) = []
    \<longleftrightarrow> (\<forall>d \<in> set (task_depends t). rec_has (tasks_of s) d)"
    unfolding concat_map_Nil by (auto simp: rec_has_def)
  show ?thesis unfolding task_issues_def append_is_Nil_conv deps by (auto simp: rec_has_def split: option.splits)
qed

lemma feature_issues_Nil:
  "feature_issues s f = [] \<longleftrightarrow> rec_has (epics_of s) (feature_epic f)
     \<and> (\<forall>tid \<in> set (feature_tasks f). \<exists>t. rec_get (tasks_of s) tid = Some t \<and> task_feature t = feature_id f)"
  by (auto simp: feature_issues_def feature_task_issues_def rec_has_def concat_map_Nil split: option.splits if_splits)

lemma epic_issues_Nil: "epic_issues s e = [] \<longleftrightarrow> (\<forall>f \<in> set (epic_features e). rec_has (features_of s) f)"
  unfolding epic_issues_def concat_map_Nil by (auto simp: rec_has_def)

lemma blocked_issues_Nil:
  "blocked_issues s tid = [] \<longleftrightarrow> (\<exists>t. rec_get (tasks_of s) tid = Some t \<and> task_status t = Blocked)
     \<and> ((\<exists>f \<in> set (ps_failures s). fl_task f = tid)
        \<or> (\<exists>a \<in> set (ps_artifacts s). rec_get (art_metadata a) ''taskId'' = Some tid))"
  by (auto simp: blocked_issues_def Let_def split: option.splits if_splits)

lemma completed_issues_Nil:
  "completed_issues s tid = [] \<longleftrightarrow> (\<exists>t. rec_get (tasks_of s) tid = Some t \<and> task_status t = Done)"
  by (auto simp: completed_issues_def split: option.splits if_splits)

text \<open>The check as a conjunction, one conjunct per part of the source.\<close>

lemma valid_state_iff:
  "valid_state z s \<longleftrightarrow>
     projectStateDeepSchema z s
   \<and> validateProjectDiscovery (ps_discovery s) = []
   \<and> (\<forall>f \<in> set (pa_findings (ps_architecture s)). validateArchitectureFinding f = [])
   \<and> (\<forall>d \<in> set (ps_policyDecisions s). pd_tenantId d = ps_org s \<and> pd_projectId d = ps_project s)
   \<and> (\<forall>t. pa_analysisSummary (ps_architecture s) = Some t \<longrightarrow> \<not> blank t)
   \<and> (\<forall>m. ps_milestone s = Some m \<and> m \<noteq> [] \<longrightarrow> rec_has (ps_milestones s) m)
   \<and> (\<forall>t. ex_activeTask (ps_execution s) = Some t \<and> t \<noteq> [] \<longrightarrow> rec_has (tasks_of s) t)
   \<and> (\<forall>f \<in> set (rec_values (features_of s)). feature_issues s f = [])
   \<and> (\<forall>e \<in> set (rec_values (epics_of s)). epic_issues s e = [])
   \<and> (\<forall>t \<in> set (rec_values (tasks_of s)). task_issues s t = [])
   \<and> length (filter (\<lambda>m. ms_status m = Mile_In_Progress) (rec_values (ps_milestones s))) \<le> 1
   \<and> (\<forall>t \<in> set (ex_blocked (ps_execution s)). blocked_issues s t = [])
   \<and> (\<forall>t \<in> set (ex_completed (ps_execution s)). completed_issues s t = [])"
proof -
  have sch: "schema_issues z s = [] \<longleftrightarrow> projectStateDeepSchema z s" by (simp add: schema_issues_def)
  have dec: "projectStateDeepSchema z s \<Longrightarrow>
      (\<forall>d \<in> set (ps_policyDecisions s). own_decision_issues z s d = []) \<longleftrightarrow>
      (\<forall>d \<in> set (ps_policyDecisions s). pd_tenantId d = ps_org s \<and> pd_projectId d = ps_project s)"
    by (auto simp: own_decision_issues_Nil projectStateDeepSchema_def)
  have summ: "(case pa_analysisSummary (ps_architecture s) of
          Some t \<Rightarrow> if blank t then [''Architecture analysisSummary must not be empty when present''] else []
        | None \<Rightarrow> []) = [] \<longleftrightarrow> (\<forall>t. pa_analysisSummary (ps_architecture s) = Some t \<longrightarrow> \<not> blank t)"
    by (auto split: option.splits)
  have mile: "(case ps_milestone s of
          Some m \<Rightarrow> if m \<noteq> [] \<and> rec_get (ps_milestones s) m = None
                   then [''currentMilestoneId references missing milestone: '' @ m] else []
        | None \<Rightarrow> []) = [] \<longleftrightarrow> (\<forall>m. ps_milestone s = Some m \<and> m \<noteq> [] \<longrightarrow> rec_has (ps_milestones s) m)"
    by (auto simp: rec_has_def split: option.splits)
  have act: "(case ex_activeTask (ps_execution s) of
          Some t \<Rightarrow> if t \<noteq> [] \<and> rec_get (tasks_of s) t = None
                   then [''activeTaskId references missing task: '' @ t] else []
        | None \<Rightarrow> []) = [] \<longleftrightarrow> (\<forall>t. ex_activeTask (ps_execution s) = Some t \<and> t \<noteq> [] \<longrightarrow> rec_has (tasks_of s) t)"
    by (auto simp: rec_has_def split: option.splits)
  show ?thesis
    unfolding valid_state_def validateProjectState_def append_is_Nil_conv concat_map_Nil sch summ mile act
    using dec by (auto split: if_splits)
qed

text \<open>The empty state is valid for a non-empty organisation id.\<close>

lemma valid_empty_state: "org \<noteq> Some [] \<Longrightarrow> valid_state z (createEmptyProjectState org p n d)"
  by (cases org) (simp_all add: valid_state_iff createEmptyProjectState_def projectStateDeepSchema_def executionStateSchema_def
      createEmptyProjectDiscovery_def validateProjectDiscovery_def all_min1_def opt_min1_def blank_iff is_space_def)

lemma valid_state_revision [simp]: "valid_state z (s\<lparr>ps_revision := r\<rparr>) \<longleftrightarrow> valid_state z s"
  unfolding valid_state_iff
  by (simp add: projectStateDeepSchema_def feature_issues_Nil epic_issues_Nil task_issues_Nil blocked_issues_Nil
      completed_issues_Nil)

end
