(* ===== verification/Workflow.thy ===== *)
theory Workflow
  imports Project_State
begin

text \<open>
  The workflow's policies: \<open>packages/workflow/src/policies.ts\<close> (when a run stops, which task comes
  next, who executes it, what a failure leads to) and \<open>workflow-stage.ts\<close>. \<open>lc\<close> is
  \<open>localeCompare\<close>.
\<close>

section \<open>When a run stops\<close>

record run_limits =
  rl_maxSteps :: nat
  rl_maxRetries :: nat

definition retries_of :: "project_state \<Rightarrow> string \<Rightarrow> nat" where
  "retries_of s tid = or_default (rec_get (ex_retryCounts (ps_execution s)) tid) 0"

definition shouldStopRun :: "project_state \<Rightarrow> run_limits \<Rightarrow> string option" where
  "shouldStopRun s limits =
     (if rl_maxSteps limits \<le> ex_stepCount (ps_execution s) then Some ''max_steps_per_run_reached''
      else if truthy (ex_activeTask (ps_execution s))
              \<and> rl_maxRetries limits \<le> retries_of s (the (ex_activeTask (ps_execution s)))
      then Some ''max_retries_reached''
      else None)"

section \<open>Which task comes next\<close>

definition boolean_number :: "bool \<Rightarrow> int" where
  "boolean_number b = (if b then 1 else 0)"

definition task_order :: "string cmp \<Rightarrow> project_state \<Rightarrow> task cmp" where
  "task_order lc s =
     then_cmp (flip_cmp (key_cmp (\<lambda>t. priorityWeight (task_priority t))))
    (then_cmp (flip_cmp (key_cmp (\<lambda>t. boolean_number (truthy (task_split_from t)))))
    (then_cmp (key_cmp (\<lambda>t. int (retries_of s (task_id t))))
              (on_cmp task_id lc)))"

definition executable :: "project_state \<Rightarrow> task \<Rightarrow> bool" where
  "executable s t = isExecutableTask (ex_completed (ps_execution s)) (ex_blocked (ps_execution s)) t"

definition selectNextTask :: "string cmp \<Rightarrow> project_state \<Rightarrow> task option" where
  "selectNextTask lc s =
     (case sort_by (task_order lc s) (filter (executable s) (rec_values (tasks_of s))) of
        [] \<Rightarrow> None | t # _ \<Rightarrow> Some t)"

lemma comparator_task_order: "comparator lc \<Longrightarrow> comparator (task_order lc s)"
  unfolding task_order_def
  by (intro comparator_then comparator_flip comparator_key comparator_on)

lemma task_order_le:
  "task_order lc s t u \<le> 0 \<longleftrightarrow>
     priorityWeight (task_priority u) < priorityWeight (task_priority t)
   \<or> priorityWeight (task_priority u) = priorityWeight (task_priority t)
     \<and> (boolean_number (truthy (task_split_from u)) < boolean_number (truthy (task_split_from t))
        \<or> boolean_number (truthy (task_split_from u)) = boolean_number (truthy (task_split_from t))
          \<and> (retries_of s (task_id t) < retries_of s (task_id u)
             \<or> retries_of s (task_id t) = retries_of s (task_id u) \<and> lc (task_id t) (task_id u) \<le> 0))"
  by (auto simp: task_order_def then_cmp_def flip_cmp_def key_cmp_def on_cmp_def)

section \<open>Who executes a task, and what follows\<close>

definition routeTaskToRole :: "task \<Rightarrow> agent_role" where
  "routeTaskToRole t = (case task_kind t of
      task_kind.Architecture \<Rightarrow> Architect
    | task_kind.Planning \<Rightarrow> Planner
    | task_kind.Documentation \<Rightarrow> Docs_Writer
    | task_kind.Testing \<Rightarrow> Tester
    | _ \<Rightarrow> Coder)"

definition requiresReview :: "task \<Rightarrow> bool" where
  "requiresReview t = (task_kind t \<noteq> task_kind.Documentation)"

definition requiresTesting :: "task \<Rightarrow> bool" where
  "requiresTesting t = (task_kind t = task_kind.Implementation \<or> task_kind t = task_kind.Testing)"

datatype failure_action = Retry_Action | Split_Action | Block_Action

definition nextFailureAction :: "task \<Rightarrow> nat \<Rightarrow> nat \<Rightarrow> failure_action" where
  "nextFailureAction t retryCount maxRetries =
     (if retryCount + 1 < maxRetries then Retry_Action
      else if truthy (task_split_from t) then Block_Action else Split_Action)"

definition isReviewApproved :: "review_result \<Rightarrow> bool" where
  "isReviewApproved r = isApproved r"

section \<open>Stages\<close>

datatype workflow_stage =
    Stage_Select_Task | Stage_Generate_Prompt | Stage_Execute_Role | Stage_Review | Stage_Test
  | Stage_Commit | Stage_Complete | Stage_Blocked

fun allowedTransitions :: "workflow_stage \<Rightarrow> workflow_stage list" where
  "allowedTransitions Stage_Select_Task = [Stage_Generate_Prompt, Stage_Blocked]"
| "allowedTransitions Stage_Generate_Prompt = [Stage_Execute_Role, Stage_Blocked]"
| "allowedTransitions Stage_Execute_Role = [Stage_Review, Stage_Test, Stage_Blocked]"
| "allowedTransitions Stage_Review = [Stage_Test, Stage_Blocked]"
| "allowedTransitions Stage_Test = [Stage_Commit, Stage_Blocked]"
| "allowedTransitions Stage_Commit = [Stage_Complete, Stage_Blocked]"
| "allowedTransitions Stage_Complete = []"
| "allowedTransitions Stage_Blocked = []"

definition canTransitionStage :: "workflow_stage \<Rightarrow> workflow_stage \<Rightarrow> bool" where
  "canTransitionStage a b = (b \<in> set (allowedTransitions a))"

inductive stage_run :: "workflow_stage \<Rightarrow> workflow_stage list \<Rightarrow> workflow_stage \<Rightarrow> bool" where
  stay: "stage_run a [] a"
| move: "canTransitionStage a b \<Longrightarrow> stage_run b bs c \<Longrightarrow> stage_run a (b # bs) c"

inductive_cases stage_runE: "stage_run a bs c"

fun stage_rank :: "workflow_stage \<Rightarrow> nat" where
  "stage_rank Stage_Select_Task = 6"
| "stage_rank Stage_Generate_Prompt = 5"
| "stage_rank Stage_Execute_Role = 4"
| "stage_rank Stage_Review = 3"
| "stage_rank Stage_Test = 2"
| "stage_rank Stage_Commit = 1"
| "stage_rank Stage_Complete = 0"
| "stage_rank Stage_Blocked = 0"

lemma stage_rank_decreases: "canTransitionStage a b \<Longrightarrow> stage_rank b < stage_rank a"
  by (cases a) (auto simp: canTransitionStage_def)

lemma stage_run_bounded: "stage_run a bs c \<Longrightarrow> length bs + stage_rank c \<le> stage_rank a"
  by (induction rule: stage_run.induct) (auto dest: stage_rank_decreases)

lemma stage_complete_passes_commit:
  "stage_run a bs c \<Longrightarrow> c = Stage_Complete \<Longrightarrow> a \<noteq> Stage_Complete \<Longrightarrow> a \<noteq> Stage_Commit \<Longrightarrow>
   Stage_Commit \<in> set bs \<and> (a \<noteq> Stage_Test \<longrightarrow> Stage_Test \<in> set bs)"
proof (induction rule: stage_run.induct)
  case (move a b bs c)
  show ?case using move.hyps(1) move.IH move.prems
    by (cases a; cases b) (auto simp: canTransitionStage_def elim: stage_runE)
qed simp

section \<open>Properties\<close>

text \<open>C11. Task selection. \<open>selectNextTask\<close> returns a task exactly when one is executable. The task it returns is
  an executable one of the backlog with all its dependencies completed, and it comes before every other executable
  task in the documented order: higher priority first, then children of a split task, then fewer
  retries, then the id. \<open>localeCompare\<close> need only be a comparator.\<close>

theorem selectNextTask_optimal:
  assumes "comparator lc"
  shows "case selectNextTask lc s of
      None \<Rightarrow> \<forall>t \<in> set (rec_values (tasks_of s)). \<not> executable s t
    | Some t \<Rightarrow> t \<in> set (rec_values (tasks_of s)) \<and> executable s t \<and> task_status t = Todo
        \<and> (\<forall>d \<in> set (task_depends t). d \<in> set (ex_completed (ps_execution s)))
        \<and> (\<forall>u \<in> set (rec_values (tasks_of s)). executable s u \<longrightarrow>
             task_priority u < task_priority t
             \<or> task_priority u = task_priority t
               \<and> (\<not> truthy (task_split_from u) \<and> truthy (task_split_from t)
                  \<or> truthy (task_split_from u) = truthy (task_split_from t)
                    \<and> (retries_of s (task_id t) < retries_of s (task_id u)
                       \<or> retries_of s (task_id t) = retries_of s (task_id u) \<and> lc (task_id t) (task_id u) \<le> 0)))"
proof (cases "sort_by (task_order lc s) (filter (executable s) (rec_values (tasks_of s)))")
  case Nil
  then show ?thesis by (auto simp: selectNextTask_def filter_empty_conv)
next
  case (Cons t ts)
  have t: "t \<in> set (filter (executable s) (rec_values (tasks_of s)))"
    using Cons by (metis list.set_intros(1) set_sort_by)
  have w: "priorityWeight p < priorityWeight q \<longleftrightarrow> p < q" "priorityWeight p = priorityWeight q \<longleftrightarrow> p = q" for p q
    by (cases p; cases q; simp add: less_priority_def)+
  have b: "boolean_number x < boolean_number y \<longleftrightarrow> \<not> x \<and> y" "boolean_number x = boolean_number y \<longleftrightarrow> x = y" for x y
    by (auto simp: boolean_number_def)
  have le: "task_order lc s t u \<le> 0" if "u \<in> set (rec_values (tasks_of s))" "executable s u" for u
    using comparator.sort_by_head_least[OF comparator_task_order[OF assms] Cons, of u] that by simp
  have "task_status t = Todo" "\<forall>d \<in> set (task_depends t). d \<in> set (ex_completed (ps_execution s))"
    using t by (auto simp: executable_def isExecutableTask_def split: if_splits)
  then show ?thesis
    using t le unfolding selectNextTask_def Cons task_order_le w b by auto
qed

definition sample_task :: "string \<Rightarrow> priority \<Rightarrow> task" where
  "sample_task i p = \<lparr> task_id = i, task_feature = ''f'', task_split_from = None, task_title = ''t'',
     task_kind = task_kind.Implementation, task_status = Todo, task_priority = p, task_depends = [],
     task_criteria = [''c''], task_modules = [], task_risk = Risk_Low \<rparr>"

definition sample_state :: project_state where
  "sample_state = (createEmptyProjectState (Some ''org'') ''p'' ''P'' ''s'')
     \<lparr> ps_backlog := \<lparr> backlog_epics = [], backlog_features = [],
         backlog_tasks = [(''t1'', sample_task ''t1'' P2), (''t2'', sample_task ''t2'' P0), (''t3'', sample_task ''t3'' P0)] \<rparr> \<rparr>"

theorem selectNextTask_optimal_witness: "selectNextTask code_unit_compare sample_state = Some (sample_task ''t2'' P0)"
proof -
  have ex: "executable sample_state (sample_task i p)" for i p
    by (simp add: executable_def isExecutableTask_def sample_state_def sample_task_def createEmptyProjectState_def
        validateBacklogTask_def)
  have retries: "retries_of sample_state i = 0" for i
    by (simp add: retries_of_def sample_state_def createEmptyProjectState_def)
  have tasks: "rec_values (tasks_of sample_state) = [sample_task ''t1'' P2, sample_task ''t2'' P0, sample_task ''t3'' P0]"
    by (simp add: sample_state_def)
  show ?thesis
    using selectNextTask_optimal[OF code_units.comparator_axioms, of sample_state] ex
    by (auto simp: tasks retries sample_task_def less_priority_def split: option.splits)
qed

text \<open>A stage run that reaches \<open>complete\<close> from \<open>select_task\<close> takes at most six transitions and passes
  the test and the commit stage; nothing leaves \<open>complete\<close> or \<open>blocked\<close>.\<close>

theorem stage_runs_terminate:
  "(stage_run Stage_Select_Task bs c \<longrightarrow> length bs + stage_rank c \<le> 6)
   \<and> (stage_run Stage_Select_Task bs Stage_Complete \<longrightarrow> Stage_Test \<in> set bs \<and> Stage_Commit \<in> set bs)
   \<and> \<not> canTransitionStage Stage_Complete c \<and> \<not> canTransitionStage Stage_Blocked c"
  using stage_run_bounded[of Stage_Select_Task bs c] stage_complete_passes_commit[of Stage_Select_Task bs Stage_Complete]
  by (auto simp: canTransitionStage_def)

theorem stage_runs_terminate_witness:
  "Stage_Test \<in> set [Stage_Generate_Prompt, Stage_Execute_Role, Stage_Test, Stage_Commit, Stage_Complete]"
proof -
  have "stage_run Stage_Select_Task
      [Stage_Generate_Prompt, Stage_Execute_Role, Stage_Test, Stage_Commit, Stage_Complete] Stage_Complete"
    by (intro stage_run.intros) (simp_all add: canTransitionStage_def)
  then show ?thesis using stage_runs_terminate by blast
qed

text \<open>A superseded task of a milestone's feature keeps the milestone open: it is never completed, and its children
  do not replace it in the feature's list.\<close>

lemma milestone_open:
  "t \<in> set (milestone_tasks s m) \<Longrightarrow> t \<notin> set (ex_completed (ps_execution s)) \<Longrightarrow> \<not> isMilestoneComplete s m"
  by (auto simp: isMilestoneComplete_def)

end
