(* ===== verification/State_Store.thy ===== *)
theory State_Store
  imports Workflow Effects Locks
begin

text \<open>
  The state store: \<open>packages/state/src/StateStore.ts\<close>, \<open>revision.ts\<close>, \<open>failure-record.ts\<close> and
  \<open>in-memory/InMemoryStateStore.ts\<close>. Mutations run one at a time through \<open>enqueueMutation\<close>, so
  each is one action on the store; \<open>structuredClone\<close> makes the stored state a value of its own.
  \<open>commitSnapshot\<close> also writes the new revision into the object it was given: callers that go on with that
  object set \<open>ps_revision\<close> from the result. The locale \<open>state_store\<close> states what
  clients rely on; the store itself and the lease-protected one of
  \<open>packages/execution/src/leases/lease-protected-state-store.ts\<close> meet it.
\<close>

section \<open>The in-memory store\<close>

record store =
  st_state :: project_state
  st_events :: "event list"

definition expectedRevisionFor :: "project_state \<Rightarrow> int option \<Rightarrow> int result" where
  "expectedRevisionFor s expected =
     (let e = or_default expected (int (ps_revision s)) in
      if e < 0 then Inl (Js_Error StateStoreError ''Invalid state revision expectation''
                       [''INVALID_STATE_REVISION'', int_to_string e])
      else Inr e)"

definition stateRevisionConflict :: "int \<Rightarrow> nat \<Rightarrow> js_error" where
  "stateRevisionConflict expected current =
     Js_Error StateStoreError ''State revision conflict''
       [''STATE_REVISION_CONFLICT'', int_to_string expected, nat_to_string current]"

definition commitSnapshot :: "zod \<Rightarrow> project_state \<Rightarrow> int option \<Rightarrow> event list \<Rightarrow> (store, nat) act" where
  "commitSnapshot z s expected evs =
     thenA (liftA (assertProjectState z s))
    (bindA (liftA (expectedRevisionFor s expected)) (\<lambda>e.
     bindA (getA (\<lambda>st. ps_revision (st_state st))) (\<lambda>cur.
       if e \<noteq> int cur then throw (stateRevisionConflict e cur)
       else let nxt = s\<lparr>ps_revision := cur + 1\<rparr> in
         thenA (liftA (assertProjectState z nxt))
        (thenA (modA (\<lambda>st. st\<lparr>st_state := nxt, st_events := st_events st @ evs\<rparr>))
               (ret (cur + 1))))))"

definition store_new :: "zod \<Rightarrow> project_state \<Rightarrow> store result" where
  "store_new z s = (case assertProjectState z s of Inl e \<Rightarrow> Inl e
                    | Inr _ \<Rightarrow> Inr \<lparr> st_state = s, st_events = [] \<rparr>)"

definition load :: "(store, project_state) act" where
  "load = getA st_state"

definition save :: "zod \<Rightarrow> project_state \<Rightarrow> int option \<Rightarrow> (store, nat) act" where
  "save z s expected = commitSnapshot z s expected []"

definition saveWithEvents :: "zod \<Rightarrow> project_state \<Rightarrow> event list \<Rightarrow> int option \<Rightarrow> (store, nat) act" where
  "saveWithEvents z s evs expected = commitSnapshot z s expected evs"

definition slice :: "nat \<Rightarrow> nat \<Rightarrow> 'a list \<Rightarrow> 'a list" where
  "slice from until xs = take (until - from) (drop from xs)"

definition listEvents :: "nat option \<Rightarrow> nat option \<Rightarrow> event_type option \<Rightarrow> (store, event list) act" where
  "listEvents limit offset ty = getA (\<lambda>st.
     let filtered = (case ty of Some t \<Rightarrow> filter (\<lambda>e. ev_type e = t) (st_events st) | None \<Rightarrow> st_events st);
         off = or_default offset 0; lim = or_default limit 50
     in slice off (off + lim) (newest_first ev_created filtered))"

record steps_query =
  sq_run :: "string option"
  sq_task :: "string option"
  sq_limit :: "nat option"
  sq_offset :: "nat option"

definition matching_steps :: "steps_query \<Rightarrow> run_step list \<Rightarrow> run_step list" where
  "matching_steps q = filter (\<lambda>s. \<not> (truthy (sq_run q) \<and> Some (rs_run s) \<noteq> sq_run q)
                                \<and> \<not> (truthy (sq_task q) \<and> rs_task s \<noteq> sq_task q))"

definition listRunSteps :: "(string \<Rightarrow> string) \<Rightarrow> steps_query \<Rightarrow> (store, run_step list) act" where
  "listRunSteps sha q = bindA load (\<lambda>s.
     let filtered = matching_steps q (ex_runStepLog (ps_execution s));
         issues = (if truthy (sq_run q) then verifyRunStepEvidenceChain sha filtered else []);
         off = or_default (sq_offset q) 0; lim = or_default (sq_limit q) 50
     in if issues \<noteq> [] then throw (Js_Error StateStoreError ''EVIDENCE_INTEGRITY_VIOLATION'' (the (sq_run q) # issues))
        else ret (slice off (off + lim) (newest_first rs_created filtered)))"

definition recordEvent :: "event \<Rightarrow> (store, unit) act" where
  "recordEvent e = modA (\<lambda>st. st\<lparr>st_events := st_events st @ [e]\<rparr>)"

definition recordFailure ::
  "zod \<Rightarrow> string \<Rightarrow> stamp \<Rightarrow> failure_input \<Rightarrow> int option \<Rightarrow> (store, failure \<times> nat \<times> nat) act" where
  "recordFailure z uuid now i expected = bindA load (\<lambda>cur.
     if \<not> rec_has (tasks_of cur) (fi_task i)
     then throw (Js_Error StateStoreError (''Cannot record failure for missing task '' @ fi_task i) [])
     else let f = buildFailureRecord uuid now i;
              n = retries_of cur (fi_task i) + 1;
              cur' = cur\<lparr> ps_failures := ps_failures cur @ [f],
                          ps_execution := (ps_execution cur)\<lparr>ex_retryCounts := rec_set (fi_task i) n (ex_retryCounts (ps_execution cur))\<rparr> \<rparr>
          in bindA (commitSnapshot z cur' expected []) (\<lambda>r. ret (f, n, r)))"

definition artifact_error :: "artifact \<Rightarrow> string list \<Rightarrow> js_error" where
  "artifact_error a issues =
     Js_Error StateStoreError ''Artifact schema validation failed'' (artifact_type_text (art_type a) # issues)"

definition recordArtifact :: "zod \<Rightarrow> artifact \<Rightarrow> int option \<Rightarrow> (store, nat) act" where
  "recordArtifact z a expected =
     (let issues = registry_validate a in
      if issues \<noteq> [] then throw (artifact_error a issues)
      else bindA load (\<lambda>cur.
        commitSnapshot z (if \<exists>x \<in> set (ps_artifacts cur). art_id x = art_id a then cur
                          else cur\<lparr>ps_artifacts := ps_artifacts cur @ [a]\<rparr>) expected []))"

definition recordDecision :: "zod \<Rightarrow> decision_item \<Rightarrow> int option \<Rightarrow> (store, nat) act" where
  "recordDecision z d expected = bindA load (\<lambda>cur.
     commitSnapshot z (cur\<lparr>ps_decisions := ps_decisions cur @ [d]\<rparr>) expected [])"

definition recordPolicyDecision :: "zod \<Rightarrow> policy_decision \<Rightarrow> int option \<Rightarrow> (store, nat) act" where
  "recordPolicyDecision z d expected = bindA load (\<lambda>cur.
     commitSnapshot z (cur\<lparr>ps_policyDecisions := ps_policyDecisions cur @ [d]\<rparr>) expected [])"

definition getPolicyDecision :: "string \<Rightarrow> string \<Rightarrow> int \<Rightarrow> action_type \<Rightarrow> (store, policy_decision option) act" where
  "getPolicyDecision run step attempt action = bindA load (\<lambda>cur.
     ret (find (\<lambda>d. pd_runId d = run \<and> pd_stepId d = step \<and> pd_attempt d = attempt \<and> pd_actionType d = action)
               (rev (ps_policyDecisions cur))))"

definition previous_entry :: "run_step \<Rightarrow> run_step list \<Rightarrow> run_step option" where
  "previous_entry s entries =
     (case newest_first rs_created (filter (\<lambda>e. rs_run e = rs_run s \<and> rs_step e = rs_step s \<and> rs_attempt e = rs_attempt s) entries) of
        [] \<Rightarrow> None | e # _ \<Rightarrow> Some e)"

definition append_step :: "run_step \<Rightarrow> project_state \<Rightarrow> project_state" where
  "append_step step s = s\<lparr>ps_execution := (ps_execution s)\<lparr>ex_runStepLog := ex_runStepLog (ps_execution s) @ [step]\<rparr>\<rparr>"

definition recordRunStep :: "zod \<Rightarrow> run_step \<Rightarrow> (store, nat) act" where
  "recordRunStep z step = bindA load (\<lambda>cur.
     if rs_tenant step \<noteq> ps_org cur \<or> rs_project step \<noteq> ps_project cur
     then throw (Js_Error StateStoreError ''TENANT_PARTITION_GUARD_VIOLATION''
                   [ps_org cur, ps_project cur, rs_tenant step, rs_project step])
     else thenA (liftA (assertRunStepTransitionAllowed
                    (map_option rs_status (previous_entry step (ex_runStepLog (ps_execution cur))))
                    (rs_status step) (rs_run step) (rs_step step) (rs_attempt step) (rs_id step)))
         (let cur' = append_step step cur in
          thenA (liftA (assertProjectState z cur'))
         (thenA (modA (\<lambda>st. st\<lparr>st_state := cur'\<rparr>)) (ret (ps_revision cur')))))"

definition mark_done :: "string \<Rightarrow> project_state \<Rightarrow> project_state" where
  "mark_done tid s =
     (case rec_get (tasks_of s) tid of
        None \<Rightarrow> s
      | Some t \<Rightarrow> s\<lparr> ps_backlog := (ps_backlog s)\<lparr>backlog_tasks := rec_set tid (t\<lparr>task_status := Done\<rparr>) (tasks_of s)\<rparr>,
                     ps_execution := (ps_execution s)\<lparr>
                        ex_completed := (if tid \<in> set (ex_completed (ps_execution s)) then ex_completed (ps_execution s)
                                         else ex_completed (ps_execution s) @ [tid]),
                        ex_activeTask := None\<rparr> \<rparr>)"

definition markTaskDone :: "zod \<Rightarrow> string \<Rightarrow> stamp \<Rightarrow> string \<Rightarrow> string \<Rightarrow> int option \<Rightarrow> (store, nat) act" where
  "markTaskDone z uuid now tid summary expected = bindA load (\<lambda>cur.
     if \<not> rec_has (tasks_of cur) tid
     then throw (Js_Error StateStoreError (''Cannot mark missing task '' @ tid @ '' as done'') [])
     else let a = \<lparr> art_id = uuid, art_type = Run_Summary, art_title = ''Task '' @ tid @ '' completion summary'',
                    art_location = None, art_metadata = [(''taskId'', tid), (''summary'', summary)], art_created = now \<rparr>;
              issues = registry_validate a;
              cur' = mark_done tid cur
          in if issues \<noteq> [] then throw (artifact_error a issues)
             else commitSnapshot z (cur'\<lparr>ps_artifacts := ps_artifacts cur' @ [a]\<rparr>) expected [])"

section \<open>Calls and their effects\<close>

lemmas store_unfold = load_def save_def saveWithEvents_def recordEvent_def recordFailure_def recordArtifact_def
  recordDecision_def recordPolicyDecision_def markTaskDone_def Let_def

lemma commitSnapshot_Inr:
  "commitSnapshot z s expected evs st = (Inr r, st') \<longleftrightarrow>
     valid_state z s \<and> or_default expected (int (ps_revision s)) = int (ps_revision (st_state st))
     \<and> r = ps_revision (st_state st) + 1
     \<and> st' = st\<lparr>st_state := s\<lparr>ps_revision := ps_revision (st_state st) + 1\<rparr>, st_events := st_events st @ evs\<rparr>"
proof -
  have a: "assertProjectState z x = (if valid_state z x then Inr () else assertProjectState z x)" for x
    using assertProjectState_ok[of z x "()"] by simp
  have bad: "\<not> valid_state z x \<Longrightarrow> \<exists>e. assertProjectState z x = Inl e" for x
    using assertProjectState_ok[of z x] by (cases "assertProjectState z x") auto
  show ?thesis
  proof (cases "valid_state z s")
    case True
    then have 1: "assertProjectState z s = Inr ()" "assertProjectState z (s\<lparr>ps_revision := n\<rparr>) = Inr ()" for n
      by (simp_all add: assertProjectState_ok)
    show ?thesis
      using True by (auto simp: commitSnapshot_def 1 expectedRevisionFor_def act_defs Let_def)
  next
    case False
    then obtain e where "assertProjectState z s = Inl e" using bad by blast
    then show ?thesis using False by (simp add: commitSnapshot_def act_defs)
  qed
qed

lemma commitSnapshot_Inl: "commitSnapshot z s expected evs st = (Inl e, st') \<Longrightarrow> st' = st"
  by (auto simp: commitSnapshot_def act_defs Let_def split: sum.splits if_splits)

datatype store_op =
    Op_Save project_state "event list" "int option"
  | Op_Event event
  | Op_Failure string stamp failure_input "int option"
  | Op_Artifact artifact "int option"
  | Op_Decision decision_item "int option"
  | Op_Policy policy_decision "int option"
  | Op_Run_Step run_step
  | Op_Done string stamp string string "int option"

fun store_exec :: "zod \<Rightarrow> store_op \<Rightarrow> (store, unit) act" where
  "store_exec z (Op_Save s evs e) = bindA (saveWithEvents z s evs e) (\<lambda>_. ret ())"
| "store_exec z (Op_Event ev) = recordEvent ev"
| "store_exec z (Op_Failure uuid now i e) = bindA (recordFailure z uuid now i e) (\<lambda>_. ret ())"
| "store_exec z (Op_Artifact a e) = bindA (recordArtifact z a e) (\<lambda>_. ret ())"
| "store_exec z (Op_Decision d e) = bindA (recordDecision z d e) (\<lambda>_. ret ())"
| "store_exec z (Op_Policy d e) = bindA (recordPolicyDecision z d e) (\<lambda>_. ret ())"
| "store_exec z (Op_Run_Step s) = bindA (recordRunStep z s) (\<lambda>_. ret ())"
| "store_exec z (Op_Done uuid now t m e) = bindA (markTaskDone z uuid now t m e) (\<lambda>_. ret ())"

fun commits :: "store_op \<Rightarrow> bool" where
  "commits (Op_Event ev) = False"
| "commits (Op_Run_Step s) = False"
| "commits _ = True"

text \<open>The revision a call expects, when the stored one is \<open>n\<close>: calls other than \<open>save\<close> start from
  the stored state.\<close>

fun op_expects :: "nat \<Rightarrow> store_op \<Rightarrow> int" where
  "op_expects n (Op_Save s evs e) = or_default e (int (ps_revision s))"
| "op_expects n (Op_Failure uuid now i e) = or_default e (int n)"
| "op_expects n (Op_Artifact a e) = or_default e (int n)"
| "op_expects n (Op_Decision d e) = or_default e (int n)"
| "op_expects n (Op_Policy d e) = or_default e (int n)"
| "op_expects n (Op_Done uuid now t m e) = or_default e (int n)"
| "op_expects n _ = int n"

lemma mark_done_revision [simp]: "ps_revision (mark_done t s) = ps_revision s"
  by (simp add: mark_done_def split: option.splits)

lemma store_exec_fails: "store_exec z op st = (Inl e, st') \<Longrightarrow> st' = st"
  by (cases op)
     (auto simp: store_unfold recordRunStep_def act_defs split: sum.splits if_splits prod.splits dest: commitSnapshot_Inl)

lemma commit_then_ret: "bindA (commitSnapshot z s e evs) (\<lambda>_. ret ()) st = (Inr u, st') \<longleftrightarrow>
    (\<exists>r. commitSnapshot z s e evs st = (Inr r, st'))"
  by (auto simp: bindA_Inr_iff ret_def)

lemma store_exec_commits:
  assumes "commits op" and "store_exec z op st = (Inr u, st')"
  shows "ps_revision (st_state st') = ps_revision (st_state st) + 1"
    and "op_expects (ps_revision (st_state st)) op = int (ps_revision (st_state st))"
    and "valid_state z (st_state st')"
    and "prefix (st_events st) (st_events st')"
  using assms
  by (cases op; auto simp: store_unfold bindA_assoc bindA_Inr_iff ret_def getA_def throw_def commitSnapshot_Inr split: if_splits)+

lemma recordRunStep_Inr:
  "recordRunStep z step st = (Inr r, st') \<longleftrightarrow>
     rs_tenant step = ps_org (st_state st) \<and> rs_project step = ps_project (st_state st)
     \<and> (case previous_entry step (ex_runStepLog (ps_execution (st_state st))) of
          None \<Rightarrow> True | Some p \<Rightarrow> rs_status step \<in> set (getAllowedRunStepTransitions (rs_status p)))
     \<and> valid_state z (append_step step (st_state st))
     \<and> r = ps_revision (st_state st) \<and> st' = st\<lparr>st_state := append_step step (st_state st)\<rparr>"
proof -
  have v: "(case assertProjectState z x of Inl e \<Rightarrow> (Inl e, a) | Inr y \<Rightarrow> f y) = (Inr r, b) \<longleftrightarrow> valid_state z x \<and> f () = (Inr r, b)"
    for x f a b
    using assertProjectState_ok[of z x] by (cases "assertProjectState z x") auto
  show ?thesis
    by (cases "previous_entry step (ex_runStepLog (ps_execution (st_state st)))")
      (auto simp: recordRunStep_def load_def act_defs assertRunStepTransitionAllowed_def Let_def v append_step_def)
qed

lemma store_exec_no_commit:
  assumes "\<not> commits op" and "store_exec z op st = (Inr u, st')" and "valid_state z (st_state st)"
  shows "ps_revision (st_state st') = ps_revision (st_state st)"
    and "valid_state z (st_state st')" and "prefix (st_events st) (st_events st')"
  using assms
  by (cases op; auto simp: recordEvent_def modA_def bindA_Inr_iff ret_def recordRunStep_Inr append_step_def)+

section \<open>The contract\<close>

text \<open>A sequence of calls, some of which may throw, with the flags of those that returned.\<close>

fun run_calls :: "('op \<Rightarrow> ('s, unit) act) \<Rightarrow> 'op list \<Rightarrow> 's \<Rightarrow> ('op \<times> bool) list \<times> 's" where
  "run_calls exec [] s = ([], s)"
| "run_calls exec (c # cs) s =
     (case exec c s of (r, s') \<Rightarrow> case run_calls exec cs s' of (calls, s'') \<Rightarrow> ((c, \<not> isl r) # calls, s''))"

locale state_store =
  fixes exec :: "'op \<Rightarrow> ('s, unit) act"
    and state_of :: "'s \<Rightarrow> project_state"
    and events_of :: "'s \<Rightarrow> event list"
    and commit :: "'op \<Rightarrow> bool"
    and expects :: "nat \<Rightarrow> 'op \<Rightarrow> int"
    and ok :: "project_state \<Rightarrow> bool"
  assumes throws: "exec c s = (Inl e, s') \<Longrightarrow> state_of s' = state_of s \<and> events_of s' = events_of s"
    and commits_next: "commit c \<Longrightarrow> exec c s = (Inr (), s') \<Longrightarrow>
        ps_revision (state_of s') = ps_revision (state_of s) + 1 \<and> ok (state_of s') \<and> prefix (events_of s) (events_of s')"
    and commits_expected: "commit c \<Longrightarrow> exec c s = (Inr (), s') \<Longrightarrow>
        expects (ps_revision (state_of s)) c = int (ps_revision (state_of s))"
    and records: "\<not> commit c \<Longrightarrow> exec c s = (Inr (), s') \<Longrightarrow> ok (state_of s) \<Longrightarrow>
        ps_revision (state_of s') = ps_revision (state_of s) \<and> ok (state_of s') \<and> prefix (events_of s) (events_of s')"
begin

lemma one_call:
  assumes "ok (state_of s)"
  shows "ok (state_of (snd (exec c s)))"
    and "prefix (events_of s) (events_of (snd (exec c s)))"
    and "ps_revision (state_of (snd (exec c s)))
           = ps_revision (state_of s) + (if commit c \<and> \<not> isl (fst (exec c s)) then 1 else 0)"
proof -
  obtain r s' where x: "exec c s = (r, s')" by (cases "exec c s")
  show "ok (state_of (snd (exec c s)))" "prefix (events_of s) (events_of (snd (exec c s)))"
    "ps_revision (state_of (snd (exec c s))) = ps_revision (state_of s) + (if commit c \<and> \<not> isl (fst (exec c s)) then 1 else 0)"
    using x assms throws[of c s _ s'] commits_next[of c s s'] records[of c s s'] by (cases r; cases "commit c"; simp)+
qed

lemma run_calls_revision:
  "ok (state_of s) \<Longrightarrow> run_calls exec cs s = (calls, s') \<Longrightarrow>
   ok (state_of s') \<and> prefix (events_of s) (events_of s')
   \<and> ps_revision (state_of s') = ps_revision (state_of s) + length (filter (\<lambda>(c, b). commit c \<and> b) calls)"
proof (induction cs arbitrary: s calls)
  case (Cons c cs)
  obtain r t where x: "exec c s = (r, t)" by (cases "exec c s")
  obtain rest where rest: "run_calls exec cs t = (rest, s')" "calls = (c, \<not> isl r) # rest"
    using Cons.prems(2) x by (auto split: prod.splits)
  show ?case
    using Cons.IH[OF _ rest(1)] one_call[OF Cons.prems(1), of c] x rest(2)
    by (auto intro: prefix_order.trans)
qed simp

lemma no_lost_update:
  assumes "ok (state_of s)" and "run_calls exec cs s = (calls, s')"
    and "commit c" and "exec c s' = (Inr (), s'')" and "expects (ps_revision (state_of s')) c = int (ps_revision (state_of s))"
  shows "\<forall>(d, b) \<in> set calls. \<not> (commit d \<and> b)"
proof -
  have "ps_revision (state_of s') = ps_revision (state_of s)"
    using commits_expected[OF assms(3,4)] assms(5) by simp
  then have "filter (\<lambda>(c, b). commit c \<and> b) calls = []" using run_calls_revision[OF assms(1,2)] by simp
  then show ?thesis by (auto simp: filter_empty_conv)
qed

end

interpretation store: state_store "store_exec z" st_state st_events commits op_expects "valid_state z" for z
  by unfold_locales
    (use store_exec_fails in blast, use store_exec_commits(1,3,4) in blast, use store_exec_commits(2) in blast,
     use store_exec_no_commit in blast)

section \<open>The lease-protected store\<close>

record guarded =
  gd_store :: store
  gd_locks :: lock_state
  gd_lease :: "lease_handle option"

text \<open>\<open>leaseGuard.requireValid\<close> of the orchestrator: the handle of the current run, if there is one. Outside a run
  nothing is checked.\<close>

definition requireLease :: "stamp \<Rightarrow> (guarded, unit) act" where
  "requireLease now g =
     (case gd_lease g of
        None \<Rightarrow> (Inr (), g)
      | Some h \<Rightarrow> (case handle_requireValid now h (gd_locks g) of
                    (Inl e, l) \<Rightarrow> (Inl e, g\<lparr>gd_locks := l\<rparr>)
                  | (Inr h', l) \<Rightarrow> (Inr (), g\<lparr>gd_locks := l, gd_lease := Some h'\<rparr>)))"

definition on_store :: "(store, 'a) act \<Rightarrow> (guarded, 'a) act" where
  "on_store m g = (case m (gd_store g) of (r, s) \<Rightarrow> (r, g\<lparr>gd_store := s\<rparr>))"

definition protected_exec :: "zod \<Rightarrow> stamp \<times> store_op \<Rightarrow> (guarded, unit) act" where
  "protected_exec z c = thenA (requireLease (fst c)) (on_store (store_exec z (snd c)))"

lemma requireLease_store: "requireLease now g = (r, g') \<Longrightarrow> gd_store g' = gd_store g"
  by (auto simp: requireLease_def split: option.splits prod.splits sum.splits)

lemma protected_exec_cases:
  obtains (refused) e g1 where "requireLease (fst c) g = (Inl e, g1)" "protected_exec z c g = (Inl e, g1)" "gd_store g1 = gd_store g"
  | (ran) g1 r s where "requireLease (fst c) g = (Inr (), g1)" "store_exec z (snd c) (gd_store g) = (r, s)"
      "protected_exec z c g = (r, g1\<lparr>gd_store := s\<rparr>)"
proof (cases "requireLease (fst c) g")
  case (Pair r g1)
  note st = requireLease_store[OF Pair]
  obtain x s where x: "store_exec z (snd c) (gd_store g) = (x, s)" by (cases "store_exec z (snd c) (gd_store g)")
  show ?thesis
  proof (cases r)
    case (Inl e)
    then show ?thesis using refused[of e g1] Pair st by (simp add: protected_exec_def thenA_def bindA_def)
  next
    case (Inr u)
    then show ?thesis using ran[of g1 x s] Pair st x by (simp add: protected_exec_def thenA_def bindA_def on_store_def)
  qed
qed

lemma protected_exec_Inr:
  "protected_exec z c g = (Inr u, g') \<longleftrightarrow>
     (\<exists>g1 s. requireLease (fst c) g = (Inr (), g1) \<and> store_exec z (snd c) (gd_store g) = (Inr u, s) \<and> g' = g1\<lparr>gd_store := s\<rparr>)"
  by (cases rule: protected_exec_cases[of c g z]) auto

lemma protected_exec_Inl: "protected_exec z c g = (Inl e, g') \<Longrightarrow> gd_store g' = gd_store g"
  by (cases rule: protected_exec_cases[of c g z]) (auto dest: store_exec_fails)

interpretation protected: state_store "protected_exec z" "\<lambda>g. st_state (gd_store g)" "\<lambda>g. st_events (gd_store g)"
    "\<lambda>c. commits (snd c)" "\<lambda>n c. op_expects n (snd c)" "valid_state z" for z
proof unfold_locales
  show "protected_exec z c s = (Inl e, s') \<Longrightarrow>
      st_state (gd_store s') = st_state (gd_store s) \<and> st_events (gd_store s') = st_events (gd_store s)" for c s e s'
    by (simp add: protected_exec_Inl)
  show "commits (snd c) \<Longrightarrow> protected_exec z c s = (Inr (), s') \<Longrightarrow>
      ps_revision (st_state (gd_store s')) = ps_revision (st_state (gd_store s)) + 1
      \<and> valid_state z (st_state (gd_store s')) \<and> prefix (st_events (gd_store s)) (st_events (gd_store s'))" for c s s'
    by (auto simp: protected_exec_Inr store_exec_commits(1,3,4))
  show "commits (snd c) \<Longrightarrow> protected_exec z c s = (Inr (), s') \<Longrightarrow>
      op_expects (ps_revision (st_state (gd_store s))) (snd c) = int (ps_revision (st_state (gd_store s)))" for c s s'
    by (auto simp: protected_exec_Inr store_exec_commits(2))
  show "\<not> commits (snd c) \<Longrightarrow> protected_exec z c s = (Inr (), s') \<Longrightarrow> valid_state z (st_state (gd_store s)) \<Longrightarrow>
      ps_revision (st_state (gd_store s')) = ps_revision (st_state (gd_store s))
      \<and> valid_state z (st_state (gd_store s')) \<and> prefix (st_events (gd_store s)) (st_events (gd_store s'))" for c s s'
    by (auto simp: protected_exec_Inr store_exec_no_commit)
qed


section \<open>Properties\<close>

text \<open>C3. The store is always valid and never loses an update. From a valid state, whatever calls are made
  and whichever of them throw: the stored state passes \<open>validateProjectState\<close>, the events are only appended to, and
  the revision grows by exactly the number of snapshot commits that returned. So a snapshot write that expects the
  revision read before these calls, and returns, proves that none of them committed a snapshot.\<close>

theorem store_optimistic_concurrency:
  assumes "valid_state z (st_state st)" and "run_calls (store_exec z) ops st = (calls, st')"
  shows "valid_state z (st_state st') \<and> prefix (st_events st) (st_events st')
    \<and> ps_revision (st_state st') = ps_revision (st_state st) + length (filter (\<lambda>(c, b). commits c \<and> b) calls)
    \<and> (\<forall>s evs r st''. saveWithEvents z s evs (Some (int (ps_revision (st_state st)))) st' = (Inr r, st'')
         \<longrightarrow> (\<forall>(c, b) \<in> set calls. \<not> (commits c \<and> b)))"
proof -
  have "\<forall>(c, b) \<in> set calls. \<not> (commits c \<and> b)"
    if "saveWithEvents z s evs (Some (int (ps_revision (st_state st)))) st' = (Inr r, st'')" for s evs r st''
  proof -
    have "store_exec z (Op_Save s evs (Some (int (ps_revision (st_state st))))) st' = (Inr (), st'')"
      using that by (simp add: bindA_def ret_def)
    from store.no_lost_update[OF assms _ this] show ?thesis by simp
  qed
  then show ?thesis using store.run_calls_revision[OF assms] by blast
qed

definition sample_zod :: zod where
  "sample_zod = \<lparr> z_iso = (\<lambda>s. case s of Iso t \<Rightarrow> True | Other_Text x \<Rightarrow> False), z_state_messages = (\<lambda>_. (''invalid'', [])),
                  z_decision_messages = (\<lambda>_. (''invalid'', [])) \<rparr>"

definition sample_store :: store where
  "sample_store = \<lparr> st_state = sample_state, st_events = [] \<rparr>"

definition sample_event :: event where
  "sample_event = makeEvent ''e1'' (Iso 1) TASK_SELECTED [(''taskId'', [''t2''])] (Some ''r1'') None"

lemma sample_state_valid: "valid_state sample_zod sample_state"
  by (simp add: valid_state_iff sample_state_def sample_task_def createEmptyProjectState_def projectStateDeepSchema_def
      executionStateSchema_def createEmptyProjectDiscovery_def validateProjectDiscovery_def all_min1_def opt_min1_def
      blank_iff is_space_def taskSchema_def task_issues_Nil validateBacklogTask_def)

theorem store_optimistic_concurrency_witness:
  "ps_revision (st_state (snd (run_calls (store_exec sample_zod) [Op_Event sample_event, Op_Save sample_state [] None] sample_store))) = 1"
proof -
  have rev: "ps_revision sample_state = 0" by (simp add: sample_state_def createEmptyProjectState_def)
  have c: "commitSnapshot sample_zod sample_state None [] (sample_store\<lparr>st_events := [sample_event]\<rparr>)
      = (Inr 1, sample_store\<lparr>st_state := sample_state\<lparr>ps_revision := 1\<rparr>, st_events := [sample_event]\<rparr>)"
    using sample_state_valid rev by (auto simp: commitSnapshot_Inr sample_store_def)
  have r: "run_calls (store_exec sample_zod) [Op_Event sample_event, Op_Save sample_state [] None] sample_store
      = ([(Op_Event sample_event, True), (Op_Save sample_state [] None, True)],
         sample_store\<lparr>st_state := sample_state\<lparr>ps_revision := 1\<rparr>, st_events := [sample_event]\<rparr>)"
    using c by (simp add: recordEvent_def modA_def saveWithEvents_def bindA_def ret_def sample_store_def)
  show ?thesis
    using store_optimistic_concurrency[OF _ r] sample_state_valid rev unfolding r by (simp add: sample_store_def)
qed

text \<open>Run-step writes carry no revision. If a step was recorded after a snapshot was read, writing that
  snapshot back still succeeds, and the step is gone from the log.\<close>

theorem stale_snapshot_drops_run_step:
  assumes "valid_state z (st_state st)" and "recordRunStep z step st = (Inr r, st1)"
    and "step \<notin> set (ex_runStepLog (ps_execution (st_state st)))"
  shows "\<exists>st2. saveWithEvents z (st_state st) evs (Some (int (ps_revision (st_state st)))) st1 = (Inr (ps_revision (st_state st) + 1), st2)
    \<and> step \<in> set (ex_runStepLog (ps_execution (st_state st1)))
    \<and> step \<notin> set (ex_runStepLog (ps_execution (st_state st2)))"
  using assms
  by (auto simp: recordRunStep_Inr saveWithEvents_def commitSnapshot_Inr append_step_def)

lemma sample_state_fields [simp]:
  "ps_revision sample_state = 0" "ex_runStepLog (ps_execution sample_state) = []"
  "ps_org sample_state = ''org''" "ps_project sample_state = ''p''"
  by (simp_all add: sample_state_def createEmptyProjectState_def)

definition sample_step :: run_step where
  "sample_step = (evidence_entry (Cons CHR ''h'') (sample_input ''e1'' None 0 []))\<lparr>rs_checksum := ''h''\<rparr>"

lemma sample_step_recorded:
  "recordRunStep sample_zod sample_step sample_store = (Inr 0, sample_store\<lparr>st_state := append_step sample_step sample_state\<rparr>)"
proof -
  have "valid_state sample_zod (append_step sample_step sample_state)"
    using sample_state_valid
    by (simp add: valid_state_iff append_step_def sample_step_def sample_input_def evidence_entry_def Let_def
        projectStateDeepSchema_def executionStateSchema_def runStepLogEntrySchema_def opt_min1_def when_truthy_def
        sample_zod_def feature_issues_Nil epic_issues_Nil task_issues_Nil blocked_issues_Nil completed_issues_Nil)
  then show ?thesis
    by (simp add: recordRunStep_Inr sample_store_def sample_state_def createEmptyProjectState_def sample_step_def sample_input_def
        previous_entry_def newest_first_def evidence_entry_def Let_def append_step_def)
qed

theorem stale_snapshot_drops_run_step_witness:
  "\<exists>st2. saveWithEvents sample_zod sample_state [] (Some 0) (sample_store\<lparr>st_state := append_step sample_step sample_state\<rparr>)
     = (Inr 1, st2) \<and> sample_step \<notin> set (ex_runStepLog (ps_execution (st_state st2)))"
  using stale_snapshot_drops_run_step[OF _ sample_step_recorded, of "[]"] sample_state_valid
  by (auto simp: sample_store_def)

text \<open>C5. A step's status history follows the transition table. \<open>recordRunStep\<close> accepts an entry exactly when
  it carries the state's own tenant and project, its status may follow the newest recorded status of the same run,
  step and attempt, and the state with the entry is valid; so once that newest status is terminal,
  every further entry for the attempt is refused. A refused call changes nothing.\<close>

theorem recordRunStep_follows_table:
  "((\<exists>r st'. recordRunStep z step st = (Inr r, st')) \<longleftrightarrow>
      rs_tenant step = ps_org (st_state st) \<and> rs_project step = ps_project (st_state st)
      \<and> (case previous_entry step (ex_runStepLog (ps_execution (st_state st))) of
           None \<Rightarrow> True
         | Some p \<Rightarrow> rs_status p \<notin> set TERMINAL_RUN_STEP_STATUSES
                    \<and> rs_status step \<in> set (getAllowedRunStepTransitions (rs_status p)))
      \<and> validateProjectState z (append_step step (st_state st)) = [])
   \<and> (\<forall>e st'. recordRunStep z step st = (Inl e, st') \<longrightarrow> st' = st)"
proof -
  have t: "b \<in> set (getAllowedRunStepTransitions a) \<Longrightarrow> a \<notin> set TERMINAL_RUN_STEP_STATUSES" for a b
    by (cases a) (auto simp: TERMINAL_RUN_STEP_STATUSES_def)
  have unchanged: "recordRunStep z step st = (Inl e, st') \<Longrightarrow> st' = st" for e st'
    by (auto simp: recordRunStep_def load_def act_defs Let_def split: sum.splits if_splits)
  show ?thesis
    using t unchanged by (auto simp: recordRunStep_Inr valid_state_def split: option.splits)
qed

theorem recordRunStep_follows_table_witness:
  "\<exists>r st'. recordRunStep sample_zod sample_step sample_store = (Inr r, st')"
  using recordRunStep_follows_table[of sample_zod sample_step sample_store] sample_step_recorded by blast

text \<open>C4. A protected write that returns was made under the newest lease. In any history of the lock store, when a call
  on the lease-protected store returns while a run holds a lease, that lease is the latest one granted for its
  resource, and every other lease ever granted for it has a smaller token; when the lease is lost the
  call throws and leaves the store as it was.\<close>

theorem protected_write_holds_lease:
  assumes "lock_run gs (gd_locks g)" and "gd_lease g = Some h"
  shows "(protected_exec z (now, c) g = (Inr u, g') \<longrightarrow>
      (\<exists>l. find (\<lambda>l. ll_resource l = lh_resource h) gs = Some l
           \<and> ll_token l = ll_token (lh_lease h) \<and> ll_owner l = lh_owner h)
      \<and> (\<forall>l \<in> set gs. ll_resource l = lh_resource h \<and> ll_token l \<noteq> ll_token (lh_lease h)
           \<longrightarrow> ll_token l < ll_token (lh_lease h)))
    \<and> (protected_exec z (now, c) g = (Inl e, g') \<longrightarrow> gd_store g' = gd_store g)"
proof -
  have "\<exists>l. find (\<lambda>l. ll_resource l = lh_resource h) gs = Some l
           \<and> ll_token l = ll_token (lh_lease h) \<and> ll_owner l = lh_owner h
           \<and> (\<forall>l \<in> set gs. ll_resource l = lh_resource h \<and> ll_token l \<noteq> ll_token (lh_lease h)
                \<longrightarrow> ll_token l < ll_token (lh_lease h))"
    if returned: "protected_exec z (now, c) g = (Inr u, g')"
  proof -
    obtain g1 where "requireLease now g = (Inr (), g1)" using returned by (auto simp: protected_exec_Inr)
    then obtain h' l where "handle_requireValid now h (gd_locks g) = (Inr h', l)"
      using assms(2) by (auto simp: requireLease_def split: prod.splits sum.splits)
    from requireValid_validates[OF this] locks.fenced[OF assms(1)] show ?thesis
      unfolding locks.newest_grant_def by blast
  qed
  then show ?thesis using protected_exec_Inl by blast
qed

theorem protected_write_holds_lease_witness:
  "fst (protected_exec sample_zod (Iso 200, Op_Event sample_event)
       \<lparr> gd_store = sample_store, gd_locks = sample_lock_state, gd_lease = Some sample_handle \<rparr>)
     = Inl (Js_Error WorkflowPolicyError ''Execution lease is no longer valid'' [''org:p:run'', ''w1'', ''expired''])
   \<and> gd_store (snd (protected_exec sample_zod (Iso 200, Op_Event sample_event)
       \<lparr> gd_store = sample_store, gd_locks = sample_lock_state, gd_lease = Some sample_handle \<rparr>)) = sample_store"
proof -
  let ?g = "\<lparr> gd_store = sample_store, gd_locks = sample_lock_state, gd_lease = Some sample_handle \<rparr>"
  have ex: "fst (protected_exec sample_zod (Iso 200, Op_Event sample_event) ?g)
      = Inl (Js_Error WorkflowPolicyError ''Execution lease is no longer valid'' [''org:p:run'', ''w1'', ''expired''])"
    by (simp add: protected_exec_def requireLease_def handle_requireValid_def handle_validate_def lock_defs sample_lock_state_def
        sample_handle_def acquireRunLease_def formatScopedLeaseResource_def validateLease_def)
  then have "gd_store (snd (protected_exec sample_zod (Iso 200, Op_Event sample_event) ?g)) = sample_store"
    using protected_write_holds_lease[of "[lh_lease sample_handle]" ?g sample_handle sample_zod "Iso 200" "Op_Event sample_event"]
      sample_lock_run
    by (cases "protected_exec sample_zod (Iso 200, Op_Event sample_event) ?g") auto
  then show ?thesis using ex by blast
qed

end
