(* ===== verification/Run_World.thy ===== *)
theory Run_World
  imports State_Store
begin

text \<open>
  What one run of the orchestrator works on: the lease-protected store, the \<open>ProjectState\<close> object the run loaded
  and goes on changing, the fields of the recorders (\<open>packages/execution/src/persistence\<close>) and of the cost
  tracker, and the calls it has made to git, the code host, the workspace manager, the
  role agents and their tools. Also
  \<open>packages/execution/src/runtime-utils.ts\<close>.

  The environment of a run is a record of functions: the ids and clock readings drawn one after the
  other (\<open>wd_tick\<close> counts the draws), the digest, \<open>localeCompare\<close>, what Zod says and the
  commands of git. Logging and telemetry are left out. Other processes act on the
  store and the locks only through their own calls, which the theories \<open>Locks\<close> and \<open>State_Store\<close>
  treat; within a run the steps are those of the run.
\<close>

section \<open>World and environment\<close>

record env =
  en_zod :: zod
  en_sha :: "string \<Rightarrow> string"
  en_lc :: "string cmp"
  en_uuid :: "nat \<Rightarrow> string"
  en_now :: "nat \<Rightarrow> stamp"

datatype workspace_call = Ws_Allocated | Ws_Rolled_Back | Ws_Cleaned_Up

datatype outside_effect =
    Eff_Commit string
  | Eff_Push string
  | Eff_Pull_Request string string
  | Eff_Role agent_role
  | Eff_Tool tool_call_name
  | Eff_Workspace workspace_call string

record cost =
  ct_tokensRun :: nat
  ct_tokensTask :: nat
  ct_usdMicro :: nat

record world =
  wd_guard :: guarded
  wd_state :: project_state
  wd_checksums :: "string jsrec"
  wd_buffer :: "run_step list option"
  wd_latest :: "nat option"
  wd_scope :: "string \<times> string"
  wd_cost :: cost
  wd_effects :: "outside_effect list"
  wd_tick :: nat

abbreviation wd_store :: "world \<Rightarrow> store" where
  "wd_store w \<equiv> gd_store (wd_guard w)"

abbreviation wd_stored :: "world \<Rightarrow> project_state" where
  "wd_stored w \<equiv> st_state (gd_store (wd_guard w))"

abbreviation wd_log :: "world \<Rightarrow> run_step list" where
  "wd_log w \<equiv> ex_runStepLog (ps_execution (st_state (gd_store (wd_guard w))))"

type_synonym 'a run = "(world, 'a) act"

section \<open>Drawing ids and instants\<close>

definition fresh_uuid :: "env \<Rightarrow> string run" where
  "fresh_uuid ev w = (Inr (en_uuid ev (wd_tick w)), w\<lparr>wd_tick := Suc (wd_tick w)\<rparr>)"

definition clock :: "env \<Rightarrow> stamp run" where
  "clock ev w = (Inr (en_now ev (wd_tick w)), w\<lparr>wd_tick := Suc (wd_tick w)\<rparr>)"

section \<open>The store and the lease\<close>

definition in_guard :: "(guarded, 'a) act \<Rightarrow> 'a run" where
  "in_guard m w = (case m (wd_guard w) of (r, g) \<Rightarrow> (r, w\<lparr>wd_guard := g\<rparr>))"

definition require_valid :: "env \<Rightarrow> unit run" where
  "require_valid ev = bindA (clock ev) (\<lambda>now. in_guard (requireLease now))"

text \<open>A writing call on the protected store, and a reading one.\<close>

definition protectedA :: "env \<Rightarrow> (store, 'a) act \<Rightarrow> 'a run" where
  "protectedA ev m = thenA (require_valid ev) (in_guard (on_store m))"

definition unprotected :: "(store, 'a) act \<Rightarrow> 'a run" where
  "unprotected m = in_guard (on_store m)"

section \<open>The state object of the run\<close>

definition set_state :: "(project_state \<Rightarrow> project_state) \<Rightarrow> unit run" where
  "set_state f = modA (\<lambda>w. w\<lparr>wd_state := f (wd_state w)\<rparr>)"

text \<open>The expected revision of every write of a run: \<open>state.revision\<close>.\<close>

definition own_revision :: "world \<Rightarrow> int option" where
  "own_revision w = Some (int (ps_revision (wd_state w)))"

definition set_revision :: "nat \<Rightarrow> unit run" where
  "set_revision r = set_state (\<lambda>s. s\<lparr>ps_revision := r\<rparr>)"

definition push_artifact :: "artifact \<Rightarrow> unit run" where
  "push_artifact a = set_state (\<lambda>s. s\<lparr>ps_artifacts := ps_artifacts s @ [a]\<rparr>)"

definition set_execution :: "(execution_state \<Rightarrow> execution_state) \<Rightarrow> unit run" where
  "set_execution f = set_state (\<lambda>s. s\<lparr>ps_execution := f (ps_execution s)\<rparr>)"

text \<open>\<open>recordArtifact\<close> with the state's revision, the new revision and the artifact copied into the state: the three
  lines the handlers repeat.\<close>

definition record_artifact :: "env \<Rightarrow> artifact \<Rightarrow> unit run" where
  "record_artifact ev a = bindA (getA own_revision) (\<lambda>e.
     bindA (protectedA ev (recordArtifact (en_zod ev) a e)) (\<lambda>r.
     thenA (set_revision r) (push_artifact a)))"

text \<open>\<open>saveWithEvents\<close> of the state object, which receives the new revision.\<close>

definition save_state :: "env \<Rightarrow> event list \<Rightarrow> unit run" where
  "save_state ev evs = bindA (getA wd_state) (\<lambda>s.
     bindA (protectedA ev (saveWithEvents (en_zod ev) s evs (Some (int (ps_revision s))))) set_revision)"

definition record_event :: "env \<Rightarrow> event_type \<Rightarrow> string list jsrec \<Rightarrow> string \<Rightarrow> unit run" where
  "record_event ev ty payload run =
     bindA (fresh_uuid ev) (\<lambda>u. bindA (clock ev) (\<lambda>now.
       protectedA ev (recordEvent (makeEvent u now ty payload (Some run) None))))"

section \<open>Utilities\<close>

definition makeArtifact :: "env \<Rightarrow> artifact_type \<Rightarrow> string \<Rightarrow> string jsrec \<Rightarrow> artifact run" where
  "makeArtifact ev ty title metadata =
     bindA (fresh_uuid ev) (\<lambda>u. bindA (clock ev) (\<lambda>now.
       ret \<lparr> art_id = u, art_type = ty, art_title = title, art_location = None,
             art_metadata = metadata, art_created = now \<rparr>))"

definition truncateText :: "string \<Rightarrow> nat \<Rightarrow> string" where
  "truncateText v maxLength =
     (if length v \<le> maxLength then v else take maxLength v @ ''...(truncated)'')"

text \<open>Values are JSON values here: a cyclic object, which \<open>JSON.stringify\<close> refuses, is not among them.\<close>

definition safeStringify :: "json \<Rightarrow> string" where
  "safeStringify v = (case v of JStr s \<Rightarrow> s | JUndefined \<Rightarrow> ''undefined'' | _ \<Rightarrow> stringify v)"

text \<open>\<open>JSON.stringify(undefined)\<close> is \<open>undefined\<close>, whose length throws.\<close>

definition estimateObservationTokens :: "json \<Rightarrow> nat result" where
  "estimateObservationTokens v =
     (if v = JUndefined then Inl (Js_Error TypeError ''Cannot read properties of undefined (reading 'length')'' [])
      else Inr (max 1 ((length (case v of JStr s \<Rightarrow> s | _ \<Rightarrow> stringify v) + 3) div 4)))"

definition summarizeState :: "project_state \<Rightarrow> string" where
  "summarizeState s = join '' ''
     [''project='' @ ps_name s, ''milestones='' @ nat_to_string (length (ps_milestones s)),
      ''tasks='' @ nat_to_string (length (tasks_of s)),
      ''completed='' @ nat_to_string (length (ex_completed (ps_execution s)))]"

record observation =
  ob_step :: nat
  ob_tool :: tool_call_name
  ob_ok :: bool
  ob_output :: json
  ob_error :: "string option"
  ob_created :: stamp

definition summarizeObservation :: "observation \<Rightarrow> string" where
  "summarizeObservation o1 =
     (if \<not> ob_ok o1 then truncateText (or_default (ob_error o1) ''unknown tool error'') 500
      else case ob_output o1 of
             JStr s \<Rightarrow> truncateText s 500
           | JUndefined \<Rightarrow> ''no output''
           | v \<Rightarrow> truncateText (stringify v) 500)"

section \<open>Reasoning about runs\<close>

lemmas run_simps = fresh_uuid_def clock_def set_state_def set_revision_def push_artifact_def set_execution_def
  makeArtifact_def

lemma wp_fresh_uuid [wp_simps]:
  "wp (fresh_uuid ev) Q E w = Q (en_uuid ev (wd_tick w)) (w\<lparr>wd_tick := Suc (wd_tick w)\<rparr>)"
  by (simp add: wp_def fresh_uuid_def)

lemma wp_clock [wp_simps]:
  "wp (clock ev) Q E w = Q (en_now ev (wd_tick w)) (w\<lparr>wd_tick := Suc (wd_tick w)\<rparr>)"
  by (simp add: wp_def clock_def)

lemma wp_set_state [wp_simps]:
  "wp (set_state f) Q E w = Q () (w\<lparr>wd_state := f (wd_state w)\<rparr>)"
  "wp (set_revision r) Q E w = Q () (w\<lparr>wd_state := wd_state w\<lparr>ps_revision := r\<rparr>\<rparr>)"
  "wp (push_artifact a) Q E w = Q () (w\<lparr>wd_state := wd_state w\<lparr>ps_artifacts := ps_artifacts (wd_state w) @ [a]\<rparr>\<rparr>)"
  "wp (set_execution g) Q E w = Q () (w\<lparr>wd_state := wd_state w\<lparr>ps_execution := g (ps_execution (wd_state w))\<rparr>\<rparr>)"
  by (simp_all add: set_execution_def set_revision_def push_artifact_def set_state_def wp_simps)

lemma wp_in_guard [wp_simps]:
  "wp (in_guard m) Q E w = wp m (\<lambda>x g. Q x (w\<lparr>wd_guard := g\<rparr>)) (\<lambda>e g. E e (w\<lparr>wd_guard := g\<rparr>)) (wd_guard w)"
  by (auto simp: wp_def in_guard_def split: prod.splits sum.splits)

lemma wp_on_store [wp_simps]:
  "wp (on_store m) Q E g = wp m (\<lambda>x s. Q x (g\<lparr>gd_store := s\<rparr>)) (\<lambda>e s. E e (g\<lparr>gd_store := s\<rparr>)) (gd_store g)"
  by (auto simp: wp_def on_store_def split: prod.splits sum.splits)

text \<open>A check of the lease changes the locks and the handle only, never the store.\<close>

lemma wp_requireLease:
  assumes "\<And>l h. requireLease now g = (Inr (), g\<lparr>gd_locks := l, gd_lease := h\<rparr>) \<Longrightarrow> Q () (g\<lparr>gd_locks := l, gd_lease := h\<rparr>)"
    and "\<And>e l. E e (g\<lparr>gd_locks := l\<rparr>)"
  shows "wp (requireLease now) Q E g"
proof (cases "gd_lease g")
  case None
  then have "requireLease now g = (Inr (), g)" by (simp add: requireLease_def)
  moreover have "g\<lparr>gd_locks := gd_locks g, gd_lease := gd_lease g\<rparr> = g" by simp
  ultimately show ?thesis using assms(1)[where l = "gd_locks g" and h = "gd_lease g"] by (simp add: wp_def)
next
  case (Some h)
  obtain r l where x: "handle_requireValid now h (gd_locks g) = (r, l)" by (cases "handle_requireValid now h (gd_locks g)")
  show ?thesis
    using assms(1)[where l = l] assms(2) x Some by (cases r) (simp_all add: wp_def requireLease_def)
qed

lemma wp_require_valid:
  assumes "\<And>l h. Q () (w\<lparr>wd_tick := Suc (wd_tick w), wd_guard := (wd_guard w)\<lparr>gd_locks := l, gd_lease := h\<rparr>\<rparr>)"
    and "\<And>e l. E e (w\<lparr>wd_tick := Suc (wd_tick w), wd_guard := (wd_guard w)\<lparr>gd_locks := l\<rparr>\<rparr>)"
  shows "wp (require_valid ev) Q E w"
  unfolding require_valid_def using assms by (auto simp: wp_simps intro!: wp_requireLease)

lemma wp_protectedA:
  assumes "\<And>l h. wp m (\<lambda>x s. Q x (w\<lparr>wd_tick := Suc (wd_tick w), wd_guard := \<lparr>gd_store = s, gd_locks = l, gd_lease = h\<rparr>\<rparr>))
                      (\<lambda>e s. E e (w\<lparr>wd_tick := Suc (wd_tick w), wd_guard := \<lparr>gd_store = s, gd_locks = l, gd_lease = h\<rparr>\<rparr>))
                      (wd_store w)"
    and "\<And>e l h. E e (w\<lparr>wd_tick := Suc (wd_tick w), wd_guard := \<lparr>gd_store = wd_store w, gd_locks = l, gd_lease = h\<rparr>\<rparr>)"
  shows "wp (protectedA ev m) Q E w"
proof -
  have g: "(wd_guard w)\<lparr>gd_locks := l, gd_lease := h, gd_store := s\<rparr> = \<lparr>gd_store = s, gd_locks = l, gd_lease = h\<rparr>" for l h s
    by (cases "wd_guard w") simp
  have g': "(wd_guard w)\<lparr>gd_locks := l\<rparr> = \<lparr>gd_store = wd_store w, gd_locks = l, gd_lease = gd_lease (wd_guard w)\<rparr>" for l
    by (cases "wd_guard w") simp
  show ?thesis
    unfolding protectedA_def wp_thenA
    by (rule wp_require_valid)
       (use assms in \<open>simp_all add: wp_simps g g'\<close>)
qed


section \<open>What the writing calls do\<close>

text \<open>One rule per call: it throws and leaves the store alone, or it returns and the store is the given one.\<close>

lemma wp_commitSnapshot:
  assumes "valid_state z s \<Longrightarrow> or_default expected (int (ps_revision s)) = int (ps_revision (st_state st)) \<Longrightarrow>
      Q (ps_revision (st_state st) + 1) (st\<lparr>st_state := s\<lparr>ps_revision := ps_revision (st_state st) + 1\<rparr>, st_events := st_events st @ evs\<rparr>)"
    and "\<And>e. E e st"
  shows "wp (commitSnapshot z s expected evs) Q E st"
  by (rule wpI) (use assms in \<open>auto simp: commitSnapshot_Inr dest!: commitSnapshot_Inl\<close>)

lemma commit_no_events: "st_events st @ [] = st_events st"
  by simp

lemma wp_recordPolicyDecision:
  assumes "valid_state z (st_state st\<lparr>ps_policyDecisions := ps_policyDecisions (st_state st) @ [d]\<rparr>) \<Longrightarrow>
      or_default expected (int (ps_revision (st_state st))) = int (ps_revision (st_state st)) \<Longrightarrow>
      Q (ps_revision (st_state st) + 1)
        (st\<lparr>st_state := st_state st\<lparr>ps_policyDecisions := ps_policyDecisions (st_state st) @ [d],
                                 ps_revision := ps_revision (st_state st) + 1\<rparr>\<rparr>)"
    and "\<And>e. E e st"
  shows "wp (recordPolicyDecision z d expected) Q E st"
  unfolding recordPolicyDecision_def load_def wp_bindA wp_getA
  by (rule wp_commitSnapshot) (use assms in simp_all)

definition with_artifact :: "artifact \<Rightarrow> project_state \<Rightarrow> project_state" where
  "with_artifact a s = (if \<exists>x \<in> set (ps_artifacts s). art_id x = art_id a then s
                        else s\<lparr>ps_artifacts := ps_artifacts s @ [a]\<rparr>)"

lemmas valid_parts = valid_state_iff projectStateDeepSchema_def executionStateSchema_def feature_issues_Nil epic_issues_Nil
  task_issues_Nil blocked_issues_Nil completed_issues_Nil

lemma valid_with_artifact:
  "valid_state z s \<Longrightarrow> artifactSchema (z_iso z) a \<Longrightarrow> valid_state z (s\<lparr>ps_artifacts := ps_artifacts s @ [a]\<rparr>)"
  "valid_state z s \<Longrightarrow> artifactSchema (z_iso z) a \<Longrightarrow> valid_state z (with_artifact a s)"
  by (auto simp: valid_parts with_artifact_def)

lemma wp_recordArtifact:
  assumes "registry_validate a = [] \<Longrightarrow> valid_state z (with_artifact a (st_state st)) \<Longrightarrow>
      or_default expected (int (ps_revision (st_state st))) = int (ps_revision (st_state st)) \<Longrightarrow>
      Q (ps_revision (st_state st) + 1)
        (st\<lparr>st_state := with_artifact a (st_state st)\<lparr>ps_revision := ps_revision (st_state st) + 1\<rparr>\<rparr>)"
    and "\<And>e. E e st"
  shows "wp (recordArtifact z a expected) Q E st"
proof -
  have r: "ps_revision (with_artifact a (st_state st)) = ps_revision (st_state st)" by (simp add: with_artifact_def)
  have eq: "recordArtifact z a expected = (if registry_validate a \<noteq> [] then throw (artifact_error a (registry_validate a))
      else bindA load (\<lambda>cur. commitSnapshot z (with_artifact a cur) expected []))"
    by (simp add: recordArtifact_def with_artifact_def Let_def)
  show ?thesis
    unfolding eq load_def wp_if wp_throw wp_bindA wp_getA
    using assms r by (auto intro: wp_commitSnapshot)
qed

lemma wp_recordEvent [wp_simps]: "wp (recordEvent e) Q E st = Q () (st\<lparr>st_events := st_events st @ [e]\<rparr>)"
  by (simp add: recordEvent_def wp_simps)

lemma wp_recordRunStep:
  assumes "rs_tenant step = ps_org (st_state st) \<Longrightarrow> rs_project step = ps_project (st_state st) \<Longrightarrow>
      valid_state z (append_step step (st_state st)) \<Longrightarrow>
      Q (ps_revision (st_state st)) (st\<lparr>st_state := append_step step (st_state st)\<rparr>)"
    and "\<And>e. E e st"
  shows "wp (recordRunStep z step) Q E st"
proof (rule wpI)
  fix e t assume "recordRunStep z step st = (Inl e, t)"
  then have "t = st" using store_exec_fails[of z "Op_Run_Step step"] by (simp add: bindA_def)
  then show "E e t" using assms(2) by simp
qed (use assms(1) in \<open>auto simp: recordRunStep_Inr\<close>)

lemma wp_saveWithEvents:
  assumes "valid_state z s \<Longrightarrow> or_default expected (int (ps_revision s)) = int (ps_revision (st_state st)) \<Longrightarrow>
      Q (ps_revision (st_state st) + 1) (st\<lparr>st_state := s\<lparr>ps_revision := ps_revision (st_state st) + 1\<rparr>, st_events := st_events st @ evs\<rparr>)"
    and "\<And>e. E e st"
  shows "wp (saveWithEvents z s evs expected) Q E st"
  unfolding saveWithEvents_def using assms by (rule wp_commitSnapshot)

text \<open>At the level of a run: \<open>touched w st l h t\<close> is the world with the store \<open>st\<close>, whatever the lease
  check did to the locks, when \<open>t\<close> ids and instants have been drawn.\<close>

definition touched :: "world \<Rightarrow> store \<Rightarrow> lock_state \<Rightarrow> lease_handle option \<Rightarrow> nat \<Rightarrow> world" where
  "touched w st l h t = w\<lparr>wd_guard := \<lparr>gd_store = st, gd_locks = l, gd_lease = h\<rparr>, wd_tick := t\<rparr>"

lemma touched_simps [simp]:
  "wd_guard (touched w st l h t) = \<lparr>gd_store = st, gd_locks = l, gd_lease = h\<rparr>"
  "wd_state (touched w st l h t) = wd_state w" "wd_checksums (touched w st l h t) = wd_checksums w"
  "wd_buffer (touched w st l h t) = wd_buffer w" "wd_latest (touched w st l h t) = wd_latest w"
  "wd_scope (touched w st l h t) = wd_scope w" "wd_cost (touched w st l h t) = wd_cost w"
  "wd_effects (touched w st l h t) = wd_effects w" "wd_tick (touched w st l h t) = t"
  "touched (touched w st l h t) st' l' h' t' = touched w st' l' h' t'"
  "touched (w\<lparr>wd_tick := u\<rparr>) st l h t = touched w st l h t"
  "touched (w\<lparr>wd_guard := g\<rparr>) st l h t = touched w st l h t"
  "touched (w\<lparr>wd_state := s\<rparr>) st l h t = (touched w st l h t)\<lparr>wd_state := s\<rparr>"
  "touched (w\<lparr>wd_effects := f\<rparr>) st l h t = (touched w st l h t)\<lparr>wd_effects := f\<rparr>"
  "touched (w\<lparr>wd_cost := c\<rparr>) st l h t = (touched w st l h t)\<lparr>wd_cost := c\<rparr>"
  "(touched w st l h t)\<lparr>wd_tick := u\<rparr> = touched w st l h u"
  "(touched w st l h t)\<lparr>wd_guard := \<lparr>gd_store = st', gd_locks = l', gd_lease = h'\<rparr>\<rparr> = touched w st' l' h' t"
  by (simp_all add: touched_def)

lemma wp_protected:
  assumes "\<And>l h t. wd_tick w \<le> t \<Longrightarrow> wp m (\<lambda>x st. Q x (touched w st l h t)) (\<lambda>e st. E e (touched w st l h t)) (wd_store w)"
    and "\<And>e l h t. wd_tick w \<le> t \<Longrightarrow> E e (touched w (wd_store w) l h t)"
  shows "wp (protectedA ev m) Q E w"
proof -
  have t: "w\<lparr>wd_tick := Suc (wd_tick w), wd_guard := \<lparr>gd_store = s, gd_locks = l, gd_lease = h\<rparr>\<rparr>
      = touched w s l h (Suc (wd_tick w))" for s l h
    by (simp add: touched_def)
  show ?thesis
    by (rule wp_protectedA) (use assms in \<open>simp_all only: t le_SucI order_refl\<close>)
qed

lemma wp_unprotected:
  "wp (unprotected m) Q E w = wp m (\<lambda>x st. Q x (w\<lparr>wd_guard := wd_guard w\<lparr>gd_store := st\<rparr>\<rparr>))
                                 (\<lambda>e st. E e (w\<lparr>wd_guard := wd_guard w\<lparr>gd_store := st\<rparr>\<rparr>)) (wd_store w)"
  by (simp add: unprotected_def wp_simps)

lemma wp_unprotected_getA [wp_simps]: "wp (unprotected (getA f)) Q E w = Q (f (wd_store w)) w"
  by (simp add: wp_unprotected wp_simps)

lemma wp_load [wp_simps]: "wp (unprotected load) Q E w = Q (wd_stored w) w"
  by (simp add: load_def wp_simps)

text \<open>Without a lease nothing is checked: the equations that evaluate a run on a concrete world.\<close>

lemma wp_require_valid_free:
  "gd_lease (wd_guard w) = None \<Longrightarrow> wp (require_valid ev) Q E w = Q () (w\<lparr>wd_tick := Suc (wd_tick w)\<rparr>)"
  by (simp add: require_valid_def wp_simps) (simp add: wp_def requireLease_def)

lemma wp_protected_free:
  "gd_lease (wd_guard w) = None \<Longrightarrow> wp (protectedA ev m) Q E w =
     wp m (\<lambda>x st. Q x (w\<lparr>wd_tick := Suc (wd_tick w), wd_guard := (wd_guard w)\<lparr>gd_store := st\<rparr>\<rparr>))
          (\<lambda>e st. E e (w\<lparr>wd_tick := Suc (wd_tick w), wd_guard := (wd_guard w)\<lparr>gd_store := st\<rparr>\<rparr>)) (wd_store w)"
  by (simp add: protectedA_def wp_thenA wp_require_valid_free wp_simps)

lemma wp_commit_valid:
  "valid_state z s \<Longrightarrow> or_default expected (int (ps_revision s)) = int (ps_revision (st_state st)) \<Longrightarrow>
   wp (commitSnapshot z s expected evs) Q E st =
     Q (ps_revision (st_state st) + 1) (st\<lparr>st_state := s\<lparr>ps_revision := ps_revision (st_state st) + 1\<rparr>, st_events := st_events st @ evs\<rparr>)"
  by (simp add: wp_def commitSnapshot_Inr[THEN iffD2])

end
