(* ===== verification/Recorders.thy ===== *)
theory Recorders
  imports Run_World
begin

text \<open>
  \<open>packages/execution/src/persistence\<close>: the recorder of run steps, which chains the evidence of a run, and the
  recorder of policy decisions, which a side effect has to pass; and the requests of the three
  policy gates (\<open>gates\<close>, \<open>finalize\<close>, \<open>steps\<close>).
\<close>

section \<open>Run steps\<close>

record record_input =
  ri_run :: string
  ri_task :: "string option"
  ri_role :: string
  ri_tool :: "string option"
  ri_input :: json
  ri_output :: json
  ri_status :: run_step_status
  ri_duration :: int

definition startRun :: "string \<Rightarrow> string \<times> string \<Rightarrow> unit run" where
  "startRun run scope = modA (\<lambda>w. w\<lparr> wd_checksums := AList.delete run (wd_checksums w), wd_scope := scope,
                                     wd_buffer := Some [], wd_latest := None \<rparr>)"

definition clearBuffer :: "unit run" where
  "clearBuffer = modA (\<lambda>w. w\<lparr>wd_buffer := None\<rparr>)"

definition resolveEvidenceScope :: "(string \<times> string) run" where
  "resolveEvidenceScope = bindA (getA wd_buffer) (\<lambda>b.
     if b \<noteq> None then getA wd_scope
     else bindA (unprotected load) (\<lambda>s. ret (ps_org s, ps_project s)))"

definition step_input :: "record_input \<Rightarrow> string \<Rightarrow> string option \<Rightarrow> string \<times> string \<Rightarrow> stamp \<Rightarrow> evidence_input" where
  "step_input i stepId prev scope now =
     \<lparr> ei_id = stepId, ei_tenant = fst scope, ei_project = snd scope, ei_run = ri_run i, ei_step = stepId,
       ei_attempt = 0, ei_task = when_truthy (ri_task i), ei_role = ri_role i, ei_tool = when_truthy (ri_tool i),
       ei_input = truncateText (safeStringify (ri_input i)) 500,
       ei_output = truncateText (safeStringify (ri_output i)) 500, ei_status = ri_status i, ei_policy = None,
       ei_key = ri_run i @ '':'' @ stepId @ '':0'', ei_payload = None, ei_prev = when_truthy prev,
       ei_trace = ri_run i, ei_duration = ri_duration i, ei_created = now \<rparr>"

definition record_step :: "env \<Rightarrow> record_input \<Rightarrow> unit run" where
  "record_step ev i =
     bindA (fresh_uuid ev) (\<lambda>stepId.
     bindA (getA (\<lambda>w. rec_get (wd_checksums w) (ri_run i))) (\<lambda>prev.
     bindA resolveEvidenceScope (\<lambda>scope.
     bindA (clock ev) (\<lambda>now.
       let step = evidence_entry (en_sha ev) (step_input i stepId prev scope now) in
       bindA (protectedA ev (recordRunStep (en_zod ev) step)) (\<lambda>revision.
         modA (\<lambda>w. w\<lparr> wd_latest := Some revision,
                       wd_checksums := rec_set (ri_run i) (rs_checksum step) (wd_checksums w),
                       wd_buffer := map_option (\<lambda>b. b @ [step]) (wd_buffer w) \<rparr>))))))"

definition append_log :: "run_step list \<Rightarrow> project_state \<Rightarrow> project_state" where
  "append_log b s = s\<lparr>ps_execution := (ps_execution s)\<lparr>ex_runStepLog := ex_runStepLog (ps_execution s) @ b\<rparr>\<rparr>"

definition flushToState :: "unit run" where
  "flushToState = modA (\<lambda>w.
     case wd_buffer w of
       None \<Rightarrow> w
     | Some b \<Rightarrow>
         if b = [] then w
         else let s = append_log b (wd_state w);
                  s' = (case wd_latest w of None \<Rightarrow> s | Some r \<Rightarrow> s\<lparr>ps_revision := max (ps_revision s) r\<rparr>)
              in w\<lparr>wd_state := s', wd_buffer := Some [], wd_latest := None\<rparr>)"

section \<open>Policy decisions\<close>

text \<open>\<open>Buffer.from(seed).toString('base64url')\<close>: the UTF-8 bytes, without padding.\<close>

definition utf8 :: "string \<Rightarrow> nat list" where
  "utf8 s = concat (map (\<lambda>c. let n = (of_char c :: nat) in if n < 128 then [n] else [192 + n div 64, 128 + n mod 64]) s)"

definition b64_char :: "nat \<Rightarrow> char" where
  "b64_char n = (if n < 26 then char_of (65 + n) else if n < 52 then char_of (71 + n)
                 else if n < 62 then char_of (n - 4) else if n = 62 then CHR ''-'' else CHR ''_'')"

fun base64url :: "nat list \<Rightarrow> string" where
  "base64url [] = []"
| "base64url [a] = [b64_char (a div 4), b64_char (a mod 4 * 16)]"
| "base64url [a, b] = [b64_char (a div 4), b64_char (a mod 4 * 16 + b div 16), b64_char (b mod 16 * 4)]"
| "base64url (a # b # c # r) =
     b64_char (a div 4) # b64_char (a mod 4 * 16 + b div 16) # b64_char (b mod 16 * 4 + c div 64)
     # b64_char (c mod 64) # base64url r"

definition createPolicyInputHash :: "string \<Rightarrow> string" where
  "createPolicyInputHash seed = take 64 (base64url (utf8 seed))"

record policy_request =
  pq_run :: string
  pq_task :: string
  pq_step :: string
  pq_attempt :: int
  pq_action :: action_type
  pq_risk :: "risk_level option"
  pq_seed :: string
  pq_reasons :: "string list"

definition POLICY_VERSION :: string where
  "POLICY_VERSION = ''policyDecisionPersistenceV1''"

definition policy_gate_error :: "policy_error_code \<Rightarrow> string \<Rightarrow> policy_request \<Rightarrow> js_error" where
  "policy_gate_error code name q =
     Js_Error WorkflowPolicyError (formatPolicyDecisionError code (action_type_text (pq_action q)))
       [name, pq_run q, pq_task q, pq_step q]"

definition policy_record :: "policy_request \<Rightarrow> project_state \<Rightarrow> string \<Rightarrow> stamp \<Rightarrow> policy_decision" where
  "policy_record q s uuid now =
     \<lparr> pd_decisionId = uuid, pd_tenantId = ps_org s, pd_projectId = ps_project s, pd_runId = pq_run q,
       pd_stepId = pq_step q, pd_attempt = pq_attempt q, pd_actionType = pq_action q,
       pd_riskLevel = or_default (pq_risk q) (rk_riskLevel (classifyExecutionPolicyActionRisk (pq_action q))),
       pd_decision = Allow, pd_reasonCodes = pq_reasons q, pd_decidedAt = now,
       pd_decider = ''orchestrator_policy_gate_v1'', pd_inputHash = createPolicyInputHash (pq_seed q),
       pd_traceId = pq_run q, pd_policyVersion = POLICY_VERSION \<rparr>"

definition persistAndRequire :: "env \<Rightarrow> policy_request \<Rightarrow> unit run" where
  "persistAndRequire ev q =
     bindA (fresh_uuid ev) (\<lambda>u. bindA (clock ev) (\<lambda>now. bindA (getA wd_state) (\<lambda>s.
       let d = policy_record q s u now in
       bindA (protectedA ev (recordPolicyDecision (en_zod ev) d (Some (int (ps_revision s))))) (\<lambda>r.
       thenA (set_revision r)
      (thenA (set_state (\<lambda>s. s\<lparr>ps_policyDecisions := ps_policyDecisions s @ [d]\<rparr>))
      (bindA (unprotected (getPolicyDecision (pq_run q) (pq_step q) (pq_attempt q) (pq_action q))) (\<lambda>persisted.
        case persisted of
          None \<Rightarrow> throw (policy_gate_error POLICY_DECISION_MISSING ''POLICY_DECISION_MISSING'' q)
        | Some p \<Rightarrow>
            if pd_policyVersion p \<noteq> POLICY_VERSION \<or> pd_inputHash p \<noteq> pd_inputHash d
            then throw (policy_gate_error POLICY_DECISION_STALE ''POLICY_DECISION_STALE'' q)
            else if pd_decision p \<noteq> Allow then throw (policy_gate_error POLICY_DENIED ''POLICY_DENIED'' q)
            else ret ())))))))"

section \<open>The requests of the gates\<close>

definition buildPreflightPolicyGateDecisionRequest :: "string \<Rightarrow> string \<Rightarrow> policy_request" where
  "buildPreflightPolicyGateDecisionRequest run tid =
     \<lparr> pq_run = run, pq_task = tid, pq_step = tid @ '':preflight_policy'', pq_attempt = 0, pq_action = Artifact_Write,
       pq_risk = Some Low, pq_seed = run @ '':'' @ tid @ '':preflight'', pq_reasons = [''NON_BYPASS_PREFLIGHT_CHECK''] \<rparr>"

definition buildPostflightPolicyGateDecisionRequest :: "string \<Rightarrow> string \<Rightarrow> policy_request" where
  "buildPostflightPolicyGateDecisionRequest run tid =
     \<lparr> pq_run = run, pq_task = tid, pq_step = tid @ '':postflight_policy'', pq_attempt = 0, pq_action = Artifact_Write,
       pq_risk = Some Low, pq_seed = run @ '':'' @ tid @ '':postflight'', pq_reasons = [''NON_BYPASS_POSTFLIGHT_CHECK''] \<rparr>"

definition buildStepPolicyGateRequest ::
  "string \<Rightarrow> string \<Rightarrow> string \<Rightarrow> int \<Rightarrow> action_type \<Rightarrow> string \<Rightarrow> string list \<Rightarrow> policy_request" where
  "buildStepPolicyGateRequest run tid step attempt action seed reasons =
     \<lparr> pq_run = run, pq_task = tid, pq_step = step, pq_attempt = attempt, pq_action = action,
       pq_risk = Some (rk_riskLevel (classifyExecutionPolicyActionRisk action)), pq_seed = seed, pq_reasons = reasons \<rparr>"


section \<open>What the input hash covers\<close>

lemma take_base64url: "take (4 * n) (base64url xs) = base64url (take (3 * n) xs)"
proof (induction n arbitrary: xs)
  case (Suc n)
  have n: "4 * Suc n = Suc (Suc (Suc (Suc (4 * n))))" "3 * Suc n = Suc (Suc (Suc (3 * n)))" by simp_all
  show ?case unfolding n by (cases xs rule: base64url.cases) (simp_all add: Suc)
qed simp

lemma b64_char_inj: "m < 64 \<Longrightarrow> n < 64 \<Longrightarrow> b64_char m = b64_char n \<longleftrightarrow> m = n"
proof
  have code: "of_char (b64_char k) = (if k < 26 then 65 + k else if k < 52 then 71 + k else if k < 62 then k - 4
      else if k = 62 then 45 else 95)" if "k < 64" for k
    using that by (auto simp: b64_char_def)
  assume "m < 64" "n < 64" "b64_char m = b64_char n"
  then have "(of_char (b64_char m) :: nat) = of_char (b64_char n)" by simp
  then show "m = n" unfolding code[OF \<open>m < 64\<close>] code[OF \<open>n < 64\<close>]
    using \<open>m < 64\<close> \<open>n < 64\<close> by (auto split: if_splits)
qed simp

lemma join_inj_nat:
  fixes a b c d k :: nat
  assumes "b < k" "d < k" "a * k + b = c * k + d"
  shows "a = c \<and> b = d"
proof -
  have "(a * k + b) div k = a" "(c * k + d) div k = c" using assms(1,2) by simp_all
  then show ?thesis using assms(3) by auto
qed

lemma split_div_mod_eq: "(a :: nat) div k = b div k \<Longrightarrow> a mod k = b mod k \<Longrightarrow> a = b"
  by (metis div_mult_mod_eq)

lemma code_bounds:
  "(a :: nat) < 256 \<Longrightarrow> a div 4 < 64" "(a :: nat) mod 64 < 64" "(a :: nat) mod 4 * 16 < 64" "(b :: nat) mod 16 * 4 < 64"
  "(b :: nat) < 256 \<Longrightarrow> b div 16 < 16" "(c :: nat) < 256 \<Longrightarrow> c div 64 < 4"
  by (simp_all add: less_mult_imp_div_less)

lemma code_sum_bounds:
  fixes a b c :: nat
  shows "b < 256 \<Longrightarrow> a mod 4 * 16 + b div 16 < 64" "c < 256 \<Longrightarrow> b mod 16 * 4 + c div 64 < 64"
proof -
  have "a mod 4 \<le> 3" "b mod 16 \<le> 15" by simp_all
  then show "b < 256 \<Longrightarrow> a mod 4 * 16 + b div 16 < 64" "c < 256 \<Longrightarrow> b mod 16 * 4 + c div 64 < 64"
    using code_bounds(5)[of b] code_bounds(6)[of c] by linarith+
qed

lemma two_bytes_inj:
  fixes a b a' b' :: nat
  assumes "b < 256" "b' < 256" "a div 4 = a' div 4" "a mod 4 * 16 + b div 16 = a' mod 4 * 16 + b' div 16" "b mod 16 = b' mod 16"
  shows "a = a' \<and> b = b'"
  using join_inj_nat[of "b div 16" 16 "b' div 16" "a mod 4" "a' mod 4"] code_bounds(5)[of b] code_bounds(5)[of b'] assms
    split_div_mod_eq[of a 4 a'] split_div_mod_eq[of b 16 b'] by blast

lemma three_bytes_inj:
  fixes a b c a' b' c' :: nat
  assumes "b < 256" "b' < 256" "c < 256" "c' < 256" "a div 4 = a' div 4"
    "a mod 4 * 16 + b div 16 = a' mod 4 * 16 + b' div 16" "b mod 16 * 4 + c div 64 = b' mod 16 * 4 + c' div 64" "c mod 64 = c' mod 64"
  shows "a = a' \<and> b = b' \<and> c = c'"
proof -
  have "b mod 16 = b' mod 16 \<and> c div 64 = c' div 64"
    using join_inj_nat[of "c div 64" 4 "c' div 64" "b mod 16" "b' mod 16"] code_bounds(6)[of c] code_bounds(6)[of c'] assms by blast
  then show ?thesis using two_bytes_inj[of b b' a a'] split_div_mod_eq[of c 64 c'] assms by blast
qed

lemma base64url_inj:
  "\<forall>a \<in> set xs. a < 256 \<Longrightarrow> \<forall>a \<in> set ys. a < 256 \<Longrightarrow> base64url xs = base64url ys \<Longrightarrow> xs = ys"
proof (induction xs arbitrary: ys rule: base64url.induct)
  case 1
  then show ?case by (cases ys rule: base64url.cases) simp_all
next
  case (2 a)
  note P = "2.prems"
  show ?case
  proof (cases ys rule: base64url.cases)
    case (2 a')
    have "b64_char (a div 4) = b64_char (a' div 4)" "b64_char (a mod 4 * 16) = b64_char (a' mod 4 * 16)"
      using P(3) unfolding 2 by (simp_all only: base64url.simps list.inject)
    moreover have "a < 256" "a' < 256" using P 2 by simp_all
    ultimately have "a div 4 = a' div 4" "a mod 4 = a' mod 4" by (simp_all add: b64_char_inj code_bounds)
    then show ?thesis using 2 split_div_mod_eq by blast
  qed (use P(3) in simp_all)
next
  case (3 a b)
  note P = "3.prems"
  show ?case
  proof (cases ys rule: base64url.cases)
    case (3 a' b')
    have e: "b64_char (a div 4) = b64_char (a' div 4)" "b64_char (a mod 4 * 16 + b div 16) = b64_char (a' mod 4 * 16 + b' div 16)"
      "b64_char (b mod 16 * 4) = b64_char (b' mod 16 * 4)"
      using P(3) unfolding 3 by (simp_all only: base64url.simps list.inject)
    have lt: "a < 256" "a' < 256" "b < 256" "b' < 256" using P 3 by simp_all
    have "a div 4 = a' div 4" using e(1) lt by (simp only: b64_char_inj code_bounds)
    moreover have "a mod 4 * 16 + b div 16 = a' mod 4 * 16 + b' div 16"
      using e(2) lt by (simp only: b64_char_inj code_sum_bounds)
    moreover have "b mod 16 = b' mod 16" using e(3) by (simp add: b64_char_inj code_bounds)
    ultimately show ?thesis using 3 two_bytes_inj lt by blast
  qed (use P(3) in simp_all)
next
  case (4 a b c r)
  note P = "4.prems" and IH = "4.IH"
  show ?case
  proof (cases ys rule: base64url.cases)
    case (4 a' b' c' r')
    have e: "b64_char (a div 4) = b64_char (a' div 4)" "b64_char (a mod 4 * 16 + b div 16) = b64_char (a' mod 4 * 16 + b' div 16)"
      "b64_char (b mod 16 * 4 + c div 64) = b64_char (b' mod 16 * 4 + c' div 64)" "b64_char (c mod 64) = b64_char (c' mod 64)"
      "base64url r = base64url r'"
      using P(3) unfolding 4 by (simp_all only: base64url.simps list.inject)
    have lt: "a < 256" "a' < 256" "b < 256" "b' < 256" "c < 256" "c' < 256" using P 4 by simp_all
    have "a div 4 = a' div 4" using e(1) lt by (simp only: b64_char_inj code_bounds)
    moreover have "a mod 4 * 16 + b div 16 = a' mod 4 * 16 + b' div 16" using e(2) lt by (simp only: b64_char_inj code_sum_bounds)
    moreover have "b mod 16 * 4 + c div 64 = b' mod 16 * 4 + c' div 64" using e(3) lt by (simp only: b64_char_inj code_sum_bounds)
    moreover have "c mod 64 = c' mod 64" using e(4) by (simp only: b64_char_inj code_bounds)
    moreover have "r = r'" using IH[of r'] e(5) P(1,2) 4 by simp
    ultimately show ?thesis using 4 three_bytes_inj lt by blast
  qed (use P(3) in simp_all)
qed

lemma utf8_bytes: "\<forall>a \<in> set (utf8 s). a < 256"
proof -
  have one: "\<forall>a \<in> set (if n < 128 then [n] else [192 + n div 64, 128 + n mod 64]). a < 256" if "n < 256" for n :: nat
  proof -
    have "n div 64 < 4" using that code_bounds(6) by simp
    moreover have "n mod 64 < 128" by (rule less_trans[of _ 64]) simp_all
    ultimately show ?thesis by simp
  qed
  have "\<forall>a \<in> set (if (of_char c :: nat) < 128 then [of_char c] else [192 + of_char c div 64, 128 + of_char c mod 64]). a < (256 :: nat)"
    for c :: char by (rule one[OF nat_of_char_less_256])
  then show ?thesis unfolding utf8_def Let_def set_concat set_map by blast
qed

text \<open>The input hash of a policy decision covers the first 48 bytes of its seed and nothing else: two seeds get
  the same hash exactly when these agree. In a seed \<open>runId:taskId:action:...\<close> the run id alone takes 36.\<close>

theorem policy_hash_covers_48_bytes:
  "createPolicyInputHash s = createPolicyInputHash t \<longleftrightarrow> take 48 (utf8 s) = take 48 (utf8 t)"
proof -
  have h: "createPolicyInputHash x = base64url (take 48 (utf8 x))" for x
    using take_base64url[of 16 "utf8 x"] by (simp add: createPolicyInputHash_def)
  have b: "\<forall>a \<in> set (take 48 (utf8 x)). a < 256" for x using utf8_bytes[of x] by (auto dest: in_set_takeD)
  show ?thesis unfolding h using base64url_inj[OF b b] by auto
qed

section \<open>Policy decisions are persisted before the action\<close>

lemma policy_record_sel [simp]:
  "pd_runId (policy_record q s u now) = pq_run q" "pd_stepId (policy_record q s u now) = pq_step q"
  "pd_attempt (policy_record q s u now) = pq_attempt q" "pd_actionType (policy_record q s u now) = pq_action q"
  "pd_decision (policy_record q s u now) = Allow" "pd_policyVersion (policy_record q s u now) = POLICY_VERSION"
  "pd_inputHash (policy_record q s u now) = createPolicyInputHash (pq_seed q)"
  "pd_tenantId (policy_record q s u now) = ps_org s" "pd_projectId (policy_record q s u now) = ps_project s"
  "pd_decisionId (policy_record q s u now) = u" "pd_reasonCodes (policy_record q s u now) = pq_reasons q"
  by (simp_all add: policy_record_def)

lemma wp_getPolicyDecision [wp_simps]:
  "wp (unprotected (getPolicyDecision run step attempt action)) Q E w =
     Q (find (\<lambda>d. pd_runId d = run \<and> pd_stepId d = step \<and> pd_attempt d = attempt \<and> pd_actionType d = action)
           (rev (ps_policyDecisions (wd_stored w)))) w"
  by (simp add: getPolicyDecision_def load_def wp_unprotected wp_simps)

lemma wp_persistAndRequire:
  assumes ok: "\<And>l h t. let d = policy_record q (wd_state w) (en_uuid ev (wd_tick w)) (en_now ev (Suc (wd_tick w)));
                       s = wd_stored w; r = Suc (ps_revision s);
                       st' = wd_store w\<lparr>st_state := s\<lparr>ps_policyDecisions := ps_policyDecisions s @ [d], ps_revision := r\<rparr>\<rparr>
      in wd_tick w \<le> t \<longrightarrow> valid_state (en_zod ev) (st_state st') \<longrightarrow> ps_revision (wd_state w) = ps_revision s \<longrightarrow>
         Q () ((touched w st' l h t)\<lparr>wd_state := wd_state w\<lparr>ps_revision := r, ps_policyDecisions := ps_policyDecisions (wd_state w) @ [d]\<rparr>\<rparr>)"
    and bad: "\<And>e l h t. wd_tick w \<le> t \<Longrightarrow> E e (touched w (wd_store w) l h t)"
  shows "wp (persistAndRequire ev q) Q E w"
  unfolding persistAndRequire_def Let_def wp_simps
  by (rule wp_protected, rule wp_recordPolicyDecision)
     (use ok in \<open>simp_all add: wp_simps bad Let_def\<close>)

text \<open>C14. The policy gate. \<open>persistAndRequire\<close> returns only when a decision \<open>allow\<close> for exactly this run, step, attempt
  and action, of the state's tenant and project, is the newest one in the store and in the state, and both have the
  same new revision; when it throws, neither has changed.\<close>

theorem policy_gate_persists:
  "case persistAndRequire ev q w of
     (Inr _, w') \<Rightarrow> ps_revision (wd_state w) = ps_revision (wd_stored w)
       \<and> (\<exists>d. pd_runId d = pq_run q \<and> pd_stepId d = pq_step q \<and> pd_attempt d = pq_attempt q
            \<and> pd_actionType d = pq_action q \<and> pd_decision d = Allow
            \<and> pd_tenantId d = ps_org (wd_state w) \<and> pd_projectId d = ps_project (wd_state w)
            \<and> ps_policyDecisions (wd_stored w') = ps_policyDecisions (wd_stored w) @ [d]
            \<and> ps_policyDecisions (wd_state w') = ps_policyDecisions (wd_state w) @ [d]
            \<and> ps_revision (wd_stored w') = ps_revision (wd_stored w) + 1
            \<and> ps_revision (wd_state w') = ps_revision (wd_stored w'))
   | (Inl _, w') \<Rightarrow> wd_store w' = wd_store w \<and> wd_state w' = wd_state w"
proof -
  let ?d = "policy_record q (wd_state w) (en_uuid ev (wd_tick w)) (en_now ev (Suc (wd_tick w)))"
  have "wp (persistAndRequire ev q)
     (\<lambda>_ w'. ps_revision (wd_state w) = ps_revision (wd_stored w)
        \<and> ps_policyDecisions (wd_stored w') = ps_policyDecisions (wd_stored w) @ [?d]
        \<and> ps_policyDecisions (wd_state w') = ps_policyDecisions (wd_state w) @ [?d]
        \<and> ps_revision (wd_stored w') = ps_revision (wd_stored w) + 1
        \<and> ps_revision (wd_state w') = ps_revision (wd_stored w'))
     (\<lambda>_ w'. wd_store w' = wd_store w \<and> wd_state w' = wd_state w) w"
    by (rule wp_persistAndRequire) (simp_all add: Let_def)
  then show ?thesis
    by (cases "persistAndRequire ev q w"; cases "fst (persistAndRequire ev q w)")
       (auto simp: wp_def intro!: exI[of _ ?d])
qed

section \<open>The evidence of a run\<close>

text \<open>\<open>recording r base w\<close>: the run \<open>r\<close> is recording; the stored log is \<open>base\<close> and what the
  buffer holds, which is a chain of \<open>r\<close>'s entries that ends in the remembered checksum.\<close>

definition recording :: "env \<Rightarrow> string \<Rightarrow> run_step list \<Rightarrow> world \<Rightarrow> bool" where
  "recording ev r base w \<longleftrightarrow> (\<exists>b. wd_buffer w = Some b \<and> wd_log w = base @ b
     \<and> (\<forall>s \<in> set b. rs_run s = r \<and> (\<exists>i < wd_tick w. rs_created s = en_now ev i))
     \<and> verifyRunStepEvidenceChain (en_sha ev) b = []
     \<and> rec_get (wd_checksums w) r = link_end None (oldest_first rs_created b))"

definition monotonic_clock :: "env \<Rightarrow> bool" where
  "monotonic_clock ev \<longleftrightarrow> (\<forall>i j. i \<le> j \<longrightarrow> stamp_compare (en_now ev i) (en_now ev j) \<le> 0)"

lemma step_input_sel [simp]:
  "ei_run (step_input i u p sc now) = ri_run i" "ei_created (step_input i u p sc now) = now"
  "ei_prev (step_input i u p sc now) = when_truthy p" "ei_tenant (step_input i u p sc now) = fst sc"
  "ei_project (step_input i u p sc now) = snd sc" "ei_id (step_input i u p sc now) = u"
  "ei_status (step_input i u p sc now) = ri_status i" "ei_step (step_input i u p sc now) = u"
  by (simp_all add: step_input_def)

lemma when_truthy_idem [simp]: "when_truthy (when_truthy x) = when_truthy x"
  by (simp add: when_truthy_def)

lemma wp_record_step:
  assumes ok: "\<And>l h t scope. let step = evidence_entry (en_sha ev) (step_input i (en_uuid ev (wd_tick w)) (rec_get (wd_checksums w) (ri_run i))
                                    scope (en_now ev (Suc (wd_tick w))))
      in Suc (Suc (wd_tick w)) \<le> t \<longrightarrow> valid_state (en_zod ev) (append_step step (wd_stored w)) \<longrightarrow>
         Q () ((touched w (wd_store w\<lparr>st_state := append_step step (wd_stored w)\<rparr>) l h t)
                 \<lparr>wd_latest := Some (ps_revision (wd_stored w)), wd_checksums := rec_set (ri_run i) (rs_checksum step) (wd_checksums w),
                  wd_buffer := map_option (\<lambda>b. b @ [step]) (wd_buffer w)\<rparr>)"
    and bad: "\<And>e l h t. wd_tick w \<le> t \<Longrightarrow> E e (touched w (wd_store w) l h t)"
  shows "wp (record_step ev i) Q E w"
  unfolding record_step_def resolveEvidenceScope_def Let_def wp_simps
  apply (auto simp: wp_simps Let_def bad intro!: wp_protected wp_recordRunStep)
  subgoal for b l h t using ok[where l = l and h = h and t = t and scope = "wd_scope w"] by (simp add: Let_def)
  subgoal for l h t using ok[where l = l and h = h and t = t and scope = "(ps_org (wd_stored w), ps_project (wd_stored w))"]
    by (simp add: Let_def)
  done

lemma recording_touched: "recording ev r base w \<Longrightarrow> wd_tick w \<le> t \<Longrightarrow> recording ev r base (touched w (wd_store w) l h t)"
  unfolding recording_def by auto (meson order.strict_trans2)

lemma chain_grows:
  assumes "recording ev r base w" and "monotonic_clock ev" and sha: "\<And>x. en_sha ev x \<noteq> []"
    and "wd_buffer w = Some b" and "rs_created step = en_now ev k" and "wd_tick w \<le> k"
    and "checksum_ok (en_sha ev) step" and "rs_prev step = when_truthy (rec_get (wd_checksums w) r)"
  shows "verifyRunStepEvidenceChain (en_sha ev) (b @ [step]) = []"
    and "link_end None (oldest_first rs_created (b @ [step])) = Some (rs_checksum step)"
proof -
  have b: "\<forall>s \<in> set b. \<exists>i < wd_tick w. rs_created s = en_now ev i" "verifyRunStepEvidenceChain (en_sha ev) b = []"
    "rec_get (wd_checksums w) r = link_end None (oldest_first rs_created b)"
    using assms(1,4) by (auto simp: recording_def)
  have older: "\<forall>x \<in> set b. stamp_compare (rs_created x) (rs_created step) \<le> 0"
  proof
    fix x assume "x \<in> set b"
    then obtain i where "i < wd_tick w" "rs_created x = en_now ev i" using b(1) by blast
    then show "stamp_compare (rs_created x) (rs_created step) \<le> 0"
      using assms(2,5,6) unfolding monotonic_clock_def by (metis order.strict_implies_order order.strict_trans2)
  qed
  have "rs_checksum s \<noteq> []" if "s \<in> set (oldest_first rs_created b)" for s
    using that b(2) sha unfolding verify_chain_iff checksum_ok_def computeRunStepChecksum_def by simp
  then have "when_truthy (link_end None (oldest_first rs_created b)) = link_end None (oldest_first rs_created b)"
    using last_in_set[of "oldest_first rs_created b"] by (metis link_end_def truthy_simps(2) when_truthy_def)
  then show "verifyRunStepEvidenceChain (en_sha ev) (b @ [step]) = []"
    using verified_chain_extend[OF b(2) assms(7) older] assms(8) b(3) by simp
  show "link_end None (oldest_first rs_created (b @ [step])) = Some (rs_checksum step)"
    using older by (simp add: oldest_first_snoc link_end_def)
qed

lemma record_step_recording:
  assumes "monotonic_clock ev" and "\<And>x. en_sha ev x \<noteq> []" and "ri_run i = r"
  shows "preserves (recording ev r base) (record_step ev i)"
  unfolding preserves_iff_wp
proof (intro allI impI)
  fix w assume w: "recording ev r base w"
  then obtain b where b: "wd_buffer w = Some b" "wd_log w = base @ b"
    "\<forall>s \<in> set b. rs_run s = r \<and> (\<exists>k < wd_tick w. rs_created s = en_now ev k)" by (auto simp: recording_def)
  show "wp (record_step ev i) (\<lambda>_. recording ev r base) (\<lambda>_. recording ev r base) w"
  proof (rule wp_record_step)
    fix l h t scope
    let ?i = "step_input i (en_uuid ev (wd_tick w)) (rec_get (wd_checksums w) (ri_run i)) scope (en_now ev (Suc (wd_tick w)))"
    have grows: "verifyRunStepEvidenceChain (en_sha ev) (b @ [evidence_entry (en_sha ev) ?i]) = []"
      "link_end None (oldest_first rs_created (b @ [evidence_entry (en_sha ev) ?i])) = Some (rs_checksum (evidence_entry (en_sha ev) ?i))"
      using assms(3) by (auto intro!: chain_grows[OF w assms(1,2) b(1), where k = "Suc (wd_tick w)"] evidence_entry_checksum_ok)
    have "\<forall>s \<in> set b. \<exists>k < t. rs_created s = en_now ev k" if "Suc (Suc (wd_tick w)) \<le> t"
      using b(3) that by (meson Suc_leD order.strict_trans2)
    then show "let step = evidence_entry (en_sha ev) ?i
      in Suc (Suc (wd_tick w)) \<le> t \<longrightarrow> valid_state (en_zod ev) (append_step step (wd_stored w)) \<longrightarrow>
         recording ev r base ((touched w (wd_store w\<lparr>st_state := append_step step (wd_stored w)\<rparr>) l h t)
                 \<lparr>wd_latest := Some (ps_revision (wd_stored w)), wd_checksums := rec_set (ri_run i) (rs_checksum step) (wd_checksums w),
                  wd_buffer := map_option (\<lambda>b. b @ [step]) (wd_buffer w)\<rparr>)"
      using b grows assms(3) unfolding recording_def Let_def
      by (auto simp: append_step_def intro!: exI[of _ "Suc (wd_tick w)"])
  qed (use w recording_touched in blast)
qed


section \<open>A sample run\<close>

lemma valid_append_step: "valid_state z (append_step step s) \<longleftrightarrow> valid_state z s \<and> runStepLogEntrySchema (z_iso z) step"
  by (auto simp: valid_state_iff append_step_def projectStateDeepSchema_def executionStateSchema_def
      feature_issues_Nil epic_issues_Nil task_issues_Nil blocked_issues_Nil completed_issues_Nil)

definition sample_env :: env where
  "sample_env = \<lparr> en_zod = sample_zod, en_sha = Cons CHR ''h'', en_lc = code_unit_compare,
                  en_uuid = (\<lambda>n. ''u'' @ nat_to_string n), en_now = (\<lambda>n. Iso (int n)) \<rparr>"

definition sample_world :: world where
  "sample_world = \<lparr> wd_guard = \<lparr> gd_store = sample_store, gd_locks = sample_lock_state, gd_lease = None \<rparr>, wd_state = sample_state,
     wd_checksums = [], wd_buffer = None, wd_latest = None, wd_scope = (''default-org'', ''ai-orchestrator''),
     wd_cost = \<lparr> ct_tokensRun = 0, ct_tokensTask = 0, ct_usdMicro = 0 \<rparr>, wd_effects = [], wd_tick = 0 \<rparr>"

definition sample_record :: record_input where
  "sample_record = \<lparr> ri_run = ''r'', ri_task = Some ''t2'', ri_role = ''coder'', ri_tool = None, ri_input = JStr ''in'',
     ri_output = JStr ''out'', ri_status = Step_Succeeded, ri_duration = 1 \<rparr>"

lemma sample_clock: "monotonic_clock sample_env" "en_sha sample_env x \<noteq> []"
  by (simp_all add: monotonic_clock_def sample_env_def)

lemma nat_to_string_not_Nil [simp]: "nat_to_string n \<noteq> []"
  by (subst nat_to_string.simps) simp

definition next_step :: "env \<Rightarrow> record_input \<Rightarrow> world \<Rightarrow> run_step" where
  "next_step ev i w = evidence_entry (en_sha ev)
     (step_input i (en_uuid ev (wd_tick w)) (rec_get (wd_checksums w) (ri_run i))
        (case wd_buffer w of None \<Rightarrow> (ps_org (wd_stored w), ps_project (wd_stored w)) | Some _ \<Rightarrow> wd_scope w)
        (en_now ev (Suc (wd_tick w))))"

lemma record_step_runs:
  assumes "gd_lease (wd_guard w) = None"
    and "recordRunStep (en_zod ev) (next_step ev i w) (wd_store w) = (Inr r, st)"
  shows "fst (record_step ev i w) = Inr ()"
proof -
  have "wp (record_step ev i) (\<lambda>x _. True) (\<lambda>_ _. False) w"
    using assms
    unfolding record_step_def resolveEvidenceScope_def protectedA_def require_valid_def Let_def next_step_def
    by (cases "wd_buffer w") (simp_all add: wp_simps, simp_all add: wp_def requireLease_def)
  then show ?thesis by (cases "record_step ev i w"; cases "fst (record_step ev i w)") (simp_all add: wp_def)
qed

lemma recordable_step_runs:
  assumes "ri_run i \<noteq> []" "ri_role i \<noteq> []" "0 \<le> ri_duration i" and "gd_lease (wd_guard w) = None" and "valid_state sample_zod (wd_stored w)"
    and "wd_buffer w \<noteq> None \<Longrightarrow> wd_scope w = (''org'', ''p'')" and "ps_org (wd_stored w) = ''org''" "ps_project (wd_stored w) = ''p''"
    and "\<forall>s \<in> set (wd_log w). rs_step s \<noteq> en_uuid sample_env (wd_tick w)"
    and "\<forall>p. rec_get (wd_checksums w) (ri_run i) = Some p \<longrightarrow> p \<noteq> []"
  shows "fst (record_step sample_env i w) = Inr ()"
proof (rule record_step_runs[OF assms(4)])
  define step where "step = next_step sample_env i w"
  have sid: "rs_step step = en_uuid sample_env (wd_tick w)" by (simp add: step_def next_step_def)
  have none: "previous_entry step (wd_log w) = None"
    using assms(9) unfolding previous_entry_def sid newest_first_def by (auto simp: filter_False split: list.splits)
  have scope: "(case wd_buffer w of None \<Rightarrow> (ps_org (wd_stored w), ps_project (wd_stored w)) | Some _ \<Rightarrow> wd_scope w) = (''org'', ''p'')"
    using assms(6-8) by (cases "wd_buffer w") auto
  have "runStepLogEntrySchema (z_iso sample_zod) step" and own: "rs_tenant step = ''org''" "rs_project step = ''p''"
    using assms(1-3,10)
    by (auto simp: step_def next_step_def scope runStepLogEntrySchema_def evidence_entry_def Let_def step_input_def sample_env_def
        opt_min1_def when_truthy_def sample_zod_def computeRunStepChecksum_def split: option.splits)
  then have "valid_state sample_zod (append_step step (wd_stored w))" using assms(5) by (simp add: valid_append_step)
  then show "recordRunStep (en_zod sample_env) (next_step sample_env i w) (wd_store w)
      = (Inr (ps_revision (wd_stored w)), wd_store w\<lparr>st_state := append_step step (wd_stored w)\<rparr>)"
    using none assms(7,8) own unfolding step_def[symmetric] by (simp add: recordRunStep_Inr sample_env_def)
qed

lemma sample_step_runs:
  assumes "gd_lease (wd_guard w) = None" and "valid_state sample_zod (wd_stored w)"
    and "wd_buffer w \<noteq> None \<Longrightarrow> wd_scope w = (''org'', ''p'')" and "ps_org (wd_stored w) = ''org''" "ps_project (wd_stored w) = ''p''"
    and "\<forall>s \<in> set (wd_log w). rs_step s \<noteq> en_uuid sample_env (wd_tick w)"
    and "\<forall>p. rec_get (wd_checksums w) ''r'' = Some p \<longrightarrow> p \<noteq> []"
  shows "fst (record_step sample_env sample_record w) = Inr ()"
  by (rule recordable_step_runs) (use assms in \<open>simp_all add: sample_record_def\<close>)

section \<open>A step recorded before the run starts\<close>

lemma unlinked_pair:
  assumes "stamp_compare (rs_created a) (rs_created b) \<le> 0" and "rs_prev b = None" and "rs_checksum a \<noteq> []"
  shows "verifyRunStepEvidenceChain sha [a, b] \<noteq> []"
proof -
  have "oldest_first rs_created [a, b] = [a, b]" by (rule oldest_first_sorted) (use assms(1) in simp)
  then show ?thesis using assms(2,3) by (simp add: verifyRunStepEvidenceChain_def)
qed

text \<open>A step recorded before \<open>startRun\<close> breaks the run's evidence. When a step of a run is recorded while no run
  is started, as the orchestrator does for its task manager, and the run then starts and records another step,
  the two are not linked: listing the run's steps throws, and the buffer that is flushed
  into the run's state lacks the first step, which the next snapshot then overwrites.\<close>

theorem selection_step_breaks_chain:
  assumes "monotonic_clock ev" and "\<And>x. en_sha ev x \<noteq> []" and "r \<noteq> []" and "wd_buffer w = None"
    and "\<forall>s \<in> set (wd_log w). rs_run s \<noteq> r" and "ri_run i = r" and "ri_run j = r"
    and "thenA (record_step ev i) (thenA (startRun r scope) (record_step ev j)) w = (Inr (), w')"
  shows "(\<exists>issues. fst (listRunSteps (en_sha ev) \<lparr> sq_run = Some r, sq_task = None, sq_limit = None, sq_offset = None \<rparr> (wd_store w'))
            = Inl (Js_Error StateStoreError ''EVIDENCE_INTEGRITY_VIOLATION'' (r # issues)))
    \<and> (\<exists>a b. wd_log w' = wd_log w @ [a, b] \<and> rs_run a = r \<and> wd_buffer w' = Some [b])"
proof -
  have list: "\<exists>issues. fst (listRunSteps (en_sha ev) \<lparr> sq_run = Some r, sq_task = None, sq_limit = None, sq_offset = None \<rparr> st)
        = Inl (Js_Error StateStoreError ''EVIDENCE_INTEGRITY_VIOLATION'' (r # issues))"
    if "ex_runStepLog (ps_execution (st_state st)) = wd_log w @ [a, b]" "rs_run a = r" "rs_run b = r"
      "verifyRunStepEvidenceChain (en_sha ev) [a, b] \<noteq> []" for st a b
    using that assms(3,5) by (auto simp: listRunSteps_def load_def matching_steps_def act_defs Let_def filter_True)
  have "wp (thenA (record_step ev i) (thenA (startRun r scope) (record_step ev j)))
     (\<lambda>_ w'. \<exists>a b. wd_log w' = wd_log w @ [a, b] \<and> wd_buffer w' = Some [b] \<and> rs_run a = r \<and> rs_run b = r
        \<and> verifyRunStepEvidenceChain (en_sha ev) [a, b] \<noteq> []) (\<lambda>_ _. True) w"
    unfolding wp_thenA
  proof (rule wp_record_step, goal_cases)
    case (1 l h t sc)
    define a where "a = evidence_entry (en_sha ev) (step_input i (en_uuid ev (wd_tick w)) (rec_get (wd_checksums w) (ri_run i)) sc (en_now ev (Suc (wd_tick w))))"
    have a: "rs_run a = r" "rs_created a = en_now ev (Suc (wd_tick w))" "rs_checksum a \<noteq> []"
      using assms(2,6) evidence_entry_checksum_ok[of "en_sha ev"]
      by (simp_all add: a_def checksum_ok_def computeRunStepChecksum_def)
    show ?case
      unfolding Let_def a_def[symmetric] startRun_def wp_modA
    proof (intro impI wp_record_step, goal_cases)
      case (1 l' h' t' sc')
      define b where "b = evidence_entry (en_sha ev) (step_input j (en_uuid ev t) None sc' (en_now ev (Suc t)))"
      have b: "rs_run b = r" "rs_created b = en_now ev (Suc t)" "rs_prev b = None"
        using assms(7) by (simp_all add: b_def when_truthy_def)
      have "stamp_compare (rs_created a) (rs_created b) \<le> 0" using assms(1) 1 a(2) b(2) by (simp add: monotonic_clock_def)
      then have "verifyRunStepEvidenceChain (en_sha ev) [a, b] \<noteq> []" using unlinked_pair a(3) b(3) by blast
      then show ?case using a b assms(6,7) by (auto simp: Let_def append_step_def delete_conv b_def[symmetric])
    qed simp
  qed simp
  then show ?thesis using assms(8) list by (auto simp: wp_def)
qed

lemma preserves_no_lease: "preserves (\<lambda>w. gd_lease (wd_guard w) = None) (record_step ev i)"
proof -
  have p: "preserves (\<lambda>w. gd_lease (wd_guard w) = None) (protectedA ev m)" for m :: "(store, 'x) act"
    by (auto simp: preserves_def protectedA_def require_valid_def thenA_def bindA_def clock_def in_guard_def requireLease_def
        on_store_def split: prod.splits)
  show ?thesis
    unfolding record_step_def resolveEvidenceScope_def Let_def
    by (intro preserves_intros p preserves_modA)
       (auto simp: preserves_def fresh_uuid_def clock_def unprotected_def in_guard_def on_store_def load_def getA_def)
qed

lemma sample_step_next:
  assumes "gd_lease (wd_guard w) = None" and "valid_state sample_zod (wd_stored w)" and "record_step sample_env sample_record w = (Inr (), w1)"
  shows "gd_lease (wd_guard w1) = None" and "valid_state sample_zod (wd_stored w1)"
    and "ps_org (wd_stored w1) = ps_org (wd_stored w)" and "ps_project (wd_stored w1) = ps_project (wd_stored w)"
    and "\<exists>s. wd_log w1 = wd_log w @ [s] \<and> rs_step s = en_uuid sample_env (wd_tick w)"
    and "wd_tick w < wd_tick w1"
proof -
  show "gd_lease (wd_guard w1) = None" using preservesD[OF preserves_no_lease, of w sample_env sample_record] assms(1,3) by simp
  have "wp (record_step sample_env sample_record) (\<lambda>_ w1. valid_state sample_zod (wd_stored w1)
      \<and> ps_org (wd_stored w1) = ps_org (wd_stored w) \<and> ps_project (wd_stored w1) = ps_project (wd_stored w)
      \<and> (\<exists>s. wd_log w1 = wd_log w @ [s] \<and> rs_step s = en_uuid sample_env (wd_tick w)) \<and> wd_tick w < wd_tick w1)
      (\<lambda>_ _. True) w"
    by (rule wp_record_step) (auto simp: Let_def append_step_def sample_env_def)
  then show "valid_state sample_zod (wd_stored w1)" "ps_org (wd_stored w1) = ps_org (wd_stored w)"
    "ps_project (wd_stored w1) = ps_project (wd_stored w)" "wd_tick w < wd_tick w1"
    "\<exists>s. wd_log w1 = wd_log w @ [s] \<and> rs_step s = en_uuid sample_env (wd_tick w)"
    using assms(3) by (simp_all add: wp_def)
qed

lemma sample_selection_runs:
  "fst (thenA (record_step sample_env sample_record) (thenA (startRun ''r'' (''org'', ''p'')) (record_step sample_env sample_record)) sample_world) = Inr ()"
proof -
  have "fst (record_step sample_env sample_record sample_world) = Inr ()"
    by (rule sample_step_runs) (simp_all add: sample_world_def sample_store_def sample_state_valid)
  then obtain w1 where r1: "record_step sample_env sample_record sample_world = (Inr (), w1)"
    by (cases "record_step sample_env sample_record sample_world") auto
  note n = sample_step_next[OF _ _ r1]
  define w2 where "w2 = snd (startRun ''r'' (''org'', ''p'') w1)"
  have r2: "startRun ''r'' (''org'', ''p'') w1 = (Inr (), w2)" by (simp add: w2_def startRun_def modA_def)
  obtain s where s: "wd_log w1 = [s]" "rs_step s = en_uuid sample_env 0"
    using n(5) by (auto simp: sample_world_def sample_store_def sample_state_valid)
  have "0 < wd_tick w1" using n(6) by (simp add: sample_world_def sample_store_def sample_state_valid)
  then have "en_uuid sample_env 0 \<noteq> en_uuid sample_env (wd_tick w1)" by (auto simp: sample_env_def dest: nat_to_string_inj)
  then have "fst (record_step sample_env sample_record w2) = Inr ()"
    using n(1-4) s
    by (intro sample_step_runs) (auto simp: w2_def startRun_def modA_def sample_world_def sample_store_def sample_state_valid delete_conv)
  then show ?thesis using r1 r2 by (simp add: thenA_def bindA_def)
qed

text \<open>A world in which the sample environment can record any step.\<close>

definition drawn :: "nat \<Rightarrow> run_step list \<Rightarrow> bool" where
  "drawn t l \<longleftrightarrow> (\<forall>s \<in> set l. rs_step s \<in> en_uuid sample_env ` {..<t})"

lemma drawn_mono: "drawn t l \<Longrightarrow> t \<le> u \<Longrightarrow> drawn u l"
  by (fastforce simp: drawn_def)

lemma drawn_append: "drawn t l \<Longrightarrow> rs_step s = en_uuid sample_env t \<Longrightarrow> Suc t \<le> u \<Longrightarrow> drawn u (l @ [s])"
  by (fastforce simp: drawn_def)

lemma drawn_fresh: "drawn t l \<Longrightarrow> s \<in> set l \<Longrightarrow> rs_step s \<noteq> en_uuid sample_env t"
  by (fastforce simp: drawn_def sample_env_def dest: nat_to_string_inj)

definition ready :: "world \<Rightarrow> bool" where
  "ready w \<longleftrightarrow> gd_lease (wd_guard w) = None \<and> valid_state sample_zod (wd_stored w) \<and>
     ps_org (wd_stored w) = ''org'' \<and> ps_project (wd_stored w) = ''p'' \<and> (wd_buffer w \<noteq> None \<longrightarrow> wd_scope w = (''org'', ''p'')) \<and>
     drawn (wd_tick w) (wd_log w) \<and>
     (\<forall>r p. rec_get (wd_checksums w) r = Some p \<longrightarrow> p \<noteq> [])"

definition recordable :: "record_input \<Rightarrow> bool" where
  "recordable i \<longleftrightarrow> ri_run i \<noteq> [] \<and> ri_role i \<noteq> [] \<and> 0 \<le> ri_duration i"

lemma ready_sample: "ready sample_world"
  by (simp add: ready_def drawn_def sample_world_def sample_store_def sample_state_valid)

lemma ready_tick: "ready w \<Longrightarrow> wd_tick w \<le> t \<Longrightarrow> ready (w\<lparr>wd_tick := t\<rparr>)"
  by (auto simp: ready_def intro: drawn_mono)

lemma ready_outside: "ready (w\<lparr>wd_effects := es\<rparr>) = ready w" "ready (w\<lparr>wd_cost := c\<rparr>) = ready w" "ready (w\<lparr>wd_state := s\<rparr>) = ready w"
  by (simp_all add: ready_def)

lemma ready_startRun: "ready w \<Longrightarrow> ready (snd (startRun r (''org'', ''p'') w))"
  by (auto simp: ready_def startRun_def modA_def delete_conv split: if_splits)

lemma ready_append:
  assumes "ready w" and "rs_step s = en_uuid sample_env (wd_tick w)" and "rs_checksum s \<noteq> []" and "Suc (Suc (wd_tick w)) \<le> t"
    and "valid_state (en_zod sample_env) (append_step s (wd_stored w))"
    and "gd_lease (wd_guard ((touched w (wd_store w\<lparr>st_state := append_step s (wd_stored w)\<rparr>) l h t)
           \<lparr>wd_latest := v, wd_checksums := rec_set r (rs_checksum s) (wd_checksums w), wd_buffer := map_option f (wd_buffer w)\<rparr>)) = None"
  shows "ready ((touched w (wd_store w\<lparr>st_state := append_step s (wd_stored w)\<rparr>) l h t)
           \<lparr>wd_latest := v, wd_checksums := rec_set r (rs_checksum s) (wd_checksums w), wd_buffer := map_option f (wd_buffer w)\<rparr>)"
proof -
  have e: "en_zod sample_env = sample_zod" by (simp add: sample_env_def)
  have "drawn t (wd_log w @ [s])" using assms(1,2,4) by (intro drawn_append[of "wd_tick w"]) (simp_all add: ready_def)
  then show ?thesis
    using assms(1,3,5,6) unfolding ready_def e by (auto simp: append_step_def)
qed

lemma wp_ready_record_step:
  assumes "ready w" and "recordable i"
  shows "wp (record_step sample_env i) (\<lambda>_ u. ready u \<and> wd_tick w \<le> wd_tick u \<and> wd_effects u = wd_effects w \<and>
    (\<exists>s. wd_log u = wd_log w @ [s] \<and> rs_status s = ri_status i \<and> rs_tool s = when_truthy (ri_tool i)))
    (\<lambda>_ _. False) w"
proof -
  have "\<forall>s \<in> set (wd_log w). rs_step s \<noteq> en_uuid sample_env (wd_tick w)"
    using assms(1) drawn_fresh by (auto simp: ready_def)
  then have run: "fst (record_step sample_env i w) = Inr ()"
    using assms by (intro recordable_step_runs) (auto simp: ready_def recordable_def)
  have lease: "gd_lease (wd_guard (snd (record_step sample_env i w))) = None"
    using preservesD[OF preserves_no_lease, of w sample_env i] assms(1) by (simp add: ready_def)
  have "wp (record_step sample_env i) (\<lambda>_ u. (gd_lease (wd_guard u) = None \<longrightarrow> ready u) \<and> (wd_tick w \<le> wd_tick u \<and> wd_effects u = wd_effects w) \<and>
      (\<exists>s. wd_log u = wd_log w @ [s] \<and> rs_status s = ri_status i \<and> rs_tool s = when_truthy (ri_tool i))) (\<lambda>_ _. True) w"
  proof (rule wp_record_step)
    fix l h t scope
    let ?s = "evidence_entry (en_sha sample_env) (step_input i (en_uuid sample_env (wd_tick w)) (rec_get (wd_checksums w) (ri_run i)) scope
                (en_now sample_env (Suc (wd_tick w))))"
    have "rs_step ?s = en_uuid sample_env (wd_tick w)" "rs_checksum ?s \<noteq> []" "rs_status ?s = ri_status i" "rs_tool ?s = when_truthy (ri_tool i)"
      by (simp_all add: evidence_entry_def step_input_def Let_def computeRunStepChecksum_def sample_clock)
    then show "let step = ?s in Suc (Suc (wd_tick w)) \<le> t \<longrightarrow> valid_state (en_zod sample_env) (append_step step (wd_stored w)) \<longrightarrow>
        (gd_lease (wd_guard ((touched w (wd_store w\<lparr>st_state := append_step step (wd_stored w)\<rparr>) l h t)
           \<lparr>wd_latest := Some (ps_revision (wd_stored w)), wd_checksums := rec_set (ri_run i) (rs_checksum step) (wd_checksums w),
             wd_buffer := map_option (\<lambda>b. b @ [step]) (wd_buffer w)\<rparr>)) = None \<longrightarrow>
         ready ((touched w (wd_store w\<lparr>st_state := append_step step (wd_stored w)\<rparr>) l h t)
           \<lparr>wd_latest := Some (ps_revision (wd_stored w)), wd_checksums := rec_set (ri_run i) (rs_checksum step) (wd_checksums w),
             wd_buffer := map_option (\<lambda>b. b @ [step]) (wd_buffer w)\<rparr>)) \<and>
        (wd_tick w \<le> wd_tick ((touched w (wd_store w\<lparr>st_state := append_step step (wd_stored w)\<rparr>) l h t)
           \<lparr>wd_latest := Some (ps_revision (wd_stored w)), wd_checksums := rec_set (ri_run i) (rs_checksum step) (wd_checksums w),
             wd_buffer := map_option (\<lambda>b. b @ [step]) (wd_buffer w)\<rparr>) \<and>
         wd_effects ((touched w (wd_store w\<lparr>st_state := append_step step (wd_stored w)\<rparr>) l h t)
           \<lparr>wd_latest := Some (ps_revision (wd_stored w)), wd_checksums := rec_set (ri_run i) (rs_checksum step) (wd_checksums w),
             wd_buffer := map_option (\<lambda>b. b @ [step]) (wd_buffer w)\<rparr>) = wd_effects w) \<and>
        (\<exists>s. wd_log ((touched w (wd_store w\<lparr>st_state := append_step step (wd_stored w)\<rparr>) l h t)
           \<lparr>wd_latest := Some (ps_revision (wd_stored w)), wd_checksums := rec_set (ri_run i) (rs_checksum step) (wd_checksums w),
             wd_buffer := map_option (\<lambda>b. b @ [step]) (wd_buffer w)\<rparr>) = wd_log w @ [s] \<and> rs_status s = ri_status i \<and> rs_tool s = when_truthy (ri_tool i))"
      unfolding Let_def using assms(1) by (intro impI conjI ready_append) (auto simp: append_step_def)
  qed simp
  then show ?thesis using run lease by (cases "record_step sample_env i w") (simp add: wp_def)
qed

theorem selection_step_breaks_chain_witness:
  "\<exists>issues w'. thenA (record_step sample_env sample_record) (thenA (startRun ''r'' (''org'', ''p'')) (record_step sample_env sample_record)) sample_world
       = (Inr (), w')
     \<and> fst (listRunSteps (en_sha sample_env) \<lparr> sq_run = Some ''r'', sq_task = None, sq_limit = None, sq_offset = None \<rparr> (wd_store w'))
       = Inl (Js_Error StateStoreError ''EVIDENCE_INTEGRITY_VIOLATION'' (''r'' # issues))"
proof -
  obtain w' where "thenA (record_step sample_env sample_record) (thenA (startRun ''r'' (''org'', ''p'')) (record_step sample_env sample_record)) sample_world
      = (Inr (), w')"
    using sample_selection_runs by (metis prod.collapse)
  from selection_step_breaks_chain[OF sample_clock(1) sample_clock(2) _ _ _ _ _ this] this show ?thesis
    by (auto simp: sample_world_def sample_store_def sample_record_def)
qed


end
