(* ===== verification/Failure_Handling.thy ===== *)
theory Failure_Handling
  imports Recorders
begin

text \<open>
  What happens when a review or a test fails: \<open>packages/execution/src/failure/failure-handler.ts\<close>, which retries,
  splits or blocks the task; \<open>queue/dead-letter-handler.ts\<close> and \<open>queue/replay-controller.ts\<close>; the recovery
  checkpoints of \<open>packages/state/src/recovery/recovery-checkpoint.store.ts\<close> and
  \<open>packages/execution/src/recovery/resume-from-checkpoint.ts\<close>; and the two commands of
  \<open>packages/application/src/control-plane-service.ts\<close> that act on dead-lettered failures.

  A \<open>BacklogTask\<close> the code passes around is an object inside the state; \<open>modify_task\<close> writes to it by its id.
\<close>

section \<open>Tasks inside the state\<close>

definition set_tasks :: "(task jsrec \<Rightarrow> task jsrec) \<Rightarrow> project_state \<Rightarrow> project_state" where
  "set_tasks f s = s\<lparr>ps_backlog := (ps_backlog s)\<lparr>backlog_tasks := f (tasks_of s)\<rparr>\<rparr>"

definition modify_task :: "string \<Rightarrow> (task \<Rightarrow> task) \<Rightarrow> project_state \<Rightarrow> project_state" where
  "modify_task tid f = set_tasks (map (\<lambda>(k, t). (k, if task_id t = tid then f t else t)))"

definition set_features :: "(feature jsrec \<Rightarrow> feature jsrec) \<Rightarrow> project_state \<Rightarrow> project_state" where
  "set_features f s = s\<lparr>ps_backlog := (ps_backlog s)\<lparr>backlog_features := f (features_of s)\<rparr>\<rparr>"

datatype cycle_status = Cycle_Completed | Cycle_Blocked | Cycle_Idle

record cycle_result =
  cr_run :: string
  cr_status :: cycle_status
  cr_task :: "string option"
  cr_reason :: "string option"

section \<open>Splitting\<close>

definition rewriteSupersededDependencies :: "string \<Rightarrow> string \<Rightarrow> task list \<Rightarrow> project_state \<Rightarrow> project_state" where
  "rewriteSupersededDependencies superseded completion children =
     set_tasks (map (\<lambda>(k, c).
       (k, if task_id c = superseded \<or> task_id c \<in> task_id ` set children then c
           else if superseded \<notin> set (task_depends c) then c
           else c\<lparr>task_depends := dedup (map (\<lambda>d. if d = superseded then completion else d) (task_depends c))\<rparr>)))"

definition add_child :: "string \<Rightarrow> task \<Rightarrow> project_state \<Rightarrow> project_state" where
  "add_child fid c s =
     (let s' = set_tasks (rec_set (task_id c) c) s in
      case rec_get (features_of s') fid of
        None \<Rightarrow> s'
      | Some f \<Rightarrow> if task_id c \<in> set (feature_tasks f) then s'
                  else set_features (rec_set fid (f\<lparr>feature_tasks := feature_tasks f @ [task_id c]\<rparr>)) s')"

text \<open>The changes of \<open>splitTaskForFailure\<close> to the backlog and the blocked list.\<close>

definition apply_split :: "task \<Rightarrow> string \<Rightarrow> project_state \<Rightarrow> project_state" where
  "apply_split t reason s =
     (let plan = splitTaskForRetry t reason;
          s1 = modify_task (task_id t) (\<lambda>t. t\<lparr>task_status := Superseded\<rparr>) s;
          s2 = s1\<lparr>ps_execution := (ps_execution s1)\<lparr>ex_blocked := filter (\<lambda>x. x \<noteq> task_id t) (ex_blocked (ps_execution s1))\<rparr>\<rparr>;
          s3 = fold (add_child (task_feature t)) (plan_child_list plan) s2
      in rewriteSupersededDependencies (task_id t) (plan_completion plan) (plan_child_list plan) s3)"

definition splitTaskForFailure :: "env \<Rightarrow> task \<Rightarrow> string \<Rightarrow> string \<Rightarrow> cycle_result run" where
  "splitTaskForFailure ev t reason run =
     (let plan = splitTaskForRetry t reason; ids = map task_id (plan_child_list plan) in
      thenA (set_state (apply_split t reason))
     (bindA (makeArtifact ev Report_Artifact (''Task split for '' @ task_id t)
               [(''taskId'', task_id t), (''reason'', reason), (''childTaskIds'', join '','' ids)]) (\<lambda>a.
      bindA (fresh_uuid ev) (\<lambda>u. bindA (clock ev) (\<lambda>now.
      thenA (push_artifact a)
     (thenA (set_state (\<lambda>s. s\<lparr>ps_decisions := ps_decisions s @
               [\<lparr> di_id = u, di_title = ''Split task '' @ task_id t,
                  di_decision = ''Split '' @ task_id t @ '' into '' @ join '', '' ids,
                  di_rationale = plan_rationale plan, di_areas = task_modules t, di_created = now \<rparr>]\<rparr>))
     (bindA (fresh_uuid ev) (\<lambda>eu. bindA (clock ev) (\<lambda>en.
      thenA (save_state ev [makeEvent eu en TASK_SPLIT
               [(''taskId'', [task_id t]), (''childTaskIds'', ids), (''reason'', [reason])] (Some run) None])
            (ret \<lparr> cr_run = run, cr_status = Cycle_Idle, cr_task = Some (task_id t), cr_reason = Some ''task_split'' \<rparr>))))))))))"

section \<open>Blocking\<close>

definition apply_block :: "string \<Rightarrow> project_state \<Rightarrow> project_state" where
  "apply_block tid s =
     (let s1 = modify_task tid (\<lambda>t. t\<lparr>task_status := Blocked\<rparr>) s
      in s1\<lparr>ps_execution := (ps_execution s1)\<lparr>ex_blocked :=
              (if tid \<in> set (ex_blocked (ps_execution s1)) then ex_blocked (ps_execution s1)
               else ex_blocked (ps_execution s1) @ [tid])\<rparr>\<rparr>)"

definition blockTaskForFailure :: "env \<Rightarrow> task \<Rightarrow> string \<Rightarrow> string \<Rightarrow> cycle_result run" where
  "blockTaskForFailure ev t reason run =
     thenA (set_state (apply_block (task_id t)))
    (bindA (makeArtifact ev Report_Artifact (''Escalation for '' @ task_id t)
              [(''taskId'', task_id t), (''reason'', reason)]) (\<lambda>a.
     thenA (push_artifact a)
    (bindA (getA own_revision) (\<lambda>e.
     bindA (protectedA ev (recordArtifact (en_zod ev) a e)) (\<lambda>r.
     thenA (set_revision r)
    (bindA (fresh_uuid ev) (\<lambda>eu. bindA (clock ev) (\<lambda>en.
     thenA (save_state ev [makeEvent eu en TASK_BLOCKED [(''taskId'', [task_id t]), (''reason'', [reason])] (Some run) None])
           (ret \<lparr> cr_run = run, cr_status = Cycle_Blocked, cr_task = Some (task_id t), cr_reason = Some reason \<rparr>)))))))))"

section \<open>The handler\<close>

definition failure_of :: "task \<Rightarrow> agent_role \<Rightarrow> string \<Rightarrow> string \<Rightarrow> failure_action \<Rightarrow> stamp \<Rightarrow> failure_input" where
  "failure_of t role reason run action now =
     \<lparr> fi_task = task_id t, fi_role = role, fi_reason = reason, fi_symptoms = None, fi_bad = None,
       fi_retry = Some (action \<noteq> Block_Action),
       fi_status = Some (if action = Block_Action then Dead_Lettered else Retryable), fi_run = Some run, fi_step = None,
       fi_dead = (if action = Block_Action then Some now else None) \<rparr>"

text \<open>What the handler copies from the store's answer into the state.\<close>

definition note_failure :: "string \<Rightarrow> failure \<Rightarrow> nat \<Rightarrow> project_state \<Rightarrow> project_state" where
  "note_failure tid f n s =
     s\<lparr> ps_failures := ps_failures s @ [f],
        ps_execution := (ps_execution s)\<lparr>ex_retryCounts := rec_set tid n (ex_retryCounts (ps_execution s)), ex_activeTask := None\<rparr> \<rparr>"

definition handle_failure :: "env \<Rightarrow> nat \<Rightarrow> task \<Rightarrow> agent_role \<Rightarrow> string \<Rightarrow> string \<Rightarrow> cycle_result run" where
  "handle_failure ev maxRetries t role reason run =
     bindA (getA wd_state) (\<lambda>s.
       let action = nextFailureAction t (retries_of s (task_id t)) maxRetries in
       bindA (clock ev) (\<lambda>now.
       bindA (fresh_uuid ev) (\<lambda>fu. bindA (clock ev) (\<lambda>created.
       bindA (protectedA ev (recordFailure (en_zod ev) fu created (failure_of t role reason run action now)
                               (Some (int (ps_revision s))))) (\<lambda>(f, n, r).
       thenA (set_revision r)
      (thenA (set_state (note_failure (task_id t) f n))
      (thenA flushToState
        (case action of
           Split_Action \<Rightarrow> splitTaskForFailure ev t reason run
         | Block_Action \<Rightarrow> blockTaskForFailure ev t reason run
         | Retry_Action \<Rightarrow> thenA (save_state ev [])
             (ret \<lparr> cr_run = run, cr_status = Cycle_Idle, cr_task = Some (task_id t), cr_reason = Some reason \<rparr>)))))))))"

section \<open>Dead letters\<close>

definition failure_state :: "failure \<Rightarrow> failure_status" where
  "failure_state f = or_default (fl_status f) Retryable"

fun failure_status_text :: "failure_status \<Rightarrow> string" where
  "failure_status_text Retryable = ''retryable''"
| "failure_status_text Dead_Lettered = ''dead_lettered''"
| "failure_status_text Resumed_Failure = ''resumed''"
| "failure_status_text Replayed_Failure = ''replayed''"

definition ensureDeadLetteredFailure :: "failure \<Rightarrow> stamp \<Rightarrow> (failure \<times> bool) result" where
  "ensureDeadLetteredFailure f now =
     (let cur = failure_state f in
      if cur = Dead_Lettered then Inr (f, False)
      else if cur = Resumed_Failure \<or> cur = Replayed_Failure
      then Inl (Js_Error WorkflowPolicyError (''Failure '' @ fl_id f @ '' cannot be dead-lettered from status '' @ failure_status_text cur)
                  [fl_id f, failure_status_text cur, ''dead_letter_failure''])
      else Inr (f\<lparr>fl_status := Some Dead_Lettered, fl_dead := Some now\<rparr>, True))"

definition assertReplayableFailure :: "failure \<Rightarrow> unit result" where
  "assertReplayableFailure f =
     (if failure_state f \<noteq> Dead_Lettered
      then Inl (Js_Error WorkflowPolicyError (''Failure '' @ fl_id f @ '' is not dead-lettered'')
                  [fl_id f, failure_status_text (failure_state f), ''replay_failure''])
      else Inr ())"

definition selectReplayCheckpoint :: "failure \<Rightarrow> (string \<times> string option) result" where
  "selectReplayCheckpoint f =
     (case assertReplayableFailure f of Inl e \<Rightarrow> Inl e | Inr _ \<Rightarrow> Inr (fl_task f, when_truthy (fl_run f)))"

section \<open>Commands of the control plane\<close>

text \<open>\<open>state.failures.find\<close> gives an object of the state; writing to it changes the first failure with that id.\<close>

fun update_first :: "('a \<Rightarrow> bool) \<Rightarrow> ('a \<Rightarrow> 'a) \<Rightarrow> 'a list \<Rightarrow> 'a list" where
  "update_first P f [] = []"
| "update_first P f (x # xs) = (if P x then f x # xs else x # update_first P f xs)"

definition missing_failure :: "string \<Rightarrow> string \<Rightarrow> js_error" where
  "missing_failure fid op = Js_Error WorkflowPolicyError (''Failure '' @ fid @ '' not found'') [fid, op]"

text \<open>\<open>state.backlog.tasks[failure.taskId]\<close> is read by its key.\<close>

definition unblock_task :: "string \<Rightarrow> project_state \<Rightarrow> project_state" where
  "unblock_task k s =
     (case rec_get (tasks_of s) k of
        None \<Rightarrow> s
      | Some t \<Rightarrow>
          if task_status t = Blocked
          then let s1 = set_tasks (rec_set k (t\<lparr>task_status := Todo\<rparr>)) s
               in s1\<lparr>ps_execution := (ps_execution s1)\<lparr>ex_blocked := filter (\<lambda>x. x \<noteq> task_id t) (ex_blocked (ps_execution s1))\<rparr>\<rparr>
          else s)"

definition resume_state :: "string \<Rightarrow> failure \<Rightarrow> stamp \<Rightarrow> project_state \<Rightarrow> project_state" where
  "resume_state fid f now s =
     unblock_task (fl_task f)
       (s\<lparr>ps_failures := update_first (\<lambda>x. fl_id x = fid) (\<lambda>x. x\<lparr>fl_status := Some Resumed_Failure, fl_resumed := Some now\<rparr>) (ps_failures s)\<rparr>)"

definition resumeFailure :: "env \<Rightarrow> string \<Rightarrow> stamp \<Rightarrow> string \<Rightarrow> stamp \<Rightarrow> (store, unit) act" where
  "resumeFailure ev fid now eu en = bindA load (\<lambda>s.
     case find (\<lambda>f. fl_id f = fid) (ps_failures s) of
       None \<Rightarrow> throw (missing_failure fid ''resume_failure'')
     | Some f \<Rightarrow>
         if failure_state f \<noteq> Dead_Lettered
         then throw (Js_Error WorkflowPolicyError (''Failure '' @ fid @ '' is not dead-lettered'')
                       [fid, failure_status_text (failure_state f), ''resume_failure''])
         else bindA (saveWithEvents (en_zod ev) (resume_state fid f now s)
                       [makeEvent eu en APPROVAL_RESUMED [(''failureId'', [fid]), (''taskId'', [fl_task f])] (when_truthy (fl_run f)) None]
                       (Some (int (ps_revision s)))) (\<lambda>_. ret ()))"

definition replay_state :: "string \<Rightarrow> string \<times> string option \<Rightarrow> stamp \<Rightarrow> project_state \<Rightarrow> project_state" where
  "replay_state fid replay now s =
     s\<lparr> ps_failures := update_first (\<lambda>x. fl_id x = fid) (\<lambda>x. x\<lparr>fl_status := Some Replayed_Failure, fl_replayed := Some now\<rparr>) (ps_failures s),
        ps_execution := (ps_execution s)\<lparr>ex_activeRun := when_truthy (snd replay), ex_activeTask := Some (fst replay)\<rparr> \<rparr>"

definition replayFromFailureCheckpoint :: "env \<Rightarrow> string \<Rightarrow> stamp \<Rightarrow> string \<Rightarrow> stamp \<Rightarrow> (store, string \<times> string option) act" where
  "replayFromFailureCheckpoint ev fid now eu en = bindA load (\<lambda>s.
     case find (\<lambda>f. fl_id f = fid) (ps_failures s) of
       None \<Rightarrow> throw (missing_failure fid ''replay_failure'')
     | Some f \<Rightarrow> bindA (liftA (selectReplayCheckpoint f)) (\<lambda>replay.
         bindA (saveWithEvents (en_zod ev) (replay_state fid replay now s)
                  [makeEvent eu en TASK_SELECTED [(''taskId'', [fl_task f]), (''replayFromFailureId'', [fl_id f])] (when_truthy (fl_run f)) None]
                  (Some (int (ps_revision s)))) (\<lambda>_. ret replay)))"

section \<open>Recovery checkpoints\<close>

record checkpoint =
  cp_task :: string
  cp_run :: string
  cp_step :: string
  cp_attempt :: int
  cp_key :: string
  cp_trace :: string
  cp_created :: stamp
  cp_reason :: run_step_status

definition RECOVERY_STATUSES :: "run_step_status list" where
  "RECOVERY_STATUSES = [Step_Failed, Step_Timed_Out, Step_Cancelled]"

definition checkpoint_of :: "run_step \<Rightarrow> string \<Rightarrow> checkpoint" where
  "checkpoint_of e tid =
     \<lparr> cp_task = tid, cp_run = rs_run e, cp_step = rs_step e, cp_attempt = rs_attempt e, cp_key = rs_key e,
       cp_trace = rs_trace e, cp_created = rs_created e, cp_reason = rs_status e \<rparr>"

definition persist_checkpoint :: "run_step \<Rightarrow> checkpoint option" where
  "persist_checkpoint e =
     (if \<not> truthy (rs_task e) \<or> rs_status e \<notin> set RECOVERY_STATUSES then None
      else Some (checkpoint_of e (the (rs_task e))))"

definition getLatestByTaskId :: "(string \<Rightarrow> string) \<Rightarrow> string \<Rightarrow> (store, checkpoint option) act" where
  "getLatestByTaskId sha tid =
     bindA (listRunSteps sha \<lparr> sq_run = None, sq_task = Some tid, sq_limit = Some 200, sq_offset = None \<rparr>) (\<lambda>steps.
       ret (case newest_first rs_created (filter (\<lambda>e. rs_status e \<in> set RECOVERY_STATUSES \<and> rs_task e = Some tid) steps) of
              [] \<Rightarrow> None
            | c # _ \<Rightarrow> (if truthy (rs_task c) then Some (checkpoint_of c (the (rs_task c))) else None)))"

record resume_pointer =
  rp_run :: string
  rp_step :: string
  rp_next :: int
  rp_trace :: string
  rp_key :: string

definition resumeFromCheckpoint :: "(string \<Rightarrow> string) \<Rightarrow> string \<Rightarrow> string \<Rightarrow> (store, resume_pointer) act" where
  "resumeFromCheckpoint sha tid requestedBy =
     bindA (getLatestByTaskId sha tid) (\<lambda>c. case c of
       None \<Rightarrow> throw (Js_Error WorkflowPolicyError ''Recovery checkpoint was not found for task resume''
                        [''resume_from_checkpoint'', tid, requestedBy])
     | Some c \<Rightarrow> ret \<lparr> rp_run = cp_run c, rp_step = cp_step c, rp_next = cp_attempt c + 1, rp_trace = cp_trace c,
                       rp_key = cp_key c @ '':resume:'' @ int_to_string (cp_attempt c + 1) \<rparr>)"


section \<open>What a split does to the backlog\<close>

definition well_keyed :: "project_state \<Rightarrow> bool" where
  "well_keyed s \<longleftrightarrow> distinct (rec_keys (tasks_of s)) \<and> (\<forall>(k, t) \<in> set (tasks_of s). task_id t = k)
     \<and> distinct (rec_keys (features_of s)) \<and> (\<forall>(k, f) \<in> set (features_of s). feature_id f = k)"

text \<open>A split applies to a task of the state whose children's ids are free.\<close>

definition splittable :: "project_state \<Rightarrow> task \<Rightarrow> bool" where
  "splittable s t \<longleftrightarrow> rec_get (tasks_of s) (task_id t) = Some t
     \<and> \<not> rec_has (tasks_of s) (task_id t @ ''--part-1'') \<and> \<not> rec_has (tasks_of s) (task_id t @ ''--part-2'')"

lemma update_fresh: "k \<notin> fst ` set r \<Longrightarrow> rec_set k v r = r @ [(k, v)]"
  by (induction r) auto

lemma update_fresh2:
  "j \<notin> fst ` set r \<Longrightarrow> k \<notin> fst ` set r \<Longrightarrow> j \<noteq> k \<Longrightarrow> rec_set k w (rec_set j v r) = r @ [(j, v), (k, w)]"
  by (simp add: update_fresh)

lemma set_tasks_sel [simp]:
  "tasks_of (set_tasks f s) = f (tasks_of s)" "features_of (set_tasks f s) = features_of s" "epics_of (set_tasks f s) = epics_of s"
  "ps_execution (set_tasks f s) = ps_execution s" "ps_failures (set_tasks f s) = ps_failures s"
  "ps_artifacts (set_tasks f s) = ps_artifacts s" "ps_revision (set_tasks f s) = ps_revision s"
  "ps_org (set_tasks f s) = ps_org s" "ps_milestones (set_tasks f s) = ps_milestones s" "ps_decisions (set_tasks f s) = ps_decisions s"
  "ps_approvals (set_tasks f s) = ps_approvals s" "ps_policyDecisions (set_tasks f s) = ps_policyDecisions s"
  "ps_project (set_tasks f s) = ps_project s" "ps_discovery (set_tasks f s) = ps_discovery s"
  "ps_architecture (set_tasks f s) = ps_architecture s" "ps_milestone (set_tasks f s) = ps_milestone s"
  by (simp_all add: set_tasks_def)

lemma set_features_sel [simp]:
  "tasks_of (set_features g s) = tasks_of s" "features_of (set_features g s) = g (features_of s)" "epics_of (set_features g s) = epics_of s"
  "ps_execution (set_features g s) = ps_execution s" "ps_failures (set_features g s) = ps_failures s"
  "ps_artifacts (set_features g s) = ps_artifacts s" "ps_revision (set_features g s) = ps_revision s"
  "ps_org (set_features g s) = ps_org s" "ps_milestones (set_features g s) = ps_milestones s" "ps_decisions (set_features g s) = ps_decisions s"
  "ps_approvals (set_features g s) = ps_approvals s" "ps_policyDecisions (set_features g s) = ps_policyDecisions s"
  "ps_project (set_features g s) = ps_project s" "ps_discovery (set_features g s) = ps_discovery s"
  "ps_architecture (set_features g s) = ps_architecture s" "ps_milestone (set_features g s) = ps_milestone s"
  by (simp_all add: set_features_def)

text \<open>The feature's list with the children.\<close>

definition with_child :: "string \<Rightarrow> feature \<Rightarrow> feature" where
  "with_child c f = (if c \<in> set (feature_tasks f) then f else f\<lparr>feature_tasks := feature_tasks f @ [c]\<rparr>)"

lemma with_child_sel [simp]:
  "feature_id (with_child c f) = feature_id f" "feature_epic (with_child c f) = feature_epic f"
  "feature_title (with_child c f) = feature_title f" "feature_outcome (with_child c f) = feature_outcome f"
  "feature_risks (with_child c f) = feature_risks f" "set (feature_tasks (with_child c f)) = insert c (set (feature_tasks f))"
  by (auto simp: with_child_def)

lemma add_child_sel [simp]:
  "tasks_of (add_child fid c s) = rec_set (task_id c) c (tasks_of s)" "epics_of (add_child fid c s) = epics_of s"
  "ps_execution (add_child fid c s) = ps_execution s" "ps_failures (add_child fid c s) = ps_failures s"
  "ps_artifacts (add_child fid c s) = ps_artifacts s" "ps_revision (add_child fid c s) = ps_revision s"
  "ps_org (add_child fid c s) = ps_org s" "ps_milestones (add_child fid c s) = ps_milestones s" "ps_decisions (add_child fid c s) = ps_decisions s"
  "ps_approvals (add_child fid c s) = ps_approvals s" "ps_policyDecisions (add_child fid c s) = ps_policyDecisions s"
  "ps_project (add_child fid c s) = ps_project s" "ps_discovery (add_child fid c s) = ps_discovery s"
  "ps_architecture (add_child fid c s) = ps_architecture s" "ps_milestone (add_child fid c s) = ps_milestone s"
  by (simp_all add: add_child_def Let_def split: option.splits)

lemma add_child_features:
  "rec_get (features_of (add_child fid c s)) k =
     (if k = fid then map_option (with_child (task_id c)) (rec_get (features_of s) fid) else rec_get (features_of s) k)"
  by (simp add: add_child_def Let_def with_child_def split: option.splits)

lemma add_child_distinct: "distinct (rec_keys (features_of s)) \<Longrightarrow> distinct (rec_keys (features_of (add_child fid c s)))"
  by (simp add: add_child_def Let_def distinct_update split: option.splits)

lemma modify_task_sel [simp]:
  "tasks_of (modify_task tid f s) = map (\<lambda>(k, t). (k, if task_id t = tid then f t else t)) (tasks_of s)"
  "features_of (modify_task tid f s) = features_of s" "epics_of (modify_task tid f s) = epics_of s"
  "ps_execution (modify_task tid f s) = ps_execution s" "ps_failures (modify_task tid f s) = ps_failures s"
  "ps_artifacts (modify_task tid f s) = ps_artifacts s" "ps_revision (modify_task tid f s) = ps_revision s"
  "ps_org (modify_task tid f s) = ps_org s" "ps_milestones (modify_task tid f s) = ps_milestones s" "ps_decisions (modify_task tid f s) = ps_decisions s"
  "ps_approvals (modify_task tid f s) = ps_approvals s" "ps_policyDecisions (modify_task tid f s) = ps_policyDecisions s"
  "ps_project (modify_task tid f s) = ps_project s" "ps_discovery (modify_task tid f s) = ps_discovery s"
  "ps_architecture (modify_task tid f s) = ps_architecture s" "ps_milestone (modify_task tid f s) = ps_milestone s"
  by (simp_all add: modify_task_def)

definition redirect :: "string \<Rightarrow> string \<Rightarrow> string list \<Rightarrow> task \<Rightarrow> task" where
  "redirect old new skip c =
     (if task_id c = old \<or> task_id c \<in> set skip then c
      else if old \<notin> set (task_depends c) then c
      else c\<lparr>task_depends := dedup (map (\<lambda>d. if d = old then new else d) (task_depends c))\<rparr>)"

lemma redirect_sel [simp]:
  "task_id (redirect o1 n sk c) = task_id c" "task_feature (redirect o1 n sk c) = task_feature c"
  "task_status (redirect o1 n sk c) = task_status c" "task_split_from (redirect o1 n sk c) = task_split_from c"
  "task_title (redirect o1 n sk c) = task_title c" "task_criteria (redirect o1 n sk c) = task_criteria c"
  "task_modules (redirect o1 n sk c) = task_modules c"
  by (simp_all add: redirect_def)

lemma redirect_depends: "set (task_depends (redirect old new sk c)) \<subseteq> insert new (set (task_depends c))"
  by (auto simp: redirect_def)

lemma redirect_free: "task_id c \<noteq> old \<Longrightarrow> task_id c \<notin> set sk \<Longrightarrow> old \<noteq> new \<Longrightarrow> old \<notin> set (task_depends (redirect old new sk c))"
  by (auto simp: redirect_def)

abbreviation superseded_by :: "string \<Rightarrow> task \<Rightarrow> task" where
  "superseded_by tid t \<equiv> (if task_id t = tid then t\<lparr>task_status := Superseded\<rparr> else t)"

definition first_child :: "task \<Rightarrow> string \<Rightarrow> task" where
  "first_child t reason = fst (plan_children (splitTaskForRetry t reason))"

definition second_child :: "task \<Rightarrow> string \<Rightarrow> task" where
  "second_child t reason = snd (plan_children (splitTaskForRetry t reason))"

lemmas child_sel = splitTaskForRetry_sel[folded first_child_def second_child_def]

declare child_sel [simp]

definition split_image :: "task \<Rightarrow> task \<Rightarrow> task" where
  "split_image t c = redirect (task_id t) (task_id t @ ''--part-2'') [task_id t @ ''--part-1'', task_id t @ ''--part-2''] (superseded_by (task_id t) c)"

lemma split_image_sel [simp]:
  "task_id (split_image t c) = task_id c" "task_feature (split_image t c) = task_feature c"
  "task_status (split_image t c) = (if task_id c = task_id t then Superseded else task_status c)"
  "task_split_from (split_image t c) = task_split_from c"
  "task_title (split_image t c) = task_title c" "task_criteria (split_image t c) = task_criteria c"
  "task_modules (split_image t c) = task_modules c"
  by (simp_all add: split_image_def)

lemma split_image_depends: "set (task_depends (split_image t c)) \<subseteq> insert (task_id t @ ''--part-2'') (set (task_depends c))"
  using redirect_depends[of "task_id t" "task_id t @ ''--part-2''" "[task_id t @ ''--part-1'', task_id t @ ''--part-2'']" "superseded_by (task_id t) c"]
  by (cases "task_id c = task_id t") (simp_all add: split_image_def)

lemma tasks_apply_split:
  assumes "well_keyed s" and "splittable s t"
  shows "tasks_of (apply_split t reason s) =
     map (\<lambda>(k, c). (k, split_image t c)) (tasks_of s)
     @ [(task_id t @ ''--part-1'', first_child t reason), (task_id t @ ''--part-2'', second_child t reason)]"
proof -
  have k: "task_id t @ ''--part-1'' \<notin> fst ` set (tasks_of s)" "task_id t @ ''--part-2'' \<notin> fst ` set (tasks_of s)"
    using assms(2) by (auto simp: splittable_def rec_has_iff_key)
  then have upd: "rec_set (task_id t @ ''--part-2'') (second_child t reason)
      (rec_set (task_id t @ ''--part-1'') (first_child t reason) (map (\<lambda>(k, u). (k, superseded_by (task_id t) u)) (tasks_of s)))
      = map (\<lambda>(k, u). (k, superseded_by (task_id t) u)) (tasks_of s)
        @ [(task_id t @ ''--part-1'', first_child t reason), (task_id t @ ''--part-2'', second_child t reason)]"
    by (intro update_fresh2) (force simp: image_image)+
  show ?thesis
    unfolding apply_split_def Let_def rewriteSupersededDependencies_def set_tasks_sel child_sel(1)
    by (simp add: first_child_def[symmetric] second_child_def[symmetric] upd[simplified]) (auto simp: redirect_def split_image_def)
qed

lemma apply_split_sel [simp]:
  "ps_execution (apply_split t reason s) = (ps_execution s)\<lparr>ex_blocked := filter (\<lambda>x. x \<noteq> task_id t) (ex_blocked (ps_execution s))\<rparr>"
  "epics_of (apply_split t reason s) = epics_of s"
  "ps_failures (apply_split t reason s) = ps_failures s" "ps_artifacts (apply_split t reason s) = ps_artifacts s"
  "ps_revision (apply_split t reason s) = ps_revision s" "ps_org (apply_split t reason s) = ps_org s"
  "ps_milestones (apply_split t reason s) = ps_milestones s" "ps_decisions (apply_split t reason s) = ps_decisions s"
  "ps_approvals (apply_split t reason s) = ps_approvals s" "ps_policyDecisions (apply_split t reason s) = ps_policyDecisions s"
  "ps_project (apply_split t reason s) = ps_project s" "ps_discovery (apply_split t reason s) = ps_discovery s"
  "ps_architecture (apply_split t reason s) = ps_architecture s" "ps_milestone (apply_split t reason s) = ps_milestone s"
  by (simp_all add: apply_split_def Let_def rewriteSupersededDependencies_def)

lemma features_apply_split:
  "rec_get (features_of (apply_split t reason s)) k =
     (if k = task_feature t
      then map_option (\<lambda>f. with_child (task_id t @ ''--part-2'') (with_child (task_id t @ ''--part-1'') f)) (rec_get (features_of s) k)
      else rec_get (features_of s) k)"
  by (simp add: apply_split_def Let_def rewriteSupersededDependencies_def add_child_features option.map_comp comp_def splitTaskForRetry_sel)

lemma features_apply_split_distinct:
  "distinct (rec_keys (features_of s)) \<Longrightarrow> distinct (rec_keys (features_of (apply_split t reason s)))"
  by (simp add: apply_split_def Let_def rewriteSupersededDependencies_def add_child_distinct)

lemma rec_get_apply_split:
  assumes "well_keyed s" and "splittable s t"
  shows "rec_get (tasks_of (apply_split t reason s)) k =
     (case rec_get (tasks_of s) k of
        Some c \<Rightarrow> Some (split_image t c)
      | None \<Rightarrow> if k = task_id t @ ''--part-1'' then Some (first_child t reason)
                else if k = task_id t @ ''--part-2'' then Some (second_child t reason) else None)"
  unfolding tasks_apply_split[OF assms] by (simp add: map_of_map map_add_def split: option.splits)

lemma rec_has_apply_split:
  assumes "well_keyed s" and "splittable s t"
  shows "rec_has (tasks_of (apply_split t reason s)) k \<longleftrightarrow>
     rec_has (tasks_of s) k \<or> k = task_id t @ ''--part-1'' \<or> k = task_id t @ ''--part-2''"
  unfolding rec_has_def rec_get_apply_split[OF assms] by (auto split: option.splits)

lemma well_keyed_apply_split:
  assumes "well_keyed s" and "splittable s t"
  shows "well_keyed (apply_split t reason s)"
proof -
  have "feature_id f = k" if "(k, f) \<in> set (features_of (apply_split t reason s))" for k f
  proof -
    have "rec_get (features_of (apply_split t reason s)) k = Some f"
      using that features_apply_split_distinct[of s t reason] assms(1) by (simp add: well_keyed_def map_of_is_SomeI)
    then show ?thesis using assms(1) unfolding features_apply_split
      by (auto simp: well_keyed_def split: if_splits dest!: map_of_SomeD)
  qed
  moreover have "rec_keys (tasks_of (apply_split t reason s)) = rec_keys (tasks_of s) @ [task_id t @ ''--part-1'', task_id t @ ''--part-2'']"
    unfolding tasks_apply_split[OF assms] by (auto simp: comp_def case_prod_beta)
  moreover have "\<forall>(k, c) \<in> set (tasks_of (apply_split t reason s)). task_id c = k"
    unfolding tasks_apply_split[OF assms] using assms(1) by (auto simp: well_keyed_def)
  ultimately show ?thesis
    using assms features_apply_split_distinct[of s t reason] unfolding well_keyed_def splittable_def rec_has_iff_key by auto
qed

section \<open>A split keeps the state valid\<close>

lemma split_titles:
  "min1 (task_title t) \<Longrightarrow> min1 (task_title (first_child t reason))" "min1 (task_title t) \<Longrightarrow> min1 (task_title (second_child t reason))"
  "task_modules (first_child t reason) = task_modules t" "task_modules (second_child t reason) = task_modules t"
  by (simp_all add: first_child_def second_child_def splitTaskForRetry_def Let_def split: prod.splits)

lemma splitAcceptanceCriteria_min1:
  "all_min1 cs \<Longrightarrow> splitAcceptanceCriteria cs = (a, b) \<Longrightarrow> all_min1 a \<and> all_min1 b"
  by (auto simp: splitAcceptanceCriteria_def Let_def all_min1_def split: if_splits dest: in_set_takeD in_set_dropD)

lemma children_schema:
  assumes "taskSchema t"
  shows "taskSchema (first_child t reason)" "taskSchema (second_child t reason)"
proof -
  obtain a b where ab: "splitAcceptanceCriteria (task_criteria t) = (a, b)" by (cases "splitAcceptanceCriteria (task_criteria t)") auto
  then show "taskSchema (first_child t reason)" "taskSchema (second_child t reason)"
    using assms splitAcceptanceCriteria_min1[OF _ ab]
    by (auto simp: taskSchema_def opt_min1_def split_titles all_min1_def)
qed

lemma children_issues:
  "validateBacklogTask (first_child t reason) = []" "validateBacklogTask (second_child t reason) = []"
  using splitTaskForRetry_children_valid[of _ t reason] by (simp_all add: first_child_def second_child_def)

lemma split_image_cases:
  assumes "well_keyed s" and "splittable s t"
  shows "set (rec_values (tasks_of (apply_split t reason s))) =
     split_image t ` set (rec_values (tasks_of s)) \<union> {first_child t reason, second_child t reason}"
  unfolding tasks_apply_split[OF assms] by (force simp: image_iff)

lemma split_image_schema: "taskSchema c \<Longrightarrow> taskSchema (split_image t c)"
  using subsetD[OF split_image_depends[of t c]] by (fastforce simp: taskSchema_def all_min1_def)

lemma split_image_issues:
  assumes "well_keyed s" and "splittable s t" and "task_issues s c = []"
  shows "task_issues (apply_split t reason s) (split_image t c) = []"
proof -
  have "validateBacklogTask (split_image t c) = validateBacklogTask c" by (simp add: validateBacklogTask_def)
  then show ?thesis
    using assms(3) split_image_depends[of t c] unfolding task_issues_Nil rec_has_apply_split[OF assms(1,2)] by auto
qed

lemma children_task_issues:
  assumes "well_keyed s" and "splittable s t" and "task_issues s t = []"
  shows "task_issues (apply_split t reason s) (first_child t reason) = []" "task_issues (apply_split t reason s) (second_child t reason) = []"
proof -
  have "rec_has (tasks_of s) (task_id t)" using assms(2) by (simp add: splittable_def rec_has_def)
  then show "task_issues (apply_split t reason s) (first_child t reason) = []" "task_issues (apply_split t reason s) (second_child t reason) = []"
    using assms(3) unfolding task_issues_Nil rec_has_apply_split[OF assms(1,2)] by (auto simp: children_issues)
qed

lemma split_feature:
  assumes "well_keyed s" and "splittable s t" and "f \<in> set (rec_values (features_of (apply_split t reason s)))"
  obtains (same) "f \<in> set (rec_values (features_of s))"
  | (grown) f0 where "f0 \<in> set (rec_values (features_of s))" "feature_id f0 = task_feature t"
      "f = with_child (task_id t @ ''--part-2'') (with_child (task_id t @ ''--part-1'') f0)"
proof -
  have d: "distinct (rec_keys (features_of (apply_split t reason s)))" "distinct (rec_keys (features_of s))"
    using assms(1) features_apply_split_distinct[of s t reason] by (simp_all add: well_keyed_def)
  from assms(3) obtain k where k: "rec_get (features_of (apply_split t reason s)) k = Some f"
    unfolding rec_values_iff[OF d(1)] by blast
  show ?thesis
  proof (cases "k = task_feature t")
    case True
    then obtain f0 where f0: "rec_get (features_of s) k = Some f0"
        "f = with_child (task_id t @ ''--part-2'') (with_child (task_id t @ ''--part-1'') f0)"
      using k by (auto simp: features_apply_split)
    have "feature_id f0 = k" using map_of_SomeD[OF f0(1)] assms(1) by (auto simp: well_keyed_def)
    moreover have "f0 \<in> set (rec_values (features_of s))" unfolding rec_values_iff[OF d(2)] using f0(1) by blast
    ultimately show ?thesis using that(2) f0(2) True by blast
  next
    case False
    then have "rec_get (features_of s) k = Some f" using k by (simp add: features_apply_split)
    then have "f \<in> set (rec_values (features_of s))" unfolding rec_values_iff[OF d(2)] by blast
    then show ?thesis using same by blast
  qed
qed

lemma split_feature_issues:
  assumes "well_keyed s" and "splittable s t" and "feature_issues s f = []"
  shows "feature_issues (apply_split t reason s) f = []"
    and "feature_id f = task_feature t \<Longrightarrow>
         feature_issues (apply_split t reason s) (with_child (task_id t @ ''--part-2'') (with_child (task_id t @ ''--part-1'') f)) = []"
proof -
  have old: "\<exists>c. rec_get (tasks_of (apply_split t reason s)) tid = Some c \<and> task_feature c = feature_id f"
    if tid: "tid \<in> set (feature_tasks f)" for tid
  proof -
    obtain c where "rec_get (tasks_of s) tid = Some c" "task_feature c = feature_id f"
      using assms(3) tid by (auto simp: feature_issues_Nil)
    then show ?thesis unfolding rec_get_apply_split[OF assms(1,2)] by simp
  qed
  have new: "rec_get (tasks_of (apply_split t reason s)) (task_id t @ ''--part-1'') = Some (first_child t reason)"
    "rec_get (tasks_of (apply_split t reason s)) (task_id t @ ''--part-2'') = Some (second_child t reason)"
    using assms(2) unfolding rec_get_apply_split[OF assms(1,2)] by (simp_all add: splittable_def rec_has_def)
  show "feature_issues (apply_split t reason s) f = []"
    using assms(3) old by (simp add: feature_issues_Nil)
  show "feature_issues (apply_split t reason s) (with_child (task_id t @ ''--part-2'') (with_child (task_id t @ ''--part-1'') f)) = []"
    if "feature_id f = task_feature t"
    using assms(3) old new that by (simp add: feature_issues_Nil)
qed

lemma split_valid:
  assumes v: "valid_state z s" and wk: "well_keyed s" and sp: "splittable s t" and "task_status t \<noteq> Done"
  shows "valid_state z (apply_split t reason s)"
proof -
  let ?s = "apply_split t reason s"
  note v' = v[unfolded valid_state_iff]
  have t: "t \<in> set (rec_values (tasks_of s))" using sp map_of_SomeD[of "tasks_of s" "task_id t" t] by (force simp: splittable_def)
  have dk: "distinct (rec_keys (features_of s))" using wk by (simp add: well_keyed_def)
  have schema: "\<forall>c \<in> set (rec_values (tasks_of s)). taskSchema c" using v' by (simp add: projectStateDeepSchema_def)
  have tasks: "\<forall>c \<in> set (rec_values (tasks_of ?s)). taskSchema c"
    unfolding split_image_cases[OF wk sp] using schema t split_image_schema children_schema by blast
  have fschema: "\<forall>f \<in> set (rec_values (features_of s)). featureSchema f" using v' by (simp add: projectStateDeepSchema_def)
  have features: "\<forall>f \<in> set (rec_values (features_of ?s)). featureSchema f \<and> feature_issues ?s f = []"
  proof
    fix f assume f: "f \<in> set (rec_values (features_of ?s))"
    consider (same) "f \<in> set (rec_values (features_of s))"
      | (grown) f0 where "f0 \<in> set (rec_values (features_of s))" "feature_id f0 = task_feature t"
          "f = with_child (task_id t @ ''--part-2'') (with_child (task_id t @ ''--part-1'') f0)"
      by (rule split_feature[OF wk sp f])
    then show "featureSchema f \<and> feature_issues ?s f = []"
    proof cases
      case same
      then show ?thesis using fschema v' split_feature_issues(1)[OF wk sp] by blast
    next
      case (grown f0)
      have "feature_issues s f0 = []" using grown(1) v' by blast
      moreover have "featureSchema f0" using grown(1) fschema by blast
      ultimately show ?thesis using grown(2,3) split_feature_issues(2)[OF wk sp] by (auto simp: featureSchema_def all_min1_def)
    qed
  qed
  have tids: "\<forall>c \<in> set (rec_values (tasks_of ?s)). task_issues ?s c = []"
    unfolding split_image_cases[OF wk sp] using v' t split_image_issues[OF wk sp] children_task_issues[OF wk sp] by blast
  have has: "rec_has (tasks_of s) k \<Longrightarrow> rec_has (tasks_of ?s) k" for k by (simp add: rec_has_apply_split[OF wk sp])
  have feats: "rec_has (features_of ?s) k \<longleftrightarrow> rec_has (features_of s) k" for k
    by (cases "rec_get (features_of s) k") (auto simp: rec_has_def features_apply_split)
  have epics: "\<forall>e \<in> set (rec_values (epics_of ?s)). epic_issues ?s e = []" using v' by (simp add: epic_issues_Nil feats)
  have image: "rec_get (tasks_of ?s) k = Some (split_image t c)" if "rec_get (tasks_of s) k = Some c" for k c
    using that by (simp add: rec_get_apply_split[OF wk sp])
  have key: "task_id c = k" if "rec_get (tasks_of s) k = Some c" for k c
    using map_of_SomeD[OF that] wk by (auto simp: well_keyed_def)
  have blocked: "\<forall>k \<in> set (ex_blocked (ps_execution ?s)). blocked_issues ?s k = []"
  proof
    fix k assume k: "k \<in> set (ex_blocked (ps_execution ?s))"
    then have b: "blocked_issues s k = []" "k \<noteq> task_id t" using v' by auto
    then obtain c where "rec_get (tasks_of s) k = Some c" "task_status c = Blocked" by (auto simp: blocked_issues_Nil)
    then show "blocked_issues ?s k = []" using image key[of k c] b by (simp add: blocked_issues_Nil)
  qed
  have completed: "\<forall>k \<in> set (ex_completed (ps_execution ?s)). completed_issues ?s k = []"
  proof
    fix k assume "k \<in> set (ex_completed (ps_execution ?s))"
    then have "completed_issues s k = []" using v' by auto
    then obtain c where c: "rec_get (tasks_of s) k = Some c" "task_status c = Done" by (auto simp: completed_issues_Nil)
    have "task_id c \<noteq> task_id t"
    proof
      assume "task_id c = task_id t"
      then have "rec_get (tasks_of s) (task_id t) = Some c" using key[OF c(1)] c(1) by simp
      then show False using sp assms(4) c(2) by (simp add: splittable_def)
    qed
    then show "completed_issues ?s k = []" using image[OF c(1)] c(2) by (simp add: completed_issues_Nil)
  qed
  have ex: "executionStateSchema (z_iso z) (ps_execution ?s)"
    using v' by (auto simp: projectStateDeepSchema_def executionStateSchema_def all_min1_def)
  have deep: "projectStateDeepSchema z ?s" using v' tasks features ex by (simp add: projectStateDeepSchema_def)
  have active: "\<forall>a. ex_activeTask (ps_execution ?s) = Some a \<and> a \<noteq> [] \<longrightarrow> rec_has (tasks_of ?s) a" using v' has by simp
  have fids: "\<forall>f \<in> set (rec_values (features_of ?s)). feature_issues ?s f = []" using features by blast
  show ?thesis
    unfolding valid_state_iff
    apply (intro conjI; (rule deep | rule active | rule fids | rule tids | rule epics | rule blocked | rule completed)?)
    unfolding apply_split_sel using v' by blast+
qed

text \<open>C13. A split leaves a valid backlog with the same work. Splitting a task of a valid state, with free ids for
  the children, gives a valid state in which the task is superseded and off the blocked list, both children are to
  do and together carry every acceptance criterion, the second waits for the first, no task outside the
  family depends on the superseded one, and each that did waits for the second child.\<close>

theorem split_preserves_backlog:
  assumes "valid_state z s" and "well_keyed s" and "splittable s t" and "task_status t \<noteq> Done"
  shows "let s' = apply_split t reason s; old = task_id t; p1 = old @ ''--part-1''; p2 = old @ ''--part-2'' in
     valid_state z s' \<and> well_keyed s' \<and> old \<notin> set (ex_blocked (ps_execution s'))
   \<and> map_option task_status (rec_get (tasks_of s') old) = Some Superseded
   \<and> (\<exists>c1 c2. rec_get (tasks_of s') p1 = Some c1 \<and> rec_get (tasks_of s') p2 = Some c2
        \<and> task_status c1 = Todo \<and> task_status c2 = Todo \<and> task_depends c1 = task_depends t \<and> task_depends c2 = [p1]
        \<and> set (task_criteria t) \<subseteq> set (task_criteria c1) \<union> set (task_criteria c2))
   \<and> (\<forall>u \<in> set (rec_values (tasks_of s')). task_id u \<notin> {old, p1} \<longrightarrow> old \<notin> set (task_depends u))
   \<and> (\<forall>k u. rec_get (tasks_of s) k = Some u \<and> k \<noteq> old \<and> old \<in> set (task_depends u) \<longrightarrow>
        (\<exists>u'. rec_get (tasks_of s') k = Some u' \<and> p2 \<in> set (task_depends u')))"
proof -
  let ?s = "apply_split t reason s"
  note get = rec_get_apply_split[OF assms(2,3)]
  have t: "rec_get (tasks_of s) (task_id t) = Some t" using assms(3) by (simp add: splittable_def)
  have fresh: "rec_get (tasks_of s) (task_id t @ ''--part-1'') = None" "rec_get (tasks_of s) (task_id t @ ''--part-2'') = None"
    using assms(3) by (simp_all add: splittable_def rec_has_def)
  have free: "task_id t \<notin> set (task_depends (split_image t c))"
    if "task_id c \<noteq> task_id t" "c \<in> set (rec_values (tasks_of s))" for c
  proof -
    have "rec_has (tasks_of s) (task_id c)" using that(2) assms(2) by (force simp: rec_has_iff_key well_keyed_def image_iff)
    then have "task_id c \<notin> set [task_id t @ ''--part-1'', task_id t @ ''--part-2'']" using assms(3) by (auto simp: splittable_def)
    then show ?thesis using that(1) unfolding split_image_def by (intro redirect_free) simp_all
  qed
  have moved: "task_id t @ ''--part-2'' \<in> set (task_depends (split_image t u))"
    if "rec_get (tasks_of s) k = Some u" "k \<noteq> task_id t" "task_id t \<in> set (task_depends u)" for k u
  proof -
    have "task_id u = k" using map_of_SomeD[OF that(1)] assms(2) by (auto simp: well_keyed_def)
    moreover have "k \<noteq> task_id t @ ''--part-1''" "k \<noteq> task_id t @ ''--part-2''" using that(1) fresh by auto
    ultimately show ?thesis using that(2,3) by (auto simp: split_image_def redirect_def)
  qed
  have cov: "set (task_criteria t) \<subseteq> set (task_criteria (first_child t reason)) \<union> set (task_criteria (second_child t reason))"
    using splitAcceptanceCriteria_covers[of "task_criteria t"] by simp
  have kids: "rec_get (tasks_of ?s) (task_id t @ ''--part-1'') = Some (first_child t reason)"
    "rec_get (tasks_of ?s) (task_id t @ ''--part-2'') = Some (second_child t reason)"
    by (simp_all add: get fresh)
  have others: "\<forall>u \<in> set (rec_values (tasks_of ?s)). task_id u \<notin> {task_id t, task_id t @ ''--part-1''} \<longrightarrow> task_id t \<notin> set (task_depends u)"
    unfolding split_image_cases[OF assms(2,3)] using free by auto
  show ?thesis
    unfolding Let_def
    using split_valid[OF assms] well_keyed_apply_split[OF assms(2,3)] kids cov others moved
    by (auto simp: get t)
qed

section \<open>The failure budget\<close>

definition open_task :: "task \<Rightarrow> bool" where
  "open_task t \<longleftrightarrow> task_status t \<noteq> Done \<and> task_status t \<noteq> Blocked \<and> task_status t \<noteq> Superseded"

text \<open>How many more failures a task can have: what is left of its retries, and, until it is split, the retries of its
  two children.\<close>

definition task_budget :: "nat \<Rightarrow> nat \<Rightarrow> task \<Rightarrow> nat" where
  "task_budget m r t =
     (if \<not> open_task t then 0
      else max 1 (m - r) + (if truthy (task_split_from t) then 0 else 2 * max 1 m))"

definition failure_budget :: "nat \<Rightarrow> project_state \<Rightarrow> nat" where
  "failure_budget m s = sum_list (map (\<lambda>t. task_budget m (retries_of s (task_id t)) t) (rec_values (tasks_of s)))"

lemma sum_list_drop:
  fixes h h' :: "'a \<Rightarrow> nat"
  shows "\<forall>u \<in> set xs. h' u \<le> h u \<Longrightarrow> t \<in> set xs \<Longrightarrow> h' t + k \<le> h t \<Longrightarrow> sum_list (map h' xs) + k \<le> sum_list (map h xs)"
proof (induction xs)
  case (Cons x xs)
  show ?case
  proof (cases "t \<in> set xs")
    case True
    then have "sum_list (map h' xs) + k \<le> sum_list (map h xs)" using Cons by simp
    moreover have "h' x \<le> h x" using Cons.prems(1) by simp
    ultimately show ?thesis by simp
  next
    case False
    then have "t = x" using Cons.prems(2) by simp
    moreover have "sum_list (map h' xs) \<le> sum_list (map h xs)" using Cons.prems(1) by (intro sum_list_mono) simp
    ultimately show ?thesis using Cons.prems(3) by simp
  qed
qed simp

lemma task_budget_mono: "r \<le> r' \<Longrightarrow> task_budget m r' t \<le> task_budget m r t"
  by (auto simp: task_budget_def)

lemma rec_get_value: "rec_get r k = Some v \<Longrightarrow> v \<in> set (rec_values r)"
  by (force dest: map_of_SomeD)

text \<open>The parts of the state the budget reads.\<close>

definition same_core :: "project_state \<Rightarrow> project_state \<Rightarrow> bool" where
  "same_core s s' \<longleftrightarrow> tasks_of s = tasks_of s' \<and> features_of s = features_of s' \<and> ex_retryCounts (ps_execution s) = ex_retryCounts (ps_execution s')"

lemma same_core_budget: "same_core s s' \<Longrightarrow> failure_budget m s = failure_budget m s'"
  by (simp add: same_core_def failure_budget_def retries_of_def)

lemma retries_note_failure [simp]:
  "retries_of (note_failure tid f n s) k = (if k = tid then n else retries_of s k)"
  "tasks_of (note_failure tid f n s) = tasks_of s"
  by (simp_all add: note_failure_def retries_of_def)

lemma budget_retry:
  assumes "rec_get (tasks_of s) (task_id t) = Some t" and "open_task t" and "retries_of s (task_id t) + 1 < m"
  shows "failure_budget m (note_failure (task_id t) f (retries_of s (task_id t) + 1) s) < failure_budget m s"
proof -
  let ?s = "note_failure (task_id t) f (retries_of s (task_id t) + 1) s"
  have "failure_budget m ?s + 1 \<le> failure_budget m s"
    unfolding failure_budget_def retries_note_failure(2)
    by (rule sum_list_drop[OF _ rec_get_value[OF assms(1)]])
       (use assms(2,3) in \<open>auto simp: task_budget_def\<close>)
  then show ?thesis by simp
qed

lemma budget_noted: "failure_budget m (note_failure tid f (retries_of s tid + 1) s) \<le> failure_budget m s"
  unfolding failure_budget_def retries_note_failure by (intro sum_list_mono) (simp add: task_budget_mono)

lemma budget_block:
  assumes "rec_get (tasks_of s) (task_id t) = Some t" and "open_task t"
  shows "failure_budget m (apply_block (task_id t) s) < failure_budget m s"
proof -
  have "failure_budget m (apply_block (task_id t) s) + 1 \<le> failure_budget m s"
  proof -
    have r: "retries_of (apply_block (task_id t) s) k = retries_of s k" for k by (simp add: apply_block_def Let_def retries_of_def)
    have v: "rec_values (tasks_of (apply_block (task_id t) s))
        = map (\<lambda>u. if task_id u = task_id t then u\<lparr>task_status := Blocked\<rparr> else u) (rec_values (tasks_of s))"
      by (auto simp: apply_block_def Let_def)
    let ?h = "\<lambda>u. task_budget m (retries_of s (task_id u)) u"
    have "sum_list (map (\<lambda>u. ?h (if task_id u = task_id t then u\<lparr>task_status := Blocked\<rparr> else u)) (rec_values (tasks_of s))) + 1
        \<le> sum_list (map ?h (rec_values (tasks_of s)))"
      by (rule sum_list_drop[OF _ rec_get_value[OF assms(1)]]) (use assms(2) in \<open>auto simp: task_budget_def open_task_def\<close>)
    then show ?thesis unfolding failure_budget_def r v by (simp add: comp_def)
  qed
  then show ?thesis by simp
qed

lemma budget_split:
  assumes "well_keyed s" and "splittable s t" and "open_task t" and "\<not> truthy (task_split_from t)" and "min1 (task_id t)"
  shows "failure_budget m (apply_split t reason s) < failure_budget m s"
proof -
  have t: "rec_get (tasks_of s) (task_id t) = Some t" using assms(2) by (simp add: splittable_def)
  have r: "retries_of (apply_split t reason s) k = retries_of s k" for k by (simp add: retries_of_def)
  let ?h = "\<lambda>u. task_budget m (retries_of s (task_id u)) u"
  have "sum_list (map (\<lambda>u. ?h (split_image t u)) (rec_values (tasks_of s))) + (1 + 2 * max 1 m) \<le> failure_budget m s"
    unfolding failure_budget_def
    by (rule sum_list_drop[OF _ rec_get_value[OF t]]) (use assms(3,4) in \<open>auto simp: task_budget_def open_task_def\<close>)
  moreover have "?h (first_child t reason) \<le> max 1 m" "?h (second_child t reason) \<le> max 1 m"
    using assms(5) by (auto simp: task_budget_def)
  ultimately show ?thesis
    unfolding failure_budget_def tasks_apply_split[OF assms(1,2)] r by (simp add: comp_def case_prod_beta)
qed

section \<open>What the handler leaves\<close>

lemma wp_recordFailure:
  assumes "\<And>f. f = buildFailureRecord uuid now i \<Longrightarrow> rec_has (tasks_of (st_state st)) (fi_task i) \<Longrightarrow>
      or_default e (int (ps_revision (st_state st))) = int (ps_revision (st_state st)) \<Longrightarrow>
      Q (f, retries_of (st_state st) (fi_task i) + 1, ps_revision (st_state st) + 1)
        (st\<lparr>st_state := (st_state st)\<lparr> ps_failures := ps_failures (st_state st) @ [f],
            ps_execution := (ps_execution (st_state st))\<lparr>ex_retryCounts := rec_set (fi_task i) (retries_of (st_state st) (fi_task i) + 1)
                (ex_retryCounts (ps_execution (st_state st)))\<rparr>, ps_revision := ps_revision (st_state st) + 1 \<rparr>\<rparr>)"
    and "\<And>x. E x st"
  shows "wp (recordFailure z uuid now i e) Q E st"
proof (cases "rec_has (tasks_of (st_state st)) (fi_task i)")
  case True
  show ?thesis
    unfolding recordFailure_def load_def wp_bindA wp_getA Let_def wp_if wp_throw
    using True by simp (rule wp_commitSnapshot, use True assms in \<open>simp_all add: wp_simps\<close>)
qed (simp add: recordFailure_def load_def wp_simps assms(2))

lemma wp_save_state:
  assumes "\<And>l h t. valid_state (en_zod ev) (wd_state w) \<Longrightarrow> ps_revision (wd_state w) = ps_revision (wd_stored w) \<Longrightarrow>
      Q () ((touched w \<lparr>st_state = (wd_state w)\<lparr>ps_revision := ps_revision (wd_stored w) + 1\<rparr>, st_events = st_events (wd_store w) @ evs\<rparr> l h t)
              \<lparr>wd_state := (wd_state w)\<lparr>ps_revision := ps_revision (wd_stored w) + 1\<rparr>\<rparr>)"
    and "\<And>e l h t. E e (touched w (wd_store w) l h t)"
  shows "wp (save_state ev evs) Q E w"
proof -
  have st: "(wd_store w)\<lparr>st_state := a, st_events := b\<rparr> = \<lparr>st_state = a, st_events = b\<rparr>" for a b by (cases "wd_store w") simp
  show ?thesis
    unfolding save_state_def wp_simps
    by (rule wp_protected, rule wp_saveWithEvents) (use assms in \<open>simp_all add: wp_simps st\<close>)
qed

definition saved :: "env \<Rightarrow> world \<Rightarrow> bool" where
  "saved ev w \<longleftrightarrow> wd_stored w = wd_state w \<and> valid_state (en_zod ev) (wd_state w)"

lemma same_core_refl [simp]: "same_core s s"
  by (simp add: same_core_def)

lemma same_core_updates [simp]:
  "same_core (s\<lparr>ps_revision := r\<rparr>) s' = same_core s s'" "same_core (s\<lparr>ps_artifacts := a\<rparr>) s' = same_core s s'"
  "same_core (s\<lparr>ps_decisions := d\<rparr>) s' = same_core s s'"
  by (simp_all add: same_core_def)

lemma wp_makeArtifact [wp_simps]:
  "wp (makeArtifact ev ty title md) Q E w =
     Q \<lparr> art_id = en_uuid ev (wd_tick w), art_type = ty, art_title = title, art_location = None, art_metadata = md,
          art_created = en_now ev (Suc (wd_tick w)) \<rparr> (w\<lparr>wd_tick := Suc (Suc (wd_tick w))\<rparr>)"
  by (simp add: makeArtifact_def wp_simps)

lemma wp_splitTaskForFailure:
  "wp (splitTaskForFailure ev t reason run)
     (\<lambda>res w'. saved ev w' \<and> same_core (wd_state w') (apply_split t reason (wd_state w))
        \<and> cr_status res = Cycle_Idle \<and> cr_reason res = Some ''task_split'') (\<lambda>_ _. True) w"
  unfolding splitTaskForFailure_def Let_def wp_simps
  by (rule wp_save_state) (simp_all add: wp_simps saved_def)

lemma wp_blockTaskForFailure:
  "wp (blockTaskForFailure ev t reason run)
     (\<lambda>res w'. saved ev w' \<and> same_core (wd_state w') (apply_block (task_id t) (wd_state w))
        \<and> cr_status res = Cycle_Blocked \<and> cr_reason res = Some reason) (\<lambda>_ _. True) w"
  unfolding blockTaskForFailure_def Let_def wp_simps
  by (rule wp_protected, rule wp_recordArtifact)
     (auto simp: wp_simps saved_def intro!: wp_save_state)

lemma flushed_core:
  "same_core (wd_state (snd (flushToState w))) (wd_state w)" "wd_store (snd (flushToState w)) = wd_store w"
  "flushToState w = (Inr (), snd (flushToState w))"
  by (auto simp: flushToState_def modA_def same_core_def append_log_def Let_def split: option.splits)

lemma wp_flushToState: "wp flushToState Q E w = Q () (snd (flushToState w))"
  by (subst wp_def, subst flushed_core(3)) simp

text \<open>The result of the handler, by the action it takes.\<close>

definition handled :: "nat \<Rightarrow> task \<Rightarrow> string \<Rightarrow> failure \<Rightarrow> nat \<Rightarrow> project_state \<Rightarrow> cycle_result \<Rightarrow> project_state \<Rightarrow> bool" where
  "handled m t reason f n s res s' =
     (let noted = note_failure (task_id t) f n s in
      case nextFailureAction t (retries_of s (task_id t)) m of
        Retry_Action \<Rightarrow> same_core s' noted \<and> cr_status res = Cycle_Idle
      | Split_Action \<Rightarrow> (\<exists>s1. same_core s1 noted \<and> same_core s' (apply_split t reason s1)) \<and> cr_status res = Cycle_Idle
      | Block_Action \<Rightarrow> (\<exists>s1. same_core s1 noted \<and> same_core s' (apply_block (task_id t) s1)) \<and> cr_status res = Cycle_Blocked)"

lemma wp_outcome:
  assumes "same_core (wd_state v) (note_failure (task_id t) f n s)"
  shows "wp (case nextFailureAction t (retries_of s (task_id t)) m of
           Split_Action \<Rightarrow> splitTaskForFailure ev t reason run
         | Block_Action \<Rightarrow> blockTaskForFailure ev t reason run
         | Retry_Action \<Rightarrow> thenA (save_state ev [])
             (ret \<lparr> cr_run = run, cr_status = Cycle_Idle, cr_task = Some (task_id t), cr_reason = Some reason \<rparr>))
     (\<lambda>res w'. saved ev w' \<and> handled m t reason f n s res (wd_state w')) (\<lambda>_ _. True) v"
proof (cases "nextFailureAction t (retries_of s (task_id t)) m")
  case Retry_Action
  then show ?thesis
    using assms by (auto simp: wp_simps handled_def Let_def saved_def intro!: wp_save_state)
next
  case Split_Action
  then show ?thesis
    using assms by (auto simp: handled_def Let_def intro: wp_mono[OF wp_splitTaskForFailure])
next
  case Block_Action
  then show ?thesis
    using assms by (auto simp: handled_def Let_def intro: wp_mono[OF wp_blockTaskForFailure])
qed

lemma wp_handle_failure:
  "wp (handle_failure ev m t role reason run)
     (\<lambda>res w'. saved ev w' \<and> (\<exists>f. handled m t reason f (retries_of (wd_stored w) (task_id t) + 1) (wd_state w) res (wd_state w')))
     (\<lambda>_ _. True) w"
proof -
  have ret: "fi_task (failure_of t role reason run a now) = task_id t" for a now by (simp add: failure_of_def)
  have same: "same_core (wd_state (snd (flushToState v))) (note_failure (task_id t) f n s)"
    if "wd_state v = note_failure (task_id t) f n (s\<lparr>ps_revision := r\<rparr>)" for v f n s r
    using flushed_core(1)[of v] that by (simp add: same_core_def note_failure_def)
  show ?thesis
    unfolding handle_failure_def Let_def wp_simps
    by (rule wp_protected, rule wp_recordFailure)
       (auto simp: wp_simps wp_flushToState ret intro!: wp_mono[OF wp_outcome] same)
qed

text \<open>C12. Failures are bounded. Handling a failure of an open task, when it returns, saves a valid state that equals the
  stored one and leaves a strictly smaller failure budget: each task of the backlog fails at most
  \<open>max 1 maxRetries\<close> times before it is split, and each child as often before it is blocked. The hypotheses are
  what a run holds: the state's retry count is the store's, and a task to be split has free child ids.\<close>

theorem failure_budget_decreases:
  assumes "handle_failure ev m t role reason run w = (Inr res, w')"
    and "well_keyed (wd_state w)" and "splittable (wd_state w) t" and "open_task t" and "task_id t \<noteq> []"
    and "retries_of (wd_stored w) (task_id t) = retries_of (wd_state w) (task_id t)"
  shows "failure_budget m (wd_state w') < failure_budget m (wd_state w)
    \<and> wd_stored w' = wd_state w' \<and> valid_state (en_zod ev) (wd_state w')"
proof -
  let ?s = "wd_state w" and ?n = "retries_of (wd_state w) (task_id t)"
  from wp_return[OF wp_handle_failure assms(1)] assms(6)
  obtain f where sv: "saved ev w'" and h: "handled m t reason f (?n + 1) ?s res (wd_state w')" by auto
  let ?noted = "note_failure (task_id t) f (?n + 1) ?s"
  have t: "rec_get (tasks_of ?s) (task_id t) = Some t" using assms(3) by (simp add: splittable_def)
  have "failure_budget m (wd_state w') < failure_budget m ?s"
  proof (cases "nextFailureAction t ?n m")
    case Retry_Action
    then have "same_core (wd_state w') ?noted" and "?n + 1 < m"
      using h by (auto simp: handled_def Let_def nextFailureAction_def split: if_splits)
    then show ?thesis using budget_retry[OF t assms(4)] same_core_budget by metis
  next
    case Split_Action
    then obtain s1 where s1: "same_core s1 ?noted" "same_core (wd_state w') (apply_split t reason s1)"
      using h by (auto simp: handled_def Let_def)
    have "\<not> truthy (task_split_from t)" using Split_Action by (auto simp: nextFailureAction_def split: if_splits)
    moreover have "splittable s1 t" "well_keyed s1"
      using s1(1) assms(2,3) by (simp_all add: same_core_def splittable_def well_keyed_def note_failure_def)
    ultimately have "failure_budget m (wd_state w') < failure_budget m s1"
      using budget_split[of s1 t] assms(4,5) same_core_budget[OF s1(2)] by metis
    then show ?thesis using budget_noted[of m "task_id t" f ?s] same_core_budget[OF s1(1)] by simp
  next
    case Block_Action
    then obtain s1 where s1: "same_core s1 ?noted" "same_core (wd_state w') (apply_block (task_id t) s1)"
      using h by (auto simp: handled_def Let_def)
    have "rec_get (tasks_of s1) (task_id t) = Some t" using s1(1) t by (simp add: same_core_def)
    then have "failure_budget m (wd_state w') < failure_budget m s1"
      using budget_block assms(4) same_core_budget[OF s1(2)] by metis
    then show ?thesis using budget_noted[of m "task_id t" f ?s] same_core_budget[OF s1(1)] by simp
  qed
  then show ?thesis using sv by (simp add: saved_def)
qed

section \<open>A failure in the sample run\<close>

lemma valid_note_failure:
  assumes "valid_state z s" and "failureSchema (z_iso z) f"
  shows "valid_state z (s\<lparr>ps_failures := ps_failures s @ [f], ps_execution := (ps_execution s)\<lparr>ex_retryCounts := c\<rparr>\<rparr>)"
    and "valid_state z (note_failure tid f n s)"
  using assms
  by (auto simp: note_failure_def valid_state_iff projectStateDeepSchema_def executionStateSchema_def opt_min1_def
      feature_issues_Nil epic_issues_Nil task_issues_Nil blocked_issues_Nil completed_issues_Nil)

abbreviation sample_t2 :: task where
  "sample_t2 \<equiv> sample_task ''t2'' P0"

lemma sample_tasks: "tasks_of sample_state = [(''t1'', sample_task ''t1'' P2), (''t2'', sample_t2), (''t3'', sample_task ''t3'' P0)]"
  by (simp add: sample_state_def)

lemma sample_task_sel [simp]: "task_id (sample_task i p) = i" "task_status (sample_task i p) = Todo" "task_split_from (sample_task i p) = None"
  by (simp_all add: sample_task_def)

lemma sample_keyed: "well_keyed sample_state" "splittable sample_state sample_t2"
  by (simp_all add: well_keyed_def splittable_def rec_has_def sample_tasks, simp_all add: sample_state_def)

lemma sample_handled:
  "\<exists>res w'. handle_failure sample_env 3 sample_t2 Reviewer ''review_rejected'' ''r'' sample_world = (Inr res, w')"
proof -
  have z: "valid_state sample_zod sample_state" by (rule sample_state_valid)
  have r: "retries_of sample_state k = 0" for k by (simp add: retries_of_def sample_state_def createEmptyProjectState_def)
  have iso: "z_iso sample_zod (Iso a)" for a by (simp add: sample_zod_def)
  have nf: "valid_state sample_zod (note_failure tid f n (sample_state\<lparr>ps_revision := m\<rparr>))"
    if "failureSchema (z_iso sample_zod) f" for tid f n m
    using valid_note_failure(2)[of sample_zod "sample_state\<lparr>ps_revision := m\<rparr>" f] z that by simp
  have rev: "ps_revision (note_failure tid f n s) = ps_revision s" for tid f n s by (simp add: note_failure_def)
  have act: "nextFailureAction sample_t2 0 3 = Retry_Action" by (simp add: nextFailureAction_def)
  have "wp (handle_failure sample_env 3 sample_t2 Reviewer ''review_rejected'' ''r'') (\<lambda>_ _. True) (\<lambda>_ _. False) sample_world"
    unfolding handle_failure_def Let_def wp_simps
    by (simp add: wp_simps wp_protected_free recordFailure_def load_def r act sample_world_def sample_store_def sample_env_def
        failure_of_def rec_has_def sample_tasks wp_commit_valid valid_note_failure(1)[OF z] Let_def buildFailureRecord_def
        failureSchema_def all_min1_def opt_min1_def opt_iso_def iso flushToState_def save_state_def saveWithEvents_def nf rev)
  then show ?thesis using wp_total by fastforce
qed

theorem failure_budget_decreases_witness:
  "\<exists>res w'. handle_failure sample_env 3 sample_t2 Reviewer ''review_rejected'' ''r'' sample_world = (Inr res, w')
     \<and> failure_budget 3 (wd_state w') < failure_budget 3 sample_state"
proof -
  obtain res w' where h: "handle_failure sample_env 3 sample_t2 Reviewer ''review_rejected'' ''r'' sample_world = (Inr res, w')"
    using sample_handled by blast
  show ?thesis
    using failure_budget_decreases[OF h] sample_keyed h by (auto simp: sample_world_def sample_store_def open_task_def)
qed

theorem split_preserves_backlog_witness:
  "valid_state sample_zod (apply_split sample_t2 ''review_rejected'' sample_state)
   \<and> map_option task_status (rec_get (tasks_of (apply_split sample_t2 ''review_rejected'' sample_state)) ''t2'') = Some Superseded"
  using split_preserves_backlog[OF sample_state_valid sample_keyed, of "''review_rejected''"]
  by (simp add: Let_def)

section \<open>Acting on dead letters\<close>

lemma find_update_first: "(\<And>x. P (f x) = P x) \<Longrightarrow> find P (update_first P f xs) = map_option f (find P xs)"
  by (induction xs) auto

lemma unblock_failures [simp]: "ps_failures (unblock_task k s) = ps_failures s"
  by (simp add: unblock_task_def Let_def split: option.splits)

lemma saved_failures:
  "saveWithEvents z s evs e st = (Inr r, st') \<Longrightarrow> st_state st' = s\<lparr>ps_revision := r\<rparr>"
  by (auto simp: saveWithEvents_def commitSnapshot_Inr)

lemma resumeFailure_Inr:
  assumes "resumeFailure ev fid now eu en st = (Inr u, st')"
  obtains f r where "find (\<lambda>f. fl_id f = fid) (ps_failures (st_state st)) = Some f" "failure_state f = Dead_Lettered"
    "st_state st' = (resume_state fid f now (st_state st))\<lparr>ps_revision := r\<rparr>"
  using assms
  by (auto simp: resumeFailure_def load_def getA_def bindA_def throw_def ret_def split: option.splits if_splits prod.splits sum.splits
      dest!: saved_failures)

lemma replay_Inr:
  assumes "replayFromFailureCheckpoint ev fid now eu en st = (Inr rp, st')"
  obtains f r where "find (\<lambda>f. fl_id f = fid) (ps_failures (st_state st)) = Some f" "failure_state f = Dead_Lettered"
    "rp = (fl_task f, when_truthy (fl_run f))" "st_state st' = (replay_state fid rp now (st_state st))\<lparr>ps_revision := r\<rparr>"
  using assms
  by (auto simp: replayFromFailureCheckpoint_def selectReplayCheckpoint_def assertReplayableFailure_def load_def getA_def bindA_def
      throw_def ret_def liftA_def split: option.splits if_splits prod.splits sum.splits dest!: saved_failures)

lemma acted_refused:
  assumes "find (\<lambda>f. fl_id f = fid) (ps_failures (st_state st)) = Some f" and "failure_state f \<noteq> Dead_Lettered"
  shows "\<exists>e. resumeFailure ev fid now eu en st = (Inl e, st)" and "\<exists>e. replayFromFailureCheckpoint ev fid now eu en st = (Inl e, st)"
  using assms
  by (simp_all add: resumeFailure_def replayFromFailureCheckpoint_def selectReplayCheckpoint_def assertReplayableFailure_def load_def
      getA_def bindA_def throw_def liftA_def)

text \<open>A dead letter is acted on once. Resuming or replaying a failure returns only for one that is
  dead-lettered; after that, resuming or replaying it again throws and changes nothing, and it cannot be
  dead-lettered again.\<close>

theorem dead_letter_acted_on_once:
  assumes "resumeFailure ev fid now eu en st = (Inr u, st') \<or> replayFromFailureCheckpoint ev fid now eu en st = (Inr rp, st')"
  shows "\<exists>f f'. find (\<lambda>f. fl_id f = fid) (ps_failures (st_state st)) = Some f \<and> failure_state f = Dead_Lettered
     \<and> find (\<lambda>f. fl_id f = fid) (ps_failures (st_state st')) = Some f'
     \<and> (\<exists>e. ensureDeadLetteredFailure f' now' = Inl e)
     \<and> (\<exists>e. resumeFailure ev' fid now' eu' en' st' = (Inl e, st'))
     \<and> (\<exists>e. replayFromFailureCheckpoint ev' fid now' eu' en' st' = (Inl e, st'))"
proof -
  obtain f s where f: "find (\<lambda>f. fl_id f = fid) (ps_failures (st_state st)) = Some f" "failure_state f = Dead_Lettered"
    and s: "s \<in> {Resumed_Failure, Replayed_Failure}"
    and after: "\<exists>f'. find (\<lambda>f. fl_id f = fid) (ps_failures (st_state st')) = Some f' \<and> failure_state f' = s"
    using assms
  proof
    assume "resumeFailure ev fid now eu en st = (Inr u, st')"
    then obtain f r where "find (\<lambda>f. fl_id f = fid) (ps_failures (st_state st)) = Some f" "failure_state f = Dead_Lettered"
      "st_state st' = (resume_state fid f now (st_state st))\<lparr>ps_revision := r\<rparr>" by (rule resumeFailure_Inr)
    then show ?thesis using that[of f Resumed_Failure] by (simp add: resume_state_def find_update_first failure_state_def)
  next
    assume "replayFromFailureCheckpoint ev fid now eu en st = (Inr rp, st')"
    then obtain f r where "find (\<lambda>f. fl_id f = fid) (ps_failures (st_state st)) = Some f" "failure_state f = Dead_Lettered"
      "rp = (fl_task f, when_truthy (fl_run f))" "st_state st' = (replay_state fid rp now (st_state st))\<lparr>ps_revision := r\<rparr>"
      by (rule replay_Inr)
    then show ?thesis using that[of f Replayed_Failure] by (simp add: replay_state_def find_update_first failure_state_def)
  qed
  from after obtain f' where f': "find (\<lambda>f. fl_id f = fid) (ps_failures (st_state st')) = Some f'" "failure_state f' = s" by blast
  have "\<exists>e. ensureDeadLetteredFailure f' now' = Inl e" using f'(2) s by (auto simp: ensureDeadLetteredFailure_def Let_def)
  then show ?thesis using f f' s acted_refused[OF f'(1)] by auto
qed

text \<open>Replaying a dead letter stops the orchestrator. A task is dead-lettered when its retries are used up, and the
  replay makes it the active task without resetting them: in the state the replay saves, every run cycle stops
  before it selects a task, with the reason that the steps or the retries are used up.\<close>

theorem replay_stops_every_run:
  assumes "replayFromFailureCheckpoint ev fid now eu en st = (Inr rp, st')" and "fst rp \<noteq> []"
    and "rl_maxRetries limits \<le> retries_of (st_state st) (fst rp)"
  shows "shouldStopRun (st_state st') limits \<in> {Some ''max_steps_per_run_reached'', Some ''max_retries_reached''}"
proof -
  obtain f r where "st_state st' = (replay_state fid rp now (st_state st))\<lparr>ps_revision := r\<rparr>"
    using assms(1) by (rule replay_Inr)
  then show ?thesis using assms(2,3) by (simp add: shouldStopRun_def replay_state_def retries_of_def)
qed

definition sample_dead :: store where
  "sample_dead = \<lparr> st_state = note_failure ''t2'' (buildFailureRecord ''f1'' (Iso 0)
       (failure_of sample_t2 Reviewer ''review_rejected'' ''r'' Block_Action (Iso 0))) 3 sample_state, st_events = [] \<rparr>"

lemma sample_replayed:
  "\<exists>st'. replayFromFailureCheckpoint sample_env ''f1'' (Iso 1) ''e'' (Iso 1) sample_dead = (Inr (''t2'', Some ''r''), st')"
proof -
  let ?f = "buildFailureRecord ''f1'' (Iso 0) (failure_of sample_t2 Reviewer ''review_rejected'' ''r'' Block_Action (Iso 0))"
  have f: "failureSchema (z_iso sample_zod) (?f\<lparr>fl_status := Some Replayed_Failure, fl_replayed := Some (Iso 1)\<rparr>)"
    by (simp add: failureSchema_def buildFailureRecord_def failure_of_def all_min1_def opt_min1_def opt_iso_def sample_zod_def)
  have v: "valid_state sample_zod (s\<lparr>ps_execution := (ps_execution s)\<lparr>ex_activeRun := Some ''r'', ex_activeTask := Some ''t2''\<rparr>\<rparr>)"
    if "valid_state sample_zod s" "rec_has (tasks_of s) ''t2''" for s
    using that by (auto simp: valid_state_iff projectStateDeepSchema_def executionStateSchema_def opt_min1_def
        feature_issues_Nil epic_issues_Nil task_issues_Nil blocked_issues_Nil completed_issues_Nil)
  let ?s = "replay_state ''f1'' (''t2'', Some ''r'') (Iso 1) (st_state sample_dead)"
  have eq: "?s = (let s = note_failure ''t2'' (?f\<lparr>fl_status := Some Replayed_Failure, fl_replayed := Some (Iso 1)\<rparr>) 3 sample_state
      in s\<lparr>ps_execution := (ps_execution s)\<lparr>ex_activeRun := Some ''r'', ex_activeTask := Some ''t2''\<rparr>\<rparr>)"
    by (simp add: replay_state_def sample_dead_def note_failure_def Let_def when_truthy_def sample_state_def createEmptyProjectState_def
        buildFailureRecord_def)
  have "valid_state sample_zod ?s"
    unfolding eq Let_def using valid_note_failure(2)[OF sample_state_valid f]
    by (intro v) (simp_all add: rec_has_def sample_tasks)
  moreover have "ps_revision ?s = 0" "ps_revision (st_state sample_dead) = 0"
    by (simp_all add: replay_state_def sample_dead_def note_failure_def)
  moreover have "find (\<lambda>f. fl_id f = ''f1'') (ps_failures (st_state sample_dead)) = Some ?f"
    "selectReplayCheckpoint ?f = Inr (''t2'', Some ''r'')"
    by (simp_all add: sample_dead_def note_failure_def sample_state_def createEmptyProjectState_def buildFailureRecord_def
        failure_of_def selectReplayCheckpoint_def assertReplayableFailure_def failure_state_def when_truthy_def)
  ultimately have "wp (replayFromFailureCheckpoint sample_env ''f1'' (Iso 1) ''e'' (Iso 1)) (\<lambda>rp _. rp = (''t2'', Some ''r'')) (\<lambda>_ _. False) sample_dead"
    by (simp add: replayFromFailureCheckpoint_def load_def wp_simps saveWithEvents_def wp_commit_valid sample_env_def)
  then show ?thesis using wp_total by fastforce
qed

theorem dead_letter_acted_on_once_witness:
  "\<exists>st' e. replayFromFailureCheckpoint sample_env ''f1'' (Iso 1) ''e'' (Iso 1) sample_dead = (Inr (''t2'', Some ''r''), st')
     \<and> replayFromFailureCheckpoint sample_env ''f1'' (Iso 2) ''e'' (Iso 2) st' = (Inl e, st')"
proof -
  obtain st' where r: "replayFromFailureCheckpoint sample_env ''f1'' (Iso 1) ''e'' (Iso 1) sample_dead = (Inr (''t2'', Some ''r''), st')"
    using sample_replayed by blast
  from dead_letter_acted_on_once[OF disjI2[OF r]] r show ?thesis by blast
qed

theorem replay_stops_every_run_witness:
  "\<exists>st'. replayFromFailureCheckpoint sample_env ''f1'' (Iso 1) ''e'' (Iso 1) sample_dead = (Inr (''t2'', Some ''r''), st')
     \<and> shouldStopRun (st_state st') \<lparr> rl_maxSteps = 10, rl_maxRetries = 3 \<rparr> \<in> {Some ''max_steps_per_run_reached'', Some ''max_retries_reached''}"
proof -
  obtain st' where r: "replayFromFailureCheckpoint sample_env ''f1'' (Iso 1) ''e'' (Iso 1) sample_dead = (Inr (''t2'', Some ''r''), st')"
    using sample_replayed by blast
  from replay_stops_every_run[OF r, of "\<lparr> rl_maxSteps = 10, rl_maxRetries = 3 \<rparr>"] r show ?thesis
    by (auto simp: sample_dead_def)
qed

end
