(* ===== verification/Retry.thy ===== *)
theory Retry
  imports Effects Complex_Main
begin

text \<open>
  The retry policy (\<open>packages/core/src/retry/retry-policy.ts\<close>), the retry loop
  (\<open>packages/execution/src/retry/execute-with-retry.ts\<close>) and the abort signals it hands out
  (\<open>packages/execution/src/cancellation/propagate-abort.ts\<close>).

  Delays, ratios and the multiplier are rational numbers: the rounding of IEEE doubles is outside the
  model, \<open>Math.round\<close> is not. Abort signals live in a list; a listener is the index of the
  signal it aborts, since \<open>propagateAbort\<close> registers no other kind. Every retried attempt draws one
  random number, which is indexed by the attempt.
\<close>

section \<open>The policy\<close>

record retry_policy =
  rp_maxAttempts :: rat
  rp_baseDelayMs :: rat
  rp_maxDelayMs :: rat
  rp_backoffMultiplier :: rat
  rp_jitterRatio :: rat

record partial_retry_policy =
  pp_maxAttempts :: "rat option"
  pp_baseDelayMs :: "rat option"
  pp_maxDelayMs :: "rat option"
  pp_backoffMultiplier :: "rat option"
  pp_jitterRatio :: "rat option"

record retry_schedule =
  sc_shouldRetry :: bool
  sc_delayMs :: int

definition DEFAULT_RETRY_POLICY :: retry_policy where
  "DEFAULT_RETRY_POLICY = \<lparr> rp_maxAttempts = 3, rp_baseDelayMs = 250, rp_maxDelayMs = 5000,
     rp_backoffMultiplier = 2, rp_jitterRatio = 1 / 5 \<rparr>"

definition merged_policy :: "partial_retry_policy option \<Rightarrow> retry_policy" where
  "merged_policy p = (case p of None \<Rightarrow> DEFAULT_RETRY_POLICY | Some q \<Rightarrow>
     \<lparr> rp_maxAttempts = or_default (pp_maxAttempts q) (rp_maxAttempts DEFAULT_RETRY_POLICY),
       rp_baseDelayMs = or_default (pp_baseDelayMs q) (rp_baseDelayMs DEFAULT_RETRY_POLICY),
       rp_maxDelayMs = or_default (pp_maxDelayMs q) (rp_maxDelayMs DEFAULT_RETRY_POLICY),
       rp_backoffMultiplier = or_default (pp_backoffMultiplier q) (rp_backoffMultiplier DEFAULT_RETRY_POLICY),
       rp_jitterRatio = or_default (pp_jitterRatio q) (rp_jitterRatio DEFAULT_RETRY_POLICY) \<rparr>)"

definition is_integer :: "rat \<Rightarrow> bool" where
  "is_integer x = (of_int \<lfloor>x\<rfloor> = x)"

definition retry_error :: "string \<Rightarrow> js_error" where
  "retry_error m = Js_Error PlainError (''RetryPolicy: '' @ m) []"

definition resolveRetryPolicy :: "partial_retry_policy option \<Rightarrow> retry_policy result" where
  "resolveRetryPolicy p = (let r = merged_policy p in
     if \<not> is_integer (rp_maxAttempts r) \<or> rp_maxAttempts r < 1
       then Inl (retry_error ''maxAttempts must be an integer >= 1'')
     else if rp_baseDelayMs r < 0 then Inl (retry_error ''baseDelayMs must be >= 0'')
     else if rp_maxDelayMs r < rp_baseDelayMs r then Inl (retry_error ''maxDelayMs must be >= baseDelayMs'')
     else if rp_backoffMultiplier r < 1 then Inl (retry_error ''backoffMultiplier must be >= 1'')
     else if rp_jitterRatio r < 0 \<or> rp_jitterRatio r > 1 then Inl (retry_error ''jitterRatio must be between 0 and 1'')
     else Inr r)"

text \<open>\<open>Math.round\<close>: the nearest integer, halves upwards.\<close>

definition js_round :: "rat \<Rightarrow> int" where
  "js_round x = \<lfloor>x + 1 / 2\<rfloor>"

definition exponential_delay :: "retry_policy \<Rightarrow> int \<Rightarrow> rat" where
  "exponential_delay r attempt =
     min (rp_maxDelayMs r) (rp_baseDelayMs r * rp_backoffMultiplier r ^ nat (attempt - 1))"

definition getRetrySchedule :: "int \<Rightarrow> partial_retry_policy option \<Rightarrow> rat \<Rightarrow> retry_schedule result" where
  "getRetrySchedule attempt p random =
     (case resolveRetryPolicy p of Inl e \<Rightarrow> Inl e | Inr r \<Rightarrow>
        if attempt < 1 then Inl (retry_error ''attempt must be an integer >= 1'')
        else if rp_maxAttempts r \<le> of_int attempt then Inr \<lparr> sc_shouldRetry = False, sc_delayMs = 0 \<rparr>
        else let d = exponential_delay r attempt;
                 amplitude = d * rp_jitterRatio r;
                 offset = (random * 2 - 1) * amplitude
             in Inr \<lparr> sc_shouldRetry = True, sc_delayMs = max 0 (js_round (d + offset)) \<rparr>)"

lemma resolveRetryPolicy_ok:
  assumes "resolveRetryPolicy p = Inr r"
  shows "r = merged_policy p" "is_integer (rp_maxAttempts r)" "1 \<le> rp_maxAttempts r" "0 \<le> rp_baseDelayMs r"
    "rp_baseDelayMs r \<le> rp_maxDelayMs r" "1 \<le> rp_backoffMultiplier r" "0 \<le> rp_jitterRatio r" "rp_jitterRatio r \<le> 1"
  using assms by (auto simp: resolveRetryPolicy_def Let_def split: if_splits)

lemma exponential_delay_bounds:
  assumes "resolveRetryPolicy p = Inr r"
  shows "rp_baseDelayMs r \<le> exponential_delay r n" "exponential_delay r n \<le> rp_maxDelayMs r"
    "n \<le> m \<Longrightarrow> exponential_delay r n \<le> exponential_delay r m"
proof -
  note r = resolveRetryPolicy_ok[OF assms]
  have "1 \<le> rp_backoffMultiplier r ^ k" for k using r(6) by (simp add: one_le_power)
  then show "rp_baseDelayMs r \<le> exponential_delay r n"
    using r(4,5) mult_left_mono[of 1 "rp_backoffMultiplier r ^ nat (n - 1)" "rp_baseDelayMs r"]
    by (simp add: exponential_delay_def)
  show "exponential_delay r n \<le> rp_maxDelayMs r" by (simp add: exponential_delay_def)
  assume "n \<le> m"
  then have "rp_backoffMultiplier r ^ nat (n - 1) \<le> rp_backoffMultiplier r ^ nat (m - 1)"
    using r(6) by (intro power_increasing) auto
  then show "exponential_delay r n \<le> exponential_delay r m"
    unfolding exponential_delay_def by (intro min.mono mult_left_mono r(4)) simp_all
qed

lemma js_round_bounds: "l \<le> x \<Longrightarrow> x \<le> u \<Longrightarrow> js_round l \<le> js_round x \<and> js_round x \<le> js_round u"
  unfolding js_round_def by (intro conjI floor_mono) simp_all


section \<open>Abort signals\<close>

record abort_state =
  sg_reason :: "string option"
  sg_listeners :: "nat list"

type_synonym signals = "abort_state list"

definition sg_aborted :: "signals \<Rightarrow> nat \<Rightarrow> bool" where
  "sg_aborted h i = (i < length h \<and> sg_reason (h ! i) \<noteq> None)"

definition open_signals :: "signals \<Rightarrow> nat" where
  "open_signals h = length (filter (\<lambda>s. sg_reason s = None) h)"

text \<open>\<open>AbortController.abort\<close>: it does nothing the second time; the first time it sets the reason, forgets the
  listeners (they are registered with \<open>once\<close>) and runs them, each of which aborts a signal in turn.\<close>

lemma open_signals_abort:
  assumes "i < length h" "sg_reason (h ! i) = None"
  shows "open_signals (h[i := \<lparr> sg_reason = Some r, sg_listeners = [] \<rparr>]) < open_signals h"
proof -
  have "open_signals h = open_signals (take i h) + (1 + open_signals (drop (Suc i) h))"
    by (subst id_take_nth_drop[OF assms(1)]) (simp add: open_signals_def assms)
  moreover have "open_signals (h[i := \<lparr> sg_reason = Some r, sg_listeners = [] \<rparr>])
      = open_signals (take i h) + open_signals (drop (Suc i) h)"
    using assms by (simp add: upd_conv_take_nth_drop open_signals_def)
  ultimately show ?thesis by simp
qed

function abort_all :: "string \<Rightarrow> nat list \<Rightarrow> signals \<Rightarrow> signals" where
  "abort_all r [] h = h"
| "abort_all r (i # work) h =
     (if i < length h \<and> sg_reason (h ! i) = None
      then abort_all r (sg_listeners (h ! i) @ work) (h[i := \<lparr> sg_reason = Some r, sg_listeners = [] \<rparr>])
      else abort_all r work h)"
  by pat_completeness auto
termination
  by (relation "measures [\<lambda>(r, work, h). open_signals h, \<lambda>(r, work, h). length work]")
    (auto simp: open_signals_abort)

definition abort_signal :: "string \<Rightarrow> nat \<Rightarrow> signals \<Rightarrow> signals" where
  "abort_signal r i h = abort_all r [i] h"

definition fresh_signal :: abort_state where
  "fresh_signal = \<lparr> sg_reason = None, sg_listeners = [] \<rparr>"

record propagated_abort =
  pa_signal :: nat
  pa_dispose :: "nat option"

definition propagateAbort :: "nat option \<Rightarrow> signals \<Rightarrow> propagated_abort \<times> signals" where
  "propagateAbort parent h = (let c = length h; h1 = h @ [fresh_signal] in
     case parent of
       None \<Rightarrow> (\<lparr> pa_signal = c, pa_dispose = None \<rparr>, h1)
     | Some p \<Rightarrow>
         (case sg_reason (h ! p) of
            Some r \<Rightarrow> (\<lparr> pa_signal = c, pa_dispose = None \<rparr>, abort_signal r c h1)
          | None \<Rightarrow> (\<lparr> pa_signal = c, pa_dispose = Some p \<rparr>,
                     h1[p := (h1 ! p)\<lparr>sg_listeners := sg_listeners (h1 ! p) @ [c]\<rparr>])))"

definition disposeAbort :: "propagated_abort \<Rightarrow> signals \<Rightarrow> signals" where
  "disposeAbort pa h = (case pa_dispose pa of None \<Rightarrow> h
     | Some p \<Rightarrow> h[p := (h ! p)\<lparr>sg_listeners := removeAll (pa_signal pa) (sg_listeners (h ! p))\<rparr>])"

section \<open>The loop\<close>

record retry_failure =
  rf_code :: string
  rf_message :: string
  rf_retriable :: bool

record 'a retry_result =
  rr_ok :: bool
  rr_value :: "'a option"
  rr_failure :: "retry_failure option"

definition retry_cancelled :: "string \<Rightarrow> 'a retry_result" where
  "retry_cancelled m = \<lparr> rr_ok = False, rr_value = None,
     rr_failure = Some \<lparr> rf_code = ''RETRY_CANCELLED'', rf_message = m, rf_retriable = False \<rparr> \<rparr>"

definition result_retriable :: "'a retry_result \<Rightarrow> bool" where
  "result_retriable r = (case rr_failure r of None \<Rightarrow> False | Some f \<Rightarrow> rf_retriable f)"

text \<open>A call under a propagated signal: \<open>const s = propagateAbort(parent); try { ... } finally { s.dispose(); }\<close>.
  The world of the loop is the signals and whatever the callbacks work on.\<close>

definition with_signal :: "nat option \<Rightarrow> (nat \<Rightarrow> (signals \<times> 's, 'a) act) \<Rightarrow> (signals \<times> 's, 'a) act" where
  "with_signal parent f w =
     (case propagateAbort parent (fst w) of (pa, h) \<Rightarrow>
        finallyA (f (pa_signal pa)) (modA (\<lambda>v. (disposeAbort pa (fst v), snd v))) (h, snd w))"

lemma retry_measure:
  assumes "getRetrySchedule n p x = Inr sc" "sc_shouldRetry sc"
  shows "n < \<lceil>rp_maxAttempts (merged_policy p)\<rceil>"
proof -
  obtain r where r: "resolveRetryPolicy p = Inr r" "of_int n < rp_maxAttempts r"
    using assms by (auto simp: getRetrySchedule_def Let_def split: sum.splits if_splits)
  then show ?thesis using resolveRetryPolicy_ok(1)[OF r(1)] by (simp add: less_ceiling_iff)
qed

function retry_from :: "partial_retry_policy option \<Rightarrow> (int \<Rightarrow> nat \<Rightarrow> (signals \<times> 's, 'a retry_result) act) \<Rightarrow>
    nat option \<Rightarrow> (int \<Rightarrow> nat \<Rightarrow> (signals \<times> 's, unit) act) \<Rightarrow> (int \<Rightarrow> rat) \<Rightarrow> int \<Rightarrow>
    (signals \<times> 's, 'a retry_result) act" where
  "retry_from p execute parent sleep random attempt w =
     (if (case parent of None \<Rightarrow> False | Some i \<Rightarrow> sg_aborted (fst w) i)
      then (Inr (retry_cancelled ''retry cancelled before attempt''), w)
      else case with_signal parent (execute attempt) w of
        (Inl e, w1) \<Rightarrow> (Inl e, w1)
      | (Inr result, w1) \<Rightarrow>
          if rr_ok result then (Inr result, w1)
          else if \<not> result_retriable result then (Inr result, w1)
          else case getRetrySchedule attempt p (random attempt) of
            Inl e \<Rightarrow> (Inl e, w1)
          | Inr schedule \<Rightarrow>
              if \<not> sc_shouldRetry schedule then (Inr result, w1)
              else case with_signal parent (sleep (sc_delayMs schedule)) w1 of
                (Inl _, w2) \<Rightarrow> (Inr (retry_cancelled ''retry cancelled during backoff''), w2)
              | (Inr _, w2) \<Rightarrow> retry_from p execute parent sleep random (attempt + 1) w2)"
  by pat_completeness auto
termination
  by (relation "measure (\<lambda>(p, execute, parent, sleep, random, attempt, w). nat (\<lceil>rp_maxAttempts (merged_policy p)\<rceil> - attempt))")
    (auto dest: retry_measure)

declare retry_from.simps [simp del]

definition executeWithRetry :: "partial_retry_policy option \<Rightarrow> (int \<Rightarrow> nat \<Rightarrow> (signals \<times> 's, 'a retry_result) act) \<Rightarrow>
    nat option \<Rightarrow> (int \<Rightarrow> nat \<Rightarrow> (signals \<times> 's, unit) act) \<Rightarrow> (int \<Rightarrow> rat) \<Rightarrow> (signals \<times> 's, 'a retry_result) act" where
  "executeWithRetry p execute parent sleep random = retry_from p execute parent sleep random 1"

text \<open>\<open>defaultSleep\<close>: the result and how long it took, given whether the signal is aborted when the sleep starts and the
  instant, counted from the start, at which it is aborted later on. A listener added to an aborted signal is never run.\<close>

definition defaultSleep :: "int \<Rightarrow> bool \<Rightarrow> int option \<Rightarrow> unit result \<times> int" where
  "defaultSleep ms aborted abort_at =
     (if ms \<le> 0 then (Inr (), 0)
      else case abort_at of
        Some t \<Rightarrow> if \<not> aborted \<and> t < ms then (Inl (Js_Error PlainError ''sleep_aborted'' []), t) else (Inr (), ms)
      | None \<Rightarrow> (Inr (), ms))"


section \<open>What the loop does\<close>

definition parent_listeners :: "nat \<Rightarrow> signals \<Rightarrow> nat set" where
  "parent_listeners i h = set (sg_listeners (h ! i))"

text \<open>A call that neither shrinks the list of signals nor leaves a listener on signal \<open>i\<close>.\<close>

definition tidy :: "nat \<Rightarrow> (signals \<times> 's, 'a) act \<Rightarrow> bool" where
  "tidy i m = (\<forall>w. i < length (fst w) \<longrightarrow> length (fst w) \<le> length (fst (snd (m w))) \<and>
                   parent_listeners i (fst (snd (m w))) \<subseteq> parent_listeners i (fst w))"

lemma with_signal_snd:
  "snd (snd (with_signal parent f w)) = snd (snd (f (length (fst w)) (snd (propagateAbort parent (fst w)), snd w)))"
  by (auto simp: with_signal_def finallyA_def modA_def propagateAbort_def Let_def split: prod.splits option.splits)

lemma with_signal_calls:
  assumes "with_signal parent f w = (x, v)" "\<And>sg u. g (snd (snd (f sg u))) = k (snd u)"
  shows "g (snd v) = k (snd w)"
  using with_signal_snd[of parent f w] assms by simp

lemma with_signal_tidy:
  assumes "\<And>sg. tidy i (f sg)"
  shows "tidy i (with_signal (Some i) f)"
  unfolding tidy_def
proof (intro allI impI)
  fix w :: "signals \<times> 'a" assume i: "i < length (fst w)"
  obtain pa h where p: "propagateAbort (Some i) (fst w) = (pa, h)" by (cases "propagateAbort (Some i) (fst w)")
  have h: "length h = Suc (length (fst w)) \<and> i < length h \<and>
      parent_listeners i h \<subseteq> parent_listeners i (fst w) \<union> (if pa_dispose pa = Some i then {pa_signal pa} else {}) \<and>
      (pa_dispose pa = Some i \<or> pa_dispose pa = None)"
    using p i by (auto simp: propagateAbort_def Let_def abort_signal_def fresh_signal_def parent_listeners_def
        nth_append split: option.splits)
  obtain r v where f: "f (pa_signal pa) (h, snd w) = (r, v)" by (cases "f (pa_signal pa) (h, snd w)")
  have v: "length h \<le> length (fst v)" "parent_listeners i (fst v) \<subseteq> parent_listeners i h"
    using assms[of "pa_signal pa", unfolded tidy_def, rule_format, of "(h, snd w)"] h f by auto
  have "with_signal (Some i) f w = (r, (disposeAbort pa (fst v), snd v))"
    by (simp add: with_signal_def p finallyA_def modA_def f)
  then show "length (fst w) \<le> length (fst (snd (with_signal (Some i) f w))) \<and>
      parent_listeners i (fst (snd (with_signal (Some i) f w))) \<subseteq> parent_listeners i (fst w)"
    using h v i by (auto simp: disposeAbort_def parent_listeners_def split: if_splits)
qed

lemma tidyD: "tidy i m \<Longrightarrow> m w = (x, v) \<Longrightarrow> i < length (fst w) \<Longrightarrow>
    i < length (fst v) \<and> length (fst w) \<le> length (fst v) \<and> parent_listeners i (fst v) \<subseteq> parent_listeners i (fst w)"
  unfolding tidy_def by (erule allE[of _ w]) auto

lemma retry_from_cases:
  assumes "retry_from p execute parent sleep random n w = (x, v)"
  obtains
    (stopped) "x = Inr (retry_cancelled ''retry cancelled before attempt'')" "v = w"
  | (ended) y where "with_signal parent (execute n) w = (y, v)"
      "\<And>r. x = Inr r \<Longrightarrow> y = Inr r \<and> (\<not> rr_ok r \<longrightarrow> result_retriable r \<longrightarrow>
        (\<exists>sc. getRetrySchedule n p (random n) = Inr sc \<and> \<not> sc_shouldRetry sc))"
  | (interrupted) y w1 ms z where "with_signal parent (execute n) w = (y, w1)"
      "with_signal parent (sleep ms) w1 = (z, v)" "x = Inr (retry_cancelled ''retry cancelled during backoff'')"
  | (again) y w1 sc z w2 where "with_signal parent (execute n) w = (y, w1)"
      "getRetrySchedule n p (random n) = Inr sc" "sc_shouldRetry sc"
      "with_signal parent (sleep (sc_delayMs sc)) w1 = (z, w2)"
      "retry_from p execute parent sleep random (n + 1) w2 = (x, v)"
  using assms by (subst (asm) retry_from.simps) (auto split: if_splits sum.splits prod.splits)

lemma retry_from_induct:
  assumes "\<And>n w. (\<And>w'. n < \<lceil>rp_maxAttempts (merged_policy p)\<rceil> \<Longrightarrow> P (n + 1) w') \<Longrightarrow> P n w"
  shows "P (n :: int) w"
proof (induction "nat (\<lceil>rp_maxAttempts (merged_policy p)\<rceil> - n)" arbitrary: n w rule: less_induct)
  case less
  show ?case by (rule assms) (rule less, simp)
qed

lemma retry_from_tidy:
  assumes ex: "\<And>n sg. tidy i (execute n sg)" and sl: "\<And>ms sg. tidy i (sleep ms sg)"
  shows "tidy i (retry_from p execute (Some i) sleep random n)"
proof -
  have "\<forall>x v. retry_from p execute (Some i) sleep random n w = (x, v) \<longrightarrow> i < length (fst w) \<longrightarrow>
      i < length (fst v) \<and> length (fst w) \<le> length (fst v) \<and> parent_listeners i (fst v) \<subseteq> parent_listeners i (fst w)" for w
  proof (induction n w rule: retry_from_induct[where p = p])
    case (1 n w)
    note e = tidyD[OF with_signal_tidy[OF ex]] and s = tidyD[OF with_signal_tidy[OF sl]]
    show ?case
    proof (intro allI impI)
      fix x v assume run: "retry_from p execute (Some i) sleep random n w = (x, v)" and i: "i < length (fst w)"
      from run show "i < length (fst v) \<and> length (fst w) \<le> length (fst v) \<and> parent_listeners i (fst v) \<subseteq> parent_listeners i (fst w)"
      proof (cases rule: retry_from_cases)
        case (again y w1 sc z w2)
        then show ?thesis using e[OF again(1) i] s[OF again(4)] 1[OF retry_measure[OF again(2,3)]] by fastforce
      next
        case (interrupted y w1 ms z)
        then show ?thesis using e[OF interrupted(1) i] s[OF interrupted(2)] by auto
      qed (use i e in auto)
    qed
  qed
  then show ?thesis unfolding tidy_def by (metis prod.collapse)
qed

lemma last_schedule:
  assumes "getRetrySchedule n p x = Inr sc" "\<not> sc_shouldRetry sc" "1 \<le> n" "n \<le> max 1 \<lceil>rp_maxAttempts (merged_policy p)\<rceil>"
  shows "\<exists>r. resolveRetryPolicy p = Inr r \<and> rp_maxAttempts r = of_int n"
proof -
  obtain r where r: "resolveRetryPolicy p = Inr r" and n: "rp_maxAttempts r \<le> of_int n"
    using assms by (auto simp: getRetrySchedule_def Let_def split: sum.splits if_splits)
  note ok = resolveRetryPolicy_ok[OF r]
  have "\<lceil>rp_maxAttempts r\<rceil> = \<lfloor>rp_maxAttempts r\<rfloor>" using ok(2) by (metis is_integer_def ceiling_of_int)
  then have "n \<le> \<lfloor>rp_maxAttempts r\<rfloor>" using assms(3,4) ok(1,3) by (simp add: max_def split: if_splits)
  then have "of_int n \<le> rp_maxAttempts r" by linarith
  then show ?thesis using r n by auto
qed

lemma retry_from_attempts:
  assumes ex: "\<And>n sg w. calls (snd (snd (execute n sg w))) = calls (snd w) @ [n]"
    and sl: "\<And>ms sg w. calls (snd (snd (sleep ms sg w))) = calls (snd w)"
  shows "retry_from p execute parent sleep random n w = (x, v) \<Longrightarrow> 1 \<le> n \<Longrightarrow>
      n \<le> max 1 \<lceil>rp_maxAttempts (merged_policy p)\<rceil> \<Longrightarrow>
    \<exists>k. n - 1 \<le> k \<and> k \<le> max 1 \<lceil>rp_maxAttempts (merged_policy p)\<rceil> \<and> calls (snd v) = calls (snd w) @ [n..k] \<and>
      (\<forall>r. x = Inr r \<longrightarrow> \<not> rr_ok r \<longrightarrow> result_retriable r \<longrightarrow>
         (\<exists>q. resolveRetryPolicy p = Inr q \<and> rp_maxAttempts q = of_int k))"
proof (induction n w arbitrary: x v rule: retry_from_induct[where p = p])
  case (1 n w)
  have e: "calls (snd w1) = calls (snd w) @ [n]" if "with_signal parent (execute n) w = (y, w1)" for y w1
    using with_signal_calls[of parent "execute n" w y w1 calls "\<lambda>u. calls u @ [n]"] that ex by simp
  have s: "calls (snd w2) = calls (snd w1)" if "with_signal parent (sleep ms) w1 = (z, w2)" for ms w1 z w2
    using with_signal_calls[of parent "sleep ms" w1 z w2 calls calls] that sl by simp
  have one: "[n..n] = [n]" by (simp add: upto_single)
  from 1(2) show ?case
  proof (cases rule: retry_from_cases)
    case stopped
    then show ?thesis using 1(3,4) by (intro exI[of _ "n - 1"]) (auto simp: retry_cancelled_def result_retriable_def)
  next
    case (ended y)
    then show ?thesis using 1(3,4) e one last_schedule by (intro exI[of _ n]) fastforce
  next
    case (interrupted y w1 ms z)
    then show ?thesis using 1(4) e s one by (intro exI[of _ n]) (auto simp: retry_cancelled_def result_retriable_def)
  next
    case (again y w1 sc z w2)
    have n: "n < \<lceil>rp_maxAttempts (merged_policy p)\<rceil>" by (rule retry_measure[OF again(2,3)])
    obtain k where "n \<le> k" "k \<le> max 1 \<lceil>rp_maxAttempts (merged_policy p)\<rceil>" "calls (snd v) = calls (snd w2) @ [n + 1..k]"
        "\<forall>r. x = Inr r \<longrightarrow> \<not> rr_ok r \<longrightarrow> result_retriable r \<longrightarrow>
           (\<exists>q. resolveRetryPolicy p = Inr q \<and> rp_maxAttempts q = of_int k)"
      using 1(1)[OF n again(5)] 1(3) n by (auto simp: le_max_iff_disj)
    then show ?thesis using e[OF again(1)] s[OF again(4)] by (intro exI[of _ k]) (auto simp: upto_rec1)
  qed
qed


section \<open>Properties\<close>

text \<open>C16. The retry loop always ends. It calls the operation with the attempts 1, 2, 3, ... in this order and at most
  as many times as the policy allows; a failure that could be retried is reported only when the
  last allowed attempt has been made; and it leaves no listener behind on the signal of its caller, as long as the
  operation and the sleep leave none.\<close>

theorem retry_bounded:
  assumes "\<And>n sg w. calls (snd (snd (execute n sg w))) = calls (snd w) @ [n]"
    and "\<And>ms sg w. calls (snd (snd (sleep ms sg w))) = calls (snd w)"
    and "\<And>n sg. tidy i (execute n sg)" and "\<And>ms sg. tidy i (sleep ms sg)"
    and "i < length (fst w)"
    and "executeWithRetry p execute (Some i) sleep random w = (x, v)"
  shows "(\<exists>k \<le> max 1 \<lceil>rp_maxAttempts (merged_policy p)\<rceil>. calls (snd v) = calls (snd w) @ [1..k] \<and>
           (\<forall>r. x = Inr r \<longrightarrow> \<not> rr_ok r \<longrightarrow> result_retriable r \<longrightarrow>
              (\<exists>q. resolveRetryPolicy p = Inr q \<and> rp_maxAttempts q = of_int k))) \<and>
         parent_listeners i (fst v) \<subseteq> parent_listeners i (fst w)"
proof
  have run: "retry_from p execute (Some i) sleep random 1 w = (x, v)"
    using assms(6) by (simp add: executeWithRetry_def)
  show "\<exists>k \<le> max 1 \<lceil>rp_maxAttempts (merged_policy p)\<rceil>. calls (snd v) = calls (snd w) @ [1..k] \<and>
      (\<forall>r. x = Inr r \<longrightarrow> \<not> rr_ok r \<longrightarrow> result_retriable r \<longrightarrow>
        (\<exists>q. resolveRetryPolicy p = Inr q \<and> rp_maxAttempts q = of_int k))"
    using retry_from_attempts[OF assms(1,2) run] by auto
  show "parent_listeners i (fst v) \<subseteq> parent_listeners i (fst w)"
    using tidyD[OF retry_from_tidy[OF assms(3,4)] run assms(5)] by simp
qed

text \<open>An operation that always fails but may be retried, under a policy of two attempts.\<close>

definition sample_failing :: "int \<Rightarrow> nat \<Rightarrow> (signals \<times> int list, unit retry_result) act" where
  "sample_failing n sg w = (Inr \<lparr> rr_ok = False, rr_value = None,
     rr_failure = Some \<lparr> rf_code = ''E'', rf_message = ''busy'', rf_retriable = True \<rparr> \<rparr>, (fst w, snd w @ [n]))"

definition sample_two_attempts :: partial_retry_policy where
  "sample_two_attempts = \<lparr> pp_maxAttempts = Some 2, pp_baseDelayMs = None, pp_maxDelayMs = None,
     pp_backoffMultiplier = None, pp_jitterRatio = None \<rparr>"

lemma sample_retry_run:
  "executeWithRetry (Some sample_two_attempts) sample_failing (Some 0) (\<lambda>ms sg. ret ()) (\<lambda>n. 1 / 2) ([fresh_signal], []) =
     (Inr \<lparr> rr_ok = False, rr_value = None,
        rr_failure = Some \<lparr> rf_code = ''E'', rf_message = ''busy'', rf_retriable = True \<rparr> \<rparr>,
      ([fresh_signal, fresh_signal, fresh_signal, fresh_signal], [1, 2]))"
  by (simp add: executeWithRetry_def retry_from.simps[of _ _ _ _ _ 1] retry_from.simps[of _ _ _ _ _ 2] with_signal_def
      propagateAbort_def disposeAbort_def Let_def finallyA_def modA_def sg_aborted_def fresh_signal_def sample_failing_def
      ret_def result_retriable_def getRetrySchedule_def resolveRetryPolicy_def merged_policy_def sample_two_attempts_def
      is_integer_def DEFAULT_RETRY_POLICY_def)

theorem retry_bounded_witness:
  "(\<exists>k \<le> 2. [1, 2 :: int] = [1..k]) \<and> parent_listeners 0 [fresh_signal, fresh_signal, fresh_signal, fresh_signal] = {}"
proof -
  have t: "tidy 0 (sample_failing n sg)" "tidy 0 (ret () :: (signals \<times> int list, unit) act)" for n sg
    by (simp_all add: tidy_def sample_failing_def ret_def)
  show ?thesis
    using retry_bounded[where calls = "\<lambda>x. x", OF _ _ t(1) t(2) _ sample_retry_run]
    by (auto simp: sample_failing_def ret_def merged_policy_def sample_two_attempts_def fresh_signal_def parent_listeners_def)
qed

text \<open>A valid policy schedules a retry exactly for the attempts below its maximum, and the delay it computes is never
  negative and lies within the jitter of the exponential delay: between \<open>d (1 - j)\<close> and \<open>d (1 + j)\<close>, rounded, where
  \<open>d\<close> itself stays between the base delay and the maximal delay and never shrinks from one attempt to the next.\<close>

theorem retry_schedule_bounds:
  assumes "resolveRetryPolicy p = Inr r" "1 \<le> n" "0 \<le> x" "x \<le> 1"
  shows "\<exists>sc. getRetrySchedule n p x = Inr sc \<and> (sc_shouldRetry sc \<longleftrightarrow> of_int n < rp_maxAttempts r) \<and>
      0 \<le> sc_delayMs sc \<and>
      (sc_shouldRetry sc \<longrightarrow>
         js_round (exponential_delay r n * (1 - rp_jitterRatio r)) \<le> sc_delayMs sc \<and>
         sc_delayMs sc \<le> js_round (exponential_delay r n * (1 + rp_jitterRatio r))) \<and>
      rp_baseDelayMs r \<le> exponential_delay r n \<and> exponential_delay r n \<le> rp_maxDelayMs r \<and>
      exponential_delay r n \<le> exponential_delay r (n + 1)"
proof -
  note ok = resolveRetryPolicy_ok[OF assms(1)]
  have d: "rp_baseDelayMs r \<le> exponential_delay r n" "exponential_delay r n \<le> rp_maxDelayMs r"
    "exponential_delay r n \<le> exponential_delay r (n + 1)"
    using exponential_delay_bounds[OF assms(1)] by simp_all
  define a where "a = exponential_delay r n * rp_jitterRatio r"
  have "0 \<le> exponential_delay r n" using d(1) ok(4) by linarith
  then have a: "0 \<le> a" "a \<le> exponential_delay r n" using ok(7,8) by (simp_all add: a_def mult_left_le)
  have s: "- a \<le> (x * 2 - 1) * a" "(x * 2 - 1) * a \<le> a"
    using assms(3,4) a(1) mult_right_mono[of "-1" "x * 2 - 1" a] mult_right_mono[of "x * 2 - 1" 1 a] by simp_all
  have lo: "exponential_delay r n * (1 - rp_jitterRatio r) = exponential_delay r n - a"
    and hi: "exponential_delay r n * (1 + rp_jitterRatio r) = exponential_delay r n + a"
    by (simp_all add: a_def algebra_simps)
  have j: "js_round (exponential_delay r n - a) \<le> js_round (exponential_delay r n + (x * 2 - 1) * a)"
    "js_round (exponential_delay r n + (x * 2 - 1) * a) \<le> js_round (exponential_delay r n + a)"
    using js_round_bounds[of "exponential_delay r n - a" "exponential_delay r n + (x * 2 - 1) * a" "exponential_delay r n + a"] s
    by simp_all
  have z: "0 \<le> js_round (exponential_delay r n - a)" using a(2) by (simp add: js_round_def)
  show ?thesis
    using assms(1,2) j z d unfolding lo hi
    by (auto simp: getRetrySchedule_def Let_def a_def[symmetric])
qed

theorem retry_schedule_bounds_witness:
  "\<exists>sc. getRetrySchedule 2 None (1 / 2) = Inr sc \<and> sc_shouldRetry sc \<and> 400 \<le> sc_delayMs sc \<and> sc_delayMs sc \<le> 600"
proof -
  have r: "resolveRetryPolicy None = Inr DEFAULT_RETRY_POLICY"
    by (simp add: resolveRetryPolicy_def merged_policy_def DEFAULT_RETRY_POLICY_def is_integer_def)
  have f: "\<lfloor>801 / 2 :: rat\<rfloor> = 400" "\<lfloor>1201 / 2 :: rat\<rfloor> = 600" by (simp_all add: floor_eq_iff)
  show ?thesis
    using retry_schedule_bounds[OF r, of 2 "1 / 2"]
    by (auto simp: DEFAULT_RETRY_POLICY_def exponential_delay_def js_round_def f)
qed

text \<open>A sleep under a signal that is already aborted lasts its full time.\<close>

lemma aborted_sleep_is_not_cut: "0 < ms \<Longrightarrow> defaultSleep ms True t = (Inr (), ms)"
  by (simp add: defaultSleep_def split: option.splits)

end
