(* ===== verification/Mutation_Pipeline.thy ===== *)
theory Mutation_Pipeline
  imports Effects Timestamps
begin

text \<open>
  The repository mutation pipeline (\<open>packages/execution/src/repo-mutation-pipeline.ts\<close>) and the
  stages it is built from (\<open>packages/execution/src/mutation/stages\<close>).

  A stage works on the context object, which it may change, and on the outside world \<open>'s\<close>
  (file system, git, code host), whose operations are parameters. \<open>Promise.race\<close> between the stage and its
  timer has three outcomes: the stage returned, it threw, or the timer won. A stage that lost the race is
  not followed any further. Metadata is an association list of strings.
\<close>

section \<open>Data\<close>

datatype stage_name =
    Workspace_Prepare | Branch_Prepare | Change_Apply | Verification | Commit_Prepare
  | Push_Prepare | Pr_Draft_Prepare | Finalize

datatype stage_status = Stage_Succeeded | Stage_Failed | Stage_Compensated | Stage_Skipped

record stage_evidence =
  ev_stage :: stage_name
  ev_status :: stage_status
  ev_startedAt :: stamp
  ev_finishedAt :: stamp
  ev_durationMs :: int
  ev_attempt :: nat
  ev_notes :: "string option"
  ev_metadata :: "string jsrec option"
  ev_errorCode :: "string option"
  ev_errorMessage :: "string option"

record pipeline_context =
  pc_runId :: string
  pc_taskId :: string
  pc_workspacePath :: string
  pc_branchName :: "string option"
  pc_metadata :: "string jsrec"

record stage_failure =
  sf_code :: string
  sf_message :: string
  sf_retriable :: bool

record stage_result =
  sr_ok :: bool
  sr_notes :: "string option"
  sr_metadata :: "string jsrec option"
  sr_failure :: "stage_failure option"

datatype stage_outcome = Stage_Returns stage_result | Stage_Throws string | Stage_Times_Out string

type_synonym 's stage_world = "pipeline_context \<times> 's"

record 's stage_def =
  sd_name :: stage_name
  sd_timeoutMs :: int
  sd_maxAttempts :: nat
  sd_execute :: "'s stage_world \<Rightarrow> stage_outcome \<times> 's stage_world"
  sd_compensate :: "('s stage_world, unit) act option"

record pipeline_result =
  pr_ok :: bool
  pr_stoppedAt :: "stage_name option"
  pr_evidences :: "stage_evidence list"

record 's pipeline_world =
  pw_stage :: "'s stage_world"
  pw_evidences :: "stage_evidence list"
  pw_tick :: nat

fun stage_index :: "stage_name \<Rightarrow> int" where
  "stage_index Workspace_Prepare = 0"
| "stage_index Branch_Prepare = 1"
| "stage_index Change_Apply = 2"
| "stage_index Verification = 3"
| "stage_index Commit_Prepare = 4"
| "stage_index Push_Prepare = 5"
| "stage_index Pr_Draft_Prepare = 6"
| "stage_index Finalize = 7"

lemma stage_index_inj: "stage_index a = stage_index b \<Longrightarrow> a = b"
  by (cases a; cases b) simp_all

instantiation stage_name :: linorder
begin

definition less_eq_stage_name :: "stage_name \<Rightarrow> stage_name \<Rightarrow> bool" where
  "less_eq_stage_name a b = (stage_index a \<le> stage_index b)"

definition less_stage_name :: "stage_name \<Rightarrow> stage_name \<Rightarrow> bool" where
  "less_stage_name a b = (stage_index a < stage_index b)"

instance
  by standard (auto simp: less_eq_stage_name_def less_stage_name_def intro: stage_index_inj)

end

fun stage_text :: "stage_name \<Rightarrow> string" where
  "stage_text Workspace_Prepare = ''workspace_prepare''"
| "stage_text Branch_Prepare = ''branch_prepare''"
| "stage_text Change_Apply = ''change_apply''"
| "stage_text Verification = ''verification''"
| "stage_text Commit_Prepare = ''commit_prepare''"
| "stage_text Push_Prepare = ''push_prepare''"
| "stage_text Pr_Draft_Prepare = ''pr_draft_prepare''"
| "stage_text Finalize = ''finalize''"

section \<open>The pipeline\<close>

definition now_ms :: "(nat \<Rightarrow> int) \<Rightarrow> ('s pipeline_world, int) act" where
  "now_ms now w = (Inr (now (pw_tick w)), w\<lparr>pw_tick := Suc (pw_tick w)\<rparr>)"

definition push_evidence :: "stage_evidence \<Rightarrow> ('s pipeline_world, unit) act" where
  "push_evidence e = modA (\<lambda>w. w\<lparr>pw_evidences := pw_evidences w @ [e]\<rparr>)"

definition run_execute :: "'s stage_def \<Rightarrow> ('s pipeline_world, stage_outcome) act" where
  "run_execute st w = (case sd_execute st (pw_stage w) of (x, v) \<Rightarrow> (Inr x, w\<lparr>pw_stage := v\<rparr>))"

definition in_stage :: "('s stage_world, 'a) act \<Rightarrow> ('s pipeline_world, 'a) act" where
  "in_stage m w = (case m (pw_stage w) of (x, v) \<Rightarrow> (x, w\<lparr>pw_stage := v\<rparr>))"

definition stage_record :: "'s stage_def \<Rightarrow> stage_status \<Rightarrow> int \<Rightarrow> int \<Rightarrow> nat \<Rightarrow> stage_evidence" where
  "stage_record st status started finished attempt =
     \<lparr> ev_stage = sd_name st, ev_status = status, ev_startedAt = Iso started, ev_finishedAt = Iso finished,
       ev_durationMs = finished - started, ev_attempt = attempt, ev_notes = None, ev_metadata = None,
       ev_errorCode = None, ev_errorMessage = None \<rparr>"

definition compensateIfNeeded :: "(nat \<Rightarrow> int) \<Rightarrow> 's stage_def \<Rightarrow> ('s pipeline_world, unit) act" where
  "compensateIfNeeded now st =
     (case sd_compensate st of None \<Rightarrow> ret ()
      | Some undo \<Rightarrow>
          bindA (now_ms now) (\<lambda>started. thenA (in_stage undo) (bindA (now_ms now) (\<lambda>finished.
            push_evidence ((stage_record st Stage_Compensated started finished 1)\<lparr>ev_notes := Some ''compensation_completed''\<rparr>)))))"

datatype verdict = Stage_Complete | Stage_Again | Pipeline_Stops

text \<open>What follows the race inside the \<open>try\<close>, and the \<open>catch\<close>.\<close>

definition after_race :: "(nat \<Rightarrow> int) \<Rightarrow> 's stage_def \<Rightarrow> nat \<Rightarrow> int \<Rightarrow> stage_outcome \<Rightarrow> ('s pipeline_world, verdict) act" where
  "after_race now st attempt started x =
     (case x of
        Stage_Throws m \<Rightarrow> throw (Js_Error PlainError m [])
      | Stage_Times_Out m \<Rightarrow> throw (Js_Error PlainError m [])
      | Stage_Returns r \<Rightarrow> bindA (now_ms now) (\<lambda>finished.
          if sr_ok r then
            thenA (push_evidence ((stage_record st Stage_Succeeded started finished attempt)
                    \<lparr>ev_notes := when_truthy (sr_notes r), ev_metadata := sr_metadata r\<rparr>)) (ret Stage_Complete)
          else case sr_failure r of
            None \<Rightarrow> throw (Js_Error PlainError (''Stage '' @ stage_text (sd_name st) @ '' returned failed result without failure payload'') [])
          | Some f \<Rightarrow>
              let failed = (stage_record st Stage_Failed started finished attempt)
                    \<lparr>ev_notes := when_truthy (sr_notes r), ev_metadata := sr_metadata r,
                     ev_errorCode := Some (sf_code f), ev_errorMessage := Some (sf_message f)\<rparr>
              in if \<not> sf_retriable f \<or> sd_maxAttempts st \<le> attempt
                 then thenA (push_evidence failed) (thenA (compensateIfNeeded now st) (ret Pipeline_Stops))
                 else thenA (push_evidence (failed\<lparr>ev_status := Stage_Skipped, ev_notes := Some ''retry_scheduled''\<rparr>))
                        (ret Stage_Again)))"

definition caught :: "(nat \<Rightarrow> int) \<Rightarrow> 's stage_def \<Rightarrow> nat \<Rightarrow> int \<Rightarrow> bool \<Rightarrow> js_error \<Rightarrow> ('s pipeline_world, verdict) act" where
  "caught now st attempt started timed_out e =
     bindA (now_ms now) (\<lambda>finished.
       thenA (push_evidence ((stage_record st Stage_Failed started finished attempt)
               \<lparr>ev_errorCode := Some (if timed_out then ''STAGE_TIMEOUT'' else ''STAGE_EXCEPTION''),
                ev_errorMessage := Some (error_message e)\<rparr>))
         (thenA (compensateIfNeeded now st) (ret Pipeline_Stops)))"

fun timed_out :: "stage_outcome \<Rightarrow> bool" where
  "timed_out (Stage_Times_Out m) = True"
| "timed_out _ = False"

definition attempt_stage :: "(nat \<Rightarrow> int) \<Rightarrow> 's stage_def \<Rightarrow> nat \<Rightarrow> ('s pipeline_world, verdict) act" where
  "attempt_stage now st attempt =
     bindA (now_ms now) (\<lambda>started. bindA (run_execute st) (\<lambda>x.
       catchA (after_race now st attempt started x) (caught now st attempt started (timed_out x))))"

function run_stage :: "(nat \<Rightarrow> int) \<Rightarrow> 's stage_def \<Rightarrow> nat \<Rightarrow> ('s pipeline_world, verdict) act" where
  "run_stage now st attempt =
     (if attempt < sd_maxAttempts st then
        bindA (attempt_stage now st (attempt + 1)) (\<lambda>v.
          if v = Stage_Again then run_stage now st (attempt + 1) else ret v)
      else ret Stage_Complete)"
  by pat_completeness auto
termination
  by (relation "measure (\<lambda>(now, st, n). sd_maxAttempts st - n)") auto

declare run_stage.simps [simp del]

fun run_stages :: "(nat \<Rightarrow> int) \<Rightarrow> 's stage_def list \<Rightarrow> ('s pipeline_world, stage_name option) act" where
  "run_stages now [] = ret None"
| "run_stages now (st # sts) = bindA (run_stage now st 0) (\<lambda>v.
     if v = Pipeline_Stops then ret (Some (sd_name st)) else run_stages now sts)"

definition ordered_stages :: "'s stage_def list \<Rightarrow> 's stage_def list" where
  "ordered_stages = sort_by (key_cmp (\<lambda>st. stage_index (sd_name st)))"

definition pipeline_run :: "(nat \<Rightarrow> int) \<Rightarrow> 's stage_def list \<Rightarrow> ('s pipeline_world, pipeline_result) act" where
  "pipeline_run now sts =
     thenA (modA (\<lambda>w. w\<lparr>pw_evidences := []\<rparr>)) (bindA (run_stages now (ordered_stages sts)) (\<lambda>stop.
       getA (\<lambda>w. \<lparr> pr_ok = (stop = None), pr_stoppedAt = stop, pr_evidences = pw_evidences w \<rparr>)))"


section \<open>What a run does\<close>

lemma wp_pipeline [wp_simps]:
  "wp (now_ms now) Q1 E1 w = Q1 (now (pw_tick w)) (w\<lparr>pw_tick := Suc (pw_tick w)\<rparr>)"
  "wp (push_evidence e) Q2 E2 w = Q2 () (w\<lparr>pw_evidences := pw_evidences w @ [e]\<rparr>)"
  "wp (run_execute st) Q3 E3 w = (case sd_execute st (pw_stage w) of (x, v) \<Rightarrow> Q3 x (w\<lparr>pw_stage := v\<rparr>))"
  by (auto simp: wp_def now_ms_def push_evidence_def modA_def run_execute_def split: prod.splits)

lemma wp_in_stage:
  "(\<And>x v. Q x (w\<lparr>pw_stage := v\<rparr>)) \<Longrightarrow> (\<And>e v. E e (w\<lparr>pw_stage := v\<rparr>)) \<Longrightarrow> wp (in_stage m) Q E w"
  by (auto simp: wp_def in_stage_def split: prod.splits sum.splits)

text \<open>The evidence added between two worlds.\<close>

definition adds :: "(stage_evidence list \<Rightarrow> bool) \<Rightarrow> 's pipeline_world \<Rightarrow> 's pipeline_world \<Rightarrow> bool" where
  "adds P w v = (\<exists>es. pw_evidences v = pw_evidences w @ es \<and> P es)"

lemma adds_refl: "P [] \<Longrightarrow> adds P w w"
  by (simp add: adds_def)

lemma adds_trans: "adds P w v \<Longrightarrow> adds P' v u \<Longrightarrow> (\<And>es es'. P es \<Longrightarrow> P' es' \<Longrightarrow> R (es @ es')) \<Longrightarrow> adds R w u"
  by (auto simp: adds_def)

lemma adds_mono: "adds P w v \<Longrightarrow> (\<And>es. P es \<Longrightarrow> R es) \<Longrightarrow> adds R w v"
  by (auto simp: adds_def)

definition own_evidence :: "'s stage_def \<Rightarrow> stage_evidence \<Rightarrow> bool" where
  "own_evidence st e = (ev_stage e = sd_name st \<and> 1 \<le> ev_attempt e \<and> ev_attempt e \<le> sd_maxAttempts st)"

lemma own_record [simp]: "own_evidence st (stage_record st status a b n) \<longleftrightarrow> 1 \<le> n \<and> n \<le> sd_maxAttempts st"
  "ev_stage (stage_record st status a b n) = sd_name st" "ev_status (stage_record st status a b n) = status"
  "own_evidence st (e\<lparr>ev_notes := x\<rparr>) = own_evidence st e" "own_evidence st (e\<lparr>ev_metadata := y\<rparr>) = own_evidence st e"
  "own_evidence st (e\<lparr>ev_errorCode := x\<rparr>) = own_evidence st e" "own_evidence st (e\<lparr>ev_errorMessage := x\<rparr>) = own_evidence st e"
  "own_evidence st (e\<lparr>ev_status := s\<rparr>) = own_evidence st e"
  by (auto simp: own_evidence_def stage_record_def)

definition verdict_evidence :: "'s stage_def \<Rightarrow> verdict \<Rightarrow> stage_evidence list \<Rightarrow> bool" where
  "verdict_evidence st v es = ((\<forall>e \<in> set es. own_evidence st e) \<and>
     (v = Stage_Complete \<longrightarrow> (\<exists>e \<in> set es. ev_status e = Stage_Succeeded)) \<and>
     (v = Pipeline_Stops \<longrightarrow> (\<exists>e \<in> set es. ev_status e = Stage_Failed)))"

lemma wp_compensate:
  assumes "1 \<le> sd_maxAttempts st"
  shows "wp (compensateIfNeeded now st) (\<lambda>_. adds (\<lambda>es. \<forall>e \<in> set es. own_evidence st e) w)
     (\<lambda>_. adds (\<lambda>es. \<forall>e \<in> set es. own_evidence st e) w) w"
  using assms unfolding compensateIfNeeded_def
  by (cases "sd_compensate st") (auto simp: wp_simps adds_def intro!: wp_in_stage)

lemma wp_compensate_after:
  assumes "1 \<le> sd_maxAttempts st" "adds P w v"
    and "\<And>es es'. P es \<Longrightarrow> \<forall>e \<in> set es'. own_evidence st e \<Longrightarrow> R (es @ es')"
  shows "wp (compensateIfNeeded now st) (\<lambda>_. adds R w) (\<lambda>_. adds R w) v"
  by (rule wp_mono[OF wp_compensate[OF assms(1)]]; erule adds_trans[OF assms(2)]; rule assms(3))

lemma adds_push: "adds P w v \<Longrightarrow> adds R w (v\<lparr>pw_evidences := pw_evidences v @ [e]\<rparr>)" if "\<And>es. P es \<Longrightarrow> R (es @ [e])"
  using that by (auto simp: adds_def)

lemma adds_frame [simp]:
  "adds P w (v\<lparr>pw_tick := t\<rparr>) = adds P w v" "adds P w (v\<lparr>pw_stage := x\<rparr>) = adds P w v"
  "adds P (w\<lparr>pw_tick := t\<rparr>) v = adds P w v" "adds P (w\<lparr>pw_stage := x\<rparr>) v = adds P w v"
  by (simp_all add: adds_def)

abbreviation own_all :: "'s stage_def \<Rightarrow> stage_evidence list \<Rightarrow> bool" where
  "own_all st es \<equiv> (\<forall>e \<in> set es. own_evidence st e)"

lemma own_stops: "own_all st es \<Longrightarrow> own_all st es' \<Longrightarrow> own_evidence st e \<Longrightarrow> ev_status e = Stage_Failed \<Longrightarrow>
    verdict_evidence st Pipeline_Stops ((es @ [e]) @ es')"
  by (auto simp: verdict_evidence_def)

lemma wp_stop:
  assumes "1 \<le> sd_maxAttempts st" "own_evidence st e" "ev_status e = Stage_Failed" "adds (own_all st) w v"
    and "\<And>u. adds (verdict_evidence st Pipeline_Stops) w u \<Longrightarrow> Q Pipeline_Stops u"
    and "\<And>u x. adds (verdict_evidence st Pipeline_Stops) w u \<Longrightarrow> E x u"
  shows "wp (thenA (push_evidence e) (thenA (compensateIfNeeded now st) (ret Pipeline_Stops))) Q E v"
proof -
  have "adds (\<lambda>es. \<exists>es0. es = es0 @ [e] \<and> own_all st es0) w (v\<lparr>pw_evidences := pw_evidences v @ [e]\<rparr>)"
    by (rule adds_push[OF _ assms(4)]) auto
  then have "wp (compensateIfNeeded now st) (\<lambda>_. adds (verdict_evidence st Pipeline_Stops) w)
      (\<lambda>_. adds (verdict_evidence st Pipeline_Stops) w) (v\<lparr>pw_evidences := pw_evidences v @ [e]\<rparr>)"
    by (rule wp_compensate_after[OF assms(1)]) (use own_stops[OF _ _ assms(2,3)] in auto)
  then show ?thesis
    by (simp only: wp_thenA wp_pipeline wp_ret) (erule wp_mono; simp add: wp_ret assms(5,6))
qed

lemma wp_push_ret: "wp (thenA (push_evidence e) (ret v)) Q E w = Q v (w\<lparr>pw_evidences := pw_evidences w @ [e]\<rparr>)"
  by (simp add: wp_simps)

lemma wp_after_race:
  assumes "1 \<le> n" "n \<le> sd_maxAttempts st"
  shows "wp (after_race now st n started x) (\<lambda>v u. adds (verdict_evidence st v) w u \<and> (v = Stage_Again \<longrightarrow> n < sd_maxAttempts st))
     (\<lambda>_. adds (own_all st) w) w"
proof (cases x)
  case (Stage_Returns r)
  have w: "adds (own_all st) w (w\<lparr>pw_tick := t\<rparr>)" for t by (simp add: adds_refl)
  have fin: "adds (verdict_evidence st v) w (w\<lparr>pw_tick := t, pw_evidences := pw_evidences w @ [e]\<rparr>)"
    if "verdict_evidence st v [e]" for v t e
    using that by (simp add: adds_def)
  show ?thesis
  proof (cases "sr_failure r")
    case None
    then show ?thesis
      using assms Stage_Returns by (auto simp: after_race_def wp_simps verdict_evidence_def adds_refl intro!: fin)
  next
    case (Some f)
    show ?thesis
      using assms Stage_Returns Some
      by (auto simp: after_race_def verdict_evidence_def Let_def wp_bindA wp_pipeline wp_push_ret intro!: fin wp_stop[OF _ _ _ w] elim!: adds_mono)
  qed
qed (simp_all add: after_race_def wp_simps adds_refl)

lemma wp_attempt_stage:
  assumes "1 \<le> n" "n \<le> sd_maxAttempts st"
  shows "wp (attempt_stage now st n) (\<lambda>v u. adds (verdict_evidence st v) w u \<and> (v = Stage_Again \<longrightarrow> n < sd_maxAttempts st))
     (\<lambda>_. adds (verdict_evidence st Pipeline_Stops) w) w"
proof -
  have caught: "wp (caught now st n started b e) (\<lambda>v u. adds (verdict_evidence st v) w u \<and> (v = Stage_Again \<longrightarrow> n < sd_maxAttempts st))
      (\<lambda>_. adds (verdict_evidence st Pipeline_Stops) w) v" if "adds (own_all st) w v" for started b e v
    unfolding caught_def wp_bindA wp_pipeline
    by (rule wp_stop[where w = w]) (use assms that in simp_all)
  have "wp (catchA (after_race now st n t x) (caught now st n t (timed_out x))) (\<lambda>v u. adds (verdict_evidence st v) w u \<and> (v = Stage_Again \<longrightarrow> n < sd_maxAttempts st))
      (\<lambda>_. adds (verdict_evidence st Pipeline_Stops) w) (w\<lparr>pw_tick := k, pw_stage := v\<rparr>)" for t x k v
    unfolding wp_catchA by (rule wp_mono[OF wp_after_race[OF assms]]) (simp_all add: caught)
  then show ?thesis
    by (simp add: attempt_stage_def wp_bindA wp_pipeline split: prod.split)
qed


text \<open>The whole of a stage: its last word is a success, or the pipeline stops.\<close>

definition stage_evidences :: "'s stage_def \<Rightarrow> verdict \<Rightarrow> stage_evidence list \<Rightarrow> bool" where
  "stage_evidences st v es = (own_all st es \<and> v \<noteq> Stage_Again \<and>
     (v = Stage_Complete \<longrightarrow> 0 < sd_maxAttempts st \<longrightarrow> (\<exists>e \<in> set es. ev_status e = Stage_Succeeded)) \<and>
     (v = Pipeline_Stops \<longrightarrow> (\<exists>e \<in> set es. ev_status e = Stage_Failed)))"

lemma wp_run_stage:
  "n = 0 \<or> n < sd_maxAttempts st \<Longrightarrow> wp (run_stage now st n) (\<lambda>v. adds (stage_evidences st v) w)
     (\<lambda>_. adds (own_all st) w) w"
proof (induction now st n arbitrary: w rule: run_stage.induct)
  case (1 now st n)
  show ?case
  proof (cases "n < sd_maxAttempts st")
    case False
    then show ?thesis using 1(2)
      by (subst run_stage.simps) (simp add: wp_simps adds_def stage_evidences_def)
  next
    case True
    have again: "wp (run_stage now st (n + 1)) (\<lambda>v. adds (stage_evidences st v) w) (\<lambda>_. adds (own_all st) w) u"
      if u: "adds (verdict_evidence st Stage_Again) w u" "n + 1 < sd_maxAttempts st" for u
    proof (rule wp_mono)
      show "wp (run_stage now st (n + 1)) (\<lambda>v. adds (stage_evidences st v) u) (\<lambda>_. adds (own_all st) u) u"
        using 1(1)[OF True, of Stage_Again u] u(2) by simp
    qed (rule adds_trans[OF u(1)], assumption, auto simp: verdict_evidence_def stage_evidences_def)+
    show ?thesis
    proof (subst run_stage.simps, simp only: True if_True wp_bindA, rule wp_mono)
      show "wp (attempt_stage now st (n + 1))
          (\<lambda>v u. adds (verdict_evidence st v) w u \<and> (v = Stage_Again \<longrightarrow> n + 1 < sd_maxAttempts st))
          (\<lambda>_. adds (verdict_evidence st Pipeline_Stops) w) w"
        using True by (intro wp_attempt_stage) simp_all
    next
      fix v u assume "adds (verdict_evidence st v) w u \<and> (v = Stage_Again \<longrightarrow> n + 1 < sd_maxAttempts st)"
      then show "wp (if v = Stage_Again then run_stage now st (n + 1) else ret v)
          (\<lambda>v. adds (stage_evidences st v) w) (\<lambda>_. adds (own_all st) w) u"
        using again by (auto simp: wp_simps stage_evidences_def verdict_evidence_def elim!: adds_mono)
    qed (auto simp: verdict_evidence_def elim!: adds_mono)
  qed
qed


interpretation stages: comparator "key_cmp (\<lambda>st. stage_index (sd_name st))"
  by (rule comparator_key)

lemma sorted_ordered_stages: "sorted (map sd_name (ordered_stages sts))"
  using stages.sorted_sort_by[of sts]
  by (simp add: ordered_stages_def sorted_map key_cmp_def less_eq_stage_name_def)

lemma set_ordered_stages [simp]: "set (ordered_stages sts) = set sts"
  by (simp add: ordered_stages_def)

definition succeeded_in :: "stage_evidence list \<Rightarrow> 's stage_def \<Rightarrow> bool" where
  "succeeded_in es st = (\<exists>e \<in> set es. ev_stage e = sd_name st \<and> ev_status e = Stage_Succeeded)"

definition in_order :: "'s stage_def list \<Rightarrow> stage_evidence list \<Rightarrow> bool" where
  "in_order sts es = ((\<forall>e \<in> set es. \<exists>st \<in> set sts. own_evidence st e) \<and> sorted (map ev_stage es) \<and>
     (\<forall>i < length es. \<forall>st \<in> set sts. sd_name st < ev_stage (es ! i) \<longrightarrow> 0 < sd_maxAttempts st \<longrightarrow> succeeded_in (take i es) st))"

definition outcome_evidence :: "'s stage_def list \<Rightarrow> stage_name option \<Rightarrow> stage_evidence list \<Rightarrow> bool" where
  "outcome_evidence sts stop es = (in_order sts es \<and>
     (case stop of None \<Rightarrow> \<forall>st \<in> set sts. 0 < sd_maxAttempts st \<longrightarrow> succeeded_in es st
      | Some s \<Rightarrow> \<exists>e \<in> set es. ev_stage e = s \<and> ev_status e = Stage_Failed \<and> (\<forall>e' \<in> set es. ev_stage e' \<le> s)))"

lemma in_order_own: "own_all st es \<Longrightarrow> \<forall>st' \<in> set sts. sd_name st \<le> sd_name st' \<Longrightarrow> in_order (st # sts) es"
  by (fastforce simp: in_order_def own_evidence_def sorted_iff_nth_mono dest: nth_mem)

lemma in_order_append:
  assumes "own_all st es" "0 < sd_maxAttempts st \<longrightarrow> (\<exists>e \<in> set es. ev_status e = Stage_Succeeded)"
    "\<forall>st' \<in> set sts. sd_name st \<le> sd_name st'" "in_order sts es'"
  shows "in_order (st # sts) (es @ es')"
proof -
  have own: "\<forall>e \<in> set es. ev_stage e = sd_name st" using assms(1) by (simp add: own_evidence_def)
  have above: "\<forall>e \<in> set es'. sd_name st \<le> ev_stage e"
    using assms(3,4) by (force simp: in_order_def own_evidence_def)
  have "sorted (map ev_stage (es @ es'))"
    using assms(4) own above in_order_own[OF assms(1,3)] by (auto simp: in_order_def sorted_append)
  moreover have "succeeded_in (take i (es @ es')) st'"
    if i: "i < length (es @ es')" and st': "st' \<in> set (st # sts)" "sd_name st' < ev_stage ((es @ es') ! i)" "0 < sd_maxAttempts st'" for i st'
  proof (cases "i < length es")
    case True
    then have "ev_stage ((es @ es') ! i) = sd_name st" using own by (simp add: nth_append)
    then show ?thesis using st' assms(3) by (auto dest: leD)
  next
    case False
    then have "succeeded_in es st' \<or> succeeded_in (take (i - length es) es') st'"
      using i st' assms(2,4) own by (auto simp: in_order_def succeeded_in_def nth_append)
    then show ?thesis using False by (auto simp: succeeded_in_def)
  qed
  ultimately show ?thesis using assms(1,4) by (auto simp: in_order_def)
qed

lemma wp_run_stages:
  "sorted (map sd_name sts) \<Longrightarrow> wp (run_stages now sts) (\<lambda>stop. adds (outcome_evidence sts stop) w) (\<lambda>_. adds (in_order sts) w) w"
proof (induction sts arbitrary: w)
  case Nil
  then show ?case by (simp add: wp_simps adds_def outcome_evidence_def in_order_def)
next
  case (Cons st sts)
  have le: "\<forall>st' \<in> set sts. sd_name st \<le> sd_name st'" using Cons.prems by simp
  show ?case
  proof (simp only: run_stages.simps wp_bindA, rule wp_mono[OF wp_run_stage])
    fix v u assume v: "adds (stage_evidences st v) w u"
    show "wp (if v = Pipeline_Stops then ret (Some (sd_name st)) else run_stages now sts)
        (\<lambda>stop. adds (outcome_evidence (st # sts) stop) w) (\<lambda>_. adds (in_order (st # sts)) w) u"
    proof (cases v)
      case Pipeline_Stops
      then show ?thesis using v in_order_own[OF _ le]
        by (auto simp: wp_simps stage_evidences_def outcome_evidence_def own_evidence_def elim!: adds_mono)
    next
      case Stage_Complete
      have es: "in_order (st # sts) (es @ es')" if "stage_evidences st v es" "in_order sts es'" for es es'
        using in_order_append[OF _ _ le that(2)] that(1) Stage_Complete by (simp add: stage_evidences_def)
      have out: "outcome_evidence (st # sts) stop (es @ es')"
        if "stage_evidences st v es" "outcome_evidence sts stop es'" for stop es es'
      proof -
        have o: "in_order (st # sts) (es @ es')" using es that by (simp add: outcome_evidence_def)
        have "succeeded_in es st" if "0 < sd_maxAttempts st"
          using \<open>stage_evidences st v es\<close> that Stage_Complete by (auto simp: stage_evidences_def succeeded_in_def own_evidence_def)
        moreover have "\<forall>e \<in> set es. ev_stage e \<le> ev_stage e'" if "e' \<in> set es'" for e'
          using o that by (auto simp: in_order_def sorted_append)
        ultimately show ?thesis
          using o that(2) by (fastforce simp: outcome_evidence_def succeeded_in_def split: option.splits)
      qed
      have "sorted (map sd_name sts)" using Cons.prems by simp
      have "wp (run_stages now sts) (\<lambda>stop. adds (outcome_evidence (st # sts) stop) w) (\<lambda>_. adds (in_order (st # sts)) w) u"
        by (rule wp_mono[OF Cons.IH[OF \<open>sorted (map sd_name sts)\<close>]]; erule adds_trans[OF v]; simp add: es out)
      then show ?thesis using Stage_Complete by simp
    qed (use v in \<open>simp add: adds_def stage_evidences_def\<close>)
  qed (use in_order_own[OF _ le] in \<open>auto elim: adds_mono\<close>)
qed


section \<open>The stages\<close>

text \<open>A port is a call to a tool: it may change the outside world, and throws an error with or without a code of its own.\<close>

datatype tool_error = Coded_Error string string | Other_Error string

type_synonym ('s, 'r) port = "'s \<Rightarrow> (tool_error + 'r) \<times> 's"

fun tool_message :: "tool_error \<Rightarrow> string" where
  "tool_message (Coded_Error c m) = m"
| "tool_message (Other_Error m) = m"

definition stage_ok :: "string \<Rightarrow> string jsrec \<Rightarrow> stage_result" where
  "stage_ok notes meta = \<lparr> sr_ok = True, sr_notes = Some notes, sr_metadata = Some meta, sr_failure = None \<rparr>"

definition buildFailure :: "string \<Rightarrow> string \<Rightarrow> bool \<Rightarrow> stage_result" where
  "buildFailure code message retriable = \<lparr> sr_ok = False, sr_notes = None, sr_metadata = None,
     sr_failure = Some \<lparr> sf_code = code, sf_message = message, sf_retriable = retriable \<rparr> \<rparr>"

text \<open>\<open>not_configured\<close> is the default of an optional executor.\<close>

definition not_configured :: "string \<Rightarrow> ('s, 'r) port" where
  "not_configured what s = (Inl (Other_Error (what @ '' executor is not configured'')), s)"

record workspace_snapshot =
  ws_snapshotPath :: string
  ws_createdAt :: string

definition executeWorkspacePrepareStage ::
    "(string \<Rightarrow> string \<Rightarrow> string \<Rightarrow> ('s, workspace_snapshot) port) \<Rightarrow> string \<Rightarrow> 's stage_world \<Rightarrow> stage_result \<times> 's stage_world" where
  "executeWorkspacePrepareStage createSnapshot root v = (case v of (c, s) \<Rightarrow>
     let snapshotId = pc_runId c @ ''-'' @ pc_taskId c in
     case createSnapshot (pc_workspacePath c) root snapshotId s of
       (Inr x, s') \<Rightarrow> (stage_ok ''workspace_snapshot_created''
           [(''snapshotPath'', ws_snapshotPath x), (''snapshotId'', snapshotId), (''snapshotCreatedAt'', ws_createdAt x)], c, s')
     | (Inl (Coded_Error code m), s') \<Rightarrow> (buildFailure code m (code = ''SNAPSHOT_FAILED''), c, s')
     | (Inl (Other_Error m), s') \<Rightarrow> (buildFailure ''WORKSPACE_PREPARE_FAILED'' m True, c, s'))"

definition branch_char :: "char \<Rightarrow> bool" where
  "branch_char c = (let n = of_char c :: nat in 97 \<le> n \<and> n \<le> 122 \<or> 48 \<le> n \<and> n \<le> 57)"

text \<open>\<open>replace(/[^a-z0-9]+/g, '-')\<close>, then \<open>replace(/^-+|-+$/g, '')\<close>.\<close>

fun dash_runs :: "bool \<Rightarrow> string \<Rightarrow> string" where
  "dash_runs in_run [] = []"
| "dash_runs in_run (c # s) =
     (if branch_char c then c # dash_runs False s
      else if in_run then dash_runs True s else CHR ''-'' # dash_runs True s)"

definition sanitizeBranchToken :: "string \<Rightarrow> string" where
  "sanitizeBranchToken v =
     (let t = rev (dropWhile ((=) CHR ''-'') (rev (dropWhile ((=) CHR ''-'') (dash_runs False (to_lower v)))))
      in if t = [] then ''unknown'' else t)"

definition buildMutationBranchName :: "pipeline_context \<Rightarrow> string" where
  "buildMutationBranchName c = ''mutation/'' @ sanitizeBranchToken (pc_runId c) @ ''-'' @ sanitizeBranchToken (pc_taskId c)"

definition BRANCH_REGEX :: "string \<Rightarrow> bool" where
  "BRANCH_REGEX b = (prefix ''mutation/'' b \<and>
     (case drop 9 b of [] \<Rightarrow> False | c # rest \<Rightarrow> branch_char c \<and> (\<forall>x \<in> set rest. branch_char x \<or> x = CHR ''-'')))"

definition executeBranchPrepareStage ::
    "('s, string) port option \<Rightarrow> (string \<Rightarrow> ('s, bool) port) option \<Rightarrow> 's stage_world \<Rightarrow> stage_result \<times> 's stage_world" where
  "executeBranchPrepareStage getCurrentBranch ensureBranch v = (case v of (c, s) \<Rightarrow>
     let target = or_default (pc_branchName c) (buildMutationBranchName c) in
     if \<not> BRANCH_REGEX target
     then (buildFailure ''BRANCH_POLICY_INVALID'' (''Branch name does not match policy: '' @ target) False, c, s)
     else case (case getCurrentBranch of None \<Rightarrow> (Inr None, s)
                | Some g \<Rightarrow> (case g s of (Inl e, s1) \<Rightarrow> (Inl e, s1) | (Inr b, s1) \<Rightarrow> (Inr (Some b), s1))) of
       (Inl e, s1) \<Rightarrow> (buildFailure ''BRANCH_PREPARE_FAILED'' (tool_message e) True, c, s1)
     | (Inr cur, s1) \<Rightarrow>
         if (case cur of None \<Rightarrow> False | Some b \<Rightarrow> js_trim b = target)
         then (stage_ok ''branch_prepare_already_on_target'' [(''branchName'', target), (''branchAction'', ''noop'')], c, s1)
         else case (case ensureBranch of None \<Rightarrow> (Inr None, s1)
                    | Some f \<Rightarrow> (case f target s1 of (Inl e, s2) \<Rightarrow> (Inl e, s2) | (Inr b, s2) \<Rightarrow> (Inr (Some b), s2))) of
           (Inl e, s2) \<Rightarrow> (buildFailure ''BRANCH_PREPARE_FAILED'' (tool_message e) True, c, s2)
         | (Inr created, s2) \<Rightarrow>
             (stage_ok (if created = Some False then ''branch_prepare_checked_out_existing'' else ''branch_prepare_created'')
                [(''branchName'', target), (''branchAction'', if created = Some False then ''checkout_existing'' else ''created'')],
              c\<lparr>pc_branchName := Some target\<rparr>, s2))"

definition executeChangeApplyStage ::
    "(string \<Rightarrow> string \<Rightarrow> ('s, string list) port) \<Rightarrow> string \<Rightarrow> 's stage_world \<Rightarrow> stage_result \<times> 's stage_world" where
  "executeChangeApplyStage patchApply patchText v = (case v of (c, s) \<Rightarrow>
     case patchApply (pc_workspacePath c) patchText s of
       (Inr files, s') \<Rightarrow> (stage_ok ''patch_applied''
          [(''changedFiles'', join '','' files), (''changedFilesCount'', nat_to_string (length files))], c, s')
     | (Inl (Coded_Error code m), s') \<Rightarrow>
          (if code = ''PATCH_TEXT_EMPTY'' then buildFailure code m False
           else if code = ''PATCH_CANCELLED'' then buildFailure code m False
           else buildFailure code m True, c, s')
     | (Inl (Other_Error m), s') \<Rightarrow> (buildFailure ''CHANGE_APPLY_FAILED'' m True, c, s'))"


datatype gate_name = Gate_Build | Gate_Lint | Gate_Typecheck | Gate_Test | Gate_Security

fun gate_text :: "gate_name \<Rightarrow> string" where
  "gate_text Gate_Build = ''build''"
| "gate_text Gate_Lint = ''lint''"
| "gate_text Gate_Typecheck = ''typecheck''"
| "gate_text Gate_Test = ''test''"
| "gate_text Gate_Security = ''security''"

record gate_command =
  gc_gate :: gate_name
  gc_command :: string
  gc_args :: "string list"

record gate_evidence =
  ge_gate :: gate_name
  ge_command :: string
  ge_args :: "string list"
  ge_durationMs :: int
  ge_exitCode :: int
  ge_output :: string

record suite_result =
  su_ok :: bool
  su_evidences :: "gate_evidence list"
  su_failedGate :: "gate_name option"

definition DEFAULT_COMMANDS :: "gate_command list" where
  "DEFAULT_COMMANDS = map (\<lambda>g. \<lparr> gc_gate = g, gc_command = ''pnpm'', gc_args = [''run'', gate_text g] \<rparr>)
     [Gate_Build, Gate_Lint, Gate_Typecheck, Gate_Test, Gate_Security]"

text \<open>The verification suite of \<open>packages/tools/src/verification\<close>: the gates in order, up to the first that exits with a
  code other than 0. \<open>runCommand\<close> starts a process and is a port.\<close>

fun run_gates :: "(gate_command \<Rightarrow> ('s, gate_evidence) port) \<Rightarrow> gate_evidence list \<Rightarrow> gate_command list \<Rightarrow> ('s, suite_result) port" where
  "run_gates runCommand seen [] s = (Inr \<lparr> su_ok = True, su_evidences = seen, su_failedGate = None \<rparr>, s)"
| "run_gates runCommand seen (g # gs) s =
     (case runCommand g s of
        (Inl e, s') \<Rightarrow> (Inl e, s')
      | (Inr x, s') \<Rightarrow>
          if ge_exitCode x \<noteq> 0
          then (Inr \<lparr> su_ok = False, su_evidences = seen @ [x], su_failedGate = Some (gc_gate g) \<rparr>, s')
          else run_gates runCommand (seen @ [x]) gs s')"

definition runVerificationSuite ::
    "(gate_command \<Rightarrow> ('s, gate_evidence) port) \<Rightarrow> gate_command list option \<Rightarrow> ('s, suite_result) port" where
  "runVerificationSuite runCommand commands = run_gates runCommand [] (or_default commands DEFAULT_COMMANDS)"

definition executeVerificationStage ::
    "(string \<Rightarrow> ('s, suite_result) port) \<Rightarrow> 's stage_world \<Rightarrow> stage_result \<times> 's stage_world" where
  "executeVerificationStage runSuite v = (case v of (c, s) \<Rightarrow>
     case runSuite (pc_workspacePath c) s of
       (Inl e, s') \<Rightarrow> (buildFailure ''VERIFICATION_STAGE_FAILED'' (tool_message e) True, c, s')
     | (Inr r, s') \<Rightarrow>
         let gates = join '','' (map (gate_text \<circ> ge_gate) (su_evidences r));
             count = nat_to_string (length (su_evidences r));
             duration = sum_list (map ge_durationMs (su_evidences r));
             failed = (case su_failedGate r of None \<Rightarrow> ''unknown'' | Some g \<Rightarrow> gate_text g)
         in if su_ok r
            then (stage_ok ''verification_suite_passed'' [(''executedGates'', gates), (''executedGateCount'', count),
                    (''totalDurationMs'', int_to_string duration)], c, s')
            else (\<lparr> sr_ok = False, sr_notes = Some ''verification_suite_failed'',
                     sr_metadata = Some [(''executedGates'', gates), (''executedGateCount'', count), (''failedGate'', failed)],
                     sr_failure = Some \<lparr> sf_code = ''VERIFICATION_GATE_FAILED'',
                       sf_message = ''Verification failed at gate '' @ failed, sf_retriable = False \<rparr> \<rparr>, c, s'))"

definition executeCommitPrepareStage ::
    "(string \<Rightarrow> string \<Rightarrow> ('s, string) port) option \<Rightarrow> string \<Rightarrow> 's stage_world \<Rightarrow> stage_result \<times> 's stage_world" where
  "executeCommitPrepareStage commit message v = (case v of (c, s) \<Rightarrow>
     case or_default commit (\<lambda>_ _. not_configured ''Commit'') (pc_workspacePath c) message s of
       (Inr sha, s') \<Rightarrow> (stage_ok ''git_commit_created'' [(''commitSha'', sha)], c, s')
     | (Inl e, s') \<Rightarrow> (buildFailure ''COMMIT_PREPARE_FAILED'' (tool_message e) True, c, s'))"

definition compensateCommitPrepareStage ::
    "(string \<Rightarrow> ('s, unit) port) option \<Rightarrow> pipeline_context \<Rightarrow> ('s, unit) port" where
  "compensateCommitPrepareStage resetHardHead c =
     or_default resetHardHead (\<lambda>_. not_configured ''Commit compensation'') (pc_workspacePath c)"

definition executePushPrepareStage ::
    "(string \<Rightarrow> string \<Rightarrow> ('s, string) port) option \<Rightarrow> 's stage_world \<Rightarrow> stage_result \<times> 's stage_world" where
  "executePushPrepareStage push v = (case v of (c, s) \<Rightarrow>
     case when_truthy (pc_branchName c) of
       None \<Rightarrow> (buildFailure ''PUSH_PREPARE_BRANCH_REQUIRED'' ''Branch name is required for push_prepare stage'' False, c, s)
     | Some branch \<Rightarrow>
         (case or_default push (\<lambda>_ _. not_configured ''Push'') (pc_workspacePath c) branch s of
            (Inr ref, s') \<Rightarrow> (stage_ok ''git_push_completed'' [(''branchName'', branch), (''remoteRef'', ref)], c, s')
          | (Inl e, s') \<Rightarrow> (buildFailure ''PUSH_PREPARE_FAILED'' (tool_message e) True, c, s')))"

definition compensatePushPrepareStage ::
    "(string \<Rightarrow> string \<Rightarrow> ('s, unit) port) option \<Rightarrow> pipeline_context \<Rightarrow> ('s, unit) port" where
  "compensatePushPrepareStage pushDelete c s =
     (case when_truthy (pc_branchName c) of None \<Rightarrow> (Inr (), s)
      | Some branch \<Rightarrow> or_default pushDelete (\<lambda>_ _. not_configured ''Push compensation'') (pc_workspacePath c) branch s)"

record draft_pr =
  dp_prNumber :: int
  dp_prUrl :: string

definition executePrDraftPrepareStage ::
    "(string \<Rightarrow> string \<Rightarrow> string \<Rightarrow> string \<Rightarrow> ('s, draft_pr) port) option \<Rightarrow> string \<Rightarrow> string \<Rightarrow> 's stage_world \<Rightarrow> stage_result \<times> 's stage_world" where
  "executePrDraftPrepareStage createDraftPr title body v = (case v of (c, s) \<Rightarrow>
     case when_truthy (pc_branchName c) of
       None \<Rightarrow> (buildFailure ''PR_DRAFT_PREPARE_BRANCH_REQUIRED'' ''Branch name is required for pr_draft_prepare stage'' False, c, s)
     | Some branch \<Rightarrow>
         (case or_default createDraftPr (\<lambda>_ _ _ _. not_configured ''PR draft'') (pc_workspacePath c) branch title body s of
            (Inr x, s') \<Rightarrow> (stage_ok ''draft_pr_created'' [(''branchName'', branch),
               (''prNumber'', int_to_string (dp_prNumber x)), (''prUrl'', dp_prUrl x)], c, s')
          | (Inl e, s') \<Rightarrow> (buildFailure ''PR_DRAFT_PREPARE_FAILED'' (tool_message e) True, c, s')))"


section \<open>Properties\<close>

lemma in_order_cong: "set sts = set sts' \<Longrightarrow> in_order sts es = in_order sts' es"
  "set sts = set sts' \<Longrightarrow> outcome_evidence sts stop es = outcome_evidence sts' stop es"
  by (simp_all add: in_order_def outcome_evidence_def split: option.splits)

text \<open>C17. The evidence of a pipeline run is in the order of the stages, whatever order they were given in; every
  piece of it belongs to a configured stage and to one of its allowed attempts; and it only contains a stage when
  each earlier stage that is configured with at least one attempt has succeeded before (so nothing is pushed
  unless the change was applied, verified and committed). A run that reports success has the success of each such
  stage among its evidence; a run that reports failure has failed at the stage it names and has not gone beyond
  it.\<close>

theorem pipeline_stages_in_order:
  assumes "pipeline_run now sts w = (r, w')"
  shows "in_order sts (pw_evidences w') \<and>
    (\<forall>res. r = Inr res \<longrightarrow> pr_evidences res = pw_evidences w' \<and> pr_ok res = (pr_stoppedAt res = None) \<and>
       outcome_evidence sts (pr_stoppedAt res) (pr_evidences res))"
proof -
  define w0 where "w0 = w\<lparr>pw_evidences := []\<rparr>"
  have e: "pw_evidences w0 = []" by (simp add: w0_def)
  have "wp (pipeline_run now sts) (\<lambda>res v. outcome_evidence sts (pr_stoppedAt res) (pw_evidences v) \<and>
      pr_evidences res = pw_evidences v \<and> pr_ok res = (pr_stoppedAt res = None))
      (\<lambda>_ v. in_order sts (pw_evidences v)) w"
    unfolding pipeline_run_def
    by (simp add: wp_simps flip: w0_def, rule wp_mono[OF wp_run_stages[OF sorted_ordered_stages]])
      (auto simp: wp_simps adds_def e in_order_cong[OF set_ordered_stages])
  then show ?thesis
    using assms by (cases r) (auto dest: wp_return wp_throws simp: outcome_evidence_def)
qed

text \<open>Three stages given in the wrong order: the change fails once, then is applied; the push is refused.\<close>

definition sample_stage :: "stage_name \<Rightarrow> nat \<Rightarrow> (nat \<Rightarrow> stage_result) \<Rightarrow> nat stage_def" where
  "sample_stage name tries f = \<lparr> sd_name = name, sd_timeoutMs = 1000, sd_maxAttempts = tries,
     sd_execute = (\<lambda>v. (Stage_Returns (f (snd v)), fst v, Suc (snd v))), sd_compensate = None \<rparr>"

definition sample_stages :: "nat stage_def list" where
  "sample_stages =
     [sample_stage Push_Prepare 1 (\<lambda>k. buildFailure ''PUSH_PREPARE_FAILED'' ''refused'' True),
      sample_stage Pr_Draft_Prepare 1 (\<lambda>k. stage_ok ''draft_pr_created'' []),
      sample_stage Change_Apply 2 (\<lambda>k. if k = 0 then buildFailure ''CHANGE_APPLY_FAILED'' ''busy'' True else stage_ok ''patch_applied'' [])]"

definition sample_pipeline_context :: pipeline_context where
  "sample_pipeline_context = \<lparr> pc_runId = ''r1'', pc_taskId = ''t1'', pc_workspacePath = ''/w'', pc_branchName = None, pc_metadata = [] \<rparr>"

definition sample_pipeline :: "nat pipeline_world" where
  "sample_pipeline = \<lparr> pw_stage = (sample_pipeline_context, 0), pw_evidences = [], pw_tick = 0 \<rparr>"

lemma sample_ordered: "map sd_name (ordered_stages sample_stages) = [Change_Apply, Push_Prepare, Pr_Draft_Prepare]"
  by (simp add: ordered_stages_def sample_stages_def sample_stage_def key_cmp_def)

lemma sample_pipeline_runs:
  "\<exists>res v. pipeline_run int sample_stages sample_pipeline = (Inr res, v) \<and> pr_stoppedAt res = Some Push_Prepare \<and>
     map ev_stage (pr_evidences res) = [Change_Apply, Change_Apply, Push_Prepare] \<and>
     map ev_status (pr_evidences res) = [Stage_Skipped, Stage_Succeeded, Stage_Failed]"
  by (rule wp_total)
    (simp add: pipeline_run_def ordered_stages_def sample_stages_def sample_stage_def key_cmp_def wp_simps
      run_stage.simps attempt_stage_def after_race_def compensateIfNeeded_def sample_pipeline_def
      stage_ok_def buildFailure_def stage_record_def Let_def)

theorem pipeline_stages_in_order_witness:
  "\<exists>res v. pipeline_run int sample_stages sample_pipeline = (Inr res, v) \<and> \<not> pr_ok res \<and>
     outcome_evidence sample_stages (Some Push_Prepare) (pr_evidences res) \<and> length (pr_evidences res) = 3"
proof -
  obtain res v where r: "pipeline_run int sample_stages sample_pipeline = (Inr res, v)" "pr_stoppedAt res = Some Push_Prepare"
      "map ev_stage (pr_evidences res) = [Change_Apply, Change_Apply, Push_Prepare]"
    using sample_pipeline_runs by metis
  then show ?thesis using pipeline_stages_in_order[OF r(1)] arg_cong[OF r(3), of length] by auto
qed

text \<open>A compensation that throws inside the \<open>try\<close> is caught there, and run again.\<close>

lemma compensation_runs_twice:
  "\<exists>e v. pipeline_run int [(sample_stage Commit_Prepare 1 (\<lambda>k. buildFailure ''COMMIT_PREPARE_FAILED'' ''hook'' False))
       \<lparr>sd_compensate := Some (\<lambda>v. (Inl e, fst v, snd v + 10))\<rparr>] sample_pipeline = (Inl e, v) \<and>
     snd (pw_stage v) = 21 \<and> map ev_errorCode (pw_evidences v) = [Some ''COMMIT_PREPARE_FAILED'', Some ''STAGE_EXCEPTION'']"
  by (simp add: pipeline_run_def ordered_stages_def sample_stage_def act_defs run_stage.simps attempt_stage_def after_race_def
      caught_def compensateIfNeeded_def sample_pipeline_def buildFailure_def stage_record_def now_ms_def push_evidence_def
      run_execute_def in_stage_def)


section \<open>Branch names\<close>

lemma set_dash_runs: "x \<in> set (dash_runs b s) \<Longrightarrow> branch_char x \<or> x = CHR ''-''"
  by (induction b s rule: dash_runs.induct) (auto split: if_splits)

lemma trimmed_head:
  assumes "t = rev (dropWhile P (rev (dropWhile P s)))" "t \<noteq> []"
  shows "\<not> P (hd t)" "set t \<subseteq> set s"
proof -
  let ?u = "dropWhile P s"
  have p: "?u = t @ rev (takeWhile P (rev ?u))"
    using assms(1) by (metis rev_append rev_rev_ident takeWhile_dropWhile_id)
  then have "?u \<noteq> []" "hd ?u = hd t" using assms(2) by (metis append_is_Nil_conv, metis hd_append)
  then show "\<not> P (hd t)" by (metis hd_dropWhile)
  show "set t \<subseteq> set s" using p by (metis Un_upper1 order_trans set_append set_dropWhile_subset)
qed

lemma sanitized_token:
  "sanitizeBranchToken v \<noteq> [] \<and> branch_char (hd (sanitizeBranchToken v)) \<and>
   (\<forall>x \<in> set (sanitizeBranchToken v). branch_char x \<or> x = CHR ''-'')"
proof -
  let ?s = "dash_runs False (to_lower v)"
  define t where "t = rev (dropWhile ((=) CHR ''-'') (rev (dropWhile ((=) CHR ''-'') ?s)))"
  show ?thesis
  proof (cases "t = []")
    case True
    then show ?thesis by (simp add: sanitizeBranchToken_def flip: t_def) (simp add: branch_char_def)
  next
    case False
    have "\<forall>x \<in> set t. branch_char x \<or> x = CHR ''-''" using trimmed_head(2)[OF t_def False] set_dash_runs by blast
    moreover have "hd t \<noteq> CHR ''-''" using trimmed_head(1)[OF t_def False] by simp
    ultimately show ?thesis using False hd_in_set[OF False]
      by (auto simp: sanitizeBranchToken_def simp flip: t_def)
  qed
qed

lemma built_branch_valid: "BRANCH_REGEX (buildMutationBranchName c)"
  using sanitized_token[of "pc_runId c"] sanitized_token[of "pc_taskId c"]
  by (cases "sanitizeBranchToken (pc_runId c)") (auto simp: BRANCH_REGEX_def buildMutationBranchName_def)

text \<open>Every branch name the pipeline makes up satisfies the branch policy. But when the workspace is already on that
  branch, the branch stage reports success without entering the name into the context, so the push stage that
  follows always fails, and not even a retry is allowed.\<close>

theorem branch_noop_blocks_push:
  assumes "pc_branchName c = None" and "getCurrentBranch s = (Inr b, s1)" and "js_trim b = buildMutationBranchName c"
  shows "BRANCH_REGEX (buildMutationBranchName c) \<and>
    executeBranchPrepareStage (Some getCurrentBranch) ensureBranch (c, s) =
      (stage_ok ''branch_prepare_already_on_target'' [(''branchName'', buildMutationBranchName c), (''branchAction'', ''noop'')], c, s1) \<and>
    executePushPrepareStage push (c, s2) =
      (buildFailure ''PUSH_PREPARE_BRANCH_REQUIRED'' ''Branch name is required for push_prepare stage'' False, c, s2)"
  using assms built_branch_valid[of c]
  by (simp add: executeBranchPrepareStage_def executePushPrepareStage_def when_truthy_def)

theorem branch_noop_blocks_push_witness:
  "executePushPrepareStage None (snd (executeBranchPrepareStage (Some (\<lambda>s. (Inr ''mutation/r1-t1'', s))) None (sample_pipeline_context, 0 :: nat))) =
     (buildFailure ''PUSH_PREPARE_BRANCH_REQUIRED'' ''Branch name is required for push_prepare stage'' False, sample_pipeline_context, 0)"
proof -
  have "js_trim ''mutation/r1-t1'' = buildMutationBranchName sample_pipeline_context"
    by (simp add: sample_pipeline_context_def buildMutationBranchName_def sanitizeBranchToken_def branch_char_def to_lower_def
        lower_char_def js_trim_def is_space_def)
  moreover have "pc_branchName sample_pipeline_context = None" by (simp add: sample_pipeline_context_def)
  ultimately show ?thesis
    using branch_noop_blocks_push[of sample_pipeline_context "\<lambda>s. (Inr ''mutation/r1-t1'', s)" "0 :: nat" "''mutation/r1-t1''" 0 None None 0]
    by auto
qed

end
