(* ===== verification/Git_Lifecycle.thy ===== *)
theory Git_Lifecycle
  imports Recorders
begin

text \<open>
  What a completed task does to git (\<open>packages/execution/src/git/git-lifecycle-coordinator.ts\<close>): commit, push and
  draft pull request, each behind the deduplication guard, a persisted policy decision, the lease and, when the
  approval gate is on, an approval.

  The executors (git and gh) are functions of the number of draws made so far; a default executor never throws, a
  configured one may. Every call of one that writes is logged in \<open>wd_effects\<close>, whatever it answers.
\<close>

section \<open>Configuration and executors\<close>

record workflow_config =
  wc_approvalGateMode :: "bool option"
  wc_approvalRequiredActions :: "approval_action list option"
  wc_approvalBulkFileThreshold :: "nat option"

record git_executors =
  gx_hasChanges :: "nat \<Rightarrow> bool result"
  gx_branch :: "nat \<Rightarrow> string option result"
  gx_commit :: "nat \<Rightarrow> string \<Rightarrow> string option result"
  gx_push :: "nat \<Rightarrow> string \<Rightarrow> bool result"
  gx_pull_request :: "nat \<Rightarrow> string \<Rightarrow> string \<Rightarrow> string \<Rightarrow> bool result"
  gx_nameStatus :: "nat \<Rightarrow> string \<Rightarrow> string list result"

record git_input =
  gi_run :: string
  gi_task :: string
  gi_title :: string
  gi_branch :: "string option"

definition approvalGateEnabled :: "workflow_config \<Rightarrow> bool" where
  "approvalGateEnabled cf = or_default (wc_approvalGateMode cf) False"

definition requiredApprovalActions :: "workflow_config \<Rightarrow> approval_action list" where
  "requiredApprovalActions cf = or_default (wc_approvalRequiredActions cf) [Appr_Git_Push, Appr_Pr_Draft]"

definition approval_needed :: "workflow_config \<Rightarrow> approval_action \<Rightarrow> bool" where
  "approval_needed cf a = (approvalGateEnabled cf \<and> a \<in> set (requiredApprovalActions cf))"

text \<open>An executor's answer, and a writing one's, which is logged.\<close>

definition ask :: "(nat \<Rightarrow> 'a result) \<Rightarrow> 'a run" where
  "ask f w = (f (wd_tick w), w\<lparr>wd_tick := Suc (wd_tick w)\<rparr>)"

definition effect :: "outside_effect \<Rightarrow> (nat \<Rightarrow> 'a result) \<Rightarrow> 'a run" where
  "effect e f w = (f (wd_tick w), w\<lparr>wd_tick := Suc (wd_tick w), wd_effects := wd_effects w @ [e]\<rparr>)"

section \<open>Risky changes\<close>

fun approval_action_text :: "approval_action \<Rightarrow> string" where
  "approval_action_text Appr_Git_Push = ''git_push''"
| "approval_action_text Appr_Pr_Draft = ''pr_draft''"
| "approval_action_text Appr_Db_Migration = ''db_migration''"
| "approval_action_text Appr_File_Delete = ''file_delete''"
| "approval_action_text Appr_Api_Breaking_Change = ''api_breaking_change''"
| "approval_action_text Appr_Dependency_Bump = ''dependency_bump''"
| "approval_action_text Appr_Security_Auth_Change = ''security_auth_change''"
| "approval_action_text Appr_Production_Config_Change = ''production_config_change''"
| "approval_action_text Appr_Bulk_File_Change = ''bulk_file_change''"

fun describeRiskAction :: "approval_action \<Rightarrow> string" where
  "describeRiskAction Appr_Git_Push = ''Push branch to origin''"
| "describeRiskAction Appr_Pr_Draft = ''Create draft pull request''"
| "describeRiskAction Appr_Db_Migration = ''Database migration files changed''"
| "describeRiskAction Appr_File_Delete = ''One or more files were deleted''"
| "describeRiskAction Appr_Api_Breaking_Change = ''Potential public API surface change detected''"
| "describeRiskAction Appr_Dependency_Bump = ''Dependency manifest or lock file changed''"
| "describeRiskAction Appr_Security_Auth_Change = ''Security/auth-related files changed''"
| "describeRiskAction Appr_Production_Config_Change = ''Production configuration files changed''"
| "describeRiskAction Appr_Bulk_File_Change = ''Large batch of files changed''"

definition changed_path :: "string \<Rightarrow> (string \<times> string) option" where
  "changed_path line = (case split_on (CHR 0x09) line of
     [] \<Rightarrow> None | [status] \<Rightarrow> None
   | status # rest \<Rightarrow> if status = [] \<or> last rest = [] then None else Some (status, last rest))"

definition path_risks :: "string \<times> string \<Rightarrow> approval_action list" where
  "path_risks p = (let status = fst p; n = to_lower (snd p);
       ends = (\<lambda>e. suffix e n); has = (\<lambda>i. str_includes n i) in
     (if prefix ''D'' status then [Appr_File_Delete] else [])
     @ (if ends ''package.json'' \<or> ends ''package-lock.json'' \<or> ends ''pnpm-lock.yaml'' then [Appr_Dependency_Bump] else [])
     @ (if has ''migration'' \<or> ends ''.sql'' then [Appr_Db_Migration] else [])
     @ (if has ''/auth/'' \<or> has ''/security/'' then [Appr_Security_Auth_Change] else [])
     @ (if ends ''.env'' \<or> has ''/k8s/'' \<or> has ''/helm/'' \<or> has ''/deploy/'' \<or> has ''/terraform/''
        then [Appr_Production_Config_Change] else [])
     @ (if has ''/api/'' \<or> has ''/public/'' \<or> ends ''/index.ts'' \<or> has ''/contracts/'' then [Appr_Api_Breaking_Change] else []))"

definition detectRiskyActionsFromCommit :: "workflow_config \<Rightarrow> string list \<Rightarrow> approval_action list" where
  "detectRiskyActionsFromCommit cf ls =
     (let ps = List.map_filter changed_path ls in
      dedup (concat (map path_risks ps)
        @ (if or_default (wc_approvalBulkFileThreshold cf) 25 \<le> length ps then [Appr_Bulk_File_Change] else [])))"

section \<open>The approval gate\<close>

definition approval_risk_of :: "approval_action \<Rightarrow> approval_risk" where
  "approval_risk_of a = (if rk_riskLevel (classifyApprovalRequestedActionRisk a) = High then Appr_High else Appr_Medium)"

definition open_request :: "string \<Rightarrow> string \<Rightarrow> approval_action \<Rightarrow> approval \<Rightarrow> bool" where
  "open_request run tid a r = (ar_run r = run \<and> ar_task r = tid \<and> ar_action r = a \<and> ar_status r \<noteq> Approval_Completed)"

definition new_request :: "string \<Rightarrow> stamp \<Rightarrow> string \<Rightarrow> string \<Rightarrow> approval_action \<Rightarrow> string \<Rightarrow> string jsrec \<Rightarrow> approval" where
  "new_request u now run tid a reason meta =
     \<lparr> ar_id = u, ar_run = run, ar_task = tid, ar_reason = reason, ar_action = a, ar_risk = approval_risk_of a,
       ar_status = Approval_Pending, ar_metadata = meta, ar_created = now, ar_approvedAt = None, ar_approvedBy = None,
       ar_rejectedAt = None, ar_rejectedBy = None, ar_rejectionReason = None, ar_resumedAt = None, ar_resumedBy = None,
       ar_completedAt = None, ar_policyDecision = None, ar_evidence = None \<rparr>"

definition evaluateApprovalGate ::
    "env \<Rightarrow> string \<Rightarrow> string \<Rightarrow> approval_action \<Rightarrow> string \<Rightarrow> string jsrec \<Rightarrow> approval_status run" where
  "evaluateApprovalGate ev run tid a reason meta =
     bindA (getA (\<lambda>w. find (open_request run tid a) (ps_approvals (wd_state w)))) (\<lambda>existing.
       case existing of Some r \<Rightarrow> ret (ar_status r)
       | None \<Rightarrow> bindA (fresh_uuid ev) (\<lambda>u. bindA (clock ev) (\<lambda>now.
           let r = new_request u now run tid a reason meta in
           thenA (set_state (\<lambda>s. s\<lparr>ps_approvals := ps_approvals s @ [r]\<rparr>))
          (thenA (record_event ev APPROVAL_REQUESTED
              [(''approvalRequestId'', [u]), (''runId'', [run]), (''taskId'', [tid]),
               (''requestedAction'', [approval_action_text a]), (''reason'', [reason]), (''status'', [''pending''])] run)
            (ret Approval_Pending)))))"

text \<open>The gate as the call sites use it: \<open>enabled && required.has(a) ? await evaluate(...) : {status: 'resumed'}\<close>.\<close>

definition approval_gate ::
    "env \<Rightarrow> workflow_config \<Rightarrow> string \<Rightarrow> string \<Rightarrow> approval_action \<Rightarrow> string \<Rightarrow> string jsrec \<Rightarrow> approval_status run" where
  "approval_gate ev cf run tid a reason meta =
     (if approval_needed cf a then evaluateApprovalGate ev run tid a reason meta else ret Approval_Resumed)"

section \<open>Effects at most once\<close>

definition git_key :: "env \<Rightarrow> string \<Rightarrow> string \<Rightarrow> string \<Rightarrow> string \<Rightarrow> string run" where
  "git_key ev run tid kind normalized = bindA (getA wd_state) (\<lambda>s.
     liftA (buildIdempotencyKey (en_lc ev) (en_sha ev)
       \<lparr> ki_tenant = ps_org s, ki_project = ps_project s, ki_run = run, ki_task = tid, ki_stage = kind,
         ki_attempt = 0, ki_side_effect = kind, ki_normalized = JStr normalized \<rparr>))"

definition dedup_ttl :: int where
  "dedup_ttl = 30 * 60 * 1000"

definition reserve_effect :: "string \<Rightarrow> string \<Rightarrow> stamp \<Rightarrow> bool run" where
  "reserve_effect key owner now w =
     (case reserveSideEffect \<lparr> rc_key = key, rc_owner = owner, rc_now = now, rc_ttl = dedup_ttl \<rparr>
             (ex_dedup (ps_execution (wd_state w))) of
        (r, reg) \<Rightarrow> (map_sum id (\<lambda>x. x = None) r,
                     w\<lparr>wd_state := wd_state w\<lparr>ps_execution := ps_execution (wd_state w)\<lparr>ex_dedup := reg\<rparr>\<rparr>\<rparr>))"

definition last_decision_id :: "project_state \<Rightarrow> string option" where
  "last_decision_id s = (if ps_policyDecisions s = [] then None else Some (pd_decisionId (last (ps_policyDecisions s))))"

definition complete_effect :: "env \<Rightarrow> string \<Rightarrow> bool \<Rightarrow> unit run" where
  "complete_effect ev key ok = bindA (getA (last_decision_id \<circ> wd_state)) (\<lambda>pid. bindA (clock ev) (\<lambda>now.
     set_execution (\<lambda>x. x\<lparr>ex_dedup := completeSideEffect \<lparr> fc_key = key, fc_now = now,
       fc_status = (if ok then Final_Succeeded else Final_Failed), fc_owner = None,
       fc_policy = when_truthy pid, fc_evidence = None \<rparr> (ex_dedup x)\<rparr>)))"

text \<open>Policy, lease, call, completion: the lines the three effects share.\<close>

definition guarded_effect :: "env \<Rightarrow> policy_request \<Rightarrow> outside_effect \<Rightarrow> (nat \<Rightarrow> 'a result) \<Rightarrow> ('a \<Rightarrow> bool) \<Rightarrow> string \<Rightarrow> 'a run" where
  "guarded_effect ev q e call ok key =
     thenA (persistAndRequire ev q) (thenA (require_valid ev) (bindA (effect e call) (\<lambda>x.
       thenA (complete_effect ev key (ok x)) (ret x))))"

section \<open>Completing a task\<close>

record git_progress =
  gp_commit :: string
  gp_push :: string
  gp_sha :: string
  gp_waiting :: bool

definition commit_message :: "git_input \<Rightarrow> string" where
  "commit_message i = ''feat('' @ gi_task i @ ''): '' @ gi_title i @ '' [run:'' @ gi_run i @ '']''"

fun source_gates :: "env \<Rightarrow> workflow_config \<Rightarrow> git_input \<Rightarrow> string \<Rightarrow> string \<Rightarrow> bool \<Rightarrow> approval_action list \<Rightarrow> bool run" where
  "source_gates ev cf i branch sha waiting [] = ret waiting"
| "source_gates ev cf i branch sha waiting (a # as) =
     (if a \<notin> set (requiredApprovalActions cf) then source_gates ev cf i branch sha waiting as
      else bindA (evaluateApprovalGate ev (gi_run i) (gi_task i) a (describeRiskAction a) [(''branchName'', branch), (''commitSha'', sha)])
        (\<lambda>st. source_gates ev cf i branch sha (waiting \<or> st \<noteq> Approval_Resumed) as))"

definition git_push_phase :: "env \<Rightarrow> workflow_config \<Rightarrow> git_executors \<Rightarrow> git_input \<Rightarrow> string \<Rightarrow> string \<Rightarrow> (string \<times> bool) run" where
  "git_push_phase ev cf gx i branch sha =
     bindA (approval_gate ev cf (gi_run i) (gi_task i) Appr_Git_Push (''Push branch '' @ branch @ '' to origin'')
              [(''branchName'', branch), (''commitSha'', sha)]) (\<lambda>st.
       if st = Approval_Rejected then ret (''skipped_rejected'', False)
       else if st = Approval_Pending then ret (''pending_approval'', True)
       else if st = Approval_Approved then ret (''waiting_resume'', True)
       else bindA (git_key ev (gi_run i) (gi_task i) ''git_push'' (branch @ ''|'' @ sha)) (\<lambda>key.
            bindA (clock ev) (\<lambda>now. bindA (reserve_effect key (gi_run i) now) (\<lambda>reserved.
              if \<not> reserved then ret (''skipped_duplicate'', False)
              else bindA (guarded_effect ev
                    (buildStepPolicyGateRequest (gi_run i) (gi_task i) (gi_task i @ '':git_push'') 0 Git_Push
                       (join '':'' [gi_run i, gi_task i, ''git_push'', branch, sha]) [''APPROVAL_GATE_PASSED''])
                    (Eff_Push branch) (\<lambda>n. gx_push gx n branch) id key)
                (\<lambda>pushed. ret (if pushed then ''pushed'' else ''failed'', False))))))"

definition git_after_commit :: "env \<Rightarrow> workflow_config \<Rightarrow> git_executors \<Rightarrow> git_input \<Rightarrow> string \<Rightarrow> string option \<Rightarrow> git_progress run" where
  "git_after_commit ev cf gx i branch committed =
     (case committed of
        None \<Rightarrow> ret \<lparr> gp_commit = ''failed'', gp_push = ''skipped_commit_failed'', gp_sha = ''none'', gp_waiting = False \<rparr>
      | Some sha \<Rightarrow>
          bindA (if approvalGateEnabled cf
                 then bindA (ask (\<lambda>n. gx_nameStatus gx n sha)) (\<lambda>ls.
                        source_gates ev cf i branch sha False (detectRiskyActionsFromCommit cf ls))
                 else ret False) (\<lambda>waiting.
          bindA (git_push_phase ev cf gx i branch sha) (\<lambda>p.
            ret \<lparr> gp_commit = ''created'', gp_push = fst p, gp_sha = sha, gp_waiting = waiting \<or> snd p \<rparr>)))"

definition git_commit_phase :: "env \<Rightarrow> workflow_config \<Rightarrow> git_executors \<Rightarrow> git_input \<Rightarrow> string \<Rightarrow> git_progress run" where
  "git_commit_phase ev cf gx i branch =
     bindA (clock ev) (\<lambda>now.
     bindA (git_key ev (gi_run i) (gi_task i) ''git_commit'' (commit_message i @ ''|'' @ branch)) (\<lambda>key.
     bindA (reserve_effect key (gi_run i) now) (\<lambda>reserved.
       if \<not> reserved
       then ret \<lparr> gp_commit = ''skipped_duplicate'', gp_push = ''skipped_duplicate'', gp_sha = ''none'', gp_waiting = False \<rparr>
       else bindA (guarded_effect ev
                (buildStepPolicyGateRequest (gi_run i) (gi_task i) (gi_task i @ '':git_commit'') 0 Git_Commit
                   (join '':'' [gi_run i, gi_task i, ''git_commit'', commit_message i]) [''REPO_CHANGES_PRESENT''])
                (Eff_Commit (commit_message i)) (\<lambda>n. gx_commit gx n (commit_message i)) (\<lambda>x. x \<noteq> None) key)
              (git_after_commit ev cf gx i branch))))"

definition pr_title :: "git_input \<Rightarrow> string" where
  "pr_title i = ''['' @ gi_task i @ ''] '' @ gi_title i"

definition pr_body :: "git_input \<Rightarrow> string \<Rightarrow> string \<Rightarrow> string" where
  "pr_body i branch sha = join [CHR 0x0A] [''Task: '' @ gi_task i, ''Run: '' @ gi_run i, ''Branch: '' @ branch,
     ''Commit: '' @ sha, [], ''Automated draft PR from ai-orchestrator.'']"

definition git_pr_phase :: "env \<Rightarrow> workflow_config \<Rightarrow> git_executors \<Rightarrow> git_input \<Rightarrow> string \<Rightarrow> string \<Rightarrow> (string \<times> bool) run" where
  "git_pr_phase ev cf gx i branch sha =
     bindA (approval_gate ev cf (gi_run i) (gi_task i) Appr_Pr_Draft (''Create draft PR for branch '' @ branch)
              [(''branchName'', branch), (''prTitle'', pr_title i)]) (\<lambda>st.
       if st = Approval_Rejected then ret (''skipped_rejected'', False)
       else if st = Approval_Pending then ret (''pending_approval'', True)
       else if st = Approval_Approved then ret (''waiting_resume'', True)
       else bindA (git_key ev (gi_run i) (gi_task i) ''pr_draft'' (branch @ ''|'' @ pr_title i)) (\<lambda>key.
            bindA (clock ev) (\<lambda>now. bindA (reserve_effect key (gi_run i) now) (\<lambda>reserved.
              if \<not> reserved then ret (''skipped_duplicate'', False)
              else bindA (guarded_effect ev
                    (buildStepPolicyGateRequest (gi_run i) (gi_task i) (gi_task i @ '':pr_draft'') 0 Pr_Draft
                       (join '':'' [gi_run i, gi_task i, ''pr_draft'', branch, pr_title i]) [''PUSH_SUCCESSFUL''])
                    (Eff_Pull_Request branch (pr_title i)) (\<lambda>n. gx_pull_request gx n branch (pr_title i) (pr_body i branch sha)) id key)
                (\<lambda>created. ret (if created then ''created'' else ''failed'', False))))))"

definition record_made :: "env \<Rightarrow> artifact_type \<Rightarrow> string \<Rightarrow> string jsrec \<Rightarrow> unit run" where
  "record_made ev ty title meta = bindA (makeArtifact ev ty title meta) (record_artifact ev)"

definition recordBranchArtifact :: "env \<Rightarrow> string \<Rightarrow> string \<Rightarrow> string option \<Rightarrow> unit run" where
  "recordBranchArtifact ev run tid branch = record_made ev Git_Lifecycle (''Git branch for '' @ tid)
     [(''runId'', run), (''taskId'', tid), (''stage'', ''branch''), (''branchName'', or_default branch ''unknown'')]"

datatype git_status = Git_Ok | Git_Approval_Pending

text \<open>The last part, from the pull request on, and the part after the branch name is known.\<close>

definition git_finish :: "env \<Rightarrow> git_input \<Rightarrow> string \<Rightarrow> git_progress \<Rightarrow> string \<times> bool \<Rightarrow> git_status run" where
  "git_finish ev i branch p pr =
     thenA (record_made ev Git_Lifecycle (''PR draft metadata for '' @ gi_task i)
        [(''runId'', gi_run i), (''taskId'', gi_task i), (''stage'', ''pr_draft''), (''branchName'', branch),
         (''prStatus'', fst pr), (''prTitle'', truncateText (pr_title i) 250), (''prBody'', truncateText (pr_body i branch (gp_sha p)) 250)])
    (let waiting = gp_waiting p \<or> snd pr in
     thenA (whenA waiting (record_made ev Report_Artifact (''Approval pending for '' @ gi_task i)
        [(''runId'', gi_run i), (''taskId'', gi_task i), (''resumeMode'', ''manual_run_cycle''),
         (''note'', ''Approve and resume by invoking the run cycle again from control plane'')]))
       (ret (if waiting then Git_Approval_Pending else Git_Ok)))"

definition git_complete_on :: "env \<Rightarrow> workflow_config \<Rightarrow> git_executors \<Rightarrow> git_input \<Rightarrow> string \<Rightarrow> git_status run" where
  "git_complete_on ev cf gx i branch =
     bindA (ask (gx_hasChanges gx)) (\<lambda>changes.
     bindA (if changes then git_commit_phase ev cf gx i branch
            else ret \<lparr> gp_commit = ''skipped_no_changes'', gp_push = ''skipped_no_changes'', gp_sha = ''none'', gp_waiting = False \<rparr>) (\<lambda>p.
     thenA (record_made ev Git_Lifecycle (''Git commit metadata for '' @ gi_task i)
        [(''runId'', gi_run i), (''taskId'', gi_task i), (''stage'', ''commit''), (''branchName'', branch),
         (''commitStatus'', gp_commit p), (''pushStatus'', gp_push p), (''commitSha'', truncateText (gp_sha p) 120),
         (''commitMessage'', truncateText (commit_message i) 250)])
    (bindA (if gp_push p = ''pushed'' then git_pr_phase ev cf gx i branch (gp_sha p)
            else ret (''skipped_push_not_successful'', False)) (git_finish ev i branch p))))"

definition git_complete :: "env \<Rightarrow> workflow_config \<Rightarrow> git_executors \<Rightarrow> git_input \<Rightarrow> git_status run" where
  "git_complete ev cf gx i =
     bindA (case gi_branch i of Some b \<Rightarrow> ret (Some b) | None \<Rightarrow> ask (gx_branch gx))
       (\<lambda>b. git_complete_on ev cf gx i (or_default b ''unknown''))"

section \<open>What stays as it is\<close>

text \<open>\<open>calm v w\<close>: between \<open>v\<close> and \<open>w\<close> no effect was sent, no persisted decision was lost, and the approvals that
  were added are pending.\<close>

definition calm :: "world \<Rightarrow> world \<Rightarrow> bool" where
  "calm v w = (wd_effects w = wd_effects v \<and>
     set (ps_policyDecisions (wd_stored v)) \<subseteq> set (ps_policyDecisions (wd_stored w)) \<and>
     (\<forall>a \<in> set (ps_approvals (wd_state w)). a \<in> set (ps_approvals (wd_state v)) \<or> ar_status a = Approval_Pending))"

lemma calm_refl [simp]: "calm v v"
  by (simp add: calm_def)

lemma calm_trans: "calm u v \<Longrightarrow> calm v w \<Longrightarrow> calm u w"
  unfolding calm_def by (auto dest: subsetD)

lemma calmI: "wd_effects w' = wd_effects w \<Longrightarrow> ps_policyDecisions (wd_stored w') = ps_policyDecisions (wd_stored w) \<Longrightarrow>
    ps_approvals (wd_state w') = ps_approvals (wd_state w) \<Longrightarrow> calm v w \<Longrightarrow> calm v w'"
  by (simp add: calm_def)

abbreviation quiet :: "'a run \<Rightarrow> bool" where
  "quiet \<equiv> keeps calm"

interpretation calm: frame calm
  by unfold_locales (auto intro: calm_trans)

named_theorems quiet_intros \<open>runs that send nothing\<close>

lemmas [quiet_intros] = calm.keeps_intros

lemma wp_ask: "wp (ask f) Q E w = (case f (wd_tick w) of
    Inl e \<Rightarrow> E e (w\<lparr>wd_tick := Suc (wd_tick w)\<rparr>) | Inr x \<Rightarrow> Q x (w\<lparr>wd_tick := Suc (wd_tick w)\<rparr>))"
  by (simp add: wp_def ask_def split: sum.split)

lemma quiet_steps [quiet_intros]:
  "quiet (fresh_uuid ev)" "quiet (clock ev)" "quiet (ask f)" "quiet (set_revision r)" "quiet (push_artifact a)"
  "quiet (set_execution h)"
  by (rule keepsI; simp add: wp_simps wp_ask calm_def split: sum.split)+

lemma quiet_require_valid [quiet_intros]: "quiet (require_valid ev)"
  by (rule keepsI, rule wp_require_valid) (simp_all add: calm_def)

lemma quiet_reserve_effect [quiet_intros]: "quiet (reserve_effect key owner now)"
  by (rule keepsI) (auto simp: wp_def reserve_effect_def calm_def split: prod.splits sum.splits)

lemma quiet_record_artifact [quiet_intros]: "quiet (record_artifact ev a)"
  unfolding record_artifact_def
  by (rule keepsI) (auto simp: wp_simps calm_def with_artifact_def own_revision_def intro!: wp_protected wp_recordArtifact)

lemma quiet_record_event [quiet_intros]: "quiet (record_event ev ty payload run)"
  unfolding record_event_def
  by (rule keepsI) (auto simp: wp_simps calm_def intro!: wp_protected)

lemma quiet_git_helpers [quiet_intros]:
  "quiet (makeArtifact ev ty title meta)" "quiet (record_made ev ty title meta)" "quiet (git_key ev run tid kind nrm)"
  "quiet (complete_effect ev key ok)"
  unfolding makeArtifact_def record_made_def git_key_def complete_effect_def by (intro quiet_intros)+


lemma quiet_persistAndRequire [quiet_intros]: "quiet (persistAndRequire ev q)"
  by (rule keepsI, rule wp_persistAndRequire) (simp_all add: calm_def Let_def subset_iff)

lemma quiet_evaluateApprovalGate [quiet_intros]: "quiet (evaluateApprovalGate ev run tid a reason meta)"
proof -
  have "quiet (set_state (\<lambda>s. s\<lparr>ps_approvals := ps_approvals s @ [new_request u now run tid a reason meta]\<rparr>))" for u now
    by (rule keepsI) (simp add: wp_simps calm_def new_request_def)
  then show ?thesis
    unfolding evaluateApprovalGate_def Let_def by (intro quiet_intros) (auto intro!: quiet_intros split: option.split)
qed

lemma quiet_source_gates [quiet_intros]: "quiet (source_gates ev cf i branch sha waiting as)"
proof (induction as arbitrary: waiting)
  case (Cons a as)
  then show ?case by (simp add: calm.keeps_still calm.keeps_bindA quiet_evaluateApprovalGate)
qed (simp add: calm.keeps_still)

section \<open>What was done, and by what right\<close>

definition git_effects :: "git_input \<Rightarrow> string \<Rightarrow> outside_effect list" where
  "git_effects i branch = [Eff_Commit (commit_message i), Eff_Push branch, Eff_Pull_Request branch (pr_title i)]"

definition decided :: "git_input \<Rightarrow> string \<Rightarrow> action_type \<Rightarrow> world \<Rightarrow> bool" where
  "decided i step action w = (\<exists>d \<in> set (ps_policyDecisions (wd_stored w)). pd_runId d = gi_run i \<and>
     pd_stepId d = gi_task i @ '':'' @ step \<and> pd_attempt d = 0 \<and> pd_actionType d = action \<and> pd_decision d = Allow)"

definition approved_before :: "workflow_config \<Rightarrow> git_input \<Rightarrow> approval_action \<Rightarrow> world \<Rightarrow> bool" where
  "approved_before cf i a w = (approval_needed cf a \<longrightarrow> (\<exists>r \<in> set (ps_approvals (wd_state w)).
     ar_run r = gi_run i \<and> ar_task r = gi_task i \<and> ar_action r = a \<and> ar_status r = Approval_Resumed))"

text \<open>\<open>did cf i branch n v w\<close>: from \<open>v\<close> to \<open>w\<close> exactly the first \<open>n\<close> of commit, push and pull request were sent, each
  with a decision in the store and with the approval that \<open>v\<close> already held.\<close>

definition did :: "workflow_config \<Rightarrow> git_input \<Rightarrow> string \<Rightarrow> nat \<Rightarrow> world \<Rightarrow> world \<Rightarrow> bool" where
  "did cf i branch n v w = (wd_effects w = wd_effects v @ take n (git_effects i branch) \<and>
     (\<forall>a \<in> set (ps_approvals (wd_state w)). a \<in> set (ps_approvals (wd_state v)) \<or> ar_status a = Approval_Pending) \<and>
     (1 \<le> n \<longrightarrow> decided i ''git_commit'' Git_Commit w) \<and>
     (2 \<le> n \<longrightarrow> decided i ''git_push'' Git_Push w \<and> approved_before cf i Appr_Git_Push v) \<and>
     (3 \<le> n \<longrightarrow> decided i ''pr_draft'' Pr_Draft w \<and> approved_before cf i Appr_Pr_Draft v))"

lemma did_calm: "did cf i branch n v w \<Longrightarrow> calm w u \<Longrightarrow> did cf i branch n v u"
  unfolding did_def calm_def decided_def by (auto dest: subsetD)

lemma did_nothing: "did cf i branch 0 v v"
  by (simp add: did_def)

lemma wp_quiet_did:
  "quiet m \<Longrightarrow> did cf i branch n v w \<Longrightarrow> wp m (\<lambda>_. did cf i branch n v) (\<lambda>_. did cf i branch n v) w"
  by (rule wp_mono[OF keepsD[where R = calm]]) (auto intro: did_calm)

text \<open>Running a quiet step first.\<close>

lemma wp_quiet_bind:
  assumes "quiet m" "did cf i branch n v w"
    and "\<And>x u. did cf i branch n v u \<Longrightarrow> wp (f x) Q E u" and "\<And>e u. did cf i branch n v u \<Longrightarrow> E e u"
  shows "wp (bindA m f) Q E w"
  unfolding wp_bindA by (rule wp_mono[OF wp_quiet_did[OF assms(1,2)]]) (use assms(3,4) in auto)

lemma wp_quiet_then:
  assumes "quiet m" "did cf i branch n v w"
    and "\<And>u. did cf i branch n v u \<Longrightarrow> wp k Q E u" and "\<And>e u. did cf i branch n v u \<Longrightarrow> E e u"
  shows "wp (thenA m k) Q E w"
  unfolding thenA_def by (rule wp_quiet_bind[OF assms(1,2)]) (use assms(3,4) in auto)

definition did_some :: "workflow_config \<Rightarrow> git_input \<Rightarrow> world \<Rightarrow> world \<Rightarrow> bool" where
  "did_some cf i v w = (\<exists>branch n. n \<le> 3 \<and> did cf i branch n v w)"

lemma did_someI: "did cf i branch n v w \<Longrightarrow> n \<le> 3 \<Longrightarrow> did_some cf i v w"
  by (auto simp: did_some_def)

lemma wp_persisted:
  assumes "did cf i branch n v w" "pq_run q = gi_run i" "pq_step q = gi_task i @ '':'' @ step" "pq_attempt q = 0" "pq_action q = action"
  shows "wp (persistAndRequire ev q) (\<lambda>_ u. did cf i branch n v u \<and> decided i step action u) (\<lambda>_. did cf i branch n v) w"
proof -
  have "wp (persistAndRequire ev q) (\<lambda>_. decided i step action) (\<lambda>_ _. True) w"
    by (rule wp_persistAndRequire) (use assms in \<open>simp_all add: decided_def Let_def\<close>)
  then show ?thesis
    by (rule wp_mono[OF wp_conj[OF wp_quiet_did[OF quiet_persistAndRequire assms(1)]]]) auto
qed


lemma wp_effect: "wp (effect e f) Q E w = (let u = w\<lparr>wd_tick := Suc (wd_tick w), wd_effects := wd_effects w @ [e]\<rparr> in
    case f (wd_tick w) of Inl x \<Rightarrow> E x u | Inr x \<Rightarrow> Q x u)"
  by (simp add: wp_def effect_def Let_def split: sum.split)

lemma decided_calm: "decided i step action w \<Longrightarrow> calm w u \<Longrightarrow> decided i step action u"
  unfolding decided_def calm_def by (auto dest: subsetD)

lemma wp_guarded_effect:
  assumes d: "did cf i branch n v w" and n: "n < 3" "e = git_effects i branch ! n"
    and q: "pq_run q = gi_run i" "pq_step q = gi_task i @ '':'' @ step" "pq_attempt q = 0" "pq_action q = action"
    and step: "(n, step, action) \<in> {(0, ''git_commit'', Git_Commit), (1, ''git_push'', Git_Push), (2, ''pr_draft'', Pr_Draft)}"
    and push: "n = 1 \<Longrightarrow> approved_before cf i Appr_Git_Push v" and pr: "n = 2 \<Longrightarrow> approved_before cf i Appr_Pr_Draft v"
    and Q: "\<And>x u. did cf i branch (Suc n) v u \<Longrightarrow> Q x u"
    and E: "\<And>x u m. m \<le> 3 \<Longrightarrow> did cf i branch m v u \<Longrightarrow> E x u"
  shows "wp (guarded_effect ev q e call ok key) Q E w"
proof -
  have sent: "did cf i branch (Suc n) v (u\<lparr>wd_tick := t, wd_effects := wd_effects u @ [e]\<rparr>)"
    if "did cf i branch n v u" "decided i step action u" for u t
    using that n step push pr by (auto simp: did_def decided_def git_effects_def numeral_2_eq_2 numeral_3_eq_3)
  have after: "wp (bindA (effect e call) (\<lambda>x. thenA (complete_effect ev key (ok x)) (ret x))) Q E u"
    if u: "did cf i branch n v u" "decided i step action u" for u
  proof -
    have fin: "wp (thenA (complete_effect ev key (ok x)) (ret x)) Q E (u\<lparr>wd_tick := t, wd_effects := wd_effects u @ [e]\<rparr>)" for x t
      by (rule wp_quiet_then[OF quiet_git_helpers(4) sent[OF u]]) (use n in \<open>auto simp: wp_ret intro: Q E[where m = "Suc n"]\<close>)
    show ?thesis
      unfolding wp_bindA wp_effect Let_def using fin E[OF _ sent[OF u]] n by (auto split: sum.split)
  qed
  have lease: "wp (thenA (require_valid ev) (bindA (effect e call) (\<lambda>x. thenA (complete_effect ev key (ok x)) (ret x)))) Q E u"
    if u: "did cf i branch n v u" "decided i step action u" for u
  proof -
    have "wp (require_valid ev) (\<lambda>_ x. did cf i branch n v x \<and> decided i step action x) (\<lambda>_. did cf i branch n v) u"
      by (rule wp_mono[OF keepsD[OF quiet_require_valid]]) (use did_calm[OF u(1)] decided_calm[OF u(2)] in auto)
    then show ?thesis
      unfolding wp_thenA by (rule wp_mono) (use after E[of n] n in auto)
  qed
  show ?thesis
    unfolding guarded_effect_def wp_thenA[of "persistAndRequire ev q"]
    by (rule wp_mono[OF wp_persisted[OF d q]]) (use lease E[of n] n in auto)
qed

lemma wp_approval_gate:
  assumes "did cf i branch n v w"
  shows "wp (approval_gate ev cf (gi_run i) (gi_task i) a reason meta)
     (\<lambda>st u. did cf i branch n v u \<and>
        (st \<in> {Approval_Pending, Approval_Approved, Approval_Rejected} \<or> approved_before cf i a v))
     (\<lambda>_. did cf i branch n v) w"
proof (cases "approval_needed cf a")
  case False
  then show ?thesis using assms by (simp add: approval_gate_def wp_ret approved_before_def)
next
  case True
  let ?gate = "evaluateApprovalGate ev (gi_run i) (gi_task i) a reason meta"
  have "wp ?gate (\<lambda>st u. st \<in> {Approval_Pending, Approval_Approved, Approval_Rejected} \<or> approved_before cf i a v) (\<lambda>_ _. True) w"
  proof (cases "find (open_request (gi_run i) (gi_task i) a) (ps_approvals (wd_state w))")
    case None
    then show ?thesis using None 
      by (simp add: evaluateApprovalGate_def wp_simps Let_def) (rule wp_mono[OF wp_true]; simp add: wp_ret)
  next
    case (Some r)
    then have r: "r \<in> set (ps_approvals (wd_state w))" "open_request (gi_run i) (gi_task i) a r"
      by (auto simp: find_Some_iff)
    then have "ar_status r = Approval_Pending \<or> r \<in> set (ps_approvals (wd_state v))"
      using assms by (auto simp: did_def)
    then show ?thesis
      using r Some by (cases "ar_status r") (auto simp: evaluateApprovalGate_def wp_simps open_request_def approved_before_def)
  qed
  then show ?thesis
    unfolding approval_gate_def if_P[OF True]
    by (rule wp_mono[OF wp_conj[OF wp_quiet_did[OF quiet_evaluateApprovalGate assms]]]) auto
qed


text \<open>The push and the pull request have the same shape: gate, key, reservation, guarded effect.\<close>

lemma wp_gated_effect:
  assumes d: "did cf i branch n v w"
    and gate: "\<And>u. did cf i branch n v u \<Longrightarrow> approved_before cf i a v \<Longrightarrow>
      wp (eff :: (string \<times> bool) run) (\<lambda>x u. \<exists>m \<le> Suc n. did cf i branch m v u \<and> (n = 1 \<longrightarrow> fst x = ''pushed'' \<longrightarrow> m = 2)) (\<lambda>_. did_some cf i v) u"
    and n: "n \<le> 2"
  shows "wp (bindA (approval_gate ev cf (gi_run i) (gi_task i) a reason meta) (\<lambda>st.
       if st = Approval_Rejected then ret (''skipped_rejected'', False)
       else if st = Approval_Pending then ret (''pending_approval'', True)
       else if st = Approval_Approved then ret (''waiting_resume'', True) else eff))
     (\<lambda>x u. \<exists>m \<le> Suc n. did cf i branch m v u \<and> (n = 1 \<longrightarrow> fst x = ''pushed'' \<longrightarrow> m = 2)) (\<lambda>_. did_some cf i v) w"
  unfolding wp_bindA
proof (rule wp_mono[OF wp_approval_gate[OF d]])
  fix st u assume u: "did cf i branch n v u \<and> (st \<in> {Approval_Pending, Approval_Approved, Approval_Rejected} \<or> approved_before cf i a v)"
  then have "\<exists>m \<le> Suc n. did cf i branch m v u" by (auto intro: exI[of _ n])
  then show "wp (if st = Approval_Rejected then ret (''skipped_rejected'', False)
       else if st = Approval_Pending then ret (''pending_approval'', True)
       else if st = Approval_Approved then ret (''waiting_resume'', True) else eff)
     (\<lambda>x u. \<exists>m \<le> Suc n. did cf i branch m v u \<and> (n = 1 \<longrightarrow> fst x = ''pushed'' \<longrightarrow> m = 2)) (\<lambda>_. did_some cf i v) u"
    using u gate by (auto simp: wp_ret)
qed (use n in \<open>auto intro: did_someI\<close>)

lemma wp_reserved_effect:
  assumes d: "did cf i branch n v w" and n: "n \<le> 2"
    and eff: "\<And>key u. did cf i branch n v u \<Longrightarrow> wp (eff key :: 'a run) Q (\<lambda>_. did_some cf i v) u"
    and dup: "\<And>u. did cf i branch n v u \<Longrightarrow> Q dupl u"
  shows "wp (bindA (git_key ev run tid kind nrm) (\<lambda>key. bindA (clock ev) (\<lambda>now. bindA (reserve_effect key owner now) (\<lambda>reserved.
      if \<not> reserved then ret dupl else eff key)))) Q (\<lambda>_. did_some cf i v) w"
  using n by (intro wp_quiet_bind[OF quiet_git_helpers(3) d] wp_quiet_bind[OF quiet_steps(2)]
      wp_quiet_bind[OF quiet_reserve_effect]) (assumption | auto simp: wp_ret intro: eff dup did_someI)+

lemma wp_git_push_phase:
  assumes "did cf i branch 1 v w"
  shows "wp (git_push_phase ev cf gx i branch sha)
     (\<lambda>x u. \<exists>m \<le> Suc 1. did cf i branch m v u \<and> (1 = (1 :: nat) \<longrightarrow> fst x = ''pushed'' \<longrightarrow> m = 2)) (\<lambda>_. did_some cf i v) w"
  unfolding git_push_phase_def
proof (rule wp_gated_effect[OF assms], rule wp_reserved_effect)
  fix key u assume u: "did cf i branch 1 v u" "approved_before cf i Appr_Git_Push v"
  show "wp (bindA (guarded_effect ev (buildStepPolicyGateRequest (gi_run i) (gi_task i) (gi_task i @ '':git_push'') 0 Git_Push
       (join '':'' [gi_run i, gi_task i, ''git_push'', branch, sha]) [''APPROVAL_GATE_PASSED''])
       (Eff_Push branch) (\<lambda>n. gx_push gx n branch) id key) (\<lambda>pushed. ret (if pushed then ''pushed'' else ''failed'', False)))
     (\<lambda>x u. \<exists>m \<le> Suc 1. did cf i branch m v u \<and> (1 = (1 :: nat) \<longrightarrow> fst x = ''pushed'' \<longrightarrow> m = 2)) (\<lambda>_. did_some cf i v) u"
    unfolding wp_bindA
    by (rule wp_guarded_effect[OF u(1), where step = "''git_push''" and action = Git_Push])
      (use u(2) in \<open>auto simp: git_effects_def buildStepPolicyGateRequest_def wp_ret numeral_2_eq_2 intro: did_someI\<close>)
qed auto


lemma wp_git_pr_phase:
  assumes "did cf i branch 2 v w"
  shows "wp (git_pr_phase ev cf gx i branch sha)
     (\<lambda>x u. \<exists>m \<le> Suc 2. did cf i branch m v u \<and> (2 = (1 :: nat) \<longrightarrow> fst x = ''pushed'' \<longrightarrow> m = 2)) (\<lambda>_. did_some cf i v) w"
  unfolding git_pr_phase_def
proof (rule wp_gated_effect[OF assms], rule wp_reserved_effect)
  fix key u assume u: "did cf i branch 2 v u" "approved_before cf i Appr_Pr_Draft v"
  show "wp (bindA (guarded_effect ev (buildStepPolicyGateRequest (gi_run i) (gi_task i) (gi_task i @ '':pr_draft'') 0 Pr_Draft
       (join '':'' [gi_run i, gi_task i, ''pr_draft'', branch, pr_title i]) [''PUSH_SUCCESSFUL''])
       (Eff_Pull_Request branch (pr_title i)) (\<lambda>n. gx_pull_request gx n branch (pr_title i) (pr_body i branch sha)) id key)
       (\<lambda>created. ret (if created then ''created'' else ''failed'', False)))
     (\<lambda>x u. \<exists>m \<le> Suc 2. did cf i branch m v u \<and> (2 = (1 :: nat) \<longrightarrow> fst x = ''pushed'' \<longrightarrow> m = 2)) (\<lambda>_. did_some cf i v) u"
    unfolding wp_bindA
    by (rule wp_guarded_effect[OF u(1), where step = "''pr_draft''" and action = Pr_Draft])
      (use u(2) in \<open>auto simp: git_effects_def buildStepPolicyGateRequest_def wp_ret numeral_2_eq_2 numeral_3_eq_3 intro: did_someI\<close>)
qed (auto intro: exI[of _ 2])

definition progress_ok :: "workflow_config \<Rightarrow> git_input \<Rightarrow> string \<Rightarrow> world \<Rightarrow> git_progress \<Rightarrow> world \<Rightarrow> bool" where
  "progress_ok cf i branch v p w = (\<exists>m \<le> 2. did cf i branch m v w \<and> (gp_push p = ''pushed'' \<longrightarrow> m = 2))"

lemma wp_git_after_commit:
  assumes u: "did cf i branch 1 v w"
  shows "wp (git_after_commit ev cf gx i branch committed) (progress_ok cf i branch v) (\<lambda>_. did_some cf i v) w"
proof (cases committed)
  case None
  then show ?thesis using assms by (auto simp: git_after_commit_def wp_ret progress_ok_def intro: exI[of _ 1])
next
  case (Some sha)
  have q: "quiet (if approvalGateEnabled cf then bindA (ask (\<lambda>n. gx_nameStatus gx n sha)) (\<lambda>ls.
      source_gates ev cf i branch sha False (detectRiskyActionsFromCommit cf ls)) else ret False)"
    by (auto intro!: quiet_intros)
  have "wp (bindA (git_push_phase ev cf gx i branch sha) (\<lambda>p. ret \<lparr> gp_commit = ''created'', gp_push = fst p, gp_sha = sha,
      gp_waiting = waiting \<or> snd p \<rparr>)) (progress_ok cf i branch v) (\<lambda>_. did_some cf i v) x"
    if "did cf i branch 1 v x" for waiting x
    unfolding wp_bindA
    by (rule wp_mono[OF wp_git_push_phase[OF that]]) (auto simp: wp_ret progress_ok_def numeral_2_eq_2)
  then show ?thesis
    unfolding git_after_commit_def Some option.case
    by (intro wp_quiet_bind[OF q u]) (auto intro: did_someI)
qed

lemma wp_git_commit_phase:
  assumes "did cf i branch 0 v w"
  shows "wp (git_commit_phase ev cf gx i branch) (progress_ok cf i branch v) (\<lambda>_. did_some cf i v) w"
  unfolding git_commit_phase_def
proof (rule wp_quiet_bind[OF quiet_steps(2) assms], rule wp_quiet_bind[OF quiet_git_helpers(3)], assumption,
    rule wp_quiet_bind[OF quiet_reserve_effect], assumption)
  fix now key reserved u assume u: "did cf i branch 0 v u"
  then have "progress_ok cf i branch v \<lparr> gp_commit = a, gp_push = ''skipped_duplicate'', gp_sha = b, gp_waiting = False \<rparr> u" for a b
    by (auto simp: progress_ok_def intro: exI[of _ 0])
  moreover have "wp (bindA (guarded_effect ev q (Eff_Commit (commit_message i)) call ok key) (git_after_commit ev cf gx i branch))
      (progress_ok cf i branch v) (\<lambda>_. did_some cf i v) u"
    if "pq_run q = gi_run i" "pq_step q = gi_task i @ '':'' @ ''git_commit''" "pq_attempt q = 0" "pq_action q = Git_Commit" for q call ok
    unfolding wp_bindA
    by (rule wp_guarded_effect[OF u _ _ that]) (auto simp: git_effects_def intro: did_someI wp_git_after_commit)
  ultimately show "wp (if \<not> reserved
       then ret \<lparr> gp_commit = ''skipped_duplicate'', gp_push = ''skipped_duplicate'', gp_sha = ''none'', gp_waiting = False \<rparr>
       else bindA (guarded_effect ev
                (buildStepPolicyGateRequest (gi_run i) (gi_task i) (gi_task i @ '':git_commit'') 0 Git_Commit
                   (join '':'' [gi_run i, gi_task i, ''git_commit'', commit_message i]) [''REPO_CHANGES_PRESENT''])
                (Eff_Commit (commit_message i)) (\<lambda>n. gx_commit gx n (commit_message i)) (\<lambda>x. x \<noteq> None) key)
              (git_after_commit ev cf gx i branch))
      (progress_ok cf i branch v) (\<lambda>_. did_some cf i v) u"
    by (simp add: wp_ret buildStepPolicyGateRequest_def)
qed (auto intro: did_someI)

lemma wp_quiet_end: "quiet m \<Longrightarrow> did cf i branch n v w \<Longrightarrow> n \<le> 3 \<Longrightarrow> wp m (\<lambda>_. did_some cf i v) (\<lambda>_. did_some cf i v) w"
  by (rule wp_mono[OF wp_quiet_did]) (auto intro: did_someI)

lemma wp_git_finish:
  assumes "progress_ok cf i branch v p u"
  shows "wp (bindA (if gp_push p = ''pushed'' then git_pr_phase ev cf gx i branch (gp_sha p)
      else ret (''skipped_push_not_successful'', False)) (git_finish ev i branch p)) (\<lambda>_. did_some cf i v) (\<lambda>_. did_some cf i v) u"
proof -
  have f: "quiet (git_finish ev i branch p x)" for x
    unfolding git_finish_def Let_def by (intro quiet_intros)
  show ?thesis
  proof (cases "gp_push p = ''pushed''")
    case True
    then have "did cf i branch 2 v u" using assms by (simp add: progress_ok_def)
    then show ?thesis
      unfolding if_P[OF True] wp_bindA
      by (rule wp_mono[OF wp_git_pr_phase]) (auto intro: wp_quiet_end[OF f])
  next
    case False
    then show ?thesis using assms by (auto simp: wp_bindA wp_ret progress_ok_def intro: wp_quiet_end[OF f])
  qed
qed

lemma wp_git_complete_on: "did cf i branch 0 v w \<Longrightarrow>
    wp (git_complete_on ev cf gx i branch) (\<lambda>_. did_some cf i v) (\<lambda>_. did_some cf i v) w"
  unfolding git_complete_on_def
proof (rule wp_quiet_bind[OF quiet_steps(3)], assumption, unfold wp_bindA[of "if _ then git_commit_phase _ _ _ _ _ else _"])
  fix changes u assume u: "did cf i branch 0 v u"
  define start where "start = (if changes then git_commit_phase ev cf gx i branch
     else ret \<lparr> gp_commit = ''skipped_no_changes'', gp_push = ''skipped_no_changes'', gp_sha = ''none'', gp_waiting = False \<rparr>)"
  have A: "wp start (progress_ok cf i branch v) (\<lambda>_. did_some cf i v) u"
    using u wp_git_commit_phase[OF u] by (auto simp: start_def wp_ret progress_ok_def intro: exI[of _ 0])
  have B: "wp (thenA (record_made ev ty title meta) k) (\<lambda>_. did_some cf i v) (\<lambda>_. did_some cf i v) x"
    if p: "progress_ok cf i branch v p x" and k: "\<And>x. progress_ok cf i branch v p x \<Longrightarrow> wp k (\<lambda>_. did_some cf i v) (\<lambda>_. did_some cf i v) x"
    for p x ty title meta and k :: "git_status run"
  proof -
    obtain n where n: "n \<le> 2" "did cf i branch n v x" "gp_push p = ''pushed'' \<longrightarrow> n = 2" using p by (auto simp: progress_ok_def)
    show ?thesis
      by (rule wp_quiet_then[OF quiet_git_helpers(2) n(2)]) (use n in \<open>auto intro!: k simp: progress_ok_def intro: did_someI\<close>)
  qed
  show "wp (if changes then git_commit_phase ev cf gx i branch
      else ret \<lparr> gp_commit = ''skipped_no_changes'', gp_push = ''skipped_no_changes'', gp_sha = ''none'', gp_waiting = False \<rparr>)
     (\<lambda>p. wp (thenA (record_made ev Git_Lifecycle (''Git commit metadata for '' @ gi_task i)
        [(''runId'', gi_run i), (''taskId'', gi_task i), (''stage'', ''commit''), (''branchName'', branch),
         (''commitStatus'', gp_commit p), (''pushStatus'', gp_push p), (''commitSha'', truncateText (gp_sha p) 120),
         (''commitMessage'', truncateText (commit_message i) 250)])
       (bindA (if gp_push p = ''pushed'' then git_pr_phase ev cf gx i branch (gp_sha p)
            else ret (''skipped_push_not_successful'', False)) (git_finish ev i branch p)))
       (\<lambda>_. did_some cf i v) (\<lambda>_. did_some cf i v)) (\<lambda>_. did_some cf i v) u"
    unfolding start_def[symmetric] by (rule wp_mono[OF A]; (rule B[OF _ wp_git_finish], assumption+)?)
qed (auto intro: did_someI)

lemma wp_git_complete: "wp (git_complete ev cf gx i) (\<lambda>_. did_some cf i w) (\<lambda>_. did_some cf i w) w"
  unfolding git_complete_def
  by (cases "gi_branch i")
    (auto simp: wp_bindA wp_ret wp_ask did_def git_effects_def intro!: wp_git_complete_on did_someI[where n = 0] split: sum.split)


lemma git_complete_did: "did_some cf i w (snd (git_complete ev cf gx i w))"
  using wp_git_complete[of ev cf gx i w]
  by (cases "git_complete ev cf gx i w"; cases "fst (git_complete ev cf gx i w)") (auto simp: wp_def)

section \<open>Properties\<close>

text \<open>C18. What a completed task does to git is authorised. Whatever git and the store answer, and whether it returns or
  throws, \<open>complete\<close> sends nothing, or a commit, or a commit and a push, or a commit, a push and a draft pull
  request, each at most once and for this task; each comes with a decision \<open>allow\<close> in the store for this run, step and
  action, and a push or pull request that requires an approval has one for exactly this run, task and action that was
  resumed before \<open>complete\<close> was called. Approvals it adds itself are pending.\<close>

theorem git_effects_authorised: "did_some cf i w (snd (git_complete ev cf gx i w))"
  by (rule git_complete_did)

text \<open>With the approval gate on for pushes, a run whose id no approval carries yet never pushes: it commits at most. The
  gate looks approvals up by run id, and every cycle of the orchestrator draws a new one.\<close>

theorem fresh_run_never_pushes:
  assumes "approval_needed cf Appr_Git_Push" and "\<forall>r \<in> set (ps_approvals (wd_state w)). ar_run r \<noteq> gi_run i"
  shows "\<exists>n \<le> 1. wd_effects (snd (git_complete ev cf gx i w)) = wd_effects w @ take n [Eff_Commit (commit_message i)]"
proof -
  obtain branch n where n: "did cf i branch n w (snd (git_complete ev cf gx i w))"
    using git_complete_did unfolding did_some_def by blast
  have "n \<le> 1"
  proof (rule ccontr)
    assume "\<not> n \<le> 1"
    then have "approved_before cf i Appr_Git_Push w" using n by (simp add: did_def)
    then show False using assms by (auto simp: approved_before_def)
  qed
  moreover have "take n (git_effects i branch) = take n [Eff_Commit (commit_message i)]"
    using \<open>n \<le> 1\<close> by (cases n) (simp_all add: git_effects_def)
  ultimately show ?thesis using n by (auto simp: did_def)
qed

definition sample_executors :: git_executors where
  "sample_executors = \<lparr> gx_hasChanges = (\<lambda>n. Inr True), gx_branch = (\<lambda>n. Inr (Some ''b'')), gx_commit = (\<lambda>n m. Inr (Some ''sha'')),
     gx_push = (\<lambda>n b. Inr True), gx_pull_request = (\<lambda>n b t x. Inr True), gx_nameStatus = (\<lambda>n s. Inr []) \<rparr>"

definition sample_config :: "bool \<Rightarrow> workflow_config" where
  "sample_config gate = \<lparr> wc_approvalGateMode = Some gate, wc_approvalRequiredActions = None, wc_approvalBulkFileThreshold = None \<rparr>"

definition sample_git :: "string \<Rightarrow> git_input" where
  "sample_git title = \<lparr> gi_run = ''r'', gi_task = ''t2'', gi_title = title, gi_branch = Some ''b'' \<rparr>"

theorem fresh_run_never_pushes_witness:
  "\<exists>n \<le> 1. wd_effects (snd (git_complete sample_env (sample_config True) sample_executors (sample_git ''t'') sample_world)) =
     take n [Eff_Commit ''feat(t2): t [run:r]'']"
  using fresh_run_never_pushes[of "sample_config True" sample_world "sample_git ''t''" sample_env sample_executors]
  by (simp add: approval_needed_def approvalGateEnabled_def requiredApprovalActions_def sample_config_def sample_world_def
      sample_state_def createEmptyProjectState_def commit_message_def sample_git_def)

text \<open>The artifact about the commit carries the commit message, and so the title of the task.\<close>

lemma wp_refused_artifact:
  assumes "rec_get meta k = Some v" "secret_like v"
  shows "wp (record_made ev ty title meta) (\<lambda>_ _. False) (\<lambda>_ u. wd_effects u = wd_effects w) w"
proof -
  have r: "registry_validate \<lparr> art_id = u, art_type = ty, art_title = title, art_location = None,
      art_metadata = meta, art_created = now \<rparr> \<noteq> []" for u now
    using secret_like_refused[of "\<lparr> art_id = u, art_type = ty, art_title = title, art_location = None,
      art_metadata = meta, art_created = now \<rparr>" k v] assms by auto
  show ?thesis
    unfolding record_made_def makeArtifact_def record_artifact_def
    by (simp add: wp_simps own_revision_def) (auto intro!: wp_protected wp_recordArtifact simp: r)
qed

text \<open>A task whose commit message looks like a secret (its first 250 characters contain \<open>key\<close>, \<open>token\<close> or \<open>secret\<close>, in
  \<open>keyboard\<close>, say) is never completed: \<open>complete\<close> always throws when it records the commit, which is after it
  has committed and pushed.\<close>

theorem secret_title_never_completes:
  assumes "secret_like (truncateText (commit_message i) 250)"
  shows "\<exists>e. fst (git_complete ev cf gx i w) = Inl e"
proof -
  have m: "wp (thenA (record_made ev ty title (xs @ [(''commitMessage'', truncateText (commit_message i) 250)])) k)
      (\<lambda>_ _. False) (\<lambda>_ _. True) u"
    if "''commitMessage'' \<notin> fst ` set xs" for ty title xs and k :: "git_status run" and u
  proof -
    have "rec_get (xs @ [(''commitMessage'', truncateText (commit_message i) 250)]) ''commitMessage'' =
        Some (truncateText (commit_message i) 250)"
      using that by (simp add: map_add_Some_iff map_of_eq_None_iff)
    from wp_refused_artifact[OF this assms] show ?thesis
      unfolding wp_thenA by (rule wp_mono) auto
  qed
  have "wp (git_complete ev cf gx i) (\<lambda>_ _. False) (\<lambda>_ _. True) w"
    unfolding git_complete_def git_complete_on_def wp_bindA
    by (rule wp_mono[OF wp_true], rule wp_mono[OF wp_true], rule wp_mono[OF wp_true])
      (use m[of "[_, _, _, _, _, _, _]"] in auto)
  then show ?thesis by (cases "git_complete ev cf gx i w"; cases "fst (git_complete ev cf gx i w)") (auto simp: wp_def)
qed

theorem secret_title_never_completes_witness:
  "\<exists>e. fst (git_complete sample_env (sample_config False) sample_executors (sample_git ''Add keyboard shortcuts'') sample_world) = Inl e"
  by (rule secret_title_never_completes)
    (simp add: secret_like_def to_lower_def lower_char_def commit_message_def sample_git_def truncateText_def)

end
