(* ===== verification/Role_Outputs.thy ===== *)
theory Role_Outputs
  imports State_Records Roles Json
begin

text \<open>
  What a role may answer and when it is accepted: the envelope check and the registry of output validators
  (\<open>packages/core/src/role-output-schema-registry.ts\<close>), the output types only roles produce
  (\<open>release-assessment.ts\<close>, \<open>state-integrity.ts\<close>, \<open>integration-export.ts\<close>) and the assertion of the
  application layer (\<open>packages/application/src/role-output-validation.ts\<close>).

  An output is a value of the type its role declares, so that the tests \<open>Array.isArray\<close> and the optional
  accesses \<open>x?.y\<close> on declared members succeed; the constructor of \<open>role_output\<close> names the role.
\<close>

section \<open>The outputs\<close>

datatype release_verdict = Release_Ready | Release_Caution | Release_Blocked

record release_assessment =
  ra_verdict :: release_verdict
  ra_confidence :: rat
  ra_blockers :: "string list"
  ra_warnings :: "string list"
  ra_evidence :: "string list"
  ra_recommendedNextActions :: "string list"

definition validateReleaseAssessment :: "release_assessment \<Rightarrow> string list" where
  "validateReleaseAssessment a =
     (if ra_confidence a < 0 \<or> ra_confidence a > 1 then [''Release assessment confidence must be between 0 and 1''] else [])
     @ (if length (ra_evidence a) = 0 then [''Release assessment must include evidence''] else [])"

datatype integrity_severity = Integrity_Low | Integrity_Medium | Integrity_High

record integrity_finding =
  if_issue :: string
  if_severity :: integrity_severity
  if_repairRecommendation :: string
  if_safeToAutoRepair :: bool

record integrity_assessment =
  ia_ok :: bool
  ia_findings :: "integrity_finding list"
  ia_summary :: string

definition validateStateIntegrityAssessment :: "integrity_assessment \<Rightarrow> string list" where
  "validateStateIntegrityAssessment a = (if blank (ia_summary a) then [''State integrity assessment summary is required''] else [])"

datatype export_entity = Export_Epic | Export_Feature | Export_Task | Export_Artifact

record export_record =
  xr_entityType :: export_entity
  xr_internalId :: string
  xr_title :: string
  xr_status :: "string option"
  xr_dependencies :: "string list"
  xr_acceptanceCriteria :: "string list"
  xr_affectedModules :: "string list"
  xr_traceability :: "string jsrec"

record export_payload =
  xp_mappedEntities :: "export_record list"
  xp_missingRequiredFields :: "string list"
  xp_exportBlockers :: "string list"
  xp_recommendedFixes :: "string list"

definition validateIntegrationExportPayload :: "export_payload \<Rightarrow> string list" where
  "validateIntegrationExportPayload p =
     (if length (xp_mappedEntities p) = 0 then [''Integration export must contain at least one mapped entity''] else [])"

record architecture_analysis =
  aa_findings :: "arch_finding list"
  aa_riskSummary :: string

definition validateArchitectureAnalysis :: "architecture_analysis \<Rightarrow> string list" where
  "validateArchitectureAnalysis a =
     (if blank (aa_riskSummary a) then [''Architecture analysis riskSummary is required''] else [])
     @ concat (map validateArchitectureFinding (aa_findings a))"

datatype edge_type = Contains_Edge | Depends_On_Edge

record dependency_edge =
  dg_fromId :: string
  dg_toId :: string
  dg_type :: edge_type
  dg_rationale :: string

record planner_risk =
  pk_id :: string
  pk_title :: string
  pk_severity :: arch_severity
  pk_description :: string
  pk_mitigation :: string
  pk_relatedIds :: "string list"

record merge_batch =
  mb_id :: string
  mb_taskIds :: "string list"
  mb_rationale :: string

record planner_output =
  po_milestone :: milestone
  po_backlog :: backlog
  po_summary :: string
  po_dependencyEdges :: "dependency_edge list"
  po_assumptions :: "string list"
  po_risks :: "planner_risk list"
  po_batches :: "merge_batch list"
  po_batchNotes :: "string list"

definition validatePlannerOutput :: "planner_output \<Rightarrow> string list" where
  "validatePlannerOutput p =
     (if blank (po_summary p) then [''Planner summary is required''] else [])
     @ (if blank (ms_id (po_milestone p)) then [''Planner milestone.id is required''] else [])
     @ concat (map validateBacklogTask (rec_values (backlog_tasks (po_backlog p))))
     @ (if length (po_dependencyEdges p) = 0 then [''Planner dependencyEdges must be a non-empty array''] else [])
     @ (if length (po_assumptions p) = 0 then [''Planner assumptions must be a non-empty array''] else [])
     @ (if length (po_batches p) = 0 then [''Planner mergePreview.batches must be a non-empty array''] else [])"

record optimized_prompt =
  op_id :: string
  op_role :: agent_role
  op_systemPrompt :: string
  op_taskPrompt :: string
  op_contextSummary :: string
  op_constraints :: "string list"
  op_outputSchema :: json

definition validateOptimizedPrompt :: "optimized_prompt \<Rightarrow> string list" where
  "validateOptimizedPrompt p =
     (if blank (op_id p) then [''Prompt id is required''] else [])
     @ (if blank (op_systemPrompt p) then [''Prompt systemPrompt is required''] else [])
     @ (if blank (op_taskPrompt p) then [''Prompt taskPrompt is required''] else [])
     @ (if blank (op_contextSummary p) then [''Prompt contextSummary is required''] else [])"

record docs_output =
  do_summary :: string
  do_affectedModules :: "string list"
  do_behaviorChanges :: "string list"
  do_designRationale :: "string list"
  do_followUpGaps :: "string list"
  do_markdown :: string

definition validateDocsWriterOutput :: "docs_output \<Rightarrow> string list" where
  "validateDocsWriterOutput d = (if blank (do_markdown d) then [''Documentation output markdown is required''] else [])"

definition validateTaskManagerOutput :: "task option \<Rightarrow> string list" where
  "validateTaskManagerOutput x = (case x of None \<Rightarrow> [] | Some t \<Rightarrow> validateBacklogTask t)"

section \<open>The registry\<close>

datatype role_output =
    Out_Discovery discovery | Out_Architecture architecture_analysis | Out_Plan planner_output
  | Out_Release release_assessment | Out_Integrity integrity_assessment | Out_Export export_payload
  | Out_Task "task option" | Out_Prompt optimized_prompt | Out_Code code_execution_output
  | Out_Review review_result | Out_Test test_execution_result | Out_Docs docs_output

fun output_role :: "role_output \<Rightarrow> agent_role" where
  "output_role (Out_Discovery x) = Bootstrap_Analyst"
| "output_role (Out_Architecture x) = Architect"
| "output_role (Out_Plan x) = Planner"
| "output_role (Out_Release x) = Release_Auditor"
| "output_role (Out_Integrity x) = State_Steward"
| "output_role (Out_Export x) = Integration_Manager"
| "output_role (Out_Task x) = Task_Manager"
| "output_role (Out_Prompt x) = Prompt_Engineer"
| "output_role (Out_Code x) = Coder"
| "output_role (Out_Review x) = Reviewer"
| "output_role (Out_Test x) = Tester"
| "output_role (Out_Docs x) = Docs_Writer"

fun registry_output_issues :: "role_output \<Rightarrow> string list" where
  "registry_output_issues (Out_Discovery x) = validateProjectDiscovery x"
| "registry_output_issues (Out_Architecture x) = validateArchitectureAnalysis x"
| "registry_output_issues (Out_Plan x) = validatePlannerOutput x"
| "registry_output_issues (Out_Release x) = validateReleaseAssessment x"
| "registry_output_issues (Out_Integrity x) = validateStateIntegrityAssessment x"
| "registry_output_issues (Out_Export x) = validateIntegrationExportPayload x"
| "registry_output_issues (Out_Task x) = validateTaskManagerOutput x"
| "registry_output_issues (Out_Prompt x) = validateOptimizedPrompt x"
| "registry_output_issues (Out_Code x) = validateCodeExecutionOutput x"
| "registry_output_issues (Out_Review x) = []"
| "registry_output_issues (Out_Test x) = []"
| "registry_output_issues (Out_Docs x) = validateDocsWriterOutput x"

fun role_text :: "agent_role \<Rightarrow> string" where
  "role_text Bootstrap_Analyst = ''bootstrap_analyst''"
| "role_text Architect = ''architect''"
| "role_text Planner = ''planner''"
| "role_text Release_Auditor = ''release_auditor''"
| "role_text State_Steward = ''state_steward''"
| "role_text Integration_Manager = ''integration_manager''"
| "role_text Task_Manager = ''task_manager''"
| "role_text Prompt_Engineer = ''prompt_engineer''"
| "role_text Coder = ''coder''"
| "role_text Reviewer = ''reviewer''"
| "role_text Tester = ''tester''"
| "role_text Docs_Writer = ''docs_writer''"

definition validateRoleResponse :: "agent_role \<Rightarrow> 'o role_response \<Rightarrow> string list" where
  "validateRoleResponse role r =
     (if resp_role r \<noteq> role then [''Role response role mismatch: expected '' @ role_text role @ '', got '' @ role_text (resp_role r)] else [])
     @ (if blank (resp_summary r) then [''Role response summary is required''] else [])
     @ (if resp_confidence r < 0 \<or> resp_confidence r > 1 then [''Role response confidence must be between 0 and 1''] else [])"

definition role_result_issues :: "agent_role \<Rightarrow> role_output role_response \<Rightarrow> string list" where
  "role_result_issues role r = validateRoleResponse role r @ registry_output_issues (resp_output r)"

definition assertRoleOutput :: "agent_role \<Rightarrow> role_output role_response \<Rightarrow> unit result" where
  "assertRoleOutput role r = (let issues = role_result_issues role r in
     if issues = [] then Inr ()
     else Inl (Js_Error SchemaValidationError ''Role response registry validation failed'' (role_text role # issues)))"

text \<open>What acceptance gives the roles of a task.\<close>

lemma accepted_code: "role_result_issues role r = [] \<Longrightarrow> resp_output r = Out_Code x \<Longrightarrow>
    \<not> blank (code_summary x) \<and> (if changed x then code_evidence x \<noteq> [] \<and> changedFiles x \<noteq> [] else no_op_explained x)"
  by (simp add: role_result_issues_def validateCodeExecutionOutput_ok)

lemma accepted_envelope: "role_result_issues role r = [] \<Longrightarrow>
    resp_role r = role \<and> \<not> blank (resp_summary r) \<and> 0 \<le> resp_confidence r \<and> resp_confidence r \<le> 1"
  by (auto simp: role_result_issues_def validateRoleResponse_def split: if_splits)

end
