(* ===== verification/Role_Runner.thy ===== *)
theory Role_Runner
  imports Recorders Role_Outputs
begin

text \<open>
  Running a role (\<open>packages/execution/src/roles/role-runner.ts\<close>): the cost tracker and its budgets, the action
  loop with its tools, the one retry of an answer that is not accepted, and \<open>runWithTimeout\<close>.

  The agents and the tools are functions of the number of draws made so far. A call has one of the outcomes of the race
  with its timer: it settled, the timer won, or it was aborted; a call that lost the race is not followed, and the signal it
  is given is left out. Telemetry is
  left out. Values that are recorded are JSON values, given by \<open>rn_output_json\<close> and \<open>rn_input_json\<close>.
\<close>

section \<open>Requests, agents and tools\<close>

datatype role_input =
    In_State project_state
  | In_Prompting task string "failure list" json
  | In_Execution task optimized_prompt
  | In_Result task role_output

record role_request =
  rq_role :: agent_role
  rq_objective :: string
  rq_input :: role_input
  rq_acceptanceCriteria :: "string list"

datatype 'a raced = Settled "'a result" | Timed_Out int | Abort_Error string

record tool_request =
  tr_toolName :: tool_call_name
  tr_input :: "json jsrec"
  tr_rationale :: string

datatype step_result = Tool_Requested tool_request | Final_Output "role_output role_response"

record agent =
  ag_name :: agent_role
  ag_execute :: "nat \<Rightarrow> role_request \<Rightarrow> role_execution_context \<Rightarrow> role_output role_response raced"
  ag_executeStep :: "(nat \<Rightarrow> role_request \<Rightarrow> role_execution_context \<Rightarrow> observation list \<Rightarrow> step_result raced) option"
  ag_validate :: "(role_output role_response \<Rightarrow> unit result) option"

record tool_failure =
  tf_message :: string
  tf_code :: string
  tf_category :: string

record runner =
  rn_tokenBudgetPerTask :: "nat option"
  rn_tokenBudgetPerRun :: "nat option"
  rn_maxRunCostUsdMicro :: "nat option"
  rn_costPer1k :: "string \<Rightarrow> nat option"
  rn_roleModels :: "agent_role \<Rightarrow> string option"
  rn_fallbackModel :: "string option"
  rn_model :: string
  rn_timeoutMs :: int
  rn_maxRoleSteps :: "nat option"
  rn_maxStepsPerRun :: nat
  rn_maxRoleWallTimeMs :: "int option"
  rn_persistToolEvidence :: bool
  rn_tools :: "nat \<Rightarrow> tool_call_name \<Rightarrow> json jsrec \<Rightarrow> tool_execution_context \<Rightarrow> (tool_failure + json) raced"
  rn_aborted :: "signal \<Rightarrow> nat \<Rightarrow> bool"
  rn_input_json :: "role_input \<Rightarrow> json"
  rn_output_json :: "role_output \<Rightarrow> json"

fun tool_name_text :: "tool_call_name \<Rightarrow> string" where
  "tool_name_text File_Read = ''file_read''"
| "tool_name_text File_Write = ''file_write''"
| "tool_name_text File_List = ''file_list''"
| "tool_name_text File_Exists = ''file_exists''"
| "tool_name_text Git_Status = ''git_status''"
| "tool_name_text Git_Diff = ''git_diff''"
| "tool_name_text Git_Current_Branch = ''git_current_branch''"
| "tool_name_text Typescript_Check = ''typescript_check''"
| "tool_name_text Typescript_Diagnostics = ''typescript_diagnostics''"
| "tool_name_text Shell_Exec = ''shell_exec''"
| "tool_name_text Testing_Run = ''testing_run''"
| "tool_name_text Diff_Workspace = ''diff_workspace''"
| "tool_name_text Search_Repo = ''search_repo''"

section \<open>The cost tracker\<close>

definition resetTask :: "cost \<Rightarrow> cost" where
  "resetTask c = c\<lparr>ct_tokensTask := 0\<rparr>"

definition resetRun :: "cost \<Rightarrow> cost" where
  "resetRun c = resetTask (c\<lparr>ct_tokensRun := 0, ct_usdMicro := 0\<rparr>)"

definition policy_violation :: "string \<Rightarrow> string list \<Rightarrow> js_error" where
  "policy_violation m details = Js_Error WorkflowPolicyError m details"

definition over_budget :: "nat option \<Rightarrow> nat \<Rightarrow> bool" where
  "over_budget b n = (case b of None \<Rightarrow> False | Some m \<Rightarrow> m \<le> n)"

definition enforceBudgets :: "runner \<Rightarrow> string \<Rightarrow> agent_role \<Rightarrow> cost \<Rightarrow> unit result" where
  "enforceBudgets rn model role c =
     (if over_budget (rn_tokenBudgetPerTask rn) (ct_tokensTask c)
      then Inl (policy_violation (''Token budget exceeded for task before role '' @ role_text role @ '' using model '' @ model)
                  [role_text role, model, ''task''])
      else if over_budget (rn_tokenBudgetPerRun rn) (ct_tokensRun c)
      then Inl (policy_violation (''Token budget exceeded for run before role '' @ role_text role @ '' using model '' @ model)
                  [role_text role, model, ''run''])
      else if over_budget (rn_maxRunCostUsdMicro rn) (ct_usdMicro c)
      then Inl (policy_violation (''Run cost budget exceeded before role '' @ role_text role @ '' using model '' @ model)
                  [role_text role, model, ''run_cost''])
      else Inr ())"

text \<open>\<open>Math.ceil((estimate / 1000) * costPer1k)\<close>.\<close>

definition cost_usd_micro :: "runner \<Rightarrow> string \<Rightarrow> nat \<Rightarrow> nat" where
  "cost_usd_micro rn model estimate = (estimate * or_default (rn_costPer1k rn model) 0 + 999) div 1000"

definition recordTokenUsage :: "runner \<Rightarrow> string \<Rightarrow> nat \<Rightarrow> cost \<Rightarrow> cost" where
  "recordTokenUsage rn model estimate c =
     c\<lparr> ct_tokensRun := ct_tokensRun c + estimate, ct_tokensTask := ct_tokensTask c + estimate,
        ct_usdMicro := ct_usdMicro c + cost_usd_micro rn model estimate \<rparr>"

definition set_cost :: "(cost \<Rightarrow> cost) \<Rightarrow> unit run" where
  "set_cost f = modA (\<lambda>w. w\<lparr>wd_cost := f (wd_cost w)\<rparr>)"

definition resolveModelForRole :: "runner \<Rightarrow> agent_role \<Rightarrow> string" where
  "resolveModelForRole rn role =
     (case when_truthy (rn_roleModels rn role) of Some m \<Rightarrow> m | None \<Rightarrow> or_default (rn_fallbackModel rn) (rn_model rn))"

section \<open>Timeouts and cancellation\<close>

text \<open>\<open>Date.now()\<close>; the clock gives an instant.\<close>

definition date_now :: "env \<Rightarrow> int run" where
  "date_now ev = bindA (clock ev) (\<lambda>s. ret (case s of Iso t \<Rightarrow> t | Other_Text _ \<Rightarrow> 0))"

definition is_aborted :: "runner \<Rightarrow> role_execution_context \<Rightarrow> bool run" where
  "is_aborted rn cx = getA (\<lambda>w. case cx_abortSignal cx of None \<Rightarrow> False | Some s \<Rightarrow> rn_aborted rn s (wd_tick w))"

definition step_cancelled :: "string \<Rightarrow> string \<Rightarrow> js_error" where
  "step_cancelled m propagation = Js_Error StepCancelledError m [propagation]"

definition runWithTimeout :: "env \<Rightarrow> runner \<Rightarrow> role_execution_context \<Rightarrow> string \<Rightarrow> 'a raced run \<Rightarrow> 'a run" where
  "runWithTimeout ev rn cx message m =
     bindA (is_aborted rn cx) (\<lambda>aborted.
       if aborted then throw (step_cancelled ''Operation cancelled by parent signal'' ''cancellation_requested'')
       else bindA m (\<lambda>x. case x of
              Settled r \<Rightarrow> liftA r
            | Timed_Out elapsed \<Rightarrow> throw (Js_Error StepTimeoutError message [int_to_string elapsed])
            | Abort_Error _ \<Rightarrow> throw (step_cancelled ''Operation aborted'' ''cancelled'')))"

definition statusForRunStepFailure :: "js_error \<Rightarrow> run_step_status" where
  "statusForRunStepFailure e =
     (if error_class e = StepTimeoutError then Step_Timed_Out
      else if error_class e = StepCancelledError
      then (if error_details e = [''cancellation_requested''] then Step_Cancellation_Requested else Step_Cancelled)
      else Step_Failed)"

section \<open>Tools\<close>

text \<open>A call of an agent or a tool, which is logged.\<close>

definition outside :: "outside_effect \<Rightarrow> (nat \<Rightarrow> 'a) \<Rightarrow> 'a run" where
  "outside e f w = (Inr (f (wd_tick w)), w\<lparr>wd_tick := Suc (wd_tick w), wd_effects := wd_effects w @ [e]\<rparr>)"

definition tool_outcome :: "tool_call_name \<Rightarrow> (tool_failure + json) raced \<Rightarrow> json raced" where
  "tool_outcome name x = (case x of
     Settled (Inr (Inr out)) \<Rightarrow> Settled (Inr out)
   | Settled (Inr (Inl f)) \<Rightarrow> Settled (Inl (policy_violation (tf_message f)
       [''TOOL_ERROR_ENVELOPE'', tf_category f, tf_code f, tool_name_text name]))
   | Settled (Inl e) \<Rightarrow> Settled (Inl e) | Timed_Out t \<Rightarrow> Timed_Out t | Abort_Error m \<Rightarrow> Abort_Error m)"

definition executeTool :: "env \<Rightarrow> runner \<Rightarrow> role_execution_context \<Rightarrow> tool_request \<Rightarrow> json raced run" where
  "executeTool ev rn cx rq =
     thenA (require_valid ev)
       (bindA (outside (Eff_Tool (tr_toolName rq)) (\<lambda>n. rn_tools rn n (tr_toolName rq) (tr_input rq) (cx_toolExecution cx)))
          (\<lambda>x. ret (tool_outcome (tr_toolName rq) x)))"

definition tool_record :: "role_execution_context \<Rightarrow> agent_role \<Rightarrow> tool_request \<Rightarrow> json \<Rightarrow> run_step_status \<Rightarrow> int \<Rightarrow> record_input" where
  "tool_record cx role rq out status duration =
     \<lparr> ri_run = cx_runId cx, ri_task = when_truthy (cx_taskId cx), ri_role = role_text role,
       ri_tool = Some (tool_name_text (tr_toolName rq)),
       ri_input = JObj (rec_set ''workspaceRoot'' (JStr (tx_workspaceRoot (cx_toolExecution cx))) (tr_input rq)),
       ri_output = out, ri_status = status, ri_duration = duration \<rparr>"

definition invokeToolRequest :: "env \<Rightarrow> runner \<Rightarrow> role_execution_context \<Rightarrow> agent_role \<Rightarrow> nat \<Rightarrow> tool_request \<Rightarrow> observation run" where
  "invokeToolRequest ev rn cx role step rq =
     bindA (clock ev) (\<lambda>created. bindA (date_now ev) (\<lambda>started.
       catchA
         (bindA (runWithTimeout ev rn cx (''Tool '' @ tool_name_text (tr_toolName rq) @ '' timed out at step '' @ nat_to_string step)
                   (executeTool ev rn cx rq)) (\<lambda>out.
          bindA (date_now ev) (\<lambda>finished.
          thenA (record_step ev (tool_record cx role rq out Step_Succeeded (finished - started)))
         (thenA (liftA (estimateObservationTokens out))
            (ret \<lparr> ob_step = step, ob_tool = tr_toolName rq, ob_ok = True, ob_output = out, ob_error = None, ob_created = created \<rparr>)))))
         (\<lambda>e. bindA (date_now ev) (\<lambda>finished.
          thenA (record_step ev (tool_record cx role rq (JStr (error_message e)) (statusForRunStepFailure e) (finished - started)))
            (ret \<lparr> ob_step = step, ob_tool = tr_toolName rq, ob_ok = False, ob_output = JUndefined,
                   ob_error = Some (error_message e), ob_created = created \<rparr>)))))"


section \<open>The action loop\<close>

definition stepLimit :: "runner \<Rightarrow> nat" where
  "stepLimit rn = max 1 (or_default (rn_maxRoleSteps rn) (rn_maxStepsPerRun rn))"

definition bool_text :: "bool \<Rightarrow> string" where
  "bool_text b = (if b then ''true'' else ''false'')"

text \<open>The payload of the loop's events; \<open>null\<close> is the empty list.\<close>

definition step_payload :: "role_execution_context \<Rightarrow> agent_role \<Rightarrow> nat \<Rightarrow> tool_call_name \<Rightarrow> string list jsrec" where
  "step_payload cx role step tool =
     [(''role'', [role_text role]), (''taskId'', case cx_taskId cx of None \<Rightarrow> [] | Some t \<Rightarrow> [t]),
      (''step'', [nat_to_string step]), (''toolName'', [tool_name_text tool])]"

definition agent_step :: "env \<Rightarrow> runner \<Rightarrow> role_execution_context \<Rightarrow> agent \<Rightarrow> role_request \<Rightarrow>
    (nat \<Rightarrow> role_request \<Rightarrow> role_execution_context \<Rightarrow> observation list \<Rightarrow> step_result raced) \<Rightarrow> nat \<Rightarrow> observation list \<Rightarrow> step_result run" where
  "agent_step ev rn cx ag rq executeStep step observations =
     runWithTimeout ev rn cx (''Role '' @ role_text (ag_name ag) @ '' timed out at step '' @ nat_to_string step)
       (outside (Eff_Role (ag_name ag)) (\<lambda>n. executeStep n rq cx observations))"

definition tool_step :: "env \<Rightarrow> runner \<Rightarrow> role_execution_context \<Rightarrow> agent \<Rightarrow> nat \<Rightarrow> tool_request \<Rightarrow> observation run" where
  "tool_step ev rn cx ag step tr =
     (let role = ag_name ag; run = cx_runId cx in
      thenA (record_event ev ROLE_TOOL_REQUESTED (step_payload cx role step (tr_toolName tr) @ [(''rationale'', [tr_rationale tr])]) run)
     (bindA (invokeToolRequest ev rn cx role step tr) (\<lambda>ob.
      thenA (record_event ev ROLE_OBSERVATION_RECORDED (step_payload cx role step (ob_tool ob) @ [(''ok'', [bool_text (ob_ok ob)])]) run)
     (thenA (whenA (rn_persistToolEvidence rn)
        (record_event ev TOOL_EVIDENCE_RECORDED
           (step_payload cx role step (ob_tool ob) @ [(''ok'', [bool_text (ob_ok ob)]), (''details'', [summarizeObservation ob])]) run))
      (ret ob)))))"

text \<open>The loop, on the number of steps that are left: \<open>step = limit - left + 1\<close>.\<close>

fun role_loop :: "env \<Rightarrow> runner \<Rightarrow> role_execution_context \<Rightarrow> agent \<Rightarrow> role_request \<Rightarrow>
    (nat \<Rightarrow> role_request \<Rightarrow> role_execution_context \<Rightarrow> observation list \<Rightarrow> step_result raced) \<Rightarrow> int \<Rightarrow> nat \<Rightarrow> nat \<Rightarrow> observation list \<Rightarrow>
    role_output role_response run" where
  "role_loop ev rn cx ag rq executeStep started 0 step observations =
     throw (policy_violation (''Role '' @ role_text (ag_name ag) @ '' exceeded action loop step limit'')
       [role_text (ag_name ag), nat_to_string (stepLimit rn)])"
| "role_loop ev rn cx ag rq executeStep started (Suc left) step observations =
     bindA (date_now ev) (\<lambda>now.
       if (case rn_maxRoleWallTimeMs rn of None \<Rightarrow> False | Some m \<Rightarrow> m \<le> now - started)
       then throw (policy_violation (''Role '' @ role_text (ag_name ag) @ '' exhausted action loop wall-time budget'')
              [role_text (ag_name ag), nat_to_string step, ''budget_exhausted''])
       else bindA (is_aborted rn cx) (\<lambda>aborted.
         if aborted
         then throw (policy_violation (''Role '' @ role_text (ag_name ag) @ '' cancelled before step '' @ nat_to_string step)
                [role_text (ag_name ag), nat_to_string step, ''cancelled''])
         else bindA (agent_step ev rn cx ag rq executeStep step observations) (\<lambda>r.
           case r of Final_Output resp \<Rightarrow> ret resp
           | Tool_Requested tr \<Rightarrow> bindA (tool_step ev rn cx ag step tr) (\<lambda>ob.
               role_loop ev rn cx ag rq executeStep started left (step + 1) (observations @ [ob])))))"

definition executeRoleWithLoop :: "env \<Rightarrow> runner \<Rightarrow> role_execution_context \<Rightarrow> agent \<Rightarrow> role_request \<Rightarrow> role_output role_response run" where
  "executeRoleWithLoop ev rn cx ag rq =
     (case ag_executeStep ag of
        None \<Rightarrow> runWithTimeout ev rn cx (''Role '' @ role_text (ag_name ag) @ '' timed out while generating output'')
                  (outside (Eff_Role (ag_name ag)) (\<lambda>n. ag_execute ag n rq cx))
      | Some executeStep \<Rightarrow> bindA (date_now ev) (\<lambda>started.
          role_loop ev rn cx ag rq executeStep started (stepLimit rn) 1 []))"

section \<open>Executing a role\<close>

definition validateRoleResult :: "agent_role \<Rightarrow> role_output role_response \<Rightarrow> unit result" where
  "validateRoleResult role r = (let issues = role_result_issues role r in
     if issues = [] then Inr ()
     else Inl (Js_Error SchemaValidationError ''Role response registry validation failed'' (role_text role # issues)))"

definition check_response :: "agent \<Rightarrow> role_request \<Rightarrow> role_output role_response \<Rightarrow> unit result" where
  "check_response ag rq r =
     (case (case ag_validate ag of None \<Rightarrow> Inr () | Some f \<Rightarrow> f r) of
        Inl e \<Rightarrow> Inl e | Inr _ \<Rightarrow> validateRoleResult (rq_role rq) r)"

definition role_record :: "runner \<Rightarrow> role_execution_context \<Rightarrow> agent \<Rightarrow> role_request \<Rightarrow> json \<Rightarrow> run_step_status \<Rightarrow> int \<Rightarrow> record_input" where
  "role_record rn cx ag rq out status duration =
     \<lparr> ri_run = cx_runId cx, ri_task = when_truthy (cx_taskId cx), ri_role = role_text (ag_name ag), ri_tool = Some ''role.execute'',
       ri_input = rn_input_json rn (rq_input rq), ri_output = out, ri_status = status, ri_duration = duration \<rparr>"

text \<open>The record of an accepted answer and its cost, then the answer.\<close>

definition accept_response :: "env \<Rightarrow> runner \<Rightarrow> role_execution_context \<Rightarrow> agent \<Rightarrow> role_request \<Rightarrow> int \<Rightarrow>
    role_output role_response \<Rightarrow> role_output role_response run" where
  "accept_response ev rn cx ag rq started r =
     (let out = rn_output_json rn (resp_output r) in
      bindA (date_now ev) (\<lambda>finished.
      thenA (record_step ev (role_record rn cx ag rq out Step_Succeeded (finished - started)))
     (bindA (liftA (estimateObservationTokens out)) (\<lambda>n.
      thenA (set_cost (recordTokenUsage rn (resolveModelForRole rn (rq_role rq)) n))
      (ret r)))))"

definition second_attempt :: "env \<Rightarrow> runner \<Rightarrow> role_execution_context \<Rightarrow> agent \<Rightarrow> role_request \<Rightarrow> int \<Rightarrow> role_output role_response run" where
  "second_attempt ev rn cx ag rq started =
     bindA (executeRoleWithLoop ev rn cx ag rq) (\<lambda>r.
       case check_response ag rq r of
         Inl e \<Rightarrow> bindA (date_now ev) (\<lambda>finished.
            thenA (record_step ev (role_record rn cx ag rq (JStr (error_message e)) Step_Failed (finished - started)))
              (throw (Js_Error SchemaValidationError ''Role response schema validation failed'' [])))
       | Inr _ \<Rightarrow> accept_response ev rn cx ag rq started r)"

definition role_execute :: "env \<Rightarrow> runner \<Rightarrow> agent \<Rightarrow> role_request \<Rightarrow> role_execution_context \<Rightarrow> role_output role_response run" where
  "role_execute ev rn ag rq cx =
     (let model = resolveModelForRole rn (rq_role rq) in
      bindA (date_now ev) (\<lambda>started.
      thenA (bindA (getA wd_cost) (\<lambda>c. liftA (enforceBudgets rn model (rq_role rq) c)))
     (bindA (liftA (estimateObservationTokens (rn_input_json rn (rq_input rq)))) (\<lambda>n.
      thenA (set_cost (recordTokenUsage rn model n))
     (bindA (executeRoleWithLoop ev rn cx ag rq) (\<lambda>r.
       catchA (thenA (liftA (check_response ag rq r)) (accept_response ev rn cx ag rq started r))
         (\<lambda>_. second_attempt ev rn cx ag rq started)))))))"


section \<open>What running a role leaves alone, and how often it calls out\<close>

text \<open>\<open>calls ag a b v w\<close>: between \<open>v\<close> and \<open>w\<close> at most \<open>a\<close> calls of the agent and \<open>b\<close> calls of tools were made, and
  nothing else outside; the run's state object, and the revision and the policy decisions of the store are the same.\<close>

definition calls :: "agent \<Rightarrow> nat \<Rightarrow> nat \<Rightarrow> world \<Rightarrow> world \<Rightarrow> bool" where
  "calls ag a b v w = (\<exists>es. wd_effects w = wd_effects v @ es \<and> set es \<subseteq> {Eff_Role (ag_name ag)} \<union> range Eff_Tool \<and>
     length (filter (\<lambda>e. e = Eff_Role (ag_name ag)) es) \<le> a \<and> length (filter (\<lambda>e. e \<noteq> Eff_Role (ag_name ag)) es) \<le> b \<and>
     wd_state w = wd_state v \<and> ps_revision (wd_stored w) = ps_revision (wd_stored v) \<and>
     ps_policyDecisions (wd_stored w) = ps_policyDecisions (wd_stored v))"

lemma calls_refl: "calls ag a b v v"
  by (simp add: calls_def)

lemma calls_trans: "calls ag a b u v \<Longrightarrow> calls ag a' b' v w \<Longrightarrow> calls ag (a + a') (b + b') u w"
  unfolding calls_def by fastforce

lemma calls_mono: "calls ag a b v w \<Longrightarrow> a \<le> a' \<Longrightarrow> b \<le> b' \<Longrightarrow> calls ag a' b' v w"
  unfolding calls_def by (meson order_trans)

interpretation silent: frame "calls ag 0 0" for ag
  by unfold_locales (auto intro: calls_refl dest: calls_trans[where a = 0 and b = 0 and a' = 0 and b' = 0])

named_theorems silent_intros \<open>runs that call nothing\<close>

lemmas [silent_intros] = silent.keeps_intros

lemma calls_same: "wd_effects w = wd_effects v \<Longrightarrow> wd_state w = wd_state v \<Longrightarrow> ps_revision (wd_stored w) = ps_revision (wd_stored v) \<Longrightarrow>
    ps_policyDecisions (wd_stored w) = ps_policyDecisions (wd_stored v) \<Longrightarrow> calls ag a b v w"
  by (simp add: calls_def)

lemma silent_steps [silent_intros]:
  "keeps (calls ag 0 0) (clock ev)" "keeps (calls ag 0 0) (date_now ev)" "keeps (calls ag 0 0) (is_aborted rn cx)"
  "keeps (calls ag 0 0) (set_cost f)"
  unfolding date_now_def is_aborted_def set_cost_def by (rule keepsI; simp add: wp_simps calls_same)+

lemma silent_require_valid [silent_intros]: "keeps (calls ag 0 0) (require_valid ev)"
  by (rule keepsI, rule wp_require_valid) (simp_all add: calls_same)

lemma silent_record_event [silent_intros]: "keeps (calls ag 0 0) (record_event ev ty payload run)"
  unfolding record_event_def by (rule keepsI) (auto simp: wp_simps calls_same intro!: wp_protected)

lemma silent_record_step [silent_intros]: "keeps (calls ag 0 0) (record_step ev i)"
  by (rule keepsI, rule wp_record_step) (auto simp: calls_same Let_def append_step_def)

text \<open>Composition: a step, then the rest.\<close>

lemma wp_calls_bind:
  assumes "wp m (\<lambda>x u. calls ag a b w u \<and> P x) (\<lambda>_. calls ag a b w) w"
    and "\<And>x u. P x \<Longrightarrow> wp (f x) (\<lambda>y v. calls ag a' b' u v \<and> Q y) (\<lambda>_. calls ag a' b' u) u"
  shows "wp (bindA m f) (\<lambda>y v. calls ag (a + a') (b + b') w v \<and> Q y) (\<lambda>_. calls ag (a + a') (b + b') w) w"
  unfolding wp_bindA
proof (rule wp_mono[OF assms(1)])
  fix x u assume u: "calls ag a b w u \<and> P x"
  show "wp (f x) (\<lambda>y v. calls ag (a + a') (b + b') w v \<and> Q y) (\<lambda>_. calls ag (a + a') (b + b') w) u"
    by (rule wp_mono[OF assms(2)]) (use u calls_trans in blast)+
qed (auto intro: calls_mono)

lemma wp_silent_bind:
  assumes "keeps (calls ag 0 0) m" and "\<And>x u. wp (f x) (\<lambda>y v. calls ag a b u v \<and> Q y) (\<lambda>_. calls ag a b u) u"
  shows "wp (bindA m f) (\<lambda>y v. calls ag a b w v \<and> Q y) (\<lambda>_. calls ag a b w) w"
proof -
  have "wp m (\<lambda>x u. calls ag 0 0 w u \<and> True) (\<lambda>_. calls ag 0 0 w) w" using keepsD[OF assms(1)] by simp
  from wp_calls_bind[OF this assms(2)] show ?thesis by simp
qed

lemma wp_calls_true: "wp m (\<lambda>_. calls ag a b w) (\<lambda>_. calls ag a b w) w \<Longrightarrow>
    wp m (\<lambda>x u. calls ag a b w u \<and> True) (\<lambda>_. calls ag a b w) w"
  by simp

lemma wp_runWithTimeout:
  assumes "wp m (\<lambda>_. calls ag a b w) (\<lambda>_. calls ag a b w) w"
  shows "wp (runWithTimeout ev rn cx msg m) (\<lambda>_. calls ag a b w) (\<lambda>_. calls ag a b w) w"
  unfolding runWithTimeout_def is_aborted_def
  by (auto simp: wp_simps calls_refl intro!: wp_mono[OF assms] split: raced.split sum.split)

lemma wp_outside:
  "wp (outside (Eff_Role (ag_name ag)) f) (\<lambda>_. calls ag 1 0 w) (\<lambda>_. calls ag 1 0 w) w"
  "wp (outside (Eff_Tool t) g) (\<lambda>_. calls ag 0 1 w) (\<lambda>_. calls ag 0 1 w) w"
  by (auto simp: wp_def outside_def calls_def)


lemma wp_silent_then:
  assumes "keeps (calls ag 0 0) m" and "\<And>u. wp k (\<lambda>y v. calls ag a b u v \<and> Q y) (\<lambda>_. calls ag a b u) u"
  shows "wp (thenA m k) (\<lambda>y v. calls ag a b w v \<and> Q y) (\<lambda>_. calls ag a b w) w"
  unfolding thenA_def by (rule wp_silent_bind[OF assms])

lemma wp_keeps_calls: "keeps (calls ag 0 0) m \<Longrightarrow> (\<And>x. Q x) \<Longrightarrow>
    wp m (\<lambda>x u. calls ag a b w u \<and> Q x) (\<lambda>_. calls ag a b w) w"
  by (rule wp_mono[OF keepsD[where R = "calls ag 0 0"]]) (auto intro: calls_mono)

lemma wp_executeTool: "wp (executeTool ev rn cx rq) (\<lambda>_. calls ag 0 1 w) (\<lambda>_. calls ag 0 1 w) w"
proof -
  have "wp (executeTool ev rn cx rq) (\<lambda>x u. calls ag 0 1 w u \<and> True) (\<lambda>_. calls ag 0 1 w) w"
    unfolding executeTool_def
    by (rule wp_silent_then[OF silent_require_valid], unfold wp_bindA, rule wp_mono[OF wp_outside(2)])
      (simp_all add: wp_ret)
  then show ?thesis by simp
qed

lemma wp_invokeToolRequest: "wp (invokeToolRequest ev rn cx role step rq) (\<lambda>x u. calls ag 0 1 w u \<and> True) (\<lambda>_. calls ag 0 1 w) w"
  unfolding invokeToolRequest_def
proof (intro wp_silent_bind silent_steps, unfold wp_catchA, goal_cases)
  case (1 created u started v)
  have h: "wp (bindA (date_now ev) (\<lambda>finished. thenA (record_step ev (i finished)) k))
      (\<lambda>x t. calls ag 0 1 v t \<and> True) (\<lambda>_. calls ag 0 1 v) t" if "calls ag 0 1 v t" and "keeps (calls ag 0 0) k" for i k t
  proof -
    have "keeps (calls ag 0 0) (bindA (date_now ev) (\<lambda>finished. thenA (record_step ev (i finished)) k))"
      by (intro silent_intros that(2))
    from keepsD[OF this] show ?thesis
      by (rule wp_mono) (use calls_trans[OF that(1)] in force)+
  qed
  show ?case
    unfolding wp_bindA[of "runWithTimeout _ _ _ _ _"]
    by (rule wp_mono[OF wp_runWithTimeout[OF wp_executeTool[where ag = ag]]])
      (auto intro!: h wp_mono[OF h] silent_intros)
qed

lemma wp_tool_step: "wp (tool_step ev rn cx ag step tr) (\<lambda>x u. calls ag 0 1 w u \<and> True) (\<lambda>_. calls ag 0 1 w) w"
  unfolding tool_step_def Let_def
proof (rule wp_silent_then[OF silent_record_event])
  fix u
  have q: "keeps (calls ag 0 0) (thenA (record_event ev ty1 p1 r1) (thenA (whenA b (record_event ev ty2 p2 r2)) (ret x)))"
    for ty1 p1 r1 b ty2 p2 r2 and x :: observation
    by (intro silent_intros)
  show "wp (bindA (invokeToolRequest ev rn cx (ag_name ag) step tr) (\<lambda>ob.
      thenA (record_event ev ROLE_OBSERVATION_RECORDED (step_payload cx (ag_name ag) step (ob_tool ob) @ [(''ok'', [bool_text (ob_ok ob)])]) (cx_runId cx))
     (thenA (whenA (rn_persistToolEvidence rn)
        (record_event ev TOOL_EVIDENCE_RECORDED
           (step_payload cx (ag_name ag) step (ob_tool ob) @ [(''ok'', [bool_text (ob_ok ob)]), (''details'', [summarizeObservation ob])]) (cx_runId cx)))
      (ret ob)))) (\<lambda>x v. calls ag 0 1 u v \<and> True) (\<lambda>_. calls ag 0 1 u) u"
    using wp_calls_bind[OF wp_invokeToolRequest wp_keeps_calls[OF q], where a' = 0 and b' = 0] by simp
qed

lemma wp_agent_step:
  "wp (agent_step ev rn cx ag rq f step obs) (\<lambda>x u. calls ag 1 0 w u \<and> True) (\<lambda>_. calls ag 1 0 w) w"
  unfolding agent_step_def using wp_runWithTimeout[OF wp_outside(1)] by simp

lemma wp_role_loop:
  "wp (role_loop ev rn cx ag rq f started left step obs) (\<lambda>x u. calls ag left left w u \<and> True) (\<lambda>_. calls ag left left w) w"
proof (induction left arbitrary: step obs w)
  case 0
  then show ?case by (simp add: wp_throw calls_refl)
next
  case (Suc left)
  have tool: "wp (bindA (tool_step ev rn cx ag step tr) (\<lambda>ob. role_loop ev rn cx ag rq f started left (step + 1) (obs @ [ob])))
      (\<lambda>y v. calls ag left (Suc left) u v \<and> True) (\<lambda>_. calls ag left (Suc left) u) u" for tr u
    using wp_calls_bind[OF wp_tool_step Suc.IH] by simp
  have rest: "wp (case r of Final_Output resp \<Rightarrow> ret resp
           | Tool_Requested tr \<Rightarrow> bindA (tool_step ev rn cx ag step tr) (\<lambda>ob.
               role_loop ev rn cx ag rq f started left (step + 1) (obs @ [ob])))
      (\<lambda>y v. calls ag left (Suc left) u v \<and> True) (\<lambda>_. calls ag left (Suc left) u) u" for r u
    using tool by (cases r) (simp_all add: wp_ret calls_refl)
  have "wp (bindA (agent_step ev rn cx ag rq f step obs) (\<lambda>r. case r of Final_Output resp \<Rightarrow> ret resp
           | Tool_Requested tr \<Rightarrow> bindA (tool_step ev rn cx ag step tr) (\<lambda>ob.
               role_loop ev rn cx ag rq f started left (step + 1) (obs @ [ob]))))
      (\<lambda>y v. calls ag (Suc left) (Suc left) u v \<and> True) (\<lambda>_. calls ag (Suc left) (Suc left) u) u" for u
    using wp_calls_bind[OF wp_agent_step rest] by simp
  then show ?case
    unfolding role_loop.simps
    by (intro wp_silent_bind silent_steps) (auto simp: wp_throw calls_refl intro!: wp_silent_bind[where Q = "\<lambda>_. True", simplified] silent_steps)
qed

lemma wp_executeRoleWithLoop:
  "wp (executeRoleWithLoop ev rn cx ag rq) (\<lambda>x u. calls ag (stepLimit rn) (stepLimit rn) w u \<and> True)
     (\<lambda>_. calls ag (stepLimit rn) (stepLimit rn) w) w"
proof (cases "ag_executeStep ag")
  case None
  have "1 \<le> stepLimit rn" by (simp add: stepLimit_def)
  then show ?thesis
    unfolding executeRoleWithLoop_def None option.case
    by (intro wp_mono[OF wp_runWithTimeout[OF wp_outside(1)]]) (auto intro: calls_mono)
next
  case (Some f)
  show ?thesis
    unfolding executeRoleWithLoop_def Some option.case by (intro wp_silent_bind silent_steps wp_role_loop)
qed

lemma wp_accept_response:
  "wp (accept_response ev rn cx ag rq started r) (\<lambda>x u. calls ag 0 0 w u \<and> x = r) (\<lambda>_. calls ag 0 0 w) w"
  unfolding accept_response_def Let_def
  by (intro wp_silent_bind wp_silent_then silent_intros) (simp add: wp_ret calls_refl)

lemma wp_second_attempt:
  "wp (second_attempt ev rn cx ag rq started) (\<lambda>x u. calls ag (stepLimit rn) (stepLimit rn) w u \<and> check_response ag rq x = Inr ())
     (\<lambda>_. calls ag (stepLimit rn) (stepLimit rn) w) w"
proof -
  have refuse: "wp (bindA (date_now ev) (\<lambda>finished. thenA (record_step ev (i finished)) (throw e)))
      (\<lambda>x u. calls ag 0 0 v u \<and> P x) (\<lambda>_. calls ag 0 0 v) v" for i e v P
    by (intro wp_silent_bind wp_silent_then silent_steps silent_record_step) (simp add: wp_throw calls_refl)
  have rest: "wp (case check_response ag rq r of
         Inl e \<Rightarrow> bindA (date_now ev) (\<lambda>finished.
            thenA (record_step ev (role_record rn cx ag rq (JStr (error_message e)) Step_Failed (finished - started)))
              (throw (Js_Error SchemaValidationError ''Role response schema validation failed'' [])))
       | Inr _ \<Rightarrow> accept_response ev rn cx ag rq started r)
      (\<lambda>x u. calls ag 0 0 v u \<and> check_response ag rq x = Inr ()) (\<lambda>_. calls ag 0 0 v) v" for r v
    by (cases "check_response ag rq r") (auto intro: refuse intro!: wp_mono[OF wp_accept_response])
  show ?thesis
    unfolding second_attempt_def using wp_calls_bind[OF wp_executeRoleWithLoop rest] by simp
qed

lemma wp_role_execute:
  "wp (role_execute ev rn ag rq cx)
     (\<lambda>x u. calls ag (2 * stepLimit rn) (2 * stepLimit rn) w u \<and> check_response ag rq x = Inr ())
     (\<lambda>_. calls ag (2 * stepLimit rn) (2 * stepLimit rn) w) w"
proof -
  let ?L = "stepLimit rn"
  have answer: "wp (thenA (liftA (check_response ag rq r)) (accept_response ev rn cx ag rq started r))
      (\<lambda>x u. calls ag 0 0 v u \<and> check_response ag rq x = Inr ()) (\<lambda>_. calls ag 0 0 v) v" for r started v
    by (cases "check_response ag rq r") (auto simp: wp_simps calls_refl intro!: wp_mono[OF wp_accept_response])
  have rest: "wp (catchA (thenA (liftA (check_response ag rq r)) (accept_response ev rn cx ag rq started r))
         (\<lambda>_. second_attempt ev rn cx ag rq started))
      (\<lambda>x u. calls ag ?L ?L v u \<and> check_response ag rq x = Inr ()) (\<lambda>_. calls ag ?L ?L v) v" for r started v
    unfolding wp_catchA
  proof (rule wp_mono[OF answer])
    fix e u assume u: "calls ag 0 0 v u"
    show "wp (second_attempt ev rn cx ag rq started) (\<lambda>x u. calls ag ?L ?L v u \<and> check_response ag rq x = Inr ())
        (\<lambda>_. calls ag ?L ?L v) u"
      by (rule wp_mono[OF wp_second_attempt]) (use calls_trans[OF u] in force)+
  qed (auto intro: calls_mono)
  have budget: "keeps (calls ag 0 0) (bindA (getA wd_cost) (\<lambda>c. liftA (g c)))" for g
    by (intro silent_intros)
  show ?thesis
    unfolding role_execute_def Let_def mult_2
    by (intro wp_silent_bind wp_silent_then budget silent_intros wp_calls_bind[OF wp_executeRoleWithLoop rest])
qed

text \<open>C19. The calls of a role are bounded and its answer is checked. \<open>RoleRunner.execute\<close> calls the agent at most
  twice the step limit, and the tools at most twice the step limit, whatever the agent answers, whatever the tools do
  and whatever error ends it; it makes no other call outside, leaves the state object of the run alone, and neither the
  revision nor the policy decisions of the store change. When it returns an answer, the agent's own validation and the
  registry have accepted that very answer; an answer that they refuse twice is never returned.\<close>

theorem role_execution_bounded:
  "calls ag (2 * stepLimit rn) (2 * stepLimit rn) w (snd (role_execute ev rn ag rq cx w)) \<and>
   (case fst (role_execute ev rn ag rq cx w) of Inr resp \<Rightarrow> check_response ag rq resp = Inr () | Inl _ \<Rightarrow> True)"
  using wp_role_execute[of ev rn ag rq cx w] by (auto simp: wp_def split: sum.splits)

text \<open>An exhausted budget stops a role before it starts. When the tokens of the task, the tokens of the run or the
  cost of the run have reached their budget, \<open>execute\<close> throws the budget's error; nothing is called, nothing is
  recorded and the cost counters do not move, so every later role of the run is refused too.\<close>

theorem exhausted_budget_refuses:
  assumes "enforceBudgets rn (resolveModelForRole rn (rq_role rq)) (rq_role rq) (wd_cost w) = Inl e"
  shows "\<exists>t. role_execute ev rn ag rq cx w = (Inl e, w\<lparr>wd_tick := t\<rparr>)"
  using assms
  by (auto simp: role_execute_def Let_def date_now_def clock_def bindA_def thenA_def getA_def liftA_def ret_def)

definition sample_runner :: runner where
  "sample_runner = \<lparr> rn_tokenBudgetPerTask = None, rn_tokenBudgetPerRun = Some 8, rn_maxRunCostUsdMicro = None, rn_costPer1k = (\<lambda>_. None),
     rn_roleModels = (\<lambda>_. None), rn_fallbackModel = None, rn_model = ''m'', rn_timeoutMs = 1000, rn_maxRoleSteps = None,
     rn_maxStepsPerRun = 3, rn_maxRoleWallTimeMs = None, rn_persistToolEvidence = False,
     rn_tools = (\<lambda>_ _ _ _. Settled (Inr (Inr JUndefined))), rn_aborted = (\<lambda>_ _. False),
     rn_input_json = (\<lambda>_. JStr ''in''), rn_output_json = (\<lambda>_. JStr ''out'') \<rparr>"

definition sample_agent :: agent where
  "sample_agent = \<lparr> ag_name = Task_Manager, ag_execute = (\<lambda>_ _ _. Timed_Out 5), ag_executeStep = None, ag_validate = None \<rparr>"

definition sample_request :: role_request where
  "sample_request = \<lparr> rq_role = Task_Manager, rq_objective = ''pick'', rq_input = In_State sample_state, rq_acceptanceCriteria = [] \<rparr>"

definition spent_world :: world where
  "spent_world = sample_world\<lparr>wd_cost := \<lparr> ct_tokensRun = 8, ct_tokensTask = 8, ct_usdMicro = 0 \<rparr>\<rparr>"

lemma exhausted_budget_refuses_witness:
  "\<forall>cx. \<exists>e t. role_execute sample_env sample_runner sample_agent sample_request cx spent_world = (Inl e, spent_world\<lparr>wd_tick := t\<rparr>)"
proof -
  have "\<exists>e. enforceBudgets sample_runner (resolveModelForRole sample_runner (rq_role sample_request)) (rq_role sample_request)
      (wd_cost spent_world) = Inl e"
    by (simp add: enforceBudgets_def over_budget_def sample_runner_def spent_world_def)
  then obtain e where "enforceBudgets sample_runner (resolveModelForRole sample_runner (rq_role sample_request)) (rq_role sample_request)
      (wd_cost spent_world) = Inl e" by blast
  from exhausted_budget_refuses[OF this, of sample_env sample_agent] show ?thesis by blast
qed

section \<open>Where an accepted answer comes from\<close>

text \<open>\<open>answered ag rq r\<close>: the agent has given the answer \<open>r\<close> to the request, in one call or as the last step of a loop.\<close>

definition answered :: "agent \<Rightarrow> role_request \<Rightarrow> role_output role_response \<Rightarrow> bool" where
  "answered ag rq r \<longleftrightarrow> (\<exists>n cx. ag_execute ag n rq cx = Settled (Inr r)) \<or>
     (\<exists>f n cx obs. ag_executeStep ag = Some f \<and> f n rq cx obs = Settled (Inr (Final_Output r)))"

definition accepted :: "agent \<Rightarrow> role_request \<Rightarrow> role_output \<Rightarrow> bool" where
  "accepted ag rq out \<longleftrightarrow> (\<exists>r. answered ag rq r \<and> check_response ag rq r = Inr () \<and> resp_output r = out)"

lemma wp_any_bind: "(\<And>x u. wp (f x) Q (\<lambda>_ _. True) u) \<Longrightarrow> wp (bindA m f) Q (\<lambda>_ _. True) w"
  unfolding wp_bindA by (rule wp_mono[OF wp_true]) auto

lemma wp_any_then: "(\<And>u. wp k Q (\<lambda>_ _. True) u) \<Longrightarrow> wp (thenA m k) Q (\<lambda>_ _. True) w"
  unfolding thenA_def by (rule wp_any_bind)

lemma answeredI:
  "ag_execute ag n rq cx = Settled (Inr r) \<Longrightarrow> answered ag rq r"
  "ag_executeStep ag = Some f \<Longrightarrow> f n rq cx obs = Settled (Inr (Final_Output r)) \<Longrightarrow> answered ag rq r"
  by (auto simp: answered_def)

lemma wp_outside_call: "wp (outside e f) Q E w = Q (f (wd_tick w)) (w\<lparr>wd_tick := Suc (wd_tick w), wd_effects := wd_effects w @ [e]\<rparr>)"
  by (simp add: wp_def outside_def)

lemma wp_call_answer: "wp (runWithTimeout ev rn cx msg (outside e f)) (\<lambda>x _. \<exists>n. f n = Settled (Inr x)) (\<lambda>_ _. True) w"
  unfolding runWithTimeout_def is_aborted_def
  by (auto simp: wp_simps wp_outside_call split: raced.split sum.split)

lemma wp_loop_answer:
  "ag_executeStep ag = Some f \<Longrightarrow> wp (role_loop ev rn cx ag rq f started left step obs) (\<lambda>r _. answered ag rq r) (\<lambda>_ _. True) w"
proof (induction left arbitrary: step obs w)
  case (Suc left)
  have final: "wp (agent_step ev rn cx ag rq f step obs) (\<lambda>x _. \<exists>n. f n rq cx obs = Settled (Inr x)) (\<lambda>_ _. True) u" for u
    unfolding agent_step_def by (rule wp_mono[OF wp_call_answer]) auto
  have go: "wp (bindA (agent_step ev rn cx ag rq f step obs) (\<lambda>r. case r of Final_Output resp \<Rightarrow> ret resp
           | Tool_Requested tr \<Rightarrow> bindA (tool_step ev rn cx ag step tr) (\<lambda>ob.
               role_loop ev rn cx ag rq f started left (step + 1) (obs @ [ob])))) (\<lambda>r _. answered ag rq r) (\<lambda>_ _. True) u" for u
    unfolding wp_bindA[of "agent_step _ _ _ _ _ _ _ _"]
    by (rule wp_mono[OF final]) (auto simp: wp_ret split: step_result.split intro!: wp_any_bind Suc.IH[OF Suc.prems] answeredI(2)[OF Suc.prems])
  then show ?case by (auto simp: wp_throw intro!: wp_any_bind)
qed (simp add: wp_throw)

lemma wp_execute_answer: "wp (executeRoleWithLoop ev rn cx ag rq) (\<lambda>r _. answered ag rq r) (\<lambda>_ _. True) w"
  unfolding executeRoleWithLoop_def
  by (cases "ag_executeStep ag") (auto intro: answeredI(1) intro!: wp_any_bind wp_loop_answer wp_mono[OF wp_call_answer])

lemma wp_accept_answer: "wp (accept_response ev rn cx ag rq started r) (\<lambda>x _. x = r) (\<lambda>_ _. True) w"
  by (rule wp_mono[OF wp_accept_response]) auto

lemma wp_role_answer: "wp (role_execute ev rn ag rq cx) (\<lambda>r _. accepted ag rq (resp_output r)) (\<lambda>_ _. True) w"
proof -
  have second: "wp (second_attempt ev rn cx ag rq started) (\<lambda>r _. accepted ag rq (resp_output r)) (\<lambda>_ _. True) u" for started u
    unfolding second_attempt_def wp_bindA[of "executeRoleWithLoop _ _ _ _ _"]
    by (rule wp_mono[OF wp_execute_answer])
      (auto simp: accepted_def wp_throw split: sum.split intro!: wp_any_bind wp_any_then wp_mono[OF wp_accept_answer])
  have first: "wp (catchA (thenA (liftA (check_response ag rq r)) (accept_response ev rn cx ag rq started r))
      (\<lambda>_. second_attempt ev rn cx ag rq started)) (\<lambda>r _. accepted ag rq (resp_output r)) (\<lambda>_ _. True) u"
    if "answered ag rq r" for r started u
    using that second
    by (auto simp: wp_catchA wp_thenA wp_liftA accepted_def split: sum.split intro!: wp_mono[OF wp_accept_answer])
  show ?thesis
    unfolding role_execute_def Let_def
    by (rule wp_any_bind, rule wp_any_then, rule wp_any_bind, rule wp_any_then, unfold wp_bindA[of "executeRoleWithLoop _ _ _ _ _"],
        rule wp_mono[OF wp_execute_answer]) (auto intro: first)
qed

section \<open>A tool without an output\<close>

lemma calls_none: "calls ag 0 0 v w \<Longrightarrow> wd_effects w = wd_effects v"
  by (auto simp: calls_def filter_empty_conv)

lemma wp_date_now:
  "wp (date_now ev) Q E w = Q (case en_now ev (wd_tick w) of Iso t \<Rightarrow> t | Other_Text _ \<Rightarrow> 0) (w\<lparr>wd_tick := Suc (wd_tick w)\<rparr>)"
  by (simp add: date_now_def wp_simps)

lemma wp_executeTool_open:
  assumes "gd_lease (wd_guard w) = None"
  shows "wp (executeTool ev rn cx rq)
    (\<lambda>x u. (\<exists>n. x = tool_outcome (tr_toolName rq) (rn_tools rn n (tr_toolName rq) (tr_input rq) (cx_toolExecution cx))) \<and>
           wd_effects u = wd_effects w @ [Eff_Tool (tr_toolName rq)]) (\<lambda>_ _. False) w"
  using assms
  by (auto simp: wp_def executeTool_def thenA_def bindA_def require_valid_def requireLease_def clock_def in_guard_def outside_def ret_def)

text \<open>A tool that succeeds without an output is reported to its role as failed. The tool set lets \<open>file_write\<close>
  answer \<open>undefined\<close>; \<open>invokeToolRequest\<close> then records the step as succeeded, throws a \<open>TypeError\<close> when it estimates the
  tokens of the output, and records the step again as failed. So when a tool answers \<open>undefined\<close>, nothing cancels it and
  the execution holds no lease that could be lost, each invocation that returns has called the tool once, and the
  observation it gives the role says that the tool failed: a role that writes a file sees every write fail.\<close>

theorem undefined_output_reported_failed:
  assumes "\<And>n. rn_tools rn n (tr_toolName rq) (tr_input rq) (cx_toolExecution cx) = Settled (Inr (Inr JUndefined))"
    and "cx_abortSignal cx = None" and "gd_lease (wd_guard w) = None"
    and "invokeToolRequest ev rn cx role step rq w = (Inr ob, w')"
  shows "\<not> ob_ok ob \<and> ob_tool ob = tr_toolName rq \<and> wd_effects w' = wd_effects w @ [Eff_Tool (tr_toolName rq)]"
proof -
  let ?Q = "\<lambda>ob u. \<not> ob_ok ob \<and> ob_tool ob = tr_toolName rq \<and> wd_effects u = wd_effects w @ [Eff_Tool (tr_toolName rq)]"
  let ?E = "\<lambda>_ u. wd_effects u = wd_effects w @ [Eff_Tool (tr_toolName rq)]"
  have rec: "wp (record_step ev i) Q E u" if "\<And>x v. wd_effects v = wd_effects u \<Longrightarrow> Q x v" "\<And>e v. wd_effects v = wd_effects u \<Longrightarrow> E e v"
    for i Q E u
    by (rule wp_mono[OF keepsD[OF silent_record_step[where ag = sample_agent]]]) (rule that, erule calls_none)+
  have call: "wp (runWithTimeout ev rn cx m (executeTool ev rn cx rq)) (\<lambda>out u. out = JUndefined \<and> ?E () u) (\<lambda>_ _. False)
      (w\<lparr>wd_tick := t\<rparr>)" for m t
  proof -
    have "wp (executeTool ev rn cx rq) (\<lambda>x u. x = Settled (Inr JUndefined) \<and> ?E () u) (\<lambda>_ _. False) (w\<lparr>wd_tick := t\<rparr>)"
      by (rule wp_mono[OF wp_executeTool_open]) (auto simp: assms(1,3) tool_outcome_def)
    from wp_mono[OF this] show ?thesis
      by (simp add: runWithTimeout_def is_aborted_def assms(2) wp_simps)
  qed
  have good: "wp (bindA (date_now ev) (\<lambda>finished. thenA (record_step ev (i finished)) (thenA (liftA (estimateObservationTokens JUndefined)) k)))
      ?Q ?E u" if "?E () u" for i u and k :: "observation run"
    using that by (simp add: date_now_def wp_simps estimateObservationTokens_def) (intro rec; simp add: wp_simps)
  have bad: "wp (bindA (date_now ev) (\<lambda>finished. thenA (record_step ev (i finished)) (ret ob))) ?Q (\<lambda>_ _. True) u"
    if "?E () u" "\<not> ob_ok ob" "ob_tool ob = tr_toolName rq" for i u ob
    using that by (simp add: date_now_def wp_simps) (intro rec; simp add: wp_simps)
  have "wp (invokeToolRequest ev rn cx role step rq) ?Q (\<lambda>_ _. True) w"
    unfolding invokeToolRequest_def
    by (rule wp_bindA[THEN iffD2], simp add: wp_clock, rule wp_bindA[THEN iffD2], simp add: wp_date_now wp_catchA,
        rule wp_bindA[THEN iffD2], rule wp_mono[OF call]) (auto intro!: wp_mono[OF good] bad)
  then show ?thesis using assms(4) by (simp add: wp_def)
qed

definition sample_write :: tool_request where
  "sample_write = \<lparr> tr_toolName = File_Write, tr_input = [(''filePath'', JStr ''a.ts''), (''content'', JStr ''x'')], tr_rationale = ''edit'' \<rparr>"

definition sample_context :: role_execution_context where
  "sample_context = \<lparr> cx_runId = ''r'', cx_taskId = Some ''t2'', cx_role = Coder, cx_stateSummary = ''s'', cx_toolProfile = \<lparr> allowedWritePaths = [], canWriteRepo = True, canApproveChanges = False, canRunTests = False \<rparr>,
    
     cx_toolExecution = \<lparr> tx_policy = Orchestrator_Default, tx_permissionScope = Repo_Write, tx_workspaceRoot = ''w'',
       tx_evidenceSource = Runtime_Events, tx_packageManager = None, tx_qualityGateMode = None \<rparr>,
     cx_policyRules = None, cx_abortSignal = None \<rparr>"

lemma sample_call:
  assumes "gd_lease (wd_guard w) = None"
  shows "runWithTimeout sample_env sample_runner sample_context m (executeTool sample_env sample_runner sample_context sample_write) w
    = (Inr JUndefined, w\<lparr>wd_tick := Suc (Suc (wd_tick w)), wd_effects := wd_effects w @ [Eff_Tool File_Write]\<rparr>)"
  using assms
  by (simp add: runWithTimeout_def is_aborted_def executeTool_def thenA_def bindA_def getA_def require_valid_def requireLease_def clock_def
      in_guard_def outside_def ret_def liftA_def tool_outcome_def sample_context_def sample_runner_def sample_write_def)

lemma sample_now: "en_now sample_env n = Iso (int n)"
  by (simp add: sample_env_def)

lemma wp_sample_call:
  "gd_lease (wd_guard w) = None \<Longrightarrow>
   wp (runWithTimeout sample_env sample_runner sample_context m (executeTool sample_env sample_runner sample_context sample_write)) Q E w
   = Q JUndefined (w\<lparr>wd_tick := Suc (Suc (wd_tick w)), wd_effects := wd_effects w @ [Eff_Tool File_Write]\<rparr>)"
  by (simp add: wp_def sample_call)

lemma tool_record_status [simp]: "ri_status (tool_record cx role rq out st d) = st"
  by (simp add: tool_record_def)

lemma sample_recordable: "0 \<le> d \<Longrightarrow> recordable (tool_record sample_context Coder sample_write out st d)"
  by (simp add: recordable_def tool_record_def sample_context_def)

lemma undefined_output_reported_failed_witness:
  "\<exists>ob w' s t. invokeToolRequest sample_env sample_runner sample_context Coder 1 sample_write sample_world = (Inr ob, w') \<and>
     ob_tool ob = File_Write \<and> \<not> ob_ok ob \<and> wd_effects w' = [Eff_Tool File_Write] \<and>
     wd_log w' = [s, t] \<and> rs_status s = Step_Succeeded \<and> rs_status t = Step_Failed"
proof -
  have s: "wd_log sample_world = []" "wd_effects sample_world = []" "wd_tick sample_world = 0" "gd_lease (wd_guard sample_world) = None"
    by (simp_all add: sample_world_def sample_store_def sample_state_valid)
  let ?two = "\<lambda>u. \<exists>s t. wd_log u = [s, t] \<and> rs_status s = Step_Succeeded \<and> rs_status t = Step_Failed"
  have one: "wp (thenA (record_step sample_env (tool_record sample_context Coder sample_write out Step_Failed d)) (ret ob))
      (\<lambda>_. ?two) (\<lambda>_ _. False) u"
    if "ready u" "0 \<le> d" "\<exists>s. wd_log u = [s] \<and> rs_status s = Step_Succeeded" for out u d and ob :: observation
    unfolding wp_thenA by (rule wp_mono[OF wp_ready_record_step]) (use that in \<open>auto simp: wp_ret intro!: sample_recordable\<close>)
  have both: "wp (thenA (record_step sample_env (tool_record sample_context Coder sample_write JUndefined Step_Succeeded d))
        (thenA (liftA (estimateObservationTokens JUndefined)) (ret ob))) (\<lambda>_. ?two) H u"
    if "ready u" "0 \<le> d" "wd_log u = []" "1 \<le> wd_tick u"
      and "\<And>e t. error_class e = TypeError \<Longrightarrow> ready t \<Longrightarrow> 1 \<le> wd_tick t \<Longrightarrow> \<exists>s. wd_log t = [s] \<and> rs_status s = Step_Succeeded \<Longrightarrow> H e t"
    for d u H and ob :: observation
    unfolding wp_thenA[of "record_step _ _" "thenA _ _"]
    by (rule wp_mono[OF wp_ready_record_step])
      (use that(1-4) in \<open>auto simp: wp_simps estimateObservationTokens_def intro!: that(5) sample_recordable\<close>)
  have "wp (invokeToolRequest sample_env sample_runner sample_context Coder 1 sample_write) (\<lambda>_. ?two) (\<lambda>_ _. False) sample_world"
    unfolding invokeToolRequest_def wp_bindA wp_catchA wp_clock wp_date_now
    by (subst wp_sample_call, simp add: s, rule both)
      (auto simp: s sample_now statusForRunStepFailure_def ready_outside ready_sample intro!: one ready_tick)
  then obtain ob w' where r: "invokeToolRequest sample_env sample_runner sample_context Coder 1 sample_write sample_world = (Inr ob, w')"
    and two: "?two w'"
    by (cases "invokeToolRequest sample_env sample_runner sample_context Coder 1 sample_write sample_world";
        cases "fst (invokeToolRequest sample_env sample_runner sample_context Coder 1 sample_write sample_world)") (auto simp: wp_def)
  have "\<not> ob_ok ob \<and> ob_tool ob = tr_toolName sample_write \<and> wd_effects w' = wd_effects sample_world @ [Eff_Tool (tr_toolName sample_write)]"
    by (rule undefined_output_reported_failed[OF _ _ s(4) r]) (simp_all add: sample_runner_def sample_context_def)
  then show ?thesis using r two s(2) by (auto simp: sample_write_def)
qed

end
