(* ===== verification/Task_Runner.thy ===== *)
theory Task_Runner
  imports Role_Runner Git_Lifecycle Failure_Handling
begin

text \<open>
  The run of one task in its workspace (\<open>packages/execution/src/task/task-runner.ts\<close>): prompt, execution, review, test,
  completion evidence, git and the final save of the state, with the registry of roles
  (\<open>packages/agents/src/registry.ts\<close>).

  The task object is the one of the state's backlog: the default task manager and a forced task hand over that object,
  and the assignment to \<open>task.status\<close> is one to the backlog. An answer has the output type of its role, as the
  declared types say; where the code reads a member of another type the model throws.
\<close>

section \<open>What a run is given\<close>

record workspace =
  ws_rootPath :: string
  ws_branchName :: "string option"
  ws_initialDiff :: string
  ws_tools :: "nat \<Rightarrow> tool_call_name \<Rightarrow> json jsrec \<Rightarrow> tool_execution_context \<Rightarrow> (tool_failure + json) raced"

text \<open>\<open>tk_porcelain\<close> is the output of \<open>git status --porcelain\<close> in the workspace, \<open>None\<close> when git fails.\<close>

record task_env =
  tk_registry :: "agent_role \<Rightarrow> agent option"
  tk_runner :: runner
  tk_workflow :: workflow_config
  tk_executors :: git_executors
  tk_limits :: run_limits
  tk_allowedWritePaths :: "string list"
  tk_packageManager :: "package_manager option"
  tk_qualityGateMode :: "quality_gate_mode option"
  tk_porcelain :: "nat \<Rightarrow> string option"

definition getRole :: "task_env \<Rightarrow> agent_role \<Rightarrow> agent run" where
  "getRole tk role = liftA (case tk_registry tk role of Some ag \<Rightarrow> Inr ag
     | None \<Rightarrow> Inl (policy_violation (''Role is not registered: '' @ role_text role) []))"

definition makeContext :: "task_env \<Rightarrow> agent_role \<Rightarrow> string \<Rightarrow> string \<Rightarrow> string option \<Rightarrow> signal option \<Rightarrow> role_execution_context run" where
  "makeContext tk role run dir tid sig =
     getA (\<lambda>w. resolve_policy \<lparr> pe_role = role, pe_runId = run, pe_stateSummary = summarizeState (wd_state w), pe_workspaceRoot = dir,
       pe_allowedWritePaths = tk_allowedWritePaths tk,
       pe_evidenceSource = (if truthy tid then Runtime_Events else State_Snapshot),
       pe_packageManager = Some (or_default (tk_packageManager tk) Pnpm),
       pe_qualityGateMode = Some (or_default (tk_qualityGateMode tk) Tooling),
       pe_taskId = when_truthy tid, pe_abortSignal = sig \<rparr>)"

section \<open>Reading the outputs\<close>

definition not_declared :: js_error where
  "not_declared = Js_Error TypeError ''Cannot read properties of undefined'' []"

fun as_prompt :: "role_output \<Rightarrow> optimized_prompt result" where
  "as_prompt (Out_Prompt p) = Inr p"
| "as_prompt _ = Inl not_declared"

fun as_review :: "role_output \<Rightarrow> review_result result" where
  "as_review (Out_Review r) = Inr r"
| "as_review _ = Inl not_declared"

fun as_test :: "role_output \<Rightarrow> test_execution_result result" where
  "as_test (Out_Test r) = Inr r"
| "as_test _ = Inl not_declared"

text \<open>\<open>output.summary\<close> of the executor's answer, which has the type of the routed role: a planner's, a coder's and a
  documentation writer's output have a summary, an architect's and a tester's have none.\<close>

fun out_summary :: "role_output \<Rightarrow> string option" where
  "out_summary (Out_Plan p) = Some (po_summary p)"
| "out_summary (Out_Integrity a) = Some (ia_summary a)"
| "out_summary (Out_Code c) = Some (code_summary c)"
| "out_summary (Out_Docs d) = Some (do_summary d)"
| "out_summary _ = None"

definition enforceCompletionEvidence :: "task \<Rightarrow> role_output \<Rightarrow> unit result" where
  "enforceCompletionEvidence t out =
     (case out_summary out of
        None \<Rightarrow> Inl not_declared
      | Some summary \<Rightarrow>
          if blank summary
          then Inl (policy_violation (''Task '' @ task_id t @ '' cannot complete without execution summary'') [task_id t, ''missing_execution_summary''])
          else case out of
            Out_Code c \<Rightarrow>
              if changed c
              then (if length (changedFiles c) = 0 \<or> length (code_evidence c) = 0
                    then Inl (policy_violation (''Task '' @ task_id t @ '' cannot complete without mutation evidence'') [task_id t, ''missing_mutation_evidence''])
                    else Inr ())
              else if \<not> no_op_explained c
              then Inl (policy_violation (''Task '' @ task_id t @ '' cannot complete without explicit no-op reason'') [task_id t, ''missing_no_op_reason''])
              else Inr ()
          | _ \<Rightarrow> Inl (policy_violation (''Task '' @ task_id t @ '' cannot complete without explicit no-op reason'') [task_id t, ''missing_no_op_reason'']))"

section \<open>The policy of the workspace\<close>

definition porcelain_path :: "string \<Rightarrow> string" where
  "porcelain_path line = js_trim (drop 3 line)"

definition listWorkspaceChangedFiles :: "string option \<Rightarrow> string list" where
  "listWorkspaceChangedFiles out = (case out of None \<Rightarrow> []
     | Some s \<Rightarrow> filter (\<lambda>p. 0 < length p)
         (map porcelain_path (filter (\<lambda>l. 3 < length l) (map js_trim (split_on (CHR 0x0A) s)))))"

definition enforceExecutionPolicy :: "string option \<Rightarrow> role_execution_context \<Rightarrow> unit result" where
  "enforceExecutionPolicy porcelain cx =
     (case cx_policyRules cx of None \<Rightarrow> Inr ()
      | Some rules \<Rightarrow>
          let files = listWorkspaceChangedFiles porcelain in
          if 0 \<le> maxChangedFiles rules \<and> maxChangedFiles rules < int (length files)
          then Inl (policy_violation (''Policy maxChangedFiles exceeded for '' @ role_text (cx_role cx) @ '': '' @
                  nat_to_string (length files) @ '' > '' @ int_to_string (maxChangedFiles rules)) [])
          else case find (\<lambda>f. \<exists>d \<in> set (forbiddenDirectories rules). f = d \<or> prefix (d @ ''/'') f) files of
                 Some f \<Rightarrow> Inl (policy_violation (''Policy forbiddenDirectories violation for '' @ role_text (cx_role cx) @ '': '' @ f) [])
               | None \<Rightarrow> Inr ())"

definition enforceRequiredChecks :: "role_execution_context \<Rightarrow> quality_stage_result list option \<Rightarrow> unit result" where
  "enforceRequiredChecks cx stages =
     (let required = (case cx_policyRules cx of None \<Rightarrow> [] | Some r \<Rightarrow> requiredChecks r);
          ran = or_default stages [];
          passed = map (quality_stage_text \<circ> qs_stage) (filter (\<lambda>q. qs_status q = Passing) ran);
          missing = filter (\<lambda>c. c \<notin> set passed) required
      in if length required = 0 \<or> length ran = 0 then Inr ()
         else if 0 < length missing then Inl (policy_violation (''Policy requiredChecks not satisfied: '' @ join '', '' missing) [])
         else Inr ())"

text \<open>An unstaged change of a workflow file is read as a change of \<open>github/...\<close>, and without reported stages
  nothing is required.\<close>

lemma porcelain_drops_a_character:
  "listWorkspaceChangedFiles (Some '' M .github/workflows/ci.yml'') = [''github/workflows/ci.yml'']"
  "listWorkspaceChangedFiles (Some ''M  .github/workflows/ci.yml'') = [''.github/workflows/ci.yml'']"
  by (simp_all add: listWorkspaceChangedFiles_def porcelain_path_def js_trim_def is_space_def)

lemma no_stages_pass: "enforceRequiredChecks cx None = Inr ()" "enforceRequiredChecks cx (Some []) = Inr ()"
  by (simp_all add: enforceRequiredChecks_def Let_def)

section \<open>Bookkeeping\<close>

definition object_schema :: "string list \<Rightarrow> json" where
  "object_schema required = JObj [(''type'', JStr ''object''), (''required'', JArr (map JStr required))]"

fun getSchema :: "agent_role \<Rightarrow> json" where
  "getSchema Bootstrap_Analyst = object_schema [''generatedAt'', ''packageMap'', ''subsystemMap'', ''packageInventory'', ''entryPoints'',
     ''testInfrastructure'', ''healthObservations'', ''unstableAreaCandidates'', ''criticalPaths'', ''recommendedNextStep'']"
| "getSchema Architect = object_schema [''findings'', ''riskSummary'']"
| "getSchema Planner = object_schema [''milestone'', ''backlog'', ''summary'', ''dependencyEdges'', ''assumptions'', ''risks'', ''mergePreview'']"
| "getSchema Release_Auditor = object_schema [''verdict'', ''confidence'', ''blockers'', ''warnings'', ''evidence'', ''recommendedNextActions'']"
| "getSchema State_Steward = object_schema [''ok'', ''findings'', ''summary'']"
| "getSchema Integration_Manager = object_schema [''integrationTarget'', ''mappedEntities'', ''missingRequiredFields'', ''exportBlockers'', ''recommendedFixes'']"
| "getSchema Task_Manager = JObj [(''anyOf'', JArr [JObj [(''type'', JStr ''null'')], JObj [(''type'', JStr ''object'')]])]"
| "getSchema Prompt_Engineer = object_schema [''id'', ''role'', ''systemPrompt'', ''taskPrompt'', ''contextSummary'', ''constraints'', ''outputSchema'']"
| "getSchema Coder = object_schema [''changed'', ''summary'', ''changedFiles'', ''evidence'']"
| "getSchema Reviewer = object_schema [''approved'', ''blockingIssues'', ''nonBlockingSuggestions'', ''missingTests'', ''notes'']"
| "getSchema Tester = object_schema [''passed'', ''testPlan'', ''evidence'', ''failures'', ''missingCoverage'']"
| "getSchema Docs_Writer = object_schema [''summary'', ''affectedModules'', ''behaviorChanges'', ''designRationale'', ''followUpGaps'', ''markdown'']"

definition health_of :: "quality_status \<Rightarrow> health" where
  "health_of q = (case q of Passing \<Rightarrow> Health_Passing | Failing \<Rightarrow> Health_Failing)"

fun apply_stage :: "quality_stage_result \<Rightarrow> repo_health \<Rightarrow> repo_health" where
  "apply_stage q h = (case qs_stage q of
     Test_Stage \<Rightarrow> h
   | Build_Stage \<Rightarrow> h\<lparr>rh_build := health_of (qs_status q)\<rparr>
   | Lint_Stage \<Rightarrow> h\<lparr>rh_lint := health_of (qs_status q)\<rparr>
   | Typecheck_Stage \<Rightarrow> h\<lparr>rh_typecheck := health_of (qs_status q)\<rparr>)"

definition applyRepoHealthFromTestingResult :: "quality_stage_result list option \<Rightarrow> bool \<Rightarrow> unit run" where
  "applyRepoHealthFromTestingResult stages testsPassed =
     set_state (\<lambda>s. s\<lparr>ps_health := fold apply_stage (or_default stages [])
       ((ps_health s)\<lparr>rh_tests := (if testsPassed then Health_Passing else Health_Failing)\<rparr>)\<rparr>)"

definition stage_metadata :: "string \<Rightarrow> string \<Rightarrow> quality_stage_result \<Rightarrow> string jsrec" where
  "stage_metadata run tid q =
     [(''runId'', run), (''taskId'', tid), (''stage'', quality_stage_text (qs_stage q)),
      (''status'', if qs_status q = Passing then ''passing'' else ''failing''),
      (''diagnostics'', truncateText (if 0 < length (qs_diagnostics q) then join '' | '' (qs_diagnostics q) else ''none'') 250)]"

definition persistQualityStageArtifacts :: "env \<Rightarrow> string \<Rightarrow> string \<Rightarrow> quality_stage_result list option \<Rightarrow> unit run" where
  "persistQualityStageArtifacts ev run tid stages =
     forA (or_default stages []) (\<lambda>q.
       record_made ev Report_Artifact (''Quality stage '' @ quality_stage_text (qs_stage q) @ '' for '' @ tid) (stage_metadata run tid q))"

text \<open>\<open>recordArtifact\<close> and the new revision; the artifact itself is not copied into the state yet.\<close>

definition store_artifact :: "env \<Rightarrow> artifact \<Rightarrow> unit run" where
  "store_artifact ev a = bindA (getA own_revision) (\<lambda>e. bindA (protectedA ev (recordArtifact (en_zod ev) a e)) set_revision)"

definition recordRunCostSummaryArtifact :: "env \<Rightarrow> string \<Rightarrow> string \<Rightarrow> string \<Rightarrow> unit run" where
  "recordRunCostSummaryArtifact ev run tid status =
     bindA (getA wd_cost) (\<lambda>c.
     bindA (makeArtifact ev Run_Summary (''Run cost summary for '' @ tid)
       [(''runId'', run), (''taskId'', tid), (''status'', status), (''estimatedTokensRun'', nat_to_string (ct_tokensRun c)),
        (''estimatedTokensTask'', nat_to_string (ct_tokensTask c)), (''estimatedCostUsdMicro'', nat_to_string (ct_usdMicro c)),
        (''estimationMethod'', ''heuristic_chars_div_4'')]) (\<lambda>a.
     thenA (catchA (store_artifact ev a) (\<lambda>_. ret ())) (push_artifact a)))"

section \<open>The stages of a run\<close>

definition task_event :: "env \<Rightarrow> event_type \<Rightarrow> task \<Rightarrow> string \<Rightarrow> string list jsrec \<Rightarrow> unit run" where
  "task_event ev ty t run extra = record_event ev ty ((''taskId'', [task_id t]) # extra) run"

definition prompt_stage :: "env \<Rightarrow> task_env \<Rightarrow> task \<Rightarrow> string \<Rightarrow> workspace \<Rightarrow> signal option \<Rightarrow> optimized_prompt run" where
  "prompt_stage ev tk t run ws sig =
     bindA (getA (\<lambda>w. filter (\<lambda>f. fl_task f = task_id t) (ps_failures (wd_state w)))) (\<lambda>failures.
     bindA (getRole tk Prompt_Engineer) (\<lambda>ag.
     bindA (getA (\<lambda>w. summarizeState (wd_state w))) (\<lambda>summary.
     bindA (makeContext tk Prompt_Engineer run (ws_rootPath ws) (Some (task_id t)) sig) (\<lambda>cx.
     bindA (role_execute ev (tk_runner tk) ag
       \<lparr> rq_role = Prompt_Engineer, rq_objective = ''Optimize task prompt'',
         rq_input = In_Prompting t summary failures (getSchema (routeTaskToRole t)),
         rq_acceptanceCriteria = [''Prompt includes acceptance criteria and failure constraints''] \<rparr> cx) (\<lambda>r.
     bindA (liftA (as_prompt (resp_output r))) (\<lambda>p.
     thenA (task_event ev PROMPT_GENERATED t run [(''promptId'', [op_id p])])
    (thenA (record_made ev Optimized_Prompt (''Prompt for '' @ task_id t) [(''taskId'', task_id t), (''promptId'', op_id p)])
       (ret p))))))))"

definition execution_request :: "task \<Rightarrow> optimized_prompt \<Rightarrow> role_request" where
  "execution_request t p = \<lparr> rq_role = routeTaskToRole t, rq_objective = ''Execute '' @ task_id t,
     rq_input = In_Execution t p, rq_acceptanceCriteria = task_criteria t \<rparr>"

definition execution_stage :: "env \<Rightarrow> task_env \<Rightarrow> task \<Rightarrow> string \<Rightarrow> workspace \<Rightarrow> signal option \<Rightarrow> optimized_prompt \<Rightarrow> role_output run" where
  "execution_stage ev tk t run ws sig p =
     (let role = routeTaskToRole t in
      bindA (getRole tk role) (\<lambda>ag.
      bindA (makeContext tk role run (ws_rootPath ws) (Some (task_id t)) sig) (\<lambda>cx.
      bindA (role_execute ev (tk_runner tk) ag (execution_request t p) cx) (\<lambda>r.
      bindA (getA (\<lambda>w. tk_porcelain tk (wd_tick w))) (\<lambda>porcelain.
      thenA (liftA (enforceExecutionPolicy porcelain cx))
     (thenA (task_event ev ROLE_EXECUTED t run [(''role'', [role_text role])])
        (ret (resp_output r))))))))"

definition review_request :: "task \<Rightarrow> role_output \<Rightarrow> role_request" where
  "review_request t out = \<lparr> rq_role = Reviewer, rq_objective = ''Review '' @ task_id t, rq_input = In_Result t out,
     rq_acceptanceCriteria = [''Approve or return blocking issues''] \<rparr>"

text \<open>A stage that hands the task to the failure handler gives its result; \<open>None\<close> lets the run go on.\<close>

definition review_stage :: "env \<Rightarrow> task_env \<Rightarrow> task \<Rightarrow> string \<Rightarrow> workspace \<Rightarrow> signal option \<Rightarrow> role_output \<Rightarrow> cycle_result option run" where
  "review_stage ev tk t run ws sig out =
     (if \<not> requiresReview t then ret None else
      bindA (getRole tk Reviewer) (\<lambda>ag.
      bindA (makeContext tk Reviewer run (ws_rootPath ws) (Some (task_id t)) sig) (\<lambda>cx.
      bindA (role_execute ev (tk_runner tk) ag (review_request t out) cx) (\<lambda>r.
      bindA (liftA (as_review (resp_output r))) (\<lambda>review.
        if \<not> approved review \<or> 0 < length (blockingIssues review)
        then thenA (task_event ev REVIEW_REJECTED t run [])
               (bindA (handle_failure ev (rl_maxRetries (tk_limits tk)) t Reviewer ''review_rejected'' run) (\<lambda>res. ret (Some res)))
        else thenA (task_event ev REVIEW_APPROVED t run []) (ret None))))))"

definition test_request :: "task \<Rightarrow> role_output \<Rightarrow> role_request" where
  "test_request t out = \<lparr> rq_role = Tester, rq_objective = ''Test '' @ task_id t, rq_input = In_Result t out,
     rq_acceptanceCriteria = [''Return explicit evidence''] \<rparr>"

definition test_stage :: "env \<Rightarrow> task_env \<Rightarrow> task \<Rightarrow> string \<Rightarrow> workspace \<Rightarrow> signal option \<Rightarrow> role_output \<Rightarrow> cycle_result option run" where
  "test_stage ev tk t run ws sig out =
     (if \<not> requiresTesting t then ret None else
      bindA (getRole tk Tester) (\<lambda>ag.
      bindA (makeContext tk Tester run (ws_rootPath ws) (Some (task_id t)) sig) (\<lambda>cx.
      bindA (role_execute ev (tk_runner tk) ag (test_request t out) cx) (\<lambda>r.
      bindA (liftA (as_test (resp_output r))) (\<lambda>testing.
        if \<not> test_passed testing \<or> 0 < length (test_failures testing)
        then thenA (applyRepoHealthFromTestingResult (qualityStages testing) False)
            (thenA (persistQualityStageArtifacts ev run (task_id t) (qualityStages testing))
            (thenA (task_event ev TEST_FAILED t run [])
              (bindA (handle_failure ev (rl_maxRetries (tk_limits tk)) t Tester ''test_failed'' run) (\<lambda>res. ret (Some res)))))
        else thenA (applyRepoHealthFromTestingResult (qualityStages testing) True)
            (bindA (makeContext tk Tester run (ws_rootPath ws) (Some (task_id t)) sig) (\<lambda>cx2.
             thenA (liftA (enforceRequiredChecks cx2 (qualityStages testing)))
            (thenA (persistQualityStageArtifacts ev run (task_id t) (qualityStages testing))
            (thenA (task_event ev TEST_PASSED t run []) (ret None))))))))))"

section \<open>The run\<close>

definition complete_task :: "string \<Rightarrow> project_state \<Rightarrow> project_state" where
  "complete_task tid s =
     (let s1 = modify_task tid (\<lambda>t. t\<lparr>task_status := Done\<rparr>) s; e = ps_execution s1 in
      s1\<lparr>ps_execution := e\<lparr> ex_completed := (if tid \<in> set (ex_completed e) then ex_completed e else ex_completed e @ [tid]),
                            ex_activeTask := None, ex_stepCount := ex_stepCount e + 1 \<rparr>\<rparr>)"

definition finish_stage :: "env \<Rightarrow> task_env \<Rightarrow> task \<Rightarrow> string \<Rightarrow> workspace \<Rightarrow> role_output \<Rightarrow> cycle_result run" where
  "finish_stage ev tk t run ws out =
     (let tid = task_id t in
      thenA (liftA (enforceCompletionEvidence t out))
     (thenA (set_state (complete_task tid))
     (bindA (makeArtifact ev Run_Summary (''Task '' @ tid @ '' completion summary'')
               [(''taskId'', tid), (''summary'', or_default (out_summary out) [])]) (\<lambda>a.
      bindA (makeArtifact ev Run_Summary (''Run summary for '' @ tid)
               [(''runId'', run), (''taskId'', tid), (''status'', ''completed'')]) (\<lambda>b.
      thenA (store_artifact ev a)
     (thenA (store_artifact ev b)
     (thenA (push_artifact a) (thenA (push_artifact b)
     (bindA (git_complete ev (tk_workflow tk) (tk_executors tk)
               \<lparr> gi_run = run, gi_task = tid, gi_title = task_title t, gi_branch = when_truthy (ws_branchName ws) \<rparr>) (\<lambda>git.
      thenA (persistAndRequire ev (buildPostflightPolicyGateDecisionRequest run tid))
     (bindA (fresh_uuid ev) (\<lambda>u. bindA (clock ev) (\<lambda>now.
      thenA flushToState
     (thenA (save_state ev [makeEvent u now STATE_COMMITTED [(''taskId'', [tid])] (Some run) None])
        (ret \<lparr> cr_run = run, cr_status = (if git = Git_Approval_Pending then Cycle_Blocked else Cycle_Completed),
               cr_task = Some tid, cr_reason = (if git = Git_Approval_Pending then Some ''approval_pending'' else None) \<rparr>)))))))))))))))"

text \<open>The inside of the \<open>try\<close>: the result, and whether the run went through to its end.\<close>

definition task_body :: "env \<Rightarrow> task_env \<Rightarrow> task \<Rightarrow> string \<Rightarrow> workspace \<Rightarrow> signal option \<Rightarrow> (cycle_result \<times> bool) run" where
  "task_body ev tk t run ws sig =
     thenA (set_execution (\<lambda>e. e\<lparr>ex_activeRun := Some run, ex_activeTask := Some (task_id t)\<rparr>))
    (thenA (task_event ev TASK_SELECTED t run [])
    (thenA (persistAndRequire ev (buildPreflightPolicyGateDecisionRequest run (task_id t)))
    (bindA (prompt_stage ev tk t run ws sig) (\<lambda>p.
     bindA (execution_stage ev tk t run ws sig p) (\<lambda>out.
     bindA (review_stage ev tk t run ws sig out) (\<lambda>rejected.
       case rejected of Some res \<Rightarrow> ret (res, False)
       | None \<Rightarrow> bindA (test_stage ev tk t run ws sig out) (\<lambda>failed.
           case failed of Some res \<Rightarrow> ret (res, False)
           | None \<Rightarrow> bindA (finish_stage ev tk t run ws out) (\<lambda>res. ret (res, True)))))))))"

text \<open>\<open>attempt m\<close> never throws: it gives what \<open>m\<close> returned or threw.\<close>

definition attempt :: "'a run \<Rightarrow> 'a result run" where
  "attempt m = catchA (bindA m (\<lambda>x. ret (Inr x))) (\<lambda>e. ret (Inl e))"

definition run_outcome :: "(cycle_result \<times> bool) result \<Rightarrow> string" where
  "run_outcome r = (case r of
     Inr (res, True) \<Rightarrow> if cr_status res = Cycle_Blocked then ''blocked'' else ''completed''
   | _ \<Rightarrow> ''failed'')"

definition task_run :: "env \<Rightarrow> task_env \<Rightarrow> task \<Rightarrow> string \<Rightarrow> workspace \<Rightarrow> signal option \<Rightarrow> cycle_result run" where
  "task_run ev tk0 t run ws sig =
     (let tk = tk0\<lparr>tk_runner := (tk_runner tk0)\<lparr>rn_tools := ws_tools ws\<rparr>\<rparr> in
      bindA (getA (\<lambda>w. (ps_org (wd_state w), ps_project (wd_state w)))) (\<lambda>scope.
      thenA (startRun run scope)
     (thenA (set_cost resetTask)
     (bindA (attempt (task_body ev tk t run ws sig)) (\<lambda>r.
      thenA (recordRunCostSummaryArtifact ev run (task_id t) (run_outcome r))
     (thenA clearBuffer
        (liftA (map_sum id fst r))))))))"

section \<open>The workspace around a run\<close>

text \<open>\<open>packages/execution/src/workspace/workspace-run-coordinator.ts\<close>. Allocation, rollback and cleanup are calls of the
  workspace manager; a rollback or a cleanup that fails is ignored.\<close>

definition allocate_workspace :: "(nat \<Rightarrow> workspace result) \<Rightarrow> workspace run" where
  "allocate_workspace allocate = bindA (ask allocate) (\<lambda>ws.
     thenA (effect (Eff_Workspace Ws_Allocated (ws_rootPath ws)) (\<lambda>_. Inr ())) (ret ws))"

definition workspace_call :: "workspace_call \<Rightarrow> workspace \<Rightarrow> unit run" where
  "workspace_call c ws = effect (Eff_Workspace c (ws_rootPath ws)) (\<lambda>_. Inr ())"

definition workspace_run :: "env \<Rightarrow> (nat \<Rightarrow> workspace result) \<Rightarrow> task \<Rightarrow> string \<Rightarrow> (workspace \<Rightarrow> 'a run) \<Rightarrow> 'a run" where
  "workspace_run ev allocate t run execute =
     bindA (allocate_workspace allocate) (\<lambda>ws.
     thenA (record_made ev Report_Artifact (''Workspace initialized for '' @ task_id t)
       [(''runId'', run), (''taskId'', task_id t), (''workspaceRoot'', ws_rootPath ws),
        (''hasInitialDiff'', if 0 < length (ws_initialDiff ws) then ''true'' else ''false'')])
    (thenA (recordBranchArtifact ev run (task_id t) (when_truthy (ws_branchName ws)))
       (finallyA (catchA (execute ws) (\<lambda>e. thenA (workspace_call Ws_Rolled_Back ws) (throw e)))
          (workspace_call Ws_Cleaned_Up ws))))"

section \<open>Parts that do not throw\<close>

lemma wp_attempt: "wp (attempt m) Q E w = wp m (\<lambda>x. Q (Inr x)) (\<lambda>e. Q (Inl e)) w"
  by (simp add: attempt_def wp_def catchA_def bindA_def ret_def split: prod.splits sum.splits)

lemma cost_summary_returns: "wp (thenA (recordRunCostSummaryArtifact ev run tid oc) clearBuffer) (\<lambda>_ _. True) (\<lambda>_ _. False) w"
proof -
  have "fst (thenA (recordRunCostSummaryArtifact ev run tid oc) clearBuffer w) = Inr ()"
    by (auto simp: recordRunCostSummaryArtifact_def thenA_def bindA_def getA_def makeArtifact_def fresh_uuid_def clock_def ret_def
        catchA_def push_artifact_def set_state_def modA_def clearBuffer_def split: prod.splits sum.splits)
  then show ?thesis by (cases "thenA (recordRunCostSummaryArtifact ev run tid oc) clearBuffer w") (simp add: wp_def)
qed

lemma record_artifact_parts: "record_artifact ev a = thenA (store_artifact ev a) (push_artifact a)"
  unfolding record_artifact_def store_artifact_def thenA_def by (simp add: bindA_assoc)

end
