(* ===== verification/Sample_Run.thy ===== *)
theory Sample_Run
  imports Task_Runner
begin

text \<open>
  A run that succeeds: agents that answer at once, a free lease, and a valid state. The lemmas carry the world
  through the recorders, the roles and git without an error, so that the theorems about runs can be
  applied to one.
\<close>

section \<open>A world in which a run can go on\<close>

definition plan_of :: "project_state \<Rightarrow> backlog \<times> string list \<times> string list" where
  "plan_of s = (ps_backlog s, ex_completed (ps_execution s), ex_blocked (ps_execution s))"

definition fitting :: "backlog \<times> string list \<times> string list \<Rightarrow> world \<Rightarrow> bool" where
  "fitting p w \<longleftrightarrow> ready w \<and> ps_revision (wd_state w) = ps_revision (wd_stored w) \<and> valid_state sample_zod (wd_state w) \<and>
     ps_org (wd_state w) = ''org'' \<and> ps_project (wd_state w) = ''p'' \<and> plan_of (wd_state w) = p \<and>
     (\<forall>b. wd_buffer w = Some b \<longrightarrow> (\<forall>s \<in> set b. runStepLogEntrySchema (z_iso sample_zod) s)) \<and>
     (\<forall>r. wd_latest w = Some r \<longrightarrow> r \<le> ps_revision (wd_stored w))"

text \<open>\<open>goes p m Q\<close>: from a fitting world \<open>m\<close> returns, its value has \<open>Q\<close>, and the world is fitting.\<close>

definition goes :: "backlog \<times> string list \<times> string list \<Rightarrow> 'a run \<Rightarrow> ('a \<Rightarrow> bool) \<Rightarrow> bool" where
  "goes p m Q \<longleftrightarrow> (\<forall>w. fitting p w \<longrightarrow> wp m (\<lambda>x u. Q x \<and> fitting p u) (\<lambda>_ _. False) w)"

lemma goesD: "goes p m Q \<Longrightarrow> fitting p w \<Longrightarrow> wp m (\<lambda>x u. Q x \<and> fitting p u) (\<lambda>_ _. False) w"
  by (simp add: goes_def)

lemma goes_bind: "goes p m P \<Longrightarrow> (\<And>x. P x \<Longrightarrow> goes p (f x) Q) \<Longrightarrow> goes p (bindA m f) Q"
  unfolding goes_def wp_bindA by (intro allI impI, rule wp_mono[where Q = "\<lambda>x u. P x \<and> fitting p u" and E = "\<lambda>_ _. False"]) auto

lemma goes_bind_eq: "goes p m (\<lambda>x. x = v) \<Longrightarrow> goes p (f v) Q \<Longrightarrow> goes p (bindA m f) Q"
  by (rule goes_bind[where P = "\<lambda>x. x = v"]) auto

lemma goes_then: "goes p m P \<Longrightarrow> goes p k Q \<Longrightarrow> goes p (thenA m k) Q"
  unfolding thenA_def by (rule goes_bind)

lemma goes_ret: "Q x \<Longrightarrow> goes p (ret x) Q"
  by (simp add: goes_def wp_ret)

lemma goes_ret_eq: "goes p (ret v) (\<lambda>x. x = v)"
  by (simp add: goes_def wp_ret)

lemma goes_lift: "r = Inr x \<Longrightarrow> Q x \<Longrightarrow> goes p (liftA r) Q"
  by (simp add: goes_def wp_liftA)

lemma goes_get: "goes p (getA f) (\<lambda>_. True)"
  by (simp add: goes_def wp_getA)

named_theorems goes_intros \<open>runs that go on in the sample environment\<close>

lemma ready_changes:
  "ready (w\<lparr>wd_state := s\<rparr>) = ready w" "ready (w\<lparr>wd_cost := c\<rparr>) = ready w" "ready (w\<lparr>wd_effects := es\<rparr>) = ready w"
  "ready w \<Longrightarrow> ready (w\<lparr>wd_tick := Suc (wd_tick w)\<rparr>)"
  "ready w \<Longrightarrow> gd_lease (wd_guard w) = None"
  by (simp_all add: ready_outside ready_tick, simp add: ready_def)

lemma goes_draws [goes_intros]:
  "goes p (fresh_uuid sample_env) (\<lambda>x. x \<noteq> [])" "goes p (clock sample_env) (z_iso sample_zod)"
  "goes p (date_now sample_env) (\<lambda>_. True)"
  by (auto simp: goes_def date_now_def wp_simps fitting_def ready_changes sample_env_def sample_zod_def)

lemma goes_date: "goes p (date_now sample_env) (\<lambda>_. True)"
  by (rule goes_draws)

lemma goes_cost [goes_intros]: "goes p (set_cost f) (\<lambda>_. True)"
  by (simp add: goes_def set_cost_def wp_simps fitting_def ready_changes)

lemma ready_store:
  assumes "ready w" "valid_state sample_zod s" "ps_org s = ps_org (wd_stored w)" "ps_project s = ps_project (wd_stored w)"
    "ex_runStepLog (ps_execution s) = wd_log w" "wd_tick w \<le> t"
  shows "ready (w\<lparr>wd_tick := t, wd_guard := (wd_guard w)\<lparr>gd_store := (wd_store w)\<lparr>st_state := s, st_events := evs\<rparr>\<rparr>\<rparr>)"
  using assms by (auto simp: ready_def intro: drawn_mono)

lemma goes_event [goes_intros]: "goes p (record_event sample_env ty payload run) (\<lambda>_. True)"
  unfolding goes_def record_event_def fitting_def
  by (auto simp: wp_simps wp_protected_free ready_changes) (auto simp: ready_def intro: drawn_mono)


section \<open>Gates and artifacts\<close>

lemma valid_with_decision:
  "valid_state z s \<Longrightarrow> executionPolicyDecisionSchema (z_iso z) d \<Longrightarrow> pd_tenantId d = ps_org s \<Longrightarrow> pd_projectId d = ps_project s \<Longrightarrow>
   valid_state z (s\<lparr>ps_policyDecisions := ps_policyDecisions s @ [d]\<rparr>)"
  by (auto simp: valid_parts)

lemma hash_not_Nil: "seed \<noteq> [] \<Longrightarrow> createPolicyInputHash seed \<noteq> []"
proof (cases seed)
  case (Cons c cs)
  then obtain b bs where "utf8 seed = b # bs" by (cases "utf8 seed") (auto simp: utf8_def Let_def split: if_splits)
  then show ?thesis unfolding createPolicyInputHash_def by (cases "utf8 seed" rule: base64url.cases) auto
qed simp

definition proper_request :: "policy_request \<Rightarrow> bool" where
  "proper_request q \<longleftrightarrow> pq_run q \<noteq> [] \<and> pq_step q \<noteq> [] \<and> 0 \<le> pq_attempt q \<and> [] \<notin> set (pq_reasons q) \<and> pq_seed q \<noteq> []"

lemma goes_gate: "proper_request q \<Longrightarrow> goes p (persistAndRequire sample_env q) (\<lambda>_. True)"
proof -
  assume q: "proper_request q"
  have one: "wp (persistAndRequire sample_env q) (\<lambda>x u. True \<and> fitting p u) (\<lambda>_ _. False) w" if w: "fitting p w" for w
  proof -
    define d where "d = policy_record q (wd_state w) (en_uuid sample_env (wd_tick w)) (en_now sample_env (Suc (wd_tick w)))"
    have s: "executionPolicyDecisionSchema (z_iso sample_zod) d" "pd_tenantId d = ''org''" "pd_projectId d = ''p''"
      using q w by (auto simp: d_def executionPolicyDecisionSchema_def policy_record_def proper_request_def fitting_def sample_env_def sample_zod_def
          hash_not_Nil POLICY_VERSION_def)
    have e: "en_zod sample_env = sample_zod" by (simp add: sample_env_def)
    note f = w[unfolded fitting_def]
    have v: "valid_state sample_zod (wd_stored w\<lparr>ps_policyDecisions := ps_policyDecisions (wd_stored w) @ [d]\<rparr>)"
      "\<And>r. valid_state sample_zod (wd_state w\<lparr>ps_revision := r, ps_policyDecisions := ps_policyDecisions (wd_state w) @ [d]\<rparr>)"
      using f s valid_with_decision[of sample_zod "wd_state w\<lparr>ps_revision := r\<rparr>" d for r] by (auto intro!: valid_with_decision simp: ready_def)
    have r: "ready w" "gd_lease (wd_guard w) = None" "ps_revision (wd_state w) = ps_revision (wd_stored w)"
      using f ready_changes(5) by auto
    show ?thesis
      unfolding persistAndRequire_def Let_def wp_simps
      using r(2,3) v(1)
      by (simp add: wp_protected_free recordPolicyDecision_def load_def wp_simps e d_def[symmetric] wp_commit_valid)
        (use f r(1) v s in \<open>auto simp: fitting_def d_def ready_def plan_of_def intro: drawn_mono\<close>)
  qed
  then show ?thesis by (simp add: goes_def)
qed

lemma goes_store_artifact:
  "registry_validate a = [] \<Longrightarrow> artifactSchema (z_iso sample_zod) a \<Longrightarrow> goes p (store_artifact sample_env a) (\<lambda>_. True)"
  unfolding goes_def store_artifact_def own_revision_def
proof (intro allI impI)
  fix w assume a: "registry_validate a = []" "artifactSchema (z_iso sample_zod) a" and w: "fitting p w"
  note f = w[unfolded fitting_def]
  have e: "en_zod sample_env = sample_zod" by (simp add: sample_env_def)
  have r: "ready w" "gd_lease (wd_guard w) = None" "ps_revision (wd_state w) = ps_revision (wd_stored w)"
    using f ready_changes(5) by auto
  have v: "valid_state sample_zod (with_artifact a (wd_stored w))" using r(1) a(2) by (auto simp: ready_def intro: valid_with_artifact)
  have eq: "recordArtifact sample_zod a x = bindA load (\<lambda>cur. commitSnapshot sample_zod (with_artifact a cur) x [])" for x
    using a(1) by (simp add: recordArtifact_def with_artifact_def Let_def)
  have w1: "ps_revision (with_artifact a (wd_stored w)) = ps_revision (wd_stored w)" "ps_org (with_artifact a (wd_stored w)) = ps_org (wd_stored w)"
    "ps_project (with_artifact a (wd_stored w)) = ps_project (wd_stored w)"
    "ps_execution (with_artifact a (wd_stored w)) = ps_execution (wd_stored w)"
    by (simp_all add: with_artifact_def)
  show "wp (bindA (getA (\<lambda>w. Some (int (ps_revision (wd_state w))))) (\<lambda>e. bindA (protectedA sample_env (recordArtifact (en_zod sample_env) a e)) set_revision))
     (\<lambda>x u. True \<and> fitting p u) (\<lambda>_ _. False) w"
    using r(2,3) v w1
    by (simp add: wp_simps wp_protected_free e eq load_def wp_commit_valid)
      (use f r(1) in \<open>auto simp: fitting_def ready_def plan_of_def intro: drawn_mono\<close>)
qed

lemma goes_push_artifact: "artifactSchema (z_iso sample_zod) a \<Longrightarrow> goes p (push_artifact a) (\<lambda>_. True)"
  by (auto simp: goes_def wp_simps fitting_def ready_changes plan_of_def intro: valid_with_artifact)

lemma goes_make_artifact:
  "ty \<noteq> [] \<Longrightarrow> \<forall>v \<in> set (rec_values meta). v \<noteq> [] \<Longrightarrow>
   goes p (makeArtifact sample_env kind ty meta)
     (\<lambda>a. art_type a = kind \<and> art_title a = ty \<and> art_metadata a = meta \<and> artifactSchema (z_iso sample_zod) a)"
  unfolding makeArtifact_def
  by (rule goes_bind[OF goes_draws(1)], rule goes_bind[OF goes_draws(2)], rule goes_ret)
    (auto simp: artifactSchema_def opt_min1_def all_min1_def)

lemma registry_validate_cong:
  "art_type a = art_type b \<Longrightarrow> art_title a = art_title b \<Longrightarrow> art_metadata a = art_metadata b \<Longrightarrow> registry_validate a = registry_validate b"
  by (simp add: registry_validate_def validateArtifact_def artifact_validator_def requireMetadata_def requireAnyMetadata_def meta_present_def
      split: artifact_type.split)


definition template :: "artifact_type \<Rightarrow> string \<Rightarrow> string jsrec \<Rightarrow> artifact" where
  "template kind title meta = \<lparr> art_id = ''a'', art_type = kind, art_title = title, art_location = None, art_metadata = meta, art_created = Iso 0 \<rparr>"

definition recordable_artifact :: "artifact_type \<Rightarrow> string \<Rightarrow> string jsrec \<Rightarrow> bool" where
  "recordable_artifact kind title meta \<longleftrightarrow>
     registry_validate (template kind title meta) = [] \<and> title \<noteq> [] \<and> (\<forall>v \<in> set (rec_values meta). v \<noteq> [])"

lemma recordable_artifactD:
  "recordable_artifact kind title meta \<Longrightarrow> art_type a = kind \<and> art_title a = title \<and> art_metadata a = meta \<and> Z a \<Longrightarrow> registry_validate a = []"
  using registry_validate_cong[of a "template kind title meta"] by (simp add: recordable_artifact_def template_def)

lemma goes_artifact: "recordable_artifact kind title meta \<Longrightarrow>
   goes p (makeArtifact sample_env kind title meta)
     (\<lambda>a. registry_validate a = [] \<and> artifactSchema (z_iso sample_zod) a)"
proof -
  assume r: "recordable_artifact kind title meta"
  then have g: "goes p (makeArtifact sample_env kind title meta)
      (\<lambda>a. art_type a = kind \<and> art_title a = title \<and> art_metadata a = meta \<and> artifactSchema (z_iso sample_zod) a)"
    by (intro goes_make_artifact) (auto simp: recordable_artifact_def)
  show ?thesis unfolding goes_def
    by (intro allI impI, rule wp_mono[OF goesD[OF g]]) (use recordable_artifactD[OF r] in auto)
qed

lemma goes_record_made: "recordable_artifact kind title meta \<Longrightarrow> goes p (record_made sample_env kind title meta) (\<lambda>_. True)"
  unfolding record_made_def record_artifact_parts
  by (rule goes_bind[OF goes_artifact], assumption, rule goes_then[OF goes_store_artifact goes_push_artifact]) auto

section \<open>Roles\<close>

lemma wp_both: "wp m P E w \<Longrightarrow> wp m Q F w \<Longrightarrow> wp m (\<lambda>x u. P x u \<and> Q x u) (\<lambda>e u. E e u \<and> F e u) w"
  by (auto simp: wp_def split: prod.splits sum.splits)

lemma goes_record_step: "recordable i \<Longrightarrow> goes p (record_step sample_env i) (\<lambda>_. True)"
  unfolding goes_def
proof (intro allI impI)
  fix w assume i: "recordable i" and w: "fitting p w"
  note f = w[unfolded fitting_def]
  have s: "wp (record_step sample_env i) (\<lambda>_ u. wd_state u = wd_state w \<and> ps_revision (wd_stored u) = ps_revision (wd_stored w) \<and>
      (\<forall>b. wd_buffer u = Some b \<longrightarrow> (\<forall>s \<in> set b. runStepLogEntrySchema (z_iso sample_zod) s)) \<and>
      (\<forall>r. wd_latest u = Some r \<longrightarrow> r \<le> ps_revision (wd_stored u))) (\<lambda>_ _. True) w"
  proof (rule wp_record_step, goal_cases)
    case (1 l h t scope)
    have e: "en_zod sample_env = sample_zod" by (simp add: sample_env_def)
    show ?case using f unfolding Let_def e valid_append_step by (auto simp: append_step_def)
  qed simp
  show "wp (record_step sample_env i) (\<lambda>x u. True \<and> fitting p u) (\<lambda>_ _. False) w"
    by (rule wp_mono[OF wp_both[OF wp_ready_record_step[OF _ i] s]]) (use f in \<open>auto simp: fitting_def\<close>)
qed

text \<open>Agents that answer at once, and a runner without budgets.\<close>

definition answering :: "agent_role \<Rightarrow> role_output \<Rightarrow> agent" where
  "answering role out = \<lparr> ag_name = role,
     ag_execute = (\<lambda>_ _ _. Settled (Inr \<lparr> resp_role = role, resp_summary = ''s'', resp_output = out, resp_warnings = [], resp_risks = [],
        resp_needsHumanDecision = False, resp_confidence = 1 \<rparr>)),
     ag_executeStep = None, ag_validate = None \<rparr>"

definition open_runner :: runner where
  "open_runner = \<lparr> rn_tokenBudgetPerTask = None, rn_tokenBudgetPerRun = None, rn_maxRunCostUsdMicro = None, rn_costPer1k = (\<lambda>_. None),
     rn_roleModels = (\<lambda>_. None), rn_fallbackModel = None, rn_model = ''m'', rn_timeoutMs = 5, rn_maxRoleSteps = None, rn_maxStepsPerRun = 1,
     rn_maxRoleWallTimeMs = None, rn_persistToolEvidence = False, rn_tools = (\<lambda>_ _ _ _. Timed_Out 5), rn_aborted = (\<lambda>_ _. False),
     rn_input_json = (\<lambda>_. JStr ''i''), rn_output_json = (\<lambda>_. JStr ''o'') \<rparr>"

lemma goes_weaken: "goes p m P \<Longrightarrow> (\<And>x. P x \<Longrightarrow> Q x) \<Longrightarrow> goes p m Q"
  unfolding goes_def by (intro allI impI, rule wp_mono[where Q = "\<lambda>x u. P x \<and> fitting p u" and E = "\<lambda>_ _. False"]) auto

lemma role_text_not_Nil [simp]: "role_text r \<noteq> []"
  by (cases r) simp_all

lemma wp_sample_date: "wp (date_now sample_env) Q E w = Q (int (wd_tick w)) (w\<lparr>wd_tick := Suc (wd_tick w)\<rparr>)"
  by (simp add: date_now_def wp_simps sample_env_def)

lemma fitting_tick: "fitting p w \<Longrightarrow> wd_tick w \<le> t \<Longrightarrow> fitting p (w\<lparr>wd_tick := t\<rparr>)"
  by (simp add: fitting_def ready_tick)

lemma fitting_changes: "fitting p (w\<lparr>wd_cost := c\<rparr>) = fitting p w" "fitting p (w\<lparr>wd_effects := e\<rparr>) = fitting p w"
  by (simp_all add: fitting_def ready_changes)

text \<open>Any predicate that the draws, the cost, the log of calls and the records keep is kept by such a role.\<close>

lemma role_succeeds:
  assumes "registry_output_issues out = []" and "cx_runId cx \<noteq> []" and "rq_role rq = role"
    and rec: "\<And>i v. recordable i \<Longrightarrow> F v \<Longrightarrow> wp (record_step sample_env i) (\<lambda>_. F) (\<lambda>_ _. False) v"
    and tick: "\<And>v t. F v \<Longrightarrow> wd_tick v \<le> t \<Longrightarrow> F (v\<lparr>wd_tick := t\<rparr>)"
    and same: "\<And>v c. F (v\<lparr>wd_cost := c\<rparr>) = F v" "\<And>v es. F (v\<lparr>wd_effects := es\<rparr>) = F v" and "F w"
  shows "wp (role_execute sample_env (open_runner\<lparr>rn_tools := tools\<rparr>) (answering role out) rq cx) (\<lambda>r u. resp_output r = out \<and> F u) (\<lambda>_ _. False) w"
proof -
  let ?rn = "open_runner\<lparr>rn_tools := tools\<rparr>" and ?ag = "answering role out"
  let ?r = "\<lparr> resp_role = role, resp_summary = ''s'', resp_output = out, resp_warnings = [], resp_risks = [],
        resp_needsHumanDecision = False, resp_confidence = (1 :: rat) \<rparr>"
  have ok: "check_response ?ag rq ?r = Inr ()"
    using assms(1,3) by (simp add: check_response_def validateRoleResult_def role_result_issues_def validateRoleResponse_def answering_def
        blank_def js_trim_def is_space_def)
  have est: "estimateObservationTokens (JStr x) = Inr (max 1 ((length x + 3) div 4))" for x by (simp add: estimateObservationTokens_def)
  have accept: "wp (accept_response sample_env ?rn cx ?ag rq started ?r) (\<lambda>r u. resp_output r = out \<and> F u) (\<lambda>_ _. False) v"
    if v: "F v" and le: "started \<le> int (wd_tick v)" for v started
  proof -
    have r: "recordable (role_record ?rn cx ?ag rq out' st d)" if "0 \<le> d" for out' st d
      using that assms(2) by (simp add: recordable_def role_record_def answering_def)
    have t: "F (v\<lparr>wd_tick := Suc (wd_tick v)\<rparr>)" using tick[OF v] by simp
    show ?thesis
      unfolding accept_response_def Let_def wp_bindA[of "date_now _"] wp_sample_date wp_thenA[of "record_step _ _"]
      by (rule wp_mono[OF rec[OF r t]])
        (use le in \<open>simp_all add: wp_bindA wp_thenA wp_liftA open_runner_def est set_cost_def wp_modA wp_ret same\<close>)
  qed
  have aborted: "is_aborted ?rn cx = getA (\<lambda>_. False)"
    by (auto simp: is_aborted_def open_runner_def fun_eq_iff getA_def split: option.split)
  have input: "rn_input_json ?rn x = JStr ''i''" "rn_input_json open_runner x = JStr ''i''" for x by (simp_all add: open_runner_def)
  have budget: "enforceBudgets ?rn m r c = Inr ()" for m r c by (simp add: enforceBudgets_def over_budget_def open_runner_def)
  have call: "wp (executeRoleWithLoop sample_env ?rn cx ?ag rq) Q E v =
      Q ?r (v\<lparr>wd_tick := Suc (wd_tick v), wd_effects := wd_effects v @ [Eff_Role role]\<rparr>)" for Q E v
    by (simp add: executeRoleWithLoop_def answering_def runWithTimeout_def aborted[unfolded answering_def] wp_bindA wp_getA wp_liftA)
      (simp add: wp_def outside_def liftA_def ret_def)
  show ?thesis
    unfolding role_execute_def Let_def wp_bindA wp_thenA wp_sample_date wp_getA wp_liftA budget call wp_catchA ok
    by (simp add: input est set_cost_def wp_modA ok)
      (rule wp_mono[OF accept], use assms(8) in \<open>simp_all add: same tick\<close>)
qed

lemma goes_role:
  assumes "registry_output_issues out = []" and "cx_runId cx \<noteq> []" and "rq_role rq = role"
  shows "goes p (role_execute sample_env (open_runner\<lparr>rn_tools := tools\<rparr>) (answering role out) rq cx) (\<lambda>r. resp_output r = out)"
  unfolding goes_def
  by (intro allI impI role_succeeds assms fitting_tick fitting_changes) (use goesD[OF goes_record_step] in simp)

section \<open>A task, its agents and its git\<close>

definition sample_prompt :: optimized_prompt where
  "sample_prompt = \<lparr> op_id = ''p'', op_role = Coder, op_systemPrompt = ''s'', op_taskPrompt = ''t'', op_contextSummary = ''c'',
     op_constraints = [], op_outputSchema = JStr ''x'' \<rparr>"

definition sample_code :: code_execution_output where
  "sample_code = \<lparr> changed = True, code_summary = ''edit'', changedFiles = [''a.ts''], code_evidence = [\<lparr> ce_type = Workspace_Diff, ce_description = ''diff'', ce_reference = None \<rparr>], noOpReason = None \<rparr>"

definition sample_review :: review_result where
  "sample_review = \<lparr> approved = True, blockingIssues = [], nonBlockingSuggestions = [], missingTests = [], review_notes = [] \<rparr>"

definition sample_testing :: test_execution_result where
  "sample_testing = \<lparr> test_passed = True, testPlan = [], test_evidence = [''ok''], test_failures = [], missingCoverage = [], qualityStages = None \<rparr>"

definition sample_registry :: "agent_role \<Rightarrow> agent option" where
  "sample_registry role = (case role of
     Prompt_Engineer \<Rightarrow> Some (answering Prompt_Engineer (Out_Prompt sample_prompt))
   | Coder \<Rightarrow> Some (answering Coder (Out_Code sample_code))
   | Reviewer \<Rightarrow> Some (answering Reviewer (Out_Review sample_review))
   | Tester \<Rightarrow> Some (answering Tester (Out_Test sample_testing)) | _ \<Rightarrow> None)"

definition still_git :: git_executors where
  "still_git = sample_executors\<lparr>gx_hasChanges := (\<lambda>_. Inr False)\<rparr>"

definition sample_task_env :: task_env where
  "sample_task_env = \<lparr> tk_registry = sample_registry, tk_runner = open_runner, tk_workflow = sample_config False,
     tk_executors = still_git, tk_limits = \<lparr> rl_maxSteps = 5, rl_maxRetries = 3 \<rparr>, tk_allowedWritePaths = [], tk_packageManager = None,
     tk_qualityGateMode = None, tk_porcelain = (\<lambda>_. None) \<rparr>"

definition sample_workspace :: workspace where
  "sample_workspace = \<lparr> ws_rootPath = ''/w'', ws_branchName = Some ''b'', ws_initialDiff = [], ws_tools = (\<lambda>_ _ _ _. Timed_Out 5) \<rparr>"

section \<open>The stages go on\<close>

lemma goes_getRole: "sample_registry role = Some ag \<Longrightarrow> goes p (getRole sample_task_env role) (\<lambda>x. x = ag)"
  by (simp add: goes_def getRole_def wp_liftA sample_task_env_def)

lemma goes_makeContext: "goes p (makeContext tk role run dir tid sig) (\<lambda>cx. cx_runId cx = run)"
  by (simp add: goes_def makeContext_def wp_getA resolve_policy_def Let_def)

lemma goes_task_event: "goes p (task_event sample_env ty t run xs) (\<lambda>_. True)"
  unfolding task_event_def by (rule goes_event)

lemma goes_call:
  assumes "registry_output_issues out = []" and "run \<noteq> []" and "rq_role rq = role" and "ag = answering role out"
    and "\<And>cx r. resp_output r = out \<Longrightarrow> goes p (f cx r) Q"
  shows "goes p (bindA (makeContext sample_task_env role run dir tid sig) (\<lambda>cx.
     bindA (role_execute sample_env (tk_runner sample_task_env\<lparr>rn_tools := tools\<rparr>) ag rq cx) (f cx))) Q"
proof -
  have r: "tk_runner sample_task_env = open_runner" by (simp add: sample_task_env_def)
  show ?thesis
    unfolding assms(4) r by (rule goes_bind[OF goes_makeContext], rule goes_bind[OF goes_role]) (use assms in auto)
qed

lemmas word_checks = secret_like_def to_lower_def lower_char_def truncateText_def

lemma sample_artifacts:
  "recordable_artifact Optimized_Prompt ''Prompt for t2'' [(''taskId'', ''t2''), (''promptId'', ''p'')]"
  "recordable_artifact Run_Summary ''Task t2 completion summary'' [(''taskId'', ''t2''), (''summary'', ''edit'')]"
  "recordable_artifact Run_Summary ''Run summary for t2'' [(''runId'', ''r''), (''taskId'', ''t2''), (''status'', ''completed'')]"
  by (simp_all add: recordable_artifact_def registry_validate_def validateArtifact_def artifact_validator_def requireMetadata_def
      requireAnyMetadata_def meta_present_def template_def word_checks blank_iff is_space_def)

abbreviation sample_tk :: "task_env" where
  "sample_tk \<equiv> sample_task_env\<lparr>tk_runner := (tk_runner sample_task_env)\<lparr>rn_tools := ws_tools sample_workspace\<rparr>\<rparr>"

lemma sample_tk_same: "getRole sample_tk = getRole sample_task_env" "makeContext sample_tk = makeContext sample_task_env"
  "tk_runner sample_tk = tk_runner sample_task_env\<lparr>rn_tools := ws_tools sample_workspace\<rparr>" "tk_porcelain sample_tk = (\<lambda>_. None)"
  by (auto simp: getRole_def makeContext_def fun_eq_iff sample_task_env_def)

lemma sample_accepted:
  "registry_output_issues (Out_Prompt sample_prompt) = []" "registry_output_issues (Out_Code sample_code) = []"
  "registry_output_issues (Out_Review sample_review) = []" "registry_output_issues (Out_Test sample_testing) = []"
  by (simp_all add: validateOptimizedPrompt_def sample_prompt_def validateCodeExecutionOutput_def sample_code_def blank_iff is_space_def)

lemma goes_prompt_stage: "goes p (prompt_stage sample_env sample_tk sample_t2 ''r'' sample_workspace sig) (\<lambda>x. x = sample_prompt)"
proof -
  have a: "recordable_artifact Optimized_Prompt (''Prompt for '' @ task_id sample_t2) [(''taskId'', task_id sample_t2), (''promptId'', op_id sample_prompt)]"
    using sample_artifacts(1) by (simp add: sample_prompt_def)
  have ag: "sample_registry Prompt_Engineer = Some (answering Prompt_Engineer (Out_Prompt sample_prompt))" by (simp add: sample_registry_def)
  show ?thesis
    unfolding prompt_stage_def sample_tk_same
    by (rule goes_bind[OF goes_get], rule goes_bind[OF goes_getRole[OF ag]], rule goes_bind[OF goes_get], rule goes_call[OF sample_accepted(1)],
        simp, simp, assumption, rule goes_bind[OF goes_lift[where Q = "\<lambda>x. x = sample_prompt"]])
      (auto intro!: goes_then[OF goes_task_event] goes_then[OF goes_record_made[OF a[simplified]]] goes_ret)
qed

lemma goes_execution_stage:
  "goes p (execution_stage sample_env sample_tk sample_t2 ''r'' sample_workspace sig q) (\<lambda>x. x = Out_Code sample_code)"
proof -
  have role: "routeTaskToRole sample_t2 = Coder" by (simp add: routeTaskToRole_def sample_task_def)
  have ag: "sample_registry Coder = Some (answering Coder (Out_Code sample_code))" by (simp add: sample_registry_def)
  have pol: "\<exists>u. enforceExecutionPolicy None cx = Inr u" for cx
    by (auto simp: enforceExecutionPolicy_def listWorkspaceChangedFiles_def split: option.split)
  show ?thesis
    unfolding execution_stage_def sample_tk_same role Let_def
    by (rule goes_bind[OF goes_getRole[OF ag]], rule goes_call[OF sample_accepted(2)], simp, simp add: execution_request_def role, assumption,
        rule goes_bind[where P = "\<lambda>x. x = None"], simp add: goes_def wp_getA)
      (use pol in \<open>auto intro!: goes_then[OF goes_lift[where Q = "\<lambda>_. True"]] goes_then[OF goes_task_event] goes_ret\<close>)
qed

lemma nn: "P \<Longrightarrow> \<not> \<not> P"
  by simp

lemma goes_review_stage:
  "goes p (review_stage sample_env sample_tk sample_t2 ''r'' sample_workspace sig (Out_Code sample_code)) (\<lambda>x. x = None)"
proof -
  have need: "requiresReview sample_t2" by (simp add: requiresReview_def sample_task_def)
  have ag: "sample_registry Reviewer = Some (answering Reviewer (Out_Review sample_review))" by (simp add: sample_registry_def)
  have ok: "approved sample_review" "blockingIssues sample_review = []" by (simp_all add: sample_review_def)
  show ?thesis
    unfolding review_stage_def sample_tk_same if_not_P[OF nn[OF need]]
    by (rule goes_bind[OF goes_getRole[OF ag]], rule goes_call[OF sample_accepted(3)],
        simp, simp add: review_request_def, assumption, rule goes_bind[OF goes_lift[where Q = "\<lambda>x. x = sample_review"]])
      (auto simp: ok intro!: goes_then[OF goes_task_event] goes_ret)
qed

lemma goes_health: "goes p (applyRepoHealthFromTestingResult None True) (\<lambda>_. True)"
proof -
  have v: "valid_state z (s\<lparr>ps_health := h\<rparr>) = valid_state z s" for z s h by (auto simp: valid_parts)
  show ?thesis
    by (auto simp: goes_def applyRepoHealthFromTestingResult_def wp_simps fitting_def ready_changes v plan_of_def)
qed

lemma goes_test_stage:
  "goes p (test_stage sample_env sample_tk sample_t2 ''r'' sample_workspace sig (Out_Code sample_code)) (\<lambda>x. x = None)"
proof -
  have need: "requiresTesting sample_t2" by (simp add: requiresTesting_def sample_task_def)
  have ag: "sample_registry Tester = Some (answering Tester (Out_Test sample_testing))" by (simp add: sample_registry_def)
  have ok: "test_passed sample_testing" "test_failures sample_testing = []" "qualityStages sample_testing = None"
    by (simp_all add: sample_testing_def)
  have checks: "enforceRequiredChecks cx None = Inr ()" for cx by (simp add: enforceRequiredChecks_def Let_def)
  have none: "persistQualityStageArtifacts sample_env run tid None = ret ()" for run tid by (simp add: persistQualityStageArtifacts_def)
  show ?thesis
    unfolding test_stage_def sample_tk_same if_not_P[OF nn[OF need]]
    by (rule goes_bind[OF goes_getRole[OF ag]], rule goes_call[OF sample_accepted(4)],
        simp, simp add: test_request_def, assumption, rule goes_bind[OF goes_lift[where Q = "\<lambda>x. x = sample_testing"]])
      (auto simp: ok checks none intro!: goes_then[OF goes_health] goes_bind[OF goes_makeContext] goes_then[OF goes_task_event]
         goes_then[OF goes_lift[where Q = "\<lambda>_. True"]] goes_then[OF goes_ret[where Q = "\<lambda>_. True"]] goes_ret)
qed

section \<open>Git and the end of the run\<close>

lemma sample_pr_body: "pr_body (sample_git ''t'') ''b'' ''none'' =
    ''Task: t2'' @ [CHR 0x0A] @ ''Run: r'' @ [CHR 0x0A] @ ''Branch: b'' @ [CHR 0x0A] @ ''Commit: none'' @ [CHR 0x0A, CHR 0x0A] @
    ''Automated draft PR from ai-orchestrator.''"
  by (simp add: pr_body_def sample_git_def)

lemma git_artifact:
  assumes "\<forall>v \<in> set (rec_values meta). \<not> secret_like v \<and> v \<noteq> []" and "title \<noteq> []" "\<not> blank title"
    and "rec_get meta ''taskId'' = Some ''t2''" "rec_get meta ''runId'' = Some ''r''" "rec_get meta ''stage'' = Some st" "\<not> blank st"
  shows "recordable_artifact Git_Lifecycle title meta"
  using assms by (auto simp: recordable_artifact_def registry_validate_def validateArtifact_def artifact_validator_def requireMetadata_def
      meta_present_def template_def) (auto simp: blank_iff is_space_def)

lemma sample_git_artifacts:
  "recordable_artifact Git_Lifecycle ''Git commit metadata for t2''
     [(''runId'', ''r''), (''taskId'', ''t2''), (''stage'', ''commit''), (''branchName'', ''b''), (''commitStatus'', ''skipped_no_changes''),
      (''pushStatus'', ''skipped_no_changes''), (''commitSha'', truncateText ''none'' 120),
      (''commitMessage'', truncateText (commit_message (sample_git ''t'')) 250)]"
  "recordable_artifact Git_Lifecycle ''PR draft metadata for t2''
     [(''runId'', ''r''), (''taskId'', ''t2''), (''stage'', ''pr_draft''), (''branchName'', ''b''),
      (''prStatus'', ''skipped_push_not_successful''), (''prTitle'', truncateText (pr_title (sample_git ''t'')) 250),
      (''prBody'', truncateText (pr_body (sample_git ''t'') ''b'' ''none'') 250)]"
proof -
  have b: "\<not> blank ''commit''" "\<not> blank ''pr_draft''" "\<not> blank ''Git commit metadata for t2''" "\<not> blank ''PR draft metadata for t2''"
    by (simp_all add: blank_def js_trim_def is_space_def)
  have m: "truncateText (commit_message (sample_git ''t'')) 250 = ''feat(t2): t [run:r]''" "truncateText ''none'' 120 = ''none''"
    "truncateText (pr_title (sample_git ''t'')) 250 = ''[t2] t''"
    by (simp_all add: truncateText_def commit_message_def pr_title_def sample_git_def)
  show "recordable_artifact Git_Lifecycle ''Git commit metadata for t2''
     [(''runId'', ''r''), (''taskId'', ''t2''), (''stage'', ''commit''), (''branchName'', ''b''), (''commitStatus'', ''skipped_no_changes''),
      (''pushStatus'', ''skipped_no_changes''), (''commitSha'', truncateText ''none'' 120),
      (''commitMessage'', truncateText (commit_message (sample_git ''t'')) 250)]"
    unfolding m by (rule git_artifact[OF _ _ b(3) _ _ _ b(1)]) (simp_all add: word_checks)
  show "recordable_artifact Git_Lifecycle ''PR draft metadata for t2''
     [(''runId'', ''r''), (''taskId'', ''t2''), (''stage'', ''pr_draft''), (''branchName'', ''b''),
      (''prStatus'', ''skipped_push_not_successful''), (''prTitle'', truncateText (pr_title (sample_git ''t'')) 250),
      (''prBody'', truncateText (pr_body (sample_git ''t'') ''b'' ''none'') 250)]"
    unfolding m by (rule git_artifact[OF _ _ b(4) _ _ _ b(2)]) (simp_all add: word_checks sample_pr_body)
qed

lemma goes_git: "goes p (git_complete sample_env cf still_git (sample_git ''t'')) (\<lambda>x. x = Git_Ok)"
proof -
  have i: "gi_branch (sample_git ''t'') = Some ''b''" "gi_run (sample_git ''t'') = ''r''" "gi_task (sample_git ''t'') = ''t2''"
    by (simp_all add: sample_git_def)
  have none: "goes p (ask (gx_hasChanges still_git)) (\<lambda>x. x = False)"
    by (simp add: goes_def wp_ask still_git_def fitting_tick)
  let ?none = "\<lparr> gp_commit = ''skipped_no_changes'', gp_push = ''skipped_no_changes'', gp_sha = ''none'', gp_waiting = False \<rparr>"
  have fin: "goes p (git_finish sample_env (sample_git ''t'') ''b'' ?none (''skipped_push_not_successful'', False)) (\<lambda>x. x = Git_Ok)"
    unfolding git_finish_def Let_def
    using sample_git_artifacts(2) by (intro goes_then[OF goes_record_made]) (auto simp: i whenA_def intro!: goes_then[OF goes_ret] goes_ret)
  have commit: "goes p (record_made sample_env Git_Lifecycle (''Git commit metadata for '' @ ''t2'')
        [(''runId'', ''r''), (''taskId'', ''t2''), (''stage'', ''commit''), (''branchName'', ''b''),
         (''commitStatus'', gp_commit ?none), (''pushStatus'', gp_push ?none), (''commitSha'', truncateText (gp_sha ?none) 120),
         (''commitMessage'', truncateText (commit_message (sample_git ''t'')) 250)]) (\<lambda>_. True)"
    using goes_record_made[OF sample_git_artifacts(1)] by simp
  have q: "(gp_push ?none = ''pushed'') = False" by simp
  show ?thesis
    unfolding git_complete_def i option.case
    by (rule goes_bind_eq[OF goes_ret_eq], unfold git_complete_on_def or_default_simps,
        rule goes_bind_eq[OF none], unfold if_False i,
        rule goes_bind_eq[OF goes_ret_eq], rule goes_then[OF commit], unfold q if_False,
        rule goes_bind_eq[OF goes_ret_eq], rule fin)
qed

abbreviation open_plan :: "backlog \<times> string list \<times> string list" where
  "open_plan \<equiv> plan_of sample_state"

abbreviation done_plan :: "backlog \<times> string list \<times> string list" where
  "done_plan \<equiv> plan_of (complete_task ''t2'' sample_state)"

lemma sample_plan:
  "ps_backlog sample_state = \<lparr> backlog_epics = [], backlog_features = [],
     backlog_tasks = [(''t1'', sample_task ''t1'' P2), (''t2'', sample_t2), (''t3'', sample_task ''t3'' P0)] \<rparr>"
  "ex_completed (ps_execution sample_state) = []" "ex_blocked (ps_execution sample_state) = []"
  by (simp_all add: sample_state_def createEmptyProjectState_def)

lemma valid_mark_done:
  assumes "valid_state z s" and "plan_of s = open_plan"
  shows "valid_state z (complete_task ''t2'' s)" and "plan_of (complete_task ''t2'' s) = done_plan"
proof -
  have s: "ps_backlog s = \<lparr> backlog_epics = [], backlog_features = [],
     backlog_tasks = [(''t1'', sample_task ''t1'' P2), (''t2'', sample_t2), (''t3'', sample_task ''t3'' P0)] \<rparr>"
    "ex_completed (ps_execution s) = []" "ex_blocked (ps_execution s) = []"
    using assms(2) sample_plan by (simp_all add: plan_of_def)
  have t: "validateBacklogTask (sample_t2\<lparr>task_status := Done\<rparr>) = []" "taskSchema (sample_t2\<lparr>task_status := Done\<rparr>)"
    by (simp_all add: sample_task_def validateBacklogTask_def taskSchema_def all_min1_def opt_min1_def blank_def js_trim_def is_space_def)
  show "valid_state z (complete_task ''t2'' s)"
    using assms(1) t by (auto simp: valid_parts complete_task_def modify_task_def set_tasks_def s Let_def rec_has_def all_min1_def)
      (simp_all add: sample_task_def opt_min1_def)
  show "plan_of (complete_task ''t2'' s) = done_plan"
    by (simp add: plan_of_def complete_task_def modify_task_def set_tasks_def s sample_plan Let_def)
qed

lemma goes_set_active:
  "goes open_plan (set_execution (\<lambda>e. e\<lparr>ex_activeRun := Some ''r'', ex_activeTask := Some ''t2''\<rparr>)) (\<lambda>_. True)"
proof -
  have has: "rec_has (tasks_of s) ''t2''" if "plan_of s = open_plan" for s
    using that sample_plan by (simp add: plan_of_def rec_has_def)
  have "valid_state z (s\<lparr>ps_execution := (ps_execution s)\<lparr>ex_activeRun := Some ''r'', ex_activeTask := Some ''t2''\<rparr>\<rparr>)"
    if "valid_state z s" "plan_of s = open_plan" for z s
    using that(1) has[OF that(2)] by (auto simp: valid_parts opt_min1_def)
  then show ?thesis
    by (auto simp: goes_def wp_simps fitting_def ready_changes plan_of_def)
qed

text \<open>From marking the task done to the last save.\<close>

lemma wp_goes_bind:
  "goes p m P \<Longrightarrow> fitting p u \<Longrightarrow> (\<And>x v. P x \<Longrightarrow> fitting p v \<Longrightarrow> wp (f x) Q (\<lambda>_ _. False) v) \<Longrightarrow> wp (bindA m f) Q (\<lambda>_ _. False) u"
  unfolding wp_bindA by (rule wp_mono[OF goesD]) auto

lemma wp_goes_then:
  "goes p m P \<Longrightarrow> fitting p u \<Longrightarrow> (\<And>v. fitting p v \<Longrightarrow> wp k Q (\<lambda>_ _. False) v) \<Longrightarrow> wp (thenA m k) Q (\<lambda>_ _. False) u"
  unfolding wp_thenA by (rule wp_mono[OF goesD]) auto

lemma wp_mark_done: "fitting open_plan w \<Longrightarrow> wp k Q E (w\<lparr>wd_state := complete_task ''t2'' (wd_state w)\<rparr>) \<Longrightarrow>
    wp (thenA (set_state (complete_task ''t2'')) k) Q E w"
  by (simp add: wp_simps)

lemma fitting_done: "fitting open_plan w \<Longrightarrow> fitting done_plan (w\<lparr>wd_state := complete_task ''t2'' (wd_state w)\<rparr>)"
proof -
  have s: "ps_revision (complete_task i s) = ps_revision s" "ps_org (complete_task i s) = ps_org s" "ps_project (complete_task i s) = ps_project s" for i s
    by (simp_all add: complete_task_def Let_def modify_task_def set_tasks_def)
  assume "fitting open_plan w"
  then show ?thesis
    using valid_mark_done[of sample_zod "wd_state w"] unfolding fitting_def by (simp add: ready_changes s)
qed

lemma wp_last_save:
  assumes "fitting p w"
  shows "wp (thenA flushToState (thenA (save_state sample_env evs) (ret x))) (\<lambda>y _. y = x) (\<lambda>_ _. False) w"
proof -
  note f = assms[unfolded fitting_def]
  let ?v = "snd (flushToState w)"
  have log: "valid_state z (append_log b s)" if "valid_state z s" "\<forall>x \<in> set b. runStepLogEntrySchema (z_iso z) x" for z b s
    using that by (auto simp: valid_parts append_log_def)
  have v: "valid_state sample_zod (wd_state ?v)" "ps_revision (wd_state ?v) = ps_revision (wd_stored ?v)" "gd_lease (wd_guard ?v) = None"
    using f log[of sample_zod] ready_changes(5)[of w]
    by (auto simp: flushToState_def modA_def Let_def append_log_def max_def ready_def split: option.splits)
  have e: "en_zod sample_env = sample_zod" by (simp add: sample_env_def)
  show ?thesis
    unfolding wp_thenA wp_flushToState save_state_def wp_bindA wp_getA
    using v by (simp add: wp_protected_free saveWithEvents_def wp_commit_valid e wp_simps)
qed

lemma goes_finish:
  assumes w: "fitting open_plan w"
  shows "wp (finish_stage sample_env sample_tk sample_t2 ''r'' sample_workspace (Out_Code sample_code))
     (\<lambda>res _. cr_status res = Cycle_Completed) (\<lambda>_ _. False) w"
proof -
  have ev: "enforceCompletionEvidence sample_t2 (Out_Code sample_code) = Inr ()"
    by (simp add: enforceCompletionEvidence_def sample_code_def blank_def js_trim_def is_space_def)
  have a: "recordable_artifact Run_Summary (''Task '' @ ''t2'' @ '' completion summary'')
      [(''taskId'', ''t2''), (''summary'', or_default (out_summary (Out_Code sample_code)) [])]"
    "recordable_artifact Run_Summary (''Run summary for '' @ ''t2'') [(''runId'', ''r''), (''taskId'', ''t2''), (''status'', ''completed'')]"
    using sample_artifacts(2,3) by (simp_all add: sample_code_def)
  have env: "tk_workflow sample_tk = sample_config False" "tk_executors sample_tk = still_git" by (simp_all add: sample_task_env_def)
  have git: "\<lparr> gi_run = ''r'', gi_task = ''t2'', gi_title = task_title sample_t2, gi_branch = when_truthy (ws_branchName sample_workspace) \<rparr> = sample_git ''t''"
    by (simp add: sample_git_def sample_workspace_def sample_task_def when_truthy_def)
  have gate: "proper_request (buildPostflightPolicyGateDecisionRequest ''r'' ''t2'')"
    by (simp add: proper_request_def buildPostflightPolicyGateDecisionRequest_def)
  have tid: "task_id sample_t2 = ''t2''" by simp
  define closing where "closing = (\<lambda>git. thenA (persistAndRequire sample_env (buildPostflightPolicyGateDecisionRequest ''r'' ''t2''))
     (bindA (fresh_uuid sample_env) (\<lambda>u. bindA (clock sample_env) (\<lambda>now.
      thenA flushToState
     (thenA (save_state sample_env [makeEvent u now STATE_COMMITTED [(''taskId'', [''t2''])] (Some ''r'') None])
        (ret \<lparr> cr_run = ''r'', cr_status = (if git = Git_Approval_Pending then Cycle_Blocked else Cycle_Completed),
               cr_task = Some ''t2'', cr_reason = (if git = Git_Approval_Pending then Some ''approval_pending'' else None) \<rparr>))))))"
  have closing: "wp (closing Git_Ok) (\<lambda>res _. cr_status res = Cycle_Completed) (\<lambda>_ _. False) u" if "fitting p u" for p u
    unfolding closing_def
    by (rule wp_goes_then[OF goes_gate[OF gate] that], rule wp_goes_bind[OF goes_draws(1)], assumption,
        rule wp_goes_bind[OF goes_draws(2)], assumption, rule wp_mono[OF wp_last_save]) auto
  show ?thesis
    unfolding finish_stage_def Let_def tid env git closing_def[symmetric]
    by (rule wp_goes_then[OF goes_lift[OF ev, where Q = "\<lambda>_. True"] w], simp, rule wp_mark_done, assumption, drule fitting_done,
        rule wp_goes_bind[OF goes_artifact[OF a(1)]], assumption, rule wp_goes_bind[OF goes_artifact[OF a(2)]], assumption,
        (rule wp_goes_then[OF goes_store_artifact], blast, blast, assumption)+, (rule wp_goes_then[OF goes_push_artifact], blast, assumption)+,
        rule wp_goes_bind[OF goes_git], assumption)
      (use closing in simp)
qed

text \<open>The run completes.\<close>

lemma goes_preflight: "goes p (persistAndRequire sample_env (buildPreflightPolicyGateDecisionRequest ''r'' ''t2'')) (\<lambda>_. True)"
  by (rule goes_gate) (simp add: proper_request_def buildPreflightPolicyGateDecisionRequest_def)

lemma goes_body: "fitting open_plan w \<Longrightarrow>
    wp (task_body sample_env sample_tk sample_t2 ''r'' sample_workspace sig) (\<lambda>res _. cr_status (fst res) = Cycle_Completed) (\<lambda>_ _. False) w"
  unfolding task_body_def sample_task_sel
  by (rule wp_goes_then[OF goes_set_active], assumption, rule wp_goes_then[OF goes_task_event], assumption,
      rule wp_goes_then[OF goes_preflight], assumption, rule wp_goes_bind[OF goes_prompt_stage], assumption, hypsubst,
      rule wp_goes_bind[OF goes_execution_stage], assumption, hypsubst, rule wp_goes_bind[OF goes_review_stage], assumption, simp,
      rule wp_goes_bind[OF goes_test_stage], assumption, simp)
    (simp add: wp_bindA, rule wp_mono[OF goes_finish], auto simp: wp_ret)

lemma fitting_sample: "fitting open_plan sample_world"
proof -
  have w: "wd_state sample_world = sample_state" "wd_stored sample_world = sample_state" "wd_buffer sample_world = None" "wd_latest sample_world = None"
    by (simp_all add: sample_world_def sample_store_def)
  have s: "ps_org sample_state = ''org''" "ps_project sample_state = ''p''" by (simp_all add: sample_state_def createEmptyProjectState_def)
  show ?thesis unfolding fitting_def w s using ready_sample sample_state_valid by simp
qed

lemma sample_task_completes:
  "\<exists>res w'. task_run sample_env sample_task_env sample_t2 ''r'' sample_workspace None sample_world = (Inr res, w') \<and> cr_status res = Cycle_Completed"
proof -
  let ?w1 = "snd (startRun ''r'' (''org'', ''p'') sample_world)"
  have w1: "fitting open_plan ?w1"
    using fitting_sample ready_startRun[OF ready_sample, of "''r''"] by (auto simp: fitting_def startRun_def modA_def split: if_splits)
  have scope: "(ps_org (wd_state sample_world), ps_project (wd_state sample_world)) = (''org'', ''p'')"
    using fitting_sample by (simp add: fitting_def)
  have start: "wp (startRun ''r'' (''org'', ''p'')) Q E sample_world = Q () ?w1" for Q E by (simp add: startRun_def modA_def wp_def)
  have eq: "thenA a (thenA b c) = thenA (thenA a b) c" for a :: "unit run" and b :: "unit run" and c :: "cycle_result run"
    by (simp add: thenA_def bindA_assoc)
  have closing: "wp (thenA (recordRunCostSummaryArtifact sample_env ''r'' (task_id sample_t2) oc) (thenA clearBuffer (liftA (map_sum id fst r))))
      (\<lambda>res _. cr_status res = Cycle_Completed) (\<lambda>_ _. False) u"
    if "\<exists>x. r = Inr x \<and> cr_status (fst x) = Cycle_Completed" for oc u and r :: "(cycle_result \<times> bool) result"
    unfolding eq wp_thenA[of "thenA _ _"] by (rule wp_mono[OF cost_summary_returns]) (use that in \<open>auto simp: wp_liftA\<close>)
  have body: "wp (bindA (attempt (task_body sample_env sample_tk sample_t2 ''r'' sample_workspace None)) (\<lambda>r.
      thenA (recordRunCostSummaryArtifact sample_env ''r'' (task_id sample_t2) (run_outcome r)) (thenA clearBuffer (liftA (map_sum id fst r)))))
      (\<lambda>res _. cr_status res = Cycle_Completed) (\<lambda>_ _. False) u" if "fitting open_plan u" for u
    unfolding wp_bindA[of "attempt _"] wp_attempt
    by (rule wp_mono[OF goes_body[OF that]]; (rule closing)?) auto
  have "wp (task_run sample_env sample_task_env sample_t2 ''r'' sample_workspace None) (\<lambda>res _. cr_status res = Cycle_Completed) (\<lambda>_ _. False) sample_world"
    unfolding task_run_def Let_def wp_bindA[of "getA _"] wp_getA scope wp_thenA[of "startRun _ _"] wp_thenA[of "set_cost _"] start
    using body[of "?w1\<lparr>wd_cost := resetTask (wd_cost ?w1)\<rparr>"] w1 by (simp add: set_cost_def wp_modA fitting_changes)
  then show ?thesis
    by (cases "task_run sample_env sample_task_env sample_t2 ''r'' sample_workspace None sample_world") (auto simp: wp_def split: sum.splits)
qed

end
