(* ===== verification/Task_Contract.thy ===== *)
theory Task_Contract
  imports Sample_Run
begin

text \<open>
  What a run of a task guarantees: which answers stand behind a completed task, what a run that throws has left in the
  store, and which tasks cannot complete at all.
\<close>

section \<open>The plan a run leaves alone until its end\<close>

text \<open>\<open>steady v w\<close>: from \<open>v\<close> to \<open>w\<close> neither the stored plan nor the plan of the run's state object has changed, and
  no policy decision was lost.\<close>

definition steady :: "world \<Rightarrow> world \<Rightarrow> bool" where
  "steady v w \<longleftrightarrow> plan_of (wd_stored w) = plan_of (wd_stored v) \<and> plan_of (wd_state w) = plan_of (wd_state v) \<and>
     set (ps_policyDecisions (wd_stored v)) \<subseteq> set (ps_policyDecisions (wd_stored w)) \<and>
     set (ps_policyDecisions (wd_state v)) \<subseteq> set (ps_policyDecisions (wd_state w))"

lemma steady_refl [simp]: "steady v v"
  by (simp add: steady_def)

lemma steady_trans: "steady u v \<Longrightarrow> steady v w \<Longrightarrow> steady u w"
  unfolding steady_def by auto

interpretation steady: frame steady
  by unfold_locales (auto intro: steady_trans)

named_theorems steady_intros \<open>runs that leave the plan alone\<close>

lemmas [steady_intros] = steady.keeps_intros

lemma plan_of_updates [simp]:
  "plan_of (s\<lparr>ps_revision := r\<rparr>) = plan_of s" "plan_of (s\<lparr>ps_artifacts := a\<rparr>) = plan_of s"
  "plan_of (s\<lparr>ps_policyDecisions := d\<rparr>) = plan_of s" "plan_of (s\<lparr>ps_approvals := p\<rparr>) = plan_of s"
  "plan_of (s\<lparr>ps_health := h\<rparr>) = plan_of s" "plan_of (with_artifact x s) = plan_of s"
  "plan_of (append_step st s) = plan_of s" "plan_of (append_log b s) = plan_of s"
  by (simp_all add: plan_of_def with_artifact_def append_step_def append_log_def)

lemma steady_set_state:
  "(\<And>s. plan_of (f s) = plan_of s) \<Longrightarrow> (\<And>s. set (ps_policyDecisions s) \<subseteq> set (ps_policyDecisions (f s))) \<Longrightarrow>
   keeps steady (set_state f)"
  by (rule keepsI) (simp add: wp_simps steady_def)

lemma steady_primitives [steady_intros]:
  "keeps steady (fresh_uuid ev)" "keeps steady (clock ev)" "keeps steady (ask x)" "keeps steady (effect e y)"
  "keeps steady (set_revision r)" "keeps steady (push_artifact a)" "keeps steady (set_cost c)" "keeps steady (startRun run scope)"
  "keeps steady clearBuffer" "keeps steady (is_aborted rn cx)" "keeps steady (date_now ev)" "keeps steady (outside e z)"
  by (rule keepsI; simp add: wp_simps wp_ask wp_outside_call set_cost_def startRun_def clearBuffer_def is_aborted_def date_now_def steady_def
        wp_def[of "effect e y"] effect_def split: sum.split)+

lemma steady_require_valid [steady_intros]: "keeps steady (require_valid ev)"
  by (rule keepsI, rule wp_require_valid) (simp_all add: steady_def)

lemma steady_record_event [steady_intros]: "keeps steady (record_event ev ty payload run)"
  unfolding record_event_def by (rule keepsI) (auto simp: wp_simps steady_def intro!: wp_protected)

lemma steady_record_step [steady_intros]: "keeps steady (record_step ev i)"
  by (rule keepsI, rule wp_record_step) (auto simp: steady_def Let_def append_step_def plan_of_def)

lemma steady_store_artifact [steady_intros]: "keeps steady (store_artifact ev a)"
  unfolding store_artifact_def
  by (rule keepsI) (auto simp: wp_simps steady_def with_artifact_def own_revision_def intro!: wp_protected wp_recordArtifact)

lemma steady_persistAndRequire [steady_intros]: "keeps steady (persistAndRequire ev q)"
  by (rule keepsI, rule wp_persistAndRequire) (auto simp: steady_def Let_def)

lemma steady_flushToState [steady_intros]: "keeps steady flushToState"
  by (rule keepsI)
    (auto simp: wp_def flushToState_def modA_def steady_def Let_def plan_of_def append_log_def split: option.splits)

lemma steady_dedup [steady_intros]:
  "keeps steady (reserve_effect key owner now)" "keeps steady (complete_effect ev key ok)"
  by (rule keepsI, auto simp: wp_def reserve_effect_def steady_def plan_of_def split: prod.splits sum.splits)
    (unfold complete_effect_def, rule keepsI, simp add: wp_simps steady_def plan_of_def)

lemma steady_record_artifact [steady_intros]: "keeps steady (record_artifact ev a)"
  unfolding record_artifact_parts by (intro steady_intros)

lemma steady_artifacts [steady_intros]:
  "keeps steady (makeArtifact ev ty title meta)" "keeps steady (record_made ev ty title meta)" "keeps steady (git_key ev run tid kind nrm)"
  "keeps steady (recordBranchArtifact ev run tid b)" "keeps steady (recordRunCostSummaryArtifact ev run tid st)"
  unfolding makeArtifact_def record_made_def git_key_def recordBranchArtifact_def recordRunCostSummaryArtifact_def by (intro steady_intros)+

section \<open>Git\<close>

lemma steady_evaluateApprovalGate [steady_intros]: "keeps steady (evaluateApprovalGate ev run tid a reason meta)"
proof -
  have "keeps steady (set_state (\<lambda>s. s\<lparr>ps_approvals := ps_approvals s @ [r]\<rparr>))" for r by (rule steady_set_state) simp_all
  then show ?thesis
    unfolding evaluateApprovalGate_def Let_def by (intro steady_intros) (auto intro!: steady_intros split: option.split)
qed

lemma steady_source_gates [steady_intros]: "keeps steady (source_gates ev cf i branch sha waiting as)"
  by (induction as arbitrary: waiting) (auto intro!: steady_intros)

lemma steady_git [steady_intros]:
  "keeps steady (approval_gate ev cf run tid a reason meta)" "keeps steady (guarded_effect ev q e call ok key)"
  unfolding approval_gate_def guarded_effect_def by (intro steady_intros)+

lemma keeps_cases [steady_intros]:
  "keeps R m \<Longrightarrow> (\<And>x. keeps R (f x)) \<Longrightarrow> keeps R (case v of None \<Rightarrow> m | Some x \<Rightarrow> f x)"
  "(\<And>x. keeps R (g x)) \<Longrightarrow> (\<And>x. keeps R (h x)) \<Longrightarrow> keeps R (case r of Inl x \<Rightarrow> g x | Inr x \<Rightarrow> h x)"
  by (auto split: option.split sum.split)

lemma steady_git_push_phase [steady_intros]: "keeps steady (git_push_phase ev cf gx i branch sha)"
  unfolding git_push_phase_def by (intro steady_intros)

lemma steady_git_after_commit [steady_intros]: "keeps steady (git_after_commit ev cf gx i branch c)"
  unfolding git_after_commit_def by (intro steady_intros)

lemma steady_git_commit_phase [steady_intros]: "keeps steady (git_commit_phase ev cf gx i branch)"
  unfolding git_commit_phase_def by (intro steady_intros)

lemma steady_git_pr_phase [steady_intros]: "keeps steady (git_pr_phase ev cf gx i branch sha)"
  unfolding git_pr_phase_def by (intro steady_intros)

lemma steady_git_complete [steady_intros]: "keeps steady (git_complete ev cf gx i)"
  unfolding git_complete_def git_complete_on_def git_finish_def Let_def by (intro steady_intros)

section \<open>Roles\<close>

lemma steady_runWithTimeout [steady_intros]:
  "keeps steady m \<Longrightarrow> keeps steady (runWithTimeout ev rn cx msg m)"
proof -
  assume m: "keeps steady m"
  have r: "keeps steady (case x of Settled r \<Rightarrow> liftA r | Timed_Out e \<Rightarrow> throw (a e) | Abort_Error y \<Rightarrow> throw (b y))" for x :: "'a raced" and a b
    by (cases x) (auto intro: steady_intros)
  show ?thesis unfolding runWithTimeout_def by (intro steady_intros m r)
qed

lemma steady_tool_step [steady_intros]: "keeps steady (tool_step ev rn cx ag step tr)"
  unfolding tool_step_def invokeToolRequest_def executeTool_def Let_def by (intro steady_intros)

lemma steady_role_loop [steady_intros]: "keeps steady (role_loop ev rn cx ag rq f started left step obs)"
proof (induction left arbitrary: step obs)
  case (Suc left)
  have r: "keeps steady (case r of Final_Output resp \<Rightarrow> ret resp
       | Tool_Requested tr \<Rightarrow> bindA (tool_step ev rn cx ag step tr) (\<lambda>ob. role_loop ev rn cx ag rq f started left (step + 1) (obs @ [ob])))" for r
    by (cases r) (auto intro!: steady_intros Suc.IH)
  show ?case unfolding role_loop.simps agent_step_def by (intro steady_intros r)
qed (auto intro: steady_intros)

lemma steady_role_execute [steady_intros]: "keeps steady (role_execute ev rn ag rq cx)"
  unfolding role_execute_def executeRoleWithLoop_def second_attempt_def accept_response_def Let_def by (intro steady_intros)

section \<open>The stages\<close>

lemma steady_health [steady_intros]: "keeps steady (applyRepoHealthFromTestingResult q b)"
  unfolding applyRepoHealthFromTestingResult_def by (rule steady_set_state) simp_all

lemma steady_stage_parts [steady_intros]:
  "keeps steady (task_event ev ty t run xs)" "keeps steady (persistQualityStageArtifacts ev run tid q)"
  "keeps steady (getRole tk role)" "keeps steady (makeContext tk role run dir otid sig)"
  unfolding task_event_def persistQualityStageArtifacts_def getRole_def makeContext_def by (intro steady_intros)+

lemma steady_prompt_stage [steady_intros]: "keeps steady (prompt_stage ev tk t run ws sig)"
  unfolding prompt_stage_def by (intro steady_intros)

lemma steady_execution_stage [steady_intros]: "keeps steady (execution_stage ev tk t run ws sig p)"
  unfolding execution_stage_def Let_def by (intro steady_intros)

section \<open>A failure on the way\<close>

definition went_through :: "cycle_result \<Rightarrow> bool" where
  "went_through res \<longleftrightarrow> cr_status res = Cycle_Completed \<or> cr_reason res = Some ''approval_pending''"

abbreviation plan_stored :: "world \<Rightarrow> world \<Rightarrow> bool" where
  "plan_stored v w \<equiv> plan_of (wd_stored w) = plan_of (wd_stored v)"

lemma wp_save_fails: "wp (save_state ev evs) (\<lambda>_ _. True) (\<lambda>_. plan_stored w) w"
  by (rule wp_save_state) simp_all

lemma wp_split_fails: "plan_stored w u \<Longrightarrow>
    wp (splitTaskForFailure ev t reason run) (\<lambda>res _. \<not> went_through res) (\<lambda>_. plan_stored w) u"
  unfolding splitTaskForFailure_def Let_def wp_simps
  by (rule wp_save_state) (simp_all add: wp_simps went_through_def)

lemma wp_block_fails: "reason \<noteq> ''approval_pending'' \<Longrightarrow> plan_stored w u \<Longrightarrow>
    wp (blockTaskForFailure ev t reason run) (\<lambda>res _. \<not> went_through res) (\<lambda>_. plan_stored w) u"
  unfolding blockTaskForFailure_def Let_def wp_simps
  by (rule wp_protected, rule wp_recordArtifact)
     (auto simp: wp_simps went_through_def intro!: wp_save_state)

lemma wp_handle_failure_fails:
  assumes "reason \<noteq> ''approval_pending''" "plan_stored w u"
  shows "wp (handle_failure ev m t role reason run) (\<lambda>res _. \<not> went_through res) (\<lambda>_. plan_stored w) u"
proof -
  have out: "wp (case a of
           Split_Action \<Rightarrow> splitTaskForFailure ev t reason run
         | Block_Action \<Rightarrow> blockTaskForFailure ev t reason run
         | Retry_Action \<Rightarrow> thenA (save_state ev [])
             (ret \<lparr> cr_run = run, cr_status = Cycle_Idle, cr_task = Some (task_id t), cr_reason = Some reason \<rparr>))
      (\<lambda>res _. \<not> went_through res) (\<lambda>_. plan_stored w) v" if "plan_stored w v" for a v
    using that assms(1)
    by (cases a) (auto simp: wp_simps intro!: wp_split_fails wp_block_fails wp_save_state, simp_all add: went_through_def)
  have plan: "plan_of (s\<lparr>ps_failures := f, ps_execution := (ps_execution s)\<lparr>ex_retryCounts := c\<rparr>\<rparr>) = plan_of s" for s f c
    by (simp add: plan_of_def)
  have f: "wd_stored (snd (flushToState v)) = wd_stored v" for v by (simp add: flushed_core(2))
  show ?thesis
    unfolding handle_failure_def Let_def wp_simps
    by (rule wp_protected, rule wp_recordFailure)
       (use assms(2) in \<open>auto simp: wp_simps wp_flushToState f plan intro!: out\<close>)
qed

section \<open>What stands behind a completed task\<close>

definition reviewed :: "task_env \<Rightarrow> task \<Rightarrow> role_output \<Rightarrow> bool" where
  "reviewed tk t out \<longleftrightarrow> (\<exists>ag r. tk_registry tk Reviewer = Some ag \<and> accepted ag (review_request t out) (Out_Review r) \<and> isApproved r)"

definition test_accepted :: "task_env \<Rightarrow> task \<Rightarrow> role_output \<Rightarrow> bool" where
  "test_accepted tk t out \<longleftrightarrow> (\<exists>ag r. tk_registry tk Tester = Some ag \<and> accepted ag (test_request t out) (Out_Test r) \<and> isTestPassed r)"

definition executed :: "task_env \<Rightarrow> task \<Rightarrow> role_output \<Rightarrow> bool" where
  "executed tk t out \<longleftrightarrow> (\<exists>ag p. tk_registry tk (routeTaskToRole t) = Some ag \<and> accepted ag (execution_request t p) out)"

text \<open>A step that leaves the plan alone and whose result has a property.\<close>

lemma wp_steady_with:
  assumes "keeps steady m" and "wp m (\<lambda>x _. P x) (\<lambda>_ _. True) w"
  shows "wp m (\<lambda>x u. steady w u \<and> P x) (\<lambda>_. steady w) w"
  using keepsD[OF assms(1), of w] assms(2) by (auto simp: wp_def split: prod.splits sum.splits)

lemma wp_steady_bind:
  assumes "keeps steady m" and "wp m (\<lambda>x _. P x) (\<lambda>_ _. True) u" and "steady w u"
    and "\<And>x v. P x \<Longrightarrow> steady w v \<Longrightarrow> wp (f x) Q E v" and "\<And>e v. steady w v \<Longrightarrow> E e v"
  shows "wp (bindA m f) Q E u"
  unfolding wp_bindA
  by (rule wp_mono[OF wp_steady_with[OF assms(1,2)]]) (use assms(3-5) steady_trans in blast)+

lemma wp_steady_next:
  assumes "keeps steady m" and "steady w u" and "\<And>x v. steady w v \<Longrightarrow> wp (f x) Q E v" and "\<And>e v. steady w v \<Longrightarrow> E e v"
  shows "wp (bindA m f) Q E u"
  by (rule wp_steady_bind[OF assms(1) wp_true assms(2)]) (use assms(3,4) in auto)

lemma wp_steady_then:
  assumes "keeps steady m" and "steady w u" and "\<And>v. steady w v \<Longrightarrow> wp k Q E v" and "\<And>e v. steady w v \<Longrightarrow> E e v"
  shows "wp (thenA m k) Q E u"
  unfolding thenA_def by (rule wp_steady_next[OF assms(1,2)]) (use assms(3,4) in auto)

lemma wp_getRole: "wp (getRole tk role) (\<lambda>ag _. tk_registry tk role = Some ag) (\<lambda>_ _. True) w"
  by (simp add: getRole_def wp_liftA split: option.split)

lemma wp_lifted: "wp (liftA r) (\<lambda>x _. r = Inr x) (\<lambda>_ _. True) w"
  by (simp add: wp_liftA split: sum.split)

lemma as_output: "as_prompt out = Inr p \<Longrightarrow> out = Out_Prompt p" "as_review out = Inr r \<Longrightarrow> out = Out_Review r"
  "as_test out = Inr x \<Longrightarrow> out = Out_Test x"
  by (cases out; simp)+

lemma wp_prompt_stage: "steady w u \<Longrightarrow> wp (prompt_stage ev tk t run ws sig) (\<lambda>_. steady w) (\<lambda>_. steady w) u"
  by (rule wp_mono[OF keepsD[OF steady_prompt_stage]]) (auto intro: steady_trans)

lemma wp_execution_stage:
  assumes "steady w u"
  shows "wp (execution_stage ev tk t run ws sig p) (\<lambda>out v. steady w v \<and> executed tk t out) (\<lambda>_. steady w) u"
proof -
  have "wp (execution_stage ev tk t run ws sig p) (\<lambda>out _. executed tk t out) (\<lambda>_ _. True) u"
    unfolding execution_stage_def Let_def wp_bindA[of "getRole _ _"]
  proof (rule wp_mono[OF wp_getRole], rule wp_any_bind, unfold wp_bindA[of "role_execute _ _ _ _ _"], rule wp_mono[OF wp_role_answer], goal_cases)
    case (1 ag v cx v' r v'')
    then have "executed tk t (resp_output r)" by (auto simp: executed_def)
    then show ?case by (intro wp_any_bind wp_any_then) (simp add: wp_ret)
  qed auto
  from wp_steady_with[OF steady_execution_stage this] show ?thesis
    by (rule wp_mono) (use assms steady_trans in blast)+
qed

text \<open>A stage that may hand over: it leaves the plan alone and establishes \<open>P\<close>, or it ends the run with a result that
  did not go through.\<close>

abbreviation stage_wp :: "world \<Rightarrow> bool \<Rightarrow> cycle_result option run \<Rightarrow> world \<Rightarrow> bool" where
  "stage_wp w P m u \<equiv> wp m (\<lambda>r v. case r of None \<Rightarrow> steady w v \<and> P | Some res \<Rightarrow> \<not> went_through res) (\<lambda>_. plan_stored w) u"

lemma steady_stored: "steady w u \<Longrightarrow> plan_stored w u"
  by (simp add: steady_def)

lemma wp_hand_over:
  assumes "reason \<noteq> ''approval_pending''" "steady w u"
  shows "stage_wp w P (bindA (handle_failure ev m t role reason run) (\<lambda>res. ret (Some res))) u"
  unfolding wp_bindA wp_ret by (rule wp_mono[OF wp_handle_failure_fails[OF assms(1) steady_stored[OF assms(2)]]]) auto

lemma wp_role_request:
  assumes "steady w u"
    and "\<And>ag r v. tk_registry tk role = Some ag \<Longrightarrow> accepted ag rq (resp_output r) \<Longrightarrow> steady w v \<Longrightarrow> wp (f r) Q E v"
    and "\<And>e v. steady w v \<Longrightarrow> E e v"
  shows "wp (bindA (getRole tk role) (\<lambda>ag. bindA (makeContext tk role run dir otid sig) (\<lambda>cx.
      bindA (role_execute ev rn ag rq cx) f))) Q E u"
proof (rule wp_steady_bind[OF _ wp_getRole assms(1)])
  fix ag v assume ag: "tk_registry tk role = Some ag" and v: "steady w v"
  show "wp (bindA (makeContext tk role run dir otid sig) (\<lambda>cx. bindA (role_execute ev rn ag rq cx) f)) Q E v"
  proof (rule wp_steady_next[OF _ v])
    fix cx v' assume v': "steady w v'"
    show "wp (bindA (role_execute ev rn ag rq cx) f) Q E v'"
      by (rule wp_steady_bind[OF steady_role_execute wp_role_answer v']) (use assms(2,3) ag in auto)
  qed (use assms(3) in \<open>auto intro: steady_intros\<close>)
qed (use assms(3) in \<open>auto intro: steady_intros\<close>)

lemma wp_review_stage:
  assumes "steady w u"
  shows "stage_wp w (requiresReview t \<longrightarrow> reviewed tk t out) (review_stage ev tk t run ws sig out) u"
proof (cases "requiresReview t")
  case True
  have verdict: "stage_wp w (requiresReview t \<longrightarrow> reviewed tk t out)
      (if \<not> approved review \<or> 0 < length (blockingIssues review)
       then thenA (task_event ev REVIEW_REJECTED t run [])
              (bindA (handle_failure ev m t Reviewer ''review_rejected'' run) (\<lambda>res. ret (Some res)))
       else thenA (task_event ev REVIEW_APPROVED t run []) (ret None)) v"
    if "steady w v" "tk_registry tk Reviewer = Some ag" "accepted ag (review_request t out) (Out_Review review)" for v ag review m
  proof (cases "isApproved review")
    case True
    then have "reviewed tk t out" using that(2,3) by (auto simp: reviewed_def)
    then show ?thesis
      using True that(1) by (auto simp: isApproved_def wp_ret intro!: wp_steady_then[where w = w] steady_intros steady_stored)
  next
    case False
    then have "\<not> approved review \<or> 0 < length (blockingIssues review)" by (simp add: isApproved_def)
    then show ?thesis
      using that(1) by (auto intro!: wp_steady_then[where w = w] wp_hand_over steady_intros steady_stored)
  qed
  have read: "stage_wp w (requiresReview t \<longrightarrow> reviewed tk t out)
      (bindA (liftA (as_review (resp_output r))) (\<lambda>review.
        if \<not> approved review \<or> 0 < length (blockingIssues review)
        then thenA (task_event ev REVIEW_REJECTED t run [])
               (bindA (handle_failure ev m t Reviewer ''review_rejected'' run) (\<lambda>res. ret (Some res)))
        else thenA (task_event ev REVIEW_APPROVED t run []) (ret None))) v"
    if "tk_registry tk Reviewer = Some ag" "accepted ag (review_request t out) (resp_output r)" "steady w v" for ag r v m
  proof (cases "as_review (resp_output r)")
    case (Inr b)
    from Inr that as_output(2)[OF Inr] show ?thesis
      unfolding wp_bindA[of "liftA _"] wp_liftA Inr sum.case by (intro verdict) auto
  qed (use that in \<open>simp add: wp_bindA wp_liftA steady_stored\<close>)
  show ?thesis
    unfolding review_stage_def using True
    by (simp, intro wp_role_request[where w = w] assms) (auto intro: read[simplified] steady_stored)
qed (use assms in \<open>simp add: review_stage_def wp_ret\<close>)

lemma wp_test_stage:
  assumes "steady w u"
  shows "stage_wp w (requiresTesting t \<longrightarrow> test_accepted tk t out) (test_stage ev tk t run ws sig out) u"
proof (cases "requiresTesting t")
  case True
  have verdict: "stage_wp w (requiresTesting t \<longrightarrow> test_accepted tk t out)
      (if \<not> test_passed testing \<or> 0 < length (test_failures testing)
        then thenA (applyRepoHealthFromTestingResult (qualityStages testing) False)
            (thenA (persistQualityStageArtifacts ev run (task_id t) (qualityStages testing))
            (thenA (task_event ev TEST_FAILED t run [])
              (bindA (handle_failure ev m t Tester ''test_failed'' run) (\<lambda>res. ret (Some res)))))
        else thenA (applyRepoHealthFromTestingResult (qualityStages testing) True)
            (bindA (makeContext tk Tester run dir otid sig) (\<lambda>cx2.
             thenA (liftA (enforceRequiredChecks cx2 (qualityStages testing)))
            (thenA (persistQualityStageArtifacts ev run (task_id t) (qualityStages testing))
            (thenA (task_event ev TEST_PASSED t run []) (ret None)))))) v"
    if "steady w v" "tk_registry tk Tester = Some ag" "accepted ag (test_request t out) (Out_Test testing)" for v ag testing m dir otid
  proof (cases "isTestPassed testing")
    case True
    then have p: "test_accepted tk t out" "test_passed testing" "test_failures testing = []"
      using that(2,3) by (auto simp: test_accepted_def isTestPassed_def)
    have f: "\<not> (\<not> test_passed testing \<or> 0 < length (test_failures testing))" using p(2,3) by simp
    show ?thesis
      unfolding if_not_P[OF f]
      by (intro wp_steady_then[where w = w] wp_steady_next[where w = w] steady_intros that(1) steady_stored) (auto simp: wp_ret p(1))
  next
    case False
    then have f: "\<not> test_passed testing \<or> 0 < length (test_failures testing)" by (simp add: isTestPassed_def)
    show ?thesis
      unfolding if_P[OF f]
      by (intro wp_steady_then[where w = w] wp_hand_over steady_intros that(1) steady_stored) simp_all
  qed
  have read: "stage_wp w (requiresTesting t \<longrightarrow> test_accepted tk t out)
      (bindA (liftA (as_test (resp_output r))) (\<lambda>testing.
        if \<not> test_passed testing \<or> 0 < length (test_failures testing)
        then thenA (applyRepoHealthFromTestingResult (qualityStages testing) False)
            (thenA (persistQualityStageArtifacts ev run (task_id t) (qualityStages testing))
            (thenA (task_event ev TEST_FAILED t run [])
              (bindA (handle_failure ev m t Tester ''test_failed'' run) (\<lambda>res. ret (Some res)))))
        else thenA (applyRepoHealthFromTestingResult (qualityStages testing) True)
            (bindA (makeContext tk Tester run dir otid sig) (\<lambda>cx2.
             thenA (liftA (enforceRequiredChecks cx2 (qualityStages testing)))
            (thenA (persistQualityStageArtifacts ev run (task_id t) (qualityStages testing))
            (thenA (task_event ev TEST_PASSED t run []) (ret None))))))) v"
    if "tk_registry tk Tester = Some ag" "accepted ag (test_request t out) (resp_output r)" "steady w v" for ag r v m dir otid
  proof (cases "as_test (resp_output r)")
    case (Inr b)
    from Inr that as_output(3)[OF Inr] show ?thesis
      unfolding wp_bindA[of "liftA _"] wp_liftA Inr sum.case by (intro verdict) auto
  qed (use that in \<open>simp add: wp_bindA wp_liftA steady_stored\<close>)
  show ?thesis
    unfolding test_stage_def using True
    by (simp, intro wp_role_request[where w = w] assms) (auto intro: read[simplified] steady_stored)
qed (use assms in \<open>simp add: test_stage_def wp_ret\<close>)

section \<open>Completing\<close>

definition gate_passed :: "policy_request \<Rightarrow> project_state \<Rightarrow> bool" where
  "gate_passed q s \<longleftrightarrow> (\<exists>d \<in> set (ps_policyDecisions s). pd_runId d = pq_run q \<and> pd_stepId d = pq_step q \<and>
     pd_attempt d = pq_attempt q \<and> pd_actionType d = pq_action q \<and> pd_decision d = Allow)"

lemma gate_passed_mono: "gate_passed q s \<Longrightarrow> set (ps_policyDecisions s) \<subseteq> set (ps_policyDecisions s') \<Longrightarrow> gate_passed q s'"
  by (auto simp: gate_passed_def)

lemma wp_gate: "wp (persistAndRequire ev q) (\<lambda>_ u. steady w u \<and> gate_passed q (wd_state u)) (\<lambda>_. steady w) w"
  by (rule wp_persistAndRequire) (auto simp: steady_def Let_def gate_passed_def)

lemma plan_mark_done: "plan_of s = plan_of s' \<Longrightarrow> plan_of (complete_task tid s) = plan_of (complete_task tid s')"
  by (simp add: plan_of_def complete_task_def Let_def modify_task_def set_tasks_def)

lemma decisions_mark_done [simp]: "ps_policyDecisions (complete_task tid s) = ps_policyDecisions s"
  by (simp add: complete_task_def Let_def modify_task_def set_tasks_def)

definition finished :: "task \<Rightarrow> string \<Rightarrow> world \<Rightarrow> world \<Rightarrow> bool" where
  "finished t run w v \<longleftrightarrow> plan_of (wd_stored v) = plan_of (complete_task (task_id t) (wd_state w)) \<and>
     gate_passed (buildPostflightPolicyGateDecisionRequest run (task_id t)) (wd_stored v) \<and>
     set (ps_policyDecisions (wd_state w)) \<subseteq> set (ps_policyDecisions (wd_stored v))"

lemma wp_final_save:
  assumes "steady w u" "gate_passed q (wd_state u)"
  shows "wp (bindA (fresh_uuid ev) (\<lambda>a. bindA (clock ev) (\<lambda>b. thenA flushToState (thenA (save_state ev (evs a b)) (ret x)))))
    (\<lambda>y v. y = x \<and> plan_of (wd_stored v) = plan_of (wd_state w) \<and> gate_passed q (wd_stored v) \<and>
       set (ps_policyDecisions (wd_state w)) \<subseteq> set (ps_policyDecisions (wd_stored v)))
    (\<lambda>_. plan_stored w) u"
proof -
  have k: "keeps steady (bindA (fresh_uuid ev) (\<lambda>a. bindA (clock ev) (\<lambda>b. thenA flushToState (ret (a, b)))))"
    by (intro steady_intros)
  have save: "wp (thenA (save_state ev evs) (ret x))
      (\<lambda>y v. y = x \<and> plan_of (wd_stored v) = plan_of (wd_state w) \<and> gate_passed q (wd_stored v) \<and>
         set (ps_policyDecisions (wd_state w)) \<subseteq> set (ps_policyDecisions (wd_stored v)))
      (\<lambda>_. plan_stored w) v" if "steady u v" for v evs
  proof -
    have "steady w v" using assms(1) that by (rule steady_trans)
    moreover have "gate_passed q (wd_state v)" using assms(2) that by (auto simp: steady_def intro: gate_passed_mono)
    ultimately show ?thesis
      by (auto simp: wp_simps steady_def gate_passed_def intro!: wp_save_state)
  qed
  have eq: "bindA (fresh_uuid ev) (\<lambda>a. bindA (clock ev) (\<lambda>b. thenA flushToState (thenA (save_state ev (evs a b)) (ret x))))
      = bindA (bindA (fresh_uuid ev) (\<lambda>a. bindA (clock ev) (\<lambda>b. thenA flushToState (ret (a, b))))) (\<lambda>(a, b). thenA (save_state ev (evs a b)) (ret x))"
    by (simp add: bindA_assoc thenA_def)
  show ?thesis
    unfolding eq wp_bindA[of "bindA (fresh_uuid ev) _"]
    by (rule wp_mono[OF keepsD[OF k]]) (auto intro: save simp: steady_def assms(1)[unfolded steady_def])
qed

lemma wp_finish_stage:
  assumes "steady w u"
  shows "wp (finish_stage ev tk t run ws out)
    (\<lambda>res v. went_through res \<and> enforceCompletionEvidence t out = Inr () \<and> finished t run w v) (\<lambda>_. plan_stored w) u"
proof (cases "enforceCompletionEvidence t out")
  case (Inr x)
  let ?q = "buildPostflightPolicyGateDecisionRequest run (task_id t)"
  define u1 where "u1 = u\<lparr>wd_state := complete_task (task_id t) (wd_state u)\<rparr>"
  have s1: "wd_stored u1 = wd_stored u" "plan_of (wd_state u1) = plan_of (complete_task (task_id t) (wd_state w))"
    "ps_policyDecisions (wd_state u1) = ps_policyDecisions (wd_state u)"
    using assms by (auto simp: u1_def steady_def intro!: plan_mark_done)
  have stored_back: "plan_stored w v" if "plan_stored u1 v" for v using that s1(1) assms by (simp add: steady_def)
  have is_finished: "finished t run w v" if "plan_of (wd_stored v) = plan_of (wd_state u1)" "gate_passed ?q (wd_stored v)"
      "set (ps_policyDecisions (wd_state u1)) \<subseteq> set (ps_policyDecisions (wd_stored v))" for v
    using that s1(2,3) assms by (auto simp: finished_def steady_def)
  have closing: "wp (thenA (persistAndRequire ev ?q) (bindA (fresh_uuid ev) (\<lambda>a. bindA (clock ev) (\<lambda>b.
       thenA flushToState (thenA (save_state ev (evs a b)) (ret res))))))
      (\<lambda>res v. went_through res \<and> enforceCompletionEvidence t out = Inr () \<and> finished t run w v) (\<lambda>_. plan_stored w) v"
    if "steady u1 v" "went_through res" for v evs res
    unfolding wp_thenA[of "persistAndRequire _ _"]
  proof (rule wp_mono[OF wp_gate])
    fix y v' assume "steady v v' \<and> gate_passed ?q (wd_state v')"
    then show "wp (bindA (fresh_uuid ev) (\<lambda>a. bindA (clock ev) (\<lambda>b. thenA flushToState (thenA (save_state ev (evs a b)) (ret res)))))
      (\<lambda>res v. went_through res \<and> enforceCompletionEvidence t out = Inr () \<and> finished t run w v) (\<lambda>_. plan_stored w) v'"
      using that Inr steady_trans[OF that(1)]
      by (intro wp_mono[OF wp_final_save[of u1]]) (auto intro: is_finished stored_back)
  next
    fix e v' assume "steady v v'"
    then show "plan_stored w v'" using that(1) by (intro stored_back) (simp add: steady_def)
  qed
  have r: "went_through \<lparr> cr_run = run, cr_status = (if git = Git_Approval_Pending then Cycle_Blocked else Cycle_Completed),
      cr_task = Some (task_id t), cr_reason = (if git = Git_Approval_Pending then Some ''approval_pending'' else None) \<rparr>" for git
    by (simp add: went_through_def)
  show ?thesis
    unfolding finish_stage_def Let_def wp_thenA[of "liftA _"] wp_liftA Inr sum.case wp_thenA[of "set_state _"] wp_set_state(1) u1_def[symmetric]
    by (intro wp_steady_next[where w = u1] wp_steady_then[of "store_artifact _ _" u1] wp_steady_then[of "push_artifact _" u1] closing[unfolded Inr] steady_intros r)
      (auto intro: stored_back steady_stored)
qed (use assms in \<open>simp add: finish_stage_def Let_def wp_simps steady_stored\<close>)

section \<open>The run\<close>

definition completion :: "task_env \<Rightarrow> task \<Rightarrow> string \<Rightarrow> world \<Rightarrow> world \<Rightarrow> bool" where
  "completion tk t run w v \<longleftrightarrow>
     (\<exists>out. executed tk t out \<and> enforceCompletionEvidence t out = Inr () \<and>
        (requiresReview t \<longrightarrow> reviewed tk t out) \<and> (requiresTesting t \<longrightarrow> test_accepted tk t out)) \<and>
     plan_of (wd_stored v) = plan_of (complete_task (task_id t) (wd_state w)) \<and>
     gate_passed (buildPreflightPolicyGateDecisionRequest run (task_id t)) (wd_stored v) \<and>
     gate_passed (buildPostflightPolicyGateDecisionRequest run (task_id t)) (wd_stored v)"

definition body_post :: "task_env \<Rightarrow> task \<Rightarrow> string \<Rightarrow> world \<Rightarrow> cycle_result \<times> bool \<Rightarrow> world \<Rightarrow> bool" where
  "body_post tk t run w r v \<longleftrightarrow> (went_through (fst r) \<longrightarrow> completion tk t run w v)"

lemma body_post_rejected [simp]: "\<not> went_through res \<Longrightarrow> body_post tk t run w (res, b) v"
  by (simp add: body_post_def)

lemma wp_task_stages:
  assumes "steady w u" and "gate_passed (buildPreflightPolicyGateDecisionRequest run (task_id t)) (wd_state w)"
  shows "wp (bindA (prompt_stage ev tk t run ws sig) (\<lambda>p.
     bindA (execution_stage ev tk t run ws sig p) (\<lambda>out.
     bindA (review_stage ev tk t run ws sig out) (\<lambda>rejected.
       case rejected of Some res \<Rightarrow> ret (res, False)
       | None \<Rightarrow> bindA (test_stage ev tk t run ws sig out) (\<lambda>failed.
           case failed of Some res \<Rightarrow> ret (res, False)
           | None \<Rightarrow> bindA (finish_stage ev tk t run ws out) (\<lambda>res. ret (res, True)))))))
    (body_post tk t run w) (\<lambda>_. plan_stored w) u"
proof -
  have finish: "wp (bindA (finish_stage ev tk t run ws out) (\<lambda>res. ret (res, True))) (body_post tk t run w) (\<lambda>_. plan_stored w) v"
    if "steady w v" "executed tk t out" "requiresReview t \<longrightarrow> reviewed tk t out" "requiresTesting t \<longrightarrow> test_accepted tk t out" for v out
    unfolding wp_bindA wp_ret
    by (rule wp_mono[OF wp_finish_stage[OF that(1)]])
      (use that(2-4) assms(2) that(1) in \<open>auto simp: body_post_def completion_def finished_def intro: gate_passed_mono\<close>)
  have test: "wp (bindA (test_stage ev tk t run ws sig out) (\<lambda>failed.
           case failed of Some res \<Rightarrow> ret (res, False)
           | None \<Rightarrow> bindA (finish_stage ev tk t run ws out) (\<lambda>res. ret (res, True)))) (body_post tk t run w) (\<lambda>_. plan_stored w) v"
    if "steady w v" "executed tk t out" "requiresReview t \<longrightarrow> reviewed tk t out" for v out
    unfolding wp_bindA[of "test_stage _ _ _ _ _ _ _"]
    by (rule wp_mono[OF wp_test_stage[OF that(1)]]) (use finish that(2,3) in \<open>auto simp: wp_ret split: option.splits\<close>)
  have review: "wp (bindA (review_stage ev tk t run ws sig out) (\<lambda>rejected.
       case rejected of Some res \<Rightarrow> ret (res, False)
       | None \<Rightarrow> bindA (test_stage ev tk t run ws sig out) (\<lambda>failed.
           case failed of Some res \<Rightarrow> ret (res, False)
           | None \<Rightarrow> bindA (finish_stage ev tk t run ws out) (\<lambda>res. ret (res, True))))) (body_post tk t run w) (\<lambda>_. plan_stored w) v"
    if "steady w v \<and> executed tk t out" for v out
    unfolding wp_bindA[of "review_stage _ _ _ _ _ _ _"]
    by (rule wp_mono[OF wp_review_stage[OF conjunct1[OF that]]])
      (use test that in \<open>auto simp: wp_ret split: option.splits\<close>)
  show ?thesis
    unfolding wp_bindA[of "prompt_stage _ _ _ _ _ _"] wp_bindA[of "execution_stage _ _ _ _ _ _ _"]
    by (rule wp_mono[OF wp_prompt_stage[OF assms(1)]]; (rule wp_mono[OF wp_execution_stage])?)
      (auto intro: review steady_stored)
qed

lemma wp_task_body: "wp (task_body ev tk t run ws sig) (body_post tk t run w) (\<lambda>_. plan_stored w) w"
proof -
  let ?f = "\<lambda>e. e\<lparr>ex_activeRun := Some run, ex_activeTask := Some (task_id t)\<rparr>"
  let ?q = "buildPreflightPolicyGateDecisionRequest run (task_id t)"
  have first: "keeps steady (set_execution ?f)"
    unfolding set_execution_def by (rule steady_set_state) (simp_all add: plan_of_def)
  have post: "body_post tk t run v r x \<Longrightarrow> body_post tk t run w r x" if "steady w v" for v r x
    using that plan_mark_done[of "wd_state v" "wd_state w"] by (auto simp: body_post_def completion_def steady_def)
  have rest: "wp (thenA (persistAndRequire ev ?q) (m :: (cycle_result \<times> bool) run)) (body_post tk t run w) (\<lambda>_. plan_stored w) u"
    if "steady w u" and m: "\<And>v. gate_passed ?q (wd_state v) \<Longrightarrow> wp m (body_post tk t run v) (\<lambda>_. plan_stored v) v" for u m
    unfolding wp_thenA
  proof (rule wp_mono[OF wp_gate])
    fix x v assume v: "steady u v \<and> gate_passed ?q (wd_state v)"
    then have wv: "steady w v" using that(1) steady_trans by blast
    show "wp m (body_post tk t run w) (\<lambda>_. plan_stored w) v"
      by (rule wp_mono[OF m]) (use v post[OF wv] steady_stored[OF wv] in auto)
  next
    fix e v assume "steady u v"
    then show "plan_stored w v" using that(1) steady_trans steady_stored by blast
  qed
  show ?thesis
    unfolding task_body_def
    by (intro wp_steady_then[of "set_execution _" w] wp_steady_then[of "task_event _ _ _ _ _" w] rest first steady_intros wp_task_stages)
      (auto intro: steady_stored)
qed

abbreviation in_workspace :: "task_env \<Rightarrow> workspace \<Rightarrow> task_env" where
  "in_workspace tk ws \<equiv> tk\<lparr>tk_runner := (tk_runner tk)\<lparr>rn_tools := ws_tools ws\<rparr>\<rparr>"

lemma completion_steady: "completion tk t run w u \<Longrightarrow> steady u v \<Longrightarrow> completion tk t run w v"
  by (auto simp: completion_def steady_def intro: gate_passed_mono)

lemma wp_task_run:
  "wp (task_run ev tk t run ws sig) (\<lambda>res v. went_through res \<longrightarrow> completion (in_workspace tk ws) t run w v)
     (\<lambda>_. plan_stored w) w"
proof -
  let ?tk = "in_workspace tk ws"
  have tail: "wp (thenA (recordRunCostSummaryArtifact ev run (task_id t) oc) (thenA clearBuffer (liftA (map_sum id fst r))))
      (\<lambda>res v. went_through res \<longrightarrow> completion ?tk t run w v) (\<lambda>_. plan_stored w) u"
    if "case r of Inr y \<Rightarrow> body_post ?tk t run w y u | Inl e \<Rightarrow> plan_stored w u" for r oc u
  proof -
    have k: "keeps steady (thenA (recordRunCostSummaryArtifact ev run (task_id t) oc) clearBuffer)" by (intro steady_intros)
    have n: "wp (thenA (recordRunCostSummaryArtifact ev run (task_id t) oc) clearBuffer) (\<lambda>_. steady u) (\<lambda>_ _. False) u"
      using wp_both[OF keepsD[OF k] cost_summary_returns] by (simp add: wp_def split: prod.splits sum.splits)
    have eq: "thenA a (thenA b c) = thenA (thenA a b) c" for a :: "unit run" and b :: "unit run" and c :: "cycle_result run"
      by (simp add: thenA_def bindA_assoc)
    show ?thesis
      unfolding eq wp_thenA[of "thenA _ _" "liftA _"]
      by (rule wp_mono[OF n]) (use that in \<open>auto simp: wp_liftA body_post_def intro: completion_steady dest: steady_stored split: sum.splits\<close>)
  qed
  have same: "body_post ?tk t run w r v" if "body_post ?tk t run u r v" "wd_state u = wd_state w" for u r v
    using that by (simp add: body_post_def completion_def)
  have "wp (bindA (attempt (task_body ev ?tk t run ws sig)) (\<lambda>r.
      thenA (recordRunCostSummaryArtifact ev run (task_id t) (run_outcome r)) (thenA clearBuffer (liftA (map_sum id fst r)))))
      (\<lambda>res v. went_through res \<longrightarrow> completion ?tk t run w v) (\<lambda>_. plan_stored w) u"
    if "wd_state u = wd_state w" "wd_store u = wd_store w" for u
    unfolding wp_bindA[of "attempt _"] wp_attempt
    by (rule wp_mono[OF wp_task_body]; rule tail) (use that same in auto)
  then show ?thesis
    unfolding task_run_def Let_def wp_bindA[of "getA _"] wp_getA wp_thenA[of "startRun _ _"] wp_thenA[of "set_cost _"]
    by (simp add: startRun_def set_cost_def wp_modA)
qed

section \<open>The contract of a run\<close>

text \<open>C20. Completion is earned. A run that ends as completed (or as waiting for an approval) has an executor's answer that
  the executor's validation accepted and that carries evidence; a reviewer's accepted answer approved it when the
  task needs a review, a tester's passed it when it needs tests; both policy gates stored a decision
  \<open>allow\<close>; and the stored plan is the one the run started with, with this task marked done.\<close>

theorem completed_run_is_checked:
  assumes "task_run ev tk t run ws sig w = (Inr res, w')" and "went_through res"
  shows "(\<exists>out. executed (in_workspace tk ws) t out \<and> enforceCompletionEvidence t out = Inr () \<and>
        (requiresReview t \<longrightarrow> reviewed (in_workspace tk ws) t out) \<and> (requiresTesting t \<longrightarrow> test_accepted (in_workspace tk ws) t out)) \<and>
     plan_of (wd_stored w') = plan_of (complete_task (task_id t) (wd_state w)) \<and>
     gate_passed (buildPreflightPolicyGateDecisionRequest run (task_id t)) (wd_stored w') \<and>
     gate_passed (buildPostflightPolicyGateDecisionRequest run (task_id t)) (wd_stored w')"
  using wp_task_run[of ev tk t run ws sig w] assms by (simp add: wp_def completion_def)

theorem completed_run_is_checked_witness:
  "\<exists>res w'. task_run sample_env sample_task_env sample_t2 ''r'' sample_workspace None sample_world = (Inr res, w') \<and>
     gate_passed (buildPostflightPolicyGateDecisionRequest ''r'' ''t2'') (wd_stored w')"
proof -
  obtain res w' where r: "task_run sample_env sample_task_env sample_t2 ''r'' sample_workspace None sample_world = (Inr res, w')"
    "cr_status res = Cycle_Completed" using sample_task_completes by blast
  then show ?thesis using completed_run_is_checked[OF r(1)] by (auto simp: went_through_def)
qed

text \<open>C21. A run that throws has changed neither the stored backlog nor the stored lists of completed and blocked
  tasks, wherever it threw; what it sent to git before stays sent.\<close>

theorem throwing_run_keeps_plan:
  "task_run ev tk t run ws sig w = (Inl e, w') \<Longrightarrow> plan_of (wd_stored w') = plan_of (wd_stored w)"
  using wp_task_run[of ev tk t run ws sig w] by (simp add: wp_def)

lemma unregistered_throws:
  assumes "tk_registry tk Prompt_Engineer = None"
  shows "\<exists>e w'. task_run ev tk t run ws sig w = (Inl e, w')"
proof -
  have prompt: "wp (prompt_stage ev (in_workspace tk ws) t run ws sig) (\<lambda>_ _. False) (\<lambda>_ _. True) u" for u
    unfolding prompt_stage_def by (rule wp_any_bind) (simp add: wp_bindA getRole_def assms wp_liftA)
  have body: "wp (task_body ev (in_workspace tk ws) t run ws sig) (\<lambda>_ _. False) (\<lambda>_ _. True) u" for u
    unfolding task_body_def
    by (rule wp_any_then, rule wp_any_then, rule wp_any_then, unfold wp_bindA[of "prompt_stage _ _ _ _ _ _"], rule wp_mono[OF prompt]) simp_all
  have "wp (task_run ev tk t run ws sig) (\<lambda>_ _. False) (\<lambda>_ _. True) w"
    unfolding task_run_def Let_def
    by (rule wp_any_bind, rule wp_any_then, rule wp_any_then, unfold wp_bindA[of "attempt _"] wp_attempt, rule wp_mono[OF body])
      (auto intro!: wp_any_then simp: wp_liftA)
  then show ?thesis
    by (cases "task_run ev tk t run ws sig w"; cases "fst (task_run ev tk t run ws sig w)") (auto simp: wp_def)
qed

theorem throwing_run_keeps_plan_witness:
  "\<exists>e w'. task_run sample_env (sample_task_env\<lparr>tk_registry := \<lambda>_. None\<rparr>) sample_t2 ''r'' sample_workspace None sample_world = (Inl e, w')
     \<and> plan_of (wd_stored w') = open_plan"
proof -
  obtain e w' where r: "task_run sample_env (sample_task_env\<lparr>tk_registry := \<lambda>_. None\<rparr>) sample_t2 ''r'' sample_workspace None sample_world = (Inl e, w')"
    using unregistered_throws by fastforce
  then show ?thesis using throwing_run_keeps_plan[OF r] by (simp add: sample_world_def sample_store_def)
qed

text \<open>C22. Architecture, planning, documentation and testing tasks never complete, when each agent answers with its role's
  output type: the completion evidence asks for a changed or explained coder output, which only a coder gives.\<close>

theorem only_coder_tasks_complete:
  assumes "task_kind t \<in> {task_kind.Architecture, task_kind.Planning, task_kind.Documentation, task_kind.Testing}"
    and "\<And>ag rq out. tk_registry tk (routeTaskToRole t) = Some ag \<Longrightarrow> accepted ag rq out \<Longrightarrow> output_role out = routeTaskToRole t"
  shows "\<nexists>res w'. task_run ev tk t run ws sig w = (Inr res, w') \<and> went_through res"
proof
  assume "\<exists>res w'. task_run ev tk t run ws sig w = (Inr res, w') \<and> went_through res"
  then obtain out where out: "executed (in_workspace tk ws) t out" "enforceCompletionEvidence t out = Inr ()"
    using wp_task_run[of ev tk t run ws sig w] by (auto simp: wp_def completion_def)
  then have "output_role out = routeTaskToRole t" using assms(2) by (auto simp: executed_def)
  then show False
    using assms(1) out(2) by (cases out) (auto simp: routeTaskToRole_def enforceCompletionEvidence_def split: task_kind.splits if_splits)
qed

definition sample_docs :: docs_output where
  "sample_docs = \<lparr> do_summary = ''s'', do_affectedModules = [], do_behaviorChanges = [], do_designRationale = [], do_followUpGaps = [],
     do_markdown = ''m'' \<rparr>"

theorem only_coder_tasks_complete_witness:
  "\<nexists>res w'. task_run sample_env (sample_task_env\<lparr>tk_registry := sample_registry(Docs_Writer \<mapsto> answering Docs_Writer (Out_Docs sample_docs))\<rparr>)
     (sample_t2\<lparr>task_kind := task_kind.Documentation\<rparr>) ''r'' sample_workspace None sample_world = (Inr res, w') \<and> went_through res"
  by (rule only_coder_tasks_complete) (auto simp: routeTaskToRole_def accepted_def answered_def answering_def)

end
