(* ===== verification/Orchestrator.thy ===== *)
theory Orchestrator
  imports Task_Runner
begin

text \<open>
  The run cycle (\<open>packages/execution/src/orchestrator.ts\<close>): load the state, take the global run lease, select a task
  and run it in a workspace; \<open>runSingleTask\<close> checks the task first.

  Other processes act while the cycle waits for the lease: \<open>cy_others\<close> is what they have done to the store and
  the locks by then. The heartbeat is one step on the lock store; its timer is not followed, and an abort reaches the
  run through \<open>rn_aborted\<close>. Log lines and telemetry are left out.
\<close>

section \<open>What a cycle is given\<close>

record cycle_env = task_env +
  cy_ttl :: int
  cy_root :: string
  cy_allocate :: "nat \<Rightarrow> workspace result"
  cy_signal :: signal
  cy_others :: "guarded \<Rightarrow> guarded"

definition single_task_error :: "string \<Rightarrow> string \<Rightarrow> string \<Rightarrow> js_error" where
  "single_task_error tid reason message = policy_violation message [''runSingleTask'', tid, reason]"

definition cycle_idle :: "string \<Rightarrow> string option \<Rightarrow> cycle_result" where
  "cycle_idle run reason = \<lparr> cr_run = run, cr_status = Cycle_Idle, cr_task = None, cr_reason = reason \<rparr>"

section \<open>The lease of a cycle\<close>

definition on_locks :: "(lock_state, 'a) act \<Rightarrow> 'a run" where
  "on_locks m w = (case m (gd_locks (wd_guard w)) of (r, l) \<Rightarrow> (r, w\<lparr>wd_guard := (wd_guard w)\<lparr>gd_locks := l\<rparr>\<rparr>))"

definition GLOBAL_RUN_CYCLE :: string where
  "GLOBAL_RUN_CYCLE = ''global-run-cycle''"

definition acquire_lease :: "env \<Rightarrow> int \<Rightarrow> string \<Rightarrow> string \<times> string \<Rightarrow> lease_handle option run" where
  "acquire_lease ev ttl owner scope = bindA (clock ev) (\<lambda>now. on_locks (acquireRunLease ttl now GLOBAL_RUN_CYCLE owner (Some scope)))"

definition set_lease :: "lease_handle option \<Rightarrow> unit run" where
  "set_lease h = modA (\<lambda>w. w\<lparr>wd_guard := (wd_guard w)\<lparr>gd_lease := h\<rparr>\<rparr>)"

text \<open>A release that fails is logged and ignored. The handle is the one the checks of the run have refreshed.\<close>

definition releaseExecutionLease :: "unit run" where
  "releaseExecutionLease = bindA (getA (\<lambda>w. gd_lease (wd_guard w))) (\<lambda>lease.
     thenA (set_lease None)
       (case lease of None \<Rightarrow> ret () | Some h \<Rightarrow> catchA (on_locks (handle_release h)) (\<lambda>_. ret ())))"

definition with_lease :: "lease_handle \<Rightarrow> 'a run \<Rightarrow> 'a run" where
  "with_lease h m = thenA (set_lease (Some h)) (finallyA m releaseExecutionLease)"

text \<open>One beat: the reason to abort the run, when the lease is not renewed.\<close>

definition heartbeat :: "env \<Rightarrow> int \<Rightarrow> lease_handle \<Rightarrow> (lease_handle \<times> js_error option) run" where
  "heartbeat ev ttl h = bindA (clock ev) (\<lambda>now.
     catchA (bindA (on_locks (handle_renew ttl now h)) (\<lambda>(h', r). ret (h', map_option (\<lambda>why.
         policy_violation ''Execution lease renewal failed'' [lh_resource h', refusal_text why]) r)))
       (\<lambda>e. ret (h, Some (if error_class e = WorkflowPolicyError then e
                            else policy_violation ''Execution lease renewal failed'' [lh_resource h]))))"

section \<open>Selecting a task\<close>

fun as_task :: "role_output \<Rightarrow> task option result" where
  "as_task (Out_Task t) = Inr t"
| "as_task _ = Inl not_declared"

definition selectForcedTask :: "project_state \<Rightarrow> string \<Rightarrow> task option" where
  "selectForcedTask s tid = (case rec_get (tasks_of s) tid of
     None \<Rightarrow> None | Some t \<Rightarrow> if executable s t then Some t else None)"

definition task_manager_request :: "project_state \<Rightarrow> role_request" where
  "task_manager_request s = \<lparr> rq_role = Task_Manager, rq_objective = ''Select next executable task'', rq_input = In_State s,
     rq_acceptanceCriteria = [''Return a single executable task or null''] \<rparr>"

definition selectTask :: "env \<Rightarrow> task_env \<Rightarrow> string \<Rightarrow> string \<Rightarrow> task option run" where
  "selectTask ev tk dir run =
     bindA (getRole tk Task_Manager) (\<lambda>ag.
     bindA (makeContext tk Task_Manager run dir None None) (\<lambda>cx.
     bindA (getA wd_state) (\<lambda>s.
     bindA (role_execute ev (tk_runner tk) ag (task_manager_request s) cx) (\<lambda>r.
     bindA (unprotected load) (\<lambda>stored.
     thenA (set_revision (ps_revision stored))
       (liftA (as_task (resp_output r))))))))"

section \<open>The cycle\<close>

definition cycle_body :: "env \<Rightarrow> cycle_env \<Rightarrow> string option \<Rightarrow> string \<Rightarrow> cycle_result run" where
  "cycle_body ev cy forced run =
     (let tk = task_env.truncate cy in
      thenA (require_valid ev)
     (bindA (getA wd_state) (\<lambda>s.
      thenA (liftA (assertProjectState (en_zod ev) s))
        (case shouldStopRun s (tk_limits tk) of
           Some reason \<Rightarrow> bindA (case ex_activeRun (ps_execution s) of Some r \<Rightarrow> ret r | None \<Rightarrow> fresh_uuid ev) (\<lambda>r. ret (cycle_idle r (Some reason)))
         | None \<Rightarrow>
             bindA (case when_truthy forced of Some tid \<Rightarrow> ret (selectForcedTask s tid) | None \<Rightarrow> selectTask ev tk (cy_root cy) run) (\<lambda>selected.
             case selected of
               None \<Rightarrow> ret (cycle_idle run (Some (if truthy forced then ''forced_task_not_executable'' else ''no_executable_task'')))
             | Some t \<Rightarrow> workspace_run ev (cy_allocate cy) t run (\<lambda>ws. task_run ev tk t run ws (Some (cy_signal cy))))))))"

definition runCycle :: "env \<Rightarrow> cycle_env \<Rightarrow> string option \<Rightarrow> cycle_result run" where
  "runCycle ev cy forced =
     thenA (set_cost resetRun)
    (bindA (fresh_uuid ev) (\<lambda>run.
     bindA (unprotected load) (\<lambda>s.
     thenA (set_state (\<lambda>_. s))
    (thenA (modA (\<lambda>w. w\<lparr>wd_guard := cy_others cy (wd_guard w)\<rparr>))
    (bindA (acquire_lease ev (cy_ttl cy) run (ps_org s, ps_project s)) (\<lambda>lease.
       case lease of
         None \<Rightarrow> ret (cycle_idle run (Some ''run_lock_unavailable''))
       | Some h \<Rightarrow> with_lease h (cycle_body ev cy forced run)))))))"

definition runSingleTask :: "env \<Rightarrow> cycle_env \<Rightarrow> string \<Rightarrow> cycle_result run" where
  "runSingleTask ev cy tid =
     bindA (unprotected load) (\<lambda>s.
     thenA (liftA (assertProjectState (en_zod ev) s))
       (case rec_get (tasks_of s) tid of
          None \<Rightarrow> throw (single_task_error tid ''invalid_task_id'' ''Requested task does not exist'')
        | Some t \<Rightarrow>
            if task_status t = Done \<or> tid \<in> set (ex_completed (ps_execution s))
            then throw (single_task_error tid ''task_done'' ''Requested task is already completed'')
            else if task_status t = Blocked \<or> tid \<in> set (ex_blocked (ps_execution s))
            then throw (single_task_error tid ''task_blocked'' ''Requested task is blocked'')
            else if \<not> executable s t
            then throw (single_task_error tid ''task_not_executable'' ''Requested task is not executable'')
            else runCycle ev cy (Some tid)))"

end
