(* ===== verification/Held_Lease.thy ===== *)
theory Held_Lease
  imports Orchestrator Sample_Run
begin

text \<open>
  A run uses its lease and leaves the locks alone: every step of a task's run keeps the lock store and the identity
  of the run's lease. So a cycle ends with the lock released, whether it returned or threw.
\<close>

section \<open>What a step does to the locks\<close>

definition lease_id :: "lease_handle \<Rightarrow> string \<times> string \<times> nat" where
  "lease_id h = (lh_resource h, lh_owner h, ll_token (lh_lease h))"

definition held :: "world \<Rightarrow> world \<Rightarrow> bool" where
  "held v w \<longleftrightarrow> gd_locks (wd_guard w) = gd_locks (wd_guard v) \<and>
     map_option lease_id (gd_lease (wd_guard w)) = map_option lease_id (gd_lease (wd_guard v))"

interpretation held: frame held
  by unfold_locales (auto simp: held_def)

named_theorems held_intros \<open>runs that leave the locks alone\<close>

lemmas [held_intros] = held.keeps_intros

text \<open>A check validates the lease, which changes no record, and copies the record's lease into the handle.\<close>

lemma requireValid_keeps: "handle_requireValid now h l = (r, l') \<Longrightarrow> l' = l \<and> (\<forall>h'. r = Inr h' \<longrightarrow> lease_id h' = lease_id h)"
  by (auto simp: handle_requireValid_def handle_validate_def lock_validate_def validateLease_def lease_id_def act_defs
      split: option.splits if_splits prod.splits sum.splits lease_check.splits)

lemma held_require_valid [held_intros]: "keeps held (require_valid ev)"
proof (rule keepsI)
  fix w
  show "wp (require_valid ev) (\<lambda>_. held w) (\<lambda>_. held w) w"
  proof (cases "gd_lease (wd_guard w)")
    case (Some h)
    obtain r l where r: "handle_requireValid (en_now ev (wd_tick w)) h (gd_locks (wd_guard w)) = (r, l)" by (cases "handle_requireValid (en_now ev (wd_tick w)) h (gd_locks (wd_guard w))")
    from requireValid_keeps[OF r] show ?thesis
      using r Some by (cases r) (auto simp: require_valid_def wp_def bindA_def clock_def in_guard_def requireLease_def held_def)
  qed (simp add: require_valid_def wp_def bindA_def clock_def in_guard_def requireLease_def held_def)
qed

lemma held_store [held_intros]: "keeps held (in_guard (on_store m))" "keeps held (unprotected m)"
  unfolding unprotected_def by (rule keepsI; auto simp: wp_def in_guard_def on_store_def held_def split: prod.splits sum.splits)+

lemma held_protected [held_intros]: "keeps held (protectedA ev m)"
  unfolding protectedA_def by (intro held_intros)

lemma held_modA: "(\<And>w. wd_guard (f w) = wd_guard w) \<Longrightarrow> keeps held (modA f)"
  by (rule keepsI) (simp add: wp_modA held_def)

lemma held_primitives [held_intros]:
  "keeps held (fresh_uuid ev)" "keeps held (clock ev)" "keeps held (ask x)" "keeps held (effect e y)" "keeps held (set_state f)"
  "keeps held (set_cost c)" "keeps held (startRun run scope)" "keeps held clearBuffer" "keeps held flushToState" "keeps held (is_aborted rn cx)"
  "keeps held (outside e z)" "keeps held (reserve_effect key owner now)"
proof -
  have buffer: "wd_guard (case b of None \<Rightarrow> w | Some l \<Rightarrow> if l = [] then w else w'\<lparr>wd_state := s, wd_buffer := x, wd_latest := y\<rparr>) = wd_guard w"
    if "wd_guard w' = wd_guard w" for b :: "run_step list option" and w w' s x y
    using that by (simp split: option.split)
  show "keeps held flushToState" unfolding flushToState_def by (rule held_modA) (simp add: Let_def split: option.split)
qed (rule keepsI; auto simp: wp_def fresh_uuid_def clock_def ask_def effect_def set_state_def set_cost_def startRun_def clearBuffer_def modA_def
    is_aborted_def getA_def outside_def reserve_effect_def held_def split: prod.splits sum.splits)+

section \<open>The parts of a run\<close>

lemma held_recorders [held_intros]:
  "keeps held (set_revision r)" "keeps held (push_artifact a)" "keeps held (set_execution g)" "keeps held (date_now ev)"
  "keeps held (record_event ev ty payload run)" "keeps held (makeArtifact ev kind title meta)" "keeps held (record_artifact ev a)"
  "keeps held (save_state ev evs)"
  unfolding set_revision_def push_artifact_def set_execution_def date_now_def record_event_def makeArtifact_def record_artifact_def save_state_def
  by (intro held_intros)+

lemma held_cases [held_intros]:
  "keeps held m \<Longrightarrow> (\<And>x. keeps held (f x)) \<Longrightarrow> keeps held (case v of None \<Rightarrow> m | Some x \<Rightarrow> f x)"
  "(\<And>x. keeps held (g x)) \<Longrightarrow> (\<And>x. keeps held (h x)) \<Longrightarrow> keeps held (case r of Inl x \<Rightarrow> g x | Inr x \<Rightarrow> h x)"
  by (auto split: option.split sum.split)

lemma held_steps [held_intros]: "keeps held (record_step ev i)" "keeps held (persistAndRequire ev q)" "keeps held (complete_effect ev key ok)"
  "keeps held (git_key ev run tid eff nrm)" "keeps held (record_made ev kind title meta)" "keeps held (recordBranchArtifact ev run tid b)"
  "keeps held (store_artifact ev a)" "keeps held (recordRunCostSummaryArtifact ev run tid st)"
  unfolding record_step_def resolveEvidenceScope_def persistAndRequire_def complete_effect_def git_key_def record_made_def recordBranchArtifact_def
    store_artifact_def recordRunCostSummaryArtifact_def Let_def
  by (intro held_intros held_modA; simp)+

lemma held_git_gates [held_intros]:
  "keeps held (evaluateApprovalGate ev run tid a reason meta)" "keeps held (approval_gate ev cf run tid a reason meta)"
  "keeps held (guarded_effect ev q e call ok key)"
proof -
  show g: "keeps held (evaluateApprovalGate ev run tid a reason meta)" for run tid a reason meta
    unfolding evaluateApprovalGate_def Let_def by (intro held_intros)
  show "keeps held (approval_gate ev cf run tid a reason meta)" unfolding approval_gate_def by (intro held_intros g)
  show "keeps held (guarded_effect ev q e call ok key)" unfolding guarded_effect_def by (intro held_intros)
qed

lemma held_source_gates [held_intros]: "keeps held (source_gates ev cf i branch sha waiting as)"
  by (induction as arbitrary: waiting) (auto intro!: held_intros)

lemma held_git [held_intros]: "keeps held (git_complete ev cf gx i)"
proof -
  have push: "keeps held (git_push_phase ev cf gx i branch sha)" for branch sha
    unfolding git_push_phase_def by (intro held_intros)
  have after: "keeps held (git_after_commit ev cf gx i branch c)" for branch c
    unfolding git_after_commit_def by (intro held_intros push)
  have commit: "keeps held (git_commit_phase ev cf gx i branch)" for branch
    unfolding git_commit_phase_def by (intro held_intros after)
  have pr: "keeps held (git_pr_phase ev cf gx i branch sha)" for branch sha
    unfolding git_pr_phase_def by (intro held_intros)
  show ?thesis
    unfolding git_complete_def git_complete_on_def git_finish_def Let_def by (intro held_intros commit pr)
qed

lemma held_runWithTimeout: "keeps held m \<Longrightarrow> keeps held (runWithTimeout ev rn cx msg m)"
proof -
  assume m: "keeps held m"
  have r: "keeps held (case x of Settled r \<Rightarrow> liftA r | Timed_Out e \<Rightarrow> throw (a e) | Abort_Error y \<Rightarrow> throw (b y))" for x :: "'a raced" and a b
    by (cases x) (auto intro: held_intros)
  show ?thesis unfolding runWithTimeout_def by (intro held_intros m r)
qed

lemma held_tool_step [held_intros]: "keeps held (tool_step ev rn cx ag step tr)"
  unfolding tool_step_def invokeToolRequest_def executeTool_def Let_def by (intro held_intros held_runWithTimeout)

lemma held_role_loop [held_intros]: "keeps held (role_loop ev rn cx ag rq f started left step obs)"
proof (induction left arbitrary: step obs)
  case (Suc left)
  have r: "keeps held (case r of Final_Output resp \<Rightarrow> ret resp
       | Tool_Requested tr \<Rightarrow> bindA (tool_step ev rn cx ag step tr) (\<lambda>ob. role_loop ev rn cx ag rq f started left (step + 1) (obs @ [ob])))" for r
    by (cases r) (auto intro!: held_intros Suc.IH)
  show ?case unfolding role_loop.simps agent_step_def by (intro held_intros held_runWithTimeout r)
qed (auto intro: held_intros)

lemma held_role_execute [held_intros]: "keeps held (role_execute ev rn ag rq cx)"
  unfolding role_execute_def executeRoleWithLoop_def second_attempt_def accept_response_def Let_def by (intro held_intros held_runWithTimeout)

lemma held_failure [held_intros]: "keeps held (handle_failure ev m t role reason run)"
proof -
  have split: "keeps held (splitTaskForFailure ev t reason run)" unfolding splitTaskForFailure_def Let_def by (intro held_intros)
  have block: "keeps held (blockTaskForFailure ev t reason run)" unfolding blockTaskForFailure_def Let_def by (intro held_intros)
  have act: "keeps held (case a of Split_Action \<Rightarrow> splitTaskForFailure ev t reason run | Block_Action \<Rightarrow> blockTaskForFailure ev t reason run
      | Retry_Action \<Rightarrow> thenA (save_state ev []) (ret r))" for a r
    by (cases a) (auto intro!: held_intros split block)
  have tuple: "(\<And>f n r. keeps held (g f n r)) \<Longrightarrow> keeps held (case x of (f, n, r) \<Rightarrow> g f n r)" for x :: "failure \<times> nat \<times> nat" and g :: "_ \<Rightarrow> _ \<Rightarrow> _ \<Rightarrow> 'x run"
    by (cases x) simp
  show ?thesis unfolding handle_failure_def Let_def by (intro held_intros tuple act)
qed

section \<open>The run of a task and the cycle\<close>

lemma held_task_parts [held_intros]:
  "keeps held (task_event ev ty t run xs)" "keeps held (persistQualityStageArtifacts ev run tid q)" "keeps held (getRole tk role)"
  "keeps held (makeContext tk role run dir otid sig)" "keeps held (applyRepoHealthFromTestingResult q b)"
  unfolding task_event_def persistQualityStageArtifacts_def getRole_def makeContext_def applyRepoHealthFromTestingResult_def
  by (intro held_intros)+

lemma held_stages [held_intros]:
  "keeps held (prompt_stage ev tk t run ws sig)" "keeps held (execution_stage ev tk t run ws sig p)"
  "keeps held (review_stage ev tk t run ws sig out)" "keeps held (test_stage ev tk t run ws sig out)" "keeps held (finish_stage ev tk t run ws out)"
  unfolding prompt_stage_def execution_stage_def review_stage_def test_stage_def finish_stage_def Let_def by (intro held_intros)+

lemma held_task_run [held_intros]: "keeps held (task_run ev tk t run ws sig)"
  unfolding task_run_def task_body_def attempt_def Let_def by (intro held_intros)

lemma held_cycle_body: "keeps held (cycle_body ev cy forced run)"
proof -
  have ws: "keeps held (workspace_run ev al t run execute)" if "\<And>ws. keeps held (execute ws)" for al t and execute :: "workspace \<Rightarrow> cycle_result run"
    unfolding workspace_run_def allocate_workspace_def workspace_call_def by (intro held_intros that)
  have sel: "keeps held (selectTask ev tk dir run)" for tk dir unfolding selectTask_def by (intro held_intros)
  show ?thesis unfolding cycle_body_def Let_def by (intro held_intros sel ws)
qed

section \<open>The lock after a cycle\<close>

abbreviation run_lock :: "project_state \<Rightarrow> string" where
  "run_lock s \<equiv> formatScopedLeaseResource GLOBAL_RUN_CYCLE (Some (ps_org s, ps_project s))"

text \<open>A lease that has not expired at an instant is in the way of whoever asks then.\<close>

definition live_lease :: "lock_state \<Rightarrow> string \<Rightarrow> stamp \<Rightarrow> bool" where
  "live_lease l lock now = (case ls_records l lock of
     None \<Rightarrow> False | Some c \<Rightarrow> num_lt (date_ms now) (date_ms (ll_expires (lr_lease c))))"

lemma acquire_blocked:
  assumes "live_lease l (formatScopedLeaseResource r scope) now"
  shows "acquireRunLease ttl now r owner scope l = (Inr None, l)"
  using assms by (auto simp: live_lease_def acquireRunLease_def lock_acquire_def act_defs Let_def split: option.splits)

lemma acquired_record:
  assumes "acquireRunLease ttl now r owner scope l = (res, l')" and "\<not> live_lease l (formatScopedLeaseResource r scope) now"
  shows "case to_iso (num_add (date_ms now) ttl) of
      Inl e \<Rightarrow> res = Inl e \<and> ls_records l' = ls_records l
    | Inr x \<Rightarrow> (\<exists>h c. res = Inr (Some h) \<and> lh_resource h = formatScopedLeaseResource r scope
        \<and> ls_records l' (lh_resource h) = Some c \<and> ll_owner (lr_lease c) = lh_owner h \<and> ll_token (lr_lease c) = ll_token (lh_lease h))"
  using assms
  by (auto simp: live_lease_def acquireRunLease_def lock_acquire_def nextFencingToken_def act_defs Let_def split: option.splits sum.splits if_splits)

lemma acquire_free:
  assumes "ls_records l (formatScopedLeaseResource r scope) = None" and "to_iso (num_add (date_ms now) ttl) = Inr expires"
  shows "\<exists>h l'. acquireRunLease ttl now r owner scope l = (Inr (Some h), l')"
  using assms by (simp add: acquireRunLease_def lock_acquire_def nextFencingToken_def act_defs Let_def)

lemma released_record:
  assumes "ls_records l (lh_resource h) = Some c" "ll_owner (lr_lease c) = lh_owner h" "ll_token (lr_lease c) = ll_token (lh_lease h)"
  shows "handle_release h l = (Inr (), l\<lparr>ls_records := (ls_records l)(lh_resource h := None)\<rparr>)"
  using assms by (simp add: handle_release_def lock_release_def act_defs)

lemma wp_with_lease_frees:
  assumes h: "lh_resource h = lock" "ls_records (gd_locks (wd_guard v)) (lh_resource h) = Some c" "ll_owner (lr_lease c) = lh_owner h"
      "ll_token (lr_lease c) = ll_token (lh_lease h)"
  shows "ls_records (gd_locks (wd_guard (snd (with_lease h (cycle_body ev cy forced run) v)))) lock = None"
proof -
  let ?free = "\<lambda>w'. ls_records (gd_locks (wd_guard w')) lock = None"
  let ?v = "v\<lparr>wd_guard := (wd_guard v)\<lparr>gd_lease := Some h\<rparr>\<rparr>"
  have rel: "wp releaseExecutionLease (\<lambda>_. ?free) (\<lambda>_. ?free) x" if x: "held ?v x" for x
  proof -
    obtain h' where h': "gd_lease (wd_guard x) = Some h'" "lease_id h' = lease_id h" "gd_locks (wd_guard x) = gd_locks (wd_guard v)"
      using x by (auto simp: held_def)
    then have "handle_release h' (gd_locks (wd_guard v)) = (Inr (), gd_locks (wd_guard v)\<lparr>ls_records := (ls_records (gd_locks (wd_guard v)))(lock := None)\<rparr>)"
      using released_record[of "gd_locks (wd_guard v)" h' c] h by (simp add: lease_id_def)
    then show ?thesis
      using h' by (simp add: releaseExecutionLease_def wp_bindA wp_getA wp_thenA set_lease_def wp_modA wp_catchA)
        (simp add: wp_def on_locks_def)
  qed
  have "wp (with_lease h (cycle_body ev cy forced run)) (\<lambda>_. ?free) (\<lambda>_. ?free) v"
    unfolding with_lease_def wp_thenA set_lease_def wp_modA wp_finallyA
    by (rule wp_mono[OF keepsD[OF held_cycle_body]]; rule rel)
  then show ?thesis by (auto simp: wp_def split: prod.splits sum.splits)
qed

text \<open>A cycle up to the question for the lease: who asks, when, and what the others have left of the locks.\<close>

definition asking :: "env \<Rightarrow> cycle_env \<Rightarrow> world \<Rightarrow> (lease_handle option result \<times> lock_state)" where
  "asking ev cy w = acquireRunLease (cy_ttl cy) (en_now ev (Suc (wd_tick w))) GLOBAL_RUN_CYCLE (en_uuid ev (wd_tick w))
     (Some (ps_org (wd_stored w), ps_project (wd_stored w))) (gd_locks (cy_others cy (wd_guard w)))"

lemma runCycle_asks:
  "\<exists>v. gd_locks (wd_guard v) = snd (asking ev cy w) \<and> runCycle ev cy forced w = (case fst (asking ev cy w) of
     Inl e \<Rightarrow> (Inl e, v)
   | Inr None \<Rightarrow> (Inr (cycle_idle (en_uuid ev (wd_tick w)) (Some ''run_lock_unavailable'')), v)
   | Inr (Some h) \<Rightarrow> with_lease h (cycle_body ev cy forced (en_uuid ev (wd_tick w))) v)"
proof -
  define u where "u = w\<lparr>wd_cost := resetRun (wd_cost w), wd_tick := Suc (wd_tick w), wd_state := wd_stored w, wd_guard := cy_others cy (wd_guard w)\<rparr>"
  define v where "v = u\<lparr>wd_tick := Suc (wd_tick u), wd_guard := (cy_others cy (wd_guard w))\<lparr>gd_locks := snd (asking ev cy w)\<rparr>\<rparr>"
  have al: "acquire_lease ev (cy_ttl cy) (en_uuid ev (wd_tick w)) (ps_org (wd_stored w), ps_project (wd_stored w)) u = (fst (asking ev cy w), v)"
    by (cases "asking ev cy w") (simp add: acquire_lease_def bindA_def clock_def on_locks_def u_def v_def asking_def)
  have "runCycle ev cy forced w = bindA (acquire_lease ev (cy_ttl cy) (en_uuid ev (wd_tick w)) (ps_org (wd_stored w), ps_project (wd_stored w)))
      (\<lambda>lease. case lease of None \<Rightarrow> ret (cycle_idle (en_uuid ev (wd_tick w)) (Some ''run_lock_unavailable''))
        | Some h \<Rightarrow> with_lease h (cycle_body ev cy forced (en_uuid ev (wd_tick w)))) u"
    by (simp add: runCycle_def u_def bindA_def thenA_def modA_def set_cost_def set_state_def fresh_uuid_def unprotected_def load_def getA_def
        in_guard_def on_store_def act_defs cong: option.case_cong sum.case_cong prod.case_cong)
  then show ?thesis
    by (intro exI[of _ v]) (simp add: bindA_def al ret_def v_def split: sum.split option.split)
qed


definition sample_cycle :: cycle_env where
  "sample_cycle = task_env.extend (sample_task_env\<lparr>tk_registry := \<lambda>_. None\<rparr>)
     \<lparr> cy_ttl = 100, cy_root = ''/w'', cy_allocate = (\<lambda>_. Inr sample_workspace), cy_signal = 0, cy_others = (\<lambda>g. g) \<rparr>"


end
