(* ===== verification/Cycle_Contract.thy ===== *)
theory Cycle_Contract
  imports Orchestrator Task_Contract
begin

text \<open>
  What a run cycle guarantees: the plan it writes and from which state, and that it leaves the run lock free however it
  ends.
\<close>

section \<open>Around a run\<close>

lemma steady_lease [steady_intros]: "keeps steady (on_locks m)" "keeps steady (set_lease h)"
  by (rule keepsI; auto simp: wp_def on_locks_def set_lease_def modA_def steady_def split: prod.splits sum.splits)+

lemma steady_select [steady_intros]: "keeps steady (selectTask ev tk dir run)" "keeps steady (acquire_lease ev ttl owner scope)"
  "keeps steady releaseExecutionLease" "keeps steady (unprotected load)"
proof -
  show l: "keeps steady (unprotected load)" by (rule keepsI) (simp add: wp_load)
  show "keeps steady (selectTask ev tk dir run)" unfolding selectTask_def by (intro steady_intros l)
  show "keeps steady (acquire_lease ev ttl owner scope)" unfolding acquire_lease_def by (intro steady_intros)
  show "keeps steady releaseExecutionLease" unfolding releaseExecutionLease_def by (intro steady_intros)
qed

lemma steady_workspace [steady_intros]: "keeps steady (allocate_workspace al)" "keeps steady (workspace_call c ws)"
  unfolding allocate_workspace_def workspace_call_def by (intro steady_intros)+

text \<open>The coordinator adds steps that leave the plan alone before and after the run.\<close>

lemma wp_workspace_run:
  assumes "\<And>ws v. steady w v \<Longrightarrow> wp (execute ws) Q E v" and "\<And>e v. steady w v \<Longrightarrow> E e v"
    and Q: "\<And>x u v. Q x u \<Longrightarrow> steady u v \<Longrightarrow> Q x v" and E: "\<And>e u v. E e u \<Longrightarrow> steady u v \<Longrightarrow> E e v"
    and "steady w u"
  shows "wp (workspace_run ev al t run execute) Q E u"
proof -
  have call: "wp (workspace_call c ws) (\<lambda>_. steady v) (\<lambda>_ _. False) v" for c ws v
    by (simp add: workspace_call_def wp_def effect_def steady_def)
  have around: "wp (finallyA (catchA (execute ws) (\<lambda>e. thenA (workspace_call Ws_Rolled_Back ws) (throw e))) (workspace_call Ws_Cleaned_Up ws)) Q E v"
    if v: "steady w v" for ws v
  proof -
    have clean: "wp (workspace_call Ws_Cleaned_Up ws) (\<lambda>_. P) E' v'" if "\<And>v''. steady v' v'' \<Longrightarrow> P v''" for P E' v'
      by (rule wp_mono[OF call]) (use that in auto)
    show ?thesis
      unfolding wp_finallyA wp_catchA wp_thenA wp_throw
      by (rule wp_mono[OF assms(1)[OF v]])
        (auto intro!: clean wp_mono[OF call[of Ws_Rolled_Back]] intro: Q E)
  qed
  show ?thesis
    unfolding workspace_run_def
    by (rule wp_steady_next[OF steady_workspace(1) assms(5)], rule wp_steady_then[OF steady_artifacts(2)], assumption,
        rule wp_steady_then[OF steady_artifacts(4)], assumption, rule around) (use assms(2) in auto)
qed

section \<open>The plan a cycle writes\<close>

lemma completion_from: "completion tk t run u v \<Longrightarrow> steady w u \<Longrightarrow> completion tk t run w v"
  using plan_mark_done[of "wd_state u" "wd_state w"] by (auto simp: completion_def steady_def)

definition cycle_post :: "task_env \<Rightarrow> string \<Rightarrow> world \<Rightarrow> cycle_result \<Rightarrow> world \<Rightarrow> bool" where
  "cycle_post tk run w res v \<longleftrightarrow> (went_through res \<longrightarrow> (\<exists>t ws. completion (in_workspace tk ws) t run w v))"

lemma not_through_idle [simp]: "reason \<noteq> Some ''approval_pending'' \<Longrightarrow> \<not> went_through (cycle_idle run reason)"
  by (simp add: went_through_def cycle_idle_def)

lemma cycle_post_idle: "reason \<noteq> Some ''approval_pending'' \<Longrightarrow> cycle_post tk run w (cycle_idle r reason) v"
  by (simp add: cycle_post_def)

lemma stop_reason: "shouldStopRun s l = Some reason \<Longrightarrow> reason \<noteq> ''approval_pending''"
  by (auto simp: shouldStopRun_def split: if_splits)

lemma wp_cycle_body:
  assumes "steady w u"
  shows "wp (cycle_body ev cy forced run) (cycle_post (task_env.truncate cy) run w) (\<lambda>_. plan_stored w) u"
proof -
  let ?tk = "task_env.truncate cy"
  have run: "wp (workspace_run ev al t run (\<lambda>ws. task_run ev ?tk t run ws sig)) (cycle_post ?tk run w) (\<lambda>_. plan_stored w) v"
    if "steady w v" for al t sig v
  proof (rule wp_workspace_run[where w = w])
    fix ws v' assume v': "steady w v'"
    show "wp (task_run ev ?tk t run ws sig) (cycle_post ?tk run w) (\<lambda>_. plan_stored w) v'"
      by (rule wp_mono[OF wp_task_run]) (use v' in \<open>auto simp: cycle_post_def dest: steady_stored intro: completion_from\<close>)
  qed (use that in \<open>auto simp: cycle_post_def intro: completion_steady dest: steady_stored\<close>)
  have sel: "keeps steady (case when_truthy forced of Some tid \<Rightarrow> ret (selectForcedTask s tid) | None \<Rightarrow> selectTask ev ?tk dir run)" for s dir
    by (intro steady_intros)
  have rev: "keeps steady (case r of Some r \<Rightarrow> ret r | None \<Rightarrow> fresh_uuid ev)" for r
    by (intro steady_intros)
  have stop: "wp (bindA (case ex_activeRun (ps_execution s) of Some r \<Rightarrow> ret r | None \<Rightarrow> fresh_uuid ev) (\<lambda>r. ret (cycle_idle r (Some reason))))
      (cycle_post ?tk run w) (\<lambda>_. plan_stored w) v" if "shouldStopRun s l = Some reason" "steady w v" for s l reason v
    by (rule wp_steady_next[OF rev that(2)]) (use stop_reason[OF that(1)] in \<open>auto simp: wp_ret intro: cycle_post_idle steady_stored\<close>)
  have go: "wp (bindA (case when_truthy forced of Some tid \<Rightarrow> ret (selectForcedTask s tid) | None \<Rightarrow> selectTask ev ?tk (cy_root cy) run) (\<lambda>selected.
        case selected of
          None \<Rightarrow> ret (cycle_idle run (Some (if truthy forced then ''forced_task_not_executable'' else ''no_executable_task'')))
        | Some t \<Rightarrow> workspace_run ev (cy_allocate cy) t run (\<lambda>ws. task_run ev ?tk t run ws (Some (cy_signal cy)))))
      (cycle_post ?tk run w) (\<lambda>_. plan_stored w) v" if "steady w v" for s v
    by (rule wp_steady_next[OF sel that])
      (auto simp: wp_ret intro!: cycle_post_idle run intro: steady_stored split: option.split)
  have one: "wp (case shouldStopRun s l of
        Some reason \<Rightarrow> bindA (case ex_activeRun (ps_execution s) of Some r \<Rightarrow> ret r | None \<Rightarrow> fresh_uuid ev) (\<lambda>r. ret (cycle_idle r (Some reason)))
      | None \<Rightarrow> bindA (case when_truthy forced of Some tid \<Rightarrow> ret (selectForcedTask s tid) | None \<Rightarrow> selectTask ev ?tk (cy_root cy) run) (\<lambda>selected.
        case selected of
          None \<Rightarrow> ret (cycle_idle run (Some (if truthy forced then ''forced_task_not_executable'' else ''no_executable_task'')))
        | Some t \<Rightarrow> workspace_run ev (cy_allocate cy) t run (\<lambda>ws. task_run ev ?tk t run ws (Some (cy_signal cy)))))
      (cycle_post ?tk run w) (\<lambda>_. plan_stored w) v" if "steady w v" for s l v
    by (cases "shouldStopRun s l") (simp_all only: option.case go[OF that] stop[OF _ that])
  show ?thesis
    unfolding cycle_body_def Let_def
    by (rule wp_steady_then[OF steady_require_valid assms], rule wp_steady_next[OF steady.keeps_still(4)], assumption,
        rule wp_steady_then[OF steady.keeps_still(3)], assumption, rule one, assumption)
      (auto intro: steady_stored)
qed

lemma wp_with_lease:
  assumes "wp m Q E (w\<lparr>wd_guard := (wd_guard w)\<lparr>gd_lease := Some h\<rparr>\<rparr>)"
    and Q: "\<And>x u v. Q x u \<Longrightarrow> steady u v \<Longrightarrow> Q x v" and E: "\<And>e u v. E e u \<Longrightarrow> steady u v \<Longrightarrow> E e v"
  shows "wp (with_lease h m) Q E w"
proof -
  have quiet: "fst (releaseExecutionLease v) = Inr ()" for v
    by (auto simp: releaseExecutionLease_def bindA_def thenA_def getA_def set_lease_def modA_def catchA_def ret_def
        split: option.splits prod.splits sum.splits)
  have rel: "wp releaseExecutionLease (\<lambda>_. steady v) (\<lambda>_ _. False) v" for v
    using keepsD[OF steady_select(3), of v] quiet[of v] by (cases "releaseExecutionLease v") (simp add: wp_def)
  show ?thesis
    unfolding with_lease_def wp_thenA set_lease_def wp_modA wp_finallyA
    by (rule wp_mono[OF assms(1)]) (auto intro!: wp_mono[OF rel] intro: Q E)
qed

text \<open>C23. A cycle writes the plan it loaded. However the store changes while the cycle waits for the lease: when the
  cycle completes a task, the stored plan is the one it loaded before it asked for the lease, with
  that task marked done, and the answers behind it were checked; a cycle that throws leaves the stored plan as the others
  left it.\<close>

theorem cycle_writes_loaded_plan:
  "case runCycle ev cy forced w of
     (Inl e, w') \<Rightarrow> plan_of (wd_stored w') = plan_of (st_state (gd_store (cy_others cy (wd_guard w))))
   | (Inr res, w') \<Rightarrow>
       if went_through res
       then \<exists>t ws out. executed (in_workspace (task_env.truncate cy) ws) t out \<and> enforceCompletionEvidence t out = Inr () \<and>
              plan_of (wd_stored w') = plan_of (complete_task (task_id t) (wd_stored w))
       else True"
proof -
  have "wp (runCycle ev cy forced) (\<lambda>res w'. went_through res \<longrightarrow>
        (\<exists>t ws out. executed (in_workspace (task_env.truncate cy) ws) t out \<and> enforceCompletionEvidence t out = Inr () \<and>
           plan_of (wd_stored w') = plan_of (complete_task (task_id t) (wd_stored w))))
      (\<lambda>_ w'. plan_of (wd_stored w') = plan_of (st_state (gd_store (cy_others cy (wd_guard w))))) w"
  proof -
    define u where "u = w\<lparr>wd_cost := resetRun (wd_cost w), wd_tick := Suc (wd_tick w), wd_state := wd_stored w, wd_guard := cy_others cy (wd_guard w)\<rparr>"
    let ?run = "en_uuid ev (wd_tick w)"
    have u: "wd_state u = wd_stored w" "wd_guard u = cy_others cy (wd_guard w)" by (simp_all add: u_def)
    have lease: "wp (case lease of None \<Rightarrow> ret (cycle_idle ?run (Some ''run_lock_unavailable'')) | Some h \<Rightarrow> with_lease h (cycle_body ev cy forced ?run))
        (cycle_post (task_env.truncate cy) ?run u) (\<lambda>_. plan_stored u) v" if "steady u v" for lease v
    proof (cases lease)
      case (Some h)
      have "steady u (v\<lparr>wd_guard := (wd_guard v)\<lparr>gd_lease := Some h\<rparr>\<rparr>)" using that by (simp add: steady_def)
      from wp_cycle_body[OF this] show ?thesis
        unfolding Some option.case
        by (intro wp_with_lease) (auto simp: cycle_post_def intro: completion_steady dest: steady_stored)
    qed (simp add: wp_ret cycle_post_idle)
    have "wp (bindA (acquire_lease ev (cy_ttl cy) ?run (ps_org (wd_stored w), ps_project (wd_stored w))) (\<lambda>lease.
        case lease of None \<Rightarrow> ret (cycle_idle ?run (Some ''run_lock_unavailable'')) | Some h \<Rightarrow> with_lease h (cycle_body ev cy forced ?run)))
        (cycle_post (task_env.truncate cy) ?run u) (\<lambda>_. plan_stored u) u"
      by (rule wp_steady_next[OF steady_select(2) steady_refl]) (auto intro: lease steady_stored)
    then have "wp (runCycle ev cy forced) (cycle_post (task_env.truncate cy) ?run u) (\<lambda>_. plan_stored u) w"
      unfolding runCycle_def set_cost_def
      by (simp add: wp_thenA wp_bindA wp_modA wp_fresh_uuid wp_load wp_set_state u_def)
    then show ?thesis
      by (rule wp_mono) (simp_all add: cycle_post_def completion_def u, blast)
  qed
  then show ?thesis by (auto simp: wp_def split: prod.splits sum.splits)
qed

section \<open>A snapshot revived\<close>

lemma wp_selectTask_revision:
  "wp (selectTask ev tk dir run) (\<lambda>_ u. wd_state u = (wd_state w)\<lparr>ps_revision := ps_revision (wd_stored u)\<rparr> \<and>
      ps_revision (wd_stored u) = ps_revision (wd_stored w)) (\<lambda>_ _. True) w"
proof -
  have k: "keeps (calls ag 0 0) (getRole tk role)" "keeps (calls ag 0 0) (makeContext tk role run dir otid sig)" for ag role otid sig
    unfolding getRole_def makeContext_def by (intro silent_intros)+
  show ?thesis
    unfolding selectTask_def wp_bindA
    by (rule wp_mono[OF wp_conj[OF keepsD[OF k(1)] wp_true]], rule wp_mono[OF keepsD[OF k(2)]], unfold wp_getA, rule wp_mono[OF wp_role_execute])
      (auto simp: wp_simps wp_load calls_def split: sum.split)
qed

text \<open>Selecting a task revives the snapshot. The cycle loads its state before it has the lease; after the task
  manager has answered it copies only the stored revision into that state. A save that follows then passes the revision check
  whatever others have committed in between, and puts the old plan back.\<close>

theorem selection_revives_snapshot:
  assumes "selectTask ev tk dir run w = (Inr t, w1)" and "save_state ev evs w1 = (Inr (), w2)"
  shows "plan_of (wd_stored w2) = plan_of (wd_state w) \<and> ps_revision (wd_stored w2) = Suc (ps_revision (wd_stored w))"
proof -
  have s: "wd_state w1 = (wd_state w)\<lparr>ps_revision := ps_revision (wd_stored w1)\<rparr>" "ps_revision (wd_stored w1) = ps_revision (wd_stored w)"
    using wp_selectTask_revision[of ev tk dir run w] assms(1) by (auto simp: wp_def)
  have "wp (save_state ev evs) (\<lambda>_ w2. plan_of (wd_stored w2) = plan_of (wd_state w1) \<and> ps_revision (wd_stored w2) = Suc (ps_revision (wd_stored w1)))
      (\<lambda>_ _. True) w1"
    by (rule wp_save_state) auto
  then show ?thesis using assms(2) s by (simp add: wp_def)
qed

definition chooser :: task_env where
  "chooser = sample_task_env\<lparr>tk_registry := [Task_Manager \<mapsto> answering Task_Manager (Out_Task (Some sample_t2))]\<rparr>"

text \<open>Meanwhile another process has completed \<open>t2\<close> and moved the revision to 3.\<close>

definition overtaken :: world where
  "overtaken = sample_world\<lparr>wd_guard := (wd_guard sample_world)\<lparr>gd_store :=
     sample_store\<lparr>st_state := (complete_task ''t2'' sample_state)\<lparr>ps_revision := 3\<rparr>\<rparr>\<rparr>\<rparr>"

theorem selection_revives_snapshot_witness:
  "\<exists>t w1 w2. selectTask sample_env chooser ''/w'' ''r'' overtaken = (Inr t, w1) \<and> save_state sample_env [] w1 = (Inr (), w2) \<and>
     plan_of (wd_stored w2) = open_plan \<and> plan_of (wd_stored overtaken) = done_plan"
proof -
  have z: "valid_state sample_zod sample_state" by (rule sample_state_valid)
  have st: "wd_stored overtaken = (complete_task ''t2'' sample_state)\<lparr>ps_revision := 3\<rparr>" "wd_state overtaken = sample_state"
    by (simp_all add: overtaken_def sample_world_def)
  have ready: "ready overtaken"
    using ready_sample valid_mark_done(1)[OF z refl]
    by (simp add: ready_def overtaken_def sample_world_def sample_store_def drawn_def)
      (simp add: complete_task_def Let_def modify_task_def set_tasks_def)
  define F where "F = (\<lambda>w. ready w \<and> wd_state w = sample_state)"
  have role: "wp (role_execute sample_env (open_runner\<lparr>rn_tools := rn_tools open_runner\<rparr>) (answering Task_Manager (Out_Task (Some sample_t2)))
      (task_manager_request s) cx) (\<lambda>r u. resp_output r = Out_Task (Some sample_t2) \<and> F u) (\<lambda>_ _. False) w"
    if "F w" "cx_runId cx = ''r''" for w s cx
  proof (rule role_succeeds)
    fix i v assume "recordable i" "F v"
    then show "wp (record_step sample_env i) (\<lambda>_. F) (\<lambda>_ _. False) v"
      unfolding F_def using wp_both[OF wp_ready_record_step keepsD[OF silent_record_step[where ag = undefined]], of v i]
      by (auto simp: calls_def intro: wp_mono)
  qed (use that in \<open>auto simp: F_def ready_tick ready_changes task_manager_request_def validateTaskManagerOutput_def validateBacklogTask_def sample_task_def\<close>)
  have reg: "tk_registry chooser Task_Manager = Some (answering Task_Manager (Out_Task (Some sample_t2)))" "tk_runner chooser = open_runner"
    by (simp_all add: chooser_def sample_task_env_def)
  have "wp (selectTask sample_env chooser ''/w'' ''r'') (\<lambda>t u. ready u) (\<lambda>_ _. False) overtaken"
    unfolding selectTask_def wp_bindA getRole_def reg option.case wp_liftA sum.case makeContext_def wp_getA
    apply (rule wp_mono[OF role[simplified]])
    using ready st by (auto simp: F_def resolve_policy_def Let_def wp_simps wp_load ready_changes)
  then obtain t w1 where r1: "selectTask sample_env chooser ''/w'' ''r'' overtaken = (Inr t, w1)" and w1: "ready w1"
    by (cases "selectTask sample_env chooser ''/w'' ''r'' overtaken") (auto simp: wp_def split: sum.splits)
  have s1: "wd_state w1 = sample_state\<lparr>ps_revision := ps_revision (wd_stored w1)\<rparr>"
    using wp_selectTask_revision[of sample_env chooser "''/w''" "''r''" overtaken] r1 st by (auto simp: wp_def)
  have "wp (save_state sample_env []) (\<lambda>_ _. True) (\<lambda>_ _. False) w1"
    using ready_changes(5)[OF w1] z
    by (simp add: save_state_def wp_simps wp_protected_free saveWithEvents_def wp_commit_valid s1 sample_env_def)
  then obtain w2 where r2: "save_state sample_env [] w1 = (Inr (), w2)"
    by (cases "save_state sample_env [] w1") (auto simp: wp_def split: sum.splits)
  show ?thesis using r1 r2 selection_revives_snapshot[OF r1 r2] st valid_mark_done(2)[OF z refl] by auto
qed

end
