(* ===== verification/Planning_Roles.thy ===== *)
theory Planning_Roles
  imports Role_Outputs
begin

text \<open>
  The roles that turn a repository into a plan, \<open>packages/agents/src/default-roles.ts\<close>: the bootstrap analyst, the
  architect and the planner, with the merge preview. \<open>merge_loop\<close> is the \<open>while\<close> loop of
  \<open>buildMergePreview\<close>; \<open>layers_below\<close> is its specification, the iteration of the dependency
  operator from the empty set.
\<close>

section \<open>Shared pieces\<close>

definition makeResponse :: "agent_role \<Rightarrow> string \<Rightarrow> 'o \<Rightarrow> 'o role_response" where
  "makeResponse role summary out =
     \<lparr> resp_role = role, resp_summary = summary, resp_output = out, resp_warnings = [], resp_risks = [],
       resp_needsHumanDecision = False, resp_confidence = 8 / 10 \<rparr>"

lemma solid_text [simp]: "\<not> is_space c \<Longrightarrow> \<not> blank (c # s)"
  by (simp add: blank_iff)

text \<open>\<open>new Error(m)\<close>, as the \<open>validate\<close> methods throw it.\<close>

definition role_error :: "string \<Rightarrow> js_error" where
  "role_error m = Js_Error PlainError m []"

fun arch_severity_text :: "arch_severity \<Rightarrow> string" where
  "arch_severity_text Sev_Low = ''low''"
| "arch_severity_text Sev_Medium = ''medium''"
| "arch_severity_text Sev_High = ''high''"
| "arch_severity_text Sev_Critical = ''critical''"

fun issue_type_text :: "issue_type \<Rightarrow> string" where
  "issue_type_text Cyclic_Dependency = ''cyclic_dependency''"
| "issue_type_text Layering_Violation = ''layering_violation''"
| "issue_type_text Leaky_Abstraction = ''leaky_abstraction''"
| "issue_type_text Overcoupling = ''overcoupling''"
| "issue_type_text Contract_Instability = ''contract_instability''"
| "issue_type_text Critical_Path_Gap = ''critical_path_gap''"

fun severityRank :: "arch_severity \<Rightarrow> int" where
  "severityRank Sev_Critical = 4"
| "severityRank Sev_High = 3"
| "severityRank Sev_Medium = 2"
| "severityRank Sev_Low = 1"

text \<open>\<open>(left, right) => weight(right) - weight(left)\<close>.\<close>

definition by_severity :: "arch_finding cmp" where
  "by_severity = flip_cmp (key_cmp (\<lambda>f. severityRank (af_severity f)))"

definition highestSeverity :: "arch_finding list \<Rightarrow> arch_severity" where
  "highestSeverity fs = (case sort_by by_severity fs of [] \<Rightarrow> Sev_Low | f # _ \<Rightarrow> af_severity f)"

definition mapSeverityToPriority :: "arch_severity \<Rightarrow> priority" where
  "mapSeverityToPriority s =
     (if s = Sev_Critical then P0 else if s = Sev_High then P1 else if s = Sev_Medium then P2 else P3)"

definition mapSeverityToRisk :: "arch_severity \<Rightarrow> estimated_risk" where
  "mapSeverityToRisk s =
     (if s = Sev_Critical \<or> s = Sev_High then Risk_High else if s = Sev_Medium then Risk_Medium else Risk_Low)"

section \<open>Names\<close>

text \<open>\<open>s.replace(/[P]+/g, r)\<close> for a one-character replacement.\<close>

function replace_runs :: "(char \<Rightarrow> bool) \<Rightarrow> char \<Rightarrow> string \<Rightarrow> string" where
  "replace_runs P r [] = []"
| "replace_runs P r (c # s) = (if P c then r # replace_runs P r (dropWhile P s) else c # replace_runs P r s)"
  by pat_completeness auto
termination
  by (relation "measure (\<lambda>(P, r, s). length s)") (auto simp: le_imp_less_Suc length_dropWhile_le)

definition slug_char :: "char \<Rightarrow> bool" where
  "slug_char c = (let n = (of_char c :: nat) in 97 \<le> n \<and> n \<le> 122 \<or> 48 \<le> n \<and> n \<le> 57)"

text \<open>\<open>s.replace(/(^-|-$)/g, '')\<close>: one dash at the front, and one at the end of what is left.\<close>

definition strip_dashes :: "string \<Rightarrow> string" where
  "strip_dashes s = (let front = (if s \<noteq> [] \<and> hd s = CHR ''-'' then tl s else s) in
     if front \<noteq> [] \<and> last front = CHR ''-'' then butlast front else front)"

definition slugify :: "string \<Rightarrow> string" where
  "slugify input = strip_dashes (replace_runs (\<lambda>c. \<not> slug_char c) CHR ''-'' (to_lower input))"

definition humanizeSubsystem :: "string \<Rightarrow> string" where
  "humanizeSubsystem s = replace_runs (\<lambda>c. c = CHR ''_'' \<or> c = CHR ''-'') CHR '' '' s"

definition humanizeIssueType :: "issue_type \<Rightarrow> string" where
  "humanizeIssueType t = map (\<lambda>c. if c = CHR ''_'' then CHR '' '' else c) (issue_type_text t)"

section \<open>The merge preview\<close>

text \<open>The \<open>Map\<close> keyed by \<open>task.id\<close>, as the list of its values in insertion order.\<close>

definition remaining_tasks :: "task jsrec \<Rightarrow> task list" where
  "remaining_tasks tasks = rec_values (foldl (\<lambda>r t. rec_set (task_id t) t r) [] (rec_values tasks))"

definition ready_ids :: "string cmp \<Rightarrow> task list \<Rightarrow> string list \<Rightarrow> string list" where
  "ready_ids lc remaining completed =
     sort_by lc (map task_id (filter (\<lambda>t. \<forall>d \<in> set (task_depends t). d \<in> set completed) remaining))"

definition batch_id :: "merge_batch list \<Rightarrow> string" where
  "batch_id batches = ''batch-'' @ nat_to_string (length batches + 1)"

function merge_loop :: "string cmp \<Rightarrow> task list \<Rightarrow> string list \<Rightarrow> merge_batch list \<Rightarrow> string list \<Rightarrow>
    merge_batch list \<times> string list" where
  "merge_loop lc remaining completed batches notes =
     (if remaining = [] then (batches, notes)
      else let ready = ready_ids lc remaining completed in
        if ready = [] then
          (let fallback = sort_by lc (map task_id remaining) in
           (batches @ [\<lparr> mb_id = batch_id batches, mb_taskIds = fallback,
              mb_rationale = ''Fallback batch: cyclic or unresolved dependencies require manual review.'' \<rparr>],
            notes @ [''Fallback batch created for unresolved dependency graph: '' @ join '', '' fallback @ ''.'']))
        else merge_loop lc (filter (\<lambda>t. task_id t \<notin> set ready) remaining) (completed @ ready)
          (batches @ [\<lparr> mb_id = batch_id batches, mb_taskIds = ready,
             mb_rationale = ''Dependencies for this batch are satisfied by completed or prior batches.'' \<rparr>]) notes)"
  by pat_completeness auto

lemma ready_shrinks:
  assumes "ready_ids lc remaining completed \<noteq> []"
  shows "length (filter (\<lambda>t. task_id t \<notin> set (ready_ids lc remaining completed)) remaining) < length remaining"
proof -
  obtain t where "t \<in> set remaining" "task_id t \<in> set (ready_ids lc remaining completed)"
    using assms by (auto simp: ready_ids_def filter_empty_conv)
  then show ?thesis by (auto intro: length_filter_less)
qed

termination merge_loop
  by (relation "measure (\<lambda>(lc, remaining, completed, batches, notes). length remaining)") (auto simp: ready_shrinks)

declare merge_loop.simps [simp del]

definition merge_notes :: "string list" where
  "merge_notes = [''Batches are ordered to honor task dependency edges.'',
     ''Each batch can be reviewed independently to reduce merge risk.'']"

definition buildMergePreview :: "string cmp \<Rightarrow> task jsrec \<Rightarrow> merge_batch list \<times> string list" where
  "buildMergePreview lc tasks = merge_loop lc (remaining_tasks tasks) [] [] merge_notes"


section \<open>The preview as layers of the dependency graph\<close>

text \<open>The ids whose dependencies are all resolved within \<open>n\<close> rounds.\<close>

fun layers_below :: "task list \<Rightarrow> nat \<Rightarrow> string set" where
  "layers_below ts 0 = {}"
| "layers_below ts (Suc n) = {task_id t | t. t \<in> set ts \<and> set (task_depends t) \<subseteq> layers_below ts n}"

lemma layers_grow: "layers_below ts n \<subseteq> layers_below ts (Suc n)"
  by (induction n) auto

lemma layers_mono: "m \<le> n \<Longrightarrow> layers_below ts m \<subseteq> layers_below ts n"
  using layers_grow lift_Suc_mono_le by metis

lemma layers_ids: "layers_below ts n \<subseteq> task_id ` set ts"
  by (cases n) auto

lemma layers_stable:
  assumes "layers_below ts (Suc n) = layers_below ts n" and "n \<le> m"
  shows "layers_below ts m = layers_below ts n"
  using assms(2) by (induction m rule: dec_induct) (use assms(1) in simp_all)

text \<open>What the loop has when \<open>n\<close> batches are built.\<close>

definition left_over :: "task list \<Rightarrow> nat \<Rightarrow> task list" where
  "left_over ts n = filter (\<lambda>t. task_id t \<notin> layers_below ts n) ts"

lemma set_ready_ids:
  "set (ready_ids lc remaining completed) = task_id ` {t \<in> set remaining. set (task_depends t) \<subseteq> set completed}"
  by (simp add: ready_ids_def subset_eq)

lemma ready_layer:
  assumes "distinct (map task_id ts)" and "set completed = layers_below ts n"
  shows "set (ready_ids lc (left_over ts n) completed) = layers_below ts (Suc n) - layers_below ts n"
    and "distinct (ready_ids lc (left_over ts n) completed)"
proof -
  show "set (ready_ids lc (left_over ts n) completed) = layers_below ts (Suc n) - layers_below ts n"
    unfolding set_ready_ids assms(2) left_over_def set_filter layers_below.simps(2) by fast
  have "distinct (map task_id (filter (\<lambda>t. \<forall>d \<in> set (task_depends t). d \<in> set completed) (left_over ts n)))"
    using assms(1) by (simp add: left_over_def distinct_map_filter)
  then show "distinct (ready_ids lc (left_over ts n) completed)"
    unfolding ready_ids_def using mset_eq_imp_distinct_iff[OF mset_sort_by] by blast
qed

lemma left_over_Suc:
  assumes "set completed = layers_below ts n" and "distinct (map task_id ts)"
  shows "filter (\<lambda>t. task_id t \<notin> set (ready_ids lc (left_over ts n) completed)) (left_over ts n) = left_over ts (Suc n)"
  unfolding ready_layer(1)[OF assms(2,1)] using layers_grow[of ts n]
  by (simp add: left_over_def del: layers_below.simps) (rule filter_cong, simp, blast)

text \<open>The two ways the loop stops: everything is in a layer, or what is left never will be.\<close>

definition layered :: "task list \<Rightarrow> string list list \<Rightarrow> bool" where
  "layered ts ls = (\<forall>n < length ls. ls ! n \<noteq> [] \<and> distinct (ls ! n) \<and> set (ls ! n) = layers_below ts (Suc n) - layers_below ts n)"

definition unresolved :: "task list \<Rightarrow> string set" where
  "unresolved ts = task_id ` set ts - (\<Union>n. layers_below ts n)"

lemma layered_snoc:
  assumes "layered ts ls" and "l \<noteq> []" "distinct l" "set l = layers_below ts (Suc (length ls)) - layers_below ts (length ls)"
  shows "layered ts (ls @ [l])"
  using assms by (auto simp: layered_def nth_append less_Suc_eq)

lemma left_over_unresolved:
  assumes "layers_below ts (Suc n) = layers_below ts n"
  shows "task_id ` set (left_over ts n) = unresolved ts"
proof -
  have "(\<Union>m. layers_below ts m) = layers_below ts n"
    using layers_stable[OF assms] layers_mono[of _ n ts] by (metis UN_least UN_upper iso_tuple_UNIV_I nle_le subset_antisym)
  then show ?thesis by (auto simp: left_over_def unresolved_def)
qed

lemma merge_loop_step:
  assumes "left \<noteq> []" and "ready_ids lc left completed \<noteq> []"
    and "filter (\<lambda>t. task_id t \<notin> set (ready_ids lc left completed)) left = left'"
  shows "merge_loop lc left completed batches notes = merge_loop lc left' (completed @ ready_ids lc left completed)
    (batches @ [\<lparr> mb_id = batch_id batches, mb_taskIds = ready_ids lc left completed,
       mb_rationale = ''Dependencies for this batch are satisfied by completed or prior batches.'' \<rparr>]) notes"
  unfolding assms(3)[symmetric] by (subst merge_loop.simps) (simp add: assms(1,2) Let_def)

lemma merge_loop_layers:
  assumes "distinct (map task_id ts)" and "set completed = layers_below ts (length batches)"
    and "layered ts (map mb_taskIds batches)"
  shows "\<exists>ls rest. map mb_taskIds (fst (merge_loop lc (left_over ts (length batches)) completed batches notes)) =
           ls @ (if rest = [] then [] else [rest])
         \<and> layered ts ls \<and> set rest = unresolved ts \<and> distinct rest \<and> layers_below ts (Suc (length ls)) = layers_below ts (length ls)
         \<and> snd (merge_loop lc (left_over ts (length batches)) completed batches notes) = notes @ (if rest = [] then []
             else [''Fallback batch created for unresolved dependency graph: '' @ join '', '' rest @ ''.''])"
  using assms(2,3)
proof (induction "length (left_over ts (length batches))" arbitrary: completed batches rule: less_induct)
  case less
  let ?n = "length batches" and ?left = "left_over ts (length batches)"
  let ?ready = "ready_ids lc ?left completed"
  note ready = ready_layer[OF assms(1) less.prems(1), of lc]
  show ?case
  proof (cases "?left = []")
    case True
    then have all: "task_id ` set ts \<subseteq> layers_below ts ?n" by (auto simp: left_over_def filter_empty_conv)
    then have stable: "layers_below ts (Suc ?n) = layers_below ts ?n" 
      using layers_ids[of ts "Suc ?n"] layers_grow[of ts ?n] by (metis subset_antisym subset_trans)
    have "unresolved ts = {}" using all by (auto simp: unresolved_def)
    then show ?thesis using True less.prems(2) stable
      by (intro exI[of _ "map mb_taskIds batches"] exI[of _ "[]"]) (simp add: merge_loop.simps[of lc "[]"])
  next
    case left: False
    show ?thesis
    proof (cases "?ready = []")
      case True
      then have stable: "layers_below ts (Suc ?n) = layers_below ts ?n" using ready(1) layers_grow[of ts ?n] by auto
      let ?rest = "sort_by lc (map task_id ?left)"
      have "distinct (map task_id ?left)" using assms(1) by (simp add: left_over_def distinct_map_filter)
      then have "distinct ?rest" using mset_eq_imp_distinct_iff[OF mset_sort_by] by blast
      moreover have "set ?rest = unresolved ts" using left_over_unresolved[OF stable] by simp
      ultimately show ?thesis using left True less.prems(2) stable
        by (intro exI[of _ "map mb_taskIds batches"] exI[of _ ?rest]) (simp add: merge_loop.simps[of lc ?left] Let_def)
    next
      case False
      let ?batches = "batches @ [\<lparr> mb_id = batch_id batches, mb_taskIds = ?ready,
             mb_rationale = ''Dependencies for this batch are satisfied by completed or prior batches.'' \<rparr>]"
      have step: "filter (\<lambda>t. task_id t \<notin> set ?ready) ?left = left_over ts (length ?batches)"
        using left_over_Suc[OF less.prems(1) assms(1)] by simp
      have shorter: "length (left_over ts (length ?batches)) < length ?left"
        using ready_shrinks[OF False] step by simp
      have "set (completed @ ?ready) = layers_below ts (length ?batches)"
        using less.prems(1) ready(1) layers_grow[of ts ?n] by auto
      moreover have "layered ts (map mb_taskIds ?batches)"
        using layered_snoc[OF less.prems(2) False ready(2)] ready(1) by simp
      ultimately show ?thesis unfolding merge_loop_step[OF left False step] by (rule less.hyps[OF shorter])
    qed
  qed
qed


lemma layered_butlast: "layered ts (ls @ [l]) \<Longrightarrow> layered ts ls"
  unfolding layered_def by (metis length_append_singleton less_SucI nth_append)

lemma layered_concat: "layered ts ls \<Longrightarrow> distinct (concat ls) \<and> set (concat ls) = layers_below ts (length ls)"
proof (induction ls rule: rev_induct)
  case (snoc l ls)
  have l: "distinct l" "set l = layers_below ts (Suc (length ls)) - layers_below ts (length ls)"
    using snoc.prems unfolding layered_def by (metis length_append_singleton lessI nth_append_length)+
  show ?case
    using snoc.IH[OF layered_butlast[OF snoc.prems]] l layers_grow[of ts "length ls"]
    unfolding concat_append set_append distinct_append length_append_singleton by (simp del: layers_below.simps) fast
qed simp

lemma values_by_id:
  "map fst (foldl (\<lambda>r t. rec_set (task_id t) t r) r ts) = map (task_id \<circ> snd) (foldl (\<lambda>r t. rec_set (task_id t) t r) r ts)"
  if "map fst r = map (task_id \<circ> snd) r" for r :: "task jsrec"
  using that
proof (induction ts arbitrary: r)
  case (Cons t ts)
  have "map fst (rec_set k v s) = map (task_id \<circ> snd) (rec_set k v s)"
    if "map fst s = map (task_id \<circ> snd) s" "k = task_id v" for k v and s :: "task jsrec"
    using that by (induction s) auto
  from Cons.IH[OF this[OF Cons.prems refl]] show ?case unfolding foldl_Cons .
qed simp

lemma keys_fold_set: "distinct (map fst r) \<Longrightarrow> distinct (map fst (foldl (\<lambda>r t. rec_set (task_id t) t r) r ts))"
  by (induction ts arbitrary: r) (auto simp: distinct_update)

lemma dom_fold_set: "fst ` set (foldl (\<lambda>r t. rec_set (task_id t) t r) r ts) = fst ` set r \<union> task_id ` set ts"
  by (induction ts arbitrary: r) (auto simp: dom_update)

lemma remaining_ids:
  "distinct (map task_id (remaining_tasks tasks))" "task_id ` set (remaining_tasks tasks) = task_id ` set (rec_values tasks)"
proof -
  let ?r = "foldl (\<lambda>r t. rec_set (task_id t) t r) [] (rec_values tasks)"
  have ids: "map task_id (remaining_tasks tasks) = map fst ?r"
    using values_by_id[of "[]" "rec_values tasks"] by (simp add: remaining_tasks_def)
  show "distinct (map task_id (remaining_tasks tasks))" unfolding ids by (simp add: keys_fold_set)
  have "set (map fst ?r) = task_id ` set (rec_values tasks)" by (simp add: dom_fold_set)
  then show "task_id ` set (remaining_tasks tasks) = task_id ` set (rec_values tasks)" by (metis ids set_map)
qed

lemma merge_preview_layers:
  "\<exists>ls rest. map mb_taskIds (fst (buildMergePreview lc tasks)) = ls @ (if rest = [] then [] else [rest])
     \<and> layered (remaining_tasks tasks) ls \<and> set rest = unresolved (remaining_tasks tasks) \<and> distinct rest
     \<and> layers_below (remaining_tasks tasks) (Suc (length ls)) = layers_below (remaining_tasks tasks) (length ls)
     \<and> snd (buildMergePreview lc tasks) = merge_notes @ (if rest = [] then []
         else [''Fallback batch created for unresolved dependency graph: '' @ join '', '' rest @ ''.''])"
  using merge_loop_layers[of "remaining_tasks tasks" "[]" "[]" lc merge_notes]
  by (simp add: buildMergePreview_def left_over_def remaining_ids layered_def del: layers_below.simps(2))

text \<open>C25. The merge preview refines the layers of the dependency graph. The batches before the fallback batch are
  exactly the layers: batch \<open>n\<close> holds the tasks whose dependencies are all resolved after \<open>n\<close> batches and not before. A
  fallback batch comes last, holds exactly the tasks that no number of batches resolves (their dependencies are
  cyclic or unknown), and is there, with its note, exactly when there is such a task. Every task is in exactly one batch.\<close>

theorem merge_preview_refines_layers:
  "let ts = remaining_tasks tasks; (batches, notes) = buildMergePreview lc tasks; ids = concat (map mb_taskIds batches) in
     distinct ids \<and> set ids = task_id ` set (rec_values tasks)
     \<and> (\<exists>ls rest. map mb_taskIds batches = ls @ (if rest = [] then [] else [rest])
          \<and> layered ts ls \<and> set rest = unresolved ts
          \<and> notes = merge_notes @ (if rest = [] then []
              else [''Fallback batch created for unresolved dependency graph: '' @ join '', '' rest @ ''.'']))"
proof -
  obtain ls rest where r: "map mb_taskIds (fst (buildMergePreview lc tasks)) = ls @ (if rest = [] then [] else [rest])"
      "layered (remaining_tasks tasks) ls" "set rest = unresolved (remaining_tasks tasks)" "distinct rest"
      "layers_below (remaining_tasks tasks) (Suc (length ls)) = layers_below (remaining_tasks tasks) (length ls)"
      "snd (buildMergePreview lc tasks) = merge_notes @ (if rest = [] then []
         else [''Fallback batch created for unresolved dependency graph: '' @ join '', '' rest @ ''.''])"
    using merge_preview_layers[of lc tasks] by blast
  have all: "(\<Union>n. layers_below (remaining_tasks tasks) n) = layers_below (remaining_tasks tasks) (length ls)"
    using layers_stable[OF r(5)] layers_mono[of _ "length ls" "remaining_tasks tasks"]
    by (metis UN_least UN_upper iso_tuple_UNIV_I nle_le subset_antisym)
  have concat: "concat (map mb_taskIds (fst (buildMergePreview lc tasks))) = concat ls @ rest" using r(1) by simp
  have ids: "distinct (concat ls @ rest)" "set (concat ls @ rest) = task_id ` set (rec_values tasks)"
    using layered_concat[OF r(2)] r(3,4) layers_ids[of "remaining_tasks tasks" "length ls"]
    unfolding unresolved_def all remaining_ids(2) by auto
  show ?thesis
    unfolding Let_def case_prod_unfold concat using ids r(1,2,3,6) by blast
qed


section \<open>The planner\<close>

record plan_state =
  pl_epics :: "epic jsrec"
  pl_features :: "feature jsrec"
  pl_tasks :: "task jsrec"
  pl_previous :: "string option"

definition epic_key :: "arch_finding \<Rightarrow> string" where
  "epic_key f = ''epic-'' @ slugify (af_subsystem f)"

definition feature_key :: "nat \<Rightarrow> arch_finding \<Rightarrow> string" where
  "feature_key i f = ''feature-'' @ slugify (af_subsystem f) @ ''-'' @ nat_to_string (i + 1)"

definition task_key :: "nat \<Rightarrow> arch_finding \<Rightarrow> string" where
  "task_key i f = ''task-'' @ slugify (af_subsystem f) @ ''-'' @ nat_to_string (i + 1)"

definition new_epic :: "arch_finding \<Rightarrow> epic" where
  "new_epic f = \<lparr> epic_id = epic_key f, epic_title = humanizeSubsystem (af_subsystem f) @ '' hardening'',
     epic_goal = ''Reduce '' @ af_subsystem f @ '' architecture risk'', epic_state = Epic_Todo, epic_features = [] \<rparr>"

definition planned_feature :: "nat \<Rightarrow> arch_finding \<Rightarrow> feature" where
  "planned_feature i f = \<lparr> feature_id = feature_key i f, feature_epic = epic_key f,
     feature_title = humanizeIssueType (af_issueType f), feature_outcome = af_recommendation f,
     feature_risks = [af_impact f], feature_tasks = [task_key i f] \<rparr>"

definition planned_task :: "nat \<Rightarrow> arch_finding \<Rightarrow> string option \<Rightarrow> task" where
  "planned_task i f previous = \<lparr> task_id = task_key i f, task_feature = feature_key i f, task_split_from = None,
     task_title = ''Address '' @ issue_type_text (af_issueType f) @ '' in '' @ af_subsystem f,
     task_kind = Architecture, task_status = Todo, task_priority = mapSeverityToPriority (af_severity f),
     task_depends = (case when_truthy previous of None \<Rightarrow> [] | Some p \<Rightarrow> [p]),
     task_criteria =
       [''Finding \"'' @ af_description f @ ''\" is addressed with explicit module-boundary changes'',
        ''Evidence for '' @ af_subsystem f @ '' risk reduction is recorded''],
     task_modules = af_modules f, task_risk = mapSeverityToRisk (af_severity f) \<rparr>"

text \<open>One turn of the loop: \<open>epicEntries.set\<close> when the epic is new, then \<open>featureIds.push\<close>.\<close>

definition add_epic :: "nat \<Rightarrow> arch_finding \<Rightarrow> epic jsrec \<Rightarrow> epic jsrec" where
  "add_epic i f epics =
     (let known = (if rec_has epics (epic_key f) then epics else rec_set (epic_key f) (new_epic f) epics) in
      case rec_get known (epic_key f) of None \<Rightarrow> known
      | Some e \<Rightarrow> rec_set (epic_key f) (e\<lparr>epic_features := epic_features e @ [feature_key i f]\<rparr>) known)"

definition plan_step :: "plan_state \<Rightarrow> nat \<times> arch_finding \<Rightarrow> plan_state" where
  "plan_step p = (\<lambda>(i, f). \<lparr>
     pl_epics = add_epic i f (pl_epics p),
     pl_features = rec_set (feature_key i f) (planned_feature i f) (pl_features p),
     pl_tasks = rec_set (task_key i f) (planned_task i f (pl_previous p)) (pl_tasks p),
     pl_previous = Some (task_key i f) \<rparr>)"

definition plan_loop :: "arch_finding list \<Rightarrow> plan_state" where
  "plan_loop fs = foldl plan_step \<lparr> pl_epics = [], pl_features = [], pl_tasks = [], pl_previous = None \<rparr> (enumerate 0 fs)"

definition buildContainmentEdges :: "milestone \<Rightarrow> backlog \<Rightarrow> dependency_edge list" where
  "buildContainmentEdges m b = concat (map (\<lambda>eid.
     \<lparr> dg_fromId = ms_id m, dg_toId = eid, dg_type = Contains_Edge, dg_rationale = ''Milestone tracks execution for this epic.'' \<rparr>
     # (case rec_get (backlog_epics b) eid of None \<Rightarrow> []
        | Some e \<Rightarrow> concat (map (\<lambda>fid.
            \<lparr> dg_fromId = eid, dg_toId = fid, dg_type = Contains_Edge, dg_rationale = ''Epic decomposes into feature delivery slices.'' \<rparr>
            # (case rec_get (backlog_features b) fid of None \<Rightarrow> []
               | Some f \<Rightarrow> map (\<lambda>tid. \<lparr> dg_fromId = fid, dg_toId = tid, dg_type = Contains_Edge,
                   dg_rationale = ''Feature is delivered through executable tasks.'' \<rparr>) (feature_tasks f))) (epic_features e)))) (ms_epics m))"

definition buildTaskDependencyEdges :: "task jsrec \<Rightarrow> dependency_edge list" where
  "buildTaskDependencyEdges tasks = concat (map (\<lambda>t. map (\<lambda>d.
     \<lparr> dg_fromId = d, dg_toId = task_id t, dg_type = Depends_On_Edge,
       dg_rationale = ''Task '' @ task_id t @ '' depends on '' @ d @ ''.'' \<rparr>) (task_depends t)) (rec_values tasks))"

definition buildPlanningAssumptions :: "discovery \<Rightarrow> nat \<Rightarrow> string list" where
  "buildPlanningAssumptions d findingCount =
     [''Architecture findings are prioritized by severity and implementation impact.'',
      ''Task dependency ordering remains valid unless new blocking findings are introduced.'']
     @ (if length (ds_packageInventory d) > 0
        then [''Planning scope remains constrained to '' @ nat_to_string (length (ds_packageInventory d)) @ '' discovered packages.''] else [])
     @ (if findingCount > 0 then [''Each architecture finding maps to at least one implementation-ready task.''] else [])"

definition planned_risk :: "nat \<times> arch_finding \<Rightarrow> planner_risk" where
  "planned_risk = (\<lambda>(i, f). \<lparr> pk_id = ''risk-'' @ nat_to_string (i + 1),
     pk_title = humanizeSubsystem (af_subsystem f) @ '': '' @ humanizeIssueType (af_issueType f),
     pk_severity = af_severity f, pk_description = af_impact f, pk_mitigation = af_recommendation f,
     pk_relatedIds = af_subsystem f # af_modules f \<rparr>)"

definition plan_milestone :: "epic jsrec \<Rightarrow> milestone" where
  "plan_milestone epics = \<lparr> ms_id = ''milestone-architecture-hardening'', ms_title = ''Architecture hardening'',
     ms_goal = ''Reduce architecture risk before broader feature expansion'', ms_status = Mile_In_Progress,
     ms_epics = rec_keys epics, ms_entry = [''Discovery and architecture analysis completed''],
     ms_exit = [''All planned architecture tasks are completed''] \<rparr>"

definition planner_execute :: "string cmp \<Rightarrow> discovery \<Rightarrow> arch_finding list \<Rightarrow> planner_output role_response" where
  "planner_execute lc discovery findings =
     (let sortedFindings = sort_by by_severity findings;
          p = plan_loop sortedFindings;
          backlog = \<lparr> backlog_epics = pl_epics p, backlog_features = pl_features p, backlog_tasks = pl_tasks p \<rparr>;
          milestone = plan_milestone (pl_epics p);
          (batches, notes) = buildMergePreview lc (pl_tasks p)
      in makeResponse Planner ''Produced milestone-aware backlog plan''
         \<lparr> po_milestone = milestone, po_backlog = backlog,
           po_summary = ''Planned '' @ nat_to_string (length (rec_keys (pl_tasks p))) @ '' architecture task(s) from ''
             @ nat_to_string (length sortedFindings) @ '' finding(s).'',
           po_dependencyEdges = buildContainmentEdges milestone backlog @ buildTaskDependencyEdges (pl_tasks p),
           po_assumptions = buildPlanningAssumptions discovery (length sortedFindings),
           po_risks = map planned_risk (enumerate 0 sortedFindings),
           po_batches = batches, po_batchNotes = notes \<rparr>)"

definition planner_validate :: "planner_output role_response \<Rightarrow> unit result" where
  "planner_validate r = (let out = resp_output r; tasks = backlog_tasks (po_backlog out) in
     if length (rec_keys tasks) = 0 then Inl (role_error ''Planner output must contain at least one task'')
     else case find (\<lambda>t. length (task_criteria t) = 0) (rec_values tasks) of
       Some t \<Rightarrow> Inl (role_error (''Planned task '' @ task_id t @ '' is missing acceptance criteria''))
     | None \<Rightarrow>
         if length (po_dependencyEdges out) = 0 then Inl (role_error ''Planner output must include dependency edges'')
         else if length (po_assumptions out) = 0 then Inl (role_error ''Planner output must include assumptions'')
         else if length (po_batches out) = 0 then Inl (role_error ''Planner output must include merge preview batches'')
         else Inr ())"

section \<open>Plans\<close>

lemma split_at_last:
  assumes "c \<notin> set y" "c \<notin> set y'" and "x @ c # y = x' @ c # y'"
  shows "x = x' \<and> y = y'"
proof -
  have eq: "rev y @ c # rev x = rev y' @ c # rev x'" using arg_cong[OF assms(3), of rev] by simp
  have front: "takeWhile (\<lambda>a. a \<noteq> c) (rev z @ c # w) = rev z" if "c \<notin> set z" for z w
    using that by (subst takeWhile_append2) auto
  have "rev y = rev y'" using arg_cong[OF eq, of "takeWhile (\<lambda>a. a \<noteq> c)"] front assms(1,2) by simp
  then show ?thesis using eq by simp
qed

lemma dash_notin: "CHR ''-'' \<notin> set (nat_to_string n)"
  by (rule minus_notin_nat)

lemma planned_keys_inj:
  "task_key i f = task_key j g \<Longrightarrow> i = j" "feature_key i f = feature_key j g \<Longrightarrow> i = j"
proof -
  assume "task_key i f = task_key j g"
  then have "slugify (af_subsystem f) @ CHR ''-'' # nat_to_string (i + 1) = slugify (af_subsystem g) @ CHR ''-'' # nat_to_string (j + 1)"
    by (simp add: task_key_def)
  from split_at_last[OF dash_notin dash_notin this] show "i = j" using nat_to_string_inj by fastforce
next
  assume "feature_key i f = feature_key j g"
  then have "slugify (af_subsystem f) @ CHR ''-'' # nat_to_string (i + 1) = slugify (af_subsystem g) @ CHR ''-'' # nat_to_string (j + 1)"
    by (simp add: feature_key_def)
  from split_at_last[OF dash_notin dash_notin this] show "i = j" using nat_to_string_inj by fastforce
qed


lemma alist_update_new: "k \<notin> fst ` set al \<Longrightarrow> AList.update k v al = al @ [(k, v)]"
  by (induction al) auto

lemma plan_loop_snoc: "plan_loop (fs @ [f]) = plan_step (plan_loop fs) (length fs, f)"
  by (simp add: plan_loop_def enumerate_append_eq)

lemma plan_loop_Nil: "plan_loop [] = \<lparr> pl_epics = [], pl_features = [], pl_tasks = [], pl_previous = None \<rparr>"
  by (simp add: plan_loop_def)

definition previous_key :: "arch_finding list \<Rightarrow> nat \<Rightarrow> string option" where
  "previous_key fs i = (case i of 0 \<Rightarrow> None | Suc j \<Rightarrow> Some (task_key j (fs ! j)))"

lemma plan_features: "pl_features (plan_loop fs) = map (\<lambda>i. (feature_key i (fs ! i), planned_feature i (fs ! i))) [0..<length fs]"
proof (induction fs rule: rev_induct)
  case (snoc f fs)
  have "feature_key (length fs) f \<notin> fst ` set (pl_features (plan_loop fs))"
    unfolding snoc using planned_keys_inj(2) by fastforce
  then show ?case unfolding plan_loop_snoc using snoc by (simp add: plan_step_def alist_update_new nth_append)
qed (simp add: plan_loop_Nil)

lemma plan_tasks:
  "pl_tasks (plan_loop fs) = map (\<lambda>i. (task_key i (fs ! i), planned_task i (fs ! i) (previous_key fs i))) [0..<length fs]
   \<and> pl_previous (plan_loop fs) = previous_key fs (length fs)"
proof (induction fs rule: rev_induct)
  case (snoc f fs)
  have fresh: "task_key (length fs) f \<notin> fst ` set (pl_tasks (plan_loop fs))"
    unfolding conjunct1[OF snoc] using planned_keys_inj(1) by fastforce
  have prev: "previous_key (fs @ [f]) i = previous_key fs i" if "i \<le> length fs" for i
    using that by (auto simp: previous_key_def nth_append split: nat.splits)
  have "map (\<lambda>i. (task_key i ((fs @ [f]) ! i), planned_task i ((fs @ [f]) ! i) (previous_key (fs @ [f]) i))) [0..<length fs] = pl_tasks (plan_loop fs)"
    unfolding conjunct1[OF snoc] by (simp add: nth_append prev)
  then show ?case
    unfolding plan_loop_snoc using snoc fresh
    by (simp add: plan_step_def alist_update_new prev) (simp add: previous_key_def)
qed (simp add: plan_loop_Nil previous_key_def)

lemma planned_task_depends: "i < length fs \<Longrightarrow> task_depends (planned_task i f (previous_key fs i)) =
    (case i of 0 \<Rightarrow> [] | Suc j \<Rightarrow> [task_key j (fs ! j)])"
  by (auto simp: planned_task_def previous_key_def when_truthy_def task_key_def split: nat.splits)

lemma planned_task_id [simp]: "task_id (planned_task i f p) = task_key i f"
  by (simp add: planned_task_def)

lemma rec_values_planned: "rec_values (pl_tasks (plan_loop fs)) = map (\<lambda>i. planned_task i (fs ! i) (previous_key fs i)) [0..<length fs]"
  by (simp add: plan_tasks)

lemma fold_set_distinct:
  "distinct (map task_id ts) \<Longrightarrow> task_id ` set ts \<inter> fst ` set r = {} \<Longrightarrow>
   foldl (\<lambda>r t. rec_set (task_id t) t r) r ts = r @ map (\<lambda>t. (task_id t, t)) ts"
proof (induction ts arbitrary: r)
  case (Cons t ts)
  have "foldl (\<lambda>r t. rec_set (task_id t) t r) (r @ [(task_id t, t)]) ts = (r @ [(task_id t, t)]) @ map (\<lambda>t. (task_id t, t)) ts"
    using Cons.prems by (intro Cons.IH) auto
  then show ?case using Cons.prems by (simp add: alist_update_new)
qed simp

lemma remaining_distinct: "distinct (map task_id (rec_values tasks)) \<Longrightarrow> remaining_tasks tasks = rec_values tasks"
  by (simp add: remaining_tasks_def fold_set_distinct comp_def)

lemma planned_ids: "distinct (map (\<lambda>i. task_key i (fs ! i)) [0..<n])"
  using planned_keys_inj(1) by (auto simp: distinct_map inj_on_def)

lemma remaining_planned: "remaining_tasks (pl_tasks (plan_loop fs)) = map (\<lambda>i. planned_task i (fs ! i) (previous_key fs i)) [0..<length fs]"
  using remaining_distinct[of "pl_tasks (plan_loop fs)"] planned_ids[of fs "length fs"]
  by (simp add: rec_values_planned comp_def)


lemma image_restrict: "{t \<in> h ` A. P t} = h ` {i. i \<in> A \<and> P (h i)}"
  by auto

lemma key_in_image: "task_key j (fs ! j) \<in> (\<lambda>i. task_key i (fs ! i)) ` A \<longleftrightarrow> j \<in> A"
  using planned_keys_inj(1) by blast

lemma planned_layers:
  "layers_below (remaining_tasks (pl_tasks (plan_loop fs))) n = (\<lambda>i. task_key i (fs ! i)) ` {..<min n (length fs)}"
proof (induction n)
  case (Suc n)
  have "i < length fs \<Longrightarrow> set (task_depends (planned_task i (fs ! i) (previous_key fs i))) \<subseteq> (\<lambda>i. task_key i (fs ! i)) ` {..<min n (length fs)}
      \<longleftrightarrow> i < Suc n" for i
    by (cases i) (simp_all add: planned_task_depends key_in_image)
  then have "{i. i < length fs \<and> set (task_depends (planned_task i (fs ! i) (previous_key fs i))) \<subseteq> (\<lambda>i. task_key i (fs ! i)) ` {..<min n (length fs)}}
      = {..<min (Suc n) (length fs)}"
    by (simp add: lessThan_def conj_commute cong: conj_cong)
  then have "{t \<in> set (remaining_tasks (pl_tasks (plan_loop fs))). set (task_depends t) \<subseteq> (\<lambda>i. task_key i (fs ! i)) ` {..<min n (length fs)}}
      = (\<lambda>i. planned_task i (fs ! i) (previous_key fs i)) ` {..<min (Suc n) (length fs)}"
    by (simp only: remaining_planned set_map set_upt atLeast0LessThan image_restrict lessThan_iff)
  then have "layers_below (remaining_tasks (pl_tasks (plan_loop fs))) (Suc n) =
      task_id ` (\<lambda>i. planned_task i (fs ! i) (previous_key fs i)) ` {..<min (Suc n) (length fs)}"
    unfolding layers_below.simps Suc by (simp add: setcompr_eq_image)
  then show ?case by (simp add: image_image)
qed simp

lemma planned_batches:
  "map mb_taskIds (fst (buildMergePreview lc (pl_tasks (plan_loop fs)))) = map (\<lambda>i. [task_key i (fs ! i)]) [0..<length fs]
   \<and> snd (buildMergePreview lc (pl_tasks (plan_loop fs))) = merge_notes"
proof -
  let ?ts = "remaining_tasks (pl_tasks (plan_loop fs))" and ?key = "\<lambda>i. task_key i (fs ! i)"
  obtain ls rest where r: "map mb_taskIds (fst (buildMergePreview lc (pl_tasks (plan_loop fs)))) = ls @ (if rest = [] then [] else [rest])"
      "layered ?ts ls" "set rest = unresolved ?ts"
      "layers_below ?ts (Suc (length ls)) = layers_below ?ts (length ls)"
      "snd (buildMergePreview lc (pl_tasks (plan_loop fs))) = merge_notes @ (if rest = [] then []
         else [''Fallback batch created for unresolved dependency graph: '' @ join '', '' rest @ ''.''])"
    using merge_preview_layers[of lc "pl_tasks (plan_loop fs)"] by blast
  have inj: "inj ?key" using planned_keys_inj(1) by (auto simp: inj_def)
  have layer: "layers_below ?ts (Suc n) - layers_below ?ts n = (if n < length fs then {?key n} else {})" for n
    unfolding planned_layers using inj by (auto simp: inj_def less_Suc_eq)
  have "task_id ` set ?ts = ?key ` {..<length fs}" by (simp add: remaining_planned image_image atLeast0LessThan)
  then have "task_id ` set ?ts = layers_below ?ts (length fs)" by (simp add: planned_layers)
  then have "unresolved ?ts = {}" unfolding unresolved_def by blast
  then have none: "rest = []" using r(3) by simp
  have "length fs \<le> length ls" using layer[of "length ls"] r(4) by (auto split: if_splits)
  moreover have ls: "n < length fs \<and> ls ! n = [?key n]" if "n < length ls" for n
  proof -
    have l: "ls ! n \<noteq> []" "distinct (ls ! n)" "set (ls ! n) = (if n < length fs then {?key n} else {})"
      using r(2) that layer[of n] unfolding layered_def by auto
    then have "n < length fs" by (auto split: if_splits)
    moreover have "length (ls ! n) = card (set (ls ! n))" using l(2) by (simp add: distinct_card)
    ultimately have "length (ls ! n) = 1" using l(3) by simp
    then obtain x where "ls ! n = [x]" by (auto simp: length_Suc_conv)
    then show ?thesis using l(3) \<open>n < length fs\<close> by simp
  qed
  ultimately have "length ls = length fs" by (metis le_less_Suc_eq lessI less_irrefl not_less_eq linorder_not_le order_le_less)
  then have "ls = map (\<lambda>i. [?key i]) [0..<length fs]" using ls by (intro nth_equalityI) auto
  then show ?thesis using r(1,5) none by simp
qed

section \<open>The epics of a plan\<close>

lemma add_epic_get:
  "rec_get (add_epic i f epics) k =
     (if k = epic_key f
      then Some (case rec_get epics k of None \<Rightarrow> (new_epic f)\<lparr>epic_features := [feature_key i f]\<rparr>
                 | Some e \<Rightarrow> e\<lparr>epic_features := epic_features e @ [feature_key i f]\<rparr>)
      else rec_get epics k)"
  by (auto simp: add_epic_def rec_has_def Let_def new_epic_def split: option.splits)

lemma distinct_add_epic: "distinct (rec_keys epics) \<Longrightarrow> distinct (rec_keys (add_epic i f epics))"
  by (auto simp: add_epic_def Let_def distinct_update split: option.splits)

lemma distinct_epics: "distinct (rec_keys (pl_epics (plan_loop fs)))"
  by (induction fs rule: rev_induct) (simp_all add: plan_loop_Nil plan_loop_snoc plan_step_def distinct_add_epic)

text \<open>The epic of a key: absent, or the features of the findings with that key, in order.\<close>

definition epic_features_of :: "arch_finding list \<Rightarrow> string \<Rightarrow> string list" where
  "epic_features_of fs k = map (\<lambda>i. feature_key i (fs ! i)) (filter (\<lambda>i. epic_key (fs ! i) = k) [0..<length fs])"

lemma epic_features_snoc:
  "epic_features_of (fs @ [f]) k = epic_features_of fs k @ (if epic_key f = k then [feature_key (length fs) f] else [])"
proof -
  have "filter (\<lambda>i. epic_key ((fs @ [f]) ! i) = k) [0..<length fs] = filter (\<lambda>i. epic_key (fs ! i) = k) [0..<length fs]"
    by (rule filter_cong) (auto simp: nth_append)
  moreover have "map (\<lambda>i. feature_key i ((fs @ [f]) ! i)) (filter P [0..<length fs]) = map (\<lambda>i. feature_key i (fs ! i)) (filter P [0..<length fs])" for P
    by (rule map_cong) (auto simp: nth_append)
  ultimately show ?thesis by (simp add: epic_features_of_def)
qed

lemma plan_epics:
  "case rec_get (pl_epics (plan_loop fs)) k of
     None \<Rightarrow> \<forall>f \<in> set fs. epic_key f \<noteq> k
   | Some e \<Rightarrow> epic_id e = k \<and> epic_title e \<noteq> [] \<and> epic_goal e \<noteq> [] \<and> k \<in> epic_key ` set fs
       \<and> epic_features e = epic_features_of fs k"
proof (induction fs rule: rev_induct)
  case (snoc f fs)
  have "epic_features_of fs k = []" if "\<forall>g \<in> set fs. epic_key g \<noteq> k"
    using that by (auto simp: epic_features_of_def filter_empty_conv)
  then show ?case
    using snoc by (auto simp: plan_loop_snoc plan_step_def add_epic_get new_epic_def epic_features_snoc split: option.splits)
qed (simp add: plan_loop_Nil)


section \<open>The planner's answer\<close>

lemma sorted_by_severity: "sorted_wrt (\<lambda>f g. severityRank (af_severity g) \<le> severityRank (af_severity f)) (sort_by by_severity fs)"
  using comparator.sorted_sort_by[OF comparator_flip[OF comparator_key]] by (simp add: by_severity_def flip_cmp_def key_cmp_def)

lemma severity_priority: "severityRank a \<le> severityRank b \<Longrightarrow> mapSeverityToPriority a \<le> mapSeverityToPriority b"
  by (cases a; cases b) (simp_all add: mapSeverityToPriority_def less_eq_priority_def)

lemma planner_output_parts:
  "backlog_tasks (po_backlog (resp_output (planner_execute lc d fs))) = pl_tasks (plan_loop (sort_by by_severity fs))"
  "backlog_features (po_backlog (resp_output (planner_execute lc d fs))) = pl_features (plan_loop (sort_by by_severity fs))"
  "backlog_epics (po_backlog (resp_output (planner_execute lc d fs))) = pl_epics (plan_loop (sort_by by_severity fs))"
  "po_milestone (resp_output (planner_execute lc d fs)) = plan_milestone (pl_epics (plan_loop (sort_by by_severity fs)))"
  "po_batches (resp_output (planner_execute lc d fs)) = fst (buildMergePreview lc (pl_tasks (plan_loop (sort_by by_severity fs))))"
  "po_batchNotes (resp_output (planner_execute lc d fs)) = snd (buildMergePreview lc (pl_tasks (plan_loop (sort_by by_severity fs))))"
  "resp_role (planner_execute lc d fs) = Planner" "resp_confidence (planner_execute lc d fs) = 8 / 10"
  "resp_summary (planner_execute lc d fs) = ''Produced milestone-aware backlog plan''"
  by (simp_all add: planner_execute_def makeResponse_def Let_def case_prod_unfold)

text \<open>The plan follows the severity of the findings. There is one task per finding, under its own id; tasks of more
  severe findings come first and have at least their priority; each task depends on the task before it and on
  nothing else, and the merge preview has one batch per task in that order, with no fallback batch.\<close>

theorem planner_follows_severity:
  "let out = resp_output (planner_execute lc d fs); tasks = backlog_tasks (po_backlog out); ts = rec_values tasks in
     length ts = length fs \<and> rec_keys tasks = map task_id ts \<and> distinct (map task_id ts)
     \<and> sorted_wrt (\<lambda>t u. task_priority u \<le> task_priority t) ts
     \<and> map task_depends ts = take (length ts) ([] # map (\<lambda>t. [task_id t]) ts)
     \<and> map mb_taskIds (po_batches out) = map (\<lambda>t. [task_id t]) ts \<and> po_batchNotes out = merge_notes"
proof -
  let ?fs = "sort_by by_severity fs"
  let ?t = "\<lambda>i. planned_task i (?fs ! i) (previous_key ?fs i)"
  have ts: "rec_values (pl_tasks (plan_loop ?fs)) = map ?t [0..<length fs]" by (simp add: rec_values_planned)
  have keys: "rec_keys (pl_tasks (plan_loop ?fs)) = map task_id (map ?t [0..<length fs])" by (simp add: plan_tasks comp_def)
  have "sorted_wrt (\<lambda>t u. task_priority u \<le> task_priority t) (map ?t [0..<length fs])"
    unfolding sorted_wrt_iff_nth_less
    using sorted_by_severity[of fs] severity_priority by (simp add: sorted_wrt_iff_nth_less planned_task_def)
  moreover have "map task_depends (map ?t [0..<length fs]) = take (length fs) ([] # map (\<lambda>t. [task_id t]) (map ?t [0..<length fs]))"
  proof (rule nth_equalityI)
    fix i assume "i < length (map task_depends (map ?t [0..<length fs]))"
    then show "map task_depends (map ?t [0..<length fs]) ! i = take (length fs) ([] # map (\<lambda>t. [task_id t]) (map ?t [0..<length fs])) ! i"
      using planned_task_depends[of i ?fs] by (cases i) (simp_all del: upt_Suc)
  qed simp
  ultimately show ?thesis
    unfolding Let_def planner_output_parts ts keys using planned_batches[of lc ?fs] planned_ids[of ?fs "length fs"]
    by (simp add: comp_def)
qed

end
