(* ===== verification/Repository_Roles.thy ===== *)
theory Repository_Roles
  imports Planning_Roles Workflow
begin

text \<open>
  The other roles of \<open>packages/agents/src/default-roles.ts\<close> that answer without a language model: the
  bootstrap analyst, the architect, the writer of documentation, the release auditor, the state steward, the
  integration manager and the task manager. Each has its \<open>execute\<close> and its \<open>validate\<close>. The time
  of the analyst's answer is an argument.
\<close>

section \<open>The bootstrap analyst\<close>

record repository_snapshot =
  bs_rootPath :: string
  bs_topLevelEntries :: "string list"
  bs_packageDirectories :: "string list"
  bs_packageMap :: "string list jsrec"
  bs_manifests :: "string list"
  bs_configFiles :: "string list"
  bs_entryPoints :: "string list"
  bs_testInfrastructure :: "string list"

text \<open>\<open>m[group] ??= []; m[group].push(x)\<close>.\<close>

definition push_group :: "string \<Rightarrow> string \<Rightarrow> string list jsrec \<Rightarrow> string list jsrec" where
  "push_group g x m = rec_set g (or_default (rec_get m g) [] @ [x]) m"

definition subsystem_step :: "string list jsrec \<Rightarrow> string \<Rightarrow> string list jsrec" where
  "subsystem_step m dir =
     (case split_on CHR ''/'' dir of
        segment # name # _ \<Rightarrow>
          if segment = [] \<or> name = [] then m
          else let m' = push_group (if segment = ''apps'' then ''applications'' else ''packages'') dir m in
            (if str_includes name ''control-plane'' then push_group ''cli'' dir m' else m')
      | _ \<Rightarrow> m)"

definition buildSubsystemMap :: "repository_snapshot \<Rightarrow> string list jsrec" where
  "buildSubsystemMap s =
     (let m = foldl subsystem_step [] (bs_packageDirectories s) in
      if length (bs_testInfrastructure s) > 0 then rec_set ''testing'' (bs_testInfrastructure s) m else m)"

definition buildHealthObservations :: "repository_snapshot \<Rightarrow> string list" where
  "buildHealthObservations s =
     (if ''package.json'' \<in> set (bs_manifests s) then [''package.json manifest detected''] else [])
     @ (if ''eslint.config.mjs'' \<in> set (bs_configFiles s) then [''ESLint configuration detected''] else [])
     @ (if ''tsconfig.json'' \<in> set (bs_configFiles s) then [''TypeScript configuration detected''] else [])
     @ (if length (bs_testInfrastructure s) > 0
        then [''Test infrastructure present in '' @ join '', '' (bs_testInfrastructure s)] else [])"

definition unstable_entry :: "string \<Rightarrow> bool" where
  "unstable_entry e = (str_includes e ''/execution'' \<or> str_includes e ''/workflow'' \<or> str_includes e ''/state'')"

definition bootstrap_execute :: "string \<Rightarrow> repository_snapshot \<Rightarrow> discovery role_response" where
  "bootstrap_execute now s =
     (let packageInventory = rec_keys (bs_packageMap s) in
      makeResponse Bootstrap_Analyst (''Established bootstrap baseline for '' @ bs_rootPath s)
        \<lparr> ds_generatedAt = now, ds_packageMap = bs_packageMap s, ds_subsystemMap = buildSubsystemMap s,
          ds_packageInventory = packageInventory, ds_entryPoints = bs_entryPoints s,
          ds_testInfrastructure = bs_testInfrastructure s, ds_healthObservations = buildHealthObservations s,
          ds_unstableAreaCandidates = filter unstable_entry packageInventory,
          ds_criticalPaths = (if length (bs_entryPoints s) > 0 then bs_entryPoints s else take 3 (bs_packageDirectories s)),
          ds_recommendedNextStep = ''architecture_analysis'' \<rparr>)"

definition bootstrap_validate :: "discovery role_response \<Rightarrow> unit result" where
  "bootstrap_validate r =
     (if ds_recommendedNextStep (resp_output r) \<noteq> ''architecture_analysis''
      then Inl (role_error ''Bootstrap analysis must hand off to architecture analysis'') else Inr ())"

section \<open>The architect\<close>

text \<open>\<open>/packages\/.+\/src\//\<close>: \<open>.\<close> is any character but a line end.\<close>

definition line_end :: "char \<Rightarrow> bool" where
  "line_end c = (c = CHR 0x0A \<or> c = CHR 0x0D)"

fun reaches_src :: "string \<Rightarrow> bool" where
  "reaches_src [] = False"
| "reaches_src (c # s) = (prefix ''/src/'' (c # s) \<or> \<not> line_end c \<and> reaches_src s)"

definition package_source_at :: "string \<Rightarrow> bool" where
  "package_source_at s = (prefix ''packages/'' s \<and>
     (case drop (length ''packages/'') s of [] \<Rightarrow> False | c # r \<Rightarrow> \<not> line_end c \<and> reaches_src r))"

definition imports_package_source :: "string \<Rightarrow> bool" where
  "imports_package_source s = (\<exists>t \<in> set (suffixes s). package_source_at t)"

definition findDirectSourceImportFindings :: "string list jsrec \<Rightarrow> arch_finding list" where
  "findDirectSourceImportFindings sourceImports =
     (let offenders = filter (\<lambda>(f, imports). \<exists>e \<in> set imports. imports_package_source e) sourceImports in
      if length offenders = 0 then []
      else [\<lparr> af_subsystem = ''module_boundaries'', af_issueType = Contract_Instability,
        af_description = ''Application entrypoints import package source paths directly instead of a stable package boundary.'',
        af_impact = ''Internal source path coupling increases refactor cost and makes package contracts easier to break accidentally.'',
        af_recommendation = ''Expose package-level entrypoints and prefer importing through stable public module boundaries.'',
        af_modules = map fst offenders, af_severity = Sev_Medium \<rparr>])"

definition critical_path_finding :: "string list \<Rightarrow> arch_finding" where
  "critical_path_finding paths =
     \<lparr> af_subsystem = ''runtime'', af_issueType = Critical_Path_Gap,
       af_description = ''Critical execution path spans '' @ nat_to_string (length paths) @ '' structural entry points'',
       af_impact = ''Coordinated runtime changes are more likely to cross package boundaries and regress without explicit contracts.'',
       af_recommendation = ''Preserve stable service and port boundaries around critical runtime packages before adding richer orchestration flows.'',
       af_modules = paths, af_severity = Sev_Medium \<rparr>"

definition architect_execute :: "discovery \<Rightarrow> string list jsrec \<Rightarrow> architecture_analysis role_response" where
  "architect_execute d sourceImports =
     (let findings = findDirectSourceImportFindings sourceImports
            @ (if length (ds_criticalPaths d) \<ge> 2 then [critical_path_finding (ds_criticalPaths d)] else [])
      in makeResponse Architect ''Produced structured architecture findings''
           \<lparr> aa_findings = findings,
             aa_riskSummary = (if length findings = 0
               then ''No material architecture findings detected from the current discovery baseline.''
               else ''Detected '' @ nat_to_string (length findings) @ '' architecture finding(s); prioritize ''
                 @ arch_severity_text (highestSeverity findings) @ ''-severity constraints first.'') \<rparr>)"

definition architect_validate :: "architecture_analysis role_response \<Rightarrow> unit result" where
  "architect_validate r =
     (if blank (aa_riskSummary (resp_output r)) then Inl (role_error ''Architecture analysis must include a risk summary'')
      else if \<exists>f \<in> set (aa_findings (resp_output r)). length (af_modules f) = 0
      then Inl (role_error ''Architecture findings must include affected modules'') else Inr ())"

section \<open>The writer of documentation\<close>

record docs_input =
  dw_projectName :: string
  dw_summary :: string
  dw_affectedModules :: "string list"
  dw_behaviorChanges :: "string list"
  dw_designRationale :: "string list"
  dw_followUpGaps :: "string list"

definition bullets :: "string list \<Rightarrow> string list" where
  "bullets = map (\<lambda>e. ''- '' @ e)"

definition docs_execute :: "docs_input \<Rightarrow> docs_output role_response" where
  "docs_execute i =
     makeResponse Docs_Writer ''Generated bounded documentation artifact''
       \<lparr> do_summary = dw_summary i, do_affectedModules = dw_affectedModules i, do_behaviorChanges = dw_behaviorChanges i,
         do_designRationale = dw_designRationale i, do_followUpGaps = dw_followUpGaps i,
         do_markdown = join [CHR 0x0A]
           ([''# '' @ dw_projectName i @ '' update summary'', '''', dw_summary i, '''', ''## Affected modules'']
            @ bullets (dw_affectedModules i) @ ['''', ''## Behavior changes''] @ bullets (dw_behaviorChanges i)
            @ ['''', ''## Design rationale''] @ bullets (dw_designRationale i)
            @ ['''', ''## Follow-up gaps''] @ bullets (dw_followUpGaps i) @ ['''']) \<rparr>"

definition docs_validate :: "docs_output role_response \<Rightarrow> unit result" where
  "docs_validate r =
     (if blank (do_markdown (resp_output r)) then Inl (role_error ''Documentation output must include markdown'')
      else if length (do_affectedModules (resp_output r)) = 0
      then Inl (role_error ''Documentation output must include affected modules'') else Inr ())"

section \<open>The release auditor\<close>

record release_input =
  ri_blockers :: "string list"
  ri_warnings :: "string list"
  ri_evidence :: "string list"

definition release_execute :: "release_input \<Rightarrow> release_assessment role_response" where
  "release_execute i =
     (let verdict = (if length (ri_blockers i) > 0 then Release_Blocked
                     else if length (ri_warnings i) > 0 then Release_Caution else Release_Ready)
      in makeResponse Release_Auditor ''Assessed release readiness''
           \<lparr> ra_verdict = verdict,
             ra_confidence = (if verdict = Release_Blocked then 1 / 4 else if verdict = Release_Caution then 6 / 10 else 9 / 10),
             ra_blockers = ri_blockers i, ra_warnings = ri_warnings i, ra_evidence = ri_evidence i,
             ra_recommendedNextActions =
               (if length (ri_blockers i) > 0 then map (\<lambda>b. ''Resolve blocker: '' @ b) (ri_blockers i)
                else if length (ri_warnings i) > 0 then map (\<lambda>w. ''Address warning: '' @ w) (ri_warnings i)
                else [''Maintain the current validation and documentation baseline.'']) \<rparr>)"

definition release_validate :: "release_assessment role_response \<Rightarrow> unit result" where
  "release_validate r = (if length (ra_evidence (resp_output r)) = 0
     then Inl (role_error ''Release assessment must include evidence'') else Inr ())"

section \<open>The state steward\<close>

definition mapIntegrityFinding :: "string \<Rightarrow> integrity_finding" where
  "mapIntegrityFinding issue =
     (let isMissingReference = str_includes (to_lower issue) ''missing'';
          isBlockedState = str_includes (to_lower issue) ''blocked''
      in \<lparr> if_issue = issue,
           if_severity = (if isMissingReference then Integrity_High else if isBlockedState then Integrity_Medium else Integrity_Low),
           if_repairRecommendation =
             (if isMissingReference then ''Repair or remove invalid references before continuing orchestration.''
              else if isBlockedState then ''Reconcile blocked-task state with failures, artifacts, and task status.''
              else ''Review the state transition and correct the inconsistent field explicitly.''),
           if_safeToAutoRepair = False \<rparr>)"

definition steward_execute :: "string list \<Rightarrow> integrity_assessment role_response" where
  "steward_execute issues =
     (let findings = map mapIntegrityFinding issues; isOk = (length findings = 0) in
      makeResponse State_Steward ''Assessed state integrity''
        \<lparr> ia_ok = isOk, ia_findings = findings,
          ia_summary = (if isOk then ''State integrity check passed with no issues.''
            else ''State integrity check found '' @ nat_to_string (length findings) @ '' issue(s); unsafe changes require escalation.'') \<rparr>)"

definition steward_validate :: "integrity_assessment role_response \<Rightarrow> unit result" where
  "steward_validate r = (if blank (ia_summary (resp_output r))
     then Inl (role_error ''State integrity assessment must include a summary'') else Inr ())"

section \<open>The integration manager\<close>

record integration_input =
  ii_mappedEntities :: "export_record list"
  ii_missingRequiredFields :: "string list"
  ii_exportBlockers :: "string list"

definition integration_execute :: "integration_input \<Rightarrow> export_payload role_response" where
  "integration_execute i =
     makeResponse Integration_Manager ''Prepared integration export payload''
       \<lparr> xp_mappedEntities = ii_mappedEntities i, xp_missingRequiredFields = ii_missingRequiredFields i,
         xp_exportBlockers = ii_exportBlockers i,
         xp_recommendedFixes = map (\<lambda>f. ''Fill missing field: '' @ f) (ii_missingRequiredFields i)
           @ map (\<lambda>b. ''Resolve export blocker: '' @ b) (ii_exportBlockers i) \<rparr>"

definition integration_validate :: "export_payload role_response \<Rightarrow> unit result" where
  "integration_validate r = (if length (xp_mappedEntities (resp_output r)) = 0
     then Inl (role_error ''Integration export payload must contain mapped entities'') else Inr ())"

section \<open>The task manager\<close>

definition task_manager_execute :: "string cmp \<Rightarrow> project_state \<Rightarrow> task option role_response" where
  "task_manager_execute lc s =
     (let t = selectNextTask lc s in
      makeResponse Task_Manager (case t of Some x \<Rightarrow> ''Selected '' @ task_id x | None \<Rightarrow> ''No executable task'') t)"


section \<open>Which answers are accepted\<close>

text \<open>The answer as a value of the registry, and the two checks a service makes of it.\<close>

definition tagged :: "('o \<Rightarrow> role_output) \<Rightarrow> 'o role_response \<Rightarrow> role_output role_response" where
  "tagged C r = \<lparr> resp_role = resp_role r, resp_summary = resp_summary r, resp_output = C (resp_output r),
     resp_warnings = resp_warnings r, resp_risks = resp_risks r, resp_needsHumanDecision = resp_needsHumanDecision r,
     resp_confidence = resp_confidence r \<rparr>"

definition check_answer :: "agent_role \<Rightarrow> ('o role_response \<Rightarrow> unit result) \<Rightarrow> ('o \<Rightarrow> role_output) \<Rightarrow> 'o role_response \<Rightarrow> unit result" where
  "check_answer role validate C r =
     (case validate r of Inl e \<Rightarrow> Inl e | Inr _ \<Rightarrow> assertRoleOutput role (tagged C r))"

lemma check_answer_ok:
  assumes "resp_role r = role" "\<not> blank (resp_summary r)" "0 \<le> resp_confidence r" "resp_confidence r \<le> 1"
  shows "check_answer role validate C r = Inr () \<longleftrightarrow> validate r = Inr () \<and> registry_output_issues (C (resp_output r)) = []"
  using assms
  by (auto simp: check_answer_def assertRoleOutput_def role_result_issues_def validateRoleResponse_def tagged_def Let_def
      split: sum.splits)

lemma made_response:
  "resp_role (makeResponse role m out) = role" "resp_summary (makeResponse role m out) = m"
  "resp_output (makeResponse role m out) = out" "0 \<le> resp_confidence (makeResponse role m out)" "resp_confidence (makeResponse role m out) \<le> 1"
  by (simp_all add: makeResponse_def)

lemma check_made: "\<not> blank m \<Longrightarrow> check_answer role validate C (makeResponse role m out) = Inr () \<longleftrightarrow>
    validate (makeResponse role m out) = Inr () \<and> registry_output_issues (C out) = []"
  by (subst check_answer_ok) (simp_all add: made_response)

lemma bootstrap_accepted:
  "check_answer Bootstrap_Analyst bootstrap_validate Out_Discovery (bootstrap_execute now s) = Inr () \<longleftrightarrow>
     list_all (\<lambda>k. \<not> blank k) (rec_keys (bs_packageMap s))
   \<and> list_all (\<lambda>p. \<not> blank p) (if bs_entryPoints s \<noteq> [] then bs_entryPoints s else take 3 (bs_packageDirectories s))"
  unfolding bootstrap_execute_def Let_def
  by (subst check_made) (auto simp: bootstrap_validate_def made_response validateProjectDiscovery_def list_all_iff is_space_def)

lemma architect_findings_ok:
  "f \<in> set (aa_findings (resp_output (architect_execute d imps))) \<Longrightarrow> validateArchitectureFinding f = []"
proof -
  assume "f \<in> set (aa_findings (resp_output (architect_execute d imps)))"
  then consider "f \<in> set (findDirectSourceImportFindings imps)" | "length (ds_criticalPaths d) \<ge> 2" "f = critical_path_finding (ds_criticalPaths d)"
    by (auto simp: architect_execute_def made_response Let_def split: if_splits)
  then show ?thesis
    by cases (auto simp: findDirectSourceImportFindings_def critical_path_finding_def validateArchitectureFinding_def Let_def
        is_space_def split: if_splits)
qed

lemma architect_accepted: "check_answer Architect architect_validate Out_Architecture (architect_execute d imps) = Inr ()"
proof -
  let ?r = "architect_execute d imps"
  have "\<not> blank (aa_riskSummary (resp_output ?r))"
    by (simp add: architect_execute_def made_response Let_def is_space_def)
  moreover have "af_modules f \<noteq> []" if "f \<in> set (aa_findings (resp_output ?r))" for f
    using architect_findings_ok[OF that] by (auto simp: validateArchitectureFinding_def)
  ultimately have "architect_validate ?r = Inr ()" "validateArchitectureAnalysis (resp_output ?r) = []"
    using architect_findings_ok[of _ d imps]
    by (auto simp: architect_validate_def validateArchitectureAnalysis_def)
  moreover have "resp_role ?r = Architect" "\<not> blank (resp_summary ?r)" "0 \<le> resp_confidence ?r" "resp_confidence ?r \<le> 1"
    by (simp_all add: architect_execute_def made_response Let_def is_space_def)
  ultimately show ?thesis by (subst check_answer_ok) simp_all
qed

lemma docs_accepted: "check_answer Docs_Writer docs_validate Out_Docs (docs_execute i) = Inr () \<longleftrightarrow> dw_affectedModules i \<noteq> []"
proof -
  have "\<not> blank (do_markdown (resp_output (docs_execute i)))"
    by (simp add: docs_execute_def made_response is_space_def)
  then show ?thesis unfolding docs_execute_def
    by (subst check_made) (simp_all add: docs_validate_def made_response validateDocsWriterOutput_def is_space_def)
qed

lemma release_accepted: "check_answer Release_Auditor release_validate Out_Release (release_execute i) = Inr () \<longleftrightarrow> ri_evidence i \<noteq> []"
  unfolding release_execute_def Let_def
  by (subst check_made) (auto simp: release_validate_def made_response validateReleaseAssessment_def is_space_def)

lemma steward_accepted: "check_answer State_Steward steward_validate Out_Integrity (steward_execute issues) = Inr ()"
  unfolding steward_execute_def Let_def
  by (subst check_made) (simp_all add: steward_validate_def made_response validateStateIntegrityAssessment_def is_space_def)

lemma integration_accepted: "check_answer Integration_Manager integration_validate Out_Export (integration_execute i) = Inr () \<longleftrightarrow>
    ii_mappedEntities i \<noteq> []"
  unfolding integration_execute_def
  by (subst check_made) (simp_all add: integration_validate_def made_response validateIntegrationExportPayload_def is_space_def)


lemma plan_tasks_empty: "pl_tasks (plan_loop fs) = [] \<longleftrightarrow> fs = []"
  by (simp add: plan_tasks)

lemma plan_epics_nonempty: "fs \<noteq> [] \<Longrightarrow> pl_epics (plan_loop fs) \<noteq> []"
proof
  assume "fs \<noteq> []" and none: "pl_epics (plan_loop fs) = []"
  then obtain f where f: "f \<in> set fs" by (meson list.set_sel(1))
  then have "rec_get (pl_epics (plan_loop fs)) (epic_key f) \<noteq> None" using plan_epics[of fs "epic_key f"] by (auto split: option.splits)
  then show False using none by simp
qed

lemma planned_task_valid: "validateBacklogTask (planned_task i f p) = []" "task_criteria (planned_task i f p) \<noteq> []"
  by (simp_all add: validateBacklogTask_def planned_task_def)

lemma planned_task_in: "t \<in> set (rec_values (pl_tasks (plan_loop fs))) \<Longrightarrow> \<exists>i f p. t = planned_task i f p"
  unfolding rec_values_planned by auto

lemma planner_accepted: "check_answer Planner planner_validate Out_Plan (planner_execute lc d fs) = Inr () \<longleftrightarrow> fs \<noteq> []"
proof -
  let ?out = "resp_output (planner_execute lc d fs)" and ?p = "plan_loop (sort_by by_severity fs)"
  have issues: "validatePlannerOutput ?out = [] \<and> planner_validate (planner_execute lc d fs) = Inr ()" if "fs \<noteq> []"
  proof -
    have s: "sort_by by_severity fs \<noteq> []" using that by simp
    have edges: "po_dependencyEdges ?out \<noteq> []"
      using plan_epics_nonempty[OF s] by (cases "pl_epics ?p")
        (auto simp: planner_execute_def made_response Let_def case_prod_unfold buildContainmentEdges_def plan_milestone_def)
    have "po_assumptions ?out \<noteq> []" "\<not> blank (po_summary ?out)"
      by (simp_all add: planner_execute_def made_response Let_def case_prod_unfold buildPlanningAssumptions_def is_space_def)
    moreover have "length (map mb_taskIds (po_batches ?out)) = length fs"
      unfolding planner_output_parts conjunct1[OF planned_batches] by simp
    then have "po_batches ?out \<noteq> []" using that by auto
    moreover have "\<not> blank (ms_id (po_milestone ?out))" unfolding planner_output_parts plan_milestone_def by (simp add: is_space_def)
    moreover have "concat (map validateBacklogTask (rec_values (pl_tasks ?p))) = []"
      using planned_task_in planned_task_valid(1) by fastforce
    moreover have "find (\<lambda>t. length (task_criteria t) = 0) (rec_values (pl_tasks ?p)) = None"
      unfolding find_None_iff using planned_task_in planned_task_valid(2) by fastforce
    moreover have "pl_tasks ?p \<noteq> []" using plan_tasks_empty[of "sort_by by_severity fs"] s by simp
    ultimately show ?thesis using edges
      unfolding validatePlannerOutput_def planner_validate_def Let_def planner_output_parts by simp
  qed
  have "planner_validate (planner_execute lc d []) \<noteq> Inr ()"
    unfolding planner_validate_def Let_def planner_output_parts by (simp add: plan_loop_Nil)
  then show ?thesis
    using issues check_answer_ok[of "planner_execute lc d fs" Planner planner_validate Out_Plan]
    by (cases "fs = []") (simp_all add: planner_output_parts is_space_def)
qed

text \<open>C26. Which answers of the default roles pass both checks a service makes, the role's own \<open>validate\<close> and the registry of
  outputs: always those of the architect and the state steward; the planner's exactly when there are findings, the
  writer's when modules are affected, the auditor's when there is evidence, the integration manager's when there are
  entities, the analyst's when no package name and no critical path is blank.\<close>

theorem default_roles_accepted:
  "check_answer Architect architect_validate Out_Architecture (architect_execute d imps) = Inr ()
   \<and> check_answer State_Steward steward_validate Out_Integrity (steward_execute issues) = Inr ()
   \<and> (check_answer Planner planner_validate Out_Plan (planner_execute lc d fs) = Inr () \<longleftrightarrow> fs \<noteq> [])
   \<and> (check_answer Docs_Writer docs_validate Out_Docs (docs_execute i) = Inr () \<longleftrightarrow> dw_affectedModules i \<noteq> [])
   \<and> (check_answer Release_Auditor release_validate Out_Release (release_execute r) = Inr () \<longleftrightarrow> ri_evidence r \<noteq> [])
   \<and> (check_answer Integration_Manager integration_validate Out_Export (integration_execute x) = Inr () \<longleftrightarrow> ii_mappedEntities x \<noteq> [])
   \<and> (check_answer Bootstrap_Analyst bootstrap_validate Out_Discovery (bootstrap_execute now s) = Inr () \<longleftrightarrow>
        list_all (\<lambda>k. \<not> blank k) (rec_keys (bs_packageMap s))
      \<and> list_all (\<lambda>p. \<not> blank p) (if bs_entryPoints s \<noteq> [] then bs_entryPoints s else take 3 (bs_packageDirectories s)))"
  by (simp add: architect_accepted steward_accepted planner_accepted docs_accepted release_accepted integration_accepted bootstrap_accepted)

end
