(* ===== verification/Project_Services.thy ===== *)
theory Project_Services
  imports Repository_Roles Recorders
begin

text \<open>
  The services of \<open>packages/application/src\<close> that run one default role on the whole project: bootstrap,
  architecture analysis, planning, release readiness, state integrity, documentation and export. A service works on
  the plain state store, on the \<open>ProjectState\<close> object its caller gave or that it loaded (\<open>ap_object\<close>), which it
  changes in place, and on the files it writes. The file system is read through \<open>file_system\<close>; a path is
  resolved below an absolute directory. The execution context, which these roles ignore, and logging are left out; the
  ids it draws are drawn here too.
\<close>

section \<open>The services' world\<close>

record app =
  ap_store :: store
  ap_object :: project_state
  ap_files :: "(string \<times> string) list"
  ap_tick :: nat

type_synonym 'a svc = "(app, 'a) act"

definition svc_uuid :: "env \<Rightarrow> string svc" where
  "svc_uuid ev a = (Inr (en_uuid ev (ap_tick a)), a\<lparr>ap_tick := Suc (ap_tick a)\<rparr>)"

definition svc_now :: "env \<Rightarrow> stamp svc" where
  "svc_now ev a = (Inr (en_now ev (ap_tick a)), a\<lparr>ap_tick := Suc (ap_tick a)\<rparr>)"

definition on_app :: "(store, 'a) act \<Rightarrow> 'a svc" where
  "on_app m a = (case m (ap_store a) of (r, st) \<Rightarrow> (r, a\<lparr>ap_store := st\<rparr>))"

definition set_object :: "(project_state \<Rightarrow> project_state) \<Rightarrow> unit svc" where
  "set_object f = modA (\<lambda>a. a\<lparr>ap_object := f (ap_object a)\<rparr>)"

text \<open>\<open>state ?? await stateStore.load()\<close>.\<close>

definition current_state :: "project_state option \<Rightarrow> project_state svc" where
  "current_state given = bindA (case given of Some s \<Rightarrow> ret s | None \<Rightarrow> on_app load) (\<lambda>s.
     thenA (set_object (\<lambda>_. s)) (ret s))"

text \<open>\<open>save(state, { expectedRevision: state.revision })\<close>; the object gets the new revision.\<close>

definition save_object :: "env \<Rightarrow> event list \<Rightarrow> unit svc" where
  "save_object ev evs = bindA (getA ap_object) (\<lambda>s.
     bindA (on_app (saveWithEvents (en_zod ev) s evs (Some (int (ps_revision s))))) (\<lambda>r.
       set_object (\<lambda>s. s\<lparr>ps_revision := r\<rparr>)))"

definition app_artifact :: "env \<Rightarrow> artifact_type \<Rightarrow> string \<Rightarrow> string option \<Rightarrow> string jsrec \<Rightarrow> nat svc" where
  "app_artifact ev ty title location metadata = bindA (getA ap_object) (\<lambda>s.
     bindA (svc_uuid ev) (\<lambda>u. bindA (svc_now ev) (\<lambda>now.
       on_app (recordArtifact (en_zod ev) \<lparr> art_id = u, art_type = ty, art_title = title, art_location = location,
         art_metadata = metadata, art_created = now \<rparr> (Some (int (ps_revision s)))))))"

definition app_event :: "env \<Rightarrow> event_type \<Rightarrow> string list jsrec \<Rightarrow> unit svc" where
  "app_event ev ty payload = bindA (svc_uuid ev) (\<lambda>u. bindA (svc_now ev) (\<lambda>now.
     on_app (recordEvent (makeEvent u now ty payload None None))))"

definition assert_object :: "env \<Rightarrow> unit svc" where
  "assert_object ev = bindA (getA ap_object) (\<lambda>s. liftA (assertProjectState (en_zod ev) s))"

text \<open>The answer of a role after both checks.\<close>

definition answer :: "agent_role \<Rightarrow> ('o role_response \<Rightarrow> unit result) \<Rightarrow> ('o \<Rightarrow> role_output) \<Rightarrow> 'o role_response \<Rightarrow> 'o svc" where
  "answer role validate C r = thenA (liftA (check_answer role validate C r)) (ret (resp_output r))"

section \<open>The file system\<close>

record file_system =
  fs_readdir :: "string \<Rightarrow> string list option"
  fs_isdir :: "string \<Rightarrow> bool"
  fs_read :: "string \<Rightarrow> string option"
  fs_write :: "string \<Rightarrow> string \<Rightarrow> unit result"
  fs_cwd :: string

definition below :: "string \<Rightarrow> string \<Rightarrow> string" where
  "below dir name = dir @ ''/'' @ name"

text \<open>\<open>readdirSync(p).sort()\<close>, or nothing when it throws.\<close>

definition readdirSafe :: "file_system \<Rightarrow> string \<Rightarrow> string list" where
  "readdirSafe fs p = (case fs_readdir fs p of None \<Rightarrow> [] | Some es \<Rightarrow> sort_by code_unit_compare es)"

definition collectWorkspaceDirectories :: "file_system \<Rightarrow> string \<Rightarrow> string \<Rightarrow> string list" where
  "collectWorkspaceDirectories fs base segment =
     (let p = below base segment in
      if \<not> fs_isdir fs p then []
      else map (\<lambda>e. segment @ ''/'' @ e) (filter (\<lambda>e. fs_isdir fs (below p e)) (readdirSafe fs p)))"

definition ends_with :: "string \<Rightarrow> string \<Rightarrow> bool" where
  "ends_with s t = suffix t s"

definition collectBootstrapRepositorySnapshot :: "file_system \<Rightarrow> string \<Rightarrow> repository_snapshot" where
  "collectBootstrapRepositorySnapshot fs base =
     (let top = readdirSafe fs base;
          dirs = collectWorkspaceDirectories fs base ''apps'' @ collectWorkspaceDirectories fs base ''packages''
      in \<lparr> bs_rootPath = base, bs_topLevelEntries = top, bs_packageDirectories = dirs,
           bs_packageMap = map (\<lambda>d. (d, filter (\<lambda>e. fs_isdir fs (below (below base d) e)) (readdirSafe fs (below base d)))) dirs,
           bs_manifests = filter (\<lambda>e. e = ''package.json'' \<or> ends_with e ''.json'') top,
           bs_configFiles = filter (\<lambda>e. prefix ''tsconfig'' e \<or> prefix ''eslint'' e \<or> ends_with e ''.config.mjs'') top,
           bs_entryPoints = map (\<lambda>d. d @ ''/src'') (filter (\<lambda>d. fs_isdir fs (below (below base d) ''src'')) dirs),
           bs_testInfrastructure = filter (\<lambda>e. e = ''tests'' \<or> str_includes e ''test'') top \<rparr>)"

text \<open>\<open>walkDirectory\<close> on relative paths, on the depth that is left: the file system nests finitely.\<close>

fun walkDirectory :: "nat \<Rightarrow> file_system \<Rightarrow> string \<Rightarrow> string \<Rightarrow> string list" where
  "walkDirectory 0 fs base rel = []"
| "walkDirectory (Suc depth) fs base rel =
     concat (map (\<lambda>e. let t = rel @ ''/'' @ e in
       if fs_isdir fs (below base t) then walkDirectory depth fs base t
       else if ends_with e ''.ts'' then [t] else []) (readdirSafe fs (below base rel)))"

definition collectSourceFiles :: "nat \<Rightarrow> file_system \<Rightarrow> string \<Rightarrow> string \<Rightarrow> string list" where
  "collectSourceFiles depth fs base segment =
     (if \<not> fs_isdir fs (below base segment) then [] else walkDirectory depth fs base segment)"

text \<open>\<open>content.matchAll(/from ['"]([^'"]+)['"]/g)\<close>.\<close>

definition quote_char :: "char \<Rightarrow> bool" where
  "quote_char c = (c = CHR 0x27 \<or> c = CHR 0x22)"

definition import_match :: "string \<Rightarrow> (string \<times> string) option" where
  "import_match s =
     (if prefix ''from '' s then
        (case drop 5 s of [] \<Rightarrow> None
         | q # r \<Rightarrow> (let name = takeWhile (\<lambda>c. \<not> quote_char c) r; rest = dropWhile (\<lambda>c. \<not> quote_char c) r in
             if quote_char q \<and> name \<noteq> [] \<and> rest \<noteq> [] then Some (name, tl rest) else None))
      else None)"

lemma import_match_shorter: "import_match s = Some (name, rest) \<Longrightarrow> length rest < length s"
proof -
  assume m: "import_match s = Some (name, rest)"
  then obtain q r where r: "drop 5 s = q # r" "rest = tl (dropWhile (\<lambda>c. \<not> quote_char c) r)"
    by (auto simp: import_match_def Let_def split: if_splits list.splits)
  have "length rest \<le> length r" unfolding r(2) using length_dropWhile_le[of "\<lambda>c. \<not> quote_char c" r] by simp
  also have "length r < length s" using arg_cong[OF r(1), of length] by simp
  finally show ?thesis .
qed

function extractImports :: "string \<Rightarrow> string list" where
  "extractImports [] = []"
| "extractImports (c # s) = (case import_match (c # s) of
     Some (name, rest) \<Rightarrow> name # extractImports rest | None \<Rightarrow> extractImports s)"
  by pat_completeness auto
termination
  by (relation "measure length") (auto dest: import_match_shorter)

definition collectSourceImports :: "nat \<Rightarrow> file_system \<Rightarrow> string \<Rightarrow> string list jsrec" where
  "collectSourceImports depth fs base =
     map (\<lambda>f. (f, extractImports (or_default (fs_read fs (below base f)) [])))
       (collectSourceFiles depth fs base ''apps'' @ collectSourceFiles depth fs base ''packages'')"


section \<open>Bootstrap, analysis and planning\<close>

definition bootstrap_service :: "env \<Rightarrow> file_system \<Rightarrow> string \<Rightarrow> project_state \<Rightarrow> bool \<Rightarrow> unit svc" where
  "bootstrap_service ev fs base state snapshotOnBootstrap =
     (let snapshot = collectBootstrapRepositorySnapshot fs base in
      thenA (set_object (\<lambda>_. state))
     (bindA (svc_uuid ev) (\<lambda>promptId. bindA (svc_uuid ev) (\<lambda>_. bindA (svc_now ev) (\<lambda>now.
      bindA (answer Bootstrap_Analyst bootstrap_validate Out_Discovery (bootstrap_execute (stamp_text now) snapshot)) (\<lambda>out.
      thenA (set_object (\<lambda>s. s\<lparr> ps_discovery := out, ps_architecture := (ps_architecture s)\<lparr>
          pa_packageMap := ds_packageMap out, pa_subsystemMap := ds_subsystemMap out,
          pa_unstableAreas := ds_unstableAreaCandidates out, pa_criticalPaths := ds_criticalPaths out \<rparr> \<rparr>))
     (thenA (assert_object ev)
     (thenA (whenA snapshotOnBootstrap (save_object ev []))
     (bindA (app_artifact ev Bootstrap_Analysis ''Bootstrap analysis'' None
          [(''promptId'', promptId), (''recommendedNextStep'', ds_recommendedNextStep out),
           (''packageCount'', nat_to_string (length (ds_packageInventory out)))]) (\<lambda>_.
      thenA (app_event ev DISCOVERY_COMPLETED [(''packageCount'', [nat_to_string (length (ds_packageInventory out))]),
          (''recommendedNextStep'', [ds_recommendedNextStep out])])
     (bindA (getA ap_object) (\<lambda>s.
        app_event ev BOOTSTRAP_COMPLETED [(''projectId'', [ps_project s]), (''projectName'', [ps_name s])]))))))))))))"

definition architecture_service :: "env \<Rightarrow> nat \<Rightarrow> file_system \<Rightarrow> string \<Rightarrow> project_state option \<Rightarrow> architecture_analysis svc" where
  "architecture_service ev depth fs base given =
     bindA (current_state given) (\<lambda>current.
     bindA (svc_uuid ev) (\<lambda>promptId. bindA (svc_uuid ev) (\<lambda>_.
     bindA (answer Architect architect_validate Out_Architecture
              (architect_execute (ps_discovery current) (collectSourceImports depth fs base))) (\<lambda>out.
     thenA (set_object (\<lambda>s. s\<lparr>ps_architecture := (ps_architecture s)\<lparr>
         pa_findings := aa_findings out, pa_analysisSummary := Some (aa_riskSummary out) \<rparr> \<rparr>))
    (thenA (assert_object ev)
    (thenA (save_object ev [])
    (bindA (app_artifact ev Architecture_Analysis ''Architecture analysis'' None
         [(''promptId'', promptId), (''findings'', nat_to_string (length (aa_findings out)))]) (\<lambda>r.
     thenA (set_object (\<lambda>s. s\<lparr>ps_revision := r\<rparr>))
    (thenA (case aa_findings out of [] \<Rightarrow> ret ()
            | f # _ \<Rightarrow> bindA (svc_uuid ev) (\<lambda>u. bindA (svc_now ev) (\<lambda>now.
                 thenA (on_app (recordDecision (en_zod ev)
                   \<lparr> di_id = u, di_title = ''Architecture baseline established'',
                     di_decision = ''Prioritize '' @ af_subsystem f @ '' '' @ issue_type_text (af_issueType f)
                       @ '' follow-up before broad feature expansion.'',
                     di_rationale = aa_riskSummary out, di_areas = af_modules f, di_created = now \<rparr>
                   (Some (int r)))) (ret ()))))
    (thenA (app_event ev ARCHITECTURE_ANALYZED [(''findings'', [nat_to_string (length (aa_findings out))])])
       (ret out)))))))))))"

definition apply_plan :: "planner_output \<Rightarrow> project_state \<Rightarrow> project_state" where
  "apply_plan out s = s\<lparr> ps_backlog := po_backlog out,
     ps_milestones := rec_set (ms_id (po_milestone out)) (po_milestone out) (ps_milestones s),
     ps_milestone := Some (ms_id (po_milestone out)) \<rparr>"

definition plan_service :: "env \<Rightarrow> project_state option \<Rightarrow> planner_output svc" where
  "plan_service ev given =
     bindA (current_state given) (\<lambda>current.
     bindA (svc_uuid ev) (\<lambda>promptId. bindA (svc_uuid ev) (\<lambda>_.
     bindA (answer Planner planner_validate Out_Plan
              (planner_execute (en_lc ev) (ps_discovery current) (pa_findings (ps_architecture current)))) (\<lambda>out.
     thenA (set_object (apply_plan out))
    (thenA (assert_object ev)
    (thenA (save_object ev [])
    (bindA (app_artifact ev Plan_Artifact ''Backlog plan'' None
         [(''promptId'', promptId), (''tasks'', nat_to_string (length (rec_keys (backlog_tasks (po_backlog out))))),
          (''milestoneId'', ms_id (po_milestone out))]) (\<lambda>_.
     thenA (app_event ev BACKLOG_PLANNED [(''taskCount'', [nat_to_string (length (rec_keys (backlog_tasks (po_backlog out))))]),
         (''milestoneId'', [ms_id (po_milestone out)])])
       (ret out)))))))))"

section \<open>Release readiness and state integrity\<close>

fun health_text :: "health \<Rightarrow> string" where
  "health_text Health_Unknown = ''unknown''"
| "health_text Health_Passing = ''passing''"
| "health_text Health_Failing = ''failing''"

definition collectBlockers :: "project_state \<Rightarrow> string list" where
  "collectBlockers s =
     (if rh_tests (ps_health s) = Health_Failing then [''Repository tests are failing''] else [])
     @ (if rh_typecheck (ps_health s) = Health_Failing then [''Repository typecheck is failing''] else [])
     @ (if length (ex_blocked (ps_execution s)) > 0
        then [''Blocked tasks remain: '' @ join '', '' (ex_blocked (ps_execution s))] else [])"

definition collectWarnings :: "project_state \<Rightarrow> string list" where
  "collectWarnings s =
     (if rh_tests (ps_health s) = Health_Unknown then [''Test status is unknown''] else [])
     @ (if rh_build (ps_health s) = Health_Unknown then [''Build status is unknown''] else [])
     @ (if \<not> (\<exists>a \<in> set (ps_artifacts s). art_type a = Documentation_Artifact) then [''Documentation artifact is missing''] else [])
     @ (if length (ps_failures s) > 0
        then [''Historical failures recorded: '' @ nat_to_string (length (ps_failures s))] else [])"

definition collectEvidence :: "project_state \<Rightarrow> string list" where
  "collectEvidence s =
     [''Repo health: build='' @ health_text (rh_build (ps_health s)) @ '' tests='' @ health_text (rh_tests (ps_health s))
        @ '' lint='' @ health_text (rh_lint (ps_health s)) @ '' typecheck='' @ health_text (rh_typecheck (ps_health s)),
      ''Artifacts recorded: '' @ nat_to_string (length (ps_artifacts s)),
      ''Decisions recorded: '' @ nat_to_string (length (ps_decisions s))]
     @ (case when_truthy (ps_milestone s) of None \<Rightarrow> [] | Some m \<Rightarrow> [''Active milestone: '' @ m])"

fun verdict_text :: "release_verdict \<Rightarrow> string" where
  "verdict_text Release_Ready = ''ready''"
| "verdict_text Release_Caution = ''caution''"
| "verdict_text Release_Blocked = ''blocked''"

text \<open>The auditor's three confidences, as \<open>String\<close> prints them.\<close>

fun confidence_text :: "release_verdict \<Rightarrow> string" where
  "confidence_text Release_Ready = ''0.9''"
| "confidence_text Release_Caution = ''0.6''"
| "confidence_text Release_Blocked = ''0.25''"

definition assess_release :: "env \<Rightarrow> release_assessment svc" where
  "assess_release ev =
     bindA (current_state None) (\<lambda>s.
     bindA (svc_uuid ev) (\<lambda>promptId. bindA (svc_uuid ev) (\<lambda>_.
     bindA (answer Release_Auditor release_validate Out_Release (release_execute
              \<lparr> ri_blockers = collectBlockers s, ri_warnings = collectWarnings s, ri_evidence = collectEvidence s \<rparr>)) (\<lambda>out.
     bindA (app_artifact ev Release_Assessment ''Release readiness assessment'' None
         [(''verdict'', verdict_text (ra_verdict out)), (''confidence'', confidence_text (ra_verdict out)), (''promptId'', promptId)]) (\<lambda>_.
     thenA (app_event ev RELEASE_ASSESSED [(''verdict'', [verdict_text (ra_verdict out)]), (''confidence'', [confidence_text (ra_verdict out)])])
       (ret out))))))"

definition bool_name :: "bool \<Rightarrow> string" where
  "bool_name b = (if b then ''true'' else ''false'')"

definition inspect_integrity :: "env \<Rightarrow> integrity_assessment svc" where
  "inspect_integrity ev =
     bindA (current_state None) (\<lambda>s.
     bindA (svc_uuid ev) (\<lambda>promptId. bindA (svc_uuid ev) (\<lambda>_.
     bindA (answer State_Steward steward_validate Out_Integrity (steward_execute (validateProjectState (en_zod ev) s))) (\<lambda>out.
     bindA (app_artifact ev State_Integrity_Report ''State integrity report'' None
         [(''ok'', bool_name (ia_ok out)), (''findings'', nat_to_string (length (ia_findings out))), (''promptId'', promptId)]) (\<lambda>_.
     thenA (app_event ev STATE_INTEGRITY_CHECKED [(''ok'', [bool_name (ia_ok out)]), (''findings'', [nat_to_string (length (ia_findings out))])])
       (ret out))))))"


section \<open>Documentation\<close>

definition docs_modules :: "project_state \<Rightarrow> string list" where
  "docs_modules s = sort_by code_unit_compare (dedup
     (concat (map af_modules (pa_findings (ps_architecture s)))
      @ concat (map task_modules (filter (\<lambda>t. task_status t = Done \<or> truthy (task_split_from t)) (rec_values (tasks_of s))))))"

definition collectBehaviorChanges :: "project_state \<Rightarrow> string list" where
  "collectBehaviorChanges s =
     (if length (pa_findings (ps_architecture s)) > 0
      then [''Architecture analysis recorded '' @ nat_to_string (length (pa_findings (ps_architecture s))) @ '' finding(s).''] else [])
     @ (if length (rec_keys (tasks_of s)) > 0
        then [''Backlog contains '' @ nat_to_string (length (rec_keys (tasks_of s))) @ '' executable task(s).''] else [])
     @ (if length (ex_blocked (ps_execution s)) > 0
        then [''Blocked tasks currently tracked: '' @ join '', '' (ex_blocked (ps_execution s)) @ ''.''] else [])"

definition collectDesignRationale :: "project_state \<Rightarrow> string list" where
  "collectDesignRationale s = map (\<lambda>d. di_title d @ '': '' @ di_rationale d) (ps_decisions s)"

definition collectFollowUpGaps :: "project_state \<Rightarrow> string list" where
  "collectFollowUpGaps s =
     (if length (ex_blocked (ps_execution s)) = 0 then [''No blocked tasks currently require documentation follow-up.'']
      else map (\<lambda>t. ''Investigate blocked task '' @ t @ ''.'') (ex_blocked (ps_execution s)))"

text \<open>\<open>path.resolve(process.cwd(), p)\<close>: an absolute path stays.\<close>

definition resolve_path :: "file_system \<Rightarrow> string \<Rightarrow> string" where
  "resolve_path fs p = (if p \<noteq> [] \<and> hd p = CHR ''/'' then p else below (fs_cwd fs) p)"

text \<open>\<open>toolSet.fileSystem.writeFile\<close>: its check of the path may throw.\<close>

definition write_file :: "file_system \<Rightarrow> string \<Rightarrow> string \<Rightarrow> unit svc" where
  "write_file fs p content = thenA (liftA (fs_write fs p content)) (modA (\<lambda>a. a\<lparr>ap_files := ap_files a @ [(p, content)]\<rparr>))"

definition generate_docs :: "env \<Rightarrow> file_system \<Rightarrow> string option \<Rightarrow> string svc" where
  "generate_docs ev fs out =
     bindA (current_state None) (\<lambda>s.
     bindA (svc_uuid ev) (\<lambda>promptId. bindA (svc_uuid ev) (\<lambda>_.
     bindA (answer Docs_Writer docs_validate Out_Docs (docs_execute
        \<lparr> dw_projectName = ps_name s, dw_summary = ps_summary s, dw_affectedModules = docs_modules s,
          dw_behaviorChanges = collectBehaviorChanges s, dw_designRationale = collectDesignRationale s,
          dw_followUpGaps = collectFollowUpGaps s \<rparr>)) (\<lambda>r.
     let outputPath = resolve_path fs (or_default out ''artifacts/generated-docs.md'') in
     thenA (write_file fs outputPath (do_markdown r))
    (bindA (app_artifact ev Documentation_Artifact ''Generated documentation summary'' (Some outputPath)
        [(''promptId'', promptId), (''affectedModules'', nat_to_string (length (do_affectedModules r)))]) (\<lambda>_.
       ret outputPath))))))"

section \<open>Export\<close>

fun task_status_text :: "task_status \<Rightarrow> string" where
  "task_status_text Todo = ''todo''"
| "task_status_text In_Progress = ''in_progress''"
| "task_status_text In_Review = ''in_review''"
| "task_status_text In_Testing = ''in_testing''"
| "task_status_text Done = ''done''"
| "task_status_text Blocked = ''blocked''"
| "task_status_text Superseded = ''superseded''"

definition task_export :: "task \<Rightarrow> export_record" where
  "task_export t = \<lparr> xr_entityType = Export_Task, xr_internalId = task_id t, xr_title = task_title t,
     xr_status = Some (task_status_text (task_status t)), xr_dependencies = task_depends t,
     xr_acceptanceCriteria = task_criteria t, xr_affectedModules = task_modules t,
     xr_traceability = (''featureId'', task_feature t)
       # (case when_truthy (task_split_from t) of None \<Rightarrow> [] | Some p \<Rightarrow> [(''splitFromTaskId'', p)]) \<rparr>"

definition artifact_export :: "artifact \<Rightarrow> export_record" where
  "artifact_export a = \<lparr> xr_entityType = Export_Artifact, xr_internalId = art_id a, xr_title = art_title a,
     xr_status = Some (artifact_type_text (art_type a)), xr_dependencies = [], xr_acceptanceCriteria = [],
     xr_affectedModules = [], xr_traceability = (''artifactType'', artifact_type_text (art_type a))
       # (case when_truthy (art_location a) of None \<Rightarrow> [] | Some l \<Rightarrow> [(''location'', l)]) \<rparr>"

definition mapExportEntities :: "project_state \<Rightarrow> export_record list" where
  "mapExportEntities s = map task_export (rec_values (tasks_of s)) @ map artifact_export (ps_artifacts s)"

definition collectMissingRequiredFields :: "project_state \<Rightarrow> string list" where
  "collectMissingRequiredFields s = map (\<lambda>t. ''task:'' @ task_id t @ '':acceptanceCriteria'')
     (filter (\<lambda>t. length (task_criteria t) = 0) (rec_values (tasks_of s)))"

definition collectExportBlockers :: "project_state \<Rightarrow> string list" where
  "collectExportBlockers s =
     (if length (ex_blocked (ps_execution s)) > 0
      then [''Blocked tasks present: '' @ join '', '' (ex_blocked (ps_execution s))] else [])
     @ (if ps_milestone s = None then [''Active milestone is missing''] else [])"

text \<open>\<open>JSON.stringify(response.output, null, 2)\<close> is \<open>render\<close>, an argument.\<close>

definition prepare_export :: "env \<Rightarrow> file_system \<Rightarrow> (export_payload \<Rightarrow> string) \<Rightarrow> string option \<Rightarrow> string svc" where
  "prepare_export ev fs render out =
     bindA (current_state None) (\<lambda>s.
     bindA (svc_uuid ev) (\<lambda>promptId. bindA (svc_uuid ev) (\<lambda>_.
     bindA (answer Integration_Manager integration_validate Out_Export (integration_execute
        \<lparr> ii_mappedEntities = mapExportEntities s, ii_missingRequiredFields = collectMissingRequiredFields s,
          ii_exportBlockers = collectExportBlockers s \<rparr>)) (\<lambda>r.
     let outputPath = resolve_path fs (or_default out ''artifacts/integration-export.json'') in
     thenA (write_file fs outputPath (render r))
    (bindA (app_artifact ev Integration_Export ''Integration export payload'' (Some outputPath)
        [(''mappedEntities'', nat_to_string (length (xp_mappedEntities r))),
         (''blockers'', nat_to_string (length (xp_exportBlockers r))), (''promptId'', promptId)]) (\<lambda>_.
     thenA (app_event ev EXPORT_PREPARED [(''mappedEntities'', [nat_to_string (length (xp_mappedEntities r))]),
         (''blockers'', [nat_to_string (length (xp_exportBlockers r))])])
       (ret outputPath)))))))"


section \<open>What planning needs of a state\<close>

lemma planned_task_schema: "taskSchema (planned_task i f p) \<longleftrightarrow> all_min1 (af_modules f)"
  by (auto simp: taskSchema_def planned_task_def all_min1_def opt_min1_def when_truthy_def task_key_def feature_key_def
      truthy_def split: option.splits)

lemma planned_feature_schema: "validateArchitectureFinding f = [] \<Longrightarrow> featureSchema (planned_feature i f)"
  by (cases "af_issueType f") (auto simp: featureSchema_def planned_feature_def feature_key_def epic_key_def task_key_def all_min1_def
      humanizeIssueType_def validateArchitectureFinding_def split: if_splits)

lemma planned_get:
  assumes "i < length fs"
  shows "rec_get (pl_tasks (plan_loop fs)) (task_key i (fs ! i)) = Some (planned_task i (fs ! i) (previous_key fs i))"
    and "rec_get (pl_features (plan_loop fs)) (feature_key i (fs ! i)) = Some (planned_feature i (fs ! i))"
proof -
  have keys: "distinct (map fst (pl_tasks (plan_loop fs)))" "distinct (map fst (pl_features (plan_loop fs)))"
    using planned_keys_inj by (auto simp: plan_tasks plan_features comp_def distinct_map inj_on_def)
  show "rec_get (pl_tasks (plan_loop fs)) (task_key i (fs ! i)) = Some (planned_task i (fs ! i) (previous_key fs i))"
    using assms by (intro map_of_is_SomeI[OF keys(1)]) (auto simp: plan_tasks)
  show "rec_get (pl_features (plan_loop fs)) (feature_key i (fs ! i)) = Some (planned_feature i (fs ! i))"
    using assms by (intro map_of_is_SomeI[OF keys(2)]) (auto simp: plan_features)
qed

lemma planned_tasks_iff: "t \<in> set (rec_values (pl_tasks (plan_loop fs))) \<longleftrightarrow> (\<exists>i < length fs. t = planned_task i (fs ! i) (previous_key fs i))"
  unfolding rec_values_planned by auto

lemma planned_features_iff: "x \<in> set (rec_values (pl_features (plan_loop fs))) \<longleftrightarrow> (\<exists>i < length fs. x = planned_feature i (fs ! i))"
  by (auto simp: plan_features)

lemma planned_epic:
  assumes "e \<in> set (rec_values (pl_epics (plan_loop fs)))"
  shows "epicSchema e" "\<forall>k \<in> set (epic_features e). \<exists>i < length fs. k = feature_key i (fs ! i)"
proof -
  obtain k where k: "rec_get (pl_epics (plan_loop fs)) k = Some e"
    using assms rec_values_iff[OF distinct_epics] by blast
  have e: "epic_id e = k" "epic_title e \<noteq> []" "epic_goal e \<noteq> []" "k \<in> epic_key ` set fs" "epic_features e = epic_features_of fs k"
    using plan_epics[of fs k] by (simp_all add: k)
  then show feats: "\<forall>k \<in> set (epic_features e). \<exists>i < length fs. k = feature_key i (fs ! i)"
    by (auto simp: epic_features_of_def)
  show "epicSchema e" using e feats by (auto simp: epicSchema_def all_min1_def epic_key_def feature_key_def)
qed

lemma planned_epic_known: "f \<in> set fs \<Longrightarrow> rec_has (pl_epics (plan_loop fs)) (epic_key f)"
  using plan_epics[of fs "epic_key f"] by (auto simp: rec_has_def split: option.splits)


abbreviation plan_of_state :: "string cmp \<Rightarrow> project_state \<Rightarrow> planner_output" where
  "plan_of_state lc s \<equiv> resp_output (planner_execute lc (ps_discovery s) (pa_findings (ps_architecture s)))"

abbreviation ordered_findings :: "project_state \<Rightarrow> arch_finding list" where
  "ordered_findings s \<equiv> sort_by by_severity (pa_findings (ps_architecture s))"

lemma plan_milestone_id: "ms_id (plan_milestone es) = ''milestone-architecture-hardening''"
  by (simp add: plan_milestone_def)

lemma rec_values_set: "v \<in> set (rec_values (rec_set k x r)) \<Longrightarrow> v = x \<or> v \<in> set (rec_values r)"
  by (induction r) (auto split: if_splits)

lemma applied_plan [simp]:
  "tasks_of (apply_plan (plan_of_state lc s) s') = pl_tasks (plan_loop (ordered_findings s))"
  "features_of (apply_plan (plan_of_state lc s) s') = pl_features (plan_loop (ordered_findings s))"
  "epics_of (apply_plan (plan_of_state lc s) s') = pl_epics (plan_loop (ordered_findings s))"
  "ps_milestone (apply_plan (plan_of_state lc s) s') = Some ''milestone-architecture-hardening''"
  "ps_milestones (apply_plan (plan_of_state lc s) s') =
     rec_set ''milestone-architecture-hardening'' (plan_milestone (pl_epics (plan_loop (ordered_findings s)))) (ps_milestones s')"
  unfolding apply_plan_def by (simp_all add: planner_output_parts plan_milestone_id)

lemma applied_plan_frame [simp]:
  "ps_org (apply_plan out s) = ps_org s" "ps_project (apply_plan out s) = ps_project s" "ps_revision (apply_plan out s) = ps_revision s"
  "ps_architecture (apply_plan out s) = ps_architecture s" "ps_discovery (apply_plan out s) = ps_discovery s"
  "ps_execution (apply_plan out s) = ps_execution s" "ps_decisions (apply_plan out s) = ps_decisions s"
  "ps_failures (apply_plan out s) = ps_failures s" "ps_artifacts (apply_plan out s) = ps_artifacts s"
  "ps_approvals (apply_plan out s) = ps_approvals s" "ps_policyDecisions (apply_plan out s) = ps_policyDecisions s"
  by (simp_all add: apply_plan_def)

lemma plan_milestone_schema: "milestoneSchema (plan_milestone (pl_epics (plan_loop fs)))"
proof -
  have "k \<noteq> []" if "k \<in> set (rec_keys (pl_epics (plan_loop fs)))" for k
  proof -
    have "rec_get (pl_epics (plan_loop fs)) k \<noteq> None" using that by (simp add: map_of_eq_None_iff)
    then obtain e where "rec_get (pl_epics (plan_loop fs)) k = Some e" by blast
    then have "k \<in> epic_key ` set fs" using plan_epics[of fs k] by simp
    then show ?thesis by (auto simp: epic_key_def)
  qed
  then show ?thesis by (auto simp: milestoneSchema_def plan_milestone_def all_min1_def)
qed

lemma applied_schema:
  assumes "projectStateDeepSchema z s" and "\<forall>f \<in> set (pa_findings (ps_architecture s)). validateArchitectureFinding f = []"
  shows "projectStateDeepSchema z (apply_plan (plan_of_state lc s) s) \<longleftrightarrow>
    list_all (\<lambda>f. all_min1 (af_modules f)) (pa_findings (ps_architecture s))"
proof -
  let ?fs = "ordered_findings s"
  have at: "?fs ! i \<in> set (pa_findings (ps_architecture s))" if "i < length ?fs" for i
    using nth_mem[OF that] by simp
  have milestones: "\<forall>m \<in> set (rec_values (ps_milestones (apply_plan (plan_of_state lc s) s))). milestoneSchema m"
  proof
    fix m assume "m \<in> set (rec_values (ps_milestones (apply_plan (plan_of_state lc s) s)))"
    then have "m = plan_milestone (pl_epics (plan_loop ?fs)) \<or> m \<in> set (rec_values (ps_milestones s))"
      unfolding applied_plan using rec_values_set by meson
    moreover have "\<forall>m \<in> set (rec_values (ps_milestones s)). milestoneSchema m"
      using assms(1) unfolding projectStateDeepSchema_def by (elim conjE)
    ultimately show "milestoneSchema m" using plan_milestone_schema[of ?fs] by blast
  qed
  have tasks: "(\<forall>t \<in> set (rec_values (pl_tasks (plan_loop ?fs))). taskSchema t) \<longleftrightarrow>
      list_all (\<lambda>f. all_min1 (af_modules f)) (pa_findings (ps_architecture s))"
  proof -
    have "(\<forall>t \<in> set (rec_values (pl_tasks (plan_loop ?fs))). taskSchema t) \<longleftrightarrow> (\<forall>i < length ?fs. all_min1 (af_modules (?fs ! i)))"
      unfolding rec_values_planned set_map Ball_image_comp comp_def planned_task_schema by (simp only: ball_simps set_upt atLeastLessThan_iff Ball_def) simp
    also have "\<dots> \<longleftrightarrow> list_all (\<lambda>f. all_min1 (af_modules f)) ?fs" by (simp only: list_all_length)
    finally show ?thesis by (simp only: list_all_iff set_sort_by)
  qed
  have features: "\<forall>x \<in> set (rec_values (pl_features (plan_loop ?fs))). featureSchema x"
    unfolding Ball_def planned_features_iff using at assms(2) planned_feature_schema by blast
  have epics: "\<forall>e \<in> set (rec_values (pl_epics (plan_loop ?fs))). epicSchema e" using planned_epic(1) by blast
  have parts: "\<forall>e \<in> set (rec_values (epics_of (apply_plan (plan_of_state lc s) s))). epicSchema e"
    "\<forall>x \<in> set (rec_values (features_of (apply_plan (plan_of_state lc s) s))). featureSchema x"
    "(\<forall>t \<in> set (rec_values (tasks_of (apply_plan (plan_of_state lc s) s))). taskSchema t) \<longleftrightarrow>
      list_all (\<lambda>f. all_min1 (af_modules f)) (pa_findings (ps_architecture s))"
    unfolding applied_plan using epics features tasks by blast+
  show ?thesis
    using assms(1) parts milestones unfolding projectStateDeepSchema_def applied_plan_frame by blast
qed


definition other_milestones_idle :: "project_state \<Rightarrow> bool" where
  "other_milestones_idle s = list_all (\<lambda>(k, m). k = ''milestone-architecture-hardening'' \<or> ms_status m \<noteq> Mile_In_Progress) (ps_milestones s)"

lemma one_active_milestone:
  assumes "ms_status m = Mile_In_Progress" and "distinct (rec_keys r)"
  shows "length (filter (\<lambda>m. ms_status m = Mile_In_Progress) (rec_values (rec_set k m r))) \<le> 1 \<longleftrightarrow>
    list_all (\<lambda>(j, m). j = k \<or> ms_status m \<noteq> Mile_In_Progress) r"
  using assms(2)
proof (induction r)
  case (Cons x r)
  obtain j n where x: "x = (j, n)" by (cases x)
  have some: "0 < length (filter (\<lambda>m. ms_status m = Mile_In_Progress) (rec_values (rec_set k m r)))"
    using assms(1) by (simp add: filter_empty_conv) (metis image_eqI insertI1 rec_get_set map_of_SomeD snd_conv)
  have idle: "filter (\<lambda>m. ms_status m = Mile_In_Progress) (rec_values r) = [] \<longleftrightarrow> list_all (\<lambda>(j, m). ms_status m \<noteq> Mile_In_Progress) r"
    by (auto simp: filter_empty_conv list_all_iff)
  show ?case
  proof (cases "j = k")
    case True
    then have "list_all (\<lambda>(j, m). j = k \<or> ms_status m \<noteq> Mile_In_Progress) r = list_all (\<lambda>(j, m). ms_status m \<noteq> Mile_In_Progress) r"
      using Cons.prems x unfolding list_all_iff by force
    then show ?thesis using True x assms(1) idle by (simp del: filter.simps) (simp add: filter_map)
  next
    case False
    then show ?thesis using Cons x some by (cases "ms_status n = Mile_In_Progress") auto
  qed
qed (simp add: assms(1))

text \<open>When the plan of a valid state is valid again.\<close>

definition open_for_planning :: "planner_output \<Rightarrow> project_state \<Rightarrow> bool" where
  "open_for_planning out s =
     (ex_completed (ps_execution s) = [] \<and> ex_blocked (ps_execution s) = []
      \<and> (case when_truthy (ex_activeTask (ps_execution s)) of None \<Rightarrow> True | Some t \<Rightarrow> rec_has (backlog_tasks (po_backlog out)) t)
      \<and> other_milestones_idle s
      \<and> list_all (\<lambda>f. all_min1 (af_modules f)) (pa_findings (ps_architecture s)))"

lemma planned_status: "rec_get (pl_tasks (plan_loop fs)) t = Some x \<Longrightarrow> task_status x = Todo"
proof -
  assume "rec_get (pl_tasks (plan_loop fs)) t = Some x"
  then have "x \<in> set (rec_values (pl_tasks (plan_loop fs)))" by (metis map_of_SomeD image_eqI set_map snd_conv)
  then show ?thesis unfolding planned_tasks_iff by (auto simp: planned_task_def)
qed

lemma planned_references:
  fixes s :: project_state and lc :: "string cmp"
  defines "p \<equiv> apply_plan (plan_of_state lc s) s"
  shows "\<forall>f \<in> set (rec_values (features_of p)). feature_issues p f = []"
    and "\<forall>e \<in> set (rec_values (epics_of p)). epic_issues p e = []"
    and "\<forall>t \<in> set (rec_values (tasks_of p)). task_issues p t = []"
proof -
  let ?fs = "ordered_findings s"
  have refs: "tasks_of p = pl_tasks (plan_loop ?fs)" "features_of p = pl_features (plan_loop ?fs)" "epics_of p = pl_epics (plan_loop ?fs)"
    by (simp_all add: p_def)
  show "\<forall>f \<in> set (rec_values (features_of p)). feature_issues p f = []"
  proof
    fix f assume "f \<in> set (rec_values (features_of p))"
    then obtain i where i: "i < length ?fs" "f = planned_feature i (?fs ! i)" unfolding refs planned_features_iff by blast
    then show "feature_issues p f = []"
      using planned_get(1)[OF i(1)] planned_epic_known[OF nth_mem[OF i(1)]]
      by (simp add: feature_issues_Nil refs planned_feature_def) (simp add: planned_task_def)
  qed
  show "\<forall>e \<in> set (rec_values (epics_of p)). epic_issues p e = []"
  proof
    fix e assume "e \<in> set (rec_values (epics_of p))"
    then have "\<forall>k \<in> set (epic_features e). \<exists>i < length ?fs. k = feature_key i (?fs ! i)" unfolding refs by (rule planned_epic(2))
    then show "epic_issues p e = []" unfolding epic_issues_Nil refs rec_has_def using planned_get(2)[of _ ?fs] by (metis option.distinct(1))
  qed
  show "\<forall>t \<in> set (rec_values (tasks_of p)). task_issues p t = []"
  proof
    fix t assume "t \<in> set (rec_values (tasks_of p))"
    then obtain i where i: "i < length ?fs" "t = planned_task i (?fs ! i) (previous_key ?fs i)"
      unfolding refs planned_tasks_iff by blast
    have "rec_has (tasks_of p) d" if "d \<in> set (task_depends t)" for d
      using that i planned_get(1)[of _ ?fs] by (cases i) (auto simp: planned_task_depends refs rec_has_def)
    moreover have "task_split_from t = None" using i by (simp add: planned_task_def)
    ultimately show "task_issues p t = []" using i planned_task_valid(1) by (simp add: task_issues_Nil)
  qed
qed

lemma none_holds: "(\<And>x. \<not> P x) \<Longrightarrow> (\<forall>x \<in> set xs. P x) \<longleftrightarrow> xs = []"
  by (cases xs) auto

lemma planned_state_valid:
  assumes "valid_state z s" and "distinct (rec_keys (ps_milestones s))"
  shows "valid_state z (apply_plan (plan_of_state lc s) s) \<longleftrightarrow> open_for_planning (plan_of_state lc s) s"
proof -
  let ?p = "apply_plan (plan_of_state lc s) s" and ?fs = "ordered_findings s"
  note old = assms(1)[unfolded valid_state_iff]
  have schema: "projectStateDeepSchema z ?p \<longleftrightarrow> list_all (\<lambda>f. all_min1 (af_modules f)) (pa_findings (ps_architecture s))"
    using applied_schema old by blast
  have miles: "length (filter (\<lambda>m. ms_status m = Mile_In_Progress) (rec_values (ps_milestones ?p))) \<le> 1 \<longleftrightarrow> other_milestones_idle s"
    unfolding applied_plan other_milestones_idle_def by (rule one_active_milestone) (simp_all add: plan_milestone_def assms(2))
  have blocked: "blocked_issues ?p t \<noteq> []" "completed_issues ?p t \<noteq> []" for t
    using planned_status[of ?fs t] by (auto simp: blocked_issues_Nil completed_issues_Nil)
  then have lists: "(\<forall>t \<in> set xs. blocked_issues ?p t = []) \<longleftrightarrow> xs = []" "(\<forall>t \<in> set xs. completed_issues ?p t = []) \<longleftrightarrow> xs = []" for xs
    using none_holds[of "\<lambda>t. blocked_issues ?p t = []"] none_holds[of "\<lambda>t. completed_issues ?p t = []"] by blast+
  have active: "(\<forall>t. ex_activeTask (ps_execution ?p) = Some t \<and> t \<noteq> [] \<longrightarrow> rec_has (tasks_of ?p) t) \<longleftrightarrow>
      (case when_truthy (ex_activeTask (ps_execution s)) of None \<Rightarrow> True | Some t \<Rightarrow> rec_has (backlog_tasks (po_backlog (plan_of_state lc s))) t)"
    by (auto simp: when_truthy_def truthy_def planner_output_parts split: option.splits)
  have mile: "\<forall>m. ps_milestone ?p = Some m \<and> m \<noteq> [] \<longrightarrow> rec_has (ps_milestones ?p) m" by simp
  show ?thesis
    unfolding valid_state_iff schema miles lists active open_for_planning_def
    using old planned_references[of lc s] mile by (simp only: applied_plan_frame) blast
qed


section \<open>Planning commits a plan or changes nothing\<close>

lemma wp_svc_uuid [wp_simps]: "wp (svc_uuid ev) Q E a = Q (en_uuid ev (ap_tick a)) (a\<lparr>ap_tick := Suc (ap_tick a)\<rparr>)"
  by (simp add: wp_def svc_uuid_def)

lemma wp_svc_now [wp_simps]: "wp (svc_now ev) Q E a = Q (en_now ev (ap_tick a)) (a\<lparr>ap_tick := Suc (ap_tick a)\<rparr>)"
  by (simp add: wp_def svc_now_def)

lemma wp_on_app [wp_simps]: "wp (on_app m) Q E a = wp m (\<lambda>x st. Q x (a\<lparr>ap_store := st\<rparr>)) (\<lambda>e st. E e (a\<lparr>ap_store := st\<rparr>)) (ap_store a)"
  by (auto simp: wp_def on_app_def split: prod.splits sum.splits)

lemma wp_current_state [wp_simps]:
  "wp (current_state None) Q E a = Q (st_state (ap_store a)) (a\<lparr>ap_object := st_state (ap_store a)\<rparr>)"
  by (simp add: current_state_def set_object_def load_def wp_simps)

lemma wp_answer:
  "wp (answer role validate C r) Q E a = (case check_answer role validate C r of Inl e \<Rightarrow> E e a | Inr _ \<Rightarrow> Q (resp_output r) a)"
  by (simp add: answer_def wp_simps split: sum.split)

text \<open>Ids that an artifact may carry, and a clock the schemas accept.\<close>

definition quiet_env :: "env \<Rightarrow> bool" where
  "quiet_env ev = (\<forall>n. en_uuid ev n \<noteq> [] \<and> \<not> blank (en_uuid ev n) \<and> \<not> secret_like (en_uuid ev n) \<and> z_iso (en_zod ev) (en_now ev n))"

lemma not_secret_chars:
  assumes "set (to_lower v) \<inter> {CHR ''k'', CHR ''t'', CHR ''s''} = {}"
  shows "\<not> secret_like v"
proof -
  have "\<not> sublist (c # cs) (to_lower v)" if "c \<in> {CHR ''k'', CHR ''t'', CHR ''s''}" for c cs
    using assms that set_mono_sublist[of "c # cs" "to_lower v"] by auto
  then show ?thesis by (simp add: secret_like_def Let_def str_includes_iff)
qed

lemma digits_lower: "set (to_lower (nat_to_string n)) \<subseteq> {c. 48 \<le> (of_char c :: nat) \<and> (of_char c :: nat) \<le> 57}"
proof -
  have "to_lower (nat_to_string n) = nat_to_string n"
    unfolding to_lower_def by (rule map_idI) (use nat_to_string_digits[of _ n] in \<open>fastforce simp: lower_char_def\<close>)
  then show ?thesis using nat_to_string_digits[of _ n] by auto
qed

lemma digits_not_secret: "\<not> secret_like (nat_to_string n)" "\<not> blank (nat_to_string n)"
proof -
  show "\<not> secret_like (nat_to_string n)" by (rule not_secret_chars) (use digits_lower[of n] in auto)
  obtain c where c: "c \<in> set (nat_to_string n)" by (meson list.set_sel(1) nat_to_string_nonempty)
  have "\<not> is_space c" using nat_to_string_digits[OF c] by (auto simp: is_space_def)
  then show "\<not> blank (nat_to_string n)" using c unfolding blank_iff by blast
qed

lemma wp_recordArtifact_valid:
  assumes "registry_validate x = []" "valid_state z (st_state st)" "artifactSchema (z_iso z) x" "e = int (ps_revision (st_state st))"
  shows "wp (recordArtifact z x (Some e)) Q E st =
    Q (ps_revision (st_state st) + 1) (st\<lparr>st_state := with_artifact x (st_state st)\<lparr>ps_revision := ps_revision (st_state st) + 1\<rparr>\<rparr>)"
proof -
  have r: "ps_revision (with_artifact x (st_state st)) = ps_revision (st_state st)" by (simp add: with_artifact_def)
  have eq: "recordArtifact z x (Some e) = bindA load (\<lambda>cur. commitSnapshot z (with_artifact x cur) (Some e) [])"
    using assms(1) by (simp add: recordArtifact_def with_artifact_def Let_def)
  show ?thesis unfolding eq load_def wp_bindA wp_getA
    by (subst wp_commit_valid) (use assms r valid_with_artifact(2) in auto)
qed

lemma plan_artifact_accepted:
  assumes "quiet_env ev"
  shows "registry_validate \<lparr> art_id = en_uuid ev i, art_type = Plan_Artifact, art_title = ''Backlog plan'', art_location = None,
      art_metadata = [(''promptId'', en_uuid ev j), (''tasks'', nat_to_string n), (''milestoneId'', ms_id (plan_milestone es))],
      art_created = en_now ev k \<rparr> = []"
    and "artifactSchema (z_iso (en_zod ev)) \<lparr> art_id = en_uuid ev i, art_type = Plan_Artifact, art_title = ''Backlog plan'', art_location = None,
      art_metadata = [(''promptId'', en_uuid ev j), (''tasks'', nat_to_string n), (''milestoneId'', ms_id (plan_milestone es))],
      art_created = en_now ev k \<rparr>"
proof -
  have "\<not> secret_like ''milestone-architecture-hardening''" by (simp add: secret_like_def to_lower_def lower_char_def)
  then show "registry_validate \<lparr> art_id = en_uuid ev i, art_type = Plan_Artifact, art_title = ''Backlog plan'', art_location = None,
      art_metadata = [(''promptId'', en_uuid ev j), (''tasks'', nat_to_string n), (''milestoneId'', ms_id (plan_milestone es))],
      art_created = en_now ev k \<rparr> = []"
    using assms by (simp add: plan_milestone_id registry_validate_def validateArtifact_def artifact_validator_def requireMetadata_def
        meta_present_def quiet_env_def digits_not_secret is_space_def)
qed (use assms in \<open>simp add: artifactSchema_def quiet_env_def opt_min1_def all_min1_def plan_milestone_id\<close>)


lemma applied_backlog: "ps_backlog (with_artifact x s) = ps_backlog s" "ps_backlog (apply_plan out s) = po_backlog out"
  by (simp_all add: with_artifact_def apply_plan_def)

lemma wp_save_object_valid:
  assumes "valid_state (en_zod ev) (ap_object a)" "ps_revision (ap_object a) = ps_revision (st_state (ap_store a))"
  shows "wp (save_object ev evs) Q E a = (let s = (ap_object a)\<lparr>ps_revision := ps_revision (ap_object a) + 1\<rparr> in
    Q () (a\<lparr>ap_store := (ap_store a)\<lparr>st_state := s, st_events := st_events (ap_store a) @ evs\<rparr>, ap_object := s\<rparr>))"
  unfolding save_object_def set_object_def saveWithEvents_def wp_simps
  by (subst wp_commit_valid) (use assms in \<open>simp_all add: wp_simps Let_def\<close>)

text \<open>C27. Planning either stores the plan or changes nothing. On a store with a valid state, planning returns exactly
  when there are findings and the state is open for planning: no task has ever been completed, none is blocked, the active task,
  if any, is one of the new plan, no other milestone is in progress and no finding names an empty module. Then the stored state is
  valid, holds the new plan and has moved by two revisions. Otherwise it throws, with a state integrity error when there
  are findings, and the store is as it was: a project whose first task is done can never be planned again.\<close>

theorem planning_commits_or_nothing:
  assumes "valid_state (en_zod ev) (st_state (ap_store a))" and "distinct (rec_keys (ps_milestones (st_state (ap_store a))))" and "quiet_env ev"
  shows "let s = st_state (ap_store a); findings = pa_findings (ps_architecture s); out = plan_of_state (en_lc ev) s in
     case plan_service ev None a of
       (Inl e, a') \<Rightarrow> ap_store a' = ap_store a \<and> (findings = [] \<or> \<not> open_for_planning out s \<and> error_class e = StateIntegrityError)
     | (Inr r, a') \<Rightarrow> r = out \<and> findings \<noteq> [] \<and> open_for_planning out s \<and> valid_state (en_zod ev) (st_state (ap_store a'))
         \<and> ps_backlog (st_state (ap_store a')) = po_backlog out \<and> ps_revision (st_state (ap_store a')) = ps_revision s + 2"
proof -
  let ?s = "st_state (ap_store a)" and ?z = "en_zod ev"
  let ?out = "plan_of_state (en_lc ev) ?s" and ?r = "planner_execute (en_lc ev) (ps_discovery ?s) (pa_findings (ps_architecture ?s))"
  let ?check = "check_answer Planner planner_validate Out_Plan ?r"
  let ?E = "\<lambda>e a'. ap_store a' = ap_store a \<and> (pa_findings (ps_architecture ?s) = [] \<or> \<not> open_for_planning ?out ?s \<and> error_class e = StateIntegrityError)"
  let ?Q = "\<lambda>r a'. r = ?out \<and> pa_findings (ps_architecture ?s) \<noteq> [] \<and> open_for_planning ?out ?s \<and> valid_state ?z (st_state (ap_store a'))
     \<and> ps_backlog (st_state (ap_store a')) = po_backlog ?out \<and> ps_revision (st_state (ap_store a')) = ps_revision ?s + 2"
  have check: "?check = Inr () \<longleftrightarrow> pa_findings (ps_architecture ?s) \<noteq> []" by (rule planner_accepted)
  have valid: "valid_state ?z (apply_plan ?out ?s) \<longleftrightarrow> open_for_planning ?out ?s" by (rule planned_state_valid[OF assms(1,2)])
  have id: "ms_id (po_milestone ?out) = ms_id (plan_milestone (pl_epics (plan_loop (ordered_findings ?s))))" by (simp add: planner_output_parts)
  have "wp (plan_service ev None) ?Q ?E a"
  proof (cases ?check)
    case (Inl e)
    then have "pa_findings (ps_architecture ?s) = []" using check by auto
    then show ?thesis unfolding plan_service_def wp_bindA wp_current_state wp_svc_uuid wp_answer app.simps Inl sum.case by simp
  next
    case (Inr u)
    then have some: "pa_findings (ps_architecture ?s) \<noteq> []" using check by simp
    show ?thesis
    proof (cases "open_for_planning ?out ?s")
      case True
      then have v: "valid_state ?z (apply_plan ?out ?s)" using valid by simp
      then have ok: "assertProjectState ?z (apply_plan ?out ?s) = Inr ()" by (simp add: assertProjectState_ok)
      note art = plan_artifact_accepted[OF assms(3)]
      show ?thesis
        unfolding plan_service_def set_object_def assert_object_def app_artifact_def app_event_def wp_simps wp_answer app.simps Inr sum.case id
        by (simp add: wp_simps ok wp_save_object_valid v Let_def wp_recordArtifact_valid art some True
              valid_with_artifact(2) applied_backlog)
    next
      case False
      then have "\<not> valid_state ?z (apply_plan ?out ?s)" using valid by simp
      then obtain e where "assertProjectState ?z (apply_plan ?out ?s) = Inl e" "error_class e = StateIntegrityError"
        by (auto simp: assertProjectState_def valid_state_def Let_def)
      then show ?thesis
        unfolding plan_service_def set_object_def assert_object_def using False by (simp add: wp_simps wp_answer Inr)
    qed
  qed
  then show ?thesis unfolding Let_def wp_def .
qed


definition sample_finding :: arch_finding where
  "sample_finding = \<lparr> af_subsystem = ''runtime'', af_issueType = Critical_Path_Gap, af_description = ''d'', af_impact = ''i'',
     af_recommendation = ''r'', af_modules = [''apps/a''], af_severity = Sev_Medium \<rparr>"

definition unplanned_state :: project_state where
  "unplanned_state = (createEmptyProjectState None ''p'' ''n'' ''d'')\<lparr>ps_architecture :=
     \<lparr> pa_packageMap = [], pa_subsystemMap = [], pa_unstableAreas = [], pa_criticalPaths = [],
       pa_findings = [sample_finding], pa_analysisSummary = None \<rparr>\<rparr>"

definition sample_app :: app where
  "sample_app = \<lparr> ap_store = \<lparr> st_state = unplanned_state, st_events = [] \<rparr>, ap_object = unplanned_state, ap_files = [], ap_tick = 0 \<rparr>"

lemma sample_quiet: "quiet_env sample_env"
proof -
  have "\<not> secret_like (''u'' @ nat_to_string n)" for n
    by (rule not_secret_chars) (use digits_lower[of n] in \<open>auto simp: to_lower_def lower_char_def\<close>)
  then show ?thesis by (simp add: quiet_env_def sample_env_def sample_zod_def is_space_def)
qed

lemma unplanned_valid: "valid_state sample_zod unplanned_state"
  using valid_empty_state[of None sample_zod]
  by (auto simp: valid_parts unplanned_state_def sample_finding_def validateArchitectureFinding_def is_space_def createEmptyProjectState_def)

theorem planning_commits_or_nothing_witness:
  "fst (plan_service sample_env None sample_app) = Inr (plan_of_state code_unit_compare unplanned_state)
   \<and> ps_revision (st_state (ap_store (snd (plan_service sample_env None sample_app)))) = 2"
proof -
  have s: "st_state (ap_store sample_app) = unplanned_state" "en_zod sample_env = sample_zod" "en_lc sample_env = code_unit_compare"
    by (simp_all add: sample_app_def sample_env_def)
  have d: "distinct (rec_keys (ps_milestones unplanned_state))" "pa_findings (ps_architecture unplanned_state) = [sample_finding]"
      "ps_revision unplanned_state = 0"
    by (simp_all add: unplanned_state_def createEmptyProjectState_def)
  have "open_for_planning (plan_of_state code_unit_compare unplanned_state) unplanned_state"
    by (simp add: open_for_planning_def unplanned_state_def createEmptyProjectState_def when_truthy_def other_milestones_idle_def
        sample_finding_def all_min1_def)
  then show ?thesis
    using planning_commits_or_nothing[of sample_env sample_app] unplanned_valid sample_quiet d
    unfolding Let_def s by (cases "plan_service sample_env None sample_app"; cases "fst (plan_service sample_env None sample_app)") auto
qed

end
