(* ===== verification/Code_Roles.thy ===== *)
theory Code_Roles
  imports Planning_Roles Role_Runner
begin

text \<open>
  The roles a task runs through, \<open>packages/agents/src/default-roles.ts\<close>: the production coder and reviewer, which ask a
  language model and parse its answer, their synthetic counterparts, and the tester, which asks for the
  four quality stages one after the other. The language model is \<open>gen\<close>, a function of the number of draws
  and of the prompt. \<open>tester_agent\<close> is the tester as the role runner calls it.
\<close>

section \<open>Reading JSON values\<close>

definition jget :: "json jsrec \<Rightarrow> string \<Rightarrow> json" where
  "jget kvs k = (case rec_get kvs k of None \<Rightarrow> JUndefined | Some v \<Rightarrow> v)"

fun as_record :: "json \<Rightarrow> json jsrec option" where
  "as_record (JObj kvs) = Some kvs"
| "as_record _ = None"

fun as_text :: "json \<Rightarrow> string option" where
  "as_text (JStr s) = Some s"
| "as_text _ = None"

definition as_texts :: "json \<Rightarrow> string list option" where
  "as_texts v = (case v of JArr xs \<Rightarrow> if list_all (\<lambda>x. as_text x \<noteq> None) xs then Some (map (\<lambda>x. the (as_text x)) xs) else None
                 | _ \<Rightarrow> None)"

definition solid :: "json \<Rightarrow> bool" where
  "solid v = (case v of JStr s \<Rightarrow> \<not> blank s | _ \<Rightarrow> False)"

definition all_tools :: "tool_call_name list" where
  "all_tools = [File_Read, File_Write, File_List, File_Exists, Git_Status, Git_Diff, Git_Current_Branch, Typescript_Check,
     Typescript_Diagnostics, Shell_Exec, Testing_Run, Diff_Workspace, Search_Repo]"

text \<open>\<open>isToolCallName\<close>, with the name it recognises.\<close>

definition tool_named :: "json \<Rightarrow> tool_call_name option" where
  "tool_named v = (case v of JStr s \<Rightarrow> List.find (\<lambda>t. tool_name_text t = s) all_tools | _ \<Rightarrow> None)"

fun evidence_type_text :: "evidence_type \<Rightarrow> string" where
  "evidence_type_text Tool_Observation = ''tool_observation''"
| "evidence_type_text Workspace_Diff = ''workspace_diff''"
| "evidence_type_text Artifact_Evidence = ''artifact''"
| "evidence_type_text Llm_Decision = ''llm_decision''"
| "evidence_type_text No_Op = ''no_op''"

definition evidence_type_named :: "json \<Rightarrow> evidence_type option" where
  "evidence_type_named v = (case v of JStr s \<Rightarrow> List.find (\<lambda>t. evidence_type_text t = s)
     [Tool_Observation, Workspace_Diff, Artifact_Evidence, Llm_Decision, No_Op] | _ \<Rightarrow> None)"

text \<open>An entry of the evidence array; members the type does not have are not kept.\<close>

definition parse_evidence :: "json \<Rightarrow> code_execution_evidence option" where
  "parse_evidence v = (case as_record v of None \<Rightarrow> None
     | Some kvs \<Rightarrow> (case (evidence_type_named (jget kvs ''type''), jget kvs ''description'', jget kvs ''reference'') of
         (Some t, JStr d, r) \<Rightarrow>
           if blank d then None
           else (case r of JUndefined \<Rightarrow> Some \<lparr> ce_type = t, ce_description = d, ce_reference = None \<rparr>
                 | JStr x \<Rightarrow> Some \<lparr> ce_type = t, ce_description = d, ce_reference = Some x \<rparr> | _ \<Rightarrow> None)
       | _ \<Rightarrow> None))"

definition parse_evidences :: "json \<Rightarrow> code_execution_evidence list option" where
  "parse_evidences v = (case v of
     JArr xs \<Rightarrow> if list_all (\<lambda>x. parse_evidence x \<noteq> None) xs then Some (map (\<lambda>x. the (parse_evidence x)) xs) else None
   | _ \<Rightarrow> None)"

section \<open>The coder's decision\<close>

datatype coder_decision =
    Request_Tool tool_call_name string "json jsrec"
  | Final_Decision bool string "string list" "code_execution_evidence list" "string option"

definition coder_error :: "string \<Rightarrow> js_error" where
  "coder_error m = Js_Error WorkflowPolicyError m []"

definition parse_request :: "json jsrec \<Rightarrow> coder_decision result" where
  "parse_request kvs = (case tool_named (jget kvs ''toolName'') of
     None \<Rightarrow> Inl (coder_error ''Production coder tool request has an unsupported toolName'')
   | Some t \<Rightarrow>
       if \<not> solid (jget kvs ''rationale'') then Inl (coder_error ''Production coder tool request requires rationale'')
       else (case as_record (jget kvs ''input'') of
           None \<Rightarrow> Inl (coder_error ''Production coder tool request requires input object'')
         | Some i \<Rightarrow> Inr (Request_Tool t (the (as_text (jget kvs ''rationale''))) i)))"

definition parse_final :: "json jsrec \<Rightarrow> coder_decision result" where
  "parse_final kvs = (case jget kvs ''changed'' of
     JBool ch \<Rightarrow>
       if \<not> solid (jget kvs ''summary'') then Inl (coder_error ''Production coder final output requires summary'')
       else (case as_texts (jget kvs ''changedFiles'') of
           None \<Rightarrow> Inl (coder_error ''Production coder final output requires changedFiles array'')
         | Some files \<Rightarrow> (case parse_evidences (jget kvs ''evidence'') of
             None \<Rightarrow> Inl (coder_error ''Production coder final output requires evidence array'')
           | Some es \<Rightarrow>
               if \<not> ch \<and> \<not> solid (jget kvs ''noOpReason'')
               then Inl (coder_error ''Production coder no-op output requires noOpReason'')
               else Inr (Final_Decision ch (the (as_text (jget kvs ''summary''))) files es
                      (if solid (jget kvs ''noOpReason'') then as_text (jget kvs ''noOpReason'') else None))))
   | _ \<Rightarrow> Inl (coder_error ''Production coder final output requires changed flag''))"

definition parseProductionCoderDecision :: "json \<Rightarrow> coder_decision result" where
  "parseProductionCoderDecision v = (case as_record v of
     None \<Rightarrow> Inl (coder_error ''Production coder decision must be an object'')
   | Some kvs \<Rightarrow>
       if jget kvs ''action'' = JStr ''request_tool'' then parse_request kvs
       else if jget kvs ''action'' = JStr ''final_output'' then parse_final kvs
       else Inl (coder_error ''Production coder decision action must be request_tool or final_output''))"

definition parseReviewResult :: "json \<Rightarrow> review_result result" where
  "parseReviewResult v = (case as_record v of
     None \<Rightarrow> Inl (coder_error ''Review result must be an object'')
   | Some kvs \<Rightarrow> (case (jget kvs ''approved'', as_texts (jget kvs ''blockingIssues''), as_texts (jget kvs ''nonBlockingSuggestions''),
         as_texts (jget kvs ''missingTests''), as_texts (jget kvs ''notes'')) of
       (JBool a, Some b, Some s, Some t, Some n) \<Rightarrow>
         Inr \<lparr> approved = a, blockingIssues = b, nonBlockingSuggestions = s, missingTests = t, review_notes = n \<rparr>
     | _ \<Rightarrow> Inl (coder_error ''Review result does not match the required contract'')))"

section \<open>The production roles\<close>

text \<open>\<open>await\<close> of the model's call, then the parse: a parse error rejects.\<close>

definition after_call :: "'a raced \<Rightarrow> ('a \<Rightarrow> 'b result) \<Rightarrow> 'b raced" where
  "after_call x f = (case x of Settled (Inr v) \<Rightarrow> Settled (f v) | Settled (Inl e) \<Rightarrow> Settled (Inl e)
     | Timed_Out t \<Rightarrow> Timed_Out t | Abort_Error m \<Rightarrow> Abort_Error m)"

definition observation_json :: "observation \<Rightarrow> json" where
  "observation_json o1 = JObj (filter (\<lambda>(k, v). v \<noteq> JUndefined)
     [(''step'', JNum (int (ob_step o1))), (''toolName'', JStr (tool_name_text (ob_tool o1))), (''ok'', JBool (ob_ok o1)),
      (''output'', ob_output o1), (''error'', case ob_error o1 of None \<Rightarrow> JUndefined | Some e \<Rightarrow> JStr e),
      (''createdAt'', JStr (stamp_text (ob_created o1)))])"

definition blank_line :: string where
  "blank_line = [CHR 0x0A, CHR 0x0A]"

definition coder_prompt :: "task \<Rightarrow> optimized_prompt \<Rightarrow> role_request \<Rightarrow> role_execution_context \<Rightarrow> observation list \<Rightarrow> string" where
  "coder_prompt t p rq cx observations = join blank_line
     [op_systemPrompt p, op_taskPrompt p, ''Task ID: '' @ task_id t, ''Objective: '' @ rq_objective rq,
      ''Acceptance criteria: '' @ join ''; '' (rq_acceptanceCriteria rq),
      ''Workspace root: '' @ tx_workspaceRoot (cx_toolExecution cx),
      ''Allowed write paths: '' @ join '', '' (allowedWritePaths (cx_toolProfile cx)),
      ''Observed tool results: '' @ stringify (JArr (map observation_json observations)),
      ''Return either a tool request for the next safe action or a final output.'',
      ''If changed is true, include changedFiles and concrete evidence. If changed is false, include noOpReason.'']"

definition generateDecision :: "(nat \<Rightarrow> string \<Rightarrow> json raced) \<Rightarrow> nat \<Rightarrow> task \<Rightarrow> optimized_prompt \<Rightarrow> role_request \<Rightarrow>
    role_execution_context \<Rightarrow> observation list \<Rightarrow> coder_decision raced" where
  "generateDecision gen n t p rq cx observations =
     after_call (gen n (coder_prompt t p rq cx observations)) parseProductionCoderDecision"

definition code_output :: "bool \<Rightarrow> string \<Rightarrow> string list \<Rightarrow> code_execution_evidence list \<Rightarrow> string option \<Rightarrow> code_execution_output" where
  "code_output ch s files es r = \<lparr> changed = ch, code_summary = s, changedFiles = files, code_evidence = es, noOpReason = when_truthy r \<rparr>"

definition makeFinalResponse :: "task \<Rightarrow> code_execution_output \<Rightarrow> role_output role_response" where
  "makeFinalResponse t out = makeResponse Coder (''Executed task '' @ task_id t) (Out_Code out)"

definition coder_execute :: "(nat \<Rightarrow> string \<Rightarrow> json raced) \<Rightarrow> nat \<Rightarrow> task \<Rightarrow> optimized_prompt \<Rightarrow> role_request \<Rightarrow>
    role_execution_context \<Rightarrow> role_output role_response raced" where
  "coder_execute gen n t p rq cx = after_call (generateDecision gen n t p rq cx []) (\<lambda>d. case d of
     Request_Tool tool _ _ \<Rightarrow> Inl (Js_Error WorkflowPolicyError ''Production coder returned a tool request outside the action loop''
       [task_id t, tool_name_text tool])
   | Final_Decision ch s files es r \<Rightarrow> Inr (makeFinalResponse t (code_output ch s files es r)))"

definition coder_step :: "(nat \<Rightarrow> string \<Rightarrow> json raced) \<Rightarrow> nat \<Rightarrow> task \<Rightarrow> optimized_prompt \<Rightarrow> role_request \<Rightarrow>
    role_execution_context \<Rightarrow> observation list \<Rightarrow> step_result raced" where
  "coder_step gen n t p rq cx observations = after_call (generateDecision gen n t p rq cx observations) (\<lambda>d. case d of
     Request_Tool tool r i \<Rightarrow> Inr (Tool_Requested \<lparr> tr_toolName = tool, tr_input = i, tr_rationale = r \<rparr>)
   | Final_Decision ch s files es r \<Rightarrow> Inr (Final_Output (makeFinalResponse t (code_output ch s files es r))))"

definition evidence_json :: "code_execution_evidence \<Rightarrow> json" where
  "evidence_json e = JObj ([(''type'', JStr (evidence_type_text (ce_type e))), (''description'', JStr (ce_description e))]
     @ (case ce_reference e of None \<Rightarrow> [] | Some r \<Rightarrow> [(''reference'', JStr r)]))"

definition reviewer_prompt :: "task \<Rightarrow> code_execution_output \<Rightarrow> string" where
  "reviewer_prompt t out = join blank_line
     [''Review task '' @ task_id t @ '': '' @ task_title t, ''Acceptance criteria: '' @ join ''; '' (task_criteria t),
      ''Execution summary: '' @ code_summary out, ''Changed files: '' @ join '', '' (changedFiles out),
      ''Evidence: '' @ stringify (JArr (map evidence_json (code_evidence out))),
      ''Approve only when the result satisfies acceptance criteria and evidence supports the claimed mutation or no-op.'']"

definition reviewer_execute :: "(nat \<Rightarrow> string \<Rightarrow> json raced) \<Rightarrow> nat \<Rightarrow> task \<Rightarrow> code_execution_output \<Rightarrow> role_output role_response raced" where
  "reviewer_execute gen n t out = after_call (gen n (reviewer_prompt t out)) (\<lambda>v. case parseReviewResult v of
     Inl e \<Rightarrow> Inl e | Inr r \<Rightarrow> Inr (makeResponse Reviewer (''Reviewed '' @ task_id t) (Out_Review r)))"

section \<open>The synthetic coder and reviewer\<close>

definition synthetic_coder_execute :: "task \<Rightarrow> role_output role_response" where
  "synthetic_coder_execute t = makeResponse Coder (''Executed task '' @ task_id t) (Out_Code
     \<lparr> changed = True, code_summary = ''Stub execution completed for '' @ task_title t, changedFiles = task_modules t,
       code_evidence = [\<lparr> ce_type = Llm_Decision,
         ce_description = ''Synthetic coder role produced deterministic test evidence; not valid for production registry.'',
         ce_reference = Some (task_id t) \<rparr>],
       noOpReason = None \<rparr>)"

definition synthetic_reviewer_execute :: "task \<Rightarrow> role_output role_response" where
  "synthetic_reviewer_execute t =
     (let isBlocked = (\<exists>c \<in> set (task_criteria t). str_includes (to_lower c) ''[reject]'') in
      makeResponse Reviewer (''Reviewed '' @ task_id t) (Out_Review
        \<lparr> approved = \<not> isBlocked, blockingIssues = (if isBlocked then [''Forced reviewer rejection''] else []),
          nonBlockingSuggestions = [], missingTests = [], review_notes = [] \<rparr>))"


section \<open>The tester\<close>

definition QUALITY_GATE_STAGES :: "quality_stage list" where
  "QUALITY_GATE_STAGES = [Build_Stage, Lint_Stage, Typecheck_Stage, Test_Stage]"

definition PASSING_STAGES :: "quality_stage_result list" where
  "PASSING_STAGES = map (\<lambda>s. \<lparr> qs_stage = s, qs_status = Passing, qs_diagnostics = [] \<rparr>) QUALITY_GATE_STAGES"

definition FAILING_STAGES_WITHOUT_EXECUTION :: "quality_stage_result list" where
  "FAILING_STAGES_WITHOUT_EXECUTION = map (\<lambda>s. \<lparr> qs_stage = s, qs_status = Failing,
     qs_diagnostics = [''quality stage execution was skipped because no observations were provided''] \<rparr>) QUALITY_GATE_STAGES"

definition fail_marker :: "quality_stage \<Rightarrow> string" where
  "fail_marker s = ''[fail-'' @ quality_stage_text s @ '']''"

definition marked :: "task \<Rightarrow> quality_stage \<Rightarrow> bool" where
  "marked t s = (\<exists>c \<in> set (task_criteria t). str_includes (to_lower c) (fail_marker s))"

definition buildSyntheticQualityStages :: "task \<Rightarrow> quality_stage_result list option" where
  "buildSyntheticQualityStages t =
     (if \<not> list_ex (marked t) QUALITY_GATE_STAGES then None
      else Some (map (\<lambda>s. \<lparr> qs_stage = s, qs_status = (if marked t s then Failing else Passing),
        qs_diagnostics = (if marked t s then [quality_stage_text s @ '' stage failed due to task acceptance marker '' @ fail_marker s] else []) \<rparr>)
        QUALITY_GATE_STAGES))"

fun json_truthy :: "json \<Rightarrow> bool" where
  "json_truthy JNull = False"
| "json_truthy JUndefined = False"
| "json_truthy (JBool b) = b"
| "json_truthy (JNum n) = (n \<noteq> 0)"
| "json_truthy (JStr s) = (s \<noteq> [])"
| "json_truthy (JArr xs) = True"
| "json_truthy (JObj kvs) = True"

text \<open>A member of a value: reading one of \<open>null\<close> or \<open>undefined\<close> throws.\<close>

definition type_error :: "string \<Rightarrow> js_error" where
  "type_error m = Js_Error TypeError m []"

definition member :: "json \<Rightarrow> string \<Rightarrow> json result" where
  "member v k = (case v of
     JNull \<Rightarrow> Inl (type_error (''Cannot read properties of null (reading '' @ k @ '')''))
   | JUndefined \<Rightarrow> Inl (type_error (''Cannot read properties of undefined (reading '' @ k @ '')''))
   | JObj kvs \<Rightarrow> Inr (jget kvs k) | _ \<Rightarrow> Inr JUndefined)"

text \<open>\<open>String(v)\<close> for the values an exit code can be.\<close>

fun json_string :: "json \<Rightarrow> string" where
  "json_string (JStr s) = s"
| "json_string (JObj kvs) = ''[object Object]''"
| "json_string v = stringify v"

definition failing_stage :: "quality_stage \<Rightarrow> string \<Rightarrow> quality_stage_result" where
  "failing_stage s d = \<lparr> qs_stage = s, qs_status = Failing, qs_diagnostics = [d] \<rparr>"

text \<open>\<open>output.stderr?.trim() ?? ...\<close>: a text is trimmed, an absent one gives the exit code, anything else has no \<open>trim\<close>.\<close>

definition exit_diagnostic :: "json \<Rightarrow> json \<Rightarrow> string result" where
  "exit_diagnostic stderr code = (case stderr of
     JStr s \<Rightarrow> Inr (js_trim s)
   | JNull \<Rightarrow> Inr (''quality stage exited with code '' @ (if code \<in> {JNull, JUndefined} then ''unknown'' else json_string code))
   | JUndefined \<Rightarrow> Inr (''quality stage exited with code '' @ (if code \<in> {JNull, JUndefined} then ''unknown'' else json_string code))
   | _ \<Rightarrow> Inl (type_error ''output.stderr?.trim is not a function''))"

definition stageResultFromObservation :: "quality_stage \<Rightarrow> observation option \<Rightarrow> quality_stage_result result" where
  "stageResultFromObservation s x = (case x of
     None \<Rightarrow> Inr (failing_stage s ''quality stage observation missing'')
   | Some o1 \<Rightarrow>
       if \<not> ob_ok o1 then Inr (failing_stage s (or_default (ob_error o1) ''unknown tool error''))
       else (case member (ob_output o1) ''ok'' of Inl e \<Rightarrow> Inl e
         | Inr ok \<Rightarrow>
             if \<not> json_truthy ok then
               (case (member (ob_output o1) ''stderr'', member (ob_output o1) ''exitCode'') of
                  (Inr e, Inr c) \<Rightarrow> (case exit_diagnostic e c of Inl x \<Rightarrow> Inl x | Inr d \<Rightarrow> Inr (failing_stage s d))
                | (Inl x, _) \<Rightarrow> Inl x | (_, Inl x) \<Rightarrow> Inl x)
             else Inr \<lparr> qs_stage = s, qs_status = Passing, qs_diagnostics = [] \<rparr>))"

definition buildTestResult :: "task \<Rightarrow> quality_stage_result list option \<Rightarrow> test_execution_result" where
  "buildTestResult t stages =
     (let failedStages = filter (\<lambda>s. qs_status s = Failing) (or_default stages []);
          isFailed = length failedStages > 0
      in \<lparr> test_passed = \<not> isFailed,
           testPlan = [''Run build stage'', ''Run lint stage'', ''Run typecheck stage'', ''Validate '' @ task_title t],
           test_evidence = (if isFailed then [] else map (\<lambda>s. ''Quality stage '' @ quality_stage_text (qs_stage s) @ '' passed'') (or_default stages [])),
           test_failures = map (\<lambda>s. quality_stage_text (qs_stage s) @ '' stage failed'') failedStages,
           missingCoverage = [], qualityStages = stages \<rparr>)"

definition test_response :: "task \<Rightarrow> string \<Rightarrow> quality_stage_result list \<Rightarrow> role_output role_response" where
  "test_response t m stages = makeResponse Tester m (Out_Test (buildTestResult t (Some stages)))"

definition synthetic_gate :: "role_execution_context \<Rightarrow> bool" where
  "synthetic_gate cx = (tx_qualityGateMode (cx_toolExecution cx) = Some Synthetic)"

definition tester_execute :: "task \<Rightarrow> role_execution_context \<Rightarrow> role_output role_response" where
  "tester_execute t cx =
     (let synthetic = buildSyntheticQualityStages t in
      if synthetic_gate cx \<or> synthetic \<noteq> None
      then test_response t (''Tested '' @ task_id t) (or_default synthetic PASSING_STAGES)
      else test_response t (''Tested '' @ task_id t @ '' without tool observations'') FAILING_STAGES_WITHOUT_EXECUTION)"

definition package_manager_text :: "package_manager \<Rightarrow> string" where
  "package_manager_text p = (case p of Npm \<Rightarrow> ''npm'' | Pnpm \<Rightarrow> ''pnpm'')"

definition stage_request :: "role_execution_context \<Rightarrow> quality_stage \<Rightarrow> tool_request" where
  "stage_request cx s =
     \<lparr> tr_toolName = Testing_Run,
       tr_input = [(''command'', JStr (package_manager_text (or_default (tx_packageManager (cx_toolExecution cx)) Pnpm))),
                   (''args'', JArr [JStr ''run'', JStr (quality_stage_text s)]), (''timeoutMs'', JNum 600000)],
       tr_rationale = ''Execute '' @ quality_stage_text s @ '' quality stage'' \<rparr>"

fun map_result :: "('a \<Rightarrow> 'b result) \<Rightarrow> 'a list \<Rightarrow> 'b list result" where
  "map_result f [] = Inr []"
| "map_result f (x # xs) = (case f x of Inl e \<Rightarrow> Inl e
     | Inr y \<Rightarrow> (case map_result f xs of Inl e \<Rightarrow> Inl e | Inr ys \<Rightarrow> Inr (y # ys)))"

definition nth_option :: "'a list \<Rightarrow> nat \<Rightarrow> 'a option" where
  "nth_option xs n = (if n < length xs then Some (xs ! n) else None)"

definition observed_stages :: "observation list \<Rightarrow> quality_stage_result list result" where
  "observed_stages observations =
     map_result (\<lambda>(i, s). stageResultFromObservation s (nth_option observations i)) (enumerate 0 QUALITY_GATE_STAGES)"

definition tester_step :: "task \<Rightarrow> role_execution_context \<Rightarrow> observation list \<Rightarrow> step_result result" where
  "tester_step t cx observations =
     (let synthetic = buildSyntheticQualityStages t in
      if synthetic_gate cx \<or> synthetic \<noteq> None
      then Inr (Final_Output (test_response t (''Tested '' @ task_id t) (or_default synthetic PASSING_STAGES)))
      else if length observations < length QUALITY_GATE_STAGES
      then Inr (Tool_Requested (stage_request cx (QUALITY_GATE_STAGES ! length observations)))
      else (case observed_stages observations of Inl e \<Rightarrow> Inl e
            | Inr stages \<Rightarrow> Inr (Final_Output (test_response t (''Tested '' @ task_id t) stages))))"

text \<open>The tester as the role runner calls it; its input is the task with the result to test.\<close>

definition input_task :: "role_input \<Rightarrow> task result" where
  "input_task i = (case i of In_Result t _ \<Rightarrow> Inr t | In_Execution t _ \<Rightarrow> Inr t | In_Prompting t _ _ _ \<Rightarrow> Inr t
     | In_State _ \<Rightarrow> Inl (type_error ''Cannot read properties of undefined (reading acceptanceCriteria)''))"

definition with_task :: "role_request \<Rightarrow> (task \<Rightarrow> 'a result) \<Rightarrow> 'a raced" where
  "with_task rq f = Settled (case input_task (rq_input rq) of Inl e \<Rightarrow> Inl e | Inr t \<Rightarrow> f t)"

definition tester_agent :: agent where
  "tester_agent = \<lparr> ag_name = Tester,
     ag_execute = (\<lambda>n rq cx. with_task rq (\<lambda>t. Inr (tester_execute t cx))),
     ag_executeStep = Some (\<lambda>n rq cx observations. with_task rq (\<lambda>t. tester_step t cx observations)),
     ag_validate = None \<rparr>"


section \<open>A decision and its text\<close>

text \<open>The JSON value of a decision, as the schema of the request describes it.\<close>

definition render_decision :: "coder_decision \<Rightarrow> json" where
  "render_decision d = (case d of
     Request_Tool t r i \<Rightarrow> JObj [(''action'', JStr ''request_tool''), (''toolName'', JStr (tool_name_text t)), (''rationale'', JStr r), (''input'', JObj i)]
   | Final_Decision ch s files es r \<Rightarrow> JObj ([(''action'', JStr ''final_output''), (''changed'', JBool ch), (''summary'', JStr s),
       (''changedFiles'', JArr (map JStr files)), (''evidence'', JArr (map evidence_json es))]
       @ (case r of None \<Rightarrow> [] | Some x \<Rightarrow> [(''noOpReason'', JStr x)])))"

definition well_formed :: "coder_decision \<Rightarrow> bool" where
  "well_formed d = (case d of
     Request_Tool t r i \<Rightarrow> \<not> blank r
   | Final_Decision ch s files es r \<Rightarrow> \<not> blank s \<and> list_all (\<lambda>e. \<not> blank (ce_description e)) es
       \<and> (case r of None \<Rightarrow> ch | Some x \<Rightarrow> \<not> blank x))"

lemma tool_named_text: "tool_named (JStr (tool_name_text t)) = Some t"
  by (cases t) (simp_all add: tool_named_def all_tools_def)

lemma evidence_type_named_text: "evidence_type_named (JStr (evidence_type_text t)) = Some t"
  by (cases t) (simp_all add: evidence_type_named_def)

lemma as_texts_render: "as_texts (JArr (map JStr xs)) = Some xs"
  by (simp add: as_texts_def list_all_iff comp_def)

lemma parse_evidence_render: "\<not> blank (ce_description e) \<Longrightarrow> parse_evidence (evidence_json e) = Some e"
  by (cases e) (simp add: parse_evidence_def evidence_json_def jget_def evidence_type_named_text split: option.split)

lemma parse_evidences_render: "list_all (\<lambda>e. \<not> blank (ce_description e)) es \<Longrightarrow> parse_evidences (JArr (map evidence_json es)) = Some es"
  by (induction es) (auto simp: parse_evidences_def parse_evidence_render split: if_splits)

lemma parse_rendered: "well_formed d \<Longrightarrow> parseProductionCoderDecision (render_decision d) = Inr d"
  by (cases d) (auto simp: well_formed_def render_decision_def parseProductionCoderDecision_def parse_request_def parse_final_def
      jget_def solid_def tool_named_text as_texts_render parse_evidences_render split: option.splits)

lemma parsed_evidence_solid: "parse_evidence v = Some e \<Longrightarrow> \<not> blank (ce_description e)"
  by (auto simp: parse_evidence_def split: option.splits json.splits if_splits)

lemma parsed_evidences_solid: "parse_evidences v = Some es \<Longrightarrow> list_all (\<lambda>e. \<not> blank (ce_description e)) es"
  using parsed_evidence_solid by (fastforce simp: parse_evidences_def list_all_iff split: json.splits if_splits)

lemma solid_text_of: "solid v \<Longrightarrow> \<exists>s. v = JStr s \<and> \<not> blank s"
  by (cases v) (simp_all add: solid_def)

lemma parsed_well_formed: "parseProductionCoderDecision v = Inr d \<Longrightarrow> well_formed d"
  by (auto simp: parseProductionCoderDecision_def parse_request_def parse_final_def well_formed_def
      dest!: solid_text_of parsed_evidences_solid split: option.splits if_splits json.splits)

lemma parse_errors: "parseProductionCoderDecision v = Inl e \<Longrightarrow> error_class e = WorkflowPolicyError"
  by (auto simp: parseProductionCoderDecision_def parse_request_def parse_final_def coder_error_def
      split: option.splits if_splits json.splits)

text \<open>A parsed final answer can still be refused by the registry: the parser lets a change without evidence or files pass.\<close>

lemma final_answer_accepted:
  assumes "well_formed (Final_Decision ch s files es r)"
  shows "role_result_issues Coder (makeFinalResponse t (code_output ch s files es r)) = [] \<longleftrightarrow> (if ch then es \<noteq> [] \<and> files \<noteq> [] else True)"
  using assms by (auto simp: role_result_issues_def validateRoleResponse_def makeFinalResponse_def makeResponse_def code_output_def
      validateCodeExecutionOutput_ok no_op_explained_def well_formed_def when_truthy_def truthy_def is_space_def split: option.splits)

text \<open>C28. What the coder's answer parses to. Every well-formed decision is parsed back from its JSON value, and only
  well-formed decisions are parsed, so a parsed decision survives being written out and parsed again; anything else is
  a workflow policy error. A parsed final answer is accepted by the registry exactly when a change comes with
  evidence and with changed files, which the parser does not ask for.\<close>

theorem coder_decision_round_trip:
  "(parseProductionCoderDecision (render_decision d) = Inr d \<longleftrightarrow> well_formed d)
   \<and> (case parseProductionCoderDecision v of
        Inl e \<Rightarrow> error_class e = WorkflowPolicyError
      | Inr d' \<Rightarrow> parseProductionCoderDecision (render_decision d') = Inr d'
          \<and> (case d' of Request_Tool _ r _ \<Rightarrow> \<not> blank r
             | Final_Decision ch s files es r \<Rightarrow>
                 (role_result_issues Coder (makeFinalResponse t (code_output ch s files es r)) = []
                    \<longleftrightarrow> (if ch then es \<noteq> [] \<and> files \<noteq> [] else True))))"
proof
  show "parseProductionCoderDecision (render_decision d) = Inr d \<longleftrightarrow> well_formed d"
    using parse_rendered parsed_well_formed by blast
  show "case parseProductionCoderDecision v of
        Inl e \<Rightarrow> error_class e = WorkflowPolicyError
      | Inr d' \<Rightarrow> parseProductionCoderDecision (render_decision d') = Inr d'
          \<and> (case d' of Request_Tool _ r _ \<Rightarrow> \<not> blank r
             | Final_Decision ch s files es r \<Rightarrow>
                 (role_result_issues Coder (makeFinalResponse t (code_output ch s files es r)) = []
                    \<longleftrightarrow> (if ch then es \<noteq> [] \<and> files \<noteq> [] else True)))"
  proof (cases "parseProductionCoderDecision v")
    case (Inr d')
    then have wf: "well_formed d'" by (rule parsed_well_formed)
    then show ?thesis
      using Inr parse_rendered[OF wf] final_answer_accepted
      by (cases d') (simp_all add: well_formed_def[of "Request_Tool _ _ _"])
  qed (simp add: parse_errors)
qed


section \<open>What the tester's answers mean\<close>

text \<open>A stage has passed when its observation is of a tool that succeeded and reports \<open>ok\<close>.\<close>

definition stage_passed :: "observation \<Rightarrow> bool" where
  "stage_passed o1 = (ob_ok o1 \<and> (case member (ob_output o1) ''ok'' of Inl e \<Rightarrow> False | Inr v \<Rightarrow> json_truthy v))"

lemma stage_status:
  "stageResultFromObservation s (Some o1) = Inr r \<Longrightarrow> qs_stage r = s \<and> (qs_status r = Passing \<longleftrightarrow> stage_passed o1)"
  by (auto simp: stageResultFromObservation_def failing_stage_def stage_passed_def split: if_splits sum.splits)

lemma buildTestResult_passed: "isTestPassed (buildTestResult t (Some stages)) \<longleftrightarrow> list_all (\<lambda>r. qs_status r = Passing) stages"
proof -
  have "(qs_status r = Failing) = (qs_status r \<noteq> Passing)" for r by (cases "qs_status r") simp_all
  then show ?thesis by (auto simp: isTestPassed_def buildTestResult_def Let_def filter_empty_conv list_all_iff)
qed

lemma observed_four:
  assumes "observed_stages [a, b, c, d] = Inr stages"
  shows "map qs_stage stages = QUALITY_GATE_STAGES" "list_all (\<lambda>r. qs_status r = Passing) stages \<longleftrightarrow> list_all stage_passed [a, b, c, d]"
  using assms stage_status
  by (auto simp: observed_stages_def QUALITY_GATE_STAGES_def nth_option_def split: sum.splits)

lemma tooling_step:
  assumes "\<not> synthetic_gate cx" "buildSyntheticQualityStages t = None"
  shows "tester_step t cx obs =
    (if length obs < 4 then Inr (Tool_Requested (stage_request cx (QUALITY_GATE_STAGES ! length obs)))
     else (case observed_stages obs of Inl e \<Rightarrow> Inl e | Inr stages \<Rightarrow> Inr (Final_Output (test_response t (''Tested '' @ task_id t) stages))))"
  using assms by (simp add: tester_step_def Let_def QUALITY_GATE_STAGES_def)

text \<open>\<open>gives m Q\<close>: whatever \<open>m\<close> returns satisfies \<open>Q\<close>, wherever it starts.\<close>

definition gives :: "'a run \<Rightarrow> ('a \<Rightarrow> bool) \<Rightarrow> bool" where
  "gives m Q = (\<forall>w. wp m (\<lambda>x _. Q x) (\<lambda>_ _. True) w)"

lemma gives_bind: "gives m P \<Longrightarrow> (\<And>x. P x \<Longrightarrow> gives (f x) Q) \<Longrightarrow> gives (bindA m f) Q"
  by (auto simp: gives_def wp_bindA intro: wp_mono[where Q = "\<lambda>x _. P x" and E = "\<lambda>_ _. True"])

lemma gives_true: "gives m (\<lambda>_. True)"
  by (simp add: gives_def wp_true)

lemma gives_after: "(\<And>x. gives (f x) Q) \<Longrightarrow> gives (bindA m f) Q"
  by (rule gives_bind[OF gives_true])

lemma gives_then: "gives k Q \<Longrightarrow> gives (thenA m k) Q"
  unfolding thenA_def by (rule gives_after)

lemma gives_ret: "Q x \<Longrightarrow> gives (ret x) Q"
  by (simp add: gives_def wp_ret)

lemma gives_throw: "gives (throw e) Q"
  by (simp add: gives_def wp_throw)

lemma gives_liftA: "(\<And>x. r = Inr x \<Longrightarrow> Q x) \<Longrightarrow> gives (liftA r) Q"
  by (auto simp: gives_def wp_liftA split: sum.splits)

lemma gives_catch: "gives m Q \<Longrightarrow> (\<And>e. gives (h e) Q) \<Longrightarrow> gives (catchA m h) Q"
  by (auto simp: gives_def wp_catchA intro: wp_mono[where Q = "\<lambda>x _. Q x" and E = "\<lambda>_ _. True"])

lemma gives_unless: "(\<not> b \<Longrightarrow> gives m Q) \<Longrightarrow> gives (if b then throw e else m) Q"
  by (simp add: gives_throw)

lemma gives_outside: "(\<And>n. Q (f n)) \<Longrightarrow> gives (outside e f) Q"
  by (simp add: gives_def wp_def outside_def)

lemma gives_runWithTimeout: "gives m (\<lambda>x. case x of Settled (Inr y) \<Rightarrow> Q y | _ \<Rightarrow> True) \<Longrightarrow> gives (runWithTimeout ev rn cx msg m) Q"
  unfolding runWithTimeout_def
  by (rule gives_after, rule gives_unless, erule gives_bind) (auto intro!: gives_throw gives_liftA split: raced.splits sum.splits)

text \<open>An observation of a stage that claims success is what a run of the stage's command returned.\<close>

definition stage_ran :: "runner \<Rightarrow> role_execution_context \<Rightarrow> quality_stage \<Rightarrow> json \<Rightarrow> bool" where
  "stage_ran rn cx s out = (\<exists>n. rn_tools rn n Testing_Run (tr_input (stage_request cx s)) (cx_toolExecution cx) = Settled (Inr (Inr out)))"

definition observed :: "runner \<Rightarrow> role_execution_context \<Rightarrow> quality_stage \<Rightarrow> observation \<Rightarrow> bool" where
  "observed rn cx s o1 = (\<not> ob_ok o1 \<or> stage_ran rn cx s (ob_output o1))"

lemma executeTool_ran:
  "gives (runWithTimeout ev rn cx m (executeTool ev rn cx (stage_request cx s))) (stage_ran rn cx s)"
  unfolding executeTool_def
  by (rule gives_runWithTimeout, rule gives_then,
      rule gives_bind[OF gives_outside[where Q = "\<lambda>x. case tool_outcome Testing_Run x of Settled (Inr out) \<Rightarrow> stage_ran rn cx s out | _ \<Rightarrow> True"]])
    (auto simp: tool_outcome_def stage_ran_def stage_request_def intro!: gives_ret split: raced.splits sum.splits)

lemma invoke_observed: "gives (invokeToolRequest ev rn cx role step (stage_request cx s)) (observed rn cx s)"
  unfolding invokeToolRequest_def
  by (rule gives_after, rule gives_after, rule gives_catch, rule gives_bind[OF executeTool_ran])
    (auto intro!: gives_after gives_then gives_ret simp: observed_def)

lemma tool_step_observed: "gives (tool_step ev rn cx ag step (stage_request cx s)) (observed rn cx s)"
  unfolding tool_step_def Let_def
  by (rule gives_then, rule gives_bind[OF invoke_observed]) (intro gives_then gives_ret)

abbreviation tester_calls :: "nat \<Rightarrow> role_request \<Rightarrow> role_execution_context \<Rightarrow> observation list \<Rightarrow> step_result raced" where
  "tester_calls \<equiv> \<lambda>n rq cx observations. with_task rq (\<lambda>t. tester_step t cx observations)"

text \<open>\<open>r\<close> judges four observations, one per stage in order, that begin with \<open>obs\<close>, and \<open>left\<close> steps were enough for it.\<close>

definition judged :: "runner \<Rightarrow> role_execution_context \<Rightarrow> task \<Rightarrow> observation list \<Rightarrow> nat \<Rightarrow> role_output role_response \<Rightarrow> bool" where
  "judged rn cx t obs left r = (4 < length obs + left \<and> (\<exists>more stages. 
     list_all2 (observed rn cx) QUALITY_GATE_STAGES (obs @ more)
     \<and> observed_stages (obs @ more) = Inr stages \<and> r = test_response t (''Tested '' @ task_id t) stages))"

lemma judged_more: "judged rn cx t (obs @ [ob]) left r \<Longrightarrow> judged rn cx t obs (Suc left) r"
proof -
  assume "judged rn cx t (obs @ [ob]) left r"
  then obtain more stages where m: "4 < length (obs @ [ob]) + left" "list_all2 (observed rn cx) QUALITY_GATE_STAGES (obs @ ob # more)"
      "observed_stages (obs @ ob # more) = Inr stages" "r = test_response t (''Tested '' @ task_id t) stages"
    unfolding judged_def by auto
  have "4 < length obs + Suc left" using m(1) by simp
  then show ?thesis unfolding judged_def using m(2-4) by blast
qed

lemma observed_next:
  assumes "list_all2 (observed rn cx) (take (length obs) QUALITY_GATE_STAGES) obs" "length obs < 4"
    and "observed rn cx (QUALITY_GATE_STAGES ! length obs) ob"
  shows "list_all2 (observed rn cx) (take (length (obs @ [ob])) QUALITY_GATE_STAGES) (obs @ [ob])"
proof -
  have "length obs < length QUALITY_GATE_STAGES" using assms(2) by (simp add: QUALITY_GATE_STAGES_def)
  then show ?thesis using assms(1,3) by (simp add: take_Suc_conv_app_nth list_all2_appendI)
qed

lemma role_loop_tester:
  assumes "input_task (rq_input rq) = Inr t" "\<not> synthetic_gate cx" "buildSyntheticQualityStages t = None"
  shows "list_all2 (observed rn cx) (take (length obs) QUALITY_GATE_STAGES) obs \<Longrightarrow>
    gives (role_loop ev rn cx ag rq tester_calls started left step obs) (judged rn cx t obs left)"
proof (induction left arbitrary: step obs)
  case (Suc left)
  let ?rest = "\<lambda>x. case x of Final_Output resp \<Rightarrow> ret resp | Tool_Requested tr \<Rightarrow> bindA (tool_step ev rn cx ag step tr) (\<lambda>ob.
        role_loop ev rn cx ag rq tester_calls started left (step + 1) (obs @ [ob]))"
  have next_step: "gives (agent_step ev rn cx ag rq tester_calls step obs) (\<lambda>x. tester_step t cx obs = Inr x)"
    unfolding agent_step_def by (rule gives_runWithTimeout, rule gives_outside) (simp add: with_task_def assms(1) split: sum.split)
  have finish: "gives (?rest x) (judged rn cx t obs (Suc left))" if x: "tester_step t cx obs = Inr x" for x
  proof (cases "length obs < 4")
    case True
    then have tr: "x = Tool_Requested (stage_request cx (QUALITY_GATE_STAGES ! length obs))"
      using x by (simp add: tooling_step[OF assms(2,3)])
    have go_on: "gives (role_loop ev rn cx ag rq tester_calls started left (step + 1) (obs @ [ob])) (judged rn cx t obs (Suc left))"
      if "observed rn cx (QUALITY_GATE_STAGES ! length obs) ob" for ob
    proof -
      have "gives (role_loop ev rn cx ag rq tester_calls started left (step + 1) (obs @ [ob])) (judged rn cx t (obs @ [ob]) left)"
        by (rule Suc.IH, rule observed_next[OF Suc.prems True that])
      then show ?thesis unfolding gives_def by (auto intro: wp_mono judged_more)
    qed
    show ?thesis unfolding tr step_result.case by (rule gives_bind[OF tool_step_observed go_on])
  next
    case False
    have len: "length (take (length obs) QUALITY_GATE_STAGES) = length obs" using Suc.prems by (rule list_all2_lengthD)
    then have four: "length obs = 4" using False by (simp add: QUALITY_GATE_STAGES_def)
    have all: "list_all2 (observed rn cx) QUALITY_GATE_STAGES obs" using Suc.prems four by (simp add: QUALITY_GATE_STAGES_def)
    obtain stages where "observed_stages obs = Inr stages" "x = Final_Output (test_response t (''Tested '' @ task_id t) stages)"
      using x False by (auto simp: tooling_step[OF assms(2,3)] split: sum.splits)
    then have "judged rn cx t obs (Suc left) (test_response t (''Tested '' @ task_id t) stages)"
      unfolding judged_def using four all by (intro conjI exI[of _ "[]"] exI[of _ stages]) simp_all
    then show ?thesis using \<open>x = _\<close> by (simp add: gives_ret)
  qed
  show ?case
    unfolding role_loop.simps by (rule gives_after gives_unless gives_bind[OF next_step finish] | assumption)+
qed (simp add: gives_throw)

end
