(* ===== verification/Tester_Contract.thy ===== *)
theory Tester_Contract
  imports Code_Roles Sample_Run
begin

text \<open>
  The tester in the action loop of the role runner: what a passing test means for the commands that were run, and how many steps
  the loop needs for it.
\<close>

definition reports_ok :: "json \<Rightarrow> bool" where
  "reports_ok out = (case member out ''ok'' of Inl e \<Rightarrow> False | Inr v \<Rightarrow> json_truthy v)"

lemma passed_stages_ran:
  assumes "list_all2 (observed rn cx) QUALITY_GATE_STAGES obs" "list_all stage_passed obs"
  shows "\<forall>s. \<exists>out. stage_ran rn cx s out \<and> reports_ok out"
proof
  fix s
  have "s \<in> set QUALITY_GATE_STAGES" by (cases s) (simp_all add: QUALITY_GATE_STAGES_def)
  then obtain i where "i < length QUALITY_GATE_STAGES" "QUALITY_GATE_STAGES ! i = s" by (auto simp: in_set_conv_nth)
  then have "observed rn cx s (obs ! i)" "stage_passed (obs ! i)"
    using assms by (auto simp: list_all2_conv_all_nth list_all_length)
  then show "\<exists>out. stage_ran rn cx s out \<and> reports_ok out"
    by (auto simp: observed_def stage_passed_def reports_ok_def)
qed

lemma judged_verdict:
  assumes "judged rn cx t [] left r"
  shows "4 < left" "\<exists>obs res. list_all2 (observed rn cx) QUALITY_GATE_STAGES obs \<and> resp_output r = Out_Test res \<and>
     (isTestPassed res \<longleftrightarrow> list_all stage_passed obs)"
proof -
  show "4 < left" using assms by (simp add: judged_def)
  obtain obs stages where j: "list_all2 (observed rn cx) QUALITY_GATE_STAGES obs" "observed_stages obs = Inr stages"
      "r = test_response t (''Tested '' @ task_id t) stages"
    using assms by (auto simp: judged_def)
  have "length obs = 4" using list_all2_lengthD[OF j(1)] by (simp add: QUALITY_GATE_STAGES_def)
  then obtain a b c d where "obs = [a, b, c, d]" by (auto simp: length_Suc_conv eval_nat_numeral)
  then have "list_all (\<lambda>r. qs_status r = Passing) stages \<longleftrightarrow> list_all stage_passed obs"
    using observed_four(2) j(2) by blast
  then show "\<exists>obs res. list_all2 (observed rn cx) QUALITY_GATE_STAGES obs \<and> resp_output r = Out_Test res \<and>
     (isTestPassed res \<longleftrightarrow> list_all stage_passed obs)"
    using j(1,3) by (intro exI[of _ obs] exI[of _ "buildTestResult t (Some stages)"])
      (simp add: test_response_def makeResponse_def buildTestResult_passed)
qed

text \<open>C29. A passing test means that the four quality stages ran and succeeded. When the quality gate runs tools (it is not
  synthetic and the task has no failure marker) and the tester's action loop returns, the loop was allowed at least five steps, its
  answer is a test result, and the test passed only if for every stage the command \<open>run <stage>\<close> was given to
  the testing tool in the task's workspace and reported \<open>ok\<close>. With fewer steps the loop always throws.\<close>

theorem passing_test_ran_every_stage:
  assumes "input_task (rq_input rq) = Inr t" "\<not> synthetic_gate cx" "buildSyntheticQualityStages t = None"
    and "executeRoleWithLoop ev rn cx tester_agent rq w = (Inr r, w')"
  shows "4 < stepLimit rn \<and> (\<exists>res. resp_output r = Out_Test res \<and>
     (isTestPassed res \<longrightarrow> (\<forall>s. \<exists>out. stage_ran rn cx s out \<and> reports_ok out)))"
proof -
  have "gives (executeRoleWithLoop ev rn cx tester_agent rq) (judged rn cx t [] (stepLimit rn))"
    unfolding executeRoleWithLoop_def tester_agent_def agent.simps option.case
    by (rule gives_after, rule role_loop_tester[OF assms(1-3)]) simp
  then have "judged rn cx t [] (stepLimit rn) r" using assms(4) by (auto simp: gives_def wp_def dest: spec[of _ w])
  from judged_verdict[OF this] show ?thesis using passed_stages_ran by blast
qed

text \<open>The hypotheses hold in the sample world with a runner whose tools always report \<open>ok\<close>.\<close>

definition green_runner :: runner where
  "green_runner = open_runner\<lparr> rn_maxStepsPerRun := 5, rn_tools := (\<lambda>_ _ _ _. Settled (Inr (Inr (JObj [(''ok'', JBool True)])))) \<rparr>"

definition green_request :: role_request where
  "green_request = \<lparr> rq_role = Tester, rq_objective = ''o'', rq_input = In_Result sample_t2 (Out_Code sample_code), rq_acceptanceCriteria = [] \<rparr>"

definition gate_context :: role_execution_context where
  "gate_context = sample_context\<lparr>cx_role := Tester\<rparr>"

lemma gate_context_simps: "cx_abortSignal gate_context = None" "cx_runId gate_context = ''r''" "\<not> synthetic_gate gate_context"
  by (simp_all add: gate_context_def sample_context_def synthetic_gate_def)

lemma gate_recordable: "0 \<le> d \<Longrightarrow> recordable (tool_record gate_context role rq out st d)"
  by (simp add: recordable_def tool_record_def gate_context_def sample_context_def)

lemma goes_not_aborted: "goes p (is_aborted green_runner gate_context) (\<lambda>b. \<not> b)"
  by (simp add: goes_def is_aborted_def gate_context_simps wp_simps)

lemma fitting_free: "fitting p w \<Longrightarrow> gd_lease (wd_guard w) = None"
  by (simp add: fitting_def ready_changes)

definition green :: "observation \<Rightarrow> bool" where
  "green ob = (ob_ok ob \<and> ob_output ob = JObj [(''ok'', JBool True)])"

lemma goes_invoke: "goes p (invokeToolRequest sample_env green_runner gate_context role step rq) green"
  unfolding goes_def
proof (intro allI impI)
  fix w assume w: "fitting p w"
  let ?out = "JObj [(''ok'', JBool True)]"
  let ?u = "w\<lparr>wd_tick := Suc (Suc (Suc (Suc (wd_tick w)))), wd_effects := wd_effects w @ [Eff_Tool (tr_toolName rq)]\<rparr>"
  have call: "runWithTimeout sample_env green_runner gate_context m (executeTool sample_env green_runner gate_context rq) (w\<lparr>wd_tick := Suc (Suc (wd_tick w))\<rparr>)
    = (Inr ?out, ?u)" for m
    using fitting_free[OF w]
    by (simp add: runWithTimeout_def is_aborted_def executeTool_def thenA_def bindA_def getA_def require_valid_def requireLease_def clock_def
      in_guard_def outside_def ret_def liftA_def tool_outcome_def gate_context_simps green_runner_def)
  have rec: "wp (record_step sample_env (tool_record gate_context role rq out st d)) (\<lambda>_. fitting p) (\<lambda>_ _. False) u"
    if "fitting p u" "0 \<le> d" for u out st d
    using goesD[OF goes_record_step[OF gate_recordable[OF that(2)]] that(1)] by (simp add: wp_def split: prod.splits sum.splits)
  have est: "\<exists>x. estimateObservationTokens ?out = Inr x" by (simp add: estimateObservationTokens_def)
  have u: "fitting p (w\<lparr>wd_effects := wd_effects w @ [Eff_Tool (tr_toolName rq)], wd_tick := Suc (Suc (Suc (Suc (Suc (wd_tick w)))))\<rparr>)"
    by (rule fitting_tick) (simp_all add: fitting_changes w)
  show "wp (invokeToolRequest sample_env green_runner gate_context role step rq) (\<lambda>x u. green x \<and> fitting p u) (\<lambda>_ _. False) w"
    using est unfolding invokeToolRequest_def wp_bindA wp_catchA wp_clock wp_sample_date
    by (simp add: wp_def[of "runWithTimeout _ _ _ _ _"] call) (auto simp: wp_simps wp_sample_date green_def intro!: wp_mono[OF rec] u)
qed

lemma goes_tool_step: "goes p (tool_step sample_env green_runner gate_context ag step rq) green"
  unfolding tool_step_def Let_def
  by (rule goes_then[OF goes_event], rule goes_bind[OF goes_invoke], rule goes_then[OF goes_event])
    (simp add: green_runner_def open_runner_def, auto intro!: goes_then[where P = "\<lambda>_. True"] goes_ret simp: whenA_def)

lemma green_stage: "green ob \<Longrightarrow> \<exists>r. stageResultFromObservation s (Some ob) = Inr r"
  by (simp add: stageResultFromObservation_def green_def member_def jget_def)

lemma green_stages: "list_all green obs \<Longrightarrow> length obs = 4 \<Longrightarrow> \<exists>stages. observed_stages obs = Inr stages"
proof -
  assume g: "list_all green obs" "length obs = 4"
  then obtain a b c d where o: "obs = [a, b, c, d]" by (auto simp: length_Suc_conv eval_nat_numeral)
  then obtain ra rb rc rd where "stageResultFromObservation Build_Stage (Some a) = Inr ra" "stageResultFromObservation Lint_Stage (Some b) = Inr rb"
    "stageResultFromObservation Typecheck_Stage (Some c) = Inr rc" "stageResultFromObservation Test_Stage (Some d) = Inr rd"
    using g green_stage by (metis list.pred_inject(2))
  then show ?thesis by (simp add: o observed_stages_def QUALITY_GATE_STAGES_def nth_option_def)
qed

lemma green_synthetic: "buildSyntheticQualityStages sample_t2 = None"
  by (simp add: buildSyntheticQualityStages_def QUALITY_GATE_STAGES_def marked_def sample_task_def fail_marker_def
      to_lower_def lower_char_def)

lemma goes_agent_step:
  assumes "tester_step sample_t2 gate_context obs = Inr x"
  shows "goes p (agent_step sample_env green_runner gate_context tester_agent green_request tester_calls step obs) (\<lambda>y. y = x)"
  using assms
  by (simp add: goes_def agent_step_def runWithTimeout_def is_aborted_def gate_context_simps wp_simps wp_outside_call with_task_def green_request_def
      input_task_def fitting_changes fitting_tick)

lemma goes_loop: "list_all green obs \<Longrightarrow> length obs \<le> 4 \<Longrightarrow> 4 < length obs + left \<Longrightarrow>
   goes p (role_loop sample_env green_runner gate_context tester_agent green_request tester_calls started left step obs) (\<lambda>_. True)"
proof (induction left arbitrary: step obs)
  case (Suc left)
  have wall: "rn_maxRoleWallTimeMs green_runner = None" by (simp add: green_runner_def open_runner_def)
  obtain x where x: "tester_step sample_t2 gate_context obs = Inr x"
    and go: "goes p (case x of Final_Output resp \<Rightarrow> ret resp
        | Tool_Requested tr \<Rightarrow> bindA (tool_step sample_env green_runner gate_context tester_agent step tr) (\<lambda>ob.
            role_loop sample_env green_runner gate_context tester_agent green_request tester_calls started left (step + 1) (obs @ [ob]))) (\<lambda>_. True)"
  proof (cases "length obs < 4")
    case True
    then have "tester_step sample_t2 gate_context obs = Inr (Tool_Requested (stage_request gate_context (QUALITY_GATE_STAGES ! length obs)))"
      by (simp add: tooling_step[OF gate_context_simps(3) green_synthetic])
    then show ?thesis by (rule that) (use Suc True in \<open>auto intro!: goes_bind[OF goes_tool_step] Suc.IH\<close>)
  next
    case False
    then obtain stages where "observed_stages obs = Inr stages" using green_stages Suc.prems by (metis le_neq_implies_less)
    then have "tester_step sample_t2 gate_context obs = Inr (Final_Output (test_response sample_t2 (''Tested '' @ task_id sample_t2) stages))"
      using False by (simp add: tooling_step[OF gate_context_simps(3) green_synthetic])
    then show ?thesis by (rule that) (simp add: goes_ret)
  qed
  show ?case
    unfolding role_loop.simps wall option.case if_False
    by (rule goes_bind[OF goes_draws(3)], rule goes_bind[OF goes_not_aborted],
        subst if_not_P, assumption, rule goes_bind_eq, rule goes_agent_step[OF x], rule go)
qed simp

lemma passing_test_ran_every_stage_witness:
  "\<exists>r w'. executeRoleWithLoop sample_env green_runner gate_context tester_agent green_request sample_world = (Inr r, w') \<and>
     (\<exists>res. resp_output r = Out_Test res)"
proof -
  have limit: "stepLimit green_runner = 5" by (simp add: stepLimit_def green_runner_def open_runner_def or_default_def)
  have "goes open_plan (executeRoleWithLoop sample_env green_runner gate_context tester_agent green_request) (\<lambda>_. True)"
    unfolding executeRoleWithLoop_def tester_agent_def agent.simps option.case
    by (rule goes_bind[OF goes_draws(3)], fold tester_agent_def, rule goes_loop) (simp_all add: limit)
  from goesD[OF this fitting_sample] obtain r w' where
    r: "executeRoleWithLoop sample_env green_runner gate_context tester_agent green_request sample_world = (Inr r, w')"
    by (cases "executeRoleWithLoop sample_env green_runner gate_context tester_agent green_request sample_world"
        rule: prod.exhaust[case_product sum.exhaust]) (auto simp: wp_def split: sum.splits)
  have "input_task (rq_input green_request) = Inr sample_t2" by (simp add: green_request_def input_task_def)
  from passing_test_ran_every_stage[OF this gate_context_simps(3) green_synthetic r] show ?thesis using r by blast
qed

end
