(* ===== verification/Approvals.thy ===== *)
theory Approvals
  imports Project_Services Git_Lifecycle
begin

text \<open>
  Approval requests after git has asked for them: the service that lists and decides them
  (\<open>packages/application/src/approval-gate-service.ts\<close>), the routing of a request to its approvers, its reminders and
  escalations (\<open>packages/application/src/approval\<close>), and the strict schema of a request
  (\<open>packages/core/src/approval/approval-request.ts\<close>). The service works on the plain store, as the other services do.
\<close>

section \<open>The strict schema\<close>

definition stamp_given :: "stamp option \<Rightarrow> bool" where
  "stamp_given x = (case x of None \<Rightarrow> False | Some s \<Rightarrow> stamp_text s \<noteq> [])"

definition text_given :: "string option \<Rightarrow> bool" where
  "text_given x = (case x of None \<Rightarrow> False | Some s \<Rightarrow> s \<noteq> [])"

text \<open>The issues \<open>superRefine\<close> adds.\<close>

definition status_evidence_issues :: "approval \<Rightarrow> string list" where
  "status_evidence_issues a =
     (if ar_status a = Approval_Approved \<and> (\<not> stamp_given (ar_approvedAt a) \<or> \<not> text_given (ar_approvedBy a))
      then [''approved status requires approvedAt and approvedBy''] else [])
   @ (if ar_status a = Approval_Rejected \<and> (\<not> stamp_given (ar_rejectedAt a) \<or> \<not> text_given (ar_rejectedBy a) \<or> \<not> text_given (ar_rejectionReason a))
      then [''rejected status requires rejectedAt, rejectedBy and rejectionReason''] else [])
   @ (if ar_status a = Approval_Resumed \<and> (\<not> stamp_given (ar_resumedAt a) \<or> \<not> text_given (ar_resumedBy a))
      then [''resumed status requires resumedAt and resumedBy''] else [])
   @ (if ar_status a = Approval_Completed \<and> \<not> stamp_given (ar_completedAt a)
      then [''completed status requires completedAt''] else [])"

definition immutableApprovalRequestSchema :: "(stamp \<Rightarrow> bool) \<Rightarrow> approval \<Rightarrow> bool" where
  "immutableApprovalRequestSchema dt a =
     (min1 (ar_id a) \<and> min1 (ar_run a) \<and> min1 (ar_task a) \<and> min1 (ar_reason a) \<and> dt (ar_created a)
      \<and> opt_iso dt (ar_approvedAt a) \<and> opt_min1 (ar_approvedBy a) \<and> opt_iso dt (ar_rejectedAt a) \<and> opt_min1 (ar_rejectedBy a)
      \<and> opt_min1 (ar_rejectionReason a) \<and> opt_iso dt (ar_resumedAt a) \<and> opt_min1 (ar_resumedBy a) \<and> opt_iso dt (ar_completedAt a)
      \<and> status_evidence_issues a = [])"

section \<open>Routing\<close>

record routing_rule =
  ru_action :: approval_action
  ru_approvers :: string
  ru_escalation :: "string option"

record approval_route =
  rt_approval :: string
  rt_run :: string
  rt_task :: string
  rt_action :: approval_action
  rt_approvers :: string
  rt_escalation :: "string option"

abbreviation rule :: "approval_action \<Rightarrow> string \<Rightarrow> string option \<Rightarrow> routing_rule" where
  "rule a g e \<equiv> \<lparr> ru_action = a, ru_approvers = g, ru_escalation = e \<rparr>"

definition defaultRoutingRules :: "routing_rule list" where
  "defaultRoutingRules =
     [rule Appr_Git_Push ''release-managers'' (Some ''platform-owners''),
      rule Appr_Pr_Draft ''release-managers'' None,
      rule Appr_Db_Migration ''db-owners'' (Some ''platform-owners''),
      rule Appr_File_Delete ''code-owners'' (Some ''platform-owners''),
      rule Appr_Api_Breaking_Change ''architecture-board'' (Some ''platform-owners''),
      rule Appr_Dependency_Bump ''security-reviewers'' None,
      rule Appr_Security_Auth_Change ''security-reviewers'' (Some ''security-incident-command''),
      rule Appr_Production_Config_Change ''sre-oncall'' (Some ''platform-owners''),
      rule Appr_Bulk_File_Change ''code-owners'' (Some ''release-managers'')]"

definition fallbackRule :: routing_rule where
  "fallbackRule = rule Appr_Bulk_File_Change ''release-managers'' None"

text \<open>\<open>new Map(rules.map(...))\<close>: the last rule of an action counts.\<close>

definition rule_for :: "routing_rule list \<Rightarrow> approval_action \<Rightarrow> routing_rule option" where
  "rule_for rules a = find (\<lambda>r. ru_action r = a) (rev rules)"

definition route_request :: "routing_rule list \<Rightarrow> routing_rule \<Rightarrow> approval \<Rightarrow> approval_route \<times> bool" where
  "route_request rules fallback q =
     (let r = rule_for rules (ar_action q); selected = or_default r fallback
      in (\<lparr> rt_approval = ar_id q, rt_run = ar_run q, rt_task = ar_task q, rt_action = ar_action q,
            rt_approvers = ru_approvers selected, rt_escalation = when_truthy (ru_escalation selected) \<rparr>, r = None))"

section \<open>Reminders and escalations\<close>

record sla_policy =
  sla_reminderAfterMs :: int
  sla_escalateAfterMs :: int

record sla_decision =
  sd_approval :: string
  sd_age :: "int option"
  sd_reminder :: bool
  sd_escalation :: bool

text \<open>The age is \<open>NaN\<close>, here \<open>None\<close>, when the creation time is not a date; every comparison with it is false.\<close>

definition age_ms :: "int \<Rightarrow> stamp \<Rightarrow> int option" where
  "age_ms now created = map_option (\<lambda>c. max 0 (now - c)) (date_ms created)"

definition at_least :: "int option \<Rightarrow> int \<Rightarrow> bool" where
  "at_least age n = (case age of None \<Rightarrow> False | Some a \<Rightarrow> n \<le> a)"

definition evaluatePending :: "sla_policy \<Rightarrow> int \<Rightarrow> approval \<Rightarrow> sla_decision" where
  "evaluatePending p now q =
     (let age = age_ms now (ar_created q);
          escalate = (ar_status q = Approval_Pending \<and> at_least age (sla_escalateAfterMs p));
          remind = (ar_status q = Approval_Pending \<and> at_least age (sla_reminderAfterMs p) \<and> \<not> escalate)
      in \<lparr> sd_approval = ar_id q, sd_age = age, sd_reminder = remind, sd_escalation = escalate \<rparr>)"

text \<open>Each evaluation reads the clock again; \<open>clk\<close> gives the instant of each read.\<close>

definition findDue :: "sla_policy \<Rightarrow> (nat \<Rightarrow> int) \<Rightarrow> approval list \<Rightarrow> sla_decision list \<times> sla_decision list" where
  "findDue p clk qs = (let ds = map (\<lambda>(i, q). evaluatePending p (clk i) q) (enumerate 0 qs)
     in (filter sd_reminder ds, filter sd_escalation ds))"

section \<open>The service\<close>

record links =
  lk_policyDecision :: "string option"
  lk_evidence :: "string option"

definition list_approvals :: "env \<Rightarrow> approval_status option \<Rightarrow> approval list svc" where
  "list_approvals ev status = bindA (on_app load) (\<lambda>s.
     ret (sort_by (\<lambda>l r. en_lc ev (stamp_text (ar_created r)) (stamp_text (ar_created l)))
            (filter (\<lambda>e. case status of None \<Rightarrow> True | Some st \<Rightarrow> ar_status e = st) (ps_approvals s))))"

fun approval_status_text :: "approval_status \<Rightarrow> string" where
  "approval_status_text Approval_Pending = ''pending''"
| "approval_status_text Approval_Approved = ''approved''"
| "approval_status_text Approval_Rejected = ''rejected''"
| "approval_status_text Approval_Resumed = ''resumed''"
| "approval_status_text Approval_Completed = ''completed''"

definition link_decision :: "links \<Rightarrow> approval \<Rightarrow> approval" where
  "link_decision l q = q\<lparr>
     ar_policyDecision := (case when_truthy (lk_policyDecision l) of None \<Rightarrow> ar_policyDecision q | Some x \<Rightarrow> Some x),
     ar_evidence := (case when_truthy (lk_evidence l) of None \<Rightarrow> ar_evidence q | Some x \<Rightarrow> Some x) \<rparr>"

definition wrong_status :: "string \<Rightarrow> approval \<Rightarrow> js_error" where
  "wrong_status operation q = Js_Error WorkflowPolicyError
     (''Cannot '' @ operation @ '' request in status '' @ approval_status_text (ar_status q))
     [ar_id q, approval_status_text (ar_status q), operation]"

definition link_members :: "links \<Rightarrow> string list jsrec" where
  "link_members l = (case when_truthy (lk_policyDecision l) of None \<Rightarrow> [] | Some x \<Rightarrow> [(''policyDecisionId'', [x])])
     @ (case when_truthy (lk_evidence l) of None \<Rightarrow> [] | Some x \<Rightarrow> [(''evidenceId'', [x])])"

text \<open>\<open>update\<close>: the first request with the id is replaced in the loaded state, which is saved with the event.\<close>

definition save_decision :: "env \<Rightarrow> links \<Rightarrow> project_state \<Rightarrow> nat \<Rightarrow> approval \<times> event_type \<Rightarrow> approval svc" where
  "save_decision ev l s i x = (case x of (q, ty) \<Rightarrow>
     bindA (svc_uuid ev) (\<lambda>u. bindA (svc_now ev) (\<lambda>now.
     bindA (on_app (saveWithEvents (en_zod ev) (s\<lparr>ps_approvals := (ps_approvals s)[i := q]\<rparr>)
       [makeEvent u now ty ([(''approvalRequestId'', [ar_id q]), (''runId'', [ar_run q]), (''taskId'', [ar_task q]),
           (''requestedAction'', [approval_action_text (ar_action q)]), (''status'', [approval_status_text (ar_status q)])]
           @ link_members l) (Some (ar_run q)) None]
       (Some (int (ps_revision s))))) (\<lambda>_. ret q))))"

definition update_approval :: "env \<Rightarrow> string \<Rightarrow> links \<Rightarrow> (approval \<Rightarrow> (approval \<times> event_type) svc) \<Rightarrow> approval svc" where
  "update_approval ev rid l mutate = bindA (on_app load) (\<lambda>s.
     (let i = length (takeWhile (\<lambda>e. ar_id e \<noteq> rid) (ps_approvals s)) in
      if length (ps_approvals s) \<le> i
      then throw (Js_Error WorkflowPolicyError (''Approval request not found: '' @ rid) [rid, ''approval_update''])
      else bindA (mutate (ps_approvals s ! i)) (save_decision ev l s i)))"

definition approve :: "env \<Rightarrow> string \<Rightarrow> string \<Rightarrow> links \<Rightarrow> approval svc" where
  "approve ev rid who l = update_approval ev rid l (\<lambda>q.
     if ar_status q \<noteq> Approval_Pending then throw (wrong_status ''approve'' q)
     else bindA (svc_now ev) (\<lambda>now.
       ret (link_decision l (q\<lparr>ar_status := Approval_Approved, ar_approvedBy := Some who, ar_approvedAt := Some now\<rparr>), APPROVAL_APPROVED)))"

definition reject :: "env \<Rightarrow> string \<Rightarrow> string \<Rightarrow> string \<Rightarrow> links \<Rightarrow> approval svc" where
  "reject ev rid who reason l = update_approval ev rid l (\<lambda>q.
     if ar_status q \<noteq> Approval_Pending then throw (wrong_status ''reject'' q)
     else bindA (svc_now ev) (\<lambda>now.
       ret (link_decision l (q\<lparr>ar_status := Approval_Rejected, ar_rejectedBy := Some who, ar_rejectedAt := Some now,
         ar_rejectionReason := Some reason\<rparr>), APPROVAL_REJECTED)))"

definition resume :: "env \<Rightarrow> string \<Rightarrow> string \<Rightarrow> links \<Rightarrow> approval svc" where
  "resume ev rid who l = update_approval ev rid l (\<lambda>q.
     if ar_status q \<noteq> Approval_Approved then throw (wrong_status ''resume'' q)
     else bindA (svc_now ev) (\<lambda>now.
       ret (link_decision l (q\<lparr>ar_status := Approval_Resumed, ar_resumedBy := Some who, ar_resumedAt := Some now\<rparr>), APPROVAL_RESUMED)))"

section \<open>Sequences of decisions\<close>

datatype decision_call =
    Approve_Call string string links
  | Reject_Call string string string links
  | Resume_Call string string links

fun run_decision :: "env \<Rightarrow> decision_call \<Rightarrow> approval svc" where
  "run_decision ev (Approve_Call rid who l) = approve ev rid who l"
| "run_decision ev (Reject_Call rid who reason l) = reject ev rid who reason l"
| "run_decision ev (Resume_Call rid who l) = resume ev rid who l"

definition after_decisions :: "env \<Rightarrow> decision_call list \<Rightarrow> app \<Rightarrow> app" where
  "after_decisions ev cs a = fold (\<lambda>c a. snd (run_decision ev c a)) cs a"

text \<open>The status a call needs, and the request it makes of one at \<open>now\<close>.\<close>

fun needed_status :: "decision_call \<Rightarrow> approval_status" where
  "needed_status (Resume_Call _ _ _) = Approval_Approved"
| "needed_status _ = Approval_Pending"

fun decided_request :: "decision_call \<Rightarrow> stamp \<Rightarrow> approval \<Rightarrow> approval" where
  "decided_request (Approve_Call _ who l) now q = link_decision l (q\<lparr>ar_status := Approval_Approved, ar_approvedBy := Some who, ar_approvedAt := Some now\<rparr>)"
| "decided_request (Reject_Call _ who reason l) now q = link_decision l (q\<lparr>ar_status := Approval_Rejected, ar_rejectedBy := Some who, ar_rejectedAt := Some now,
     ar_rejectionReason := Some reason\<rparr>)"
| "decided_request (Resume_Call _ who l) now q = link_decision l (q\<lparr>ar_status := Approval_Resumed, ar_resumedBy := Some who, ar_resumedAt := Some now\<rparr>)"

lemma link_decision_same [simp]:
  "ar_id (link_decision l q) = ar_id q" "ar_run (link_decision l q) = ar_run q" "ar_task (link_decision l q) = ar_task q"
  "ar_reason (link_decision l q) = ar_reason q" "ar_action (link_decision l q) = ar_action q" "ar_risk (link_decision l q) = ar_risk q"
  "ar_status (link_decision l q) = ar_status q" "ar_metadata (link_decision l q) = ar_metadata q" "ar_created (link_decision l q) = ar_created q"
  "ar_approvedAt (link_decision l q) = ar_approvedAt q" "ar_approvedBy (link_decision l q) = ar_approvedBy q"
  "ar_rejectedAt (link_decision l q) = ar_rejectedAt q" "ar_rejectedBy (link_decision l q) = ar_rejectedBy q"
  "ar_rejectionReason (link_decision l q) = ar_rejectionReason q" "ar_resumedAt (link_decision l q) = ar_resumedAt q"
  "ar_resumedBy (link_decision l q) = ar_resumedBy q" "ar_completedAt (link_decision l q) = ar_completedAt q"
  by (simp_all add: link_decision_def)

text \<open>A call either throws and leaves the store, or stores one decided request and one event.\<close>

definition stored_decision :: "zod \<Rightarrow> decision_call \<Rightarrow> nat \<Rightarrow> stamp \<Rightarrow> store \<Rightarrow> store \<Rightarrow> bool" where
  "stored_decision z c i now st st' = (let s = st_state st; q = ps_approvals s ! i; s' = s\<lparr>ps_approvals := (ps_approvals s)[i := decided_request c now q]\<rparr> in
     i < length (ps_approvals s) \<and> ar_status q = needed_status c \<and> valid_state z s' \<and>
     (\<exists>e. st' = st\<lparr>st_state := s'\<lparr>ps_revision := ps_revision s + 1\<rparr>, st_events := st_events st @ [e]\<rparr>))"

lemma stored_decisionI:
  assumes "i < length (ps_approvals (st_state st))" "ar_status (ps_approvals (st_state st) ! i) = needed_status c"
    and "valid_state z ((st_state st)\<lparr>ps_approvals := (ps_approvals (st_state st))[i := decided_request c now (ps_approvals (st_state st) ! i)]\<rparr>)"
  shows "stored_decision z c i now st (st\<lparr>st_state := (st_state st)\<lparr>ps_approvals := (ps_approvals (st_state st))[i := decided_request c now (ps_approvals (st_state st) ! i)],
      ps_revision := ps_revision (st_state st) + 1\<rparr>, st_events := st_events st @ [e]\<rparr>)"
  unfolding stored_decision_def Let_def using assms by (intro conjI exI[of _ e]) simp_all

lemma wp_save_decision:
  assumes "ap_store u = st" "i < length (ps_approvals (st_state st))" "ar_status (ps_approvals (st_state st) ! i) = needed_status c"
    and "fst x = decided_request c now (ps_approvals (st_state st) ! i)"
  shows "wp (save_decision ev l (st_state st) i x) (\<lambda>_ a'. \<exists>i now. stored_decision (en_zod ev) c i now st (ap_store a'))
    (\<lambda>_ a'. ap_store a' = st) u"
proof -
  have get: "ap_store (v\<lparr>ap_store := y\<rparr>) = y" "ap_store (v\<lparr>ap_tick := n\<rparr>) = ap_store v" for v y n by simp_all
  obtain ty where x: "x = (decided_request c now (ps_approvals (st_state st) ! i), ty)" using assms(4) by (cases x) simp
  show ?thesis
    unfolding save_decision_def x prod.case wp_bindA wp_svc_uuid wp_svc_now wp_on_app saveWithEvents_def wp_ret get assms(1)
    by (rule wp_commitSnapshot) (intro exI, rule stored_decisionI[OF assms(2,3)], assumption, rule refl)
qed

lemma wp_update_approval:
  assumes "\<And>q. wp (mutate q) (\<lambda>x u. ap_store u = ap_store a \<and> ar_status q = needed_status c \<and> (\<exists>now. fst x = decided_request c now q))
    (\<lambda>_ u. ap_store u = ap_store a) a"
  shows "wp (update_approval ev rid l mutate) (\<lambda>_ a'. \<exists>i now. stored_decision (en_zod ev) c i now (ap_store a) (ap_store a'))
    (\<lambda>_ a'. ap_store a' = ap_store a) a"
proof -
  have loaded: "a\<lparr>ap_store := ap_store a\<rparr> = a" by simp
  have found: "wp (bindA (mutate q) (save_decision ev l (st_state (ap_store a)) i))
      (\<lambda>_ a'. \<exists>i now. stored_decision (en_zod ev) c i now (ap_store a) (ap_store a')) (\<lambda>_ a'. ap_store a' = ap_store a) a"
    if "i < length (ps_approvals (st_state (ap_store a)))" "q = ps_approvals (st_state (ap_store a)) ! i" for i q
    unfolding wp_bindA by (rule wp_mono[OF assms]) (use that in \<open>auto intro: wp_save_decision\<close>)
  show ?thesis
    unfolding update_approval_def load_def wp_bindA[of "on_app _"] wp_on_app wp_getA Let_def loaded
    by (cases "length (takeWhile (\<lambda>e. ar_id e \<noteq> rid) (ps_approvals (st_state (ap_store a)))) < length (ps_approvals (st_state (ap_store a)))")
      (simp_all add: found wp_throw)
qed

lemma wp_run_decision:
  "wp (run_decision ev c) (\<lambda>_ a'. \<exists>i now. stored_decision (en_zod ev) c i now (ap_store a) (ap_store a')) (\<lambda>_ a'. ap_store a' = ap_store a) a"
  by (cases c; simp add: approve_def reject_def resume_def; rule wp_update_approval) (auto simp: wp_simps wp_throw)

section \<open>The life of a request\<close>

text \<open>What a request's status is accountable for: who moved it there and when.\<close>

definition accounted :: "approval \<Rightarrow> bool" where
  "accounted q = ((ar_status q \<in> {Approval_Approved, Approval_Resumed} \<longrightarrow> stamp_given (ar_approvedAt q) \<and> text_given (ar_approvedBy q))
     \<and> (ar_status q = Approval_Resumed \<longrightarrow> stamp_given (ar_resumedAt q) \<and> text_given (ar_resumedBy q))
     \<and> (ar_status q = Approval_Rejected \<longrightarrow> stamp_given (ar_rejectedAt q) \<and> text_given (ar_rejectedBy q) \<and> text_given (ar_rejectionReason q))
     \<and> (ar_status q = Approval_Completed \<longrightarrow> stamp_given (ar_completedAt q)))"

definition same_request :: "approval \<Rightarrow> approval \<Rightarrow> bool" where
  "same_request q q' = (ar_id q' = ar_id q \<and> ar_run q' = ar_run q \<and> ar_task q' = ar_task q \<and> ar_reason q' = ar_reason q
     \<and> ar_action q' = ar_action q \<and> ar_risk q' = ar_risk q \<and> ar_metadata q' = ar_metadata q \<and> ar_created q' = ar_created q)"

text \<open>The statuses a request can have later, by the one it has.\<close>

fun later_statuses :: "approval_status \<Rightarrow> approval_status set" where
  "later_statuses Approval_Pending = {Approval_Pending, Approval_Approved, Approval_Rejected, Approval_Resumed}"
| "later_statuses Approval_Approved = {Approval_Approved, Approval_Resumed}"
| "later_statuses s = {s}"

definition lives_on :: "approval \<Rightarrow> approval \<Rightarrow> bool" where
  "lives_on q q' = (same_request q q' \<and> ar_status q' \<in> later_statuses (ar_status q))"

lemma lives_on_refl: "lives_on q q"
  by (cases "ar_status q") (simp_all add: lives_on_def same_request_def)

lemma lives_on_trans: "lives_on p q \<Longrightarrow> lives_on q r \<Longrightarrow> lives_on p r"
  by (cases "ar_status p"; cases "ar_status q") (auto simp: lives_on_def same_request_def)

lemma decided_lives_on: "ar_status q = needed_status c \<Longrightarrow> lives_on q (decided_request c now q)"
  by (cases c) (simp_all add: lives_on_def same_request_def)

lemma schema_given:
  "approvalRequestSchema dt q \<Longrightarrow> ar_approvedBy q = Some x \<Longrightarrow> x \<noteq> []" "approvalRequestSchema dt q \<Longrightarrow> ar_resumedBy q = Some x \<Longrightarrow> x \<noteq> []"
  "approvalRequestSchema dt q \<Longrightarrow> ar_rejectedBy q = Some x \<Longrightarrow> x \<noteq> []" "approvalRequestSchema dt q \<Longrightarrow> ar_rejectionReason q = Some x \<Longrightarrow> x \<noteq> []"
  "approvalRequestSchema dt q \<Longrightarrow> ar_approvedAt q = Some t \<Longrightarrow> dt t" "approvalRequestSchema dt q \<Longrightarrow> ar_resumedAt q = Some t \<Longrightarrow> dt t"
  "approvalRequestSchema dt q \<Longrightarrow> ar_rejectedAt q = Some t \<Longrightarrow> dt t"
  by (simp_all add: approvalRequestSchema_def opt_min1_def opt_iso_def)

lemma decided_accounted:
  assumes "accounted q" "ar_status q = needed_status c" "approvalRequestSchema dt (decided_request c now q)" "\<And>s. dt s \<Longrightarrow> stamp_text s \<noteq> []"
  shows "accounted (decided_request c now q)"
  using assms(1,2) schema_given[OF assms(3)] assms(4)
  by (cases c) (auto simp: accounted_def stamp_given_def text_given_def)

lemma accounted_schema:
  "accounted q \<Longrightarrow> approvalRequestSchema dt q \<Longrightarrow> immutableApprovalRequestSchema dt q"
  by (auto simp: immutableApprovalRequestSchema_def approvalRequestSchema_def accounted_def status_evidence_issues_def)

text \<open>Two stores that differ in approvals that live on, the revision and the events.\<close>

definition approvals_moved :: "zod \<Rightarrow> store \<Rightarrow> store \<Rightarrow> bool" where
  "approvals_moved z st st' = (\<exists>qs r es. st' = st\<lparr>st_state := (st_state st)\<lparr>ps_approvals := qs, ps_revision := r\<rparr>, st_events := st_events st @ es\<rparr>
     \<and> list_all2 lives_on (ps_approvals (st_state st)) qs \<and> valid_state z (st_state st') \<and> (\<forall>q \<in> set qs. accounted q))"

lemma valid_revision: "valid_state z (s\<lparr>ps_revision := r\<rparr>) = valid_state z s"
  by (simp add: valid_parts)

lemma stored_decision_moved:
  assumes "stored_decision z c i now st st'" and acc: "\<forall>q \<in> set (ps_approvals (st_state st)). accounted q"
    and dt: "\<And>s. z_iso z s \<Longrightarrow> stamp_text s \<noteq> []"
  shows "approvals_moved z st st'"
proof -
  let ?s = "st_state st" and ?qs = "ps_approvals (st_state st)"
  let ?q = "?qs ! i" let ?s' = "?s\<lparr>ps_approvals := ?qs[i := decided_request c now ?q]\<rparr>"
  obtain e where i: "i < length ?qs" and q: "ar_status ?q = needed_status c" and v: "valid_state z ?s'"
      and st': "st' = st\<lparr>st_state := ?s'\<lparr>ps_revision := ps_revision ?s + 1\<rparr>, st_events := st_events st @ [e]\<rparr>"
    using assms(1) unfolding stored_decision_def Let_def by blast
  have "approvalRequestSchema (z_iso z) (decided_request c now ?q)"
    using v set_update_memI[OF i] by (simp add: valid_parts)
  then have "accounted (decided_request c now ?q)" using decided_accounted[OF _ q _ dt] acc i by simp
  then have a: "\<forall>q \<in> set (?qs[i := decided_request c now ?q]). accounted q" using acc set_update_subset_insert by fastforce
  have l: "list_all2 lives_on ?qs (?qs[i := decided_request c now ?q])"
    by (rule list_all2_all_nthI) (use decided_lives_on[OF q] lives_on_refl i in \<open>auto simp: nth_list_update\<close>)
  show ?thesis unfolding approvals_moved_def
    by (intro exI[of _ "?qs[i := decided_request c now ?q]"] exI[of _ "ps_revision ?s + 1"] exI[of _ "[e]"] conjI)
      (use st' l a v valid_revision in simp_all)
qed

lemma approvals_moved_trans: "approvals_moved z a b \<Longrightarrow> approvals_moved z b c \<Longrightarrow> approvals_moved z a c"
proof -
  assume "approvals_moved z a b" "approvals_moved z b c"
  then obtain qs r es qs' r' es' where b: "b = a\<lparr>st_state := (st_state a)\<lparr>ps_approvals := qs, ps_revision := r\<rparr>, st_events := st_events a @ es\<rparr>"
      and l: "list_all2 lives_on (ps_approvals (st_state a)) qs" "list_all2 lives_on (ps_approvals (st_state b)) qs'"
      and c: "c = b\<lparr>st_state := (st_state b)\<lparr>ps_approvals := qs', ps_revision := r'\<rparr>, st_events := st_events b @ es'\<rparr>"
      and v: "valid_state z (st_state c)" "\<forall>q \<in> set qs'. accounted q"
    unfolding approvals_moved_def by blast
  have "ps_approvals (st_state b) = qs" by (simp add: b)
  then have "list_all2 lives_on (ps_approvals (st_state a)) qs'" using list_all2_trans[OF lives_on_trans l(1)] l(2) by simp
  then show ?thesis unfolding approvals_moved_def
    by (intro exI[of _ qs'] exI[of _ r'] exI[of _ "es @ es'"] conjI v) (simp_all add: c b)
qed

lemma decisions_move:
  assumes "valid_state (en_zod ev) (st_state (ap_store a))" "\<forall>q \<in> set (ps_approvals (st_state (ap_store a))). accounted q"
    and dt: "\<And>s. z_iso (en_zod ev) s \<Longrightarrow> stamp_text s \<noteq> []"
  shows "approvals_moved (en_zod ev) (ap_store a) (ap_store (after_decisions ev cs a))"
proof (induction cs rule: rev_induct)
  case Nil
  have "list_all2 lives_on qs qs" for qs by (rule list_all2_refl) (rule lives_on_refl)
  then show ?case unfolding approvals_moved_def after_decisions_def
    by (intro exI[of _ "ps_approvals (st_state (ap_store a))"] exI[of _ "ps_revision (st_state (ap_store a))"] exI[of _ "[]"])
      (use assms in simp)
next
  case (snoc c cs)
  let ?b = "after_decisions ev cs a"
  have step: "after_decisions ev (cs @ [c]) a = snd (run_decision ev c ?b)" by (simp add: after_decisions_def)
  have acc: "\<forall>q \<in> set (ps_approvals (st_state (ap_store ?b))). accounted q" using snoc unfolding approvals_moved_def by auto
  have "wp (run_decision ev c) (\<lambda>_ a'. \<exists>i now. stored_decision (en_zod ev) c i now (ap_store ?b) (ap_store a')) (\<lambda>_ a'. ap_store a' = ap_store ?b) ?b"
    by (rule wp_run_decision)
  then consider i now where "stored_decision (en_zod ev) c i now (ap_store ?b) (ap_store (snd (run_decision ev c ?b)))"
    | "ap_store (snd (run_decision ev c ?b)) = ap_store ?b"
    by (cases "run_decision ev c ?b"; cases "fst (run_decision ev c ?b)") (auto simp: wp_def)
  then show ?case
  proof cases
    case 1
    from approvals_moved_trans[OF snoc stored_decision_moved[OF this acc dt]] show ?thesis unfolding step .
  qed (use snoc step in simp)
qed

text \<open>C30. The life of an approval request. Whatever sequence of approvals, rejections and resumptions is called, each
  may throw, the stored state stays valid and nothing in it changes but approval requests and the revision; no request appears or disappears or
  changes what it is about; a status only moves from pending to approved or rejected and from approved to resumed, so a rejection
  is final and only an approved request is resumed; and each request satisfies the strict schema, a resumed one naming both
  who approved and who resumed it.\<close>

theorem approvals_follow_lifecycle:
  assumes "valid_state (en_zod ev) (st_state (ap_store a))" "\<forall>q \<in> set (ps_approvals (st_state (ap_store a))). accounted q"
    and "\<And>s. z_iso (en_zod ev) s \<Longrightarrow> stamp_text s \<noteq> []"
  shows "let s = st_state (ap_store a); s' = st_state (ap_store (after_decisions ev cs a)) in
     s' = s\<lparr>ps_approvals := ps_approvals s', ps_revision := ps_revision s'\<rparr> \<and> valid_state (en_zod ev) s' \<and>
     list_all2 (\<lambda>q q'. same_request q q' \<and> ar_status q' \<in> later_statuses (ar_status q)) (ps_approvals s) (ps_approvals s') \<and>
     (\<forall>q \<in> set (ps_approvals s'). immutableApprovalRequestSchema (z_iso (en_zod ev)) q \<and>
        (ar_status q = Approval_Resumed \<longrightarrow> text_given (ar_approvedBy q) \<and> text_given (ar_resumedBy q)))"
proof -
  let ?s = "st_state (ap_store a)" and ?st' = "ap_store (after_decisions ev cs a)" let ?z = "en_zod ev"
  obtain qs r es where m: "?st' = (ap_store a)\<lparr>st_state := ?s\<lparr>ps_approvals := qs, ps_revision := r\<rparr>, st_events := st_events (ap_store a) @ es\<rparr>"
      and l: "list_all2 lives_on (ps_approvals ?s) qs" and v: "valid_state ?z (st_state ?st')" and acc: "\<forall>q \<in> set qs. accounted q"
    using decisions_move[OF assms, of cs] unfolding approvals_moved_def by auto
  have s': "st_state ?st' = ?s\<lparr>ps_approvals := qs, ps_revision := r\<rparr>" using m by simp
  have "\<forall>q \<in> set qs. approvalRequestSchema (z_iso ?z) q" using v unfolding s' by (simp add: valid_parts)
  then have strict: "\<forall>q \<in> set qs. immutableApprovalRequestSchema (z_iso ?z) q \<and>
      (ar_status q = Approval_Resumed \<longrightarrow> text_given (ar_approvedBy q) \<and> text_given (ar_resumedBy q))"
    using acc accounted_schema by (simp add: accounted_def)
  show ?thesis unfolding Let_def s' using l[unfolded lives_on_def] v[unfolded s'] strict by simp
qed

text \<open>A pending push approval, approved and resumed.\<close>

definition pending_push :: approval where
  "pending_push = new_request ''a1'' (Iso 0) ''r'' ''t2'' Appr_Git_Push ''push'' []"

definition approvals_app :: app where
  "approvals_app = sample_app\<lparr>ap_store := \<lparr> st_state = unplanned_state\<lparr>ps_approvals := [pending_push]\<rparr>, st_events = [] \<rparr>\<rparr>"

definition no_links :: links where
  "no_links = \<lparr> lk_policyDecision = None, lk_evidence = None \<rparr>"

lemma iso_text_not_Nil: "iso_text t \<noteq> []"
  by (cases "civil_of_days (t div 86400000)") (auto simp: iso_text_def Let_def)

lemma approvals_follow_lifecycle_witness:
  "\<exists>q. ps_approvals (st_state (ap_store (after_decisions sample_env [Approve_Call ''a1'' ''ann'' no_links, Resume_Call ''a1'' ''bob'' no_links] approvals_app))) = [q]
     \<and> same_request pending_push q \<and> immutableApprovalRequestSchema (z_iso sample_zod) q"
proof -
  have z: "en_zod sample_env = sample_zod" by (simp add: sample_env_def)
  have s: "st_state (ap_store approvals_app) = unplanned_state\<lparr>ps_approvals := [pending_push]\<rparr>" by (simp add: approvals_app_def)
  have v: "valid_state sample_zod (unplanned_state\<lparr>ps_approvals := [pending_push]\<rparr>)"
    using unplanned_valid by (simp add: valid_parts unplanned_state_def createEmptyProjectState_def approvalRequestSchema_def pending_push_def new_request_def
        opt_iso_def opt_min1_def all_min1_def sample_zod_def)
  have acc: "\<forall>q \<in> set [pending_push]. accounted q" by (simp add: accounted_def pending_push_def new_request_def)
  have iso: "stamp_text t \<noteq> []" if "z_iso sample_zod t" for t using that iso_text_not_Nil by (cases t) (simp_all add: sample_zod_def)
  show ?thesis
    using approvals_follow_lifecycle[of sample_env approvals_app "[Approve_Call ''a1'' ''ann'' no_links, Resume_Call ''a1'' ''bob'' no_links]"] v acc iso
    unfolding Let_def z s by (auto simp: list_all2_Cons1)
qed

end
