(* ===== verification/Governance.thy ===== *)
theory Governance
  imports Iso_Text State_Records "HOL-Library.Word" "HOL-Library.Signed_Division"
begin

text \<open>
  The rules that decide who may do what and when: access to the control plane
  (\<open>packages/application/src/authorization/evaluate-access.ts\<close> and \<open>apps/control-plane/src/authz/rbac-abac.ts\<close>), the kill
  switch and the human override (\<open>packages/application/src/safety\<close>), gradual rollout
  (\<open>packages/application/src/rollout\<close>), the readiness review (\<open>packages/application/src/readiness\<close>), and the tenant prefix
  (\<open>packages/core/src/multitenancy-tenant-scope.ts\<close>).
\<close>

section \<open>Access to the control plane\<close>

datatype control_action =
    Cp_Bootstrap | Cp_Run_Cycle | Cp_Run_Task | Cp_Show_State | Cp_Export_Backlog | Cp_Resume_Failure | Cp_Replay_Failure
  | Cp_Generate_Docs | Cp_Plan_Backlog | Cp_Assess_Release | Cp_Check_State | Cp_Prepare_Export | Cp_Analyze_Architecture

datatype attribute = Attr_Text string | Attr_Bool bool

record principal =
  pr_subject :: string
  pr_roles :: "string list"
  pr_team :: "attribute option"

datatype environment = Env_Local | Env_Ci | Env_Prod

record resource =
  rsc_project :: string
  rsc_environment :: environment
  rsc_ownerTeam :: "string option"

datatype access_evidence =
    Missing_Role string control_action "string list" "string list"
  | Other_Team string control_action string attribute
  | Prod_Requires_Admin string control_action
  | Granted string control_action "string list"

datatype access_reason = Access_Allow | Rbac_Denied | Abac_Denied

record access_decision =
  ac_allowed :: bool
  ac_reason :: access_reason
  ac_evidence :: access_evidence

definition admin_role :: string where
  "admin_role = ''control-plane.admin''"

fun action_roles :: "control_action \<Rightarrow> string list" where
  "action_roles Cp_Bootstrap = [''control-plane.admin'']"
| "action_roles Cp_Show_State = [''control-plane.viewer'']"
| "action_roles Cp_Export_Backlog = [''control-plane.viewer'']"
| "action_roles _ = [''control-plane.operator'']"

definition attribute_truthy :: "attribute option \<Rightarrow> bool" where
  "attribute_truthy x = (case x of None \<Rightarrow> False | Some (Attr_Text s) \<Rightarrow> s \<noteq> [] | Some (Attr_Bool b) \<Rightarrow> b)"

definition other_team :: "principal \<Rightarrow> resource \<Rightarrow> bool" where
  "other_team p r = (truthy (rsc_ownerTeam r) \<and> attribute_truthy (pr_team p)
     \<and> map_option Attr_Text (rsc_ownerTeam r) \<noteq> pr_team p \<and> admin_role \<notin> set (pr_roles p))"

definition evaluateControlPlaneAccess :: "principal \<Rightarrow> control_action \<Rightarrow> resource \<Rightarrow> access_decision" where
  "evaluateControlPlaneAccess p a r =
     (if \<not> list_ex (\<lambda>x. x \<in> set (pr_roles p)) (action_roles a)
      then \<lparr> ac_allowed = False, ac_reason = Rbac_Denied, ac_evidence = Missing_Role (pr_subject p) a (action_roles a) (pr_roles p) \<rparr>
      else if other_team p r
      then \<lparr> ac_allowed = False, ac_reason = Abac_Denied,
             ac_evidence = Other_Team (pr_subject p) a (the (rsc_ownerTeam r)) (the (pr_team p)) \<rparr>
      else if rsc_environment r = Env_Prod \<and> admin_role \<notin> set (pr_roles p)
      then \<lparr> ac_allowed = False, ac_reason = Abac_Denied, ac_evidence = Prod_Requires_Admin (pr_subject p) a \<rparr>
      else \<lparr> ac_allowed = True, ac_reason = Access_Allow, ac_evidence = Granted (pr_subject p) a (action_roles a) \<rparr>)"

definition COMMAND_ACTION_MAP :: "(string \<times> control_action) list" where
  "COMMAND_ACTION_MAP =
     [(''bootstrap'', Cp_Bootstrap), (''run-cycle'', Cp_Run_Cycle), (''run-task'', Cp_Run_Task), (''show-state'', Cp_Show_State),
      (''export-backlog'', Cp_Export_Backlog), (''resume-failure'', Cp_Resume_Failure), (''replay-failure'', Cp_Replay_Failure),
      (''generate-docs'', Cp_Generate_Docs), (''plan-backlog'', Cp_Plan_Backlog), (''assess-release'', Cp_Assess_Release),
      (''check-state'', Cp_Check_State), (''prepare-export'', Cp_Prepare_Export), (''analyze-architecture'', Cp_Analyze_Architecture)]"

text \<open>The members every object inherits: they are truthy, but no action has such a name.\<close>

definition inherited_members :: "string list" where
  "inherited_members = [''constructor'', ''__defineGetter__'', ''__defineSetter__'', ''hasOwnProperty'', ''__lookupGetter__'',
     ''__lookupSetter__'', ''isPrototypeOf'', ''propertyIsEnumerable'', ''toString'', ''valueOf'', ''__proto__'', ''toLocaleString'']"

record cli_principal =
  cp_subject :: string
  cp_roles :: "string list"
  cp_team :: "string option"

definition to_principal :: "cli_principal \<Rightarrow> principal" where
  "to_principal p = \<lparr> pr_subject = cp_subject p, pr_roles = cp_roles p, pr_team = map_option Attr_Text (when_truthy (cp_team p)) \<rparr>"

definition authorizeControlPlaneCommand :: "string \<Rightarrow> cli_principal \<Rightarrow> resource \<Rightarrow> unit result" where
  "authorizeControlPlaneCommand command p r =
     (case map_of COMMAND_ACTION_MAP command of
        None \<Rightarrow> if command \<in> set inherited_members
                then Inl (Js_Error TypeError ''Cannot read properties of undefined (reading some)'' []) else Inr ()
      | Some a \<Rightarrow>
          if \<not> ac_allowed (evaluateControlPlaneAccess (to_principal p) a r)
          then Inl (Js_Error SafetyViolationError ''Control-plane command access denied'' [command]) else Inr ())"

section \<open>The kill switch and the human override\<close>

datatype command_policy = Read_Only_Command | Restricted_Command

record kill_switch =
  ks_active :: bool
  ks_reason :: "string option"
  ks_activatedAt :: "string option"

record kill_switch_result =
  kr_allowed :: bool
  kr_reasonCode :: "string option"
  kr_command :: string
  kr_policy :: command_policy
  kr_active :: bool
  kr_reason :: "string option"
  kr_activatedAt :: "string option"

definition evaluateKillSwitch :: "string \<Rightarrow> command_policy \<Rightarrow> kill_switch \<Rightarrow> kill_switch_result" where
  "evaluateKillSwitch command policy ks =
     (let ok = (\<not> ks_active ks \<or> policy = Read_Only_Command) in
      \<lparr> kr_allowed = ok, kr_reasonCode = (if ok then None else Some ''kill_switch_active''), kr_command = command, kr_policy = policy,
        kr_active = ks_active ks, kr_reason = when_truthy (ks_reason ks), kr_activatedAt = when_truthy (ks_activatedAt ks) \<rparr>)"

record override_input =
  oi_actor :: string
  oi_token :: "string option"
  oi_reason :: "string option"
  oi_ticket :: "string option"
  oi_expiresAt :: "stamp option"
  oi_now :: stamp

datatype override_verdict =
    Override_Allowed | Missing_Token | Missing_Reason | Missing_Ticket | Invalid_Expiration | Override_Expired

definition expiry_given :: "stamp option \<Rightarrow> stamp option" where
  "expiry_given x = (case x of None \<Rightarrow> None | Some s \<Rightarrow> if stamp_text s = [] then None else Some s)"

definition override_verdict :: "override_input \<Rightarrow> override_verdict" where
  "override_verdict i =
     (if \<not> truthy (oi_token i) then Missing_Token
      else if \<not> truthy (oi_reason i) then Missing_Reason
      else if \<not> truthy (oi_ticket i) then Missing_Ticket
      else (case expiry_given (oi_expiresAt i) of None \<Rightarrow> Invalid_Expiration
        | Some e \<Rightarrow> (case (date_ms e, date_ms (oi_now i)) of
             (Some x, Some n) \<Rightarrow> if x \<le> n then Override_Expired else Override_Allowed
           | _ \<Rightarrow> Invalid_Expiration)))"

record override_decision =
  od_verdict :: override_verdict
  od_actor :: string
  od_hasToken :: bool
  od_hasReason :: bool
  od_hasTicket :: bool
  od_expiresAt :: "stamp option"
  od_now :: stamp

definition evaluateHumanOverride :: "override_input \<Rightarrow> override_decision" where
  "evaluateHumanOverride i =
     \<lparr> od_verdict = override_verdict i, od_actor = oi_actor i, od_hasToken = truthy (oi_token i), od_hasReason = truthy (oi_reason i),
       od_hasTicket = truthy (oi_ticket i), od_expiresAt = expiry_given (oi_expiresAt i), od_now = oi_now i \<rparr>"

section \<open>Gradual rollout\<close>

datatype rollout_tier = Tier_Low | Tier_Medium | Tier_High

record rollout_rule =
  rr_id :: string
  rr_enabled :: bool
  rr_percent :: int
  rr_tier :: rollout_tier
  rr_tenant :: "string option"
  rr_project :: "string option"
  rr_created :: stamp

record rollout_request =
  rq_tenant :: string
  rq_project :: string
  rq_tier :: rollout_tier
  rq_key :: string

datatype rollout_scope = Scope_Global | Scope_Tenant | Scope_Tenant_Project

datatype rollout_reason = Rollout_Match | Rollout_Not_Configured | Rollout_Disabled | Rollout_Input_Invalid

record rollout_decision =
  rd_enabled :: bool
  rd_reason :: rollout_reason
  rd_rule :: "string option"
  rd_scope :: "rollout_scope option"
  rd_percent :: "int option"
  rd_bucket :: "int option"

text \<open>\<open>hash = ((hash << 5) - hash) + code; hash |= 0\<close>: the subtraction and the addition are exact and \<open>|= 0\<close>
  wraps, which is the same as wrapping each of them.\<close>

fun bucket_hash :: "32 word \<Rightarrow> string \<Rightarrow> 32 word" where
  "bucket_hash h [] = h"
| "bucket_hash h (c # cs) = bucket_hash (push_bit 5 h - h + of_char c) cs"

definition stableBucket :: "string \<Rightarrow> int" where
  "stableBucket key = \<bar>sint (bucket_hash 0 key) smod 100\<bar>"

definition specificity :: "rollout_rule \<Rightarrow> int" where
  "specificity r = (if truthy (rr_tenant r) \<and> truthy (rr_project r) then 3 else if truthy (rr_tenant r) then 2 else 1)"

definition resolveScope :: "rollout_rule \<Rightarrow> rollout_scope" where
  "resolveScope r = (if truthy (rr_tenant r) \<and> truthy (rr_project r) then Scope_Tenant_Project
     else if truthy (rr_tenant r) then Scope_Tenant else Scope_Global)"

definition compareRuleSpecificity :: "rollout_rule cmp" where
  "compareRuleSpecificity l r = specificity r - specificity l"

definition matchesScope :: "rollout_request \<Rightarrow> rollout_rule \<Rightarrow> bool" where
  "matchesScope q r = ((truthy (rr_tenant r) \<longrightarrow> rr_tenant r = Some (rq_tenant q)) \<and> (truthy (rr_project r) \<longrightarrow> rr_project r = Some (rq_project q)))"

definition no_rollout :: "rollout_reason \<Rightarrow> rollout_decision" where
  "no_rollout why = \<lparr> rd_enabled = False, rd_reason = why, rd_rule = None, rd_scope = None, rd_percent = None, rd_bucket = None \<rparr>"

definition evaluateGradualRolloutPolicy :: "rollout_rule list \<Rightarrow> rollout_request \<Rightarrow> rollout_decision" where
  "evaluateGradualRolloutPolicy rules q =
     (if rq_tenant q = [] \<or> rq_project q = [] \<or> rq_key q = [] then no_rollout Rollout_Input_Invalid
      else (case find (matchesScope q) (sort_by compareRuleSpecificity (filter (\<lambda>r. rr_tier r = rq_tier q) rules)) of
          None \<Rightarrow> no_rollout Rollout_Not_Configured
        | Some r \<Rightarrow>
            if \<not> rr_enabled r
            then \<lparr> rd_enabled = False, rd_reason = Rollout_Disabled, rd_rule = Some (rr_id r), rd_scope = Some (resolveScope r),
                   rd_percent = Some (rr_percent r), rd_bucket = None \<rparr>
            else (let bucket = stableBucket (rq_key q); on = bucket < rr_percent r in
              \<lparr> rd_enabled = on, rd_reason = (if on then Rollout_Match else Rollout_Disabled), rd_rule = Some (rr_id r),
                rd_scope = Some (resolveScope r), rd_percent = Some (rr_percent r), rd_bucket = Some bucket \<rparr>)))"

section \<open>The readiness review\<close>

datatype readiness_severity = Blocker_Check | Warning_Check

record readiness_check =
  rc_checkId :: string
  rc_title :: string
  rc_severity :: readiness_severity
  rc_passed :: bool
  rc_details :: string

record readiness_issue =
  ri_checkId :: string
  ri_title :: string
  ri_details :: string

record readiness_review =
  rv_run :: string
  rv_date :: string
  rv_ready :: bool
  rv_blockers :: "readiness_issue list"
  rv_warnings :: "readiness_issue list"
  rv_total :: nat
  rv_passed :: nat
  rv_failed :: nat
  rv_blockerCount :: nat
  rv_warningCount :: nat

definition toIssue :: "readiness_check \<Rightarrow> readiness_issue" where
  "toIssue c = \<lparr> ri_checkId = rc_checkId c, ri_title = rc_title c, ri_details = rc_details c \<rparr>"

definition review_step :: "readiness_check \<Rightarrow> readiness_issue list \<times> readiness_issue list \<Rightarrow> readiness_issue list \<times> readiness_issue list" where
  "review_step c acc = (case acc of (bs, ws) \<Rightarrow>
     if rc_passed c then (bs, ws) else if rc_severity c = Blocker_Check then (bs @ [toIssue c], ws) else (bs, ws @ [toIssue c]))"

definition evaluateProductionReadinessReview :: "string \<Rightarrow> string \<Rightarrow> readiness_check list \<Rightarrow> readiness_review" where
  "evaluateProductionReadinessReview run date cs =
     (case fold review_step cs ([], []) of (bs, ws) \<Rightarrow>
        (let passed = length (filter rc_passed cs) in
         \<lparr> rv_run = run, rv_date = date, rv_ready = (length bs = 0), rv_blockers = bs, rv_warnings = ws, rv_total = length cs, rv_passed = passed,
           rv_failed = length cs - passed, rv_blockerCount = length bs, rv_warningCount = length ws \<rparr>))"

section \<open>The tenant prefix\<close>

definition assertScopePart :: "string \<Rightarrow> string \<Rightarrow> unit result" where
  "assertScopePart value field =
     (if blank value then Inl (Js_Error PlainError (field @ '' must be a non-empty string'') [])
      else if CHR '':'' \<in> set value then Inl (Js_Error PlainError (field @ '' must not include :'') []) else Inr ())"

definition assertScope :: "string \<Rightarrow> string \<Rightarrow> unit result" where
  "assertScope tenant project = (case assertScopePart tenant ''tenantId'' of Inl e \<Rightarrow> Inl e | Inr _ \<Rightarrow> assertScopePart project ''projectId'')"

definition formatTenantScopePrefix :: "string \<Rightarrow> string \<Rightarrow> string result" where
  "formatTenantScopePrefix tenant project =
     (case assertScope tenant project of Inl e \<Rightarrow> Inl e | Inr _ \<Rightarrow> Inr (tenant @ '':'' @ project))"

section \<open>Who may run a command\<close>

lemma control_action_roles: "\<exists>r. action_roles a = [r]"
  by (cases a) simp_all

lemma access_allowed:
  "ac_allowed (evaluateControlPlaneAccess p a r) \<longleftrightarrow> set (action_roles a) \<inter> set (pr_roles p) \<noteq> {} \<and> \<not> other_team p r \<and>
     (rsc_environment r = Env_Prod \<longrightarrow> admin_role \<in> set (pr_roles p))"
  by (auto simp: evaluateControlPlaneAccess_def list_ex_iff)

lemma other_team_cli:
  "other_team (to_principal p) r \<longleftrightarrow> admin_role \<notin> set (cp_roles p) \<and>
     (\<exists>o1 t. rsc_ownerTeam r = Some o1 \<and> cp_team p = Some t \<and> o1 \<noteq> [] \<and> t \<noteq> [] \<and> o1 \<noteq> t)"
  by (auto simp: other_team_def to_principal_def attribute_truthy_def truthy_def when_truthy_def split: option.splits if_splits)

text \<open>C33. Who may run a control plane command. Authorisation lets a known command pass exactly when the
  principal has the role of its action, is an administrator or not of another team than the owner of the project,
  and is an administrator when the environment is production; otherwise it throws a safety violation. So in production every
  command but the bootstrap needs the administrator role and the role of the command together. A principal that
  names no team is of no other team, and a command that is not in the table passes without any check.\<close>

theorem control_plane_access_exact:
  "case map_of COMMAND_ACTION_MAP command of
     None \<Rightarrow> (authorizeControlPlaneCommand command p r = Inr () \<longleftrightarrow> command \<notin> set inherited_members)
   | Some a \<Rightarrow>
       (authorizeControlPlaneCommand command p r = Inr () \<longleftrightarrow>
          set (action_roles a) \<subseteq> set (cp_roles p) \<and>
          (admin_role \<in> set (cp_roles p) \<or>
             rsc_environment r \<noteq> Env_Prod \<and> \<not> (\<exists>x y. rsc_ownerTeam r = Some x \<and> cp_team p = Some y \<and> x \<noteq> [] \<and> y \<noteq> [] \<and> x \<noteq> y))) \<and>
       (case authorizeControlPlaneCommand command p r of Inl e \<Rightarrow> error_class e = SafetyViolationError | Inr _ \<Rightarrow> True)"
proof (cases "map_of COMMAND_ACTION_MAP command")
  case None
  then show ?thesis by (simp add: authorizeControlPlaneCommand_def)
next
  case (Some a)
  obtain x where x: "action_roles a = [x]" using control_action_roles by blast
  have roles: "pr_roles (to_principal p) = cp_roles p" by (simp add: to_principal_def)
  have "ac_allowed (evaluateControlPlaneAccess (to_principal p) a r) \<longleftrightarrow> set (action_roles a) \<subseteq> set (cp_roles p) \<and>
          (admin_role \<in> set (cp_roles p) \<or>
             rsc_environment r \<noteq> Env_Prod \<and> \<not> (\<exists>x y. rsc_ownerTeam r = Some x \<and> cp_team p = Some y \<and> x \<noteq> [] \<and> y \<noteq> [] \<and> x \<noteq> y))"
    unfolding access_allowed other_team_cli roles x by auto
  then show ?thesis using Some by (simp add: authorizeControlPlaneCommand_def)
qed

text \<open>The kill switch stops the commands that are not read-only, and nothing else.\<close>

lemma kill_switch_exact: "kr_allowed (evaluateKillSwitch c p ks) \<longleftrightarrow> (ks_active ks \<longrightarrow> p = Read_Only_Command)"
  by (auto simp: evaluateKillSwitch_def Let_def)

lemma override_allowed:
  "od_verdict (evaluateHumanOverride i) = Override_Allowed \<longleftrightarrow> truthy (oi_token i) \<and> truthy (oi_reason i) \<and> truthy (oi_ticket i) \<and>
     (\<exists>e n x. expiry_given (oi_expiresAt i) = Some e \<and> date_ms e = Some x \<and> date_ms (oi_now i) = Some n \<and> n < x)"
  by (auto simp: evaluateHumanOverride_def override_verdict_def split: option.splits if_splits)

section \<open>The bucket of a key\<close>

text \<open>The hash as a polynomial in 31 of the code units, and a whole number as a signed 32-bit one.\<close>

fun poly_hash :: "string \<Rightarrow> int" where
  "poly_hash [] = 0"
| "poly_hash (c # cs) = of_char c * 31 ^ length cs + poly_hash cs"

definition wrap32 :: "int \<Rightarrow> int" where
  "wrap32 x = (x + 2 ^ 31) mod 2 ^ 32 - 2 ^ 31"

lemma bucket_hash_poly: "bucket_hash h cs = h * 31 ^ length cs + word_of_int (poly_hash cs)"
proof (induction cs arbitrary: h)
  case (Cons c cs)
  have "push_bit 5 h - h = h * 31" by (simp add: push_bit_eq_mult)
  moreover have "(of_char c :: 32 word) = word_of_int (of_char c)" by (simp add: of_char_def)
  ultimately show ?case by (simp add: Cons.IH algebra_simps)
qed simp

lemma sint_wrap32: "sint (word_of_int x :: 32 word) = wrap32 x"
  by (simp add: wrap32_def sint_sbintrunc' signed_take_bit_eq_take_bit_shift take_bit_eq_mod)

lemma stableBucket_poly: "stableBucket key = \<bar>wrap32 (poly_hash key)\<bar> mod 100"
proof -
  have "\<bar>x smod 100\<bar> = \<bar>x\<bar> mod 100" for x :: int by (simp add: smod_int_alt_def abs_mult sgn_if)
  then show ?thesis by (simp add: stableBucket_def bucket_hash_poly sint_wrap32)
qed

section \<open>The rule of a rollout\<close>

context comparator
begin

lemma find_insert_by:
  "sorted_wrt (\<lambda>a b. cmp a b \<le> 0) ys \<Longrightarrow> find P (insert_by cmp x ys) =
     (if \<not> P x then find P ys else case find P ys of None \<Rightarrow> Some x | Some b \<Rightarrow> Some (if cmp x b \<le> 0 then x else b))"
proof (induction ys)
  case (Cons y ys)
  have "cmp x b \<le> 0" if "cmp x y \<le> 0" "find P ys = Some b" for b
    using that Cons.prems cmp_trans[of x y b] by (auto simp: find_Some_iff)
  then show ?case using Cons by (auto split: option.splits)
qed simp

text \<open>The first of the least elements.\<close>

fun first_least :: "'a list \<Rightarrow> 'a option" where
  "first_least [] = None"
| "first_least (x # xs) = (case first_least xs of None \<Rightarrow> Some x | Some b \<Rightarrow> Some (if cmp x b \<le> 0 then x else b))"

lemma find_sort_by: "find P (sort_by cmp xs) = first_least (filter P xs)"
  by (induction xs) (simp_all add: find_insert_by[OF sorted_sort_by])

end

interpretation rule_order: comparator compareRuleSpecificity
  by unfold_locales (auto simp: compareRuleSpecificity_def sgn_if)

text \<open>The reference: the first of the most specific rules that apply, and the polynomial bucket.\<close>

fun most_specific :: "rollout_rule list \<Rightarrow> rollout_rule option" where
  "most_specific [] = None"
| "most_specific (r # rs) = (case most_specific rs of None \<Rightarrow> Some r
     | Some b \<Rightarrow> Some (if specificity r < specificity b then b else r))"

definition applies :: "rollout_request \<Rightarrow> rollout_rule \<Rightarrow> bool" where
  "applies q r = (rr_tier r = rq_tier q \<and> matchesScope q r)"

definition rolled_out :: "rollout_rule list \<Rightarrow> rollout_request \<Rightarrow> bool" where
  "rolled_out rules q = (rq_tenant q \<noteq> [] \<and> rq_project q \<noteq> [] \<and> rq_key q \<noteq> [] \<and>
     (case most_specific (filter (applies q) rules) of None \<Rightarrow> False
      | Some r \<Rightarrow> rr_enabled r \<and> \<bar>wrap32 (poly_hash (rq_key q))\<bar> mod 100 < rr_percent r))"

lemma most_specific_least: "rule_order.first_least rs = most_specific rs"
proof (induction rs)
  case (Cons r rs)
  have "compareRuleSpecificity r b \<le> 0 \<longleftrightarrow> \<not> specificity r < specificity b" for b by (auto simp: compareRuleSpecificity_def)
  then show ?case using Cons by (simp split: option.split)
qed simp

lemma selected_rule:
  "find (matchesScope q) (sort_by compareRuleSpecificity (filter (\<lambda>r. rr_tier r = rq_tier q) rules)) = most_specific (filter (applies q) rules)"
  unfolding rule_order.find_sort_by most_specific_least applies_def filter_filter by meson

lemma most_specific_some:
  "most_specific rs = Some r \<Longrightarrow> r \<in> set rs \<and> (\<forall>x \<in> set rs. specificity x \<le> specificity r)"
proof (induction rs arbitrary: r)
  case (Cons x rs)
  show ?case
  proof (cases "most_specific rs")
    case None
    then have "rs = []" by (cases rs) (simp_all split: option.splits)
    then show ?thesis using Cons.prems by simp
  next
    case (Some b)
    from Cons.IH[OF this] show ?thesis using Cons.prems Some by (auto split: if_splits intro: order_trans)
  qed
qed simp

lemma most_specific_map:
  assumes "\<And>r. specificity (f r) = specificity r"
  shows "most_specific (map f rs) = map_option f (most_specific rs)"
  by (induction rs) (simp_all add: assms split: option.split)

text \<open>C32. The rollout decision is the reference. Whether a feature is on is decided by the first of the most
  specific rules of the risk tier that apply, whose percentage must exceed the key's bucket, and the 32-bit hash with its
  wrap-around is the polynomial in 31 of the key's characters, so the bucket is a whole number from 0 to 99. In consequence a rollout is
  sticky: raising percentages, of any rules, never turns a key off, nobody is in at 0 percent and everybody at 100.\<close>

theorem rollout_is_reference:
  "(rd_enabled (evaluateGradualRolloutPolicy rules q) \<longleftrightarrow> rolled_out rules q)
   \<and> rd_bucket (evaluateGradualRolloutPolicy rules q) \<in> {None, Some (\<bar>wrap32 (poly_hash (rq_key q))\<bar> mod 100)}
   \<and> (if rolled_out rules q
        then rd_enabled (evaluateGradualRolloutPolicy (map (\<lambda>r. r\<lparr>rr_percent := rr_percent r + int (extra r)\<rparr>) rules) q) else True)
   \<and> (case most_specific (filter (applies q) rules) of None \<Rightarrow> \<not> rd_enabled (evaluateGradualRolloutPolicy rules q)
      | Some r \<Rightarrow> (if rr_percent r \<le> 0 then \<not> rd_enabled (evaluateGradualRolloutPolicy rules q)
          else if 100 \<le> rr_percent r
          then rd_enabled (evaluateGradualRolloutPolicy rules q) \<longleftrightarrow> rr_enabled r \<and> rq_tenant q \<noteq> [] \<and> rq_project q \<noteq> [] \<and> rq_key q \<noteq> []
          else True))"
proof -
  let ?f = "\<lambda>r :: rollout_rule. r\<lparr>rr_percent := rr_percent r + int (extra r)\<rparr>"
  let ?b = "\<bar>wrap32 (poly_hash (rq_key q))\<bar> mod 100"
  have on: "rd_enabled (evaluateGradualRolloutPolicy rules q) \<longleftrightarrow> rolled_out rules q" for rules
    by (simp add: evaluateGradualRolloutPolicy_def rolled_out_def selected_rule no_rollout_def stableBucket_poly Let_def split: option.split)
  have bucket: "rd_bucket (evaluateGradualRolloutPolicy rules q) \<in> {None, Some ?b}"
    by (simp add: evaluateGradualRolloutPolicy_def selected_rule no_rollout_def stableBucket_poly Let_def split: option.split)
  have f: "filter (applies q) (map ?f rules) = map ?f (filter (applies q) rules)"
    unfolding filter_map by (rule arg_cong[where f = "map ?f"], rule filter_cong) (simp_all add: applies_def matchesScope_def)
  have kept: "most_specific (map ?f rs) = map_option ?f (most_specific rs)" for rs
    by (rule most_specific_map) (simp add: specificity_def)
  have "rolled_out (map ?f rules) q" if "rolled_out rules q"
    using that by (auto simp: rolled_out_def f kept split: option.splits)
  moreover have "0 \<le> ?b" "?b < 100" by simp_all
  ultimately show ?thesis using bucket by (auto simp: on rolled_out_def split: option.split)
qed

section \<open>The review and the prefix\<close>

lemma review_fold: "fold review_step cs (bs, ws) =
   (bs @ map toIssue (filter (\<lambda>c. \<not> rc_passed c \<and> rc_severity c = Blocker_Check) cs),
    ws @ map toIssue (filter (\<lambda>c. \<not> rc_passed c \<and> rc_severity c \<noteq> Blocker_Check) cs))"
  by (induction cs arbitrary: bs ws) (simp_all add: review_step_def)

text \<open>A review is ready exactly when every blocking check has passed.\<close>

lemma review_ready:
  "rv_ready (evaluateProductionReadinessReview run date cs) \<longleftrightarrow> (\<forall>c \<in> set cs. rc_severity c = Blocker_Check \<longrightarrow> rc_passed c)"
  by (auto simp: evaluateProductionReadinessReview_def review_fold Let_def filter_empty_conv)

text \<open>Prefixes determine the tenant and the project: neither part contains the separator.\<close>

lemma no_colon_split: "CHR '':'' \<notin> set a \<Longrightarrow> CHR '':'' \<notin> set c \<Longrightarrow> a @ '':'' @ b = c @ '':'' @ d \<Longrightarrow> a = c \<and> b = d"
proof (induction a arbitrary: c)
  case Nil
  then show ?case by (cases c) auto
next
  case (Cons x a)
  then show ?case by (cases c) auto
qed

lemma tenant_prefix_inj:
  assumes "formatTenantScopePrefix t p = Inr x" "formatTenantScopePrefix t' p' = Inr x"
  shows "t = t' \<and> p = p'"
  using assms no_colon_split[of t t' p p']
  by (auto simp: formatTenantScopePrefix_def assertScope_def assertScopePart_def split: if_splits)

end
