(* ===== verification/Service_Levels.thy ===== *)
theory Service_Levels
  imports Governance Evidence
begin

text \<open>
  Service levels and records of the past: the indicators computed from the event log
  (\<open>packages/state/src/metrics/sli-snapshot.ts\<close>), the objectives and their alerts (\<open>packages/application/src/slo\<close>), and the
  audit log (\<open>packages/state/src/audit/immutable-audit-log.ts\<close>). Percentages are rational numbers, which the code
  rounds to doubles; \<open>nt\<close> is the text JavaScript gives a number.
\<close>

section \<open>Indicators\<close>

record sli =
  sli_success :: rat
  sli_timeout :: rat
  sli_cancellation :: rat
  sli_p95 :: rat
  sli_sample :: nat

record span_record =
  sn_name :: string
  sn_duration :: rat

definition compare_numbers :: "rat cmp" where
  "compare_numbers a b = (if a < b then - 1 else if b < a then 1 else 0)"

definition percentile95 :: "rat list \<Rightarrow> rat" where
  "percentile95 values =
     (if values = [] then 0
      else (let s = sort_by compare_numbers values;
                index = min (length s - 1) (nat (\<lceil>rat_of_nat (length s) * (95 / 100)\<rceil> - 1))
            in s ! index))"

definition with_code :: "string \<Rightarrow> event \<Rightarrow> bool" where
  "with_code c e = (rec_get (ev_payload e) ''code'' = Some [c])"

definition terminal_events :: "event list \<Rightarrow> event list" where
  "terminal_events es = filter (\<lambda>e. ev_type e = TASK_COMPLETED \<or> ev_type e = TASK_BLOCKED) es"

definition rate :: "nat \<Rightarrow> nat \<Rightarrow> rat" where
  "rate n whole = (of_nat n / of_nat (if whole = 0 then 1 else whole)) * 100"

definition buildSliSnapshotFromEvents :: "event list \<Rightarrow> span_record list \<Rightarrow> sli" where
  "buildSliSnapshotFromEvents es spans =
     (let terminal = terminal_events es; ended = length terminal in
      \<lparr> sli_success = rate (length (filter (\<lambda>e. ev_type e = TASK_COMPLETED) terminal)) ended,
        sli_timeout = rate (length (filter (with_code ''STEP_TIMEOUT'') terminal)) ended,
        sli_cancellation = rate (length (filter (with_code ''STEP_CANCELLED'') terminal)) ended,
        sli_p95 = percentile95 (map sn_duration (filter (\<lambda>s. sn_name s = ''task_run'') spans)),
        sli_sample = ended \<rparr>)"

section \<open>Objectives\<close>

record slo_policy =
  sp_id :: string
  sp_minSuccess :: rat
  sp_maxTimeout :: rat
  sp_maxCancellation :: rat
  sp_maxP95 :: rat
  sp_periodDays :: nat
  sp_monthlyBudget :: rat
  sp_burnWarning :: rat

definition DEFAULT_AUTONOMOUS_SLO_POLICY :: slo_policy where
  "DEFAULT_AUTONOMOUS_SLO_POLICY = \<lparr> sp_id = ''autonomous-default-v1'', sp_minSuccess = 99, sp_maxTimeout = 1, sp_maxCancellation = 2,
     sp_maxP95 = 120000, sp_periodDays = 30, sp_monthlyBudget = 1, sp_burnWarning = 70 \<rparr>"

datatype incident = Success_Breach | Timeout_Breach | Cancellation_Breach | Latency_Breach | Burn_Warning | Budget_Exhausted

text \<open>A criterion is known by the incident it reports when it fails.\<close>

record slo_criterion =
  sc_id :: string
  sc_pass :: bool
  sc_evidence :: string

datatype budget_status = Budget_Healthy | Budget_Burning | Budget_Spent

record slo_assessment =
  sa_policy :: string
  sa_generatedAt :: stamp
  sa_healthy :: bool
  sa_criteria :: "slo_criterion list"
  sa_consumed :: rat
  sa_remaining :: rat
  sa_budget :: budget_status

text \<open>\<open>toFixed(2)\<close> of a number that is not negative.\<close>

definition to_fixed2 :: "rat \<Rightarrow> string" where
  "to_fixed2 x = (let n = nat \<lfloor>x * 100 + 1 / 2\<rfloor> in nat_to_string (n div 100) @ ''.'' @ pad 2 (n mod 100))"

definition slo_criteria :: "(rat \<Rightarrow> string) \<Rightarrow> sli \<Rightarrow> slo_policy \<Rightarrow> slo_criterion list" where
  "slo_criteria nt s p =
     [\<lparr> sc_id = ''success-rate'', sc_pass = (sp_minSuccess p \<le> sli_success s),
        sc_evidence = ''successRate='' @ to_fixed2 (sli_success s) @ ''% threshold>='' @ nt (sp_minSuccess p) @ ''%'' \<rparr>,
      \<lparr> sc_id = ''timeout-rate'', sc_pass = (sli_timeout s \<le> sp_maxTimeout p),
        sc_evidence = ''timeoutRate='' @ to_fixed2 (sli_timeout s) @ ''% threshold<='' @ nt (sp_maxTimeout p) @ ''%'' \<rparr>,
      \<lparr> sc_id = ''cancellation-rate'', sc_pass = (sli_cancellation s \<le> sp_maxCancellation p),
        sc_evidence = ''cancellationRate='' @ to_fixed2 (sli_cancellation s) @ ''% threshold<='' @ nt (sp_maxCancellation p) @ ''%'' \<rparr>,
      \<lparr> sc_id = ''p95-latency'', sc_pass = (sli_p95 s \<le> sp_maxP95 p),
        sc_evidence = ''p95LatencyMs='' @ nt (sli_p95 s) @ '' threshold<='' @ nt (sp_maxP95 p) \<rparr>]"

definition assessSlo :: "(rat \<Rightarrow> string) \<Rightarrow> stamp \<Rightarrow> sli \<Rightarrow> slo_policy \<Rightarrow> slo_assessment" where
  "assessSlo nt now s p =
     (let criteria = slo_criteria nt s p; consumed = max 0 (100 - sli_success s) in
      \<lparr> sa_policy = sp_id p, sa_generatedAt = now, sa_healthy = list_all sc_pass criteria, sa_criteria = criteria,
        sa_consumed = consumed, sa_remaining = max 0 (sp_monthlyBudget p - consumed),
        sa_budget = (if sp_monthlyBudget p < consumed then Budget_Spent
                     else if sp_burnWarning p \<le> consumed then Budget_Burning else Budget_Healthy) \<rparr>)"

section \<open>Alerts\<close>

datatype alert_severity = Alert_Warning | Alert_Critical

record runbook =
  rb_id :: incident
  rb_title :: string
  rb_path :: string

record slo_alert =
  al_id :: string
  al_incident :: incident
  al_severity :: alert_severity
  al_summary :: string
  al_details :: string
  al_runbook :: runbook
  al_evidence :: "string list"
  al_generatedAt :: stamp
  al_policy :: string

fun incident_text :: "incident \<Rightarrow> string" where
  "incident_text Success_Breach = ''success_rate_breach''"
| "incident_text Timeout_Breach = ''timeout_rate_breach''"
| "incident_text Cancellation_Breach = ''cancellation_rate_breach''"
| "incident_text Latency_Breach = ''latency_breach''"
| "incident_text Burn_Warning = ''error_budget_burn_warning''"
| "incident_text Budget_Exhausted = ''error_budget_exhausted''"

definition runbook_path :: "string \<Rightarrow> string" where
  "runbook_path anchor = ''docs/runbooks/autonomous-incidents.md#'' @ anchor"

fun RUNBOOKS :: "incident \<Rightarrow> runbook" where
  "RUNBOOKS Success_Breach = \<lparr> rb_id = Success_Breach, rb_title = ''Success rate SLO breach response'', rb_path = runbook_path ''1-success-rate-breach'' \<rparr>"
| "RUNBOOKS Timeout_Breach = \<lparr> rb_id = Timeout_Breach, rb_title = ''Timeout incident response'', rb_path = runbook_path ''2-timeout-rate-breach'' \<rparr>"
| "RUNBOOKS Cancellation_Breach = \<lparr> rb_id = Cancellation_Breach, rb_title = ''Cancellation storm response'', rb_path = runbook_path ''3-cancellation-rate-breach'' \<rparr>"
| "RUNBOOKS Latency_Breach = \<lparr> rb_id = Latency_Breach, rb_title = ''Latency degradation response'', rb_path = runbook_path ''4-latency-breach'' \<rparr>"
| "RUNBOOKS Burn_Warning = \<lparr> rb_id = Burn_Warning, rb_title = ''Error budget burn warning'', rb_path = runbook_path ''5-error-budget-burn-warning'' \<rparr>"
| "RUNBOOKS Budget_Exhausted = \<lparr> rb_id = Budget_Exhausted, rb_title = ''Error budget exhausted incident'', rb_path = runbook_path ''6-error-budget-exhausted'' \<rparr>"

definition mapCriterionFailureToIncident :: "slo_criterion \<Rightarrow> incident option" where
  "mapCriterionFailureToIncident c =
     (if sc_pass c then None
      else map_of [(''success-rate'', Success_Breach), (''timeout-rate'', Timeout_Breach),
                   (''cancellation-rate'', Cancellation_Breach), (''p95-latency'', Latency_Breach)] (sc_id c))"

fun severity_text :: "alert_severity \<Rightarrow> string" where
  "severity_text Alert_Warning = ''warning''"
| "severity_text Alert_Critical = ''critical''"

definition createAlert :: "incident \<Rightarrow> alert_severity \<Rightarrow> slo_assessment \<Rightarrow> string list \<Rightarrow> slo_alert" where
  "createAlert i sev a ev =
     \<lparr> al_id = sa_policy a @ '':'' @ incident_text i, al_incident = i, al_severity = sev,
       al_summary = ''SLO '' @ incident_text i @ '' ('' @ severity_text sev @ '')'',
       al_details = ''Autonomous SLO policy '' @ sa_policy a @ '' produced '' @ incident_text i @ '' in verdict ''
         @ (if sa_healthy a then ''healthy'' else ''at_risk''),
       al_runbook = RUNBOOKS i, al_evidence = ev, al_generatedAt = sa_generatedAt a, al_policy = sa_policy a \<rparr>"

definition budget_evidence :: "(rat \<Rightarrow> string) \<Rightarrow> slo_assessment \<Rightarrow> slo_policy option \<Rightarrow> string list" where
  "budget_evidence nt a p = [''errorBudgetConsumedPercent='' @ to_fixed2 (sa_consumed a),
     ''errorBudgetLimitPercent='' @ nt (or_default (map_option sp_monthlyBudget p) 1)]"

definition buildSloAlertBatch :: "(rat \<Rightarrow> string) \<Rightarrow> stamp \<Rightarrow> sli \<Rightarrow> slo_policy option \<Rightarrow> slo_assessment \<times> slo_alert list" where
  "buildSloAlertBatch nt now s p =
     (let a = assessSlo nt now s (or_default p DEFAULT_AUTONOMOUS_SLO_POLICY) in
      (a, List.map_filter (\<lambda>c. map_option (\<lambda>i. createAlert i Alert_Critical a [sc_evidence c]) (mapCriterionFailureToIncident c)) (sa_criteria a)
          @ (if sa_budget a = Budget_Burning then [createAlert Burn_Warning Alert_Warning a (budget_evidence nt a p)] else [])
          @ (if sa_budget a = Budget_Spent then [createAlert Budget_Exhausted Alert_Critical a (budget_evidence nt a p)] else [])))"

section \<open>The audit log\<close>

record audit_record =
  au_index :: nat
  au_eventId :: string
  au_created :: stamp
  au_checksum :: string
  au_previous :: "string option"
  au_type :: event_type
  au_run :: "string option"
  au_payload :: "string list jsrec"

definition payload_json :: "string list jsrec \<Rightarrow> json" where
  "payload_json p = JObj (map (\<lambda>(k, v). (k, case v of [x] \<Rightarrow> JStr x | _ \<Rightarrow> JArr (map JStr v))) p)"

definition text_or_null :: "string option \<Rightarrow> json" where
  "text_or_null x = (case x of None \<Rightarrow> JNull | Some s \<Rightarrow> JStr s)"

definition audit_checksum :: "(string \<Rightarrow> string) \<Rightarrow> (event_type \<Rightarrow> string) \<Rightarrow> event \<Rightarrow> nat \<Rightarrow> string option \<Rightarrow> string" where
  "audit_checksum sha ty e i prev = sha (canonicalizeEvidencePayload (JObj
     [(''index'', JNum (int i)), (''id'', JStr (ev_id e)), (''createdAt'', JStr (stamp_text (ev_created e))),
      (''eventType'', JStr (ty (ev_type e))), (''runId'', text_or_null (ev_run e)), (''previousChecksum'', text_or_null prev),
      (''payload'', payload_json (ev_payload e))]))"

fun audit_records :: "(string \<Rightarrow> string) \<Rightarrow> (event_type \<Rightarrow> string) \<Rightarrow> nat \<Rightarrow> string option \<Rightarrow> event list \<Rightarrow> audit_record list" where
  "audit_records sha ty i prev [] = []"
| "audit_records sha ty i prev (e # es) =
     (let c = audit_checksum sha ty e i prev in
      \<lparr> au_index = i, au_eventId = ev_id e, au_created = ev_created e, au_checksum = c, au_previous = prev, au_type = ev_type e,
        au_run = ev_run e, au_payload = ev_payload e \<rparr> # audit_records sha ty (Suc i) (Some c) es)"

definition by_creation :: "string cmp \<Rightarrow> event cmp" where
  "by_creation lc l r = lc (stamp_text (ev_created l)) (stamp_text (ev_created r))"

definition buildImmutableAuditLog :: "string cmp \<Rightarrow> (string \<Rightarrow> string) \<Rightarrow> (event_type \<Rightarrow> string) \<Rightarrow> event list \<Rightarrow> audit_record list" where
  "buildImmutableAuditLog lc sha ty es = audit_records sha ty 0 None (sort_by (by_creation lc) es)"

section \<open>What the default objectives report\<close>

lemma budget_by_success:
  "sa_budget (assessSlo nt now s DEFAULT_AUTONOMOUS_SLO_POLICY) = (if sli_success s < 99 then Budget_Spent else Budget_Healthy)"
  by (auto simp: assessSlo_def DEFAULT_AUTONOMOUS_SLO_POLICY_def Let_def less_max_iff_disj)

lemma alert_incidents: "map al_incident (snd (buildSloAlertBatch nt now s None)) =
   (if sli_success s < 99 then [Success_Breach] else []) @ (if 1 < sli_timeout s then [Timeout_Breach] else []) @
   (if 2 < sli_cancellation s then [Cancellation_Breach] else []) @ (if 120000 < sli_p95 s then [Latency_Breach] else []) @
   (if sli_success s < 99 then [Budget_Exhausted] else [])"
proof -
  have c: "sa_criteria (assessSlo nt now s DEFAULT_AUTONOMOUS_SLO_POLICY) = slo_criteria nt s DEFAULT_AUTONOMOUS_SLO_POLICY"
    by (simp add: assessSlo_def Let_def)
  show ?thesis
    unfolding buildSloAlertBatch_def Let_def or_default_simps snd_conv budget_by_success c
    by (simp add: slo_criteria_def mapCriterionFailureToIncident_def List.map_filter_def createAlert_def DEFAULT_AUTONOMOUS_SLO_POLICY_def not_le)
qed

lemma rate_less: "rate n whole < p \<longleftrightarrow> 100 * of_nat n < p * of_nat (if whole = 0 then 1 else whole)"
  by (simp add: rate_def field_simps)

lemma less_rate: "p < rate n whole \<longleftrightarrow> p * of_nat (if whole = 0 then 1 else whole) < 100 * of_nat n"
  by (simp add: rate_def field_simps)

lemma of_nat_numeral_less: "(numeral a * of_nat n :: rat) < numeral b * of_nat m \<longleftrightarrow> numeral a * n < numeral b * m"
  by (metis of_nat_less_iff of_nat_mult of_nat_numeral)

text \<open>The alerts of the default objectives. Over any event log, the default policy reports a breach of the success
  rate exactly when no task has ended or fewer than 99 of 100 ended tasks were completed, a timeout and a cancellation
  breach when more than 1 and 2 of 100 ended that way, a latency breach above two minutes, and the exhausted error
  budget together with every breach of the success rate: the warning that comes before exhaustion is never given, and a
  project that has not run anything is in a critical incident.\<close>

theorem default_alerts_exact:
  "let t = terminal_events es; n = length t; count = (\<lambda>P. length (filter P t));
       low = (n = 0 \<or> 100 * count (\<lambda>e. ev_type e = TASK_COMPLETED) < 99 * n);
       alerts = snd (buildSloAlertBatch nt now (buildSliSnapshotFromEvents es spans) None)
   in map al_incident alerts =
        (if low then [Success_Breach] else []) @
        (if n < 100 * count (with_code ''STEP_TIMEOUT'') then [Timeout_Breach] else []) @
        (if 2 * n < 100 * count (with_code ''STEP_CANCELLED'') then [Cancellation_Breach] else []) @
        (if 120000 < percentile95 (map sn_duration (filter (\<lambda>s. sn_name s = ''task_run'') spans)) then [Latency_Breach] else []) @
        (if low then [Budget_Exhausted] else [])
      \<and> Burn_Warning \<notin> set (map al_incident alerts)"
proof -
  let ?t = "terminal_events es" let ?n = "length ?t" let ?s = "buildSliSnapshotFromEvents es spans"
  have none: "length (filter P ?t) = 0" if "?n = 0" for P using that by simp
  have s: "sli_success ?s < 99 \<longleftrightarrow> ?n = 0 \<or> 100 * length (filter (\<lambda>e. ev_type e = TASK_COMPLETED) ?t) < 99 * ?n"
    using none by (simp add: buildSliSnapshotFromEvents_def Let_def rate_less of_nat_numeral_less)
  have t: "1 < sli_timeout ?s \<longleftrightarrow> ?n < 100 * length (filter (with_code ''STEP_TIMEOUT'') ?t)"
    using none of_nat_numeral_less[of "num.One" ?n] by (simp add: buildSliSnapshotFromEvents_def Let_def less_rate)
  have c: "2 < sli_cancellation ?s \<longleftrightarrow> 2 * ?n < 100 * length (filter (with_code ''STEP_CANCELLED'') ?t)"
    using none by (simp add: buildSliSnapshotFromEvents_def Let_def less_rate of_nat_numeral_less)
  have p: "sli_p95 ?s = percentile95 (map sn_duration (filter (\<lambda>s. sn_name s = ''task_run'') spans))"
    by (simp add: buildSliSnapshotFromEvents_def Let_def)
  show ?thesis unfolding Let_def alert_incidents s t c p by simp
qed

section \<open>What the audit log binds\<close>

definition last_checksum :: "string option \<Rightarrow> audit_record list \<Rightarrow> string option" where
  "last_checksum prev rs = (if rs = [] then prev else Some (au_checksum (last rs)))"

lemma last_checksum_Cons: "last_checksum prev (r # rs) = last_checksum (Some (au_checksum r)) rs"
  by (simp add: last_checksum_def)

lemma audit_snoc:
  "audit_records sha ty i prev (es @ [e]) = audit_records sha ty i prev es @
     audit_records sha ty (i + length es) (last_checksum prev (audit_records sha ty i prev es)) [e]"
proof (induction es arbitrary: i prev)
  case (Cons x es)
  show ?case using Cons.IH[of "Suc i" "Some (audit_checksum sha ty x i prev)"] by (simp add: Let_def last_checksum_Cons)
qed (simp add: last_checksum_def Let_def)

text \<open>An event that is not older than the others is appended: the records of the others stay as they are.\<close>

lemma audit_log_extends:
  assumes "\<forall>x \<in> set es. by_creation lc x e \<le> 0"
  shows "\<exists>r. buildImmutableAuditLog lc sha ty (es @ [e]) = buildImmutableAuditLog lc sha ty es @ [r]"
  unfolding buildImmutableAuditLog_def sort_by_snoc_greatest[where cmp = "by_creation lc", OF assms] audit_snoc by (simp add: Let_def)

definition audit_input :: "(event_type \<Rightarrow> string) \<Rightarrow> audit_record \<Rightarrow> json" where
  "audit_input ty r = JObj [(''index'', JNum (int (au_index r))), (''id'', JStr (au_eventId r)), (''createdAt'', JStr (stamp_text (au_created r))),
      (''eventType'', JStr (ty (au_type r))), (''runId'', text_or_null (au_run r)), (''previousChecksum'', text_or_null (au_previous r)),
      (''payload'', payload_json (au_payload r))]"

definition audit_same :: "(event_type \<Rightarrow> string) \<Rightarrow> audit_record \<Rightarrow> audit_record \<Rightarrow> bool" where
  "audit_same ty a b \<longleftrightarrow> au_index a = au_index b \<and> au_eventId a = au_eventId b \<and> stamp_text (au_created a) = stamp_text (au_created b)
     \<and> ty (au_type a) = ty (au_type b) \<and> au_run a = au_run b \<and> au_previous a = au_previous b
     \<and> normalize (payload_json (au_payload a)) = normalize (payload_json (au_payload b))"

lemma text_or_null_inj: "text_or_null x = text_or_null y \<Longrightarrow> x = y"
  by (cases x; cases y) (simp_all add: text_or_null_def)

lemma normalize_text_or_null: "normalize (text_or_null x) = text_or_null x"
  by (cases x) (simp_all add: text_or_null_def)

lemma text_or_null_defined: "text_or_null x \<noteq> JUndefined" "payload_json p \<noteq> JUndefined"
  by (cases x) (simp_all add: text_or_null_def payload_json_def)

lemma members_audit_input:
  "members (normalize (audit_input ty r)) = {(''index'', JNum (int (au_index r))), (''id'', JStr (au_eventId r)),
     (''createdAt'', JStr (stamp_text (au_created r))), (''eventType'', JStr (ty (au_type r))), (''runId'', text_or_null (au_run r)),
     (''previousChecksum'', text_or_null (au_previous r)), (''payload'', normalize (payload_json (au_payload r)))}"
  by (auto simp: members_def audit_input_def normalize_text_or_null text_or_null_defined)

lemma audit_same_members:
  assumes "members (normalize (audit_input ty a)) = members (normalize (audit_input ty b))"
  shows "audit_same ty a b"
proof -
  have m: "(k, v) \<in> members (normalize (audit_input ty a)) \<longleftrightarrow> (k, v) \<in> members (normalize (audit_input ty b))" for k v
    using assms by simp
  note f = m[unfolded members_audit_input, simplified]
  show ?thesis unfolding audit_same_def
    using f[of "''index''" "JNum (int (au_index a))"] f[of "''id''" "JStr (au_eventId a)"] f[of "''createdAt''" "JStr (stamp_text (au_created a))"]
      f[of "''eventType''" "JStr (ty (au_type a))"] f[of "''runId''" "text_or_null (au_run a)"]
      f[of "''previousChecksum''" "text_or_null (au_previous a)"] f[of "''payload''" "normalize (payload_json (au_payload a))"]
    by (simp add: text_or_null_inj)
qed

definition checked_record :: "(string \<Rightarrow> string) \<Rightarrow> (event_type \<Rightarrow> string) \<Rightarrow> audit_record \<Rightarrow> bool" where
  "checked_record sha ty r = (au_checksum r = sha (canonicalizeEvidencePayload (audit_input ty r)))"

lemma same_checksum:
  assumes "checked_record sha ty a" "checked_record sha ty b" "au_checksum a = au_checksum b"
  shows "audit_same ty a b \<or> collision sha"
proof (cases "canonicalizeEvidencePayload (audit_input ty a) = canonicalizeEvidencePayload (audit_input ty b)")
  case True
  then have "members (normalize (audit_input ty a)) = members (normalize (audit_input ty b))" using canonicalizeEvidencePayload_inj by metis
  then show ?thesis using audit_same_members by blast
qed (use assms in \<open>auto simp: checked_record_def collision_def\<close>)

lemma checked_single:
  "\<exists>r. audit_records sha ty i prev [e] = [r] \<and> checked_record sha ty r \<and> au_index r = i \<and> au_previous r = prev"
  by (simp add: Let_def checked_record_def audit_input_def audit_checksum_def)

text \<open>The last checksum binds the audit log. Two non-empty audit logs that end in the same checksum have the same
  length and agree record by record on the index, the event's id, time, type and run, the previous checksum and the
  payload, unless the hash function has a collision.\<close>

theorem audit_log_binding:
  assumes "buildImmutableAuditLog lc sha ty es = as @ [a]" "buildImmutableAuditLog lc sha ty fs = bs @ [b]" "au_checksum a = au_checksum b"
  shows "list_all2 (audit_same ty) (as @ [a]) (bs @ [b]) \<or> collision sha"
proof -
  let ?R = "audit_records sha ty 0 None"
  have all: "list_all2 (audit_same ty) (?R xs) (?R ys) \<or> collision sha" if "last_checksum None (?R xs) = last_checksum None (?R ys)" for xs ys
    using that
  proof (induction xs arbitrary: ys rule: rev_induct)
    case Nil
    then show ?case by (cases ys) (simp_all add: last_checksum_def Let_def split: if_splits)
  next
    case (snoc x xs)
    obtain r where r: "?R (xs @ [x]) = ?R xs @ [r]" "checked_record sha ty r" "au_previous r = last_checksum None (?R xs)"
      using checked_single[of sha ty "0 + length xs" "last_checksum None (?R xs)" x] unfolding audit_snoc by auto
    have "ys \<noteq> []" using snoc.prems unfolding r(1) by (auto simp: last_checksum_def split: if_splits)
    then obtain y ys' where ys: "ys = ys' @ [y]" by (cases ys rule: rev_cases) simp_all
    obtain q where q: "?R ys = ?R ys' @ [q]" "checked_record sha ty q" "au_previous q = last_checksum None (?R ys')"
      using checked_single[of sha ty "0 + length ys'" "last_checksum None (?R ys')" y] unfolding ys audit_snoc by auto
    have "au_checksum r = au_checksum q" using snoc.prems unfolding r(1) q(1) by (simp add: last_checksum_def)
    then consider "audit_same ty r q" | "collision sha" using same_checksum[OF r(2) q(2)] by blast
    then show ?case
    proof cases
      case 1
      then have "last_checksum None (?R xs) = last_checksum None (?R ys')" using r(3) q(3) by (simp add: audit_same_def)
      from snoc.IH[OF this] show ?thesis unfolding r(1) q(1) using 1 by (auto intro: list_all2_appendI)
    qed simp
  qed
  have "last_checksum None (?R (sort_by (by_creation lc) es)) = last_checksum None (?R (sort_by (by_creation lc) fs))"
    using assms unfolding buildImmutableAuditLog_def by (simp add: last_checksum_def)
  from all[OF this] show ?thesis using assms(1,2) unfolding buildImmutableAuditLog_def by simp
qed

definition sample_audit_event :: event where
  "sample_audit_event = makeEvent ''e1'' (Iso 0) TASK_COMPLETED [(''taskId'', [''t1''])] (Some ''r'') None"

lemma audit_log_binding_witness:
  "\<exists>a. buildImmutableAuditLog code_unit_compare (\<lambda>x. x) (\<lambda>_. ''TASK_COMPLETED'') [sample_audit_event] = [] @ [a] \<and>
     list_all2 (audit_same (\<lambda>_. ''TASK_COMPLETED'')) ([] @ [a]) ([] @ [a])"
proof -
  obtain a where a: "buildImmutableAuditLog code_unit_compare (\<lambda>x. x) (\<lambda>_. ''TASK_COMPLETED'') [sample_audit_event] = [] @ [a]"
    by (simp add: buildImmutableAuditLog_def Let_def)
  have "\<not> collision (\<lambda>x. x)" by (simp add: collision_def)
  then show ?thesis using audit_log_binding[OF a a refl] a by blast
qed

end
