(* ===== verification/Effective_Config.thy ===== *)
theory Effective_Config
  imports Policy
begin

text \<open>
  The configuration of a project and the layers above and below it (\<open>packages/core/src/config/project-config.ts\<close>): defaults,
  instance, project, agent and run, each overriding the one before it. An override is parsed, so a member it does not set is
  absent (\<open>None\<close>). The schemas trim the strings of the tool lists.
\<close>

section \<open>The documents\<close>

datatype safe_write_mode = Mode_Read_Only | Mode_Propose_Only | Mode_Sandbox_Write | Mode_Workspace_Write | Mode_Protected_Write

record workflow_override =
  wo_maxSteps :: "int option"
  wo_maxRetries :: "int option"
  wo_gateEnabled :: "bool option"
  wo_required :: "approval_action list option"
  wo_bulk :: "int option"

record tools_override =
  to_mode :: "safe_write_mode option"
  to_allowed :: "string list option"
  to_protected :: "string list option"
  to_commands :: "string list option"
  to_maxFiles :: "int option"

record token_budget =
  tb_perRun :: "int option"
  tb_perTask :: "int option"
  tb_perDay :: "int option"

record money_budget =
  mb_perRun :: "int option"
  mb_perTask :: "int option"
  mb_perDay :: "int option"

record budgets_override =
  bo_tokens :: "token_budget option"
  bo_money :: "money_budget option"

record config_override =
  co_workflow :: "workflow_override option"
  co_tools :: "tools_override option"
  co_budgets :: "budgets_override option"
  co_routing :: "string option"

record workflow_settings =
  ws_maxSteps :: int
  ws_maxRetries :: int
  ws_gateEnabled :: bool
  ws_required :: "approval_action list"
  ws_bulk :: int

record tools_settings =
  ts_mode :: safe_write_mode
  ts_allowed :: "string list"
  ts_protected :: "string list"
  ts_commands :: "string list"
  ts_maxFiles :: int

record project_config =
  pc_project :: string
  pc_version :: int
  pc_workflow :: workflow_settings
  pc_tools :: tools_settings
  pc_tokens :: token_budget
  pc_money :: money_budget
  pc_routing :: "string option"
  pc_agents :: "config_override jsrec option"

section \<open>The schemas\<close>

text \<open>A schema gives the parsed value, or nothing when it finds an issue.\<close>

definition positive :: "int option \<Rightarrow> bool" where
  "positive x = (case x of None \<Rightarrow> True | Some n \<Rightarrow> 0 < n)"

definition nonnegative :: "int option \<Rightarrow> bool" where
  "nonnegative x = (case x of None \<Rightarrow> True | Some n \<Rightarrow> 0 \<le> n)"

definition solid_list :: "string list option \<Rightarrow> bool" where
  "solid_list x = (case x of None \<Rightarrow> True | Some xs \<Rightarrow> list_all (\<lambda>s. \<not> blank s) xs)"

definition workflow_ok :: "workflow_override \<Rightarrow> bool" where
  "workflow_ok w = (positive (wo_maxSteps w) \<and> nonnegative (wo_maxRetries w) \<and> positive (wo_bulk w))"

definition tools_ok :: "tools_override \<Rightarrow> bool" where
  "tools_ok t = (solid_list (to_allowed t) \<and> solid_list (to_protected t) \<and> solid_list (to_commands t) \<and> positive (to_maxFiles t))"

definition tokens_ok :: "token_budget \<Rightarrow> bool" where
  "tokens_ok b = (positive (tb_perRun b) \<and> positive (tb_perTask b) \<and> positive (tb_perDay b))"

definition money_ok :: "money_budget \<Rightarrow> bool" where
  "money_ok b = (nonnegative (mb_perRun b) \<and> nonnegative (mb_perTask b) \<and> nonnegative (mb_perDay b))"

definition routing_ok :: "string option \<Rightarrow> bool" where
  "routing_ok x = (case x of None \<Rightarrow> True | Some s \<Rightarrow> s \<noteq> [])"

definition budgets_ok :: "budgets_override \<Rightarrow> bool" where
  "budgets_ok b = (pred_option tokens_ok (bo_tokens b) \<and> pred_option money_ok (bo_money b))"

definition override_ok :: "config_override \<Rightarrow> bool" where
  "override_ok c = (pred_option workflow_ok (co_workflow c) \<and> pred_option tools_ok (co_tools c)
     \<and> pred_option budgets_ok (co_budgets c) \<and> routing_ok (co_routing c))"

definition trim_tools :: "tools_override \<Rightarrow> tools_override" where
  "trim_tools t = t\<lparr> to_allowed := map_option (map js_trim) (to_allowed t), to_protected := map_option (map js_trim) (to_protected t),
     to_commands := map_option (map js_trim) (to_commands t) \<rparr>"

definition trim_override :: "config_override \<Rightarrow> config_override" where
  "trim_override c = c\<lparr>co_tools := map_option trim_tools (co_tools c)\<rparr>"

definition identifier_ok :: "string \<Rightarrow> bool" where
  "identifier_ok s = (s \<noteq> [] \<and> CHR '':'' \<notin> set s)"

definition agents_ok :: "config_override jsrec option \<Rightarrow> bool" where
  "agents_ok x = (case x of None \<Rightarrow> True | Some kvs \<Rightarrow> list_all (\<lambda>(k, v). k \<noteq> [] \<and> override_ok v) kvs)"

definition as_workflow_override :: "workflow_settings \<Rightarrow> workflow_override" where
  "as_workflow_override w = \<lparr> wo_maxSteps = Some (ws_maxSteps w), wo_maxRetries = Some (ws_maxRetries w),
     wo_gateEnabled = Some (ws_gateEnabled w), wo_required = Some (ws_required w), wo_bulk = Some (ws_bulk w) \<rparr>"

definition as_tools_override :: "tools_settings \<Rightarrow> tools_override" where
  "as_tools_override t = \<lparr> to_mode = Some (ts_mode t), to_allowed = Some (ts_allowed t), to_protected = Some (ts_protected t),
     to_commands = Some (ts_commands t), to_maxFiles = Some (ts_maxFiles t) \<rparr>"

definition full_workflow :: "workflow_override \<Rightarrow> workflow_settings option" where
  "full_workflow w = (case (wo_maxSteps w, wo_maxRetries w, wo_gateEnabled w, wo_required w, wo_bulk w) of
     (Some a, Some b, Some c, Some d, Some e) \<Rightarrow> if workflow_ok w
       then Some \<lparr> ws_maxSteps = a, ws_maxRetries = b, ws_gateEnabled = c, ws_required = d, ws_bulk = e \<rparr> else None
   | _ \<Rightarrow> None)"

definition full_tools :: "tools_override \<Rightarrow> tools_settings option" where
  "full_tools t = (case (to_mode t, to_allowed t, to_protected t, to_commands t, to_maxFiles t) of
     (Some a, Some b, Some c, Some d, Some e) \<Rightarrow> if tools_ok t
       then Some \<lparr> ts_mode = a, ts_allowed = map js_trim b, ts_protected = map js_trim c, ts_commands = map js_trim d, ts_maxFiles = e \<rparr> else None
   | _ \<Rightarrow> None)"

text \<open>\<open>projectConfigSchema\<close> on a document whose sections may be incomplete.\<close>

definition projectConfigSchema :: "string \<Rightarrow> int \<Rightarrow> config_override jsrec option \<Rightarrow> config_override \<Rightarrow> project_config option" where
  "projectConfigSchema project version agents c =
     (case (Option.bind (co_workflow c) full_workflow, Option.bind (co_tools c) full_tools, co_budgets c) of
        (Some w, Some t, Some b) \<Rightarrow> (case (bo_tokens b, bo_money b) of
            (Some tk, Some mo) \<Rightarrow>
              if identifier_ok project \<and> 0 \<le> version \<and> tokens_ok tk \<and> money_ok mo \<and> routing_ok (co_routing c) \<and> agents_ok agents
              then Some \<lparr> pc_project = project, pc_version = version, pc_workflow = w, pc_tools = t, pc_tokens = tk, pc_money = mo,
                     pc_routing = co_routing c, pc_agents = map_option (map (\<lambda>(k, v). (k, trim_override v))) agents \<rparr>
              else None
          | _ \<Rightarrow> None)
      | _ \<Rightarrow> None)"

definition projectAsOverride :: "project_config \<Rightarrow> config_override" where
  "projectAsOverride p = \<lparr> co_workflow = Some (as_workflow_override (pc_workflow p)), co_tools = Some (as_tools_override (pc_tools p)),
     co_budgets = Some \<lparr> bo_tokens = Some (pc_tokens p), bo_money = Some (pc_money p) \<rparr>, co_routing = pc_routing p \<rparr>"

definition assertProjectConfig :: "project_config \<Rightarrow> unit result" where
  "assertProjectConfig p = (if projectConfigSchema (pc_project p) (pc_version p) (pc_agents p) (projectAsOverride p) = None
     then Inl (Js_Error ConfigError ''ProjectConfig failed validation'' []) else Inr ())"

section \<open>Merging\<close>

text \<open>\<open>{ ...base, ...override }\<close> on one member.\<close>

definition over :: "'a option \<Rightarrow> 'a option \<Rightarrow> 'a option" where
  "over base new = (case new of None \<Rightarrow> base | Some x \<Rightarrow> Some x)"

definition spread_workflow :: "workflow_override \<Rightarrow> workflow_override \<Rightarrow> workflow_override" where
  "spread_workflow a b = \<lparr> wo_maxSteps = over (wo_maxSteps a) (wo_maxSteps b), wo_maxRetries = over (wo_maxRetries a) (wo_maxRetries b),
     wo_gateEnabled = over (wo_gateEnabled a) (wo_gateEnabled b), wo_required = over (wo_required a) (wo_required b),
     wo_bulk = over (wo_bulk a) (wo_bulk b) \<rparr>"

definition spread_tools :: "tools_override \<Rightarrow> tools_override \<Rightarrow> tools_override" where
  "spread_tools a b = \<lparr> to_mode = over (to_mode a) (to_mode b), to_allowed = over (to_allowed a) (to_allowed b),
     to_protected = over (to_protected a) (to_protected b), to_commands = over (to_commands a) (to_commands b),
     to_maxFiles = over (to_maxFiles a) (to_maxFiles b) \<rparr>"

definition spread_tokens :: "token_budget \<Rightarrow> token_budget \<Rightarrow> token_budget" where
  "spread_tokens a b = \<lparr> tb_perRun = over (tb_perRun a) (tb_perRun b), tb_perTask = over (tb_perTask a) (tb_perTask b),
     tb_perDay = over (tb_perDay a) (tb_perDay b) \<rparr>"

definition spread_money :: "money_budget \<Rightarrow> money_budget \<Rightarrow> money_budget" where
  "spread_money a b = \<lparr> mb_perRun = over (mb_perRun a) (mb_perRun b), mb_perTask = over (mb_perTask a) (mb_perTask b),
     mb_perDay = over (mb_perDay a) (mb_perDay b) \<rparr>"

text \<open>\<open>override ? { ...base, ...override } : base\<close>.\<close>

definition merge_section :: "('a \<Rightarrow> 'a \<Rightarrow> 'a) \<Rightarrow> 'a option \<Rightarrow> 'a option \<Rightarrow> 'a option" where
  "merge_section spread base new = (case new of None \<Rightarrow> base
     | Some b \<Rightarrow> Some (case base of None \<Rightarrow> b | Some a \<Rightarrow> spread a b))"

definition mergeBudgetsOverride :: "budgets_override option \<Rightarrow> budgets_override option \<Rightarrow> budgets_override option" where
  "mergeBudgetsOverride base new = (case new of None \<Rightarrow> base
     | Some b \<Rightarrow> Some \<lparr> bo_tokens = merge_section spread_tokens (Option.bind base bo_tokens) (bo_tokens b),
                        bo_money = merge_section spread_money (Option.bind base bo_money) (bo_money b) \<rparr>)"

definition mergeConfigOverride :: "config_override \<Rightarrow> config_override option \<Rightarrow> config_override" where
  "mergeConfigOverride base new = (case new of None \<Rightarrow> base
     | Some c \<Rightarrow> \<lparr> co_workflow = merge_section spread_workflow (co_workflow base) (co_workflow c),
                    co_tools = merge_section spread_tools (co_tools base) (co_tools c),
                    co_budgets = mergeBudgetsOverride (co_budgets base) (co_budgets c),
                    co_routing = over (co_routing base) (co_routing c) \<rparr>)"

definition DEFAULT_PROJECT_CONFIG_OVERRIDE :: config_override where
  "DEFAULT_PROJECT_CONFIG_OVERRIDE = \<lparr>
     co_workflow = Some \<lparr> wo_maxSteps = Some 8, wo_maxRetries = Some 3, wo_gateEnabled = Some False, wo_required = Some [], wo_bulk = Some 25 \<rparr>,
     co_tools = Some \<lparr> to_mode = Some Mode_Workspace_Write, to_allowed = Some [''.''], to_protected = Some [], to_commands = Some [],
       to_maxFiles = Some 200 \<rparr>,
     co_budgets = Some \<lparr> bo_tokens = Some \<lparr> tb_perRun = None, tb_perTask = None, tb_perDay = None \<rparr>,
       bo_money = Some \<lparr> mb_perRun = None, mb_perTask = None, mb_perDay = None \<rparr> \<rparr>,
     co_routing = None \<rparr>"

definition resolveEffectiveConfig :: "config_override option \<Rightarrow> project_config \<Rightarrow> config_override option \<Rightarrow> config_override option \<Rightarrow> project_config result" where
  "resolveEffectiveConfig instance_layer p agent run =
     (let withInstance = mergeConfigOverride DEFAULT_PROJECT_CONFIG_OVERRIDE instance_layer;
          withProject = mergeConfigOverride withInstance (Some (projectAsOverride p));
          withAgent = mergeConfigOverride withProject agent;
          effective = mergeConfigOverride withAgent run
      in case projectConfigSchema (pc_project p) (pc_version p) (pc_agents p) effective of
           None \<Rightarrow> Inl (Js_Error ConfigError ''Failed to resolve effective project config'' [])
         | Some c \<Rightarrow> Inr c)"

section \<open>The layers, member by member\<close>

definition leaf :: "(config_override \<Rightarrow> 's option) \<Rightarrow> ('s \<Rightarrow> 'a option) \<Rightarrow> config_override option \<Rightarrow> 'a option" where
  "leaf section f layer = Option.bind layer (\<lambda>c. Option.bind (section c) f)"

definition token_section :: "config_override \<Rightarrow> token_budget option" where
  "token_section c = Option.bind (co_budgets c) bo_tokens"

definition money_section :: "config_override \<Rightarrow> money_budget option" where
  "money_section c = Option.bind (co_budgets c) bo_money"

lemma over_simps [simp]: "over None x = x" "over x None = x" "over x (Some v) = Some v" "over (over x y) z = over x (over y z)"
  by (simp_all add: over_def split: option.split)

lemma leaf_None [simp]: "leaf s f None = None"
  by (simp add: leaf_def)

lemma merge_section_None [simp]: "merge_section f x None = x"
  by (simp add: merge_section_def)

lemma merge_section_Some: "\<exists>v. merge_section f (Some x) n = Some v" "\<exists>v. merge_section f b (Some y) = Some v"
  by (simp_all add: merge_section_def split: option.split)

lemma bind_merge_section:
  "(\<And>a b. f (spread a b) = over (f a) (f b)) \<Longrightarrow>
   Option.bind (merge_section spread x y) f = over (Option.bind x f) (Option.bind y f)"
  by (cases x; cases y) (simp_all add: merge_section_def)

lemma merged_sections:
  "co_workflow (mergeConfigOverride base new) = merge_section spread_workflow (co_workflow base) (Option.bind new co_workflow)"
  "co_tools (mergeConfigOverride base new) = merge_section spread_tools (co_tools base) (Option.bind new co_tools)"
  "token_section (mergeConfigOverride base new) = merge_section spread_tokens (token_section base) (Option.bind new token_section)"
  "money_section (mergeConfigOverride base new) = merge_section spread_money (money_section base) (Option.bind new money_section)"
  "co_routing (mergeConfigOverride base new) = over (co_routing base) (Option.bind new co_routing)"
proof -
  show "co_workflow (mergeConfigOverride base new) = merge_section spread_workflow (co_workflow base) (Option.bind new co_workflow)"
    by (cases new) (simp_all add: mergeConfigOverride_def)
  show "co_tools (mergeConfigOverride base new) = merge_section spread_tools (co_tools base) (Option.bind new co_tools)"
    by (cases new) (simp_all add: mergeConfigOverride_def)
  show "co_routing (mergeConfigOverride base new) = over (co_routing base) (Option.bind new co_routing)"
    by (cases new) (simp_all add: mergeConfigOverride_def)
  have b: "Option.bind (mergeBudgetsOverride x y) bo_tokens = merge_section spread_tokens (Option.bind x bo_tokens) (Option.bind y bo_tokens)"
    "Option.bind (mergeBudgetsOverride x y) bo_money = merge_section spread_money (Option.bind x bo_money) (Option.bind y bo_money)" for x y
    by (cases y; simp add: mergeBudgetsOverride_def)+
  show "token_section (mergeConfigOverride base new) = merge_section spread_tokens (token_section base) (Option.bind new token_section)"
    by (cases new) (simp_all add: mergeConfigOverride_def token_section_def b)
  show "money_section (mergeConfigOverride base new) = merge_section spread_money (money_section base) (Option.bind new money_section)"
    by (cases new) (simp_all add: mergeConfigOverride_def money_section_def b)
qed

lemma merged_leaf:
  assumes "\<And>b n. section (mergeConfigOverride b n) = merge_section spread (section b) (Option.bind n section)"
    and "\<And>a b. f (spread a b) = over (f a) (f b)"
  shows "leaf section f (Some (mergeConfigOverride base new)) = over (leaf section f (Some base)) (leaf section f new)"
proof -
  have l: "leaf section f x = Option.bind (Option.bind x section) f" for x by (cases x) (simp_all add: leaf_def)
  show ?thesis unfolding l by (simp add: assms(1) bind_merge_section[of f spread, OF assms(2)])
qed

text \<open>The merged layers, before the schema.\<close>

definition layered_config :: "config_override option \<Rightarrow> project_config \<Rightarrow> config_override option \<Rightarrow> config_override option \<Rightarrow> config_override" where
  "layered_config i p a r = mergeConfigOverride (mergeConfigOverride (mergeConfigOverride (mergeConfigOverride DEFAULT_PROJECT_CONFIG_OVERRIDE i)
     (Some (projectAsOverride p))) a) r"

lemma resolve_layered:
  "resolveEffectiveConfig i p a r = (case projectConfigSchema (pc_project p) (pc_version p) (pc_agents p) (layered_config i p a r) of
     None \<Rightarrow> Inl (Js_Error ConfigError ''Failed to resolve effective project config'' []) | Some c \<Rightarrow> Inr c)"
  by (simp add: resolveEffectiveConfig_def layered_config_def Let_def)

text \<open>A member of the merged layers: the last layer that sets it. The defaults set no budget.\<close>

lemma layered_leaf:
  assumes "\<And>b n. section (mergeConfigOverride b n) = merge_section spread (section b) (Option.bind n section)"
    and "\<And>a b. f (spread a b) = over (f a) (f b)"
  shows "Option.bind (section (layered_config i p a r)) f =
    over (Option.bind (section DEFAULT_PROJECT_CONFIG_OVERRIDE) f) (over (leaf section f i)
      (over (Option.bind (section (projectAsOverride p)) f) (over (leaf section f a) (leaf section f r))))"
proof -
  note m = merged_leaf[of "section" spread f, OF assms]
  have "Option.bind (section x) f = leaf section f (Some x)" for x by (simp add: leaf_def)
  then show ?thesis unfolding layered_config_def by (simp add: m)
qed

lemma project_sections:
  "co_workflow (projectAsOverride p) = Some (as_workflow_override (pc_workflow p))" "co_tools (projectAsOverride p) = Some (as_tools_override (pc_tools p))"
  "token_section (projectAsOverride p) = Some (pc_tokens p)" "money_section (projectAsOverride p) = Some (pc_money p)"
  "co_routing (projectAsOverride p) = pc_routing p"
  by (simp_all add: projectAsOverride_def token_section_def money_section_def)

lemma layered_sections:
  "\<exists>w. co_workflow (layered_config i p a r) = Some w" "\<exists>t. co_tools (layered_config i p a r) = Some t"
  "\<exists>tk. token_section (layered_config i p a r) = Some tk" "\<exists>mo. money_section (layered_config i p a r) = Some mo"
proof -
  have some: "\<exists>v. merge_section f (merge_section f (merge_section f x (Some y)) z) u = Some v" for f and x z u :: "'x option" and y
    by (metis merge_section_Some)
  show "\<exists>w. co_workflow (layered_config i p a r) = Some w" "\<exists>t. co_tools (layered_config i p a r) = Some t"
    "\<exists>tk. token_section (layered_config i p a r) = Some tk" "\<exists>mo. money_section (layered_config i p a r) = Some mo"
    unfolding layered_config_def merged_sections project_sections bind.simps by (rule some)+
qed

section \<open>The reference\<close>

text \<open>What the agent and the run say, else the project; for budgets and routing, else the instance.\<close>

definition chosen :: "'a option \<Rightarrow> 'a option \<Rightarrow> 'a \<Rightarrow> 'a" where
  "chosen agent run v = or_default (over agent run) v"

definition reference_config :: "config_override option \<Rightarrow> project_config \<Rightarrow> config_override option \<Rightarrow> config_override option \<Rightarrow> project_config" where
  "reference_config i p a r =
     \<lparr> pc_project = pc_project p, pc_version = pc_version p,
       pc_workflow =
         \<lparr> ws_maxSteps = chosen (leaf co_workflow wo_maxSteps a) (leaf co_workflow wo_maxSteps r) (ws_maxSteps (pc_workflow p)),
           ws_maxRetries = chosen (leaf co_workflow wo_maxRetries a) (leaf co_workflow wo_maxRetries r) (ws_maxRetries (pc_workflow p)),
           ws_gateEnabled = chosen (leaf co_workflow wo_gateEnabled a) (leaf co_workflow wo_gateEnabled r) (ws_gateEnabled (pc_workflow p)),
           ws_required = chosen (leaf co_workflow wo_required a) (leaf co_workflow wo_required r) (ws_required (pc_workflow p)),
           ws_bulk = chosen (leaf co_workflow wo_bulk a) (leaf co_workflow wo_bulk r) (ws_bulk (pc_workflow p)) \<rparr>,
       pc_tools =
         \<lparr> ts_mode = chosen (leaf co_tools to_mode a) (leaf co_tools to_mode r) (ts_mode (pc_tools p)),
           ts_allowed = chosen (leaf co_tools to_allowed a) (leaf co_tools to_allowed r) (ts_allowed (pc_tools p)),
           ts_protected = chosen (leaf co_tools to_protected a) (leaf co_tools to_protected r) (ts_protected (pc_tools p)),
           ts_commands = chosen (leaf co_tools to_commands a) (leaf co_tools to_commands r) (ts_commands (pc_tools p)),
           ts_maxFiles = chosen (leaf co_tools to_maxFiles a) (leaf co_tools to_maxFiles r) (ts_maxFiles (pc_tools p)) \<rparr>,
       pc_tokens = spread_tokens (or_default (Option.bind i token_section) \<lparr> tb_perRun = None, tb_perTask = None, tb_perDay = None \<rparr>)
         (spread_tokens (pc_tokens p) \<lparr> tb_perRun = over (leaf token_section tb_perRun a) (leaf token_section tb_perRun r),
            tb_perTask = over (leaf token_section tb_perTask a) (leaf token_section tb_perTask r),
            tb_perDay = over (leaf token_section tb_perDay a) (leaf token_section tb_perDay r) \<rparr>),
       pc_money = spread_money (or_default (Option.bind i money_section) \<lparr> mb_perRun = None, mb_perTask = None, mb_perDay = None \<rparr>)
         (spread_money (pc_money p) \<lparr> mb_perRun = over (leaf money_section mb_perRun a) (leaf money_section mb_perRun r),
            mb_perTask = over (leaf money_section mb_perTask a) (leaf money_section mb_perTask r),
            mb_perDay = over (leaf money_section mb_perDay a) (leaf money_section mb_perDay r) \<rparr>),
       pc_routing = over (Option.bind i co_routing) (over (pc_routing p) (over (Option.bind a co_routing) (Option.bind r co_routing))),
       pc_agents = pc_agents p \<rparr>"

lemma over_chosen: "over (Some v) (over x y) = Some (chosen x y v)" "over d (over e (over (Some v) (over x y))) = Some (chosen x y v)"
  by (simp_all add: chosen_def over_def split: option.split)

lemma workflow_member:
  assumes "co_workflow (layered_config i p a r) = Some w" "\<And>a b. f (spread_workflow a b) = over (f a) (f b)"
    and "f (as_workflow_override (pc_workflow p)) = Some v"
  shows "f w = Some (chosen (leaf co_workflow f a) (leaf co_workflow f r) v)"
  using layered_leaf[of co_workflow spread_workflow f i p a r] assms by (simp add: merged_sections project_sections over_chosen)

lemma tools_member:
  assumes "co_tools (layered_config i p a r) = Some t" "\<And>a b. f (spread_tools a b) = over (f a) (f b)"
    and "f (as_tools_override (pc_tools p)) = Some v"
  shows "f t = Some (chosen (leaf co_tools f a) (leaf co_tools f r) v)"
  using layered_leaf[of co_tools spread_tools f i p a r] assms by (simp add: merged_sections project_sections over_chosen)

lemma leaf_or_default: "f d = None \<Longrightarrow> leaf s f i = f (or_default (Option.bind i s) d)"
  by (cases i; cases "s (the i)") (simp_all add: leaf_def)

lemma tokens_member:
  assumes "token_section (layered_config i p a r) = Some tk" "\<And>a b. f (spread_tokens a b) = over (f a) (f b)"
    and "f \<lparr> tb_perRun = None, tb_perTask = None, tb_perDay = None \<rparr> = None"
  shows "f tk = over (leaf token_section f i) (over (f (pc_tokens p)) (over (leaf token_section f a) (leaf token_section f r)))"
proof -
  have d: "token_section DEFAULT_PROJECT_CONFIG_OVERRIDE = Some \<lparr> tb_perRun = None, tb_perTask = None, tb_perDay = None \<rparr>"
    by (simp add: token_section_def DEFAULT_PROJECT_CONFIG_OVERRIDE_def)
  show ?thesis using layered_leaf[of token_section spread_tokens f i p a r] assms by (simp add: merged_sections project_sections d)
qed

lemma money_member:
  assumes "money_section (layered_config i p a r) = Some mo" "\<And>a b. f (spread_money a b) = over (f a) (f b)"
    and "f \<lparr> mb_perRun = None, mb_perTask = None, mb_perDay = None \<rparr> = None"
  shows "f mo = over (leaf money_section f i) (over (f (pc_money p)) (over (leaf money_section f a) (leaf money_section f r)))"
proof -
  have d: "money_section DEFAULT_PROJECT_CONFIG_OVERRIDE = Some \<lparr> mb_perRun = None, mb_perTask = None, mb_perDay = None \<rparr>"
    by (simp add: money_section_def DEFAULT_PROJECT_CONFIG_OVERRIDE_def)
  show ?thesis using layered_leaf[of money_section spread_money f i p a r] assms by (simp add: merged_sections project_sections d)
qed

lemma layered_is_reference: "layered_config i p a r = projectAsOverride (reference_config i p a r)"
proof -
  let ?E = "layered_config i p a r" let ?R = "reference_config i p a r"
  obtain w t where w: "co_workflow ?E = Some w" and t: "co_tools ?E = Some t" using layered_sections by blast
  obtain tk mo where tk: "token_section ?E = Some tk" and mo: "money_section ?E = Some mo" using layered_sections by blast
  then obtain b where b: "co_budgets ?E = Some b" "bo_tokens b = Some tk" "bo_money b = Some mo"
    by (auto simp: token_section_def money_section_def bind_eq_Some_conv)
  have "w = as_workflow_override (pc_workflow ?R)"
    by (rule workflow_override.equality)
      (simp_all add: as_workflow_override_def reference_config_def workflow_member[OF w] spread_workflow_def)
  moreover have "t = as_tools_override (pc_tools ?R)"
    by (rule tools_override.equality)
      (simp_all add: as_tools_override_def reference_config_def tools_member[OF t] spread_tools_def)
  moreover have "tk = pc_tokens ?R"
    by (rule token_budget.equality)
      (simp_all add: reference_config_def tokens_member[OF tk] spread_tokens_def
        leaf_or_default[where d = "\<lparr> tb_perRun = None, tb_perTask = None, tb_perDay = None \<rparr>"])
  moreover have "mo = pc_money ?R"
    by (rule money_budget.equality)
      (simp_all add: reference_config_def money_member[OF mo] spread_money_def
        leaf_or_default[where d = "\<lparr> mb_perRun = None, mb_perTask = None, mb_perDay = None \<rparr>"])
  moreover have "co_routing ?E = pc_routing ?R"
    unfolding layered_config_def merged_sections project_sections by (simp add: project_sections reference_config_def DEFAULT_PROJECT_CONFIG_OVERRIDE_def)
  moreover have "b = \<lparr> bo_tokens = Some tk, bo_money = Some mo \<rparr>" using b(2,3) by (cases b) simp
  ultimately show ?thesis using w t b(1) by (intro config_override.equality) (simp_all add: projectAsOverride_def)
qed

definition trim_config :: "project_config \<Rightarrow> project_config" where
  "trim_config c = c\<lparr> pc_tools := (pc_tools c)\<lparr> ts_allowed := map js_trim (ts_allowed (pc_tools c)),
        ts_protected := map js_trim (ts_protected (pc_tools c)), ts_commands := map js_trim (ts_commands (pc_tools c)) \<rparr>,
     pc_agents := map_option (map (\<lambda>(k, v). (k, trim_override v))) (pc_agents c) \<rparr>"

definition config_ok :: "project_config \<Rightarrow> bool" where
  "config_ok c = (identifier_ok (pc_project c) \<and> 0 \<le> pc_version c \<and> workflow_ok (as_workflow_override (pc_workflow c))
     \<and> tools_ok (as_tools_override (pc_tools c)) \<and> tokens_ok (pc_tokens c) \<and> money_ok (pc_money c) \<and> routing_ok (pc_routing c)
     \<and> agents_ok (pc_agents c))"

lemma schema_of_config:
  "projectConfigSchema (pc_project c) (pc_version c) (pc_agents c) (projectAsOverride c) = (if config_ok c then Some (trim_config c) else None)"
proof -
  have w: "full_workflow (as_workflow_override v) = (if workflow_ok (as_workflow_override v) then Some v else None)" for v
    by (simp add: full_workflow_def as_workflow_override_def)
  have t: "full_tools (as_tools_override v) = (if tools_ok (as_tools_override v) then Some (v\<lparr> ts_allowed := map js_trim (ts_allowed v),
        ts_protected := map js_trim (ts_protected v), ts_commands := map js_trim (ts_commands v) \<rparr>) else None)" for v
    by (simp add: full_tools_def as_tools_override_def)
  show ?thesis by (simp add: projectConfigSchema_def projectAsOverride_def w t config_ok_def trim_config_def)
qed

lemma ok_over [simp]:
  "positive x \<Longrightarrow> positive y \<Longrightarrow> positive (over x y)" "nonnegative x \<Longrightarrow> nonnegative y \<Longrightarrow> nonnegative (over x y)"
  "routing_ok t \<Longrightarrow> routing_ok u \<Longrightarrow> routing_ok (over t u)"
  by (simp_all add: over_def positive_def nonnegative_def routing_ok_def split: option.splits)

lemma ok_chosen:
  "positive x \<Longrightarrow> positive y \<Longrightarrow> positive (Some v) \<Longrightarrow> positive (Some (chosen x y v))"
  "nonnegative x \<Longrightarrow> nonnegative y \<Longrightarrow> nonnegative (Some v) \<Longrightarrow> nonnegative (Some (chosen x y v))"
  "solid_list s \<Longrightarrow> solid_list t \<Longrightarrow> solid_list (Some u) \<Longrightarrow> solid_list (Some (chosen s t u))"
  by (auto simp: chosen_def over_def or_default_def split: option.splits)

text \<open>The members of a valid override are valid.\<close>

lemma ok_leaf:
  assumes "pred_option override_ok c"
  shows "positive (leaf co_workflow wo_maxSteps c)" "nonnegative (leaf co_workflow wo_maxRetries c)" "positive (leaf co_workflow wo_bulk c)"
    "solid_list (leaf co_tools to_allowed c)" "solid_list (leaf co_tools to_protected c)" "solid_list (leaf co_tools to_commands c)"
    "positive (leaf co_tools to_maxFiles c)" "positive (leaf token_section tb_perRun c)" "positive (leaf token_section tb_perTask c)"
    "positive (leaf token_section tb_perDay c)" "nonnegative (leaf money_section mb_perRun c)" "nonnegative (leaf money_section mb_perTask c)"
    "nonnegative (leaf money_section mb_perDay c)" "routing_ok (Option.bind c co_routing)"
proof -
  have *: "P (leaf s f c)" if "P None" "\<And>x y. c = Some x \<Longrightarrow> override_ok x \<Longrightarrow> s x = Some y \<Longrightarrow> P (f y)" for P s f
    using that assms by (cases c; cases "s (the c)") (simp_all add: leaf_def)
  note d = override_ok_def workflow_ok_def tools_ok_def budgets_ok_def tokens_ok_def money_ok_def
  show "positive (leaf co_workflow wo_maxSteps c)" "nonnegative (leaf co_workflow wo_maxRetries c)" "positive (leaf co_workflow wo_bulk c)"
    by (rule *; simp add: positive_def[of None] nonnegative_def[of None] d)+
  show "solid_list (leaf co_tools to_allowed c)" "solid_list (leaf co_tools to_protected c)" "solid_list (leaf co_tools to_commands c)"
    "positive (leaf co_tools to_maxFiles c)"
    by (rule *; simp add: positive_def[of None] solid_list_def[of None] d)+
  show "positive (leaf token_section tb_perRun c)" "positive (leaf token_section tb_perTask c)" "positive (leaf token_section tb_perDay c)"
    by (rule *; auto simp: positive_def[of None] token_section_def bind_eq_Some_conv d)+
  show "nonnegative (leaf money_section mb_perRun c)" "nonnegative (leaf money_section mb_perTask c)" "nonnegative (leaf money_section mb_perDay c)"
    by (rule *; auto simp: nonnegative_def[of None] money_section_def bind_eq_Some_conv d)+
  show "routing_ok (Option.bind c co_routing)" using assms by (cases c) (simp_all add: routing_ok_def[of None] d)
qed

lemma section_leaf: "f d = None \<Longrightarrow> f (or_default (Option.bind i s) d) = leaf s f i"
  by (rule leaf_or_default[symmetric])

lemma reference_ok:
  assumes "config_ok p" "pred_option override_ok i" "pred_option override_ok a" "pred_option override_ok r"
  shows "config_ok (reference_config i p a r)"
proof -
  note l = ok_leaf[OF assms(2)] ok_leaf[OF assms(3)] ok_leaf[OF assms(4)]
  note p = assms(1)[unfolded config_ok_def workflow_ok_def tools_ok_def tokens_ok_def money_ok_def as_workflow_override_def as_tools_override_def, simplified]
  have "workflow_ok (as_workflow_override (pc_workflow (reference_config i p a r)))"
    using p l by (simp add: workflow_ok_def as_workflow_override_def reference_config_def ok_chosen)
  moreover have "tools_ok (as_tools_override (pc_tools (reference_config i p a r)))"
    using p l by (simp add: tools_ok_def as_tools_override_def reference_config_def ok_chosen)
  moreover have "tokens_ok (pc_tokens (reference_config i p a r))"
    using p l by (simp add: tokens_ok_def reference_config_def spread_tokens_def section_leaf)
  moreover have "money_ok (pc_money (reference_config i p a r))"
    using p l by (simp add: money_ok_def reference_config_def spread_money_def section_leaf)
  moreover have "routing_ok (pc_routing (reference_config i p a r))" using p l by (simp add: reference_config_def)
  ultimately show ?thesis using p by (simp add: config_ok_def reference_config_def)
qed

text \<open>C31. The effective configuration, member by member. Merging the five layers and validating the result gives, in
  every member of the workflow and tool sections, what the run sets, else the agent, else the project, and in every
  budget and the model routing also the instance after the project; the result is this configuration with its tool
  lists trimmed, or a configuration error when it is not valid. It is always valid when the project's own document
  and the three overrides are, and the instance never changes the workflow and tool sections.\<close>

theorem effective_config_is_memberwise:
  "resolveEffectiveConfig i p a r =
     (if config_ok (reference_config i p a r) then Inr (trim_config (reference_config i p a r))
      else Inl (Js_Error ConfigError ''Failed to resolve effective project config'' []))
   \<and> (if assertProjectConfig p = Inr () \<and> pred_option override_ok i \<and> pred_option override_ok a \<and> pred_option override_ok r
      then config_ok (reference_config i p a r) else True)
   \<and> pc_workflow (reference_config i p a r) = pc_workflow (reference_config None p a r)
   \<and> pc_tools (reference_config i p a r) = pc_tools (reference_config None p a r)"
proof -
  have ids: "pc_project (reference_config i p a r) = pc_project p" "pc_version (reference_config i p a r) = pc_version p"
    "pc_agents (reference_config i p a r) = pc_agents p" by (simp_all add: reference_config_def)
  have "resolveEffectiveConfig i p a r = (if config_ok (reference_config i p a r) then Inr (trim_config (reference_config i p a r))
      else Inl (Js_Error ConfigError ''Failed to resolve effective project config'' []))"
    unfolding resolve_layered layered_is_reference using schema_of_config[of "reference_config i p a r"] by (simp add: ids)
  moreover have "assertProjectConfig p = Inr () \<longleftrightarrow> config_ok p" by (simp add: assertProjectConfig_def schema_of_config)
  ultimately show ?thesis using reference_ok[of p i a r] by (simp add: reference_config_def)
qed

end
