(* ===== verification/Tool_Policy.thy ===== *)
theory Tool_Policy
  imports Effective_Config Effects
begin

text \<open>
  What the tools may touch (\<open>packages/tools/src/policy/adapter.ts\<close>): the paths that may be written, the directories commands may
  run in, the commands and their arguments. Paths are those of a POSIX host; \<open>disk\<close> answers the questions the policy asks
  the file system.
\<close>

section \<open>Paths\<close>

text \<open>\<open>path.resolve\<close>, \<open>path.dirname\<close>, \<open>path.relative\<close> and \<open>path.join\<close>, the last three on absolute
  paths.\<close>

definition segments :: "string \<Rightarrow> string list" where
  "segments p = filter (\<lambda>s. s \<noteq> []) (split_on CHR ''/'' p)"

fun collapse :: "string list \<Rightarrow> string list \<Rightarrow> string list" where
  "collapse acc [] = rev acc"
| "collapse acc (s # ss) =
     (if s = ''.'' then collapse acc ss
      else if s = ''..'' then collapse (tl acc) ss
      else collapse (s # acc) ss)"

definition absolute_path :: "string list \<Rightarrow> string" where
  "absolute_path ss = ''/'' @ join ''/'' ss"

definition is_absolute :: "string \<Rightarrow> bool" where
  "is_absolute p = (p \<noteq> [] \<and> hd p = CHR ''/'')"

definition path_resolve :: "string \<Rightarrow> string \<Rightarrow> string" where
  "path_resolve base p = absolute_path (collapse [] (segments (if is_absolute p then p else base @ ''/'' @ p)))"

definition path_dirname :: "string \<Rightarrow> string" where
  "path_dirname p = absolute_path (butlast (segments p))"

fun drop_common :: "string list \<Rightarrow> string list \<Rightarrow> string list \<times> string list" where
  "drop_common (x # xs) (y # ys) = (if x = y then drop_common xs ys else (x # xs, y # ys))"
| "drop_common xs ys = (xs, ys)"

definition path_relative :: "string \<Rightarrow> string \<Rightarrow> string" where
  "path_relative f t = (let (xs, ys) = drop_common (segments f) (segments t) in
     join ''/'' (replicate (length xs) ''..'' @ ys))"

definition path_join :: "string \<Rightarrow> string \<Rightarrow> string" where
  "path_join p q = path_resolve ''/'' (p @ ''/'' @ q)"

text \<open>\<open>existsSync\<close>, and \<open>realpathSync\<close>, which throws on a path that does not exist.\<close>

record disk =
  dk_cwd :: string
  dk_exists :: "string \<Rightarrow> bool"
  dk_realpath :: "string \<Rightarrow> string option"

section \<open>The policy\<close>

record tool_policy_config =
  tp_allowedWritePaths :: "string list"
  tp_allowedShellCommands :: "string list"
  tp_writeMode :: "safe_write_mode option"
  tp_protectedWritePaths :: "string list option"
  tp_maxModifiedFiles :: "int option"

text \<open>What the closure of \<open>createToolPolicyAdapter\<close> holds; the set \<open>modifiedFiles\<close> is its state.\<close>

record tool_policy =
  pa_scopes :: "string list"
  pa_protected :: "string list"
  pa_mode :: safe_write_mode
  pa_max :: int
  pa_commands :: "string list"

definition normalizePath :: "disk \<Rightarrow> string \<Rightarrow> string" where
  "normalizePath d targetPath =
     (let resolved = path_resolve (dk_cwd d) targetPath;
          existingPath = (if dk_exists d resolved then resolved else path_dirname resolved) in
      case dk_realpath d existingPath of
        None \<Rightarrow> resolved
      | Some realBase \<Rightarrow>
          (let relativeSuffix = path_relative existingPath resolved in
           if relativeSuffix \<noteq> [] then path_join realBase relativeSuffix else realBase))"

definition createToolPolicyAdapter :: "disk \<Rightarrow> tool_policy_config \<Rightarrow> tool_policy" where
  "createToolPolicyAdapter d c =
     \<lparr> pa_scopes = map (normalizePath d) (tp_allowedWritePaths c),
       pa_protected = map (normalizePath d) (or_default (tp_protectedWritePaths c) []),
       pa_mode = or_default (tp_writeMode c) Mode_Workspace_Write,
       pa_max = or_default (tp_maxModifiedFiles c) 200,
       pa_commands = filter (\<lambda>s. s \<noteq> []) (map js_trim (tp_allowedShellCommands c)) \<rparr>"

definition isWithinPathScope :: "string \<Rightarrow> string \<Rightarrow> bool" where
  "isWithinPathScope candidatePath basePath = (candidatePath = basePath \<or> prefix (basePath @ ''/'') candidatePath)"

definition in_scopes :: "tool_policy \<Rightarrow> string \<Rightarrow> bool" where
  "in_scopes pa p = list_ex (isWithinPathScope p) (pa_scopes pa)"

definition isProtectedPath :: "tool_policy \<Rightarrow> string \<Rightarrow> bool" where
  "isProtectedPath pa p = list_ex (isWithinPathScope p) (pa_protected pa)"

fun mode_text :: "safe_write_mode \<Rightarrow> string" where
  "mode_text Mode_Read_Only = ''read-only''"
| "mode_text Mode_Propose_Only = ''propose-only''"
| "mode_text Mode_Sandbox_Write = ''sandbox-write''"
| "mode_text Mode_Workspace_Write = ''workspace-write''"
| "mode_text Mode_Protected_Write = ''protected-write''"

definition safety_violation :: "string \<Rightarrow> js_error" where
  "safety_violation m = Js_Error SafetyViolationError m []"

definition assertWorkspaceAllowed :: "disk \<Rightarrow> tool_policy \<Rightarrow> string \<Rightarrow> string result" where
  "assertWorkspaceAllowed d pa workspaceRoot =
     (let resolved = normalizePath d workspaceRoot in
      if \<not> in_scopes pa resolved
      then Inl (safety_violation (''Workspace outside allowed scope is forbidden: '' @ resolved))
      else Inr resolved)"

definition assertWriteAllowed :: "disk \<Rightarrow> tool_policy \<Rightarrow> string \<Rightarrow> (string list, string) act" where
  "assertWriteAllowed d pa targetPath modified =
     (let resolved = normalizePath d targetPath in
      if pa_mode pa = Mode_Read_Only \<or> pa_mode pa = Mode_Propose_Only
      then (Inl (safety_violation (''Write is forbidden in '' @ mode_text (pa_mode pa) @ '' mode: '' @ resolved)), modified)
      else if \<not> in_scopes pa resolved
      then (Inl (safety_violation (''Write outside allowed scope is forbidden: '' @ resolved)), modified)
      else if pa_mode pa \<noteq> Mode_Protected_Write \<and> isProtectedPath pa resolved
      then (Inl (safety_violation (''Write to protected path requires protected-write mode: '' @ resolved)), modified)
      else (let modified' = List.insert resolved modified in
        if int (length modified') > pa_max pa
        then (Inl (safety_violation (''Maximum modified files threshold exceeded: '' @ nat_to_string (length modified')
                     @ ''/'' @ int_to_string (pa_max pa))), modified')
        else (Inr resolved, modified')))"

text \<open>The separator of the signatures is the null character.\<close>

definition git_signatures :: "string list" where
  "git_signatures = map (join [CHR 0x00])
     [[''status''], [''status'', ''--short''], [''status'', ''--porcelain''],
      [''diff''], [''diff'', ''--staged''], [''branch'', ''--show-current'']]"

definition assertGitArgsAllowed :: "string list \<Rightarrow> unit result" where
  "assertGitArgsAllowed args =
     (if join [CHR 0x00] args \<in> set git_signatures then Inr ()
      else Inl (safety_violation (''Shell command arguments are not allowed for git: '' @ join '' '' args)))"

definition assertPackageManagerArgsAllowed :: "string \<Rightarrow> string list \<Rightarrow> unit result" where
  "assertPackageManagerArgsAllowed command args =
     (if length args = 2 \<and> hd args = ''run'' \<and> args ! 1 \<in> {''build'', ''lint'', ''typecheck'', ''test''} then Inr ()
      else Inl (safety_violation (''Shell command arguments are not allowed for '' @ command @ '': '' @ join '' '' args)))"

definition assertCommandArgsAllowed :: "string \<Rightarrow> string list \<Rightarrow> unit result" where
  "assertCommandArgsAllowed command args =
     (if command = ''git'' then assertGitArgsAllowed args
      else if command = ''npm'' \<or> command = ''pnpm'' then assertPackageManagerArgsAllowed command args
      else Inr ())"

definition assertCommandAllowed :: "tool_policy \<Rightarrow> string \<Rightarrow> string list \<Rightarrow> string result" where
  "assertCommandAllowed pa command args =
     (if command \<notin> set (pa_commands pa)
      then Inl (safety_violation (''Shell command is not allowlisted: '' @ command))
      else case assertCommandArgsAllowed command args of Inl e \<Rightarrow> Inl e | Inr _ \<Rightarrow> Inr command)"

section \<open>What it allows\<close>

definition may_write :: "tool_policy \<Rightarrow> string \<Rightarrow> bool" where
  "may_write pa p = (pa_mode pa \<notin> {Mode_Read_Only, Mode_Propose_Only} \<and> in_scopes pa p
     \<and> (pa_mode pa = Mode_Protected_Write \<or> \<not> isProtectedPath pa p))"

lemma write_allowed_iff:
  "assertWriteAllowed d pa t m = (Inr p, m') \<longleftrightarrow>
     p = normalizePath d t \<and> may_write pa p \<and> m' = List.insert p m \<and> int (length m') \<le> pa_max pa"
  by (auto simp: assertWriteAllowed_def may_write_def Let_def)

text \<open>A refused write may still have been counted.\<close>

lemma write_refused:
  "assertWriteAllowed d pa t m = (Inl e, m') \<Longrightarrow>
     m' = m \<or> (m' = List.insert (normalizePath d t) m \<and> pa_max pa < int (length m'))"
  by (auto simp: assertWriteAllowed_def Let_def split: if_splits)

lemma write_counts: "set m \<subseteq> set (snd (assertWriteAllowed d pa t m)) \<and>
  (distinct m \<longrightarrow> distinct (snd (assertWriteAllowed d pa t m)))"
  by (auto simp: assertWriteAllowed_def Let_def)

lemma write_grows: "length m \<le> length (snd (assertWriteAllowed d pa t m))"
  by (auto simp: assertWriteAllowed_def Let_def List.insert_def)

text \<open>Once the threshold has been passed every write is refused, also to a file that was written before.\<close>

lemma over_limit_refuses:
  "pa_max pa < int (length m) \<Longrightarrow> \<exists>e m'. assertWriteAllowed d pa t m = (Inl e, m') \<and> pa_max pa < int (length m')"
  by (auto simp: assertWriteAllowed_def Let_def List.insert_def)

definition builtin_git_args :: "string list list" where
  "builtin_git_args = [[''status''], [''status'', ''--short''], [''status'', ''--porcelain''],
     [''diff''], [''diff'', ''--staged''], [''branch'', ''--show-current'']]"

lemma git_signature_exact:
  assumes "\<forall>a \<in> set args. CHR 0x00 \<notin> set a"
  shows "join [CHR 0x00] args \<in> set git_signatures \<longleftrightarrow> args \<in> set builtin_git_args"
proof (cases "args = []")
  case True
  then show ?thesis by (simp add: git_signatures_def builtin_git_args_def)
next
  case False
  have "\<forall>xs \<in> set builtin_git_args. xs \<noteq> [] \<and> (\<forall>a \<in> set xs. CHR 0x00 \<notin> set a)"
    by (simp add: builtin_git_args_def)
  then have "join [CHR 0x00] args = join [CHR 0x00] xs \<longleftrightarrow> args = xs" if "xs \<in> set builtin_git_args" for xs
    using that join_inj[of args xs "CHR 0x00"] False assms by auto
  then have "join [CHR 0x00] args \<in> join [CHR 0x00] ` set builtin_git_args \<longleftrightarrow> args \<in> set builtin_git_args"
    unfolding image_iff by blast
  then show ?thesis by (simp add: git_signatures_def builtin_git_args_def)
qed

definition command_granted :: "tool_policy \<Rightarrow> string \<Rightarrow> string list \<Rightarrow> bool" where
  "command_granted pa c args = (c \<in> set (pa_commands pa)
     \<and> (c = ''git'' \<longrightarrow> join [CHR 0x00] args \<in> set git_signatures)
     \<and> (c \<in> {''npm'', ''pnpm''} \<longrightarrow> args \<in> {[''run'', ''build''], [''run'', ''lint''], [''run'', ''typecheck''], [''run'', ''test'']}))"

lemma package_manager_args_iff:
  "assertPackageManagerArgsAllowed c args = Inr u \<longleftrightarrow>
     args \<in> {[''run'', ''build''], [''run'', ''lint''], [''run'', ''typecheck''], [''run'', ''test'']}"
  by (cases args; cases "tl args"; cases "tl (tl args)") (auto simp: assertPackageManagerArgsAllowed_def)

lemma command_args_iff:
  "assertCommandArgsAllowed c args = Inr u \<longleftrightarrow>
     (c = ''git'' \<longrightarrow> join [CHR 0x00] args \<in> set git_signatures)
     \<and> (c \<in> {''npm'', ''pnpm''} \<longrightarrow> args \<in> {[''run'', ''build''], [''run'', ''lint''], [''run'', ''typecheck''], [''run'', ''test'']})"
  by (auto simp: assertCommandArgsAllowed_def assertGitArgsAllowed_def package_manager_args_iff)

lemma command_allowed_iff: "assertCommandAllowed pa c args = Inr c' \<longleftrightarrow> c' = c \<and> command_granted pa c args"
proof (cases "assertCommandArgsAllowed c args")
  case (Inl e)
  then have "\<not> command_granted pa c args"
    using command_args_iff[of c args "()"] by (auto simp: command_granted_def)
  then show ?thesis using Inl by (simp add: assertCommandAllowed_def)
next
  case (Inr u)
  then show ?thesis
    using command_args_iff[of c args u] by (auto simp: assertCommandAllowed_def command_granted_def)
qed

lemma workspace_allowed_iff:
  "assertWorkspaceAllowed d pa r = Inr p \<longleftrightarrow> p = normalizePath d r \<and> in_scopes pa p"
  by (auto simp: assertWorkspaceAllowed_def Let_def)

text \<open>A path whose directory does not exist is taken as it is written: symbolic links further up are not followed.\<close>

lemma missing_directory_not_resolved:
  "\<not> dk_exists d (path_resolve (dk_cwd d) p) \<Longrightarrow> dk_realpath d (path_dirname (path_resolve (dk_cwd d) p)) = None
   \<Longrightarrow> normalizePath d p = path_resolve (dk_cwd d) p"
  by (simp add: normalizePath_def)

end
