(* ===== verification/Tool_Set.thy ===== *)
theory Tool_Set
  imports Tool_Policy Iso_Text Json
begin

text \<open>
  The tools behind the policy: \<open>createLocalToolSet\<close> of \<open>packages/tools/src/index.ts\<close> with its adapters
  (\<open>filesystem\<close>, \<open>git\<close>, \<open>typescript\<close>, \<open>shell\<close>, \<open>testing\<close>, \<open>diff\<close>, \<open>search\<close>,
  \<open>evidence\<close>), the schemas of inputs and outputs and the error envelope.

  Every call of the host is logged in \<open>tw_ops\<close>; what the host answers is a function of the calls made so far. An abort
  that arrives during a call is an answer of that call. A call that loses the race with its timer is followed to its end, its
  result is dropped.
\<close>

section \<open>Requests, answers, errors\<close>

record unified_request =
  tq_toolName :: string
  tq_input :: "json jsrec"

record tool_options =
  tn_workspaceRoot :: string
  tn_aborted :: bool

datatype envelope_category = Cat_Validation | Cat_Timeout | Cat_Cancelled | Cat_Policy | Cat_Execution | Cat_Unsupported

record tool_envelope =
  te_category :: envelope_category
  te_retriable :: bool
  te_code :: string
  te_message :: string

text \<open>An error of the host: \<open>String(error)\<close> is \<open>hf_text\<close>.\<close>

datatype failure_code = No_Code | Code_Number int | Code_Text string

record host_failure =
  hf_name :: string
  hf_message :: string
  hf_text :: string
  hf_code :: failure_code
  hf_stdout :: "string option"
  hf_stderr :: "string option"

datatype tool_throw = Contract_Error tool_envelope | Js_Thrown js_error | Host_Thrown host_failure

record shell_result =
  sr_ok :: bool
  sr_command :: string
  sr_args :: "string list"
  sr_stdout :: string
  sr_stderr :: string
  sr_exitCode :: int

datatype tool_output =
    Out_Text string | Out_Void | Out_Names "string list" | Out_Bool bool
  | Out_Check bool "string list" | Out_Shell shell_result

datatype side_effect_risk = Effect_None | Effect_Low | Effect_High

record tool_result =
  tz_toolName :: string
  tz_answer :: "tool_envelope + tool_output"
  tz_deterministic :: bool
  tz_risk :: side_effect_risk

datatype adapter_name = Filesystem_Adapter | Git_Adapter | Typescript_Adapter | Shell_Adapter | Testing_Adapter | Diff_Adapter | Search_Adapter

record tool_evidence =
  tl_adapter :: adapter_name
  tl_toolName :: string
  tl_success :: bool
  tl_durationMs :: int
  tl_createdAt :: stamp
  tl_workspaceRoot :: string
  tl_command :: "string option"
  tl_args :: "string list option"
  tl_error :: "string option"

section \<open>The host\<close>

text \<open>Calls of the host. \<open>Op_Walk\<close> reads the tree below a directory, as \<open>searchWithNode\<close> does.\<close>

datatype tool_op =
    Op_Read string | Op_Mkdir string | Op_Write string string | Op_List string | Op_Exists string
  | Op_Exec string "string list" string "int option" | Op_Walk string

datatype tree_entry =
    Dir_Entry string "tree_entry list" | Unreadable_Dir string host_failure
  | File_Entry string "string option" | Other_Entry string

record host =
  ho_disk :: "tool_op list \<Rightarrow> disk"
  ho_read :: "tool_op list \<Rightarrow> string \<Rightarrow> host_failure + string"
  ho_mkdir :: "tool_op list \<Rightarrow> string \<Rightarrow> host_failure + unit"
  ho_write :: "tool_op list \<Rightarrow> string \<Rightarrow> string \<Rightarrow> host_failure + unit"
  ho_list :: "tool_op list \<Rightarrow> string \<Rightarrow> host_failure + string list"
  ho_exec :: "tool_op list \<Rightarrow> string \<Rightarrow> string list \<Rightarrow> string \<Rightarrow> int option \<Rightarrow> host_failure + (string \<times> string)"
  ho_tree :: "tool_op list \<Rightarrow> string \<Rightarrow> host_failure + tree_entry list"
  ho_regexp :: "string \<Rightarrow> host_failure + (string \<Rightarrow> bool)"
  ho_now :: "nat \<Rightarrow> int"
  ho_timer :: "tool_op list \<Rightarrow> bool"
  ho_issues :: "string \<Rightarrow> json jsrec \<Rightarrow> (string list \<times> string) list"

record tool_world =
  tw_modified :: "string list"
  tw_ops :: "tool_op list"
  tw_records :: "tool_evidence list"
  tw_tick :: nat

type_synonym 'a tool_act = "tool_world \<Rightarrow> (tool_throw + 'a) \<times> tool_world"

definition tret :: "'a \<Rightarrow> 'a tool_act" where
  "tret x w = (Inr x, w)"

definition tthrow :: "tool_throw \<Rightarrow> 'a tool_act" where
  "tthrow e w = (Inl e, w)"

definition tbind :: "'a tool_act \<Rightarrow> ('a \<Rightarrow> 'b tool_act) \<Rightarrow> 'b tool_act" where
  "tbind m f w = (case m w of (Inl e, w') \<Rightarrow> (Inl e, w') | (Inr x, w') \<Rightarrow> f x w')"

definition tlift :: "'a result \<Rightarrow> 'a tool_act" where
  "tlift r w = ((case r of Inl e \<Rightarrow> Inl (Js_Thrown e) | Inr x \<Rightarrow> Inr x), w)"

definition plain_throw :: "string \<Rightarrow> 'a tool_act" where
  "plain_throw m = tthrow (Js_Thrown (Js_Error PlainError m []))"

text \<open>The call is logged whatever it answers.\<close>

definition call_host :: "tool_op \<Rightarrow> (tool_op list \<Rightarrow> host_failure + 'a) \<Rightarrow> (host_failure + 'a) tool_act" where
  "call_host p answer w = (Inr (answer (tw_ops w)), w\<lparr>tw_ops := tw_ops w @ [p]\<rparr>)"

definition await :: "(host_failure + 'a) tool_act \<Rightarrow> 'a tool_act" where
  "await m = tbind m (\<lambda>r. case r of Inl f \<Rightarrow> tthrow (Host_Thrown f) | Inr x \<Rightarrow> tret x)"

definition disk_now :: "host \<Rightarrow> tool_world \<Rightarrow> disk" where
  "disk_now ho w = ho_disk ho (tw_ops w)"

definition check_write :: "host \<Rightarrow> tool_policy \<Rightarrow> string \<Rightarrow> string tool_act" where
  "check_write ho pa p w = (case assertWriteAllowed (disk_now ho w) pa p (tw_modified w) of
     (Inl e, m) \<Rightarrow> (Inl (Js_Thrown e), w\<lparr>tw_modified := m\<rparr>)
   | (Inr q, m) \<Rightarrow> (Inr q, w\<lparr>tw_modified := m\<rparr>))"

definition check_workspace :: "host \<Rightarrow> tool_policy \<Rightarrow> string \<Rightarrow> string tool_act" where
  "check_workspace ho pa p w = tlift (assertWorkspaceAllowed (disk_now ho w) pa p) w"

definition resolved_path :: "host \<Rightarrow> string \<Rightarrow> string tool_act" where
  "resolved_path ho p w = (Inr (path_resolve (dk_cwd (disk_now ho w)) p), w)"

definition read_clock :: "host \<Rightarrow> int tool_act" where
  "read_clock ho w = (Inr (ho_now ho (tw_tick w)), w\<lparr>tw_tick := Suc (tw_tick w)\<rparr>)"

section \<open>Adapters\<close>

definition asString :: "json option \<Rightarrow> string \<Rightarrow> string tool_act" where
  "asString v f = (case v of
     Some (JStr s) \<Rightarrow> (if blank s then plain_throw (''Field '' @ f @ '' must be a non-empty string'') else tret s)
   | _ \<Rightarrow> plain_throw (''Field '' @ f @ '' must be a non-empty string''))"

definition fs_readFile :: "host \<Rightarrow> string \<Rightarrow> string tool_act" where
  "fs_readFile ho p = tbind (resolved_path ho p) (\<lambda>q. await (call_host (Op_Read q) (\<lambda>ops. ho_read ho ops q)))"

definition fs_writeFile :: "host \<Rightarrow> tool_policy \<Rightarrow> string \<Rightarrow> string \<Rightarrow> unit tool_act" where
  "fs_writeFile ho pa p c =
     tbind (check_write ho pa p) (\<lambda>q.
     tbind (await (call_host (Op_Mkdir (path_dirname q)) (\<lambda>ops. ho_mkdir ho ops (path_dirname q)))) (\<lambda>_.
     await (call_host (Op_Write q c) (\<lambda>ops. ho_write ho ops q c))))"

definition fs_listFiles :: "host \<Rightarrow> string \<Rightarrow> string list tool_act" where
  "fs_listFiles ho p = tbind (resolved_path ho p) (\<lambda>q.
     tbind (await (call_host (Op_List q) (\<lambda>ops. ho_list ho ops q))) (\<lambda>entries.
     tret (sort_by code_unit_compare entries)))"

definition fs_exists :: "host \<Rightarrow> string \<Rightarrow> bool tool_act" where
  "fs_exists ho p = tbind (resolved_path ho p) (\<lambda>q.
     await (call_host (Op_Exists q) (\<lambda>ops. Inr (dk_exists (ho_disk ho ops) q))))"

definition out :: "('a \<Rightarrow> tool_output) \<Rightarrow> 'a tool_act \<Rightarrow> tool_output tool_act" where
  "out f m = tbind m (\<lambda>x. tret (f x))"

definition filesystem_execute :: "host \<Rightarrow> tool_policy \<Rightarrow> unified_request \<Rightarrow> tool_output tool_act" where
  "filesystem_execute ho pa r =
     (let i = tq_input r; t = tq_toolName r in
      if t = ''file_read'' then tbind (asString (rec_get i ''filePath'') ''filePath'') (\<lambda>p. out Out_Text (fs_readFile ho p))
      else if t = ''file_write'' then
        tbind (asString (rec_get i ''filePath'') ''filePath'') (\<lambda>p.
        tbind (asString (rec_get i ''content'') ''content'') (\<lambda>c. out (\<lambda>_. Out_Void) (fs_writeFile ho pa p c)))
      else if t = ''file_list'' then tbind (asString (rec_get i ''dirPath'') ''dirPath'') (\<lambda>p. out Out_Names (fs_listFiles ho p))
      else if t = ''file_exists'' then tbind (asString (rec_get i ''filePath'') ''filePath'') (\<lambda>p. out Out_Bool (fs_exists ho p))
      else plain_throw (''Unsupported filesystem tool: '' @ t))"

definition exec_file :: "host \<Rightarrow> string \<Rightarrow> string list \<Rightarrow> string \<Rightarrow> int option \<Rightarrow> (host_failure + (string \<times> string)) tool_act" where
  "exec_file ho c args cwd timeout = call_host (Op_Exec c args cwd timeout) (\<lambda>ops. ho_exec ho ops c args cwd timeout)"

text \<open>\<open>cwd\<close> is the workspace root, which is not empty.\<close>

definition git_diff :: "host \<Rightarrow> string \<Rightarrow> bool \<Rightarrow> string tool_act" where
  "git_diff ho cwd staged =
     tbind (await (exec_file ho ''git'' (if staged then [''diff'', ''--staged''] else [''diff'']) cwd None)) (\<lambda>(stdout, stderr).
     tret stdout)"

definition asBoolean :: "json option \<Rightarrow> bool \<Rightarrow> bool tool_act" where
  "asBoolean v fallback = (case v of
     None \<Rightarrow> tret fallback | Some JUndefined \<Rightarrow> tret fallback | Some (JBool b) \<Rightarrow> tret b
   | _ \<Rightarrow> plain_throw ''staged must be a boolean'')"

definition git_execute :: "host \<Rightarrow> unified_request \<Rightarrow> string \<Rightarrow> tool_output tool_act" where
  "git_execute ho r cwd =
     (let t = tq_toolName r in
      if t = ''git_status'' then
        tbind (await (exec_file ho ''git'' [''status'', ''--short''] cwd None)) (\<lambda>(stdout, stderr). tret (Out_Text (js_trim stdout)))
      else if t = ''git_diff'' then
        tbind (asBoolean (rec_get (tq_input r) ''staged'') False) (\<lambda>staged. out Out_Text (git_diff ho cwd staged))
      else if t = ''git_current_branch'' then
        tbind (await (exec_file ho ''git'' [''branch'', ''--show-current''] cwd None)) (\<lambda>(stdout, stderr). tret (Out_Text (js_trim stdout)))
      else plain_throw (''Unsupported git tool: '' @ t))"

definition diff_execute :: "host \<Rightarrow> unified_request \<Rightarrow> string \<Rightarrow> tool_output tool_act" where
  "diff_execute ho r cwd =
     out Out_Text (git_diff ho cwd (case rec_get (tq_input r) ''staged'' of Some (JBool b) \<Rightarrow> b | _ \<Rightarrow> False))"

text \<open>\<open>text.split('\n').filter(Boolean)\<close>.\<close>

definition nonempty_lines :: "string \<Rightarrow> string list" where
  "nonempty_lines s = filter (\<lambda>l. l \<noteq> []) (split_on CHR 0x0A s)"

text \<open>An \<open>Error\<close> of \<open>execFile\<close> has a member \<open>stderr\<close> when the process ran.\<close>

definition typeScriptCheck :: "host \<Rightarrow> string \<Rightarrow> (bool \<times> string list) tool_act" where
  "typeScriptCheck ho cwd =
     tbind (exec_file ho ''npm'' [''run'', ''typecheck''] cwd None) (\<lambda>r. case r of
       Inr _ \<Rightarrow> tret (True, [])
     | Inl f \<Rightarrow> tret (False, nonempty_lines (or_default (hf_stderr f) (hf_text f))))"

definition typescript_execute :: "host \<Rightarrow> unified_request \<Rightarrow> string \<Rightarrow> tool_output tool_act" where
  "typescript_execute ho r cwd =
     (let t = tq_toolName r in
      if t = ''typescript_check'' then tbind (typeScriptCheck ho cwd) (\<lambda>(ok, ds). tret (Out_Check ok ds))
      else if t = ''typescript_diagnostics'' then tbind (typeScriptCheck ho cwd) (\<lambda>(ok, ds). tret (Out_Names ds))
      else plain_throw (''Unsupported typescript tool: '' @ t))"

fun strings_of :: "json list \<Rightarrow> string list option" where
  "strings_of [] = Some []"
| "strings_of (JStr s # vs) = map_option ((#) s) (strings_of vs)"
| "strings_of _ = None"

definition asStringArray :: "json option \<Rightarrow> string \<Rightarrow> string list tool_act" where
  "asStringArray v f = (case v of
     None \<Rightarrow> tret [] | Some JUndefined \<Rightarrow> tret []
   | Some (JArr vs) \<Rightarrow> (case strings_of vs of Some ss \<Rightarrow> tret ss | None \<Rightarrow> plain_throw (''Field '' @ f @ '' must be a string[]''))
   | _ \<Rightarrow> plain_throw (''Field '' @ f @ '' must be a string[]''))"

definition command_field :: "json jsrec \<Rightarrow> string \<Rightarrow> string tool_act" where
  "command_field i f = (case rec_get i f of
     Some (JStr c) \<Rightarrow> (if c = [] then plain_throw (''Field '' @ f @ '' must be a non-empty string'') else tret c)
   | _ \<Rightarrow> plain_throw (''Field '' @ f @ '' must be a non-empty string''))"

definition shell_execute :: "host \<Rightarrow> tool_policy \<Rightarrow> json jsrec \<Rightarrow> string \<Rightarrow> tool_output tool_act" where
  "shell_execute ho pa i root =
     tbind (command_field i ''command'') (\<lambda>command.
     tbind (asStringArray (rec_get i ''args'') ''args'') (\<lambda>args.
     tbind (tlift (assertCommandAllowed pa command args)) (\<lambda>allowlisted.
     tbind (check_workspace ho pa root) (\<lambda>cwd.
     (let timeoutMs = (case rec_get i ''timeoutMs'' of Some (JNum n) \<Rightarrow> n | _ \<Rightarrow> 10000) in
      tbind (exec_file ho allowlisted args cwd (Some timeoutMs)) (\<lambda>r. tret (Out_Shell (case r of
        Inr (stdout, stderr) \<Rightarrow>
          \<lparr> sr_ok = True, sr_command = allowlisted, sr_args = args, sr_stdout = stdout, sr_stderr = stderr, sr_exitCode = 0 \<rparr>
      | Inl f \<Rightarrow>
          \<lparr> sr_ok = False, sr_command = allowlisted, sr_args = args, sr_stdout = or_default (hf_stdout f) [],
             sr_stderr = or_default (hf_stderr f) (hf_text f),
             sr_exitCode = (case hf_code f of Code_Number n \<Rightarrow> n | _ \<Rightarrow> -1) \<rparr>))))))))"

definition testing_execute :: "host \<Rightarrow> tool_policy \<Rightarrow> json jsrec \<Rightarrow> string \<Rightarrow> tool_output tool_act" where
  "testing_execute ho pa i root =
     tbind (command_field i ''command'') (\<lambda>command.
     (let args = (case rec_get i ''args'' of Some (JArr vs) \<Rightarrow> filter (\<lambda>v. case v of JStr s \<Rightarrow> True | _ \<Rightarrow> False) vs | _ \<Rightarrow> []) in
      shell_execute ho pa [(''command'', JStr command), (''args'', JArr args),
        (''timeoutMs'', or_default (rec_get i ''timeoutMs'') JUndefined)] root))"

section \<open>Search\<close>

text \<open>\<open>searchDirectory\<close> and \<open>searchFile\<close>; a directory that cannot be read ends the search.\<close>

definition matching_lines :: "(string \<Rightarrow> bool) \<Rightarrow> string \<Rightarrow> string \<Rightarrow> string list" where
  "matching_lines matcher filePath content =
     map (\<lambda>(n, line). filePath @ '':'' @ nat_to_string (n + 1) @ '':'' @ line)
       (filter (\<lambda>(n, line). matcher line) (List.enumerate 0 (split_on CHR 0x0A content)))"

definition skipped_directories :: "string list" where
  "skipped_directories = [''.git'', ''node_modules'', ''dist'', ''coverage'']"

fun searchEntry :: "(string \<Rightarrow> bool) \<Rightarrow> string \<Rightarrow> tree_entry \<Rightarrow> host_failure + string list"
  and searchEntries :: "(string \<Rightarrow> bool) \<Rightarrow> string \<Rightarrow> tree_entry list \<Rightarrow> host_failure + string list" where
  "searchEntry matcher dir (Dir_Entry name children) =
     (if name \<in> set skipped_directories then Inr [] else searchEntries matcher (path_join dir name) children)"
| "searchEntry matcher dir (Unreadable_Dir name f) = (if name \<in> set skipped_directories then Inr [] else Inl f)"
| "searchEntry matcher dir (File_Entry name content) =
     Inr (case content of None \<Rightarrow> [] | Some c \<Rightarrow> matching_lines matcher (path_join dir name) c)"
| "searchEntry matcher dir (Other_Entry name) = Inr []"
| "searchEntries matcher dir [] = Inr []"
| "searchEntries matcher dir (e # es) = (case searchEntry matcher dir e of
     Inl f \<Rightarrow> Inl f
   | Inr xs \<Rightarrow> (case searchEntries matcher dir es of Inl f \<Rightarrow> Inl f | Inr ys \<Rightarrow> Inr (xs @ ys)))"

definition searchWithNode :: "host \<Rightarrow> string \<Rightarrow> string \<Rightarrow> string list tool_act" where
  "searchWithNode ho pattern cwd =
     (case ho_regexp ho pattern of
        Inl f \<Rightarrow> tthrow (Host_Thrown f)
      | Inr matcher \<Rightarrow> tbind (resolved_path ho cwd) (\<lambda>dir.
          await (call_host (Op_Walk dir) (\<lambda>ops. case ho_tree ho ops dir of
            Inl f \<Rightarrow> Inl f | Inr entries \<Rightarrow> searchEntries matcher dir entries))))"

definition resolveSearchRoot :: "host \<Rightarrow> tool_policy \<Rightarrow> json option \<Rightarrow> string \<Rightarrow> string tool_act" where
  "resolveSearchRoot ho pa input workspaceRoot = (case input of
     Some (JStr s) \<Rightarrow> (if blank s then tret workspaceRoot
       else check_workspace ho pa (if is_absolute s then path_resolve ''/'' s else path_resolve workspaceRoot s))
   | _ \<Rightarrow> tret workspaceRoot)"

definition search_execute :: "host \<Rightarrow> tool_policy \<Rightarrow> json jsrec \<Rightarrow> string \<Rightarrow> tool_output tool_act" where
  "search_execute ho pa i root =
     tbind (command_field i ''pattern'') (\<lambda>pattern.
     tbind (check_workspace ho pa root) (\<lambda>workspaceRoot.
     tbind (resolveSearchRoot ho pa (rec_get i ''cwd'') workspaceRoot) (\<lambda>cwd.
     tbind (tlift (assertCommandAllowed pa ''rg'' [''--line-number'', pattern, cwd])) (\<lambda>command.
     tbind (exec_file ho command [''--line-number'', pattern, cwd] workspaceRoot None) (\<lambda>r. case r of
       Inr (stdout, stderr) \<Rightarrow> tret (Out_Names (nonempty_lines stdout))
     | Inl f \<Rightarrow>
         if hf_code f = Code_Number 1 then tret (Out_Names (nonempty_lines (or_default (hf_stdout f) [])))
         else if hf_code f = Code_Text ''ENOENT'' then out Out_Names (searchWithNode ho pattern cwd)
         else tthrow (Host_Thrown f))))))"

section \<open>Schemas\<close>

datatype field_kind = Kind_Text | Kind_Number | Kind_Bool | Kind_Strings

fun of_kind :: "field_kind \<Rightarrow> json \<Rightarrow> bool" where
  "of_kind Kind_Text (JStr s) = (\<not> blank s)"
| "of_kind Kind_Number (JNum n) = True"
| "of_kind Kind_Bool (JBool b) = True"
| "of_kind Kind_Strings (JArr vs) = (strings_of vs \<noteq> None)"
| "of_kind _ _ = False"

text \<open>A member: its name, what it holds, and whether it is optional.\<close>

definition timeout_field :: "string \<times> field_kind \<times> bool" where
  "timeout_field = (''timeoutMs'', Kind_Number, True)"

definition inputSchemas :: "(string \<times> (string \<times> field_kind \<times> bool) list) list" where
  "inputSchemas =
    [(''file_read'', [(''filePath'', Kind_Text, False), timeout_field]),
     (''file_write'', [(''filePath'', Kind_Text, False), (''content'', Kind_Text, False), timeout_field]),
     (''file_list'', [(''dirPath'', Kind_Text, False), timeout_field]),
     (''file_exists'', [(''filePath'', Kind_Text, False), timeout_field]),
     (''git_status'', [timeout_field]),
     (''git_diff'', [(''staged'', Kind_Bool, True), timeout_field]),
     (''git_current_branch'', [timeout_field]),
     (''typescript_check'', [timeout_field]),
     (''typescript_diagnostics'', [timeout_field]),
     (''shell_exec'', [(''command'', Kind_Text, False), (''args'', Kind_Strings, True), timeout_field]),
     (''testing_run'', [(''command'', Kind_Text, False), (''args'', Kind_Strings, True), timeout_field]),
     (''diff_workspace'', [(''staged'', Kind_Bool, True), timeout_field]),
     (''search_repo'', [(''pattern'', Kind_Text, False), (''cwd'', Kind_Text, True), timeout_field])]"

definition field_ok :: "json jsrec \<Rightarrow> string \<times> field_kind \<times> bool \<Rightarrow> bool" where
  "field_ok i f = (case f of (k, kind, optional) \<Rightarrow>
     (case rec_get i k of
        None \<Rightarrow> optional | Some JUndefined \<Rightarrow> optional | Some v \<Rightarrow> of_kind kind v))"

definition input_ok :: "string \<Rightarrow> json jsrec \<Rightarrow> bool" where
  "input_ok t i = (case map_of inputSchemas t of None \<Rightarrow> True | Some fs \<Rightarrow> list_all (field_ok i) fs)"

fun output_ok :: "string \<Rightarrow> tool_output \<Rightarrow> bool" where
  "output_ok t (Out_Text s) = (t \<in> {''file_read'', ''git_status'', ''git_diff'', ''git_current_branch'', ''diff_workspace''})"
| "output_ok t Out_Void = (t = ''file_write'')"
| "output_ok t (Out_Names ns) = (t \<in> {''file_list'', ''typescript_diagnostics'', ''search_repo''})"
| "output_ok t (Out_Bool b) = (t = ''file_exists'')"
| "output_ok t (Out_Check b ds) = (t = ''typescript_check'')"
| "output_ok t (Out_Shell r) = (t \<in> {''shell_exec'', ''testing_run''})"

definition formatIssues :: "(string list \<times> string) list \<Rightarrow> string" where
  "formatIssues issues = join ''; ''
     (map (\<lambda>(p, m). (if join ''.'' p = [] then ''<root>'' else join ''.'' p) @ '': '' @ m) issues)"

definition contract_error :: "envelope_category \<Rightarrow> bool \<Rightarrow> string \<Rightarrow> string \<Rightarrow> tool_throw" where
  "contract_error cat retriable code message =
     Contract_Error \<lparr> te_category = cat, te_retriable = retriable, te_code = code, te_message = message \<rparr>"

definition validateToolInput :: "host \<Rightarrow> string \<Rightarrow> json jsrec \<Rightarrow> unit tool_act" where
  "validateToolInput ho t i =
     (if input_ok t i then tret ()
      else tthrow (contract_error Cat_Validation False ''TOOL_INPUT_SCHEMA_INVALID''
        (''Invalid input for '' @ t @ '': '' @ formatIssues (ho_issues ho t i))))"

definition validateToolOutput :: "string \<Rightarrow> tool_output \<Rightarrow> unit tool_act" where
  "validateToolOutput t z =
     (if output_ok t z then tret ()
      else tthrow (contract_error Cat_Validation False ''TOOL_OUTPUT_SCHEMA_INVALID'' (''Invalid output for '' @ t)))"

section \<open>Errors\<close>

definition normalizeToolError :: "tool_throw \<Rightarrow> string \<Rightarrow> tool_envelope" where
  "normalizeToolError e fallbackCode = (case e of
     Contract_Error v \<Rightarrow> v
   | Host_Thrown f \<Rightarrow>
       (if hf_name f = ''AbortError''
        then \<lparr> te_category = Cat_Cancelled, te_retriable = False, te_code = ''TOOL_CANCELLED'', te_message = hf_message f \<rparr>
        else \<lparr> te_category = Cat_Execution, te_retriable = True, te_code = fallbackCode, te_message = hf_message f \<rparr>)
   | Js_Thrown j \<Rightarrow> \<lparr> te_category = Cat_Execution, te_retriable = True, te_code = fallbackCode, te_message = error_message j \<rparr>)"

section \<open>The tool set\<close>

definition DEFAULT_PROTECTED_WRITE_PATHS :: "string list" where
  "DEFAULT_PROTECTED_WRITE_PATHS = [''package.json'', ''pnpm-lock.yaml'', ''package-lock.json'', ''.github'', ''.env'']"

definition DEFAULT_ALLOWED_SHELL_COMMANDS :: "string list" where
  "DEFAULT_ALLOWED_SHELL_COMMANDS = [''node'', ''npm'', ''pnpm'', ''git'', ''rg'', ''tsx'', ''tsc'']"

text \<open>The input is a list of paths (\<open>Inl\<close>) or a configuration.\<close>

definition resolveToolPolicyConfig :: "disk \<Rightarrow> string list + tool_policy_config \<Rightarrow> tool_policy_config" where
  "resolveToolPolicyConfig d input =
     (let protected = map (path_resolve (dk_cwd d)) DEFAULT_PROTECTED_WRITE_PATHS in
      case input of
        Inl paths \<Rightarrow> \<lparr> tp_allowedWritePaths = paths, tp_allowedShellCommands = DEFAULT_ALLOWED_SHELL_COMMANDS,
                       tp_writeMode = Some Mode_Workspace_Write, tp_protectedWritePaths = Some protected,
                       tp_maxModifiedFiles = Some 200 \<rparr>
      | Inr c \<Rightarrow> c\<lparr> tp_writeMode := Some (or_default (tp_writeMode c) Mode_Workspace_Write),
                    tp_protectedWritePaths := Some (or_default (tp_protectedWritePaths c) protected),
                    tp_maxModifiedFiles := Some (or_default (tp_maxModifiedFiles c) 200) \<rparr>)"

definition createLocalToolSet :: "host \<Rightarrow> string list + tool_policy_config \<Rightarrow> tool_policy" where
  "createLocalToolSet ho input =
     createToolPolicyAdapter (ho_disk ho []) (resolveToolPolicyConfig (ho_disk ho []) input)"

definition new_world :: tool_world where
  "new_world = \<lparr> tw_modified = [], tw_ops = [], tw_records = [], tw_tick = 0 \<rparr>"

definition adapter_for :: "string \<Rightarrow> adapter_name option" where
  "adapter_for t =
     (if t \<in> {''file_read'', ''file_write'', ''file_list'', ''file_exists''} then Some Filesystem_Adapter
      else if t \<in> {''git_status'', ''git_diff'', ''git_current_branch''} then Some Git_Adapter
      else if t \<in> {''typescript_check'', ''typescript_diagnostics''} then Some Typescript_Adapter
      else if t = ''shell_exec'' then Some Shell_Adapter
      else if t = ''testing_run'' then Some Testing_Adapter
      else if t = ''diff_workspace'' then Some Diff_Adapter
      else if t = ''search_repo'' then Some Search_Adapter
      else None)"

fun adapter_execute :: "host \<Rightarrow> tool_policy \<Rightarrow> adapter_name \<Rightarrow> unified_request \<Rightarrow> string \<Rightarrow> tool_output tool_act" where
  "adapter_execute ho pa Filesystem_Adapter r root = filesystem_execute ho pa r"
| "adapter_execute ho pa Git_Adapter r root = git_execute ho r root"
| "adapter_execute ho pa Typescript_Adapter r root = typescript_execute ho r root"
| "adapter_execute ho pa Shell_Adapter r root = shell_execute ho pa (tq_input r) root"
| "adapter_execute ho pa Testing_Adapter r root = testing_execute ho pa (tq_input r) root"
| "adapter_execute ho pa Diff_Adapter r root = diff_execute ho r root"
| "adapter_execute ho pa Search_Adapter r root = search_execute ho pa (tq_input r) root"

definition tool_metadata :: "string \<Rightarrow> bool \<times> side_effect_risk" where
  "tool_metadata t =
     (if t \<in> {''file_read'', ''file_list'', ''file_exists'', ''search_repo''} then (True, Effect_None)
      else if t \<in> {''file_write'', ''shell_exec''} then (False, Effect_High)
      else if t \<in> {''git_status'', ''git_diff'', ''git_current_branch'', ''typescript_check'',
                    ''typescript_diagnostics'', ''diff_workspace''} then (False, Effect_None)
      else (False, Effect_Low))"

definition requireExecutionOptions :: "host \<Rightarrow> tool_policy \<Rightarrow> tool_options option \<Rightarrow> tool_options tool_act" where
  "requireExecutionOptions ho pa given = (case given of
     None \<Rightarrow> tthrow (contract_error Cat_Policy False ''TOOL_WORKSPACE_REQUIRED'' ''Tool execution requires an explicit workspaceRoot'')
   | Some o' \<Rightarrow>
       if blank (tn_workspaceRoot o')
       then tthrow (contract_error Cat_Policy False ''TOOL_WORKSPACE_REQUIRED'' ''Tool execution requires an explicit workspaceRoot'')
       else tbind (check_workspace ho pa (tn_workspaceRoot o')) (\<lambda>root. tret (o'\<lparr>tn_workspaceRoot := root\<rparr>)))"

text \<open>\<open>withToolTimeout\<close>. The texts of numbers are whole.\<close>

definition withToolTimeout :: "host \<Rightarrow> bool \<Rightarrow> string \<Rightarrow> int \<Rightarrow> tool_output tool_act \<Rightarrow> tool_output tool_act" where
  "withToolTimeout ho aborted t timeoutMs m w =
     (if aborted
      then (Inl (contract_error Cat_Cancelled False ''TOOL_CANCELLED'' (''Tool '' @ t @ '' cancelled before execution'')), w)
      else case m w of (r, w') \<Rightarrow>
        (if ho_timer ho (tw_ops w')
         then Inl (contract_error Cat_Timeout True ''TOOL_TIMEOUT''
                (''Tool '' @ t @ '' timed out after '' @ int_to_string timeoutMs @ ''ms''))
         else r, w'))"

definition add_record :: "host \<Rightarrow> unified_request \<Rightarrow> adapter_name \<Rightarrow> string \<Rightarrow> int \<Rightarrow> string option \<Rightarrow> unit tool_act" where
  "add_record ho r a root start err =
     tbind (read_clock ho) (\<lambda>stop. tbind (read_clock ho) (\<lambda>created. (\<lambda>w. (Inr (), w\<lparr>tw_records := tw_records w @
       [\<lparr> tl_adapter = a, tl_toolName = tq_toolName r, tl_success = (err = None), tl_durationMs = stop - start,
          tl_createdAt = Iso created, tl_workspaceRoot = root,
          tl_command = (case rec_get (tq_input r) ''command'' of Some (JStr c) \<Rightarrow> Some c | _ \<Rightarrow> None),
          tl_args = (case rec_get (tq_input r) ''args'' of Some (JArr vs) \<Rightarrow> strings_of vs | _ \<Rightarrow> None),
          tl_error = err \<rparr>]\<rparr>))))"

definition execute_tool :: "host \<Rightarrow> tool_policy \<Rightarrow> unified_request \<Rightarrow> tool_options option \<Rightarrow> tool_result tool_act" where
  "execute_tool ho pa r given =
     tbind (validateToolInput ho (tq_toolName r) (tq_input r)) (\<lambda>_.
     tbind (requireExecutionOptions ho pa given) (\<lambda>opts.
     (case adapter_for (tq_toolName r) of
        None \<Rightarrow> tthrow (contract_error Cat_Unsupported False ''TOOL_UNSUPPORTED'' (''Unsupported tool request: '' @ tq_toolName r))
      | Some a \<Rightarrow>
         (let t = tq_toolName r; root = tn_workspaceRoot opts;
              timeoutMs = (case rec_get (tq_input r) ''timeoutMs'' of Some (JNum n) \<Rightarrow> max 1 n | _ \<Rightarrow> 10000);
              result = (\<lambda>z. \<lparr> tz_toolName = t, tz_answer = z, tz_deterministic = fst (tool_metadata t),
                              tz_risk = snd (tool_metadata t) \<rparr>) in
          tbind (read_clock ho) (\<lambda>start.
          (\<lambda>w. case tbind (withToolTimeout ho (tn_aborted opts) t timeoutMs (adapter_execute ho pa a r root))
                      (\<lambda>z. tbind (validateToolOutput t z) (\<lambda>_. tret z)) w of
             (Inr z, w') \<Rightarrow> tbind (add_record ho r a root start None) (\<lambda>_. tret (result (Inr z))) w'
           | (Inl e, w') \<Rightarrow>
               (let envelope = normalizeToolError e ''TOOL_EXECUTION_FAILED'' in
                tbind (add_record ho r a root start (Some (te_message envelope))) (\<lambda>_. tret (result (Inl envelope))) w')))))))"

section \<open>A session\<close>

text \<open>What the holder of a \<open>ToolSet\<close> may call: \<open>execute\<close> and the members of \<open>fileSystem\<close>. The members of
  \<open>git\<close> and \<open>typeScript\<close> run the commands of their adapters in a directory of the caller's choice.\<close>

datatype tool_event =
    Execute_Tool unified_request "tool_options option" | Write_File string string | Read_File string
  | List_Files string | File_Exists string

definition run_event :: "host \<Rightarrow> tool_policy \<Rightarrow> tool_event \<Rightarrow> tool_world \<Rightarrow> tool_world" where
  "run_event ho pa e w = (case e of
     Execute_Tool r given \<Rightarrow> snd (execute_tool ho pa r given w)
   | Write_File p c \<Rightarrow> snd (fs_writeFile ho pa p c w)
   | Read_File p \<Rightarrow> snd (fs_readFile ho p w)
   | List_Files p \<Rightarrow> snd (fs_listFiles ho p w)
   | File_Exists p \<Rightarrow> snd (fs_exists ho p w))"

definition tool_session :: "host \<Rightarrow> string list + tool_policy_config \<Rightarrow> tool_event list \<Rightarrow> tool_world" where
  "tool_session ho input es = fold (run_event ho (createLocalToolSet ho input)) es new_world"

end
