(* ===== verification/Tool_Contract.thy ===== *)
theory Tool_Contract
  imports Tool_Set
begin

text \<open>
  What a session with the tools does to the host, and how the tools report errors. The locale \<open>tool_steps\<close> is the
  contract of a property that safe calls and the file system's writes keep: every adapter keeps it. \<open>tool_invariant\<close> adds the
  clock and the evidence, and gives the same for \<open>execute\<close> and for sessions. They are
  used for the confinement of the session and for the finality of the threshold on modified files.
\<close>

section \<open>What a session does to the host\<close>

definition own_command :: "string \<Rightarrow> string list \<Rightarrow> bool" where
  "own_command c args = (c = ''git'' \<and> args \<in> {[''status'', ''--short''], [''diff''], [''diff'', ''--staged''], [''branch'', ''--show-current'']}
     \<or> c = ''npm'' \<and> args = [''run'', ''typecheck''])"

fun safe_op :: "tool_policy \<Rightarrow> tool_op \<Rightarrow> bool" where
  "safe_op pa (Op_Write p c) = may_write pa p"
| "safe_op pa (Op_Mkdir p) = (\<exists>q. may_write pa q \<and> p = path_dirname q)"
| "safe_op pa (Op_Exec c args cwd t) = (in_scopes pa cwd \<and> (command_granted pa c args \<or> own_command c args))"
| "safe_op pa (Op_Walk p) = (\<exists>q base. in_scopes pa q \<and> p = path_resolve base q)"
| "safe_op pa (Op_Read p) = True"
| "safe_op pa (Op_List p) = True"
| "safe_op pa (Op_Exists p) = True"

definition tkeeps :: "(tool_world \<Rightarrow> bool) \<Rightarrow> 'a tool_act \<Rightarrow> bool" where
  "tkeeps P m = (\<forall>w. P w \<longrightarrow> P (snd (m w)))"

named_theorems tool_intros \<open>what the steps of a tool keep\<close>

lemma tkeeps_bind [tool_intros]:
  "tkeeps P m \<Longrightarrow> (\<And>w x w'. m w = (Inr x, w') \<Longrightarrow> tkeeps P (f x)) \<Longrightarrow> tkeeps P (tbind m f)"
  by (auto simp: tkeeps_def tbind_def split: prod.splits sum.splits)

lemma tkeeps_pure [tool_intros]:
  "tkeeps P (tret x)" "tkeeps P (tthrow e)" "tkeeps P (tlift r)" "tkeeps P (plain_throw m)"
  by (auto simp: tkeeps_def tret_def tthrow_def tlift_def plain_throw_def)

lemma tkeeps_ask [tool_intros]:
  "tkeeps P (check_workspace ho pa p)" "tkeeps P (resolved_path ho p)" "tkeeps P (asString v f)" "tkeeps P (asBoolean v b)"
  "tkeeps P (asStringArray v f)" "tkeeps P (command_field i f)" "tkeeps P (validateToolInput ho t i)"
  "tkeeps P (validateToolOutput t z)" "tkeeps P (resolveSearchRoot ho pa v root)" "tkeeps P (requireExecutionOptions ho pa given)"
  by (auto simp: tkeeps_def check_workspace_def resolved_path_def asString_def asBoolean_def asStringArray_def command_field_def
      validateToolInput_def validateToolOutput_def resolveSearchRoot_def requireExecutionOptions_def tret_def tthrow_def
      tlift_def plain_throw_def tbind_def split: option.splits json.splits sum.splits prod.splits)

lemma tkeeps_await [tool_intros]: "tkeeps P m \<Longrightarrow> tkeeps P (await m)"
  unfolding await_def by (auto intro!: tool_intros split: sum.splits)

lemma tkeeps_out [tool_intros]: "tkeeps P m \<Longrightarrow> tkeeps P (out f m)"
  unfolding out_def by (intro tool_intros)

lemma tkeeps_timeout [tool_intros]: "tkeeps P m \<Longrightarrow> tkeeps P (withToolTimeout ho aborted t ms m)"
  by (auto simp: tkeeps_def withToolTimeout_def split: prod.splits)

lemma tkeeps_try [tool_intros]:
  "tkeeps P m \<Longrightarrow> (\<And>z. tkeeps P (f z)) \<Longrightarrow> (\<And>e. tkeeps P (g e))
   \<Longrightarrow> tkeeps P (\<lambda>w. case m w of (Inr z, w') \<Rightarrow> f z w' | (Inl e, w') \<Rightarrow> g e w')"
  by (auto simp: tkeeps_def split: prod.splits sum.splits)

lemma check_workspace_Inr: "check_workspace ho pa p w = (Inr q, w') \<Longrightarrow> in_scopes pa q"
  using workspace_allowed_iff by (auto simp: check_workspace_def tlift_def split: sum.splits)

lemma tlift_command_Inr: "tlift (assertCommandAllowed pa c args) w = (Inr c', w') \<Longrightarrow> c' = c \<and> command_granted pa c args"
  using command_allowed_iff by (auto simp: tlift_def split: sum.splits)

lemma search_root_Inr:
  "resolveSearchRoot ho pa v root w = (Inr q, w') \<Longrightarrow> in_scopes pa root \<Longrightarrow> in_scopes pa q"
  using check_workspace_Inr by (auto simp: resolveSearchRoot_def tret_def split: option.splits json.splits if_splits)

lemma options_Inr: "requireExecutionOptions ho pa given w = (Inr op, w') \<Longrightarrow> in_scopes pa (tn_workspaceRoot op)"
  using check_workspace_Inr
  by (auto simp: requireExecutionOptions_def tbind_def tret_def tthrow_def split: option.splits if_splits prod.splits sum.splits)

section \<open>Properties that every tool keeps\<close>

locale tool_steps =
  fixes ho :: host and pa :: tool_policy and P :: "tool_world \<Rightarrow> bool"
  assumes call: "P w \<Longrightarrow> safe_op pa p \<Longrightarrow> (\<forall>q c. p \<noteq> Op_Write q c) \<Longrightarrow> P (w\<lparr>tw_ops := tw_ops w @ [p]\<rparr>)"
    and writes: "P w \<Longrightarrow> P (snd (fs_writeFile ho pa path c w))"
begin

lemma kept_call [tool_intros]:
  "safe_op pa p \<Longrightarrow> (\<forall>q c. p \<noteq> Op_Write q c) \<Longrightarrow> tkeeps P (call_host p answer)"
  by (simp add: tkeeps_def call_host_def call)

lemma kept_exec [tool_intros]:
  "in_scopes pa cwd \<Longrightarrow> command_granted pa c args \<or> own_command c args \<Longrightarrow> tkeeps P (exec_file ho c args cwd t)"
  unfolding exec_file_def by (intro tool_intros) auto

lemma kept_write [tool_intros]: "tkeeps P (fs_writeFile ho pa p c)"
  by (simp add: tkeeps_def writes)

lemma kept_reads [tool_intros]:
  "tkeeps P (fs_readFile ho p)" "tkeeps P (fs_listFiles ho p)" "tkeeps P (fs_exists ho p)"
  unfolding fs_readFile_def fs_listFiles_def fs_exists_def by (auto intro!: tool_intros)

lemma kept_filesystem [tool_intros]: "tkeeps P (filesystem_execute ho pa r)"
  unfolding filesystem_execute_def Let_def by (auto intro!: tool_intros)

lemma kept_git_diff [tool_intros]: "in_scopes pa cwd \<Longrightarrow> tkeeps P (git_diff ho cwd staged)"
  unfolding git_diff_def by (auto intro!: tool_intros simp: own_command_def)

lemma kept_commands [tool_intros]:
  assumes "in_scopes pa cwd"
  shows "tkeeps P (git_execute ho r cwd)" "tkeeps P (diff_execute ho r cwd)"
    "tkeeps P (typescript_execute ho r cwd)"
  using assms unfolding git_execute_def diff_execute_def typescript_execute_def typeScriptCheck_def Let_def
  by (auto intro!: tool_intros simp: own_command_def split: sum.splits)

lemma kept_shell [tool_intros]: "tkeeps P (shell_execute ho pa i root)"
  unfolding shell_execute_def Let_def
  by (auto intro!: tool_intros dest!: tlift_command_Inr dest: check_workspace_Inr)

lemma kept_testing [tool_intros]: "tkeeps P (testing_execute ho pa i root)"
  unfolding testing_execute_def Let_def by (intro tool_intros)

lemma kept_walk [tool_intros]: "in_scopes pa cwd \<Longrightarrow> tkeeps P (searchWithNode ho pattern cwd)"
  unfolding searchWithNode_def
  by (auto intro!: tool_intros simp: resolved_path_def split: sum.splits) blast

lemma kept_search [tool_intros]: "tkeeps P (search_execute ho pa i root)"
proof -
  have "tkeeps P (exec_file ho c args cwd None)" if "in_scopes pa cwd" "command_granted pa c args" for c args cwd
    using that by (intro tool_intros) auto
  then show ?thesis
    unfolding search_execute_def
    by (auto intro!: tool_intros dest!: tlift_command_Inr check_workspace_Inr dest: search_root_Inr split: sum.splits)
qed

lemma kept_adapter [tool_intros]: "in_scopes pa root \<Longrightarrow> tkeeps P (adapter_execute ho pa a r root)"
  by (cases a) (auto intro: tool_intros)

end

locale tool_invariant = tool_steps +
  assumes tick: "P w \<Longrightarrow> P (w\<lparr>tw_tick := n\<rparr>)"
    and log: "P w \<Longrightarrow> P (w\<lparr>tw_records := rs\<rparr>)"
begin

lemma kept_clock [tool_intros]: "tkeeps P (read_clock ho)"
  by (simp add: tkeeps_def read_clock_def tick)

lemma kept_record [tool_intros]: "tkeeps P (add_record ho r a root start err)"
proof -
  have "tkeeps P (\<lambda>w. (Inr (), w\<lparr>tw_records := f w\<rparr>))" for f
    by (simp add: tkeeps_def log)
  then show ?thesis unfolding add_record_def by (intro tool_intros)
qed

lemma kept_execute [tool_intros]: "tkeeps P (execute_tool ho pa r given)"
  unfolding execute_tool_def Let_def
  by (auto intro!: tool_intros dest: options_Inr split: option.splits)

lemma kept_event: "P w \<Longrightarrow> P (run_event ho pa e w)"
  using kept_execute kept_write kept_reads unfolding run_event_def by (cases e) (auto simp: tkeeps_def)

lemma kept_events: "P w \<Longrightarrow> P (fold (run_event ho pa) es w)"
  by (induction es arbitrary: w) (auto intro: kept_event)

end

section \<open>Confinement\<close>

definition written :: "tool_world \<Rightarrow> string set" where
  "written w = {p. \<exists>c. Op_Write p c \<in> set (tw_ops w)}"

definition confined :: "tool_policy \<Rightarrow> tool_world \<Rightarrow> bool" where
  "confined pa w \<longleftrightarrow> list_all (safe_op pa) (tw_ops w) \<and> written w \<subseteq> set (tw_modified w)
     \<and> int (card (written w)) \<le> max 0 (pa_max pa)"

lemma written_call:
  "written (w\<lparr>tw_ops := tw_ops w @ [p]\<rparr>) = (case p of Op_Write q c \<Rightarrow> insert q (written w) | _ \<Rightarrow> written w)"
  by (auto simp: written_def split: tool_op.splits)

lemma confined_write:
  assumes w: "confined pa w"
  shows "confined pa (snd (fs_writeFile ho pa p c w))"
proof (cases "assertWriteAllowed (disk_now ho w) pa p (tw_modified w)")
  case (Pair r m)
  have sub: "set (tw_modified w) \<subseteq> set m"
    using write_counts[of "tw_modified w" "disk_now ho w" pa p] Pair by simp
  have counted: "confined pa (w\<lparr>tw_modified := m\<rparr>)"
    using w sub by (auto simp: confined_def written_def)
  show ?thesis
  proof (cases r)
    case (Inl e)
    then show ?thesis using Pair counted by (simp add: fs_writeFile_def check_write_def tbind_def)
  next
    case (Inr q)
    then have q: "may_write pa q" and m: "m = List.insert q (tw_modified w)" "int (length m) \<le> pa_max pa"
      using Pair write_allowed_iff by auto
    have sub': "insert q (written w) \<subseteq> set m" using w sub m(1) by (auto simp: confined_def)
    then have "card (insert q (written w)) \<le> length m"
      by (meson card_length card_mono finite_set le_trans)
    then have bound: "int (card (insert q (written w))) \<le> max 0 (pa_max pa)" using m(2) by linarith
    let ?v = "w\<lparr>tw_modified := m, tw_ops := tw_ops w @ [Op_Mkdir (path_dirname q)]\<rparr>"
    have made: "confined pa ?v" and kept: "written ?v = written w"
      using counted q by (auto simp: confined_def written_def)
    have "written (?v\<lparr>tw_ops := tw_ops ?v @ [Op_Write q c]\<rparr>) = insert q (written w)"
      by (auto simp: written_def)
    then have "confined pa (?v\<lparr>tw_ops := tw_ops ?v @ [Op_Write q c]\<rparr>)"
      using made q sub' bound unfolding confined_def by (simp del: append_assoc)
    then show ?thesis
      using Pair Inr made
      by (auto simp: fs_writeFile_def check_write_def tbind_def await_def call_host_def tret_def tthrow_def split: sum.splits)
  qed
qed

interpretation confinement: tool_invariant ho pa "confined pa" for ho pa
proof
  show "confined pa (w\<lparr>tw_ops := tw_ops w @ [p]\<rparr>)" if "confined pa w" "safe_op pa p" "\<forall>q c. p \<noteq> Op_Write q c" for w p
    using that by (cases p) (simp_all add: confined_def written_call)
  show "confined pa (w\<lparr>tw_tick := n\<rparr>)" "confined pa (w\<lparr>tw_records := rs\<rparr>)" if "confined pa w" for w n rs
    using that by (simp_all add: confined_def written_def)
  show "confined pa (snd (fs_writeFile ho pa path c w))" if "confined pa w" for w path c
    using that by (rule confined_write)
qed


section \<open>The threshold is final\<close>

definition stuck :: "tool_policy \<Rightarrow> string set \<Rightarrow> tool_world \<Rightarrow> bool" where
  "stuck pa W w \<longleftrightarrow> pa_max pa < int (length (tw_modified w)) \<and> written w = W"

lemma stuck_write:
  assumes "stuck pa W w"
  shows "stuck pa W (snd (fs_writeFile ho pa p c w))" "\<exists>e. fst (fs_writeFile ho pa p c w) = Inl (Js_Thrown e)"
proof -
  obtain e m where "assertWriteAllowed (disk_now ho w) pa p (tw_modified w) = (Inl e, m)" "pa_max pa < int (length m)"
    using over_limit_refuses[of pa "tw_modified w" "disk_now ho w" p] assms by (auto simp: stuck_def)
  then show "stuck pa W (snd (fs_writeFile ho pa p c w))" "\<exists>e. fst (fs_writeFile ho pa p c w) = Inl (Js_Thrown e)"
    using assms by (simp_all add: fs_writeFile_def check_write_def tbind_def stuck_def written_def)
qed

interpretation threshold: tool_invariant ho pa "stuck pa W" for ho pa W
proof
  show "stuck pa W (w\<lparr>tw_ops := tw_ops w @ [p]\<rparr>)" if "stuck pa W w" "safe_op pa p" "\<forall>q c. p \<noteq> Op_Write q c" for w p
    using that by (cases p) (simp_all add: stuck_def written_call)
  show "stuck pa W (w\<lparr>tw_tick := n\<rparr>)" "stuck pa W (w\<lparr>tw_records := rs\<rparr>)" if "stuck pa W w" for w n rs
    using that by (simp_all add: stuck_def written_def)
  show "stuck pa W (snd (fs_writeFile ho pa path c w))" if "stuck pa W w" for w path c
    using that by (rule stuck_write)
qed

text \<open>Once the number of counted files is over the limit, no later request writes anything, also not to a file that was
  written before, and every write is refused; the refused file is one of those counted.\<close>

theorem write_threshold_is_final:
  "let pa = createLocalToolSet ho input; w = tool_session ho input es; w' = tool_session ho input (es @ es') in
     if pa_max pa < int (length (tw_modified w))
     then written w' = written w \<and> (\<exists>e. fst (fs_writeFile ho pa p c w') = Inl (Js_Thrown e))
     else True"
proof -
  define pa where "pa = createLocalToolSet ho input"
  define w where "w = tool_session ho input es"
  have later: "tool_session ho input (es @ es') = fold (run_event ho pa) es' w"
    by (simp add: tool_session_def pa_def w_def)
  have "written w' = written w \<and> (\<exists>e. fst (fs_writeFile ho pa p c w') = Inl (Js_Thrown e))"
    if over: "pa_max pa < int (length (tw_modified w))" and "w' = fold (run_event ho pa) es' w" for w'
  proof -
    have "stuck pa (written w) w'" using threshold.kept_events[of pa "written w" w ho es'] that by (simp add: stuck_def)
    then show ?thesis using stuck_write(2) by (auto simp: stuck_def)
  qed
  then show ?thesis unfolding Let_def later pa_def[symmetric] w_def[symmetric] by simp
qed

section \<open>How errors are reported\<close>

definition reports :: "unified_request \<Rightarrow> tool_world \<Rightarrow> tool_world \<Rightarrow> tool_result \<Rightarrow> bool" where
  "reports r w w' z \<longleftrightarrow> tz_toolName z = tq_toolName r \<and>
     (\<exists>l. tw_records w' = tw_records w @ [l] \<and> tl_toolName l = tq_toolName r \<and> (tl_success l \<longleftrightarrow> \<not> isl (tz_answer z))
       \<and> tl_error l = (case tz_answer z of Inl v \<Rightarrow> Some (te_message v) | Inr _ \<Rightarrow> None))"

lemma records_write: "tw_records (snd (fs_writeFile ho pa p c w)) = tw_records w"
  by (auto simp: fs_writeFile_def check_write_def tbind_def await_def call_host_def tret_def tthrow_def
      split: sum.splits prod.splits)

interpretation unrecorded: tool_steps ho pa "\<lambda>w. tw_records w = rs" for ho pa rs
  by unfold_locales (simp_all add: records_write)

lemma add_record_run:
  "\<exists>n. add_record ho r a root start err w = (Inr (), w\<lparr>tw_tick := n, tw_records := tw_records w @
     [\<lparr> tl_adapter = a, tl_toolName = tq_toolName r, tl_success = (err = None), tl_durationMs = ho_now ho (tw_tick w) - start,
        tl_createdAt = Iso (ho_now ho (Suc (tw_tick w))), tl_workspaceRoot = root,
        tl_command = (case rec_get (tq_input r) ''command'' of Some (JStr c) \<Rightarrow> Some c | _ \<Rightarrow> None),
        tl_args = (case rec_get (tq_input r) ''args'' of Some (JArr vs) \<Rightarrow> strings_of vs | _ \<Rightarrow> None),
        tl_error = err \<rparr>]\<rparr>)"
  by (rule exI[of _ "Suc (Suc (tw_tick w))"]) (simp add: add_record_def read_clock_def tbind_def)

text \<open>The adapter's call with its timer and the check of its output.\<close>

definition tool_attempt :: "host \<Rightarrow> tool_policy \<Rightarrow> unified_request \<Rightarrow> adapter_name \<Rightarrow> bool \<Rightarrow> string \<Rightarrow> tool_output tool_act" where
  "tool_attempt ho pa r a aborted root =
     tbind (withToolTimeout ho aborted (tq_toolName r) (case rec_get (tq_input r) ''timeoutMs'' of Some (JNum n) \<Rightarrow> max 1 n | _ \<Rightarrow> 10000)
             (adapter_execute ho pa a r root))
       (\<lambda>z. tbind (validateToolOutput (tq_toolName r) z) (\<lambda>_. tret z))"

lemma execute_recorded:
  assumes "input_ok (tq_toolName r) (tq_input r)" "requireExecutionOptions ho pa given w = (Inr opts, w)"
    and "adapter_for (tq_toolName r) = Some a" "tn_workspaceRoot opts = root" "in_scopes pa root"
  shows "\<exists>z w'. execute_tool ho pa r given w = (Inr z, w') \<and> reports r w w' z
    \<and> tz_answer z = (case fst (tool_attempt ho pa r a (tn_aborted opts) root (snd (read_clock ho w))) of
                       Inl e \<Rightarrow> Inl (normalizeToolError e ''TOOL_EXECUTION_FAILED'') | Inr y \<Rightarrow> Inr y)"
proof -
  define v where "v = snd (read_clock ho w)"
  obtain x u where x: "tool_attempt ho pa r a (tn_aborted opts) root v = (x, u)" by (metis surj_pair)
  have "tkeeps (\<lambda>w. tw_records w = tw_records v) (tool_attempt ho pa r a (tn_aborted opts) root)"
    unfolding tool_attempt_def by (intro tool_intros unrecorded.kept_adapter assms(5))
  then have u: "tw_records u = tw_records w"
    using x by (auto simp: tkeeps_def v_def read_clock_def dest: spec[of _ v])
  have clock: "read_clock ho w = (Inr (ho_now ho (tw_tick w)), v)" by (simp add: v_def read_clock_def)
  note run = assms(1-4) clock x[unfolded tool_attempt_def] u
  show ?thesis
  proof (cases x)
    case (Inl e)
    then show ?thesis
      using run add_record_run[of ho r a root "ho_now ho (tw_tick w)" "Some (te_message (normalizeToolError e ''TOOL_EXECUTION_FAILED''))" u] x
      unfolding v_def[symmetric]
      by (auto simp: execute_tool_def validateToolInput_def tbind_def[of "tret _"] tbind_def[of "requireExecutionOptions _ _ _"]
        tbind_def[of "read_clock _"] tbind_def[of "add_record _ _ _ _ _ _"] tret_def Let_def reports_def)
  next
    case (Inr y)
    then show ?thesis
      using run add_record_run[of ho r a root "ho_now ho (tw_tick w)" None u] x
      unfolding v_def[symmetric]
      by (auto simp: execute_tool_def validateToolInput_def tbind_def[of "tret _"] tbind_def[of "requireExecutionOptions _ _ _"]
        tbind_def[of "read_clock _"] tbind_def[of "add_record _ _ _ _ _ _"] tret_def Let_def reports_def)
  qed
qed

lemma refused_write_answer:
  assumes "tq_toolName r = ''file_write''" "input_ok (tq_toolName r) (tq_input r)" "\<not> ho_timer ho (tw_ops w)"
    and "rec_get (tq_input r) ''filePath'' = Some (JStr p)"
    and "assertWriteAllowed (disk_now ho w) pa p (tw_modified w) = (Inl e, m)"
  shows "fst (tool_attempt ho pa r Filesystem_Adapter False root w) = Inl (Js_Thrown e)"
proof -
  have fields: "field_ok (tq_input r) (''filePath'', Kind_Text, False)" "field_ok (tq_input r) (''content'', Kind_Text, False)"
    using assms(1,2) by (simp_all add: input_ok_def inputSchemas_def)
  then have p: "\<not> blank p" using assms(4) by (simp add: field_ok_def)
  have "\<exists>c. rec_get (tq_input r) ''content'' = Some (JStr c) \<and> \<not> blank c"
    using fields(2) by (auto simp: field_ok_def split: option.splits json.splits)
  then show ?thesis
    using assms p by (auto simp: tool_attempt_def withToolTimeout_def filesystem_execute_def asString_def fs_writeFile_def out_def
        check_write_def tbind_def tret_def)
qed

text \<open>C35. How a tool call fails: \<open>execute\<close> itself throws, before anything has been done or recorded, exactly on an invalid
  input, a missing or disallowed workspace or an unknown tool; every other outcome is a result with one matching record. A write
  the policy refuses comes back as a retriable execution error.\<close>

theorem tool_errors_exact:
  "let t = tq_toolName r; i = tq_input r in
   case execute_tool ho pa r given w of
     (Inl e, w') \<Rightarrow> w' = w \<and>
       (if \<not> input_ok t i then e = contract_error Cat_Validation False ''TOOL_INPUT_SCHEMA_INVALID''
                 (''Invalid input for '' @ t @ '': '' @ formatIssues (ho_issues ho t i))
        else case given of
          None \<Rightarrow> e = contract_error Cat_Policy False ''TOOL_WORKSPACE_REQUIRED'' ''Tool execution requires an explicit workspaceRoot''
        | Some g \<Rightarrow>
            (let root = normalizePath (disk_now ho w) (tn_workspaceRoot g) in
             if blank (tn_workspaceRoot g)
             then e = contract_error Cat_Policy False ''TOOL_WORKSPACE_REQUIRED'' ''Tool execution requires an explicit workspaceRoot''
             else if \<not> in_scopes pa root
             then e = Js_Thrown (safety_violation (''Workspace outside allowed scope is forbidden: '' @ root))
             else adapter_for t = None \<and> e = contract_error Cat_Unsupported False ''TOOL_UNSUPPORTED'' (''Unsupported tool request: '' @ t)))
   | (Inr z, w') \<Rightarrow> reports r w w' z \<and> input_ok t i \<and> adapter_for t \<noteq> None \<and>
       (case given of None \<Rightarrow> False | Some g \<Rightarrow>
          \<not> blank (tn_workspaceRoot g) \<and> in_scopes pa (normalizePath (disk_now ho w) (tn_workspaceRoot g)) \<and>
          (if t = ''file_write'' \<and> \<not> tn_aborted g \<and> \<not> ho_timer ho (tw_ops w)
           then (case rec_get i ''filePath'' of
             Some (JStr p) \<Rightarrow> (case assertWriteAllowed (disk_now ho w) pa p (tw_modified w) of
               (Inl e, m) \<Rightarrow> tz_answer z = Inl \<lparr> te_category = Cat_Execution, te_retriable = True,
                  te_code = ''TOOL_EXECUTION_FAILED'', te_message = error_message e \<rparr>
             | (Inr q, m) \<Rightarrow> True)
           | _ \<Rightarrow> False)
           else True))"
proof (cases "input_ok (tq_toolName r) (tq_input r)")
  case False
  then show ?thesis by (simp add: execute_tool_def validateToolInput_def tbind_def tthrow_def Let_def)
next
  case valid: True
  show ?thesis
  proof (cases "\<exists>g. given = Some g \<and> \<not> blank (tn_workspaceRoot g) \<and> in_scopes pa (normalizePath (disk_now ho w) (tn_workspaceRoot g))
      \<and> adapter_for (tq_toolName r) \<noteq> None")
    case False
    note run = valid execute_tool_def validateToolInput_def tbind_def tthrow_def tret_def requireExecutionOptions_def
      check_workspace_def tlift_def assertWorkspaceAllowed_def Let_def
    show ?thesis
    proof (cases given)
      case None
      then show ?thesis by (simp add: run)
    next
      case (Some g)
      then show ?thesis
        using False by (cases "blank (tn_workspaceRoot g)";
          cases "in_scopes pa (normalizePath (disk_now ho w) (tn_workspaceRoot g))") (simp_all add: run)
    qed
  next
    case True
    then obtain g a where g: "given = Some g" "\<not> blank (tn_workspaceRoot g)" "adapter_for (tq_toolName r) = Some a"
      "in_scopes pa (normalizePath (disk_now ho w) (tn_workspaceRoot g))" by auto
    define root where "root = normalizePath (disk_now ho w) (tn_workspaceRoot g)"
    have opts: "requireExecutionOptions ho pa given w = (Inr (g\<lparr>tn_workspaceRoot := root\<rparr>), w)"
      using g by (simp add: requireExecutionOptions_def check_workspace_def tlift_def assertWorkspaceAllowed_def Let_def
          tbind_def tret_def root_def)
    obtain z w' where z: "execute_tool ho pa r given w = (Inr z, w')" "reports r w w' z"
      "tz_answer z = (case fst (tool_attempt ho pa r a (tn_aborted g) root (snd (read_clock ho w))) of
         Inl e \<Rightarrow> Inl (normalizeToolError e ''TOOL_EXECUTION_FAILED'') | Inr y \<Rightarrow> Inr y)"
      using execute_recorded[OF valid opts g(3), of root] g(4) by (auto simp: root_def)
    have path: "\<exists>p. rec_get (tq_input r) ''filePath'' = Some (JStr p)" if "tq_toolName r = ''file_write''"
      using valid that by (auto simp: input_ok_def inputSchemas_def field_ok_def split: option.splits json.splits)
    have "tz_answer z = Inl \<lparr> te_category = Cat_Execution, te_retriable = True, te_code = ''TOOL_EXECUTION_FAILED'',
        te_message = error_message e \<rparr>"
      if "tq_toolName r = ''file_write''" "\<not> tn_aborted g" "\<not> ho_timer ho (tw_ops w)"
        "rec_get (tq_input r) ''filePath'' = Some (JStr p)" "assertWriteAllowed (disk_now ho w) pa p (tw_modified w) = (Inl e, m)" for p e m
      using refused_write_answer[of r ho "snd (read_clock ho w)" p pa e m root] that valid g(3) z(3)
      by (auto simp: read_clock_def disk_now_def normalizeToolError_def adapter_for_def)
    then show ?thesis using z(1,2) g valid path by (auto simp: Let_def split: prod.splits sum.splits option.splits)
  qed
qed

end
