(* ===== verification/Redaction.thy ===== *)
theory Redaction
  imports Json
begin

text \<open>
  Secrets kept out of what tools record: \<open>packages/tools/src/secrets/redaction.ts\<close>. The regular expressions are
  executable predicates on strings of ASCII characters.
\<close>

section \<open>What counts as a secret\<close>

definition secret_words :: "string list" where
  "secret_words = [''token'', ''secret'', ''password'', ''passwd'', ''authorization'', ''apikey'', ''api-key'', ''api_key'',
     ''privatekey'', ''private-key'', ''private_key'']"

definition isSecretKey :: "string option \<Rightarrow> bool" where
  "isSecretKey key = (case key of None \<Rightarrow> False | Some k \<Rightarrow> list_ex (str_includes (to_lower k)) secret_words)"

definition char_in :: "char \<Rightarrow> char \<Rightarrow> char \<Rightarrow> bool" where
  "char_in lo hi c = ((of_char lo :: nat) \<le> of_char c \<and> (of_char c :: nat) \<le> of_char hi)"

definition is_upper :: "char \<Rightarrow> bool" where
  "is_upper c = char_in CHR ''A'' CHR ''Z'' c"

definition is_digit :: "char \<Rightarrow> bool" where
  "is_digit c = char_in CHR ''0'' CHR ''9'' c"

definition is_alnum :: "char \<Rightarrow> bool" where
  "is_alnum c = (is_upper c \<or> is_digit c \<or> char_in CHR ''a'' CHR ''z'' c)"

definition is_word :: "char \<Rightarrow> bool" where
  "is_word c = (is_alnum c \<or> c = CHR ''_'')"

text \<open>A match somewhere in the text; the flag says whether the character before is a word character.\<close>

fun matches_at :: "(bool \<Rightarrow> string \<Rightarrow> bool) \<Rightarrow> bool \<Rightarrow> string \<Rightarrow> bool" where
  "matches_at f before [] = f before []"
| "matches_at f before (c # cs) = (f before (c # cs) \<or> matches_at f (is_word c) cs)"

definition after :: "string \<Rightarrow> string \<Rightarrow> string option" where
  "after p s = (if prefix p s then Some (drop (length p) s) else None)"

definition private_key_block :: "bool \<Rightarrow> string \<Rightarrow> bool" where
  "private_key_block before s = (case after ''-----BEGIN '' s of
     None \<Rightarrow> False
   | Some t \<Rightarrow>
       (let run = takeWhile (\<lambda>c. is_upper c \<or> c = CHR '' '') t in
        suffix ''PRIVATE KEY'' run \<and> prefix ''-----'' (drop (length run) t)))"

text \<open>\<open>\b<p>[A-Za-z0-9]{n,}\b\<close>: the run has to be maximal, and no underscore may follow it.\<close>

definition tagged_token :: "string list \<Rightarrow> nat \<Rightarrow> bool \<Rightarrow> string \<Rightarrow> bool" where
  "tagged_token ps n before s = (\<not> before \<and> list_ex (\<lambda>p. case after p s of
     None \<Rightarrow> False
   | Some t \<Rightarrow>
       (let run = takeWhile is_alnum t; rest = drop (length run) t in
        n \<le> length run \<and> (rest = [] \<or> \<not> is_word (hd rest)))) ps)"

definition access_key :: "bool \<Rightarrow> string \<Rightarrow> bool" where
  "access_key before s = (\<not> before \<and> (case after ''AKIA'' s of
     None \<Rightarrow> False
   | Some t \<Rightarrow> 16 \<le> length t \<and> list_all (\<lambda>c. is_upper c \<or> is_digit c) (take 16 t)
       \<and> (drop 16 t = [] \<or> \<not> is_word (hd (drop 16 t)))))"

definition isSecretLikeValue :: "string \<Rightarrow> bool" where
  "isSecretLikeValue s =
     (matches_at private_key_block False s
      \<or> matches_at (tagged_token [''sk_'', ''rk_''] 16) False s
      \<or> matches_at (tagged_token [''ghp_'', ''gho_'', ''ghu_'', ''ghs_'', ''ghr_''] 20) False s
      \<or> matches_at access_key False s)"

section \<open>Redaction\<close>

fun visit :: "string \<Rightarrow> nat \<Rightarrow> json \<Rightarrow> string option \<Rightarrow> nat \<Rightarrow> json" where
  "visit redacted maxDepth (JStr s) key depth =
     (if maxDepth < depth then JStr s
      else if isSecretKey key \<or> isSecretLikeValue s then JStr redacted else JStr s)"
| "visit redacted maxDepth (JArr vs) key depth =
     (if maxDepth < depth then JArr vs else JArr (map (\<lambda>v. visit redacted maxDepth v key (depth + 1)) vs))"
| "visit redacted maxDepth (JObj kvs) key depth =
     (if maxDepth < depth then JObj kvs
      else JObj (map (\<lambda>(k, v). (k, if isSecretKey (Some k) then JStr redacted
                                   else visit redacted maxDepth v (Some k) (depth + 1))) kvs))"
| "visit redacted maxDepth v key depth = v"

definition redactSecrets :: "json \<Rightarrow> string option \<Rightarrow> nat option \<Rightarrow> json" where
  "redactSecrets input redactedValue maxDepth =
     visit (or_default redactedValue ''[REDACTED]'') (or_default maxDepth 8) input None 0"

section \<open>What is left\<close>

text \<open>The strings of a value up to a depth, each with the member it is below.\<close>

fun exposed :: "nat \<Rightarrow> json \<Rightarrow> string option \<Rightarrow> nat \<Rightarrow> (string option \<times> string) list" where
  "exposed maxDepth (JStr s) key depth = (if maxDepth < depth then [] else [(key, s)])"
| "exposed maxDepth (JArr vs) key depth =
     (if maxDepth < depth then [] else concat (map (\<lambda>v. exposed maxDepth v key (depth + 1)) vs))"
| "exposed maxDepth (JObj kvs) key depth =
     (if maxDepth < depth then [] else concat (map (\<lambda>(k, v). exposed maxDepth v (Some k) (depth + 1)) kvs))"
| "exposed maxDepth v key depth = []"

text \<open>The value with its strings forgotten below the objects' keys.\<close>

fun outline :: "json \<Rightarrow> json" where
  "outline (JStr s) = JStr []"
| "outline (JArr vs) = JArr (map outline vs)"
| "outline (JObj kvs) = JObj (map (\<lambda>(k, v). (k, if isSecretKey (Some k) then JStr [] else outline v)) kvs)"
| "outline v = v"

definition harmless :: "string \<Rightarrow> string option \<times> string \<Rightarrow> bool" where
  "harmless redacted e = (snd e = redacted \<or> \<not> (isSecretKey (fst e) \<or> isSecretLikeValue (snd e)))"

lemma visit_harmless: "list_all (harmless r) (exposed d (visit r d v key n) key n)"
proof (induction v arbitrary: key n)
  case (JObj kvs)
  have "harmless r e"
    if kv: "(k, v) \<in> set kvs" and e: "e \<in> set (exposed d (if isSecretKey (Some k) then JStr r else visit r d v (Some k) (n + 1)) (Some k) (n + 1))"
    for k v e
    using JObj[of "(k, v)" v "Some k" "n + 1"] kv e
    by (auto simp: list_all_iff harmless_def split: if_splits)
  then show ?case by (auto simp: list_all_iff)
next
  case (JArr vs)
  then show ?case by (auto simp: list_all_iff)
qed (auto simp: harmless_def)

lemma visit_idempotent: "visit r d (visit r d v key n) key n = visit r d v key n"
proof (induction v arbitrary: key n)
  case (JObj kvs)
  have "visit r d (visit r d v (Some k) (Suc n)) (Some k) (Suc n) = visit r d v (Some k) (Suc n)" if "(k, v) \<in> set kvs" for k v
    using JObj[of "(k, v)" v "Some k" "Suc n"] that by simp
  then show ?case by auto
qed auto

lemma visit_outline: "outline (visit r d v key n) = outline v"
proof (induction v arbitrary: key n)
  case (JObj kvs)
  have "outline (visit r d v (Some k) (Suc n)) = outline v" if "(k, v) \<in> set kvs" for k v
    using JObj[of "(k, v)" v "Some k" "Suc n"] that by simp
  then show ?case by auto
qed auto

text \<open>No secret down to the depth.\<close>

fun secret_free :: "nat \<Rightarrow> json \<Rightarrow> string option \<Rightarrow> nat \<Rightarrow> bool" where
  "secret_free maxDepth (JStr s) key depth = (depth \<le> maxDepth \<longrightarrow> \<not> (isSecretKey key \<or> isSecretLikeValue s))"
| "secret_free maxDepth (JArr vs) key depth =
     (depth \<le> maxDepth \<longrightarrow> list_all (\<lambda>v. secret_free maxDepth v key (depth + 1)) vs)"
| "secret_free maxDepth (JObj kvs) key depth =
     (depth \<le> maxDepth \<longrightarrow>
        list_all (\<lambda>(k, v). \<not> isSecretKey (Some k) \<and> secret_free maxDepth v (Some k) (depth + 1)) kvs)"
| "secret_free maxDepth v key depth = True"

lemma visit_secret_free: "secret_free d v key n \<Longrightarrow> visit r d v key n = v"
proof (induction v arbitrary: key n)
  case (JObj kvs)
  have "visit r d v (Some k) (Suc n) = v" if "(k, v) \<in> set kvs" "n \<le> d" for k v
    using JObj.IH[of "(k, v)" v "Some k" "Suc n"] JObj.prems that by (auto simp: list_all_iff)
  then show ?case using JObj.prems by (auto simp: list_all_iff intro!: map_idI)
next
  case (JArr vs)
  then show ?case by (auto simp: list_all_iff intro!: map_idI)
qed auto

text \<open>The values of the members with a secret name, of every object down to a depth.\<close>

fun secret_members :: "nat \<Rightarrow> json \<Rightarrow> nat \<Rightarrow> json list" where
  "secret_members maxDepth (JArr vs) depth =
     (if maxDepth < depth then [] else concat (map (\<lambda>v. secret_members maxDepth v (depth + 1)) vs))"
| "secret_members maxDepth (JObj kvs) depth =
     (if maxDepth < depth then []
      else concat (map (\<lambda>(k, v). (if isSecretKey (Some k) then [v] else []) @ secret_members maxDepth v (depth + 1)) kvs))"
| "secret_members maxDepth v depth = []"

lemma visit_secret_members: "list_all (\<lambda>v. v = JStr r) (secret_members d (visit r d v key n) n)"
proof (induction v arbitrary: key n)
  case (JObj kvs)
  have "list_all (\<lambda>v. v = JStr r) (secret_members d (visit r d v (Some k) (Suc n)) (Suc n))" if "(k, v) \<in> set kvs" for k v
    using JObj[of "(k, v)" v "Some k" "Suc n"] that by simp
  then show ?case by (fastforce simp: list_all_iff split: if_splits)
next
  case (JArr vs)
  then show ?case by (auto simp: list_all_iff)
qed auto

text \<open>C36. Redaction leaves no secret down to its depth. Every member with a secret name, of any object there, has the replacement as
  its value, whatever the value was: a text, a number, a list or an object. Every string there is the replacement, or is neither below a
  secret member nor of the form of a secret. Nothing but strings and the values of secret members changes, a value without
  secrets stays as it is, and doing it again changes nothing.\<close>

theorem redaction_complete:
  "(let r = or_default redactedValue ''[REDACTED]''; d = or_default maxDepth 8; out = redactSecrets input redactedValue maxDepth in
    list_all (\<lambda>v. v = JStr r) (secret_members d out 0)
    \<and> list_all (harmless r) (exposed d out None 0) \<and> outline out = outline input
    \<and> redactSecrets out redactedValue maxDepth = out
    \<and> (if secret_free d input None 0 then out = input else True))"
  using visit_secret_members visit_harmless visit_idempotent visit_outline visit_secret_free by (simp add: redactSecrets_def Let_def)

end
