(* ===== verification/Observability.thy ===== *)
theory Observability
  imports State_Store Json Complex_Main
begin

text \<open>
  Metrics and spans: the in-memory store (\<open>packages/state/src/observability/in-memory-observability-store.ts\<close>,
  \<open>observability-store.ts\<close>) and the audit queries of the dashboard over it
  (\<open>packages/application/src/dashboard-query-service.ts\<close>). Values and durations are rational numbers.
\<close>

section \<open>Records and their life\<close>

datatype metric_type = Counter | Histogram | Gauge

datatype span_status = Span_Ok | Span_Error

record metric =
  mr_id :: string
  mr_name :: string
  mr_type :: metric_type
  mr_value :: rat
  mr_tags :: "string jsrec"
  mr_created :: stamp
  mr_run :: "string option"
  mr_correlation :: "string option"
  mr_expires :: "stamp option"

record span =
  sp_id :: string
  sp_name :: string
  sp_duration :: rat
  sp_status :: span_status
  sp_tags :: "string jsrec"
  sp_created :: stamp
  sp_run :: "string option"
  sp_correlation :: "string option"
  sp_task :: "string option"
  sp_role :: "string option"
  sp_tool :: "string option"
  sp_expires :: "stamp option"

record obs_store =
  ob_metrics :: "metric list"
  ob_spans :: "span list"
  ob_retention :: "int option"

text \<open>The retention is a whole number of days.\<close>

definition normalizeObservabilityRetentionDays :: "int option \<Rightarrow> int option result" where
  "normalizeObservabilityRetentionDays days = (case days of
     None \<Rightarrow> Inr None
   | Some n \<Rightarrow> (if n \<le> 0
       then Inl (Js_Error PlainError (''Observability retentionDays must be a positive integer, received '' @ int_to_string n) [])
       else Inr (Some n)))"

definition createTelemetryExpiresAt :: "stamp \<Rightarrow> int option \<Rightarrow> stamp option result" where
  "createTelemetryExpiresAt createdAt days = (case normalizeObservabilityRetentionDays days of
     Inl e \<Rightarrow> Inl e
   | Inr None \<Rightarrow> Inr None
   | Inr (Some n) \<Rightarrow> (case date_ms createdAt of
       None \<Rightarrow> Inl (Js_Error PlainError (''Telemetry createdAt must be an ISO timestamp, received ''
                 @ (case createdAt of Other_Text s \<Rightarrow> s | Iso t \<Rightarrow> [])) [])
     | Some t \<Rightarrow> Inr (Some (Iso (t + n * 24 * 60 * 60 * 1000)))))"

text \<open>An input gives its id and its time or leaves them to the store.\<close>

definition recordMetric :: "string \<Rightarrow> stamp \<Rightarrow> string option \<Rightarrow> stamp option \<Rightarrow> metric \<Rightarrow> (obs_store, metric) act" where
  "recordMetric uuid now given_id given_created m =
     bindA (getA ob_retention) (\<lambda>days.
     let createdAt = or_default given_created now in
     bindA (liftA (createTelemetryExpiresAt createdAt days)) (\<lambda>expires.
     let r = m\<lparr> mr_id := or_default given_id uuid, mr_created := createdAt, mr_run := when_truthy (mr_run m),
               mr_correlation := when_truthy (mr_correlation m), mr_expires := expires \<rparr> in
     thenA (modA (\<lambda>s. s\<lparr>ob_metrics := ob_metrics s @ [r]\<rparr>)) (ret r)))"

definition recordSpan :: "string \<Rightarrow> stamp \<Rightarrow> string option \<Rightarrow> stamp option \<Rightarrow> span \<Rightarrow> (obs_store, span) act" where
  "recordSpan uuid now given_id given_created s =
     bindA (getA ob_retention) (\<lambda>days.
     let createdAt = or_default given_created now in
     bindA (liftA (createTelemetryExpiresAt createdAt days)) (\<lambda>expires.
     let r = s\<lparr> sp_id := or_default given_id uuid, sp_created := createdAt, sp_run := when_truthy (sp_run s),
               sp_correlation := when_truthy (sp_correlation s), sp_task := when_truthy (sp_task s),
               sp_role := when_truthy (sp_role s), sp_tool := when_truthy (sp_tool s), sp_expires := expires \<rparr> in
     thenA (modA (\<lambda>st. st\<lparr>ob_spans := ob_spans st @ [r]\<rparr>)) (ret r)))"

record metrics_query =
  mq_limit :: "nat option"
  mq_offset :: "nat option"
  mq_run :: "string option"
  mq_correlation :: "string option"
  mq_name :: "string option"
  mq_type :: "metric_type option"

record spans_query =
  tq_limit :: "nat option"
  tq_offset :: "nat option"
  tq_run :: "string option"
  tq_correlation :: "string option"
  tq_task :: "string option"
  tq_role :: "string option"
  tq_tool :: "string option"
  tq_status :: "span_status option"

text \<open>A text that is absent or empty asks nothing.\<close>

definition asks :: "string option \<Rightarrow> string option \<Rightarrow> bool" where
  "asks q v = (truthy q \<longrightarrow> v = q)"

definition matchesMetricQuery :: "metric \<Rightarrow> metrics_query \<Rightarrow> bool" where
  "matchesMetricQuery r q =
     (if \<not> asks (mq_run q) (mr_run r) then False
      else if \<not> asks (mq_correlation q) (mr_correlation r) then False
      else if \<not> asks (mq_name q) (Some (mr_name r)) then False
      else if mq_type q \<noteq> None \<and> mq_type q \<noteq> Some (mr_type r) then False
      else True)"

definition matchesSpanQuery :: "span \<Rightarrow> spans_query \<Rightarrow> bool" where
  "matchesSpanQuery r q =
     (if \<not> asks (tq_run q) (sp_run r) then False
      else if \<not> asks (tq_correlation q) (sp_correlation r) then False
      else if \<not> asks (tq_task q) (sp_task r) then False
      else if \<not> asks (tq_role q) (sp_role r) then False
      else if \<not> asks (tq_tool q) (sp_tool r) then False
      else if tq_status q \<noteq> None \<and> tq_status q \<noteq> Some (sp_status r) then False
      else True)"

definition paged :: "'a list \<Rightarrow> nat option \<Rightarrow> nat option \<Rightarrow> 'a list" where
  "paged xs offset limit = (let o' = or_default offset 0 in
     case limit of None \<Rightarrow> drop o' xs | Some l \<Rightarrow> slice o' (o' + l) xs)"

definition listMetrics :: "metrics_query \<Rightarrow> (obs_store, metric list) act" where
  "listMetrics q = getA (\<lambda>s. paged (newest_first mr_created (filter (\<lambda>r. matchesMetricQuery r q) (ob_metrics s)))
     (mq_offset q) (mq_limit q))"

definition listSpans :: "spans_query \<Rightarrow> (obs_store, span list) act" where
  "listSpans q = getA (\<lambda>s. paged (newest_first sp_created (filter (\<lambda>r. matchesSpanQuery r q) (ob_spans s)))
     (tq_offset q) (tq_limit q))"

text \<open>\<open>removeExpiredRecords\<close> walks the array from its end and splices; \<open>i\<close> records are still to be looked at.\<close>

definition is_expired :: "('a \<Rightarrow> stamp option) \<Rightarrow> int option \<Rightarrow> 'a \<Rightarrow> bool" where
  "is_expired expires now r = (case expires r of None \<Rightarrow> False | Some e \<Rightarrow> \<not> stamp_blank e \<and> num_le (date_ms e) now)"

fun removeExpired_from :: "nat \<Rightarrow> ('a \<Rightarrow> bool) \<Rightarrow> 'a list \<Rightarrow> 'a list" where
  "removeExpired_from 0 expired xs = xs"
| "removeExpired_from (Suc i) expired xs =
     removeExpired_from i expired (if i < length xs \<and> expired (xs ! i) then take i xs @ drop (Suc i) xs else xs)"

definition removeExpiredRecords :: "('a \<Rightarrow> stamp option) \<Rightarrow> 'a list \<Rightarrow> int option \<Rightarrow> 'a list" where
  "removeExpiredRecords expires xs now = removeExpired_from (length xs) (is_expired expires now) xs"

definition purgeExpired :: "stamp \<Rightarrow> (obs_store, int) act" where
  "purgeExpired now =
     bindA (getA (\<lambda>s. (length (ob_metrics s), length (ob_spans s)))) (\<lambda>(m, n).
     thenA (modA (\<lambda>s. s\<lparr> ob_metrics := removeExpiredRecords mr_expires (ob_metrics s) (date_ms now),
                        ob_spans := removeExpiredRecords sp_expires (ob_spans s) (date_ms now) \<rparr>))
       (getA (\<lambda>s. int m + int n - int (length (ob_metrics s)) - int (length (ob_spans s)))))"

section \<open>The audit of metrics\<close>

record rollup =
  ro_name :: string
  ro_type :: metric_type
  ro_total :: rat
  ro_count :: nat
  ro_lastValue :: rat
  ro_lastSeen :: stamp
  ro_tags :: "string jsrec"

fun metric_type_text :: "metric_type \<Rightarrow> string" where
  "metric_type_text Counter = ''counter''"
| "metric_type_text Histogram = ''histogram''"
| "metric_type_text Gauge = ''gauge''"

definition metric_key :: "metric \<Rightarrow> string" where
  "metric_key m = metric_type_text (mr_type m) @ '':'' @ mr_name m @ '':'' @ stringify (JObj (map (\<lambda>(k, v). (k, JStr v)) (mr_tags m)))"

definition roll :: "rollup jsrec \<Rightarrow> metric \<Rightarrow> rollup jsrec" where
  "roll buckets m = (let key = metric_key m in
     case rec_get buckets key of
       None \<Rightarrow> rec_set key \<lparr> ro_name = mr_name m, ro_type = mr_type m, ro_total = mr_value m, ro_count = 1,
                 ro_lastValue = mr_value m, ro_lastSeen = mr_created m, ro_tags = mr_tags m \<rparr> buckets
     | Some e \<Rightarrow> rec_set key (e\<lparr> ro_total := ro_total e + mr_value m, ro_count := ro_count e + 1,
                 ro_lastValue := mr_value m, ro_lastSeen := mr_created m \<rparr>) buckets)"

record 'a page =
  pg_total :: nat
  pg_limit :: nat
  pg_offset :: nat
  pg_items :: "'a list"

definition applyPagination :: "'a list \<Rightarrow> nat \<Rightarrow> nat \<Rightarrow> 'a list" where
  "applyPagination items offset limit = slice offset (offset + limit) items"

definition normalizeHistoryQuery :: "nat option \<Rightarrow> nat option \<Rightarrow> nat \<times> nat" where
  "normalizeHistoryQuery limit offset = (or_default limit 25, or_default offset 0)"

definition page_of :: "nat option \<Rightarrow> nat option \<Rightarrow> 'a list \<Rightarrow> 'a page" where
  "page_of limit offset items = (let (l, o') = normalizeHistoryQuery limit offset in
     \<lparr> pg_total = length items, pg_limit = l, pg_offset = o', pg_items = applyPagination items o' l \<rparr>)"

definition metrics_asked :: "string option \<Rightarrow> string option \<Rightarrow> metrics_query" where
  "metrics_asked run correlation = \<lparr> mq_limit = None, mq_offset = None, mq_run = when_truthy run,
     mq_correlation = when_truthy correlation, mq_name = None, mq_type = None \<rparr>"

definition getMetricsAudit :: "obs_store option \<Rightarrow> nat option \<Rightarrow> nat option \<Rightarrow> string option \<Rightarrow> string option \<Rightarrow> rollup page" where
  "getMetricsAudit store limit offset run correlation =
     (let metrics = (case store of None \<Rightarrow> [] | Some s \<Rightarrow> (case fst (listMetrics (metrics_asked run correlation) s) of Inr ms \<Rightarrow> ms | Inl e \<Rightarrow> []));
          buckets = foldl roll [] metrics in
      page_of limit offset (newest_first ro_lastSeen (rec_values buckets)))"

definition getTraceAudit :: "obs_store option \<Rightarrow> nat option \<Rightarrow> nat option \<Rightarrow> spans_query \<Rightarrow> span page" where
  "getTraceAudit store limit offset q =
     (let asked = q\<lparr> tq_limit := None, tq_offset := None \<rparr>;
          spans = (case store of None \<Rightarrow> [] | Some s \<Rightarrow> (case fst (listSpans asked s) of Inr xs \<Rightarrow> xs | Inl e \<Rightarrow> [])) in
      page_of limit offset spans)"

section \<open>Retention\<close>

lemma remove_from_is_filter:
  "i \<le> length xs \<Longrightarrow> removeExpired_from i p xs = filter (\<lambda>x. \<not> p x) (take i xs) @ drop i xs"
proof (induction i arbitrary: xs)
  case (Suc i)
  have d: "drop i xs = xs ! i # drop (Suc i) xs" using Suc.prems by (simp add: Cons_nth_drop_Suc)
  have t: "take (Suc i) xs = take i xs @ [xs ! i]" using Suc.prems by (simp add: take_Suc_conv_app_nth)
  show ?case
    using Suc.prems Suc.IH[of xs] Suc.IH[of "take i xs @ drop (Suc i) xs"] by (simp add: d t)
qed simp

lemma removeExpired_is_filter: "removeExpiredRecords expires xs now = filter (\<lambda>x. \<not> is_expired expires now x) xs"
  by (simp add: removeExpiredRecords_def remove_from_is_filter)

text \<open>What is recorded with a retention expires that many days after its creation, and a purge removes it from then on.\<close>

lemma recorded_expiry:
  "createTelemetryExpiresAt (Iso t) (Some n) = Inr e \<Longrightarrow>
     num_le (Some u) (Some v) = (u \<le> v) \<and> (\<exists>d. e = Some d \<and> (num_le (date_ms d) (Some v) \<longleftrightarrow> t + n * 86400000 \<le> v))"
  by (auto simp: createTelemetryExpiresAt_def normalizeObservabilityRetentionDays_def split: if_splits)

section \<open>Rollups\<close>

definition group :: "metric list \<Rightarrow> string \<Rightarrow> metric list" where
  "group ms k = filter (\<lambda>m. metric_key m = k) ms"

definition rollup_of :: "metric list \<Rightarrow> rollup" where
  "rollup_of g = \<lparr> ro_name = mr_name (hd g), ro_type = mr_type (hd g), ro_total = sum_list (map mr_value g), ro_count = length g,
     ro_lastValue = mr_value (last g), ro_lastSeen = mr_created (last g), ro_tags = mr_tags (hd g) \<rparr>"

lemma dedup_from_snoc:
  "dedup_from seen (xs @ [x]) = dedup_from seen xs @ (if x \<in> set xs \<union> set seen then [] else [x])"
  by (induction xs arbitrary: seen) auto

lemma dedup_snoc: "dedup (xs @ [x]) = dedup xs @ (if x \<in> set xs then [] else [x])"
  by (simp add: dedup_def dedup_from_snoc)

lemma update_new: "k \<notin> set (map fst xs) \<Longrightarrow> AList.update k v xs = xs @ [(k, v)]"
  by (induction xs) auto

lemma update_mapped:
  "distinct ks \<Longrightarrow> k \<in> set ks \<Longrightarrow> AList.update k v (map (\<lambda>j. (j, f j)) ks) = map (\<lambda>j. (j, if j = k then v else f j)) ks"
  by (induction ks) auto

lemma rolled: "foldl roll [] ms = map (\<lambda>k. (k, rollup_of (group ms k))) (dedup (map metric_key ms))"
proof (induction ms rule: rev_induct)
  case (snoc m ms)
  let ?k = "metric_key m"
  let ?b = "map (\<lambda>k. (k, rollup_of (group ms k))) (dedup (map metric_key ms))"
  have look: "rec_get ?b k = (if k \<in> metric_key ` set ms then Some (rollup_of (group ms k)) else None)" for k
    by (simp add: map_of_map_restrict restrict_map_def)
  show ?case
  proof (cases "?k \<in> metric_key ` set ms")
    case False
    have "group (ms @ [m]) ?k = [m]" using False by (auto simp: group_def filter_empty_conv image_iff)
    moreover have "group (ms @ [m]) k = group ms k" if "k \<noteq> ?k" for k using that by (simp add: group_def)
    moreover have "metric_key x \<noteq> ?k" if "x \<in> set ms" for x
      using False that by (metis image_eqI)
    ultimately show ?thesis
      using False snoc look[of ?k] by (simp add: roll_def Let_def dedup_snoc update_new rollup_of_def)
  next
    case True
    then have "group ms ?k \<noteq> []" by (auto simp: group_def filter_empty_conv)
    then show ?thesis
      using True snoc look[of ?k] by (simp add: roll_def Let_def dedup_snoc update_mapped rollup_of_def group_def)
  qed
qed (simp add: dedup_def)

lemma newest_first_sorted:
  "sorted_wrt (\<lambda>a b. stamp_compare (f b) (f a) \<le> 0) (newest_first f xs)"
  using comparator.sorted_sort_by[OF newest_first_comparator[of f], of xs]
  by (simp add: newest_first_def flip_cmp_def on_cmp_def)

lemma last_is_oldest:
  "sorted_wrt (\<lambda>a b. stamp_compare (f b) (f a) \<le> 0) xs \<Longrightarrow> x \<in> set xs \<Longrightarrow> stamp_compare (f (last xs)) (f x) \<le> 0"
  by (induction xs) (auto split: if_splits)

lemma sorted_wrt_filter_keeps: "sorted_wrt P xs \<Longrightarrow> sorted_wrt P (filter Q xs)"
  by (induction xs) auto

text \<open>The audit of metrics groups the matching samples by type, name and tags and gives for each group the sum and the number
  of its samples; the value and the time it calls last are those of a sample that is no newer than any other of the group.\<close>

theorem metrics_audit_exact:
  "let ms = newest_first mr_created (filter (\<lambda>m. matchesMetricQuery m (metrics_asked run correlation)) (ob_metrics s));
       keys = dedup (map metric_key ms); last_seen = (\<lambda>k. ro_lastSeen (rollup_of (group ms k))) in
   getMetricsAudit (Some s) limit offset run correlation
     = page_of limit offset (newest_first ro_lastSeen (map (\<lambda>k. rollup_of (group ms k)) keys))
   \<and> list_all (\<lambda>k. list_all (\<lambda>m. stamp_compare (last_seen k) (mr_created m) \<le> 0) (group ms k)) keys"
proof -
  define ms where "ms = newest_first mr_created (filter (\<lambda>m. matchesMetricQuery m (metrics_asked run correlation)) (ob_metrics s))"
  have listed: "fst (listMetrics (metrics_asked run correlation) s) = Inr ms"
    by (simp add: listMetrics_def getA_def paged_def or_default_def metrics_asked_def ms_def)
  have "getMetricsAudit (Some s) limit offset run correlation
     = page_of limit offset (newest_first ro_lastSeen (map (\<lambda>k. rollup_of (group ms k)) (dedup (map metric_key ms))))"
    by (simp add: getMetricsAudit_def listed rolled Let_def comp_def)
  moreover have "stamp_compare (ro_lastSeen (rollup_of (group ms k))) (mr_created m) \<le> 0" if "m \<in> set (group ms k)" for k m
  proof -
    have "sorted_wrt (\<lambda>a b. stamp_compare (mr_created b) (mr_created a) \<le> 0) (group ms k)"
      unfolding group_def ms_def by (intro sorted_wrt_filter_keeps newest_first_sorted)
    from last_is_oldest[OF this that] show ?thesis by (simp add: rollup_of_def)
  qed
  ultimately show ?thesis unfolding Let_def ms_def[symmetric] by (simp add: list_all_iff)
qed

text \<open>A purge removes exactly the records whose expiry has come, keeps the others in order and returns how many it removed.\<close>

theorem purge_exact:
  "let s' = s\<lparr> ob_metrics := filter (\<lambda>r. \<not> is_expired mr_expires (date_ms now) r) (ob_metrics s),
                ob_spans := filter (\<lambda>r. \<not> is_expired sp_expires (date_ms now) r) (ob_spans s) \<rparr> in
   \<exists>n. purgeExpired now s = (Inr (int n), s')
     \<and> n + length (ob_metrics s') + length (ob_spans s') = length (ob_metrics s) + length (ob_spans s)"
proof -
  let ?m = "filter (\<lambda>r. \<not> is_expired mr_expires (date_ms now) r) (ob_metrics s)"
  let ?n = "filter (\<lambda>r. \<not> is_expired sp_expires (date_ms now) r) (ob_spans s)"
  have le: "length ?m + length ?n \<le> length (ob_metrics s) + length (ob_spans s)" by (intro add_mono length_filter_le)
  then have "int (length (ob_metrics s)) + int (length (ob_spans s)) - int (length ?m) - int (length ?n)
      = int (length (ob_metrics s) + length (ob_spans s) - (length ?m + length ?n))" by linarith
  then show ?thesis unfolding Let_def
    using le by (intro exI[of _ "length (ob_metrics s) + length (ob_spans s) - (length ?m + length ?n)"])
      (simp add: purgeExpired_def bindA_def thenA_def getA_def modA_def removeExpired_is_filter)
qed

end
