(* ===== verification/Runtime_Secrets.thy ===== *)
theory Runtime_Secrets
  imports Json
begin

text \<open>
  Secrets of the running process: which values of the configuration are registered as secrets and how every text that is
  logged or shown is cleaned of them (\<open>registerRuntimeSecrets\<close>, \<open>collectSecretValues\<close>, \<open>redactSecrets\<close> of
  \<open>packages/shared/src/config/runtime-config.ts\<close>). A global replacement scans the text once, from the left; the regular
  expressions are matchers on ASCII text.
\<close>

section \<open>Replacing\<close>

text \<open>A matcher sees the character before the position and the text from there; it answers how many characters it takes
  and what replaces them.\<close>

type_synonym matcher = "char option \<Rightarrow> string \<Rightarrow> (nat \<times> string) option"

function replace_all :: "matcher \<Rightarrow> char option \<Rightarrow> string \<Rightarrow> string" where
  "replace_all m before [] = []"
| "replace_all m before (c # cs) = (case m before (c # cs) of
     None \<Rightarrow> c # replace_all m (Some c) cs
   | Some (n, r) \<Rightarrow> r @ replace_all m (Some (last (take (max 1 n) (c # cs)))) (drop (max 1 n) (c # cs)))"
  by pat_completeness auto
termination
  by (relation "measure (\<lambda>(m, b, s). length s)") auto

definition placeholder :: string where
  "placeholder = ''<redacted>''"

definition literal :: "string \<Rightarrow> matcher" where
  "literal secret before s = (if secret \<noteq> [] \<and> prefix secret s then Some (length secret, placeholder) else None)"

definition ascii_letter :: "char \<Rightarrow> bool" where
  "ascii_letter c = (let n = (of_char (lower_char c) :: nat) in 97 \<le> n \<and> n \<le> 122)"

definition ascii_digit :: "char \<Rightarrow> bool" where
  "ascii_digit c = (let n = (of_char c :: nat) in 48 \<le> n \<and> n \<le> 57)"

definition token_char :: "char \<Rightarrow> bool" where
  "token_char c = (ascii_letter c \<or> ascii_digit c \<or> c = CHR ''_'' \<or> c = CHR ''-'')"

definition word_char :: "char \<Rightarrow> bool" where
  "word_char c = (ascii_letter c \<or> ascii_digit c \<or> c = CHR ''_'')"

text \<open>The provider's keys: \<open>sk-\<close>, an optional \<open>proj-\<close>, which consists of token characters too, and at least twenty more.\<close>

definition provider_key :: matcher where
  "provider_key before s =
     (let run = takeWhile token_char (drop 3 s) in
      if (case before of None \<Rightarrow> True | Some b \<Rightarrow> \<not> token_char b) \<and> prefix ''sk-'' s \<and> 20 \<le> length run
      then Some (3 + length run, placeholder) else None)"

definition prefix_ci :: "string \<Rightarrow> string \<Rightarrow> bool" where
  "prefix_ci p s = prefix p (to_lower s)"

definition bearer_token :: matcher where
  "bearer_token before s =
     (let gap = takeWhile is_space (drop 6 s);
          run = takeWhile (\<lambda>c. word_char c \<or> c = CHR ''.'' \<or> c = CHR ''-'') (drop (6 + length gap) s) in
      if prefix_ci ''bearer'' s \<and> gap \<noteq> [] \<and> 16 \<le> length run
      then Some (6 + length gap + length run, take (6 + length gap) s @ placeholder) else None)"

definition shouldRedactAssignedValue :: "string \<Rightarrow> bool" where
  "shouldRedactAssignedValue v = (8 \<le> length v \<or> CHR ''-'' \<in> set v \<or> CHR ''_'' \<in> set v)"

definition assignment_keys :: "string list" where
  "assignment_keys = [''apikey'', ''api_key'', ''api-key'', ''token'', ''secret'', ''password'']"

text \<open>\<open>key = value\<close> or \<open>key: "value"\<close>; a value that need not be hidden is left as it is.\<close>

definition assigned_value :: matcher where
  "assigned_value before s =
     (case find (\<lambda>k. prefix_ci k s \<and> (drop (length k) s = [] \<or> \<not> word_char (hd (drop (length k) s)))) assignment_keys of
        None \<Rightarrow> None
      | Some k \<Rightarrow>
         (let s1 = drop (length k) s; gap1 = takeWhile is_space s1; s2 = drop (length gap1) s1;
              gap2 = takeWhile is_space (drop 1 s2); s3 = drop (1 + length gap2) s2;
              quoted = s3 \<noteq> [] \<and> hd s3 \<in> {CHR 0x27, CHR 0x22};
              quote = (if quoted then [hd s3] else []);
              s4 = drop (length quote) s3;
              val = takeWhile (\<lambda>c. c \<noteq> CHR 0x27 \<and> c \<noteq> CHR 0x22 \<and> c \<noteq> CHR '','' \<and> \<not> is_space c) s4;
              start = length k + length gap1 + 1 + length gap2 + length quote;
              n = start + length val + length quote in
          if (case before of None \<Rightarrow> True | Some b \<Rightarrow> \<not> word_char b)
             \<and> s2 \<noteq> [] \<and> hd s2 \<in> {CHR '':'', CHR ''=''} \<and> val \<noteq> [] \<and> prefix quote (drop (length val) s4)
          then Some (n, if shouldRedactAssignedValue val then take start s @ placeholder @ quote else take n s)
          else None))"

section \<open>The registry\<close>

text \<open>The registry is a set that keeps the order of insertion.\<close>

definition registerRuntimeSecrets :: "string list \<Rightarrow> string list \<Rightarrow> string list" where
  "registerRuntimeSecrets registry secrets = foldl (\<lambda>reg secret. let normalized = js_trim secret in
     if normalized = [] \<or> normalized \<in> set reg then reg else reg @ [normalized]) registry secrets"

definition redactRegisteredSecrets :: "string list \<Rightarrow> string \<Rightarrow> string" where
  "redactRegisteredSecrets registry v =
     foldl (\<lambda>sanitized secret. replace_all (literal secret) None sanitized) v
       (sort_by (key_cmp (\<lambda>s. - int (length s))) registry)"

definition redactSecretStrings :: "string list \<Rightarrow> string \<Rightarrow> string" where
  "redactSecretStrings registry v =
     replace_all assigned_value None (replace_all bearer_token None (replace_all provider_key None (redactRegisteredSecrets registry v)))"

definition is_secret_member :: "string \<Rightarrow> bool" where
  "is_secret_member key = list_ex (str_includes (to_lower key)) [''key'', ''token'', ''secret'', ''password'', ''dsn'']"

fun redactSecretsInternal :: "string list \<Rightarrow> json \<Rightarrow> json" where
  "redactSecretsInternal registry (JArr vs) = JArr (map (redactSecretsInternal registry) vs)"
| "redactSecretsInternal registry (JStr s) = JStr (redactSecretStrings registry s)"
| "redactSecretsInternal registry (JObj kvs) =
     JObj (map (\<lambda>(k, v). (k, if is_secret_member k then JStr placeholder else redactSecretsInternal registry v)) kvs)"
| "redactSecretsInternal registry v = v"

fun collectSecretValues :: "json \<Rightarrow> string list" where
  "collectSecretValues (JArr vs) = concat (map collectSecretValues vs)"
| "collectSecretValues (JObj kvs) =
     concat (map (\<lambda>(k, v). case v of
        JStr s \<Rightarrow> (if is_secret_member k \<and> \<not> blank s then [s] else [])
      | _ \<Rightarrow> collectSecretValues v) kvs)"
| "collectSecretValues v = []"

section \<open>What a replacement leaves\<close>

text \<open>A matcher is \<open>cutting\<close> when it only cuts something out of what it takes, and puts the placeholder there, or leaves
  it. The result of a replacement is then made of pieces of the text, with placeholders between them.\<close>

definition cutting :: "matcher \<Rightarrow> bool" where
  "cutting m = (\<forall>b s n r. m b s = Some (n, r) \<longrightarrow> 0 < n \<and> n \<le> length s \<and>
     (r = take n s \<or> (\<exists>x mid y. r = x @ placeholder @ y \<and> take n s = x @ mid @ y)))"

definition pieces :: "string \<Rightarrow> string list \<Rightarrow> bool" where
  "pieces s ps = (ps \<noteq> [] \<and> prefix (hd ps) s \<and> (\<forall>p \<in> set ps. sublist p s))"

lemma pieces_Cons:
  assumes "pieces cs ps"
  shows "pieces (c # cs) ((c # hd ps) # tl ps)" "join placeholder ((c # hd ps) # tl ps) = c # join placeholder ps"
proof -
  have p: "ps = hd ps # tl ps" using assms by (simp add: pieces_def)
  show "join placeholder ((c # hd ps) # tl ps) = c # join placeholder ps"
    by (subst (2) p) (cases "tl ps"; simp)
  have "\<forall>q \<in> set (tl ps). sublist q (c # cs)"
    using assms by (metis list.set_intros(2) p pieces_def sublist_Cons_right)
  then show "pieces (c # cs) ((c # hd ps) # tl ps)"
    using assms by (auto simp: pieces_def intro: prefix_imp_sublist)
qed

lemma pieces_append:
  assumes "pieces t ps"
  shows "pieces (u @ t) ((u @ hd ps) # tl ps) \<and> join placeholder ((u @ hd ps) # tl ps) = u @ join placeholder ps"
proof (induction u)
  case Nil
  have "ps = hd ps # tl ps" using assms by (simp add: pieces_def)
  then show ?case using assms by simp
next
  case (Cons c u)
  then show ?case
    using pieces_Cons[of "u @ t" "(u @ hd ps) # tl ps" c] by simp
qed

lemma pieces_cut:
  assumes "pieces t ps"
  shows "pieces (x @ mid @ y @ t) (x # (y @ hd ps) # tl ps)
    \<and> join placeholder (x # (y @ hd ps) # tl ps) = x @ placeholder @ y @ join placeholder ps"
proof -
  have q: "pieces (y @ t) ((y @ hd ps) # tl ps)" "join placeholder ((y @ hd ps) # tl ps) = y @ join placeholder ps"
    using pieces_append[OF assms, of y] by auto
  have "sublist p (x @ mid @ y @ t)" if "p \<in> set ((y @ hd ps) # tl ps)" for p
  proof -
    have "sublist p (y @ t)" using that q(1) unfolding pieces_def by blast
    then obtain u v where "y @ t = u @ p @ v" by (auto simp: sublist_def)
    then have "x @ mid @ y @ t = (x @ mid @ u) @ p @ v" by simp
    then show ?thesis unfolding sublist_def by blast
  qed
  then show ?thesis using q(2) by (auto simp: pieces_def intro: prefix_imp_sublist)
qed

lemma replace_all_pieces:
  assumes "cutting m"
  shows "\<exists>ps. pieces s ps \<and> replace_all m b s = join placeholder ps"
  using assms
proof (induction m b s rule: replace_all.induct)
  case (1 m before)
  show ?case by (rule exI[of _ "[[]]"]) (simp add: pieces_def)
next
  case (2 m before c cs)
  show ?case
  proof (cases "m before (c # cs)")
    case None
    then obtain ps where "pieces cs ps" "replace_all m (Some c) cs = join placeholder ps"
      using 2(1) \<open>cutting m\<close> by auto
    then show ?thesis using None pieces_Cons[of cs ps c] by (intro exI[of _ "(c # hd ps) # tl ps"]) simp
  next
    case (Some nr)
    obtain n r where nr: "nr = (n, r)" by fastforce
    have n: "0 < n" "n \<le> length (c # cs)" and shape: "r = take n (c # cs)
        \<or> (\<exists>x mid y. r = x @ placeholder @ y \<and> take n (c # cs) = x @ mid @ y)"
      using \<open>cutting m\<close> Some nr unfolding cutting_def by metis+
    let ?t = "drop n (c # cs)"
    have m: "max 1 n = n" using n(1) by simp
    obtain ps where ps: "pieces ?t ps"
      "replace_all m (Some (last (take n (c # cs)))) ?t = join placeholder ps"
      using 2(2)[OF Some nr[symmetric] \<open>cutting m\<close>] unfolding m by auto
    have run: "replace_all m before (c # cs) = r @ join placeholder ps" using Some nr ps(2) m by simp
    have whole: "c # cs = take n (c # cs) @ ?t" by simp
    show ?thesis
    proof (cases "r = take n (c # cs)")
      case True
      show ?thesis
        using pieces_append[OF ps(1), of r] True whole unfolding run by (intro exI[of _ "(r @ hd ps) # tl ps"]) simp
    next
      case False
      then obtain x mid y where xy: "r = x @ placeholder @ y" "take n (c # cs) = x @ mid @ y" using shape by auto
      have "c # cs = x @ mid @ y @ ?t" using whole xy(2) by (metis append_assoc)
      then show ?thesis
        using pieces_cut[OF ps(1), of x mid y] xy(1) unfolding run by (intro exI[of _ "x # (y @ hd ps) # tl ps"]) simp
    qed
  qed
qed

text \<open>Two texts overlap when one is part of the other or an end of one is a beginning of the other. A secret that does not overlap
  the placeholder cannot arise where a placeholder is put into a text.\<close>

definition overlaps :: "string \<Rightarrow> string \<Rightarrow> bool" where
  "overlaps s t = (str_includes t s \<or> str_includes s t
     \<or> list_ex (\<lambda>v. v \<noteq> [] \<and> suffix v s) (prefixes t) \<or> list_ex (\<lambda>v. v \<noteq> [] \<and> prefix v s) (suffixes t))"

definition plain_secret :: "string \<Rightarrow> bool" where
  "plain_secret s = (s \<noteq> [] \<and> \<not> overlaps s placeholder)"

lemma overlaps_iff:
  "overlaps s t \<longleftrightarrow> sublist s t \<or> sublist t s \<or> (\<exists>v. v \<noteq> [] \<and> prefix v t \<and> suffix v s) \<or> (\<exists>v. v \<noteq> [] \<and> suffix v t \<and> prefix v s)"
  unfolding overlaps_def str_includes_iff list_ex_iff by auto

text \<open>Across a text it does not overlap, a text is found on one of the two sides.\<close>

lemma sublist_across:
  assumes "sublist s (x @ t @ y)" "\<not> overlaps s t"
  shows "sublist s x \<or> sublist s y"
proof -
  have right: "sublist s y" if "sublist s (t @ y)"
  proof -
    consider "sublist s t" | "sublist s y" | u v where "s = u @ v" "suffix u t" "prefix v y" using \<open>sublist s (t @ y)\<close> by (auto simp: sublist_append)
    then show ?thesis
    proof cases
      case (3 u v)
      then have "u = []" using assms(2) unfolding overlaps_iff by auto
      then show ?thesis using 3 by auto
    qed (use assms(2) overlaps_iff in auto)
  qed
  consider "sublist s x" | "sublist s (t @ y)" | u v where "s = u @ v" "suffix u x" "prefix v (t @ y)"
    using assms(1) by (auto simp: sublist_append)
  then show ?thesis
  proof cases
    case (3 u v)
    from 3(3) consider "prefix v t" | w where "v = t @ w" by (auto simp: prefix_append)
    then show ?thesis
    proof cases
      case 1
      then have "v = []" using assms(2) 3(1) unfolding overlaps_iff by (auto simp: suffix_def)
      then show ?thesis using 3 by auto
    next
      case (2 w)
      then show ?thesis using assms(2) 3(1) unfolding overlaps_iff by auto
    qed
  qed (use right in auto)
qed

lemma plain_in_pieces:
  assumes "plain_secret s" "ps \<noteq> []" "sublist s (join placeholder ps)"
  shows "\<exists>p \<in> set ps. sublist s p"
  using assms(2,3)
proof (induction placeholder ps rule: join.induct)
  case (3 x y xs)
  have "sublist s x \<or> sublist s (join placeholder (y # xs))"
    using 3(3) sublist_across[of s x placeholder] assms(1) by (simp add: plain_secret_def)
  then show ?case using 3(1) by auto
qed auto

lemma cut_keeps_out:
  assumes "cutting m" "plain_secret s" "\<not> sublist s t"
  shows "\<not> sublist s (replace_all m b t)"
  using replace_all_pieces[OF assms(1), of t b] plain_in_pieces[OF assms(2)] assms(3)
  unfolding pieces_def by (metis sublist_order.order.trans)

lemma literal_removes_pieces:
  assumes "secret \<noteq> []"
  shows "\<exists>ps. pieces s ps \<and> replace_all (literal secret) b s = join placeholder ps \<and> (\<forall>p \<in> set ps. \<not> sublist secret p)"
proof (induction "literal secret" b s rule: replace_all.induct)
  case (1 before)
  show ?case using assms by (intro exI[of _ "[[]]"]) (simp add: pieces_def)
next
  case (2 before c cs)
  show ?case
  proof (cases "prefix secret (c # cs)")
    case False
    then have none: "literal secret before (c # cs) = None" by (simp add: literal_def)
    obtain ps where ps: "pieces cs ps" "replace_all (literal secret) (Some c) cs = join placeholder ps"
      "\<forall>p \<in> set ps. \<not> sublist secret p" using 2(1)[OF none] by auto
    have "ps \<noteq> []" "prefix (hd ps) cs" using ps(1) by (auto simp: pieces_def)
    then have "\<not> sublist secret (c # hd ps)"
      using ps(3) False prefix_order.trans[of secret "c # hd ps" "c # cs"] by (auto simp: sublist_Cons_right)
    then have "\<forall>p \<in> set ((c # hd ps) # tl ps). \<not> sublist secret p"
      using ps(3) by (metis list.sel(2) list.set_sel(2) set_ConsD)
    then show ?thesis using none ps pieces_Cons[of cs ps c] by (intro exI[of _ "(c # hd ps) # tl ps"]) simp
  next
    case True
    let ?n = "length secret"
    have m: "literal secret before (c # cs) = Some (?n, placeholder)" "max 1 ?n = ?n"
      using True assms by (cases secret; simp add: literal_def)+
    obtain ps where ps: "pieces (drop ?n (c # cs)) ps"
      "replace_all (literal secret) (Some (last (take ?n (c # cs)))) (drop ?n (c # cs)) = join placeholder ps"
      "\<forall>p \<in> set ps. \<not> sublist secret p" using 2(2)[OF m(1) refl, unfolded m(2)] by blast
    have whole: "c # cs = [] @ secret @ [] @ drop ?n (c # cs)" using True by (auto simp: prefix_def)
    have p: "hd ps # tl ps = ps" using ps(1) by (simp add: pieces_def)
    have "pieces (c # cs) ([] # ps) \<and> join placeholder ([] # ps) = placeholder @ join placeholder ps"
      using pieces_cut[OF ps(1), of "[]" secret "[]"] unfolding whole[symmetric] by (simp add: p)
    then show ?thesis using ps(2,3) assms m by (intro exI[of _ "[] # ps"]) simp
  qed
qed

lemma cutting_literal: "cutting (literal secret)"
proof -
  have "\<exists>x mid y. placeholder = x @ placeholder @ y \<and> take (length secret) s = x @ mid @ y" if "prefix secret s" for s
    using that by (intro exI[of _ "[]"] exI[of _ secret]) (auto simp: prefix_def)
  then show ?thesis by (auto simp: cutting_def literal_def prefix_length_le split: if_splits)
qed

lemma length_takeWhile_drop: "n \<le> length s \<Longrightarrow> n + length (takeWhile P (drop n s)) \<le> length s"
  using length_takeWhile_le[of P "drop n s"] by simp

lemma cutting_provider_key: "cutting provider_key"
proof -
  have "\<exists>x mid y. placeholder = x @ placeholder @ y \<and> take n s = x @ mid @ y" for n s
    by (intro exI[of _ "[]"] exI[of _ "take n s"]) simp
  moreover have "3 \<le> length s" if "prefix ''sk-'' s" for s using prefix_length_le[OF that] by simp
  ultimately show ?thesis
    unfolding cutting_def provider_key_def Let_def
    using length_takeWhile_drop[of 3 _ token_char] by (auto split: if_splits)
qed

lemma cutting_bearer: "cutting bearer_token"
proof -
  have keep: "\<exists>x mid y. take k s @ placeholder = x @ placeholder @ y \<and> take (k + l) s = x @ mid @ y" for k l s
    by (intro exI[of _ "take k s"] exI[of _ "take l (drop k s)"] exI[of _ "[]"]) (simp add: take_add)
  have len: "6 \<le> length s" if "prefix_ci ''bearer'' s" for s
    using prefix_length_le[of "''bearer''" "to_lower s"] that by (simp add: prefix_ci_def to_lower_def)
  show ?thesis
    unfolding cutting_def bearer_token_def Let_def
    using keep length_takeWhile_drop[OF length_takeWhile_drop[OF len]] by (auto split: if_splits)
qed

lemma takeWhile_split: "takeWhile P s @ drop (length (takeWhile P s)) s = s"
  by (simp add: dropWhile_eq_drop[symmetric])

lemma cutting_assigned: "cutting assigned_value"
proof -
  have "0 < n \<and> n \<le> length s \<and> (r = take n s \<or> (\<exists>x mid y. r = x @ placeholder @ y \<and> take n s = x @ mid @ y))"
    if match: "assigned_value before s = Some (n, r)" for before s n r
  proof -
    obtain k where k: "find (\<lambda>k. prefix_ci k s \<and> (drop (length k) s = [] \<or> \<not> word_char (hd (drop (length k) s)))) assignment_keys = Some k"
      using match unfolding assigned_value_def
      by (cases "find (\<lambda>k. prefix_ci k s \<and> (drop (length k) s = [] \<or> \<not> word_char (hd (drop (length k) s)))) assignment_keys")
        (simp_all only: option.case option.distinct simp_thms)
    then have "prefix_ci k s" by (auto simp: find_Some_iff)
    then have kl: "length k \<le> length s"
      using prefix_length_le[of k "to_lower s"] by (simp add: prefix_ci_def to_lower_def)
    define gap1 where "gap1 = takeWhile is_space (drop (length k) s)"
    define s2 where "s2 = drop (length gap1) (drop (length k) s)"
    define gap2 where "gap2 = takeWhile is_space (drop 1 s2)"
    define s3 where "s3 = drop (1 + length gap2) s2"
    define quote where "quote = (if s3 \<noteq> [] \<and> hd s3 \<in> {CHR 0x27, CHR 0x22} then [hd s3] else [])"
    define s4 where "s4 = drop (length quote) s3"
    define val where "val = takeWhile (\<lambda>c. c \<noteq> CHR 0x27 \<and> c \<noteq> CHR 0x22 \<and> c \<noteq> CHR '','' \<and> \<not> is_space c) s4"
    define start where "start = length k + length gap1 + 1 + length gap2 + length quote"
    note defs = gap1_def s2_def gap2_def s3_def quote_def s4_def val_def start_def
    have run: "assigned_value before s =
        (if (case before of None \<Rightarrow> True | Some b \<Rightarrow> \<not> word_char b)
            \<and> s2 \<noteq> [] \<and> hd s2 \<in> {CHR '':'', CHR ''=''} \<and> val \<noteq> [] \<and> prefix quote (drop (length val) s4)
         then Some (start + length val + length quote,
                    if shouldRedactAssignedValue val then take start s @ placeholder @ quote
                    else take (start + length val + length quote) s)
         else None)"
      by (simp only: assigned_value_def k option.case Let_def defs)
    have m: "s2 \<noteq> []" "prefix quote (drop (length val) s4)" "n = start + length val + length quote"
      "r = (if shouldRedactAssignedValue val then take start s @ placeholder @ quote else take n s)"
      using match unfolding run by (auto split: if_split_asm)
    have g1: "drop (length k) s = gap1 @ s2" unfolding s2_def gap1_def by (rule takeWhile_split[symmetric])
    have g2: "s2 = hd s2 # gap2 @ s3"
      using m(1) takeWhile_split[of is_space "tl s2"] by (simp add: gap2_def s3_def drop_Suc)
    have q: "s3 = quote @ s4" by (cases s3) (auto simp: quote_def s4_def)
    have v: "s4 = val @ drop (length val) s4" unfolding val_def by (rule takeWhile_split[symmetric])
    obtain s6 where s6: "drop (length val) s4 = quote @ s6" using m(2) by (auto simp: prefix_def)
    have "s = take (length k) s @ drop (length k) s" by simp
    also have "\<dots> = take (length k) s @ gap1 @ hd s2 # gap2 @ s3" using g1 g2 by simp
    also have "s3 = quote @ val @ quote @ s6" using q v s6 by simp
    finally have "s = (take (length k) s @ gap1 @ [hd s2] @ gap2 @ quote) @ val @ quote @ s6" by simp
    moreover define pre where "pre = take (length k) s @ gap1 @ [hd s2] @ gap2 @ quote"
    ultimately have s: "s = pre @ val @ quote @ s6" by simp
    have len: "length pre = start" using kl by (simp add: pre_def start_def)
    then have "take start s = pre" "take n s = pre @ val @ quote" "n \<le> length s" using s m(3) by simp_all
    moreover have "0 < n" using m(3) start_def by simp
    ultimately show ?thesis using m(4) by (cases "shouldRedactAssignedValue val") auto
  qed
  then show ?thesis unfolding cutting_def by blast
qed

section \<open>Registered secrets do not come out\<close>

lemma folded_keeps_out:
  assumes "plain_secret s" "\<not> sublist s v"
  shows "\<not> sublist s (foldl (\<lambda>t secret. replace_all (literal secret) None t) v secrets)"
  using assms(2)
proof (induction secrets arbitrary: v)
  case (Cons a as)
  show ?case using Cons.IH[OF cut_keeps_out[OF cutting_literal assms(1) Cons.prems]] by simp
qed simp

lemma literal_removes: "plain_secret s \<Longrightarrow> \<not> sublist s (replace_all (literal s) b v)"
  using literal_removes_pieces[of s v b] plain_in_pieces[of s]
  by (metis pieces_def plain_secret_def)

lemma folded_removes:
  assumes "plain_secret s" "s \<in> set secrets"
  shows "\<not> sublist s (foldl (\<lambda>t secret. replace_all (literal secret) None t) v secrets)"
proof -
  obtain before after where "secrets = before @ s # after" using assms(2) by (meson split_list)
  then show ?thesis using folded_keeps_out[OF assms(1)] literal_removes[OF assms(1)] by simp
qed

lemma redacted_text_clean:
  assumes "plain_secret s" "s \<in> set registry"
  shows "\<not> str_includes (redactSecretStrings registry v) s"
proof -
  have "\<not> sublist s (redactRegisteredSecrets registry v)"
    unfolding redactRegisteredSecrets_def by (rule folded_removes) (use assms in simp_all)
  then show ?thesis
    unfolding str_includes_iff redactSecretStrings_def
    by (intro cut_keeps_out[OF cutting_assigned] cut_keeps_out[OF cutting_bearer] cut_keeps_out[OF cutting_provider_key] assms(1))
qed

text \<open>The texts of a value.\<close>

fun texts :: "json \<Rightarrow> string list" where
  "texts (JStr s) = [s]"
| "texts (JArr vs) = concat (map texts vs)"
| "texts (JObj kvs) = concat (map (\<lambda>(k, v). texts v) kvs)"
| "texts v = []"

lemma placeholder_clean: "plain_secret s \<Longrightarrow> \<not> str_includes placeholder s"
  using plain_in_pieces[of s "[[], []]"] by (auto simp: str_includes_iff plain_secret_def)

lemma redacted_value_clean:
  assumes "plain_secret s" "s \<in> set registry"
  shows "list_all (\<lambda>t. \<not> str_includes t s) (texts (redactSecretsInternal registry v))"
proof (induction v)
  case (JObj kvs)
  then show ?case
    using placeholder_clean[OF assms(1)] by (fastforce simp: list_all_iff split: if_splits)
next
  case (JArr vs)
  then show ?case by (auto simp: list_all_iff)
qed (auto simp: redacted_text_clean[OF assms])

lemma registered_grows: "set registry \<subseteq> set (registerRuntimeSecrets registry ss)"
proof (induction ss arbitrary: registry)
  case (Cons a ss)
  show ?case
    using Cons.IH[of "if js_trim a = [] \<or> js_trim a \<in> set registry then registry else registry @ [js_trim a]"]
    by (auto simp: registerRuntimeSecrets_def Let_def split: if_splits)
qed (simp add: registerRuntimeSecrets_def)

lemma registered_contains: "x \<in> set ss \<Longrightarrow> js_trim x \<noteq> [] \<Longrightarrow> js_trim x \<in> set (registerRuntimeSecrets registry ss)"
proof (induction ss arbitrary: registry)
  case (Cons a ss)
  let ?r = "if js_trim a = [] \<or> js_trim a \<in> set registry then registry else registry @ [js_trim a]"
  have step: "registerRuntimeSecrets registry (a # ss) = registerRuntimeSecrets ?r ss"
    by (simp add: registerRuntimeSecrets_def Let_def)
  show ?case
  proof (cases "x = a")
    case True
    then have "js_trim x \<in> set ?r" using Cons.prems by simp
    then show ?thesis using registered_grows[of ?r ss] step by auto
  next
    case False
    then show ?thesis using Cons step by auto
  qed
qed simp

text \<open>A secret that is part of the placeholder is shown by it.\<close>

lemma replace_all_literal_self:
  assumes "s \<noteq> []"
  shows "replace_all (literal s) None s = placeholder"
proof -
  obtain c cs where s: "s = c # cs" using assms by (cases s) auto
  have "literal s None (c # cs) = Some (length s, placeholder)" by (simp add: literal_def s)
  then show ?thesis by (simp add: s)
qed

lemma no_match:
  "\<not> prefix ''sk-'' s \<Longrightarrow> provider_key b s = None"
  "\<not> prefix_ci ''bearer'' s \<Longrightarrow> bearer_token b s = None"
  "list_all (\<lambda>k. \<not> prefix_ci k s) assignment_keys \<Longrightarrow> assigned_value b s = None"
proof -
  assume n: "list_all (\<lambda>k. \<not> prefix_ci k s) assignment_keys"
  have "find (\<lambda>k. prefix_ci k s \<and> (drop (length k) s = [] \<or> \<not> word_char (hd (drop (length k) s)))) assignment_keys = None"
    using n by (auto simp: find_None_iff list_all_iff)
  then show "assigned_value b s = None" by (simp add: assigned_value_def)
qed (simp_all add: provider_key_def bearer_token_def Let_def)

lemma placeholder_stays:
  "replace_all provider_key None placeholder = placeholder" "replace_all bearer_token None placeholder = placeholder"
  "replace_all assigned_value None placeholder = placeholder"
  by (simp_all add: placeholder_def no_match prefix_ci_def to_lower_def lower_char_def assignment_keys_def)

lemma part_of_placeholder_shown:
  assumes "s \<noteq> []"
  shows "redactSecretStrings [s] s = placeholder"
  using replace_all_literal_self[OF assms] placeholder_stays by (simp add: redactSecretStrings_def redactRegisteredSecrets_def)

text \<open>C37. After a configuration has been loaded, no text value of a redacted value contains one of its secrets: the trimmed value of any
  member whose name says key, token, secret, password or dsn, at any depth, whatever else is registered, provided the secret does not
  overlap the placeholder \<open><redacted>\<close>: neither is part of the other, and no end of one is a beginning of the other. The
  names of members are not looked at. The proviso is needed: a registered secret that is part of the placeholder, such as \<open>red\<close>, is
  contained in what is shown instead of it.\<close>

theorem configured_secrets_never_shown:
  "(let registry = registerRuntimeSecrets registered (collectSecretValues config) in
     list_all (\<lambda>s. if \<not> overlaps (js_trim s) placeholder
                   then list_all (\<lambda>t. \<not> str_includes t (js_trim s)) (texts (redactSecretsInternal registry v))
                   else True) (collectSecretValues config))
   \<and> (if p \<noteq> [] \<and> str_includes placeholder p then str_includes (redactSecretStrings [p] p) p else True)"
proof -
  have nonempty: "js_trim s \<noteq> []" if "\<not> overlaps (js_trim s) placeholder" for s
    using that by (auto simp: overlaps_iff)
  have "list_all (\<lambda>t. \<not> str_includes t (js_trim s)) (texts (redactSecretsInternal (registerRuntimeSecrets registered ss) v))"
    if "s \<in> set ss" "\<not> overlaps (js_trim s) placeholder" for s ss
    using redacted_value_clean[OF _ registered_contains[OF that(1) nonempty[OF that(2)]]] nonempty[OF that(2)] that(2) by (simp add: plain_secret_def)
  then show ?thesis using part_of_placeholder_shown by (simp add: list_all_iff Let_def)
qed

end
