(* ===== verification/Runtime_Config.thy ===== *)
theory Runtime_Config
  imports Runtime_Secrets Tool_Policy
begin

text \<open>
  The configuration of a process (\<open>packages/shared/src/config/runtime-config.ts\<close>): the layers of environment and file, the
  strict schema, the limits on the workflow, the lock and database settings, and the checks of the writable paths. Values are
  JSON values with whole numbers. What Zod makes of the environment is \<open>rt_env\<close>, the value of each variable with its
  default; \<open>new URL\<close>, \<open>JSON.parse\<close> and the file system are arguments too.
\<close>

section \<open>Schemas\<close>

datatype schema =
    Text_Schema | Int_Schema "int option" "int option" | Enum_Schema "string list" | Bool_Schema
  | Array_Schema schema nat | Record_Schema schema | Object_Schema "(string \<times> schema \<times> bool) list"

text \<open>The value a schema makes of its input, or \<open>None\<close>: texts are trimmed and not empty, an object has no other members
  than those of its schema. The flag says that a member is optional.\<close>

fun parse_schema :: "schema \<Rightarrow> json \<Rightarrow> json option" where
  "parse_schema Text_Schema (JStr s) = (if blank s then None else Some (JStr (js_trim s)))"
| "parse_schema (Int_Schema lo hi) (JNum n) =
     (if (case lo of None \<Rightarrow> True | Some l \<Rightarrow> l \<le> n) \<and> (case hi of None \<Rightarrow> True | Some h \<Rightarrow> n \<le> h) then Some (JNum n) else None)"
| "parse_schema (Enum_Schema ss) (JStr s) = (if s \<in> set ss then Some (JStr s) else None)"
| "parse_schema Bool_Schema (JBool b) = Some (JBool b)"
| "parse_schema (Array_Schema sc least) (JArr vs) =
     (if least \<le> length vs then map_option JArr (those (map (parse_schema sc) vs)) else None)"
| "parse_schema (Record_Schema sc) (JObj kvs) =
     map_option JObj (those (map (\<lambda>(k, v). map_option (Pair k) (parse_schema sc v)) kvs))"
| "parse_schema (Object_Schema fs) (JObj kvs) =
     (if list_all (\<lambda>(k, v). k \<in> set (map fst fs)) kvs
      then map_option (\<lambda>ms. JObj (concat ms))
        (those (map (\<lambda>(k, sc, optional). case rec_get kvs k of
            None \<Rightarrow> if optional then Some [] else None
          | Some v \<Rightarrow> if v = JUndefined \<and> optional then Some [] else map_option (\<lambda>w. [(k, w)]) (parse_schema sc v)) fs))
      else None)"
| "parse_schema _ _ = None"

definition req :: "string \<Rightarrow> schema \<Rightarrow> string \<times> schema \<times> bool" where
  "req k sc = (k, sc, False)"

definition optl :: "string \<Rightarrow> schema \<Rightarrow> string \<times> schema \<times> bool" where
  "optl k sc = (k, sc, True)"

definition positive :: schema where
  "positive = Int_Schema (Some 1) None"

definition nonnegative :: schema where
  "nonnegative = Int_Schema (Some 0) None"

definition readinessCriterionIdSchema :: schema where
  "readinessCriterionIdSchema = Enum_Schema [''repo-lint'', ''repo-tests'', ''repo-typecheck'', ''execution-blockers'',
     ''failure-queue'', ''documentation-artifact'']"

definition approvalRequestedActionSchema :: schema where
  "approvalRequestedActionSchema = Enum_Schema [''git_push'', ''pr_draft'', ''db_migration'', ''file_delete'', ''api_breaking_change'',
     ''dependency_bump'', ''security_auth_change'', ''production_config_change'', ''bulk_file_change'']"

definition safeWriteModeSchema :: schema where
  "safeWriteModeSchema = Enum_Schema [''read-only'', ''propose-only'', ''sandbox-write'', ''workspace-write'', ''protected-write'']"

definition readinessScorecardPolicySchema :: schema where
  "readinessScorecardPolicySchema = Object_Schema [req ''id'' Text_Schema,
     req ''passThresholdPercent'' (Int_Schema (Some 0) (Some 100)), req ''enabledCriteria'' (Array_Schema readinessCriterionIdSchema 1)]"

definition llm_schema :: schema where
  "llm_schema = Object_Schema
     [req ''provider'' (Enum_Schema [''openai'', ''anthropic'', ''mock'']), req ''model'' Text_Schema,
      optl ''roleModels'' (Record_Schema Text_Schema), optl ''fallbackModel'' Text_Schema, optl ''tokenBudgetPerRun'' positive,
      optl ''tokenBudgetPerTask'' positive, optl ''maxRunCostUsdMicro'' nonnegative,
      optl ''modelCostPer1kTokensUsdMicro'' (Record_Schema nonnegative), optl ''apiKey'' Text_Schema,
      req ''temperature'' (Int_Schema (Some 0) (Some 2)), req ''timeoutMs'' positive]"

definition state_schema :: schema where
  "state_schema = Object_Schema
     [req ''backend'' (Enum_Schema [''memory'', ''postgresql'']), req ''postgresDsn'' Text_Schema, req ''postgresSchema'' Text_Schema,
      optl ''postgresMigrationMode'' (Enum_Schema [''verify'', ''auto'']), req ''snapshotOnBootstrap'' Bool_Schema,
      req ''snapshotOnTaskCompletion'' Bool_Schema, req ''snapshotOnMilestoneCompletion'' Bool_Schema]"

definition workflow_schema :: schema where
  "workflow_schema = Object_Schema
     [req ''maxStepsPerRun'' positive, optl ''maxRoleStepsPerTask'' positive, optl ''maxRoleWallTimeMs'' positive,
      req ''maxRetriesPerTask'' nonnegative, optl ''workerCount'' positive,
      optl ''runLockProvider'' (Enum_Schema [''noop'', ''postgresql'', ''redis'', ''etcd'']), optl ''runLockDsn'' Text_Schema,
      optl ''fencingTtlMs'' positive, optl ''workspaceManagerMode'' (Enum_Schema [''git-worktree'', ''static'']),
      optl ''workspaceBranchTtlHours'' positive, optl ''qualityGateMode'' (Enum_Schema [''tooling'', ''synthetic'']),
      optl ''roleProviderMode'' (Enum_Schema [''production'', ''synthetic'']),
      optl ''approvalGateMode'' (Enum_Schema [''disabled'', ''enabled'']),
      optl ''approvalRequiredActions'' (Array_Schema approvalRequestedActionSchema 1), optl ''approvalBulkFileThreshold'' positive,
      optl ''readinessScorecardPolicy'' readinessScorecardPolicySchema]"

definition tools_schema :: schema where
  "tools_schema = Object_Schema
     [req ''allowedWritePaths'' (Array_Schema Text_Schema 1), req ''allowedShellCommands'' (Array_Schema Text_Schema 1),
      optl ''writeMode'' safeWriteModeSchema, optl ''protectedWritePaths'' (Array_Schema Text_Schema 0),
      optl ''maxModifiedFiles'' positive, optl ''packageManager'' (Enum_Schema [''npm'', ''pnpm'']),
      req ''typescriptDiagnosticsEnabled'' Bool_Schema, req ''persistToolEvidence'' Bool_Schema]"

definition runtimeConfigSchema :: schema where
  "runtimeConfigSchema = Object_Schema
     [req ''llm'' llm_schema, req ''state'' state_schema, req ''workflow'' workflow_schema, req ''tools'' tools_schema,
      req ''logging'' (Object_Schema [req ''level'' (Enum_Schema [''debug'', ''info'', ''warn'', ''error'']), req ''format'' (Enum_Schema [''json''])]),
      optl ''observability'' (Object_Schema [optl ''retentionDays'' positive])]"

section \<open>Layers\<close>

text \<open>The host: \<open>rt_url\<close> gives protocol and path name of a URL or the message of the error; \<open>rt_file\<close> the text of a file;
  \<open>rt_env_issues\<close> and \<open>rt_issues\<close> are Zod's issues, those of an environment it refuses and of a configuration.\<close>

record runtime_host =
  rt_env_issues :: "string list option"
  rt_issues :: "json \<Rightarrow> string list"
  rt_env :: "string \<Rightarrow> json option"
  rt_json :: "string \<Rightarrow> json option"
  rt_url :: "string \<Rightarrow> string + (string \<times> string)"
  rt_exists :: "string \<Rightarrow> bool"
  rt_file :: "string \<Rightarrow> string option"
  rt_isdir :: "string \<Rightarrow> string + bool"
  rt_writable :: "string \<Rightarrow> string + unit"

definition config_error :: "string \<Rightarrow> string list \<Rightarrow> js_error" where
  "config_error m details = Js_Error ConfigError m details"

definition spread_members :: "json jsrec \<Rightarrow> json jsrec \<Rightarrow> json jsrec" where
  "spread_members base later = foldl (\<lambda>r (k, v). rec_set k v r) base later"

text \<open>A section of the file, \<open>fileConfig.<section>\<close>; one that is not an object has no members.\<close>

definition section_of :: "json jsrec \<Rightarrow> string \<Rightarrow> json jsrec" where
  "section_of file name = (case rec_get file name of Some (JObj kvs) \<Rightarrow> kvs | _ \<Rightarrow> [])"

definition env_members :: "runtime_host \<Rightarrow> (string \<times> string) list \<Rightarrow> json jsrec" where
  "env_members h names = concat (map (\<lambda>(member, var). case rt_env h var of None \<Rightarrow> [] | Some v \<Rightarrow> [(member, v)]) names)"

definition parseJsonUnknown :: "runtime_host \<Rightarrow> string \<Rightarrow> string \<Rightarrow> json result" where
  "parseJsonUnknown h input envName = (case rt_json h input of
     None \<Rightarrow> Inl (config_error (''Unable to parse '' @ envName @ '' as JSON'') []) | Some v \<Rightarrow> Inr v)"

fun text_members :: "json jsrec \<Rightarrow> json jsrec option" where
  "text_members [] = Some []"
| "text_members ((k, JStr s) # kvs) = (if blank s then None else map_option ((#) (k, JStr (js_trim s))) (text_members kvs))"
| "text_members _ = None"

definition parseJsonRecord :: "runtime_host \<Rightarrow> string \<Rightarrow> string \<Rightarrow> json result" where
  "parseJsonRecord h input envName = (case parseJsonUnknown h input envName of
     Inl e \<Rightarrow> Inl e
   | Inr (JObj kvs) \<Rightarrow> (case text_members kvs of
       None \<Rightarrow> Inl (config_error (envName @ '' must map keys to non-empty string values'') []) | Some ms \<Rightarrow> Inr (JObj ms))
   | Inr v \<Rightarrow> Inl (config_error (envName @ '' must be a JSON object'') []))"

definition is_natural :: "json \<Rightarrow> bool" where
  "is_natural v = (case v of JNum n \<Rightarrow> 0 \<le> n | _ \<Rightarrow> False)"

definition parseJsonNumberRecord :: "runtime_host \<Rightarrow> string \<Rightarrow> string \<Rightarrow> json result" where
  "parseJsonNumberRecord h input envName = (case parseJsonUnknown h input envName of
     Inl e \<Rightarrow> Inl e
   | Inr (JObj kvs) \<Rightarrow> (if list_all (\<lambda>(k, v). is_natural v) kvs then Inr (JObj kvs)
       else Inl (config_error (envName @ '' must map keys to non-negative integer values'') []))
   | Inr v \<Rightarrow> Inl (config_error (envName @ '' must be a JSON object'') []))"

definition parseReadinessScorecardPolicy :: "runtime_host \<Rightarrow> string \<Rightarrow> string \<Rightarrow> json result" where
  "parseReadinessScorecardPolicy h input envName = (case parseJsonUnknown h input envName of
     Inl e \<Rightarrow> Inl e
   | Inr v \<Rightarrow> (case parse_schema readinessScorecardPolicySchema v of
       None \<Rightarrow> Inl (config_error (envName @ '' must be a valid readiness policy JSON object'') []) | Some w \<Rightarrow> Inr w))"

text \<open>A member computed from a variable that holds JSON text, when the variable is set and not empty.\<close>

definition parsed_member :: "runtime_host \<Rightarrow> (runtime_host \<Rightarrow> string \<Rightarrow> string \<Rightarrow> json result) \<Rightarrow> string \<Rightarrow> string \<Rightarrow> json jsrec result" where
  "parsed_member h parse member var = (case rt_env h var of
     Some (JStr s) \<Rightarrow> (if s = [] then Inr [] else case parse h s var of Inl e \<Rightarrow> Inl e | Inr v \<Rightarrow> Inr [(member, v)])
   | _ \<Rightarrow> Inr [])"

text \<open>A list setting is a list of texts or a text with commas; \<open>split\<close> and \<open>trim\<close> of anything else throw.\<close>

definition type_error :: "string \<Rightarrow> js_error" where
  "type_error m = Js_Error TypeError m []"

fun all_texts :: "json list \<Rightarrow> string list result" where
  "all_texts [] = Inr []"
| "all_texts (JStr s # vs) = (case all_texts vs of Inl e \<Rightarrow> Inl e | Inr ss \<Rightarrow> Inr (s # ss))"
| "all_texts (v # vs) = Inl (type_error ''item.trim is not a function'')"

definition normalizeCommaSeparatedValues :: "json option \<Rightarrow> string list result" where
  "normalizeCommaSeparatedValues input =
     (case (case input of
         Some (JStr s) \<Rightarrow> Inr (split_on CHR '','' s)
       | Some (JArr vs) \<Rightarrow> all_texts vs
       | _ \<Rightarrow> Inl (type_error ''input.split is not a function'')) of
       Inl e \<Rightarrow> Inl e
     | Inr values \<Rightarrow> Inr (filter (\<lambda>s. s \<noteq> []) (map js_trim values)))"

definition normalizeWritePaths :: "string \<Rightarrow> json option \<Rightarrow> string list result" where
  "normalizeWritePaths cwd input = (case normalizeCommaSeparatedValues input of
     Inl e \<Rightarrow> Inl e | Inr values \<Rightarrow> Inr (map (path_resolve cwd) values))"

text \<open>\<open>a ?? b\<close>.\<close>

definition or_env :: "json jsrec \<Rightarrow> string \<Rightarrow> runtime_host \<Rightarrow> string \<Rightarrow> json option" where
  "or_env file member h var = (case rec_get file member of
     None \<Rightarrow> rt_env h var | Some JNull \<Rightarrow> rt_env h var | Some JUndefined \<Rightarrow> rt_env h var | Some v \<Rightarrow> Some v)"

definition merged_llm :: "runtime_host \<Rightarrow> json jsrec \<Rightarrow> json jsrec result" where
  "merged_llm h file = (case parsed_member h parseJsonRecord ''roleModels'' ''LLM_ROLE_MODELS'' of
     Inl e \<Rightarrow> Inl e
   | Inr models \<Rightarrow> (case parsed_member h parseJsonNumberRecord ''modelCostPer1kTokensUsdMicro'' ''LLM_MODEL_COST_PER_1K_TOKENS_USD_MICRO'' of
       Inl e \<Rightarrow> Inl e
     | Inr costs \<Rightarrow> Inr (spread_members
         (env_members h [(''provider'', ''LLM_PROVIDER''), (''model'', ''LLM_MODEL'')] @ models
          @ env_members h [(''fallbackModel'', ''LLM_FALLBACK_MODEL''), (''tokenBudgetPerRun'', ''LLM_TOKEN_BUDGET_PER_RUN''),
              (''tokenBudgetPerTask'', ''LLM_TOKEN_BUDGET_PER_TASK''), (''maxRunCostUsdMicro'', ''LLM_MAX_RUN_COST_USD_MICRO'')] @ costs
          @ env_members h [(''temperature'', ''LLM_TEMPERATURE''), (''timeoutMs'', ''LLM_TIMEOUT_MS''), (''apiKey'', ''LLM_API_KEY'')])
         (section_of file ''llm''))))"

definition state_names :: "(string \<times> string) list" where
  "state_names = [(''backend'', ''STATE_BACKEND''), (''postgresDsn'', ''POSTGRES_DSN''), (''postgresSchema'', ''POSTGRES_SCHEMA''),
     (''postgresMigrationMode'', ''STATE_POSTGRES_MIGRATION_MODE''), (''snapshotOnBootstrap'', ''SNAPSHOT_ON_BOOTSTRAP''),
     (''snapshotOnTaskCompletion'', ''SNAPSHOT_ON_TASK_COMPLETION''), (''snapshotOnMilestoneCompletion'', ''SNAPSHOT_ON_MILESTONE_COMPLETION'')]"

definition merged_state :: "runtime_host \<Rightarrow> json jsrec \<Rightarrow> json jsrec" where
  "merged_state h file = spread_members (section_of file ''state'') (env_members h state_names)"

definition rbind :: "'a result \<Rightarrow> ('a \<Rightarrow> 'b result) \<Rightarrow> 'b result" where
  "rbind r f = (case r of Inl e \<Rightarrow> Inl e | Inr x \<Rightarrow> f x)"

definition member_of :: "string \<Rightarrow> json option \<Rightarrow> json jsrec" where
  "member_of k v = (case v of None \<Rightarrow> [] | Some w \<Rightarrow> [(k, w)])"

definition workflow_names :: "(string \<times> string) list" where
  "workflow_names = [(''maxStepsPerRun'', ''MAX_STEPS_PER_RUN''), (''maxRoleStepsPerTask'', ''MAX_ROLE_STEPS_PER_TASK''),
     (''maxRoleWallTimeMs'', ''MAX_ROLE_WALL_TIME_MS''), (''maxRetriesPerTask'', ''MAX_RETRIES_PER_TASK''),
     (''workerCount'', ''WORKFLOW_WORKER_COUNT''), (''runLockProvider'', ''WORKFLOW_RUN_LOCK_PROVIDER''),
     (''runLockDsn'', ''WORKFLOW_RUN_LOCK_DSN''), (''fencingTtlMs'', ''WORKFLOW_FENCING_TTL_MS''),
     (''workspaceManagerMode'', ''WORKFLOW_WORKSPACE_MANAGER_MODE''), (''workspaceBranchTtlHours'', ''WORKFLOW_WORKSPACE_BRANCH_TTL_HOURS''),
     (''qualityGateMode'', ''WORKFLOW_QUALITY_GATE_MODE''), (''roleProviderMode'', ''WORKFLOW_ROLE_PROVIDER_MODE''),
     (''approvalGateMode'', ''WORKFLOW_APPROVAL_GATE_MODE'')]"

definition merged_workflow :: "runtime_host \<Rightarrow> json jsrec \<Rightarrow> json jsrec result" where
  "merged_workflow h file = (let own = section_of file ''workflow'' in
     rbind (normalizeCommaSeparatedValues (or_env own ''approvalRequiredActions'' h ''WORKFLOW_APPROVAL_REQUIRED_ACTIONS'')) (\<lambda>actions.
     rbind (parsed_member h parseReadinessScorecardPolicy ''readinessScorecardPolicy'' ''WORKFLOW_READINESS_SCORECARD_POLICY'') (\<lambda>policy.
     Inr (spread_members
       (env_members h workflow_names @ [(''approvalRequiredActions'', JArr (map JStr actions))]
        @ member_of ''approvalBulkFileThreshold'' (or_env own ''approvalBulkFileThreshold'' h ''WORKFLOW_APPROVAL_BULK_FILE_THRESHOLD'')
        @ policy)
       own))))"

definition merged_tools :: "runtime_host \<Rightarrow> string \<Rightarrow> json jsrec \<Rightarrow> json jsrec result" where
  "merged_tools h cwd file = (let own = section_of file ''tools''; setting = (\<lambda>member var. member_of member (or_env own member h var)) in
     rbind (normalizeWritePaths cwd (or_env own ''allowedWritePaths'' h ''TOOL_ALLOWED_WRITE_PATHS'')) (\<lambda>allowed.
     rbind (normalizeCommaSeparatedValues (or_env own ''allowedShellCommands'' h ''TOOL_ALLOWED_SHELL_COMMANDS'')) (\<lambda>commands.
     rbind (normalizeWritePaths cwd (or_env own ''protectedWritePaths'' h ''TOOL_PROTECTED_WRITE_PATHS'')) (\<lambda>protected.
     Inr ([(''allowedWritePaths'', JArr (map JStr allowed)), (''allowedShellCommands'', JArr (map JStr commands))]
       @ setting ''writeMode'' ''TOOL_WRITE_MODE'' @ [(''protectedWritePaths'', JArr (map JStr protected))]
       @ setting ''maxModifiedFiles'' ''TOOL_MAX_MODIFIED_FILES'' @ setting ''packageManager'' ''TOOL_PACKAGE_MANAGER''
       @ setting ''typescriptDiagnosticsEnabled'' ''TOOL_TYPESCRIPT_DIAGNOSTICS''
       @ setting ''persistToolEvidence'' ''TOOL_PERSIST_EVIDENCE'')))))"

definition merged_config :: "runtime_host \<Rightarrow> string \<Rightarrow> json jsrec \<Rightarrow> json result" where
  "merged_config h cwd file =
     rbind (merged_llm h file) (\<lambda>llm.
     rbind (merged_workflow h file) (\<lambda>workflow.
     rbind (merged_tools h cwd file) (\<lambda>tools.
     Inr (JObj [(''llm'', JObj llm), (''state'', JObj (merged_state h file)), (''workflow'', JObj workflow), (''tools'', JObj tools),
       (''logging'', JObj (spread_members (env_members h [(''level'', ''LOG_LEVEL''), (''format'', ''LOG_FORMAT'')]) (section_of file ''logging''))),
       (''observability'', JObj (spread_members (env_members h [(''retentionDays'', ''OBSERVABILITY_RETENTION_DAYS'')])
          (section_of file ''observability'')))]))))"

text \<open>A file that holds \<open>null\<close> is read and fails at its first section.\<close>

definition loadConfigFile :: "runtime_host \<Rightarrow> string \<Rightarrow> string option \<Rightarrow> json jsrec result" where
  "loadConfigFile h cwd configFile = (case configFile of
     None \<Rightarrow> Inr []
   | Some f \<Rightarrow> if f = [] then Inr [] else
       (let resolved = path_resolve cwd f in
        if \<not> rt_exists h resolved then Inl (config_error (''Runtime config file does not exist: '' @ resolved) [])
        else case Option.bind (rt_file h resolved) (rt_json h) of
          None \<Rightarrow> Inl (config_error (''Unable to parse runtime config file: '' @ resolved) [])
        | Some (JObj kvs) \<Rightarrow> Inr kvs
        | Some JNull \<Rightarrow> Inl (type_error ''Cannot read properties of null'')
        | Some v \<Rightarrow> Inr []))"

section \<open>Limits\<close>

definition setting :: "json \<Rightarrow> string \<Rightarrow> string \<Rightarrow> json option" where
  "setting c sec member = (case c of
     JObj kvs \<Rightarrow> rec_get (section_of kvs sec) member | _ \<Rightarrow> None)"

definition num_setting :: "json \<Rightarrow> string \<Rightarrow> string \<Rightarrow> int option" where
  "num_setting c sec member = (case setting c sec member of Some (JNum n) \<Rightarrow> Some n | _ \<Rightarrow> None)"

definition text_setting :: "json \<Rightarrow> string \<Rightarrow> string \<Rightarrow> string option" where
  "text_setting c sec member = (case setting c sec member of Some (JStr s) \<Rightarrow> Some s | _ \<Rightarrow> None)"

definition texts_setting :: "json \<Rightarrow> string \<Rightarrow> string \<Rightarrow> string list" where
  "texts_setting c sec member = (case setting c sec member of
     Some (JArr vs) \<Rightarrow> concat (map (\<lambda>v. case v of JStr s \<Rightarrow> [s] | _ \<Rightarrow> []) vs) | _ \<Rightarrow> [])"

definition lock_schemes :: "string \<Rightarrow> string list" where
  "lock_schemes provider =
     (if provider = ''postgresql'' then [''postgres:'', ''postgresql:'']
      else if provider = ''redis'' then [''redis:'', ''rediss:'']
      else [''etcd:'', ''etcds:''])"

definition path_error_text :: "string \<Rightarrow> string" where
  "path_error_text m = (if blank m then ''unknown filesystem access error'' else m)"

definition validateRunLockDsn :: "runtime_host \<Rightarrow> string \<Rightarrow> string option \<Rightarrow> string option" where
  "validateRunLockDsn h provider dsn =
     (if provider = ''noop''
      then (if truthy dsn then Some ''workflow.runLockDsn must be omitted when workflow.runLockProvider=noop'' else None)
      else case when_truthy dsn of
        None \<Rightarrow> Some (''workflow.runLockDsn is required when workflow.runLockProvider='' @ provider)
      | Some d \<Rightarrow> (case rt_url h d of
          Inl m \<Rightarrow> Some (''workflow.runLockDsn must be a valid URL ('' @ path_error_text m @ '')'')
        | Inr (protocol, pathname) \<Rightarrow>
            (if protocol \<notin> set (lock_schemes provider)
             then Some (''workflow.runLockDsn must use '' @ join '' or '' (lock_schemes provider) @ '' for provider '' @ provider
                    @ '' (received '' @ protocol @ '')'')
             else None)))"

definition policy_issues :: "runtime_host \<Rightarrow> json \<Rightarrow> string list" where
  "policy_issues h c =
     (let steps = the (num_setting c ''workflow'' ''maxStepsPerRun''); retries = the (num_setting c ''workflow'' ''maxRetriesPerTask'');
          roleSteps = num_setting c ''workflow'' ''maxRoleStepsPerTask''; workers = or_default (num_setting c ''workflow'' ''workerCount'') 1;
          provider = or_default (text_setting c ''workflow'' ''runLockProvider'') ''noop''; dsn = text_setting c ''workflow'' ''runLockDsn'';
          hours = or_default (num_setting c ''workflow'' ''workspaceBranchTtlHours'') 24; num = int_to_string in
      (if steps > 200 then [''workflow.maxStepsPerRun must be <= 200 (received '' @ num steps @ '')''] else [])
      @ (if retries > 10 then [''workflow.maxRetriesPerTask must be <= 10 (received '' @ num retries @ '')''] else [])
      @ (if retries > steps then [''workflow.maxRetriesPerTask must be <= workflow.maxStepsPerRun (received retries='' @ num retries
            @ '', steps='' @ num steps @ '')''] else [])
      @ (case roleSteps of None \<Rightarrow> [] | Some r \<Rightarrow>
           (if r > 200 then [''workflow.maxRoleStepsPerTask must be <= 200 (received '' @ num r @ '')''] else [])
           @ (if r > steps then [''workflow.maxRoleStepsPerTask must be <= workflow.maxStepsPerRun (received roleSteps='' @ num r
                @ '', steps='' @ num steps @ '')''] else []))
      @ (if workers > 1 \<and> \<not> truthy dsn
         then [''workflow.runLockDsn is required when workflow.workerCount > 1; all workers must use the same shared DSN''] else [])
      @ (if provider = ''noop'' \<and> workers > 1 then [''workflow.runLockProvider=noop is only allowed for single-worker mode''] else [])
      @ (if hours > 720 then [''workflow.workspaceBranchTtlHours must be <= 720 (received '' @ num hours @ '')''] else [])
      @ (case validateRunLockDsn h provider dsn of None \<Rightarrow> [] | Some i \<Rightarrow> [i]))"

definition validateRuntimePolicy :: "runtime_host \<Rightarrow> json \<Rightarrow> unit result" where
  "validateRuntimePolicy h c = (let issues = policy_issues h c in
     if issues \<noteq> [] then Inl (config_error ''Invalid runtime workflow policy'' issues) else Inr ())"

text \<open>One leading slash is dropped from the path name.\<close>

definition validatePostgresPolicy :: "runtime_host \<Rightarrow> json \<Rightarrow> unit result" where
  "validatePostgresPolicy h c =
     (if text_setting c ''state'' ''backend'' \<noteq> Some ''postgresql'' then Inr ()
      else case rt_url h (the (text_setting c ''state'' ''postgresDsn'')) of
        Inl m \<Rightarrow> Inl (config_error ''Invalid PostgreSQL configuration'' [''state.postgresDsn must be a valid URL ('' @ path_error_text m @ '')''])
      | Inr (protocol, pathname) \<Rightarrow>
          (if protocol \<notin> {''postgres:'', ''postgresql:''}
           then Inl (config_error ''Invalid PostgreSQL configuration''
             [''state.postgresDsn must use postgres:// or postgresql:// scheme (received '' @ protocol @ '')''])
           else if blank (if prefix ''/'' pathname then tl pathname else pathname)
           then Inl (config_error ''Invalid PostgreSQL configuration'' [''state.postgresDsn must include a database name in URL path''])
           else Inr ()))"

section \<open>Writable paths\<close>

lemma segments_absolute:
  assumes "\<forall>s \<in> set ss. s \<noteq> [] \<and> CHR ''/'' \<notin> set s"
  shows "segments (absolute_path ss) = ss"
proof (cases "ss = []")
  case True
  then show ?thesis by (simp add: segments_def absolute_path_def)
next
  case False
  then have "split_on CHR ''/'' (join ''/'' ss) = ss" using assms by (intro split_on_join) auto
  then show ?thesis using assms by (simp add: segments_def absolute_path_def filter_id_conv)
qed

lemma split_on_parts: "w \<in> set (split_on c s) \<Longrightarrow> c \<notin> set w"
  by (induction s arbitrary: w) (auto split: if_splits list.splits)

lemma segments_parts: "\<forall>s \<in> set (segments p). s \<noteq> [] \<and> CHR ''/'' \<notin> set s"
  using split_on_parts by (auto simp: segments_def)

lemma segments_dirname: "segments (path_dirname p) = butlast (segments p)"
  unfolding path_dirname_def using segments_parts[of p] by (intro segments_absolute) (auto dest: in_set_butlastD)

text \<open>The loop of \<open>findNearestExistingAncestor\<close> ends at the root: every step shortens the path.\<close>

definition path_rank :: "string \<Rightarrow> nat" where
  "path_rank p = 2 * length (segments p) + (if absolute_path (segments p) = p then 0 else 1)"

lemma path_rank_dirname: "path_dirname p \<noteq> p \<Longrightarrow> path_rank (path_dirname p) < path_rank p"
proof -
  assume moved: "path_dirname p \<noteq> p"
  have "absolute_path (segments (path_dirname p)) = path_dirname p"
    unfolding segments_dirname by (simp add: path_dirname_def)
  then have "path_rank (path_dirname p) = 2 * length (segments (path_dirname p))"
    unfolding path_rank_def by simp
  then have "path_rank (path_dirname p) = 2 * (length (segments p) - 1)"
    by (simp add: segments_dirname)
  moreover have "absolute_path (segments p) \<noteq> p" if "segments p = []"
    using moved that by (simp add: path_dirname_def)
  ultimately show ?thesis by (cases "segments p") (simp_all add: path_rank_def[of p])
qed

function findNearestExistingAncestor :: "(string \<Rightarrow> bool) \<Rightarrow> string \<Rightarrow> string option" where
  "findNearestExistingAncestor there p =
     (if there p then Some p
      else if path_dirname p = p then None else findNearestExistingAncestor there (path_dirname p))"
  by pat_completeness auto
termination
  by (relation "measure (\<lambda>(there, p). path_rank p)") (auto simp: path_rank_dirname)

declare findNearestExistingAncestor.simps [simp del]

definition validateWritableDirectory :: "runtime_host \<Rightarrow> string \<Rightarrow> string \<Rightarrow> string list" where
  "validateWritableDirectory h p scope =
     (if rt_exists h p
      then (case rt_isdir h p of
          Inl m \<Rightarrow> [scope @ '' directory must be writable: '' @ p @ '' ('' @ path_error_text m @ '')'']
        | Inr False \<Rightarrow> [scope @ '' path must be a directory: '' @ p]
        | Inr True \<Rightarrow> (case rt_writable h p of
            Inl m \<Rightarrow> [scope @ '' directory must be writable: '' @ p @ '' ('' @ path_error_text m @ '')''] | Inr _ \<Rightarrow> []))
      else (case findNearestExistingAncestor (rt_exists h) (path_resolve ''/'' p) of
          None \<Rightarrow> [scope @ '' path has no existing writable ancestor: '' @ p]
        | Some a \<Rightarrow> (case rt_writable h a of
            Inl m \<Rightarrow> [scope @ '' path must be writable via ancestor '' @ a @ '': '' @ p @ '' ('' @ path_error_text m @ '')'']
          | Inr _ \<Rightarrow> [])))"

definition validateWritablePath :: "runtime_host \<Rightarrow> string \<Rightarrow> string \<Rightarrow> string list" where
  "validateWritablePath h p scope =
     (if rt_exists h p
      then (case rt_writable h p of
          Inl m \<Rightarrow> [scope @ '' path must be writable: '' @ p @ '' ('' @ path_error_text m @ '')''] | Inr _ \<Rightarrow> [])
      else validateWritableDirectory h (path_dirname p) scope)"

definition validateRuntimeFilesystemGuards :: "runtime_host \<Rightarrow> json \<Rightarrow> unit result" where
  "validateRuntimeFilesystemGuards h c =
     (let issues = concat (map (\<lambda>p. validateWritableDirectory h p ''tools.allowedWritePaths'') (texts_setting c ''tools'' ''allowedWritePaths''))
                 @ concat (map (\<lambda>p. validateWritablePath h p ''tools.protectedWritePaths'') (texts_setting c ''tools'' ''protectedWritePaths'')) in
      if issues \<noteq> [] then Inl (config_error ''Invalid runtime writable path policy'' issues) else Inr ())"

section \<open>Loading\<close>

text \<open>Returns the configuration and the registry of secrets afterwards.\<close>

definition loadRuntimeConfig :: "runtime_host \<Rightarrow> string \<Rightarrow> string list \<Rightarrow> (json \<times> string list) result" where
  "loadRuntimeConfig h cwd registry =
     (case rt_env_issues h of
        Some issues \<Rightarrow> Inl (config_error ''Invalid runtime environment'' issues)
      | None \<Rightarrow>
          rbind (loadConfigFile h cwd (case rt_env h ''RUNTIME_CONFIG_FILE'' of Some (JStr f) \<Rightarrow> Some f | _ \<Rightarrow> None)) (\<lambda>file.
          rbind (merged_config h cwd file) (\<lambda>merged.
          case parse_schema runtimeConfigSchema merged of
            None \<Rightarrow> Inl (config_error ''Invalid runtime configuration'' (rt_issues h merged))
          | Some c \<Rightarrow>
              rbind (validateRuntimePolicy h c) (\<lambda>_.
              rbind (validatePostgresPolicy h c) (\<lambda>_.
              rbind (validateRuntimeFilesystemGuards h c) (\<lambda>_.
              Inr (c, registerRuntimeSecrets registry (collectSecretValues c))))))))"

lemma rbind_Inr: "rbind r f = Inr y \<longleftrightarrow> (\<exists>x. r = Inr x \<and> f x = Inr y)"
  by (auto simp: rbind_def split: sum.splits)

definition can_write_below :: "runtime_host \<Rightarrow> string \<Rightarrow> bool" where
  "can_write_below h p =
     (if rt_exists h p then rt_isdir h p = Inr True \<and> rt_writable h p = Inr ()
      else case findNearestExistingAncestor (rt_exists h) (path_resolve ''/'' p) of
             None \<Rightarrow> False | Some a \<Rightarrow> rt_exists h a \<and> rt_writable h a = Inr ())"

lemma nearest_exists: "findNearestExistingAncestor there p = Some a \<Longrightarrow> there a"
  by (induction there p rule: findNearestExistingAncestor.induct)
    (subst (asm) (2) findNearestExistingAncestor.simps, auto split: if_splits)

lemma writable_directory_iff: "validateWritableDirectory h p scope = [] \<longleftrightarrow> can_write_below h p"
  using nearest_exists[of "rt_exists h" "path_resolve ''/'' p"]
  by (auto simp: validateWritableDirectory_def can_write_below_def split: sum.splits bool.splits option.splits)

text \<open>A lock backend that several workers can share.\<close>

definition shared_lock :: "runtime_host \<Rightarrow> string \<Rightarrow> string option \<Rightarrow> bool" where
  "shared_lock h provider dsn = (provider \<noteq> ''noop'' \<and> (case when_truthy dsn of None \<Rightarrow> False | Some d \<Rightarrow>
     (case rt_url h d of Inl m \<Rightarrow> False | Inr (protocol, pathname) \<Rightarrow> protocol \<in> set (lock_schemes provider))))"

lemma run_lock_ok:
  "validateRunLockDsn h provider dsn = None \<longleftrightarrow> (provider = ''noop'' \<and> \<not> truthy dsn) \<or> shared_lock h provider dsn"
  by (auto simp: validateRunLockDsn_def shared_lock_def split: option.splits sum.splits prod.splits)

lemma policy_issues_none:
  assumes "policy_issues h c = []"
  shows "the (num_setting c ''workflow'' ''maxStepsPerRun'') \<le> 200"
    "the (num_setting c ''workflow'' ''maxRetriesPerTask'') \<le> min 10 (the (num_setting c ''workflow'' ''maxStepsPerRun''))"
    "case num_setting c ''workflow'' ''maxRoleStepsPerTask'' of None \<Rightarrow> True
     | Some r \<Rightarrow> r \<le> min 200 (the (num_setting c ''workflow'' ''maxStepsPerRun''))"
    "or_default (num_setting c ''workflow'' ''workspaceBranchTtlHours'') 24 \<le> 720"
    "or_default (num_setting c ''workflow'' ''workerCount'') 1 \<le> 1
     \<or> shared_lock h (or_default (text_setting c ''workflow'' ''runLockProvider'') ''noop'') (text_setting c ''workflow'' ''runLockDsn'')"
  using assms run_lock_ok[of h "or_default (text_setting c ''workflow'' ''runLockProvider'') ''noop''" "text_setting c ''workflow'' ''runLockDsn''"]
  unfolding policy_issues_def Let_def
  by (simp_all split: if_split_asm option.split_asm option.split) (auto simp: not_less)

lemma errors_of_loading:
  "validateRuntimePolicy h c = Inl e \<Longrightarrow> error_class e = ConfigError"
  "validatePostgresPolicy h c = Inl e \<Longrightarrow> error_class e = ConfigError"
  "validateRuntimeFilesystemGuards h c = Inl e \<Longrightarrow> error_class e = ConfigError"
  "loadConfigFile h cwd f = Inl e \<Longrightarrow> error_class e \<in> {ConfigError, TypeError}"
  by (auto simp: validateRuntimePolicy_def validatePostgresPolicy_def validateRuntimeFilesystemGuards_def loadConfigFile_def
      config_error_def type_error_def Let_def split: if_splits sum.splits prod.splits option.splits json.splits)

lemma all_texts_error: "all_texts vs = Inl e \<Longrightarrow> error_class e = TypeError"
  by (induction vs rule: all_texts.induct) (auto simp: type_error_def split: sum.splits)

lemma list_errors:
  "normalizeCommaSeparatedValues v = Inl e \<Longrightarrow> error_class e = TypeError"
  "normalizeWritePaths cwd v = Inl e \<Longrightarrow> error_class e = TypeError"
  by (auto simp: normalizeCommaSeparatedValues_def normalizeWritePaths_def type_error_def
      split: sum.splits option.splits json.splits dest: all_texts_error)

lemma parsed_errors:
  "parsed_member h parseJsonRecord m v = Inl e \<Longrightarrow> error_class e = ConfigError"
  "parsed_member h parseJsonNumberRecord m v = Inl e \<Longrightarrow> error_class e = ConfigError"
  "parsed_member h parseReadinessScorecardPolicy m v = Inl e \<Longrightarrow> error_class e = ConfigError"
  by (auto simp: parsed_member_def parseJsonRecord_def parseJsonNumberRecord_def parseReadinessScorecardPolicy_def
      parseJsonUnknown_def config_error_def split: option.splits json.splits if_splits sum.splits)

lemma merged_errors: "merged_config h cwd file = Inl e \<Longrightarrow> error_class e \<in> {ConfigError, TypeError}"
  by (auto simp: merged_config_def merged_llm_def merged_workflow_def merged_tools_def rbind_def Let_def
      split: sum.splits dest: parsed_errors list_errors)

lemma guards_pass:
  "validateRuntimeFilesystemGuards h c = Inr u \<Longrightarrow>
     list_all (can_write_below h) (texts_setting c ''tools'' ''allowedWritePaths'')"
  by (auto simp: validateRuntimeFilesystemGuards_def Let_def list_all_iff writable_directory_iff split: if_splits)

text \<open>C38. What a process may start with: loading either fails with a configuration error (or a type error on a list setting that is no
  list), or returns a value the strict schema made, with every limit on steps, retries, role steps and branch lifetime kept, more
  than one worker only with a shared lock backend and its URL, a database URL of the right scheme, every allowed write path a
  writable directory or below one, and every secret of the configuration registered.\<close>

theorem loaded_config_is_safe:
  "case loadRuntimeConfig h cwd registry of
     Inl e \<Rightarrow> error_class e \<in> {ConfigError, TypeError}
   | Inr (c, registry') \<Rightarrow>
       (let steps = the (num_setting c ''workflow'' ''maxStepsPerRun'') in
        (\<exists>merged. parse_schema runtimeConfigSchema merged = Some c)
        \<and> steps \<le> 200 \<and> the (num_setting c ''workflow'' ''maxRetriesPerTask'') \<le> min 10 steps
        \<and> (case num_setting c ''workflow'' ''maxRoleStepsPerTask'' of None \<Rightarrow> True | Some r \<Rightarrow> r \<le> min 200 steps)
        \<and> or_default (num_setting c ''workflow'' ''workspaceBranchTtlHours'') 24 \<le> 720
        \<and> (or_default (num_setting c ''workflow'' ''workerCount'') 1 \<le> 1
           \<or> shared_lock h (or_default (text_setting c ''workflow'' ''runLockProvider'') ''noop'') (text_setting c ''workflow'' ''runLockDsn''))
        \<and> validatePostgresPolicy h c = Inr ()
        \<and> list_all (can_write_below h) (texts_setting c ''tools'' ''allowedWritePaths'')
        \<and> registry' = registerRuntimeSecrets registry (collectSecretValues c))"
proof (cases "loadRuntimeConfig h cwd registry")
  case (Inl e)
  then have "error_class e \<in> {ConfigError, TypeError}"
    by (auto simp: loadRuntimeConfig_def rbind_def split: option.splits sum.splits
        dest: errors_of_loading merged_errors) (simp_all add: config_error_def)
  then show ?thesis using Inl by simp
next
  case (Inr r)
  then obtain c where r: "r = (c, registerRuntimeSecrets registry (collectSecretValues c))"
    and policy: "validateRuntimePolicy h c = Inr ()" and rest: "validatePostgresPolicy h c = Inr ()"
      "validateRuntimeFilesystemGuards h c = Inr ()" "\<exists>merged. parse_schema runtimeConfigSchema merged = Some c"
    by (auto simp: loadRuntimeConfig_def rbind_Inr split: option.splits)
  have "policy_issues h c = []" using policy by (simp add: validateRuntimePolicy_def Let_def split: if_splits)
  then show ?thesis
    using policy_issues_none rest guards_pass[OF rest(2)] Inr r unfolding Let_def by simp
qed

section \<open>Which layer wins\<close>

lemma spread_get:
  "distinct (map fst later) \<Longrightarrow>
     rec_get (spread_members base later) k = (case rec_get later k of Some v \<Rightarrow> Some v | None \<Rightarrow> rec_get base k)"
  unfolding spread_members_def
proof (induction later arbitrary: base)
  case (Cons kv later)
  then show ?case by (cases kv) (auto split: option.splits simp: map_of_eq_None_iff[symmetric])
qed simp

lemma env_members_Cons:
  "env_members h ((m, v) # names) = (case rt_env h v of None \<Rightarrow> [] | Some x \<Rightarrow> [(m, x)]) @ env_members h names"
  by (simp add: env_members_def)

lemma env_members_keys: "set (map fst (env_members h names)) \<subseteq> set (map fst names)"
proof (induction names)
  case (Cons n names)
  then show ?case by (cases n) (auto simp: env_members_Cons split: option.splits)
qed (simp add: env_members_def)

lemma env_members_distinct: "distinct (map fst names) \<Longrightarrow> distinct (map fst (env_members h names))"
proof (induction names)
  case (Cons n names)
  then show ?case using env_members_keys[of h names] by (cases n) (auto simp: env_members_Cons split: option.splits)
qed (simp add: env_members_def)

lemma env_members_get:
  "distinct (map fst names) \<Longrightarrow> (m, v) \<in> set names \<Longrightarrow> rec_get (env_members h names) m = rt_env h v"
proof (induction names)
  case (Cons n names)
  obtain m' v' where n: "n = (m', v')" by fastforce
  show ?case
  proof (cases "m = m'")
    case True
    then have "v = v'" "m \<notin> fst ` set names" using Cons.prems n by (force simp: image_iff)+
    moreover from this have "rec_get (env_members h names) m = None"
      using env_members_keys[of h names] by (auto simp: map_of_eq_None_iff)
    ultimately show ?thesis using True n by (auto simp: env_members_Cons split: option.splits)
  next
    case False
    then show ?thesis using Cons n by (auto simp: env_members_Cons split: option.splits)
  qed
qed simp

lemma state_names_distinct: "distinct (map fst state_names)"
  by (simp add: state_names_def)

text \<open>Which layer wins: in the state section every variable of the environment overrides the file, in the workflow section the
  file overrides the environment, also where the environment's list of actions has been cleaned and the file's has not.\<close>

theorem config_layers_exact:
  "case merged_config h cwd file of
     Inl e \<Rightarrow> error_class e \<in> {ConfigError, TypeError}
   | Inr c \<Rightarrow>
       list_all (\<lambda>(m, v). setting c ''state'' m =
          (case rt_env h v of Some x \<Rightarrow> Some x | None \<Rightarrow> rec_get (section_of file ''state'') m)) state_names
       \<and> (if distinct (rec_keys (section_of file ''workflow''))
          then list_all (\<lambda>(k, x). setting c ''workflow'' k = Some x) (section_of file ''workflow'') else True)"
proof (cases "merged_config h cwd file")
  case (Inl e)
  then show ?thesis using merged_errors by simp
next
  case (Inr c)
  have state: "setting c ''state'' m = rec_get (merged_state h file) m" for m
    using Inr by (auto simp: merged_config_def rbind_Inr setting_def section_of_def)
  obtain base where workflow: "setting c ''workflow'' k = rec_get (spread_members base (section_of file ''workflow'')) k" for k
    using Inr by (auto simp: merged_config_def merged_workflow_def rbind_Inr setting_def section_of_def Let_def)
  have "setting c ''state'' m = (case rt_env h v of Some x \<Rightarrow> Some x | None \<Rightarrow> rec_get (section_of file ''state'') m)"
    if "(m, v) \<in> set state_names" for m v
    unfolding state merged_state_def
    using spread_get[OF env_members_distinct[OF state_names_distinct]] env_members_get[OF state_names_distinct that]
    by (simp split: option.splits)
  moreover have "setting c ''workflow'' k = Some x"
    if "distinct (rec_keys (section_of file ''workflow''))" "(k, x) \<in> set (section_of file ''workflow'')" for k x
    unfolding workflow using spread_get[OF that(1)] that by simp
  ultimately show ?thesis using Inr by (auto simp: list_all_iff)
qed

end
