(* ===== verification/Dashboard.thy ===== *)
theory Dashboard
  imports Observability Service_Levels Project_Services Runtime_Secrets
begin

text \<open>
  What the dashboard shows of the stored state: the views (\<open>packages/application/src/read-models.ts\<close>) and the queries that
  build them (\<open>packages/application/src/dashboard-query-service.ts\<close>). \<open>lc\<close> is \<open>localeCompare\<close>, \<open>ty\<close> the text of an
  event type, \<open>registry\<close> the registered secrets; \<open>JSON.parse\<close>, \<open>JSON.stringify\<close> with indentation and \<open>Number\<close> are arguments.
\<close>

section \<open>Views\<close>

record counts_view =
  cv_milestones :: nat
  cv_tasks :: nat
  cv_failures :: nat
  cv_findings :: nat
  cv_completed :: nat
  cv_blocked :: nat
  cv_pending :: nat

record state_view =
  vw_org :: string
  vw_project :: string
  vw_name :: string
  vw_summary :: string
  vw_milestone :: "string option"
  vw_health :: repo_health
  vw_counts :: counts_view
  vw_activeTask :: "string option"

definition toStateSummaryView :: "project_state \<Rightarrow> state_view" where
  "toStateSummaryView s =
     \<lparr> vw_org = ps_org s, vw_project = ps_project s, vw_name = ps_name s, vw_summary = ps_summary s,
       vw_milestone = when_truthy (ps_milestone s), vw_health = ps_health s,
       vw_counts = \<lparr> cv_milestones = length (rec_keys (ps_milestones s)), cv_tasks = length (rec_keys (tasks_of s)),
          cv_failures = length (ps_failures s), cv_findings = length (pa_findings (ps_architecture s)),
          cv_completed = length (ex_completed (ps_execution s)), cv_blocked = length (ex_blocked (ps_execution s)),
          cv_pending = length (filter (\<lambda>q. ar_status q = Approval_Pending) (ps_approvals s)) \<rparr>,
       vw_activeTask = None \<rparr>"

definition toDashboardStateView :: "project_state \<Rightarrow> state_view" where
  "toDashboardStateView s = (toStateSummaryView s)\<lparr>vw_activeTask := when_truthy (ex_activeTask (ps_execution s))\<rparr>"

record criterion =
  cn_id :: string
  cn_description :: string
  cn_pass :: bool
  cn_evidence :: string

record scorecard =
  sk_generatedAt :: stamp
  sk_ready :: bool
  sk_passed :: nat
  sk_total :: nat
  sk_percentage :: int
  sk_criteria :: "criterion list"

definition scorecard_criteria :: "project_state \<Rightarrow> criterion list" where
  "scorecard_criteria s =
     (let h = ps_health s; docs = filter (\<lambda>a. art_type a = Documentation_Artifact) (ps_artifacts s);
          health = (\<lambda>i d f v. \<lparr> cn_id = i, cn_description = d, cn_pass = (v = Health_Passing),
                       cn_evidence = ''repoHealth.'' @ f @ ''='' @ health_text v \<rparr>) in
      [health ''repo-lint'' ''Repository lint status is passing'' ''lint'' (rh_lint h),
       health ''repo-tests'' ''Repository tests status is passing'' ''tests'' (rh_tests h),
       health ''repo-typecheck'' ''Repository typecheck status is passing'' ''typecheck'' (rh_typecheck h),
       \<lparr> cn_id = ''execution-blockers'', cn_description = ''No blocked tasks remain'',
         cn_pass = (length (ex_blocked (ps_execution s)) = 0),
         cn_evidence = ''blockedTaskIds='' @ nat_to_string (length (ex_blocked (ps_execution s))) \<rparr>,
       \<lparr> cn_id = ''failure-queue'', cn_description = ''No unresolved failures remain'',
         cn_pass = (length (ps_failures s) = 0), cn_evidence = ''failures='' @ nat_to_string (length (ps_failures s)) \<rparr>,
       \<lparr> cn_id = ''documentation-artifact'', cn_description = ''Documentation artifact is present'',
         cn_pass = (docs \<noteq> []), cn_evidence = ''documentationArtifacts='' @ nat_to_string (length docs) \<rparr>])"

text \<open>\<open>Math.round((a / b) * 100)\<close> on whole numbers.\<close>

definition percentage :: "nat \<Rightarrow> nat \<Rightarrow> int" where
  "percentage a b = (200 * int a + int b) div (2 * int b)"

definition toReadinessScorecardView :: "stamp \<Rightarrow> project_state \<Rightarrow> scorecard" where
  "toReadinessScorecardView now s =
     (let cs = scorecard_criteria s; passed = length (filter cn_pass cs); total = length cs in
      \<lparr> sk_generatedAt = now, sk_ready = (passed = total), sk_passed = passed, sk_total = total,
        sk_percentage = percentage passed total, sk_criteria = cs \<rparr>)"

fun priority_text :: "priority \<Rightarrow> string" where
  "priority_text P0 = ''p0''"
| "priority_text P1 = ''p1''"
| "priority_text P2 = ''p2''"
| "priority_text P3 = ''p3''"

definition export_task_lines :: "backlog \<Rightarrow> string \<Rightarrow> string list" where
  "export_task_lines b tid = (case rec_get (backlog_tasks b) tid of
     None \<Rightarrow> []
   | Some t \<Rightarrow> [''- ['' @ (if task_status t = Done then ''x'' else '' '') @ ''] '' @ task_title t @ '' ('' @ priority_text (task_priority t) @ '')''])"

definition export_feature_lines :: "backlog \<Rightarrow> string \<Rightarrow> string list" where
  "export_feature_lines b fid = (case rec_get (backlog_features b) fid of
     None \<Rightarrow> []
   | Some f \<Rightarrow> [''### '' @ feature_title f, feature_outcome f, []] @ concat (map (export_task_lines b) (feature_tasks f)) @ [[]])"

definition toBacklogExportView :: "(backlog \<Rightarrow> string) \<Rightarrow> project_state \<Rightarrow> string \<times> string" where
  "toBacklogExportView render s =
     (let b = ps_backlog s;
          lines = [''# Backlog export'', []] @ concat (map (\<lambda>e. [''## '' @ epic_title e, epic_goal e, []]
                    @ concat (map (export_feature_lines b) (epic_features e))) (rec_values (backlog_epics b))) in
      (js_trim (join [CHR 0x0A] lines) @ [CHR 0x0A], render b))"

record task_view =
  tv_id :: string
  tv_feature :: string
  tv_title :: string
  tv_status :: task_status
  tv_priority :: priority
  tv_criteria :: "string list"
  tv_depends :: "string list"
  tv_split_from :: "string option"

record feature_view =
  fv_id :: string
  fv_epic :: string
  fv_title :: string
  fv_outcome :: string
  fv_tasks :: "string list"

record epic_view =
  pv_id :: string
  pv_title :: string
  pv_goal :: string
  pv_features :: "string list"

record backlog_view =
  bv_epics :: "epic_view list"
  bv_features :: "feature_view list"
  bv_tasks :: "task_view list"

definition toBacklogView :: "backlog \<Rightarrow> backlog_view" where
  "toBacklogView b =
     \<lparr> bv_epics = map (\<lambda>e. \<lparr> pv_id = epic_id e, pv_title = epic_title e, pv_goal = epic_goal e, pv_features = epic_features e \<rparr>)
         (rec_values (backlog_epics b)),
       bv_features = map (\<lambda>f. \<lparr> fv_id = feature_id f, fv_epic = feature_epic f, fv_title = feature_title f,
           fv_outcome = feature_outcome f, fv_tasks = feature_tasks f \<rparr>) (rec_values (backlog_features b)),
       bv_tasks = map (\<lambda>t. \<lparr> tv_id = task_id t, tv_feature = task_feature t, tv_title = task_title t, tv_status = task_status t,
           tv_priority = task_priority t, tv_criteria = task_criteria t, tv_depends = task_depends t,
           tv_split_from = when_truthy (task_split_from t) \<rparr>) (rec_values (backlog_tasks b)) \<rparr>"

record milestone_view =
  mv_id :: string
  mv_title :: string
  mv_goal :: string
  mv_status :: milestone_status
  mv_current :: bool
  mv_epicCount :: nat
  mv_exitCount :: nat

definition toMilestoneListView :: "string cmp \<Rightarrow> project_state \<Rightarrow> milestone_view list" where
  "toMilestoneListView lc s =
     map (\<lambda>m. \<lparr> mv_id = ms_id m, mv_title = ms_title m, mv_goal = ms_goal m, mv_status = ms_status m,
                mv_current = (ps_milestone s = Some (ms_id m)), mv_epicCount = length (ms_epics m),
                mv_exitCount = length (ms_exit m) \<rparr>)
       (sort_by (on_cmp ms_title lc) (rec_values (ps_milestones s)))"

record event_view =
  vt_id :: string
  vt_type :: event_type
  vt_created :: stamp
  vt_run :: "string option"
  vt_task :: "string option"
  vt_milestone :: "string option"
  vt_role :: "string option"
  vt_summary :: string

fun scalar_text :: "json \<Rightarrow> string option" where
  "scalar_text (JStr s) = Some s"
| "scalar_text (JNum n) = Some (int_to_string n)"
| "scalar_text (JBool b) = Some (if b then ''true'' else ''false'')"
| "scalar_text _ = None"

fun members_of :: "json \<Rightarrow> json jsrec" where
  "members_of (JObj kvs) = kvs"
| "members_of _ = []"

definition text_member :: "json \<Rightarrow> string \<Rightarrow> string option" where
  "text_member v k = (case rec_get (members_of v) k of Some (JStr s) \<Rightarrow> Some s | _ \<Rightarrow> None)"

definition summarizePayload :: "json \<Rightarrow> string" where
  "summarizePayload payload =
     (let parts = map (\<lambda>(k, v). k @ ''='' @ the (scalar_text v))
            (take 4 (filter (\<lambda>(k, v). scalar_text v \<noteq> None) (members_of payload))) in
      if length parts > 0 then join '' | '' parts else ''No summary available'')"

definition toEventView :: "string list \<Rightarrow> event \<Rightarrow> event_view" where
  "toEventView registry e =
     (let payload = redactSecretsInternal registry (payload_json (ev_payload e)) in
      \<lparr> vt_id = ev_id e, vt_type = ev_type e, vt_created = ev_created e, vt_run = when_truthy (ev_run e),
        vt_task = text_member payload ''taskId'', vt_milestone = text_member payload ''milestoneId'',
        vt_role = text_member payload ''role'', vt_summary = summarizePayload payload \<rparr>)"

record failure_view =
  uv_id :: string
  uv_task :: string
  uv_role :: agent_role
  uv_reason :: string
  uv_retry :: bool
  uv_symptoms :: "string list"
  uv_bad :: "string list"
  uv_created :: stamp

definition toFailureView :: "failure \<Rightarrow> failure_view" where
  "toFailureView f = \<lparr> uv_id = fl_id f, uv_task = fl_task f, uv_role = fl_role f, uv_reason = fl_reason f, uv_retry = fl_retry f,
     uv_symptoms = fl_symptoms f, uv_bad = fl_bad f, uv_created = fl_created f \<rparr>"

record artifact_view =
  av_id :: string
  av_type :: artifact_type
  av_title :: string
  av_location :: "string option"
  av_task :: "string option"
  av_run :: "string option"
  av_milestone :: "string option"
  av_format :: "string option"
  av_created :: stamp

definition meta :: "artifact \<Rightarrow> string \<Rightarrow> string option" where
  "meta a k = when_truthy (rec_get (art_metadata a) k)"

definition toArtifactView :: "artifact \<Rightarrow> artifact_view" where
  "toArtifactView a = \<lparr> av_id = art_id a, av_type = art_type a, av_title = art_title a, av_location = when_truthy (art_location a),
     av_task = meta a ''taskId'', av_run = meta a ''runId'', av_milestone = meta a ''milestoneId'', av_format = meta a ''format'',
     av_created = art_created a \<rparr>"

record run_view =
  rv_id :: string
  rv_title :: string
  rv_created :: stamp
  rv_task :: "string option"
  rv_summary :: "string option"

definition toLatestRunSummaryView :: "project_state \<Rightarrow> run_view option" where
  "toLatestRunSummaryView s =
     (case newest_first art_created (filter (\<lambda>a. art_type a = Run_Summary) (ps_artifacts s)) of
        [] \<Rightarrow> None
      | a # as \<Rightarrow> Some \<lparr> rv_id = art_id a, rv_title = art_title a, rv_created = art_created a,
                        rv_task = meta a ''taskId'', rv_summary = meta a ''summary'' \<rparr>)"

text \<open>An approval as it is shown: its metadata, its policy decision and its evidence stay inside.\<close>

definition toApprovalView :: "approval \<Rightarrow> approval" where
  "toApprovalView q = q\<lparr> ar_metadata := [], ar_policyDecision := None, ar_evidence := None,
     ar_approvedBy := when_truthy (ar_approvedBy q), ar_rejectedBy := when_truthy (ar_rejectedBy q),
     ar_rejectionReason := when_truthy (ar_rejectionReason q), ar_resumedBy := when_truthy (ar_resumedBy q) \<rparr>"

definition toApprovalRequestView :: "approval list \<Rightarrow> approval list" where
  "toApprovalRequestView qs = map toApprovalView (newest_first ar_created qs)"

section \<open>Queries\<close>

record tenant_scope =
  sc_org :: "string option"
  sc_project :: "string option"

definition assertTenantScope :: "project_state \<Rightarrow> tenant_scope \<Rightarrow> unit result" where
  "assertTenantScope s q =
     (if truthy (sc_org q) \<and> sc_org q \<noteq> Some (ps_org s)
      then Inl (Js_Error PlainError (''Tenant org mismatch: requested '' @ the (sc_org q)) [])
      else if truthy (sc_project q) \<and> sc_project q \<noteq> Some (ps_project s)
      then Inl (Js_Error PlainError (''Tenant project mismatch: requested '' @ the (sc_project q)) [])
      else Inr ())"

definition scoped :: "tenant_scope \<Rightarrow> (project_state \<Rightarrow> 'a) \<Rightarrow> (store, 'a) act" where
  "scoped q view = bindA load (\<lambda>s. thenA (liftA (assertTenantScope s q)) (ret (view s)))"

definition getStateSummary :: "tenant_scope \<Rightarrow> (store, state_view) act" where
  "getStateSummary q = scoped q toDashboardStateView"

definition getMilestones :: "string cmp \<Rightarrow> tenant_scope \<Rightarrow> (store, milestone_view list) act" where
  "getMilestones lc q = scoped q (toMilestoneListView lc)"

definition getBacklog :: "tenant_scope \<Rightarrow> (store, backlog_view) act" where
  "getBacklog q = scoped q (\<lambda>s. toBacklogView (ps_backlog s))"

definition getBacklogExport :: "(backlog \<Rightarrow> string) \<Rightarrow> tenant_scope \<Rightarrow> (store, string \<times> string) act" where
  "getBacklogExport render q = scoped q (toBacklogExportView render)"

definition getLatestRunSummary :: "tenant_scope \<Rightarrow> (store, run_view option) act" where
  "getLatestRunSummary q = scoped q toLatestRunSummaryView"

text \<open>The readiness policy of the service is not consulted.\<close>

record readiness_policy =
  rp_id :: string
  rp_passThreshold :: int
  rp_enabled :: "string list"

definition getReadinessScorecard :: "readiness_policy \<Rightarrow> stamp \<Rightarrow> tenant_scope \<Rightarrow> (store, scorecard) act" where
  "getReadinessScorecard readinessPolicy now q = scoped q (toReadinessScorecardView now)"

text \<open>The histories take a scope, too, and do not look at it. A page of events is cut by the store.\<close>

definition getEvents :: "string list \<Rightarrow> tenant_scope \<Rightarrow> nat option \<Rightarrow> nat option \<Rightarrow> event_type option \<Rightarrow> (store, event_view page) act" where
  "getEvents registry q limit offset eventType =
     (let (l, o') = normalizeHistoryQuery limit offset in
      bindA (listEvents (Some l) (Some o') eventType) (\<lambda>events.
      ret \<lparr> pg_total = length events, pg_limit = l, pg_offset = o', pg_items = map (toEventView registry) events \<rparr>))"

definition map_page :: "('a \<Rightarrow> 'b) \<Rightarrow> 'a page \<Rightarrow> 'b page" where
  "map_page f p = \<lparr> pg_total = pg_total p, pg_limit = pg_limit p, pg_offset = pg_offset p, pg_items = map f (pg_items p) \<rparr>"

definition getFailures :: "tenant_scope \<Rightarrow> nat option \<Rightarrow> nat option \<Rightarrow> string option \<Rightarrow> (store, failure_view page) act" where
  "getFailures q limit offset task = bindA load (\<lambda>s.
     ret (map_page toFailureView (page_of limit offset (newest_first fl_created
       (filter (\<lambda>f. if truthy task then Some (fl_task f) = task else True) (ps_failures s))))))"

definition getDecisions :: "tenant_scope \<Rightarrow> nat option \<Rightarrow> nat option \<Rightarrow> (store, decision_item page) act" where
  "getDecisions q limit offset = bindA load (\<lambda>s. ret (page_of limit offset (newest_first di_created (ps_decisions s))))"

definition getArtifacts :: "tenant_scope \<Rightarrow> nat option \<Rightarrow> nat option \<Rightarrow> string option \<Rightarrow> (store, artifact_view page) act" where
  "getArtifacts q limit offset type = bindA load (\<lambda>s.
     ret (map_page toArtifactView (page_of limit offset (newest_first art_created
       (filter (\<lambda>a. if truthy type then Some (artifact_type_text (art_type a)) = type else True) (ps_artifacts s))))))"

definition getApprovals :: "approval_status option \<Rightarrow> (store, approval list) act" where
  "getApprovals status = bindA load (\<lambda>s.
     ret (toApprovalRequestView (case status of None \<Rightarrow> ps_approvals s | Some st \<Rightarrow> filter (\<lambda>q. ar_status q = st) (ps_approvals s))))"

section \<open>The readiness review on file\<close>

record review_issue =
  ri_check :: string
  ri_title :: string
  ri_details :: string

record review_payload =
  rw_ready :: bool
  rw_blockers :: "review_issue list"
  rw_warnings :: "review_issue list"
  rw_blockerCount :: int
  rw_warningCount :: int
  rw_totalChecks :: "int option"
  rw_passedChecks :: "int option"
  rw_failedChecks :: "int option"
  rw_run :: "string option"
  rw_date :: "string option"

definition num_member :: "json \<Rightarrow> string \<Rightarrow> int option" where
  "num_member v k = (case rec_get (members_of v) k of Some (JNum n) \<Rightarrow> Some n | _ \<Rightarrow> None)"

definition parse_issue :: "json \<Rightarrow> review_issue option" where
  "parse_issue v = (case (text_member v ''checkId'', text_member v ''title'', text_member v ''details'') of
     (Some c, Some t, Some d) \<Rightarrow> Some \<lparr> ri_check = c, ri_title = t, ri_details = d \<rparr> | _ \<Rightarrow> None)"

definition parseIssueList :: "json option \<Rightarrow> review_issue list option" where
  "parseIssueList v = (case v of Some (JArr vs) \<Rightarrow> those (map parse_issue vs) | _ \<Rightarrow> None)"

definition parse_review :: "json \<Rightarrow> review_payload option" where
  "parse_review v =
     (let verdict = text_member v ''verdict''; evidence = or_default (rec_get (members_of v) ''evidence'') JNull in
      if verdict \<noteq> Some ''ready'' \<and> verdict \<noteq> Some ''not_ready'' then None
      else case (num_member evidence ''blockerCount'', num_member evidence ''warningCount'',
                 parseIssueList (rec_get (members_of v) ''blockers''), parseIssueList (rec_get (members_of v) ''warnings'')) of
        (Some b, Some w, Some bs, Some ws) \<Rightarrow> Some \<lparr> rw_ready = (verdict = Some ''ready''), rw_blockers = bs, rw_warnings = ws,
           rw_blockerCount = b, rw_warningCount = w, rw_totalChecks = num_member evidence ''totalChecks'',
           rw_passedChecks = num_member evidence ''passedChecks'', rw_failedChecks = num_member evidence ''failedChecks'',
           rw_run = when_truthy (text_member v ''runId''), rw_date = when_truthy (text_member v ''reviewDateIso'') \<rparr>
      | _ \<Rightarrow> None)"

definition parseProductionReadinessReviewPayload :: "(string \<Rightarrow> json option) \<Rightarrow> string \<Rightarrow> review_payload option" where
  "parseProductionReadinessReviewPayload parse payload = Option.bind (parse payload) parse_review"

text \<open>The answer: the artifact, the review and the run it belongs to.\<close>

definition review_of :: "(string \<Rightarrow> json option) \<Rightarrow> string option \<Rightarrow> artifact \<Rightarrow> (artifact \<times> review_payload \<times> string option) option" where
  "review_of parse run a = (case meta a ''productionReadinessReview'' of None \<Rightarrow> None
     | Some payload \<Rightarrow> (case parseProductionReadinessReviewPayload parse payload of None \<Rightarrow> None
       | Some r \<Rightarrow> (let runId = (case rw_run r of Some x \<Rightarrow> Some x | None \<Rightarrow> rec_get (art_metadata a) ''runId'') in
           if truthy run \<and> runId \<noteq> run then None else Some (a, r, when_truthy runId))))"

fun first_some :: "('a \<Rightarrow> 'b option) \<Rightarrow> 'a list \<Rightarrow> 'b option" where
  "first_some f [] = None"
| "first_some f (x # xs) = (case f x of Some y \<Rightarrow> Some y | None \<Rightarrow> first_some f xs)"

definition getLatestProductionReadinessReview ::
  "(string \<Rightarrow> json option) \<Rightarrow> tenant_scope \<Rightarrow> string option \<Rightarrow> (store, (artifact \<times> review_payload \<times> string option) option) act" where
  "getLatestProductionReadinessReview parse q run = scoped q (\<lambda>s.
     first_some (review_of parse run) (newest_first art_created (filter (\<lambda>a. art_type a = Release_Assessment) (ps_artifacts s))))"

section \<open>The review bundle\<close>

record timeline_item =
  ti_id :: string
  ti_type :: event_type
  ti_created :: stamp
  ti_summary :: string
  ti_task :: "string option"
  ti_role :: "string option"

datatype test_status = Test_Passed_Status | Test_Failed_Status | Test_Unknown_Status

record test_item =
  tm_artifact :: string
  tm_title :: string
  tm_created :: stamp
  tm_status :: test_status

text \<open>A number read from a text may be \<open>NaN\<close>, which is \<open>None\<close> inside.\<close>

record diff_view =
  df_summary :: string
  df_filesChanged :: "int option option"
  df_additions :: "int option option"
  df_deletions :: "int option option"

record review_bundle =
  rb_run :: string
  rb_timeline :: "timeline_item list"
  rb_diff :: diff_view
  rb_tests :: "test_item list"
  rb_summary :: string
  rb_artifacts :: "artifact_view list"

definition toTimelineItem :: "(event_type \<Rightarrow> string) \<Rightarrow> event \<Rightarrow> timeline_item" where
  "toTimelineItem ty e = (let payload = payload_json (ev_payload e) in
     \<lparr> ti_id = ev_id e, ti_type = ev_type e, ti_created = ev_created e,
       ti_summary = or_default (text_member payload ''summary'') (ty (ev_type e)),
       ti_task = text_member payload ''taskId'', ti_role = text_member payload ''role'' \<rparr>)"

definition toDiffView :: "(string \<Rightarrow> int option) \<Rightarrow> artifact option \<Rightarrow> diff_view" where
  "toDiffView number d = (let get = (\<lambda>k. case d of None \<Rightarrow> None | Some a \<Rightarrow> rec_get (art_metadata a) k) in
     \<lparr> df_summary = (case get ''summary'' of Some x \<Rightarrow> x | None \<Rightarrow> (case d of Some a \<Rightarrow> art_title a | None \<Rightarrow> ''No diff artifact captured'')),
       df_filesChanged = map_option number (get ''filesChanged''), df_additions = map_option number (get ''additions''),
       df_deletions = map_option number (get ''deletions'') \<rparr>)"

definition toTestItem :: "artifact \<Rightarrow> test_item" where
  "toTestItem a = \<lparr> tm_artifact = art_id a, tm_title = art_title a, tm_created = art_created a,
     tm_status = (if art_type a = Test_Plan then Test_Unknown_Status
                  else if str_includes (to_lower (art_title a)) ''fail'' then Test_Failed_Status else Test_Passed_Status) \<rparr>"

definition getReviewBundle ::
  "(event_type \<Rightarrow> string) \<Rightarrow> (string \<Rightarrow> int option) \<Rightarrow> string option \<Rightarrow> (store, review_bundle option) act" where
  "getReviewBundle ty number runId =
     bindA load (\<lambda>s. bindA (listEvents None None None) (\<lambda>events.
     if events = [] then ret None
     else
       (let runEvents = (if truthy runId then filter (\<lambda>e. ev_run e = runId) events else events);
            resolved = (case runId of Some r \<Rightarrow> Some r | None \<Rightarrow> (case runEvents of [] \<Rightarrow> None | e # es \<Rightarrow> ev_run e)) in
        case when_truthy resolved of None \<Rightarrow> ret None
        | Some run \<Rightarrow>
           (let arts = newest_first art_created (filter (\<lambda>a. rec_get (art_metadata a) ''runId'' = Some run) (ps_artifacts s)) in
            ret (Some \<lparr> rb_run = run, rb_timeline = map (toTimelineItem ty) (oldest_first ev_created runEvents),
              rb_diff = toDiffView number (find (\<lambda>a. art_type a \<in> {Report_Artifact, Integration_Export}) arts),
              rb_tests = map toTestItem (filter (\<lambda>a. art_type a \<in> {Test_Plan, Report_Artifact}) arts),
              rb_summary = ''Review bundle for run '' @ run,
              rb_artifacts = map toArtifactView arts \<rparr>)))))"

section \<open>What the queries answer\<close>

definition foreign :: "project_state \<Rightarrow> tenant_scope \<Rightarrow> bool" where
  "foreign s q = ((truthy (sc_org q) \<and> sc_org q \<noteq> Some (ps_org s)) \<or> (truthy (sc_project q) \<and> sc_project q \<noteq> Some (ps_project s)))"

definition tenant_mismatch :: "project_state \<Rightarrow> tenant_scope \<Rightarrow> js_error" where
  "tenant_mismatch s q = Js_Error PlainError (if truthy (sc_org q) \<and> sc_org q \<noteq> Some (ps_org s)
     then ''Tenant org mismatch: requested '' @ the (sc_org q) else ''Tenant project mismatch: requested '' @ the (sc_project q)) []"

lemma scoped_run:
  "scoped q view st = (if foreign (st_state st) q then Inl (tenant_mismatch (st_state st) q) else Inr (view (st_state st)), st)"
  by (auto simp: scoped_def load_def act_defs assertTenantScope_def foreign_def tenant_mismatch_def)

text \<open>The histories answer any scope alike.\<close>

lemma histories_ignore_scope:
  "getEvents registry q limit offset ety = getEvents registry q' limit offset ety"
  "getFailures q limit offset task = getFailures q' limit offset task"
  "getDecisions q limit offset = getDecisions q' limit offset"
  "getArtifacts q limit offset type = getArtifacts q' limit offset type"
  by (simp_all add: getEvents_def getFailures_def getDecisions_def getArtifacts_def)

lemma slices_cover: "concat (map (\<lambda>i. State_Store.slice (i * l) (i * l + l) xs) [0..<n]) = take (n * l) xs"
proof (induction n)
  case (Suc n)
  have "take (Suc n * l) xs = take (n * l) xs @ take l (drop (n * l) xs)"
    by (metis add.commute mult_Suc take_add)
  then show ?case using Suc by (simp add: State_Store.slice_def)
qed simp

definition items_of :: "'a page result \<Rightarrow> 'a list" where
  "items_of r = (case r of Inl e \<Rightarrow> [] | Inr p \<Rightarrow> pg_items p)"

definition total_of :: "'a page result \<Rightarrow> nat" where
  "total_of r = (case r of Inl e \<Rightarrow> 0 | Inr p \<Rightarrow> pg_total p)"

definition pages :: "(nat option \<Rightarrow> nat option \<Rightarrow> (store, 'a page) act) \<Rightarrow> nat \<Rightarrow> nat \<Rightarrow> store \<Rightarrow> 'a list" where
  "pages query l n st = concat (map (\<lambda>i. items_of (fst (query (Some l) (Some (i * l)) st))) [0..<n])"

definition matching_failures :: "string option \<Rightarrow> store \<Rightarrow> failure list" where
  "matching_failures task st =
     filter (\<lambda>f. if truthy task then Some (fl_task f) = task else True) (ps_failures (st_state st))"

definition matching_artifacts :: "string option \<Rightarrow> store \<Rightarrow> artifact list" where
  "matching_artifacts type st =
     filter (\<lambda>a. if truthy type then Some (artifact_type_text (art_type a)) = type else True) (ps_artifacts (st_state st))"

definition matching_events :: "event_type option \<Rightarrow> store \<Rightarrow> event list" where
  "matching_events ety st = (case ety of None \<Rightarrow> st_events st | Some t \<Rightarrow> filter (\<lambda>e. ev_type e = t) (st_events st))"

lemma pages_of_list:
  assumes "\<And>limit offset. query limit offset st = (Inr (map_page f (page_of limit offset xs)), st)"
  shows "pages query l n st = map f (take (n * l) xs)" "total_of (fst (query limit offset st)) = length xs"
  using slices_cover[of l "map f xs" n]
  by (simp_all add: pages_def items_of_def total_of_def assms map_page_def page_of_def normalizeHistoryQuery_def
      applyPagination_def or_default_def State_Store.slice_def take_map drop_map split: option.splits)

lemma getEvents_run:
  "getEvents registry q limit offset ety st =
     (let l = or_default limit 25; o' = or_default offset 0;
          es = State_Store.slice o' (o' + l) (newest_first ev_created (matching_events ety st)) in
      (Inr \<lparr> pg_total = length es, pg_limit = l, pg_offset = o', pg_items = map (toEventView registry) es \<rparr>, st))"
  by (simp add: getEvents_def normalizeHistoryQuery_def listEvents_def matching_events_def getA_def bindA_def ret_def
      or_default_def Let_def)

lemma length_newest_first [simp]: "length (newest_first f xs) = length xs"
  unfolding newest_first_def by (metis mset_sort_by size_mset)

lemma map_page_id: "map_page (\<lambda>x. x) p = p"
  by (simp add: map_page_def)

text \<open>The pages of a history, put one after the other, are its newest records in order, each exactly once, and every failure,
  decision and artifact is reached; their total counts all matching records. The total of a page of events counts only the
  page.\<close>

theorem history_pages_cover:
  "pages (\<lambda>l o'. getFailures q l o' task) l n st = map toFailureView (take (n * l) (newest_first fl_created (matching_failures task st)))
   \<and> pages (\<lambda>l o'. getDecisions q l o') l n st = take (n * l) (newest_first di_created (ps_decisions (st_state st)))
   \<and> pages (\<lambda>l o'. getArtifacts q l o' type) l n st = map toArtifactView (take (n * l) (newest_first art_created (matching_artifacts type st)))
   \<and> pages (\<lambda>l o'. getEvents registry q l o' ety) l n st
       = map (toEventView registry) (take (n * l) (newest_first ev_created (matching_events ety st)))
   \<and> total_of (fst (getFailures q limit offset task st)) = length (matching_failures task st)
   \<and> total_of (fst (getDecisions q limit offset st)) = length (ps_decisions (st_state st))
   \<and> total_of (fst (getArtifacts q limit offset type st)) = length (matching_artifacts type st)
   \<and> total_of (fst (getEvents registry q limit offset ety st))
       = min (or_default limit 25) (length (matching_events ety st) - or_default offset 0)"
proof (intro conjI)
  have failures: "getFailures q limit offset task st = (Inr (map_page toFailureView
      (page_of limit offset (newest_first fl_created (matching_failures task st)))), st)" for limit offset
    by (simp add: getFailures_def load_def act_defs matching_failures_def)
  have decisions: "getDecisions q limit offset st =
      (Inr (map_page (\<lambda>x. x) (page_of limit offset (newest_first di_created (ps_decisions (st_state st))))), st)" for limit offset
    by (simp add: getDecisions_def load_def act_defs map_page_id)
  have artifacts: "getArtifacts q limit offset type st = (Inr (map_page toArtifactView
      (page_of limit offset (newest_first art_created (matching_artifacts type st)))), st)" for limit offset
    by (simp add: getArtifacts_def load_def act_defs matching_artifacts_def)
  note all = pages_of_list[where query = "\<lambda>l o'. getFailures q l o' task", OF failures]
    pages_of_list[where query = "getDecisions q", OF decisions]
    pages_of_list[where query = "\<lambda>l o'. getArtifacts q l o' type", OF artifacts]
  show "pages (\<lambda>l o'. getFailures q l o' task) l n st
      = map toFailureView (take (n * l) (newest_first fl_created (matching_failures task st)))"
    "pages (\<lambda>l o'. getDecisions q l o') l n st = take (n * l) (newest_first di_created (ps_decisions (st_state st)))"
    "pages (\<lambda>l o'. getArtifacts q l o' type) l n st
      = map toArtifactView (take (n * l) (newest_first art_created (matching_artifacts type st)))"
    "total_of (fst (getFailures q limit offset task st)) = length (matching_failures task st)"
    "total_of (fst (getDecisions q limit offset st)) = length (ps_decisions (st_state st))"
    "total_of (fst (getArtifacts q limit offset type st)) = length (matching_artifacts type st)"
    using all by simp_all
  show "pages (\<lambda>l o'. getEvents registry q l o' ety) l n st
      = map (toEventView registry) (take (n * l) (newest_first ev_created (matching_events ety st)))"
    using slices_cover[of l "map (toEventView registry) (newest_first ev_created (matching_events ety st))" n]
    by (simp add: pages_def getEvents_run items_of_def or_default_def Let_def State_Store.slice_def take_map drop_map)
  show "total_of (fst (getEvents registry q limit offset ety st))
      = min (or_default limit 25) (length (matching_events ety st) - or_default offset 0)"
    by (simp add: getEvents_run total_of_def Let_def State_Store.slice_def)
qed

end
