(* ===== verification/Dashboard_Access.thy ===== *)
theory Dashboard_Access
  imports Approvals Dashboard Code_Roles Runtime_Config
begin

text \<open>
  The dashboard's HTTP interface (\<open>apps/dashboard-api/src\<close>): tokens (\<open>security/jwt.ts\<close>), its configuration
  (\<open>config/dashboard-config.ts\<close>), the authentication in front of every path below \<open>/api\<close>
  (\<open>security/dashboard-auth.middleware.ts\<close>) and the controller with its validated inputs and its service
  (\<open>dashboard-query\<close>). HMAC, base64, \<open>JSON.parse\<close>, \<open>Number\<close> and the clock are arguments; the routing of the web framework
  is the choice of an \<open>endpoint\<close>.
\<close>

section \<open>Tokens\<close>

text \<open>\<open>Buffer.from(text)\<close>, for the characters of the model; \<open>timingSafeEqual\<close> compares two buffers of one length.\<close>

definition utf8_char :: "char \<Rightarrow> nat list" where
  "utf8_char c = (let n = of_char c :: nat in if n < 128 then [n] else [192 + n div 64, 128 + n mod 64])"

definition utf8 :: "string \<Rightarrow> nat list" where
  "utf8 s = concat (map utf8_char s)"

definition timingSafeEqualString :: "string \<Rightarrow> string \<Rightarrow> bool" where
  "timingSafeEqualString l r = (if length (utf8 l) \<noteq> length (utf8 r) then False else utf8 l = utf8 r)"

record token_host =
  th_base64 :: "string \<Rightarrow> nat list option"
  th_json :: "nat list \<Rightarrow> json option"
  th_hmac :: "string \<Rightarrow> string \<Rightarrow> nat list"
  th_now :: int

record jwt_options =
  jo_issuer :: "string option"
  jo_audience :: "string option"

record verified_jwt =
  vj_subject :: string
  vj_roles :: "string list"

definition decodeBase64Url :: "token_host \<Rightarrow> string \<Rightarrow> nat list option" where
  "decodeBase64Url h v =
     (let normalized = map (\<lambda>c. if c = CHR ''_'' then CHR ''/'' else c) (map (\<lambda>c. if c = CHR ''-'' then CHR ''+'' else c) v)
      in th_base64 h (normalized @ replicate ((4 - length normalized mod 4) mod 4) (CHR ''='')))"

definition decodeJsonSegment :: "token_host \<Rightarrow> string \<Rightarrow> json" where
  "decodeJsonSegment h segment = (case decodeBase64Url h segment of
     None \<Rightarrow> JNull
   | Some buffer \<Rightarrow> (case th_json h buffer of None \<Rightarrow> JNull | Some v \<Rightarrow> v))"

definition claim :: "json \<Rightarrow> string \<Rightarrow> json option" where
  "claim v k = rec_get (members_of v) k"

text \<open>A claim that is neither a text nor a list has no \<open>includes\<close> to call.\<close>

fun audienceMatches :: "json option \<Rightarrow> string \<Rightarrow> bool result" where
  "audienceMatches (Some (JStr s)) expected = Inr (s = expected)"
| "audienceMatches (Some (JArr xs)) expected = Inr (JStr expected \<in> set xs)"
| "audienceMatches None expected = Inr False"
| "audienceMatches (Some JNull) expected = Inr False"
| "audienceMatches (Some JUndefined) expected = Inr False"
| "audienceMatches (Some v) expected = Inl (Js_Error TypeError ''claim?.includes is not a function'' [])"

fun text_of :: "json \<Rightarrow> string option" where
  "text_of (JStr s) = Some s"
| "text_of _ = None"

fun normalizeRoles :: "json option \<Rightarrow> string list" where
  "normalizeRoles (Some (JArr xs)) = filter (\<lambda>r. \<not> blank r) (List.map_filter text_of xs)"
| "normalizeRoles (Some (JStr s)) =
     (if blank s then [] else filter (\<lambda>p. p \<noteq> []) (map js_trim (split_on (CHR '','') s)))"
| "normalizeRoles _ = []"

definition before_claim :: "json \<Rightarrow> int \<Rightarrow> bool" where
  "before_claim payload now = (case claim payload ''nbf'' of Some (JNum n) \<Rightarrow> now < n | _ \<Rightarrow> False)"

definition expired_claim :: "json \<Rightarrow> int \<Rightarrow> bool" where
  "expired_claim payload now = (case claim payload ''exp'' of Some (JNum n) \<Rightarrow> now \<ge> n | _ \<Rightarrow> False)"

definition subject_claim :: "json \<Rightarrow> string option" where
  "subject_claim payload = (case claim payload ''sub'' of Some (JStr s) \<Rightarrow> (if \<not> blank s then Some s else None) | _ \<Rightarrow> None)"

definition verifyHs256Jwt :: "token_host \<Rightarrow> string \<Rightarrow> string \<Rightarrow> jwt_options \<Rightarrow> verified_jwt option result" where
  "verifyHs256Jwt h token secret options = (case split_on (CHR ''.'') token of
     [encodedHeader, encodedPayload, encodedSignature] \<Rightarrow>
       if encodedHeader = [] \<or> encodedPayload = [] \<or> encodedSignature = [] then Inr None
       else
         (let header = decodeJsonSegment h encodedHeader; payload = decodeJsonSegment h encodedPayload in
          if \<not> json_truthy header \<or> \<not> json_truthy payload
             \<or> claim header ''alg'' \<noteq> Some (JStr ''HS256'') \<or> claim header ''typ'' \<noteq> Some (JStr ''JWT'')
          then Inr None
          else
            (let expected = th_hmac h secret (encodedHeader @ ''.'' @ encodedPayload) in
             case decodeBase64Url h encodedSignature of
               None \<Rightarrow> Inr None
             | Some actual \<Rightarrow>
                 if length actual \<noteq> length expected then Inr None
                 else if actual \<noteq> expected then Inr None
                 else
                   (let now = th_now h div 1000 in
                    if before_claim payload now then Inr None
                    else if expired_claim payload now then Inr None
                    else if truthy (jo_issuer options) \<and> claim payload ''iss'' \<noteq> map_option JStr (jo_issuer options) then Inr None
                    else
                      (case (if truthy (jo_audience options)
                             then audienceMatches (claim payload ''aud'') (the (jo_audience options)) else Inr True) of
                         Inl e \<Rightarrow> Inl e
                       | Inr False \<Rightarrow> Inr None
                       | Inr True \<Rightarrow>
                           (case subject_claim payload of
                              None \<Rightarrow> Inr None
                            | Some subject \<Rightarrow>
                                Inr (Some \<lparr> vj_subject = subject, vj_roles = normalizeRoles (claim payload ''roles'') \<rparr>))))))
   | _ \<Rightarrow> Inr None)"

section \<open>Configuration\<close>

record api_key =
  ak_id :: string
  ak_key :: string
  ak_roles :: "string list"

record api_security =
  as_apiKeys :: "api_key list"
  as_jwtSecret :: "string option"
  as_jwtIssuer :: "string option"
  as_jwtAudience :: "string option"

record dashboard_config =
  dc_host :: string
  dc_port :: int
  dc_runtime :: json
  dc_projectId :: string
  dc_projectName :: string
  dc_summary :: string
  dc_security :: api_security
  dc_allowedOrigins :: "string list"

definition bad_entry :: "nat \<Rightarrow> js_error" where
  "bad_entry i = Js_Error ConfigError
     (''Invalid DASHBOARD_API_KEYS entry at index '' @ nat_to_string i @ ''. Expected id:key@role1|role2.'') []"

definition no_role :: "string \<Rightarrow> js_error" where
  "no_role i = Js_Error ConfigError (''DASHBOARD_API_KEYS entry \"'' @ i @ ''\" must include at least one role.'') []"

text \<open>The part at an index of what \<open>split\<close> returned, when there is one. Only the first two parts are looked at.\<close>

definition part_at :: "nat \<Rightarrow> string list \<Rightarrow> string option" where
  "part_at i parts = (if i < length parts then Some (parts ! i) else None)"

definition parse_entry :: "nat \<Rightarrow> string \<Rightarrow> api_key result" where
  "parse_entry i entry =
     (let parts = split_on (CHR ''@'') entry; idAndKey = part_at 0 parts; rolesPart = part_at 1 parts in
      if \<not> truthy idAndKey then Inl (bad_entry i)
      else
        (let pair = split_on (CHR '':'') (the idAndKey);
             id' = map_option js_trim (part_at 0 pair); key = map_option js_trim (part_at 1 pair) in
         if \<not> truthy id' \<or> \<not> truthy key then Inl (bad_entry i)
         else
           (let roles = filter (\<lambda>r. r \<noteq> []) (map js_trim (split_on (CHR ''|'') (or_default rolesPart []))) in
            if roles = [] then Inl (no_role (the id'))
            else Inr \<lparr> ak_id = the id', ak_key = the key, ak_roles = roles \<rparr>)))"

fun parse_entries :: "nat \<Rightarrow> string list \<Rightarrow> api_key list result" where
  "parse_entries i [] = Inr []"
| "parse_entries i (e # es) = rbind (parse_entry i e) (\<lambda>k. rbind (parse_entries (Suc i) es) (\<lambda>ks. Inr (k # ks)))"

definition trimmed_parts :: "string \<Rightarrow> string list" where
  "trimmed_parts raw = filter (\<lambda>e. length e > 0) (map js_trim (split_on (CHR '','') raw))"

definition parseApiKeys :: "string option \<Rightarrow> api_key list result" where
  "parseApiKeys rawValue =
     (if \<not> truthy (map_option js_trim rawValue) then Inr [] else parse_entries 0 (trimmed_parts (the rawValue)))"

definition parseSecurityConfig :: "string option \<Rightarrow> string option \<Rightarrow> string option \<Rightarrow> string option \<Rightarrow> api_security result" where
  "parseSecurityConfig rawApiKeys secret issuer audience = rbind (parseApiKeys rawApiKeys) (\<lambda>keys.
     if length keys = 0 \<and> \<not> truthy secret
     then Inl (Js_Error ConfigError
       ''Dashboard API authentication is required. Configure DASHBOARD_API_KEYS or DASHBOARD_API_JWT_SECRET.'' [])
     else Inr \<lparr> as_apiKeys = keys, as_jwtSecret = when_truthy secret, as_jwtIssuer = when_truthy issuer,
                as_jwtAudience = when_truthy audience \<rparr>)"

definition parseAllowedOrigins :: "string option \<Rightarrow> string list result" where
  "parseAllowedOrigins rawValue =
     (if \<not> truthy (map_option js_trim rawValue) then Inr []
      else if ''*'' \<in> set (trimmed_parts (the rawValue))
      then Inl (Js_Error ConfigError ''DASHBOARD_API_ALLOWED_ORIGINS must not contain wildcard origin \"*\".'' [])
      else Inr (trimmed_parts (the rawValue)))"

text \<open>\<open>dashboardEnvSchema\<close>: the members of the environment, trimmed, with their least lengths and defaults; \<open>number\<close> is
  the coercion of a text to a whole number. What a refusal says is Zod's.\<close>

definition env_refused :: "string \<Rightarrow> js_error" where
  "env_refused name = Js_Error PlainError ''ZodError'' [name]"

definition trimmed_var :: "(string \<Rightarrow> string option) \<Rightarrow> string \<Rightarrow> nat \<Rightarrow> string option result" where
  "trimmed_var env name least = (case env name of
     None \<Rightarrow> Inr None
   | Some v \<Rightarrow> if length (js_trim v) < least then Inl (env_refused name) else Inr (Some (js_trim v)))"

definition port_var :: "(string \<Rightarrow> int option) \<Rightarrow> (string \<Rightarrow> string option) \<Rightarrow> int result" where
  "port_var number env = (case env ''DASHBOARD_API_PORT'' of
     None \<Rightarrow> Inr 3100
   | Some v \<Rightarrow> (case number v of
       Some n \<Rightarrow> if 0 < n then Inr n else Inl (env_refused ''DASHBOARD_API_PORT'')
     | None \<Rightarrow> Inl (env_refused ''DASHBOARD_API_PORT'')))"

definition loadDashboardRuntimeContext ::
  "runtime_host \<Rightarrow> string \<Rightarrow> string list \<Rightarrow> (string \<Rightarrow> int option) \<Rightarrow> (string \<Rightarrow> string option) \<Rightarrow> dashboard_config result" where
  "loadDashboardRuntimeContext rh cwd registry number env =
     rbind (trimmed_var env ''DASHBOARD_API_HOST'' 1) (\<lambda>hst.
     rbind (port_var number env) (\<lambda>port.
     rbind (trimmed_var env ''DASHBOARD_API_JWT_SECRET'' 32) (\<lambda>secret.
     rbind (trimmed_var env ''DASHBOARD_API_JWT_ISSUER'' 1) (\<lambda>issuer.
     rbind (trimmed_var env ''DASHBOARD_API_JWT_AUDIENCE'' 1) (\<lambda>audience.
     rbind (trimmed_var env ''DASHBOARD_PROJECT_ID'' 1) (\<lambda>project.
     rbind (trimmed_var env ''DASHBOARD_PROJECT_NAME'' 1) (\<lambda>name.
     rbind (trimmed_var env ''DASHBOARD_PROJECT_SUMMARY'' 1) (\<lambda>summary.
     rbind (loadRuntimeConfig rh cwd registry) (\<lambda>(runtime, _).
     rbind (parseSecurityConfig (env ''DASHBOARD_API_KEYS'') secret issuer audience) (\<lambda>security.
     rbind (parseAllowedOrigins (env ''DASHBOARD_API_ALLOWED_ORIGINS'')) (\<lambda>origins.
     Inr \<lparr> dc_host = or_default hst ''127.0.0.1'', dc_port = port, dc_runtime = runtime,
           dc_projectId = or_default project ''ai-orchestrator'', dc_projectName = or_default name ''AI Orchestrator'',
           dc_summary = or_default summary ''MVP runtime state'', dc_security = security, dc_allowedOrigins = origins \<rparr>)))))))))))"

section \<open>Authentication\<close>

record http_request =
  hr_method :: string
  hr_apiKey :: "string option"
  hr_authorization :: "string option"

datatype auth_verdict = Auth_Next http_request | Auth_Status nat string

definition role_verdict :: "string list \<Rightarrow> http_request \<Rightarrow> auth_verdict" where
  "role_verdict roles rq = (if ''dashboard.read'' \<in> set roles then Auth_Next rq
                            else Auth_Status 403 ''Insufficient role for endpoint'')"

definition createDashboardAuthMiddleware :: "token_host \<Rightarrow> api_security \<Rightarrow> http_request \<Rightarrow> auth_verdict result" where
  "createDashboardAuthMiddleware h security rq =
     (if hr_method rq = ''OPTIONS'' then Inr (Auth_Next rq)
      else if truthy (hr_apiKey rq) then
        (case find (\<lambda>e. timingSafeEqualString (ak_key e) (the (hr_apiKey rq))) (as_apiKeys security) of
           None \<Rightarrow> Inr (Auth_Status 401 ''Authentication failed'')
         | Some m \<Rightarrow> Inr (role_verdict (ak_roles m) rq))
      else if \<not> truthy (hr_authorization rq) \<or> \<not> truthy (as_jwtSecret security)
      then Inr (Auth_Status 401 ''Authentication required'')
      else
        (let parts = split_on (CHR '' '') (the (hr_authorization rq)) in
         if part_at 0 parts \<noteq> Some ''Bearer'' \<or> \<not> truthy (part_at 1 parts) then Inr (Auth_Status 401 ''Authentication failed'')
         else
           (case verifyHs256Jwt h (the (part_at 1 parts)) (the (as_jwtSecret security))
                   \<lparr> jo_issuer = when_truthy (as_jwtIssuer security), jo_audience = when_truthy (as_jwtAudience security) \<rparr> of
              Inl e \<Rightarrow> Inl e
            | Inr None \<Rightarrow> Inr (Auth_Status 401 ''Authentication failed'')
            | Inr (Some v) \<Rightarrow> Inr (role_verdict (vj_roles v) (rq\<lparr>hr_authorization := None\<rparr>)))))"

section \<open>Who is let in\<close>

lemma utf8_char_prefix: "utf8_char c @ x = utf8_char d @ y \<Longrightarrow> c = d \<and> x = y"
proof -
  assume eq: "utf8_char c @ x = utf8_char d @ y"
  have n: "(of_char c :: nat) = of_char d"
  proof (cases "(of_char c :: nat) < 128"; cases "(of_char d :: nat) < 128")
    assume "\<not> (of_char c :: nat) < 128" and "\<not> (of_char d :: nat) < 128"
    then have "(of_char c :: nat) div 64 = of_char d div 64" and "(of_char c :: nat) mod 64 = of_char d mod 64"
      using eq by (auto simp: utf8_char_def Let_def)
    then show ?thesis by (metis div_mod_decomp)
  qed (use eq in \<open>auto simp: utf8_char_def Let_def\<close>)
  then have "c = d" by (metis char_of_char)
  then show ?thesis using eq by simp
qed

lemma utf8_Nil [simp]: "utf8 [] = []"
  by (simp add: utf8_def)

lemma utf8_Cons: "utf8 (c # s) = utf8_char c @ utf8 s"
  by (simp add: utf8_def)

lemma utf8_char_nonempty [simp]: "utf8_char c \<noteq> []"
  by (simp add: utf8_char_def Let_def)

lemma utf8_inj: "utf8 s = utf8 t \<longleftrightarrow> s = t"
proof (induction s arbitrary: t)
  case Nil
  then show ?case by (cases t) (auto simp: utf8_Cons)
next
  case (Cons c s)
  then show ?case by (cases t) (auto simp: utf8_Cons dest: utf8_char_prefix)
qed

lemma timingSafeEqualString_iff [simp]: "timingSafeEqualString l r \<longleftrightarrow> l = r"
  using utf8_inj[of l r] by (auto simp: timingSafeEqualString_def)

definition well_timed :: "json \<Rightarrow> int \<Rightarrow> bool" where
  "well_timed payload now = ((\<forall>n. claim payload ''nbf'' = Some (JNum n) \<longrightarrow> n \<le> now) \<and>
                             (\<forall>n. claim payload ''exp'' = Some (JNum n) \<longrightarrow> now < n))"

definition meant_for :: "json \<Rightarrow> string option \<Rightarrow> bool" where
  "meant_for payload audience = (case when_truthy audience of None \<Rightarrow> True
     | Some a \<Rightarrow> (claim payload ''aud'' = Some (JStr a) \<or> (\<exists>xs. claim payload ''aud'' = Some (JArr xs) \<and> JStr a \<in> set xs)))"

text \<open>Three parts signed with the secret, whose header and claims are in order.\<close>

definition good_token :: "token_host \<Rightarrow> string \<Rightarrow> jwt_options \<Rightarrow> string \<Rightarrow> verified_jwt \<Rightarrow> bool" where
  "good_token h secret options token v = (\<exists>hd' pl sg.
     token = hd' @ ''.'' @ pl @ ''.'' @ sg \<and> CHR ''.'' \<notin> set hd' \<and> CHR ''.'' \<notin> set pl \<and> CHR ''.'' \<notin> set sg
     \<and> hd' \<noteq> [] \<and> pl \<noteq> [] \<and> sg \<noteq> []
     \<and> decodeBase64Url h sg = Some (th_hmac h secret (hd' @ ''.'' @ pl))
     \<and> claim (decodeJsonSegment h hd') ''alg'' = Some (JStr ''HS256'') \<and> claim (decodeJsonSegment h hd') ''typ'' = Some (JStr ''JWT'')
     \<and> well_timed (decodeJsonSegment h pl) (th_now h div 1000)
     \<and> (truthy (jo_issuer options) \<longrightarrow> claim (decodeJsonSegment h pl) ''iss'' = map_option JStr (jo_issuer options))
     \<and> meant_for (decodeJsonSegment h pl) (jo_audience options)
     \<and> claim (decodeJsonSegment h pl) ''sub'' = Some (JStr (vj_subject v)) \<and> \<not> blank (vj_subject v)
     \<and> vj_roles v = normalizeRoles (claim (decodeJsonSegment h pl) ''roles''))"

lemma join_split_on: "join [c] (split_on c s) = s"
proof (induction s)
  case (Cons x s)
  then show ?case by (cases "split_on c s" rule: list.exhaust; cases "tl (split_on c s)") auto
qed simp

lemma split_three:
  "split_on c s = [x, y, z] \<longleftrightarrow> s = x @ c # y @ c # z \<and> c \<notin> set x \<and> c \<notin> set y \<and> c \<notin> set z"
proof
  assume a: "split_on c s = [x, y, z]"
  then have "\<forall>w \<in> {x, y, z}. c \<notin> set w" using split_on_parts[of _ c s] by auto
  moreover have "s = join [c] [x, y, z]" by (metis a join_split_on)
  ultimately show "s = x @ c # y @ c # z \<and> c \<notin> set x \<and> c \<notin> set y \<and> c \<notin> set z" by simp
qed (auto simp: split_on_append split_on_no_sep)

lemma claim_truthy: "claim v k = Some w \<Longrightarrow> json_truthy v"
  by (cases v) (auto simp: claim_def)

lemma not_early_iff: "\<not> before_claim p now \<and> \<not> expired_claim p now \<longleftrightarrow> well_timed p now"
  by (auto simp: before_claim_def expired_claim_def well_timed_def split: option.splits json.splits)

lemma subject_iff: "subject_claim p = Some s \<longleftrightarrow> claim p ''sub'' = Some (JStr s) \<and> \<not> blank s"
  by (auto simp: subject_claim_def split: option.splits json.splits)

lemma audience_iff: "(if truthy a then audienceMatches (claim p ''aud'') (the a) else Inr True) = Inr True \<longleftrightarrow> meant_for p a"
  by (cases "(claim p ''aud'', the a)" rule: audienceMatches.cases) (auto simp: meant_for_def when_truthy_def split: option.splits)

definition good_parts :: "token_host \<Rightarrow> string \<Rightarrow> jwt_options \<Rightarrow> verified_jwt \<Rightarrow> string \<Rightarrow> string \<Rightarrow> string \<Rightarrow> bool" where
  "good_parts h secret options v hd' pl sg = (
     hd' \<noteq> [] \<and> pl \<noteq> [] \<and> sg \<noteq> []
     \<and> decodeBase64Url h sg = Some (th_hmac h secret (hd' @ ''.'' @ pl))
     \<and> claim (decodeJsonSegment h hd') ''alg'' = Some (JStr ''HS256'') \<and> claim (decodeJsonSegment h hd') ''typ'' = Some (JStr ''JWT'')
     \<and> well_timed (decodeJsonSegment h pl) (th_now h div 1000)
     \<and> (truthy (jo_issuer options) \<longrightarrow> claim (decodeJsonSegment h pl) ''iss'' = map_option JStr (jo_issuer options))
     \<and> meant_for (decodeJsonSegment h pl) (jo_audience options)
     \<and> claim (decodeJsonSegment h pl) ''sub'' = Some (JStr (vj_subject v)) \<and> \<not> blank (vj_subject v)
     \<and> vj_roles v = normalizeRoles (claim (decodeJsonSegment h pl) ''roles''))"

lemma audience_case:
  "(case (if truthy a then audienceMatches (claim p ''aud'') (the a) else Inr True) of
      Inl e \<Rightarrow> Inl e | Inr False \<Rightarrow> Inr None | Inr True \<Rightarrow> R) = Inr (Some v) \<longleftrightarrow> meant_for p a \<and> R = Inr (Some v)"
  unfolding audience_iff[symmetric] by (auto split: sum.splits bool.splits)

lemma subject_case:
  "(case subject_claim p of None \<Rightarrow> Inr None | Some s \<Rightarrow> Inr (Some \<lparr> vj_subject = s, vj_roles = R \<rparr>)) = Inr (Some v)
   \<longleftrightarrow> claim p ''sub'' = Some (JStr (vj_subject v)) \<and> \<not> blank (vj_subject v) \<and> vj_roles v = R"
  using subject_iff[of p "vj_subject v"] by (cases v) (auto split: option.splits)

lemma refuse_if: "(if b then Inr None else r) = Inr (Some v) \<longleftrightarrow> \<not> b \<and> r = Inr (Some v)"
  by simp

lemma signature_case:
  "(case d of None \<Rightarrow> Inr None | Some actual \<Rightarrow> if length actual \<noteq> length expected then Inr None
      else if actual \<noteq> expected then Inr None else r) = Inr (Some v) \<longleftrightarrow> d = Some expected \<and> r = Inr (Some v)"
  by (cases d) auto

lemma verified_parts:
  assumes "split_on (CHR ''.'') token = [x, y, z]"
  shows "verifyHs256Jwt h token secret options = Inr (Some v) \<longleftrightarrow> good_parts h secret options v x y z"
proof -
  have t: "claim (decodeJsonSegment h y) ''sub'' = Some (JStr (vj_subject v)) \<Longrightarrow> json_truthy (decodeJsonSegment h y)"
    "claim (decodeJsonSegment h x) ''alg'' = Some (JStr ''HS256'') \<Longrightarrow> json_truthy (decodeJsonSegment h x)"
    by (erule claim_truthy)+
  show ?thesis
    unfolding verifyHs256Jwt_def assms good_parts_def Let_def list.case refuse_if signature_case audience_case subject_case
      not_early_iff[symmetric] using t by blast
qed

theorem verified_iff: "verifyHs256Jwt h token secret options = Inr (Some v) \<longleftrightarrow> good_token h secret options token v"
proof (cases "\<exists>x y z. split_on (CHR ''.'') token = [x, y, z]")
  case True
  then obtain x y z where xyz: "split_on (CHR ''.'') token = [x, y, z]" by blast
  have "good_token h secret options token v \<longleftrightarrow> (\<exists>a b c. split_on (CHR ''.'') token = [a, b, c] \<and> good_parts h secret options v a b c)"
    unfolding good_token_def split_three good_parts_def by auto
  then show ?thesis using verified_parts[OF xyz, of h secret options v] xyz by auto
next
  case False
  then have "verifyHs256Jwt h token secret options = Inr None"
    unfolding verifyHs256Jwt_def by (auto split: list.split)
  moreover have "\<not> good_token h secret options token v"
    using False split_three[of "CHR ''.''" token] unfolding good_token_def by auto
  ultimately show ?thesis by simp
qed

section \<open>The middleware lets through exactly the holders of the role\<close>

definition options_of :: "api_security \<Rightarrow> jwt_options" where
  "options_of sc = \<lparr> jo_issuer = when_truthy (as_jwtIssuer sc), jo_audience = when_truthy (as_jwtAudience sc) \<rparr>"

text \<open>A key that is the first configured one with its value and has the role, or, without a key, a good token with the role.\<close>

definition credentialed :: "token_host \<Rightarrow> api_security \<Rightarrow> http_request \<Rightarrow> bool" where
  "credentialed h sc rq =
     (if truthy (hr_apiKey rq)
      then (\<exists>rs. map_of (map (\<lambda>k. (ak_key k, ak_roles k)) (as_apiKeys sc)) (the (hr_apiKey rq)) = Some rs \<and> ''dashboard.read'' \<in> set rs)
      else (\<exists>header secret token rest v. hr_authorization rq = Some header \<and> as_jwtSecret sc = Some secret \<and> secret \<noteq> []
              \<and> split_on (CHR '' '') header = ''Bearer'' # token # rest
              \<and> good_token h secret (options_of sc) token v \<and> ''dashboard.read'' \<in> set (vj_roles v)))"

definition passed_on :: "http_request \<Rightarrow> http_request" where
  "passed_on rq = (if truthy (hr_apiKey rq) then rq else rq\<lparr>hr_authorization := None\<rparr>)"

lemma find_map_of:
  "find (\<lambda>e. f e = k) xs = Some e \<Longrightarrow> map_of (map (\<lambda>e. (f e, g e)) xs) k = Some (g e)"
  "find (\<lambda>e. f e = k) xs = None \<Longrightarrow> map_of (map (\<lambda>e. (f e, g e)) xs) k = None"
  by (induction xs) (auto split: if_splits)

lemma role_verdict_next: "role_verdict roles rq = Auth_Next r \<longleftrightarrow> ''dashboard.read'' \<in> set roles \<and> r = rq"
  by (auto simp: role_verdict_def)

lemma bearer_parts:
  "part_at 0 ps = Some ''Bearer'' \<and> truthy (part_at 1 ps) \<longleftrightarrow> (\<exists>token rest. ps = ''Bearer'' # token # rest \<and> token \<noteq> [])"
  by (cases ps; cases "tl ps") (auto simp: part_at_def)

lemma good_token_nonempty: "good_token h secret options token v \<Longrightarrow> token \<noteq> []"
  by (auto simp: good_token_def)

lemma middleware_key:
  assumes "hr_method rq \<noteq> ''OPTIONS''" and "truthy (hr_apiKey rq)"
  shows "createDashboardAuthMiddleware h sc rq = Inr (Auth_Next r) \<longleftrightarrow> credentialed h sc rq \<and> r = passed_on rq"
  using assms find_map_of[where f = ak_key and g = ak_roles and k = "the (hr_apiKey rq)" and xs = "as_apiKeys sc"]
  by (auto simp: createDashboardAuthMiddleware_def credentialed_def passed_on_def role_verdict_next split: option.split)

lemma middleware_token:
  assumes "hr_method rq \<noteq> ''OPTIONS''" and "\<not> truthy (hr_apiKey rq)"
  shows "createDashboardAuthMiddleware h sc rq = Inr (Auth_Next r) \<longleftrightarrow> credentialed h sc rq \<and> r = passed_on rq"
proof (cases "truthy (hr_authorization rq) \<and> truthy (as_jwtSecret sc)")
  case False
  then have "\<not> credentialed h sc rq" using assms by (auto simp: credentialed_def split_on_no_sep)
  then show ?thesis using assms False by (auto simp: createDashboardAuthMiddleware_def)
next
  case True
  then obtain header secret where hs: "hr_authorization rq = Some header" "as_jwtSecret sc = Some secret" "header \<noteq> []" "secret \<noteq> []"
    by (cases "hr_authorization rq"; cases "as_jwtSecret sc") auto
  let ?ps = "split_on (CHR '' '') header"
  have sum: "(case r' of Inl e \<Rightarrow> Inl e | Inr None \<Rightarrow> Inr (Auth_Status n m) | Inr (Some v) \<Rightarrow> Inr (role_verdict (vj_roles v) q)) = Inr (Auth_Next r)
     \<longleftrightarrow> (\<exists>v. r' = Inr (Some v) \<and> ''dashboard.read'' \<in> set (vj_roles v) \<and> r = q)" for r' :: "verified_jwt option result" and n m q
    by (auto simp: role_verdict_next split: sum.split option.split)
  show ?thesis
  proof (cases "\<exists>token rest. ?ps = ''Bearer'' # token # rest \<and> token \<noteq> []")
    case True
    then obtain token rest where "?ps = ''Bearer'' # token # rest" "token \<noteq> []" by blast
    then show ?thesis using assms hs
      by (auto simp: createDashboardAuthMiddleware_def part_at_def sum verified_iff credentialed_def passed_on_def options_of_def)
  next
    case False
    then have "\<not> credentialed h sc rq" using assms hs good_token_nonempty by (fastforce simp: credentialed_def)
    moreover have "createDashboardAuthMiddleware h sc rq = Inr (Auth_Status 401 ''Authentication failed'')"
      using assms hs False bearer_parts[of ?ps] unfolding createDashboardAuthMiddleware_def Let_def by auto
    ultimately show ?thesis by simp
  qed
qed

lemma middleware_exact:
  assumes "hr_method rq \<noteq> ''OPTIONS''"
  shows "createDashboardAuthMiddleware h sc rq = Inr (Auth_Next r) \<longleftrightarrow> credentialed h sc rq \<and> r = passed_on rq"
  using middleware_key[OF assms] middleware_token[OF assms] by (cases "truthy (hr_apiKey rq)") auto

section \<open>What the configuration accepts\<close>

definition render_key :: "api_key \<Rightarrow> string" where
  "render_key k = ak_id k @ CHR '':'' # ak_key k @ CHR ''@'' # join ''|'' (ak_roles k)"

text \<open>A text without separators that has no space at its ends.\<close>

definition plain :: "string \<Rightarrow> bool" where
  "plain t = (t \<noteq> [] \<and> \<not> is_space (hd t) \<and> \<not> is_space (last t)
     \<and> list_all (\<lambda>c. c \<notin> {CHR '','', CHR ''@'', CHR '':'', CHR ''|''}) t)"

definition plain_key :: "api_key \<Rightarrow> bool" where
  "plain_key k = (plain (ak_id k) \<and> plain (ak_key k) \<and> ak_roles k \<noteq> [] \<and> list_all plain (ak_roles k))"

lemma js_trim_plain_ends: "\<not> is_space (hd t) \<Longrightarrow> \<not> is_space (last t) \<Longrightarrow> js_trim t = t"
proof -
  assume "\<not> is_space (hd t)" and "\<not> is_space (last t)"
  then have "dropWhile is_space t = t" and "dropWhile is_space (rev t) = rev t"
    by (simp_all add: dropWhile_eq_self_iff hd_rev)
  then show ?thesis by (simp add: js_trim_def)
qed

lemma plain_parts:
  assumes "plain t"
  shows "t \<noteq> []" "js_trim t = t" "CHR '','' \<notin> set t" "CHR ''@'' \<notin> set t" "CHR '':'' \<notin> set t" "CHR ''|'' \<notin> set t"
  using assms js_trim_plain_ends by (auto simp: plain_def list_all_iff)

lemma join_nonempty: "ws \<noteq> [] \<Longrightarrow> list_all (\<lambda>w. w \<noteq> []) ws \<Longrightarrow> join sep ws \<noteq> []"
  by (cases ws rule: list.exhaust; cases "tl ws") auto

lemma last_join: "ws \<noteq> [] \<Longrightarrow> list_all (\<lambda>w. w \<noteq> []) ws \<Longrightarrow> last (join sep ws) = last (last ws)"
proof (induction sep ws rule: join.induct)
  case (3 sep x y xs)
  then show ?case using join_nonempty[of "y # xs" sep] by simp
qed simp_all

lemma map_plain_trim: "list_all plain ws \<Longrightarrow> filter (\<lambda>r. r \<noteq> []) (map js_trim ws) = ws"
  by (induction ws) (auto simp: plain_parts)

lemma join_plain_chars: "list_all plain ws \<Longrightarrow> CHR ''@'' \<notin> set (join ''|'' ws) \<and> CHR '','' \<notin> set (join ''|'' ws)"
proof (induction "''|''" ws rule: join.induct)
  case (2 x)
  then show ?case using plain_parts(3,4)[of x] by simp
next
  case (3 x y xs)
  then show ?case using plain_parts(3,4)[of x] by simp
qed simp

lemma parse_entry_render:
  assumes "plain_key k"
  shows "parse_entry i (render_key k) = Inr k"
proof -
  note p = plain_parts[of "ak_id k"] plain_parts[of "ak_key k"]
  have roles: "CHR ''@'' \<notin> set (join ''|'' (ak_roles k))" "\<forall>r \<in> set (ak_roles k). CHR ''|'' \<notin> set r"
    using join_plain_chars[of "ak_roles k"] assms plain_parts(6) by (simp_all add: plain_key_def list_all_iff)
  have whole: "split_on (CHR ''@'') (render_key k) = [ak_id k @ CHR '':'' # ak_key k, join ''|'' (ak_roles k)]"
    using split_on_append[of "CHR ''@''" "ak_id k @ CHR '':'' # ak_key k" "join ''|'' (ak_roles k)"] roles(1) p assms
    by (simp add: render_key_def plain_key_def split_on_no_sep)
  have pair: "split_on (CHR '':'') (ak_id k @ CHR '':'' # ak_key k) = [ak_id k, ak_key k]"
    using p assms by (simp add: split_on_append split_on_no_sep plain_key_def)
  show ?thesis
    using p assms roles(2) split_on_join[of "ak_roles k" "CHR ''|''"] map_plain_trim[of "ak_roles k"]
    by (simp add: parse_entry_def whole part_at_def pair plain_key_def)
qed

lemma render_key_plain:
  assumes "plain_key k"
  shows "CHR '','' \<notin> set (render_key k)" "js_trim (render_key k) = render_key k" "render_key k \<noteq> []"
proof -
  have k: "plain (ak_id k)" "plain (ak_key k)" "ak_roles k \<noteq> []" "list_all plain (ak_roles k)"
    using assms by (auto simp: plain_key_def)
  have all: "list_all (\<lambda>w. w \<noteq> []) (ak_roles k)"
    using k(4) plain_parts(1) by (auto simp: list_all_iff)
  note ne = join_nonempty[OF k(3) all, of "''|''"]
  show "CHR '','' \<notin> set (render_key k)"
    using join_plain_chars[OF k(4)] plain_parts(3)[OF k(1)] plain_parts(3)[OF k(2)] by (simp add: render_key_def)
  have l: "plain (last (ak_roles k))" using k by (simp add: list_all_iff)
  have "last (render_key k) = last (last (ak_roles k))"
    using ne last_join[OF k(3) all, of "''|''"] by (simp add: render_key_def)
  then show "js_trim (render_key k) = render_key k"
    using k(1) l by (intro js_trim_plain_ends) (simp_all add: render_key_def plain_def hd_append)
  show "render_key k \<noteq> []" by (simp add: render_key_def)
qed

lemma parse_entries_render: "list_all plain_key ks \<Longrightarrow> parse_entries i (map render_key ks) = Inr ks"
  by (induction ks arbitrary: i) (simp_all add: parse_entry_render rbind_def)

lemma parseApiKeys_render:
  assumes "list_all plain_key ks"
  shows "parseApiKeys (Some (join '','' (map render_key ks))) = Inr ks"
proof (cases "ks = []")
  case False
  let ?raw = "join '','' (map render_key ks)"
  have "\<forall>w \<in> set (map render_key ks). CHR '','' \<notin> set w" using assms render_key_plain(1) by (auto simp: list_all_iff)
  then have sp: "split_on (CHR '','') ?raw = map render_key ks" using split_on_join[of "map render_key ks"] False by simp
  have parts: "trimmed_parts ?raw = map render_key ks"
    using assms render_key_plain(2,3) unfolding trimmed_parts_def sp by (induction ks) auto
  have "js_trim ?raw \<noteq> []"
  proof
    assume b: "js_trim ?raw = []"
    from False obtain k r where ks: "ks = k # r" by (cases ks) auto
    then have "plain (ak_id k)" using assms by (simp add: plain_key_def)
    then have "ak_id k \<noteq> []" and c: "\<not> is_space (hd (ak_id k))" by (simp_all add: plain_def)
    then have "hd (ak_id k) \<in> set (render_key k)" by (simp add: render_key_def)
    then have "hd (ak_id k) \<in> set ?raw" unfolding ks by (cases r) simp_all
    then show False using b c blank_iff[of ?raw] by (auto simp: blank_def)
  qed
  then show ?thesis using parts parse_entries_render[OF assms] by (simp add: parseApiKeys_def)
qed (simp add: parseApiKeys_def)

lemma truthy_the: "truthy x \<Longrightarrow> the x \<noteq> [] \<and> (\<exists>s. x = Some s)"
  by (cases x) auto

lemma parse_entry_parts: "parse_entry i e = Inr k \<Longrightarrow> ak_id k \<noteq> [] \<and> ak_key k \<noteq> [] \<and> ak_roles k \<noteq> []"
  by (auto simp: parse_entry_def Let_def dest!: truthy_the split: if_splits)

lemma parse_entries_parts:
  "parse_entries i es = Inr ks \<Longrightarrow> list_all (\<lambda>k. ak_id k \<noteq> [] \<and> ak_key k \<noteq> [] \<and> ak_roles k \<noteq> []) ks"
proof (induction es arbitrary: i ks)
  case (Cons e es)
  then show ?case using parse_entry_parts by (fastforce simp: rbind_Inr)
qed simp

lemma parseApiKeys_parts:
  "parseApiKeys raw = Inr ks \<Longrightarrow> list_all (\<lambda>k. ak_id k \<noteq> [] \<and> ak_key k \<noteq> [] \<and> ak_roles k \<noteq> []) ks"
  using parse_entries_parts by (auto simp: parseApiKeys_def split: if_splits)

lemma parseAllowedOrigins_parts: "parseAllowedOrigins raw = Inr os \<Longrightarrow> ''*'' \<notin> set os"
  by (auto simp: parseAllowedOrigins_def split: if_splits)

lemma port_var_positive: "port_var number env = Inr n \<Longrightarrow> 0 < n"
  by (auto simp: port_var_def split: option.splits if_splits)

lemma trimmed_var_length: "trimmed_var env name least = Inr (Some s) \<Longrightarrow> least \<le> length s"
  by (auto simp: trimmed_var_def split: option.splits if_splits)

text \<open>A dashboard that starts has someone to let in: complete keys or a secret of at least 32 characters; no origin is a wildcard.\<close>

definition someone_let_in :: "api_security \<Rightarrow> bool" where
  "someone_let_in sc = (list_all (\<lambda>k. ak_id k \<noteq> [] \<and> ak_key k \<noteq> [] \<and> ak_roles k \<noteq> []) (as_apiKeys sc)
     \<and> (as_apiKeys sc \<noteq> [] \<or> as_jwtSecret sc \<noteq> None) \<and> (\<forall>s. as_jwtSecret sc = Some s \<longrightarrow> 32 \<le> length s))"

lemma parseSecurityConfig_ok:
  assumes "parseSecurityConfig raw secret i u = Inr sc" and "\<And>s. secret = Some s \<Longrightarrow> 32 \<le> length s"
  shows "someone_let_in sc"
  using assms parseApiKeys_parts[of raw]
  by (auto simp: parseSecurityConfig_def rbind_Inr someone_let_in_def when_truthy_def dest!: truthy_the split: if_splits)

lemma dashboard_context_checked:
  assumes "loadDashboardRuntimeContext rh cwd registry number env = Inr c"
  shows "someone_let_in (dc_security c) \<and> 0 < dc_port c \<and> ''*'' \<notin> set (dc_allowedOrigins c)
    \<and> (\<exists>registry'. loadRuntimeConfig rh cwd registry = Inr (dc_runtime c, registry'))"
proof -
  from assms obtain secret i u where "trimmed_var env ''DASHBOARD_API_JWT_SECRET'' 32 = Inr secret"
      and sc: "parseSecurityConfig (env ''DASHBOARD_API_KEYS'') secret i u = Inr (dc_security c)"
      and rest: "port_var number env = Inr (dc_port c)" "parseAllowedOrigins (env ''DASHBOARD_API_ALLOWED_ORIGINS'') = Inr (dc_allowedOrigins c)"
      "\<exists>registry'. loadRuntimeConfig rh cwd registry = Inr (dc_runtime c, registry')"
    unfolding loadDashboardRuntimeContext_def by (auto simp: rbind_Inr)
  then have "\<And>s. secret = Some s \<Longrightarrow> 32 \<le> length s" using trimmed_var_length by blast
  from parseSecurityConfig_ok[OF sc this] show ?thesis using rest port_var_positive parseAllowedOrigins_parts by blast
qed

text \<open>A key that holds a colon is cut there.\<close>

lemma colon_cuts_key:
  assumes "CHR '':'' \<notin> set i" "CHR '':'' \<notin> set k" "CHR ''@'' \<notin> set (i @ k @ rest)"
  shows "parse_entry n (i @ CHR '':'' # k @ CHR '':'' # rest @ CHR ''@'' # roles) = parse_entry n (i @ CHR '':'' # k @ CHR ''@'' # roles)"
proof -
  have "split_on (CHR ''@'') (i @ CHR '':'' # k @ CHR '':'' # rest @ CHR ''@'' # roles)
      = (i @ CHR '':'' # k @ CHR '':'' # rest) # split_on (CHR ''@'') roles"
    using assms split_on_append[of "CHR ''@''" "i @ CHR '':'' # k @ CHR '':'' # rest" roles] by simp
  moreover have "split_on (CHR ''@'') (i @ CHR '':'' # k @ CHR ''@'' # roles) = (i @ CHR '':'' # k) # split_on (CHR ''@'') roles"
    using assms split_on_append[of "CHR ''@''" "i @ CHR '':'' # k" roles] by simp
  ultimately show ?thesis
    using assms split_on_append[of "CHR '':''" i "k @ CHR '':'' # rest"] split_on_append[of "CHR '':''" k rest]
      split_on_append[of "CHR '':''" i k] split_on_no_sep[of "CHR '':''" k]
    by (simp add: parse_entry_def part_at_def Let_def)
qed

end
