(* ===== verification/Dashboard_Api.thy ===== *)
theory Dashboard_Api
  imports Dashboard_Access
begin

text \<open>
  The dashboard's endpoints (\<open>apps/dashboard-api/src/dashboard-query\<close>): the rules on their inputs, the controller with its
  service, and the answer to a request, from the authentication to the exception filter. Members of the input object are those of
  the query string or of the body; what the web framework answers itself is \<open>Http_Unrouted\<close>.
\<close>

section \<open>Inputs\<close>

text \<open>What the service is built with; \<open>ai_coerce\<close> and \<open>ai_number\<close> are \<open>Number\<close>, \<open>None\<close> unless a whole number.\<close>

record api =
  ai_env :: env
  ai_text :: "event_type \<Rightarrow> string"
  ai_registry :: "string list"
  ai_coerce :: "json \<Rightarrow> int option"
  ai_number :: "string \<Rightarrow> int option"
  ai_parse :: "string \<Rightarrow> json option"
  ai_render :: "backlog \<Rightarrow> string"
  ai_policy :: readiness_policy
  ai_obs :: "obs_store option"
  ai_now :: stamp

datatype field_rule = Text_Field | Choice_Field "string list" | Number_Field int "int option"

type_synonym dto = "(string \<times> bool \<times> field_rule) list"

definition DOMAIN_EVENT_TYPES :: "event_type list" where
  "DOMAIN_EVENT_TYPES =
     [BOOTSTRAP_COMPLETED, DISCOVERY_COMPLETED, ARCHITECTURE_ANALYZED, BACKLOG_PLANNED, TASK_SPLIT, RELEASE_ASSESSED,
      STATE_INTEGRITY_CHECKED, EXPORT_PREPARED, TASK_SELECTED, PROMPT_GENERATED, ROLE_EXECUTED, ROLE_TOOL_REQUESTED,
      ROLE_OBSERVATION_RECORDED, TOOL_EVIDENCE_RECORDED, APPROVAL_REQUESTED, APPROVAL_APPROVED, APPROVAL_REJECTED,
      APPROVAL_RESUMED, REVIEW_APPROVED, REVIEW_REJECTED, TEST_PASSED, TEST_FAILED, TASK_COMPLETED, TASK_BLOCKED, STATE_COMMITTED]"

abbreviation optional_text :: "string \<Rightarrow> string \<times> bool \<times> field_rule" where
  "optional_text name \<equiv> (name, True, Text_Field)"

definition HistoryQueryDto :: dto where
  "HistoryQueryDto = map optional_text [''orgId'', ''projectId'', ''runId'', ''correlationId'']
     @ [(''offset'', True, Number_Field 0 None), (''limit'', True, Number_Field 1 (Some 100))]"

definition BacklogExportQueryDto :: dto where
  "BacklogExportQueryDto = HistoryQueryDto @ [(''format'', True, Choice_Field [''json'', ''md''])]"

definition EventHistoryQueryDto :: "(event_type \<Rightarrow> string) \<Rightarrow> dto" where
  "EventHistoryQueryDto ty = HistoryQueryDto @ [(''eventType'', True, Choice_Field (map ty DOMAIN_EVENT_TYPES))]"

definition FailureHistoryQueryDto :: dto where
  "FailureHistoryQueryDto = HistoryQueryDto @ [optional_text ''taskId'']"

definition ArtifactHistoryQueryDto :: dto where
  "ArtifactHistoryQueryDto = HistoryQueryDto @ [(''type'', True, Choice_Field
     [''bootstrap_analysis'', ''architecture_analysis'', ''documentation'', ''release_assessment'', ''state_integrity_report'',
      ''integration_export'', ''optimized_prompt'', ''run_summary'', ''backlog_export'', ''plan'', ''test_plan'', ''report''])]"

definition ApprovalHistoryQueryDto :: dto where
  "ApprovalHistoryQueryDto = [(''status'', True, Choice_Field [''pending'', ''approved'', ''rejected'', ''resumed'', ''completed''])]"

definition ApprovalDecisionBodyDto :: dto where
  "ApprovalDecisionBodyDto = [(''actor'', False, Text_Field), optional_text ''reason'']"

definition RunStepEvidenceQueryDto :: dto where
  "RunStepEvidenceQueryDto = HistoryQueryDto @ [optional_text ''taskId'']"

definition TraceAuditQueryDto :: dto where
  "TraceAuditQueryDto = HistoryQueryDto @ map optional_text [''taskId'', ''role'', ''toolName'']
     @ [(''status'', True, Choice_Field [''ok'', ''error''])]"

definition AuditExportQueryDto :: dto where
  "AuditExportQueryDto = HistoryQueryDto @ [(''format'', True, Choice_Field [''json''])]"

fun obeys :: "(json \<Rightarrow> int option) \<Rightarrow> field_rule \<Rightarrow> json \<Rightarrow> bool" where
  "obeys coerce Text_Field v = (text_of v \<noteq> None)"
| "obeys coerce (Choice_Field allowed) v = (case text_of v of None \<Rightarrow> False | Some s \<Rightarrow> s \<in> set allowed)"
| "obeys coerce (Number_Field least most) v = (case coerce v of
     None \<Rightarrow> False
   | Some n \<Rightarrow> least \<le> n \<and> (case most of None \<Rightarrow> True | Some m \<Rightarrow> n \<le> m))"

text \<open>\<open>ValidationPipe\<close> with \<open>whitelist\<close> and \<open>forbidNonWhitelisted\<close>: no other members, and every member obeys its rule.\<close>

definition valid_input :: "(json \<Rightarrow> int option) \<Rightarrow> dto \<Rightarrow> json jsrec \<Rightarrow> bool" where
  "valid_input coerce d ms =
     (list_all (\<lambda>(k, v). k \<in> set (map fst d)) ms
      \<and> list_all (\<lambda>(name, opt, r). case rec_get ms name of
           None \<Rightarrow> opt | Some JNull \<Rightarrow> opt | Some JUndefined \<Rightarrow> opt | Some v \<Rightarrow> obeys coerce r v) d)"

definition input_text :: "json jsrec \<Rightarrow> string \<Rightarrow> string option" where
  "input_text ms k = (case rec_get ms k of None \<Rightarrow> None | Some v \<Rightarrow> text_of v)"

definition input_nat :: "(json \<Rightarrow> int option) \<Rightarrow> json jsrec \<Rightarrow> string \<Rightarrow> nat option" where
  "input_nat coerce ms k = (case rec_get ms k of
     None \<Rightarrow> None | Some JNull \<Rightarrow> None | Some JUndefined \<Rightarrow> None | Some v \<Rightarrow> map_option nat (coerce v))"

definition input_scope :: "json jsrec \<Rightarrow> tenant_scope" where
  "input_scope ms = \<lparr> sc_org = when_truthy (input_text ms ''orgId''), sc_project = when_truthy (input_text ms ''projectId'') \<rparr>"

definition no_scope :: tenant_scope where
  "no_scope = \<lparr> sc_org = None, sc_project = None \<rparr>"

section \<open>Endpoints\<close>

datatype endpoint =
    Ep_State | Ep_Milestones | Ep_Backlog | Ep_Backlog_Export | Ep_Events | Ep_Failures | Ep_Decisions | Ep_Artifacts
  | Ep_Run_Steps | Ep_Latest_Run | Ep_Scorecard | Ep_Production_Review | Ep_Approvals | Ep_Metrics | Ep_Audit_Export | Ep_Traces
  | Ep_Review_Bundle | Ep_Approve string | Ep_Reject string | Ep_Resume string

datatype reply =
    Re_State state_view
  | Re_Milestones "milestone_view list"
  | Re_Backlog backlog_view
  | Re_Backlog_Export string string
  | Re_Events "event_view page"
  | Re_Failures "failure_view page"
  | Re_Decisions "decision_item page"
  | Re_Artifacts "artifact_view page"
  | Re_Run_Steps "run_step list"
  | Re_Latest_Run "run_view option"
  | Re_Scorecard scorecard
  | Re_Production_Review "(artifact \<times> review_payload \<times> string option) option"
  | Re_Approvals "approval list"
  | Re_Metrics "rollup page"
  | Re_Audit_Export "audit_record list"
  | Re_Traces "span page"
  | Re_Review_Bundle "review_bundle option"
  | Re_Approval approval

fun endpoint_dto :: "(event_type \<Rightarrow> string) \<Rightarrow> endpoint \<Rightarrow> dto" where
  "endpoint_dto ty Ep_Backlog_Export = BacklogExportQueryDto"
| "endpoint_dto ty Ep_Events = EventHistoryQueryDto ty"
| "endpoint_dto ty Ep_Failures = FailureHistoryQueryDto"
| "endpoint_dto ty Ep_Artifacts = ArtifactHistoryQueryDto"
| "endpoint_dto ty Ep_Run_Steps = RunStepEvidenceQueryDto"
| "endpoint_dto ty Ep_Approvals = ApprovalHistoryQueryDto"
| "endpoint_dto ty Ep_Audit_Export = AuditExportQueryDto"
| "endpoint_dto ty Ep_Traces = TraceAuditQueryDto"
| "endpoint_dto ty (Ep_Approve rid) = ApprovalDecisionBodyDto"
| "endpoint_dto ty (Ep_Reject rid) = ApprovalDecisionBodyDto"
| "endpoint_dto ty (Ep_Resume rid) = ApprovalDecisionBodyDto"
| "endpoint_dto ty _ = HistoryQueryDto"

fun accepts_input :: "api \<Rightarrow> endpoint \<Rightarrow> json jsrec \<Rightarrow> bool" where
  "accepts_input ap Ep_Review_Bundle ms = True"
| "accepts_input ap ep ms = valid_input (ai_coerce ap) (endpoint_dto (ai_text ap) ep) ms"

definition selectBacklogContent :: "string \<times> string \<Rightarrow> string \<Rightarrow> string" where
  "selectBacklogContent view format = (if format = ''md'' then fst view else snd view)"

definition getImmutableAuditExport :: "api \<Rightarrow> string option \<Rightarrow> (store, audit_record list) act" where
  "getImmutableAuditExport ap runId = bindA (listEvents None None None) (\<lambda>events.
     ret (buildImmutableAuditLog (en_lc (ai_env ap)) (en_sha (ai_env ap)) (ai_text ap)
       (if truthy runId then filter (\<lambda>e. ev_run e = runId) events else events)))"

definition mapA :: "('a \<Rightarrow> 'b) \<Rightarrow> ('s, 'a) act \<Rightarrow> ('s, 'b) act" where
  "mapA f m = bindA m (\<lambda>x. ret (f x))"

definition span_status_of :: "string \<Rightarrow> span_status option" where
  "span_status_of s = (if s = ''ok'' then Some Span_Ok else if s = ''error'' then Some Span_Error else None)"

definition trace_query :: "json jsrec \<Rightarrow> spans_query" where
  "trace_query ms = \<lparr> tq_limit = None, tq_offset = None, tq_run = input_text ms ''runId'',
     tq_correlation = input_text ms ''correlationId'', tq_task = input_text ms ''taskId'', tq_role = input_text ms ''role'',
     tq_tool = input_text ms ''toolName'', tq_status = Option.bind (input_text ms ''status'') span_status_of \<rparr>"

text \<open>The queries; the decisions never come here.\<close>

definition read_reply :: "api \<Rightarrow> endpoint \<Rightarrow> json jsrec \<Rightarrow> (store, reply) act" where
  "read_reply ap ep ms =
     (let q = input_scope ms; limit = input_nat (ai_coerce ap) ms ''limit''; offset = input_nat (ai_coerce ap) ms ''offset'' in
      case ep of
        Ep_State \<Rightarrow> mapA Re_State (getStateSummary q)
      | Ep_Milestones \<Rightarrow> mapA Re_Milestones (getMilestones (en_lc (ai_env ap)) q)
      | Ep_Backlog \<Rightarrow> mapA Re_Backlog (getBacklog q)
      | Ep_Backlog_Export \<Rightarrow>
          (let format = or_default (input_text ms ''format'') ''json'' in
           mapA (\<lambda>view. Re_Backlog_Export format (selectBacklogContent view format)) (getBacklogExport (ai_render ap) q))
      | Ep_Events \<Rightarrow> mapA Re_Events (getEvents (ai_registry ap) no_scope limit offset
          (Option.bind (when_truthy (input_text ms ''eventType'')) (\<lambda>t. find (\<lambda>e. ai_text ap e = t) DOMAIN_EVENT_TYPES)))
      | Ep_Failures \<Rightarrow> mapA Re_Failures (getFailures no_scope limit offset (when_truthy (input_text ms ''taskId'')))
      | Ep_Decisions \<Rightarrow> mapA Re_Decisions (getDecisions no_scope limit offset)
      | Ep_Artifacts \<Rightarrow> mapA Re_Artifacts (getArtifacts no_scope limit offset (when_truthy (input_text ms ''type'')))
      | Ep_Run_Steps \<Rightarrow> mapA Re_Run_Steps (listRunSteps (en_sha (ai_env ap))
          \<lparr> sq_run = when_truthy (input_text ms ''runId''), sq_task = when_truthy (input_text ms ''taskId''), sq_limit = limit, sq_offset = offset \<rparr>)
      | Ep_Latest_Run \<Rightarrow> mapA Re_Latest_Run (getLatestRunSummary q)
      | Ep_Scorecard \<Rightarrow> mapA Re_Scorecard (getReadinessScorecard (ai_policy ap) (ai_now ap) q)
      | Ep_Production_Review \<Rightarrow>
          mapA Re_Production_Review (getLatestProductionReadinessReview (ai_parse ap) q (when_truthy (input_text ms ''runId'')))
      | Ep_Approvals \<Rightarrow> mapA Re_Approvals (getApprovals
          (Option.bind (when_truthy (input_text ms ''status'')) (\<lambda>t. find (\<lambda>st. approval_status_text st = t)
             [Approval_Pending, Approval_Approved, Approval_Rejected, Approval_Resumed, Approval_Completed])))
      | Ep_Metrics \<Rightarrow> ret (Re_Metrics (getMetricsAudit (ai_obs ap) limit offset None None))
      | Ep_Audit_Export \<Rightarrow> mapA Re_Audit_Export (getImmutableAuditExport ap (input_text ms ''runId''))
      | Ep_Traces \<Rightarrow> ret (Re_Traces (getTraceAudit (ai_obs ap) limit offset (trace_query ms)))
      | Ep_Review_Bundle \<Rightarrow> mapA Re_Review_Bundle (getReviewBundle (ai_text ap) (ai_number ap) (input_text ms ''runId''))
      | _ \<Rightarrow> throw (Js_Error PlainError [] []))"

text \<open>The three decisions, with the actor the body names.\<close>

fun decision_asked :: "endpoint \<Rightarrow> json jsrec \<Rightarrow> decision_call option" where
  "decision_asked (Ep_Approve rid) ms = Some (Approve_Call rid (or_default (input_text ms ''actor'') []) no_links)"
| "decision_asked (Ep_Reject rid) ms = Some (Reject_Call rid (or_default (input_text ms ''actor'') [])
     (or_default (input_text ms ''reason'') ''Rejected by operator'') no_links)"
| "decision_asked (Ep_Resume rid) ms = Some (Resume_Call rid (or_default (input_text ms ''actor'') []) no_links)"
| "decision_asked _ ms = None"

definition handle_request :: "api \<Rightarrow> endpoint \<Rightarrow> json jsrec \<Rightarrow> reply svc" where
  "handle_request ap ep ms = (case decision_asked ep ms of
     Some c \<Rightarrow> mapA Re_Approval (run_decision (ai_env ap) c)
   | None \<Rightarrow> on_app (read_reply ap ep ms))"

section \<open>Requests\<close>

datatype http_response = Http_Reply reply | Http_Status nat | Http_Unrouted

datatype http_error = Http_Exception nat | Other_Error js_error

text \<open>The exception filter.\<close>

fun catch_status :: "http_error \<Rightarrow> nat" where
  "catch_status (Http_Exception status) = status"
| "catch_status (Other_Error e) = 500"

definition routed :: "string \<Rightarrow> endpoint \<Rightarrow> bool" where
  "routed verb ep = (if decision_asked ep [] \<noteq> None then verb = ''POST'' else verb \<in> {''GET'', ''HEAD''})"

definition serve :: "api \<Rightarrow> token_host \<Rightarrow> api_security \<Rightarrow> http_request \<Rightarrow> endpoint \<Rightarrow> json jsrec \<Rightarrow> app \<Rightarrow> http_response \<times> app" where
  "serve ap h sc rq ep ms a = (case createDashboardAuthMiddleware h sc rq of
     Inl e \<Rightarrow> (Http_Status (catch_status (Other_Error e)), a)
   | Inr (Auth_Status n m) \<Rightarrow> (Http_Status n, a)
   | Inr (Auth_Next r) \<Rightarrow>
       if \<not> routed (hr_method r) ep then (Http_Unrouted, a)
       else if \<not> accepts_input ap ep ms then (Http_Status (catch_status (Http_Exception 400)), a)
       else (case handle_request ap ep ms a of
               (Inl e, a') \<Rightarrow> (Http_Status (catch_status (Other_Error e)), a')
             | (Inr x, a') \<Rightarrow> (Http_Reply x, a')))"

section \<open>What a request can do\<close>

definition reads_only :: "(store, 'a) act \<Rightarrow> bool" where
  "reads_only m = (\<forall>st. snd (m st) = st)"

lemma reads_only_intros:
  "reads_only load" "reads_only (ret x)" "reads_only (throw e)" "reads_only (liftA r)" "reads_only (getA f)"
  "reads_only (listEvents l o' ty)"
  by (simp_all add: reads_only_def load_def listEvents_def ret_def throw_def liftA_def getA_def)

lemma reads_only_bind: "reads_only m \<Longrightarrow> (\<And>x. reads_only (f x)) \<Longrightarrow> reads_only (bindA m f)"
  by (auto simp: reads_only_def bindA_def split: prod.split sum.split) (metis snd_conv)+

lemma reads_only_then: "reads_only m \<Longrightarrow> reads_only k \<Longrightarrow> reads_only (thenA m k)"
  by (simp add: thenA_def reads_only_bind)

lemma reads_only_map: "reads_only m \<Longrightarrow> reads_only (mapA f m)"
  by (simp add: mapA_def reads_only_bind reads_only_intros)

lemma reads_only_scoped: "reads_only (scoped q view)"
  by (simp add: scoped_def reads_only_bind reads_only_then reads_only_intros)

lemma reads_only_bundle: "reads_only (getReviewBundle ty number run)"
  unfolding getReviewBundle_def
  by (intro reads_only_bind reads_only_intros) (auto simp: Let_def reads_only_intros split: option.split)

lemma reads_only_steps: "reads_only (listRunSteps sha q)"
  unfolding listRunSteps_def by (intro reads_only_bind reads_only_intros) (auto simp: Let_def reads_only_intros)

lemma reads_only_histories:
  "reads_only (getEvents registry q l o' ty)" "reads_only (getFailures q l o' task)" "reads_only (getDecisions q l o')"
  "reads_only (getArtifacts q l o' type)" "reads_only (getApprovals status)" "reads_only (getImmutableAuditExport ap run)"
  unfolding getEvents_def getFailures_def getDecisions_def getArtifacts_def getApprovals_def getImmutableAuditExport_def normalizeHistoryQuery_def
  by (simp_all add: reads_only_bind reads_only_intros)

lemma reads_only_reply: "reads_only (read_reply ap ep ms)"
  by (cases ep)
    (simp_all add: read_reply_def Let_def reads_only_map reads_only_scoped reads_only_histories reads_only_steps reads_only_bundle
      reads_only_intros getStateSummary_def getMilestones_def getBacklog_def getBacklogExport_def getLatestRunSummary_def
      getReadinessScorecard_def getLatestProductionReadinessReview_def)

lemma snd_mapA: "snd (mapA f m s) = snd (m s)"
  by (simp add: mapA_def bindA_def ret_def split: prod.split sum.split)

lemma handle_request_state:
  "snd (handle_request ap ep ms a) = (case decision_asked ep ms of None \<Rightarrow> a | Some c \<Rightarrow> snd (run_decision (ai_env ap) c a))"
proof (cases "decision_asked ep ms")
  case None
  have "snd (read_reply ap ep ms (ap_store a)) = ap_store a" using reads_only_reply by (simp add: reads_only_def)
  then show ?thesis using None by (cases "read_reply ap ep ms (ap_store a)") (simp add: handle_request_def on_app_def)
qed (simp add: handle_request_def snd_mapA)

lemma decision_asked_any: "(decision_asked ep ms = None) = (decision_asked ep [] = None)"
  by (cases ep) simp_all

definition outcome_of :: "approval result \<times> app \<Rightarrow> http_response \<times> app" where
  "outcome_of x = (case x of (Inl e, a) \<Rightarrow> (Http_Status 500, a) | (Inr q, a) \<Rightarrow> (Http_Reply (Re_Approval q), a))"

lemma handle_decision:
  "decision_asked ep ms = Some c \<Longrightarrow>
   (case handle_request ap ep ms a of (Inl e, a') \<Rightarrow> (Http_Status (catch_status (Other_Error e)), a') | (Inr x, a') \<Rightarrow> (Http_Reply x, a'))
   = outcome_of (run_decision (ai_env ap) c a)"
  by (simp add: handle_request_def outcome_of_def mapA_def bindA_def ret_def split: prod.split sum.split)

lemma serve_refused:
  assumes "hr_method rq \<noteq> ''OPTIONS''" and "\<not> credentialed h sc rq"
  shows "\<exists>n \<in> {401, 403, 500}. serve ap h sc rq ep ms a = (Http_Status n, a)"
proof -
  have no: "createDashboardAuthMiddleware h sc rq \<noteq> Inr (Auth_Next r)" for r
    using assms middleware_exact by blast
  have st: "createDashboardAuthMiddleware h sc rq = Inr (Auth_Status n m) \<Longrightarrow> n \<in> {401, 403}" for n m
    using assms(1) by (auto simp: createDashboardAuthMiddleware_def role_verdict_def Let_def split: if_splits option.splits sum.splits)
  show ?thesis using no st
    by (cases "createDashboardAuthMiddleware h sc rq" rule: sum.exhaust) (auto simp: serve_def split: auth_verdict.split)
qed

text \<open>C39. The dashboard's interface, for every request, endpoint, input and state. Without valid credentials (the first configured
  API key with the value sent has the role \<open>dashboard.read\<close>; or no key is sent and the bearer token has three parts, is signed with the
  secret, is within its times, fits the configured issuer and audience, names a subject and has the role) a request that is not
  \<open>OPTIONS\<close> is answered 401, 403 or 500 and changes nothing. What changes the state is a \<open>POST\<close> with valid credentials to one of the
  three approval endpoints, and then it does exactly what that decision of the approval service does. Conversely the role for reading is
  enough: such a \<open>POST\<close> with a valid body is carried out for the actor its body names, whoever sent it, and an error of the service,
  also one about the caller's request, is answered 500.\<close>

theorem api_serves_credentialed:
  "(if hr_method rq \<noteq> ''OPTIONS'' \<and> \<not> credentialed h sc rq
    then \<exists>n \<in> {401, 403, 500}. serve ap h sc rq ep ms a = (Http_Status n, a) else True)
   \<and> (if snd (serve ap h sc rq ep ms a) \<noteq> a
      then credentialed h sc rq \<and> hr_method rq = ''POST''
           \<and> (\<exists>c. decision_asked ep ms = Some c \<and> snd (serve ap h sc rq ep ms a) = snd (run_decision (ai_env ap) c a)) else True)
   \<and> (if credentialed h sc rq \<and> hr_method rq = ''POST'' \<and> valid_input (ai_coerce ap) ApprovalDecisionBodyDto ms
      then case decision_asked ep ms of None \<Rightarrow> serve ap h sc rq ep ms a = (Http_Unrouted, a)
           | Some c \<Rightarrow> serve ap h sc rq ep ms a = outcome_of (run_decision (ai_env ap) c a) else True)"
proof -
  have keep: "hr_method (passed_on rq) = hr_method rq" by (simp add: passed_on_def)
  have changed: "credentialed h sc rq \<and> hr_method rq = ''POST''
      \<and> (\<exists>c. decision_asked ep ms = Some c \<and> snd (serve ap h sc rq ep ms a) = snd (run_decision (ai_env ap) c a))"
    if d: "snd (serve ap h sc rq ep ms a) \<noteq> a"
  proof -
    obtain r where r: "createDashboardAuthMiddleware h sc rq = Inr (Auth_Next r)" "routed (hr_method r) ep" "accepts_input ap ep ms"
      using d by (auto simp: serve_def split: sum.splits auth_verdict.splits if_splits)
    have s: "snd (serve ap h sc rq ep ms a) = snd (handle_request ap ep ms a)"
      using r by (cases "handle_request ap ep ms a") (auto simp: serve_def split: sum.split)
    obtain c where c: "decision_asked ep ms = Some c" "snd (handle_request ap ep ms a) = snd (run_decision (ai_env ap) c a)"
      using d s handle_request_state[of ap ep ms a] by (cases "decision_asked ep ms") auto
    have p: "hr_method r = ''POST''" using r(2) c(1) decision_asked_any[of ep ms] by (simp add: routed_def split: if_splits)
    have "hr_method rq \<noteq> ''OPTIONS''" using r(1) p by (auto simp: createDashboardAuthMiddleware_def)
    then have "credentialed h sc rq" "hr_method rq = ''POST''" using middleware_exact[of rq h sc r] r(1) p keep by auto
    then show ?thesis using c s by simp
  qed
  have carried: "case decision_asked ep ms of None \<Rightarrow> serve ap h sc rq ep ms a = (Http_Unrouted, a)
           | Some c \<Rightarrow> serve ap h sc rq ep ms a = outcome_of (run_decision (ai_env ap) c a)"
    if g: "credentialed h sc rq" "hr_method rq = ''POST''" "valid_input (ai_coerce ap) ApprovalDecisionBodyDto ms"
  proof (cases "decision_asked ep ms")
    case None
    have m: "createDashboardAuthMiddleware h sc rq = Inr (Auth_Next (passed_on rq))" using middleware_exact[of rq h sc] g by simp
    have "\<not> routed ''POST'' ep" using None decision_asked_any[of ep ms] by (simp add: routed_def)
    then show ?thesis using None m g(2) keep by (simp add: serve_def)
  next
    case (Some c)
    have m: "createDashboardAuthMiddleware h sc rq = Inr (Auth_Next (passed_on rq))" using middleware_exact[of rq h sc] g by simp
    have "routed ''POST'' ep" "accepts_input ap ep ms"
      using Some g(3) decision_asked_any[of ep ms] by (simp add: routed_def, cases ep) simp_all
    then show ?thesis using Some m g(2) keep handle_decision[OF Some, of ap a] by (simp add: serve_def)
  qed
  show ?thesis using serve_refused[of rq h sc ap ep ms a] changed carried by simp
qed

end
