(* ===== verification/Redis_Locks.thy ===== *)
theory Redis_Locks
  imports Locks
begin

text \<open>
  The lock store for several workers on a Redis server
  (\<open>packages/execution/src/locks/distributed-lock-store-factory.ts\<close>). The server is an argument \<open>exec\<close>, which answers one command
  at a time; what the store relies on is its documented behaviour, \<open>documented_redis\<close>. A call of the store is a program of
  commands, and between two commands of one caller any other caller may run: \<open>redis_run\<close> is every interleaving, with callers
  that stop half-way and keys that expire at any moment. A stored text is the JSON of a lease and stands for it, since the text
  determines the lease.
\<close>

section \<open>Commands and programs\<close>

text \<open>The last three commands are the three scripts of the store.\<close>

datatype redis_command =
    Incr string
  | Set_Nx string lock_lease int
  | Get_Key string
  | Swap_If string lock_lease lock_lease int
  | Del_If string lock_lease
  | Equal_If string lock_lease

datatype redis_reply = Reply_Num nat | Reply_Ok | Reply_Nil | Reply_Value "lock_lease option" | Reply_Error

datatype outcome =
    Out_Acquire acquire_result
  | Out_Renew lease_check
  | Out_Release release_result
  | Out_Validate lease_check
  | Out_Throw js_error

datatype prog = Done outcome | Cmd redis_command "redis_reply \<Rightarrow> prog"

definition redisLeaseKey :: "string \<Rightarrow> string" where
  "redisLeaseKey resource = ''ai-orchestrator:fencing:lease:'' @ resource"

definition redisFencingCounterKey :: "string \<Rightarrow> string" where
  "redisFencingCounterKey resource = ''ai-orchestrator:fencing:counter:'' @ resource"

definition asLease :: "acquire_input \<Rightarrow> nat \<Rightarrow> lock_lease result" where
  "asLease i token = (case to_iso (num_add (date_ms (aq_now i)) (aq_ttl i)) of
     Inl e \<Rightarrow> Inl e
   | Inr expires \<Rightarrow> Inr \<lparr> ll_resource = aq_resource i, ll_owner = aq_owner i, ll_token = token, ll_acquired = aq_now i,
       ll_expires = expires \<rparr>)"

definition renewLease :: "lock_lease \<Rightarrow> stamp \<Rightarrow> int \<Rightarrow> lock_lease result" where
  "renewLease l now ttl = (case to_iso (num_add (date_ms now) ttl) of Inl e \<Rightarrow> Inl e | Inr expires \<Rightarrow> Inr (l\<lparr>ll_expires := expires\<rparr>))"

definition redis_failure :: js_error where
  "redis_failure = Js_Error PlainError ''ReplyError'' []"

definition isRedisOk :: "redis_reply \<Rightarrow> bool" where
  "isRedisOk r = (r = Reply_Ok)"

definition read_value :: "redis_reply \<Rightarrow> lock_lease option" where
  "read_value r = (case r of Reply_Value v \<Rightarrow> v | _ \<Rightarrow> None)"

text \<open>The parts of a call after its first command.\<close>

definition acquire_refused :: "string \<Rightarrow> lock_lease \<Rightarrow> prog" where
  "acquire_refused key lease = Cmd (Get_Key key) (\<lambda>r. if r = Reply_Error then Done (Out_Throw redis_failure)
     else Done (Out_Acquire (Already_Locked (case read_value r of Some cur \<Rightarrow> cur | None \<Rightarrow> lease))))"

definition acquire_set :: "string \<Rightarrow> lock_lease \<Rightarrow> int \<Rightarrow> prog" where
  "acquire_set key lease ttl = Cmd (Set_Nx key lease ttl) (\<lambda>r. if r = Reply_Error then Done (Out_Throw redis_failure)
     else if \<not> isRedisOk r then acquire_refused key lease
     else Done (Out_Acquire (Acquired lease)))"

definition redis_acquire :: "acquire_input \<Rightarrow> prog" where
  "redis_acquire i = Cmd (Incr (redisFencingCounterKey (aq_resource i))) (\<lambda>r. case r of
     Reply_Num token \<Rightarrow> (case asLease i token of
         Inl e \<Rightarrow> Done (Out_Throw e)
       | Inr lease \<Rightarrow> acquire_set (redisLeaseKey (aq_resource i)) lease (aq_ttl i))
   | _ \<Rightarrow> Done (Out_Throw redis_failure))"

definition renew_swap :: "string \<Rightarrow> lock_lease \<Rightarrow> lock_lease \<Rightarrow> int \<Rightarrow> prog" where
  "renew_swap key cur renewed ttl = Cmd (Swap_If key cur renewed ttl) (\<lambda>r. if r = Reply_Error then Done (Out_Throw redis_failure)
     else Done (Out_Renew (if r = Reply_Num 1 then Lease_Ok renewed else Lease_Refused Stale_Fencing_Token (Some cur))))"

definition redis_renew :: "renew_input \<Rightarrow> prog" where
  "redis_renew i = (let key = redisLeaseKey (rn_resource i) in
     Cmd (Get_Key key) (\<lambda>r. if r = Reply_Error then Done (Out_Throw redis_failure)
     else (case read_value r of
         None \<Rightarrow> Done (Out_Renew (Lease_Refused Missing_Lock None))
       | Some cur \<Rightarrow> (case validateLease cur (rn_owner i) (rn_token i) (rn_now i) of
             Some why \<Rightarrow> Done (Out_Renew (Lease_Refused why (Some cur)))
           | None \<Rightarrow> (case renewLease cur (rn_now i) (rn_ttl i) of
                 Inl e \<Rightarrow> Done (Out_Throw e)
               | Inr renewed \<Rightarrow> renew_swap key cur renewed (rn_ttl i))))))"

definition release_del :: "string \<Rightarrow> lock_lease \<Rightarrow> prog" where
  "release_del key cur = Cmd (Del_If key cur) (\<lambda>r. if r = Reply_Error then Done (Out_Throw redis_failure)
     else Done (Out_Release (if r = Reply_Num 1 then Lock_Released else Not_Released Stale_Fencing_Token (Some cur))))"

definition redis_release :: "string \<Rightarrow> string \<Rightarrow> nat \<Rightarrow> prog" where
  "redis_release resource owner token = (let key = redisLeaseKey resource in
     Cmd (Get_Key key) (\<lambda>r. if r = Reply_Error then Done (Out_Throw redis_failure)
     else (case read_value r of
         None \<Rightarrow> Done (Out_Release (Not_Released Missing_Lock None))
       | Some cur \<Rightarrow>
           if ll_owner cur \<noteq> owner then Done (Out_Release (Not_Released Owner_Mismatch (Some cur)))
           else if ll_token cur \<noteq> token then Done (Out_Release (Not_Released Stale_Fencing_Token (Some cur)))
           else release_del key cur)))"

definition validate_equal :: "string \<Rightarrow> lock_lease \<Rightarrow> prog" where
  "validate_equal key cur = Cmd (Equal_If key cur) (\<lambda>r. if r = Reply_Error then Done (Out_Throw redis_failure)
     else Done (Out_Validate (if r = Reply_Num 1 then Lease_Ok cur else Lease_Refused Stale_Fencing_Token (Some cur))))"

definition redis_validate :: "string \<Rightarrow> string \<Rightarrow> nat \<Rightarrow> stamp \<Rightarrow> prog" where
  "redis_validate resource owner token now = (let key = redisLeaseKey resource in
     Cmd (Get_Key key) (\<lambda>r. if r = Reply_Error then Done (Out_Throw redis_failure)
     else (case read_value r of
         None \<Rightarrow> Done (Out_Validate (Lease_Refused Missing_Lock None))
       | Some cur \<Rightarrow> (case validateLease cur owner token now of
             Some why \<Rightarrow> Done (Out_Validate (Lease_Refused why (Some cur)))
           | None \<Rightarrow> validate_equal key cur))))"

section \<open>The choice of a store\<close>

datatype lock_backend = Redis_Backend string | Postgres_Backend string | Etcd_Backend string | Memory_Backend

definition requireDsn :: "string option \<Rightarrow> string \<Rightarrow> string result" where
  "requireDsn dsn provider = (if \<not> truthy dsn
     then Inl (Js_Error ConfigError (''workflow.runLockDsn is required when workflow.runLockProvider='' @ provider) [])
     else Inr (the dsn))"

definition createDistributedLockStore :: "string option \<Rightarrow> string option \<Rightarrow> lock_backend result" where
  "createDistributedLockStore runLockProvider dsn = (let provider = or_default runLockProvider ''noop'' in
     if provider = ''redis'' then map_sum id Redis_Backend (requireDsn dsn provider)
     else if provider = ''postgresql'' then map_sum id Postgres_Backend (requireDsn dsn provider)
     else if provider = ''etcd'' then map_sum id Etcd_Backend (requireDsn dsn provider)
     else Inr Memory_Backend)"

section \<open>The server and its callers\<close>

text \<open>What the documentation of Redis says of the commands; \<open>val\<close> and \<open>cnt\<close> read the values and the counters. Redis has one space
  of keys; the two are apart here because the prefixes of \<open>redisLeaseKey\<close> and \<open>redisFencingCounterKey\<close> keep the store's keys apart. The
  store checks a lease with its own copy of \<open>validateLease\<close>, which reads like that of the in-memory store.\<close>

definition documented_redis ::
  "(redis_command \<Rightarrow> 's \<Rightarrow> redis_reply \<times> 's) \<Rightarrow> ('s \<Rightarrow> string \<Rightarrow> lock_lease option) \<Rightarrow> ('s \<Rightarrow> string \<Rightarrow> nat) \<Rightarrow> bool" where
  "documented_redis exec val cnt = (\<forall>s k l l' t.
     (\<exists>s'. exec (Incr k) s = (Reply_Num (Suc (cnt s k)), s') \<and> cnt s' = (cnt s)(k := Suc (cnt s k)) \<and> val s' = val s)
     \<and> (if t \<le> 0 then exec (Set_Nx k l t) s = (Reply_Error, s)
        else if val s k = None then (\<exists>s'. exec (Set_Nx k l t) s = (Reply_Ok, s') \<and> val s' = (val s)(k \<mapsto> l) \<and> cnt s' = cnt s)
        else exec (Set_Nx k l t) s = (Reply_Nil, s))
     \<and> exec (Get_Key k) s = (Reply_Value (val s k), s)
     \<and> (if val s k \<noteq> Some l then exec (Swap_If k l l' t) s = (Reply_Num 0, s)
        else if t \<le> 0 then exec (Swap_If k l l' t) s = (Reply_Error, s)
        else (\<exists>s'. exec (Swap_If k l l' t) s = (Reply_Num 1, s') \<and> val s' = (val s)(k \<mapsto> l') \<and> cnt s' = cnt s))
     \<and> (if val s k \<noteq> Some l then exec (Del_If k l) s = (Reply_Num 0, s)
        else (\<exists>s'. exec (Del_If k l) s = (Reply_Num 1, s') \<and> val s' = (val s)(k := None) \<and> cnt s' = cnt s))
     \<and> exec (Equal_If k l) s = (Reply_Num (if val s k = Some l then 1 else 0), s))"

datatype lock_call =
    Call_Acquire acquire_input
  | Call_Renew renew_input
  | Call_Release string string nat
  | Call_Validate string string nat stamp

fun call_prog :: "lock_call \<Rightarrow> prog" where
  "call_prog (Call_Acquire i) = redis_acquire i"
| "call_prog (Call_Renew i) = redis_renew i"
| "call_prog (Call_Release resource owner token) = redis_release resource owner token"
| "call_prog (Call_Validate resource owner token now) = redis_validate resource owner token now"

text \<open>The server, what each caller has left to do, the leases granted so far (newest first) and every answer with the grants
  before it.\<close>

record 's lock_net =
  nt_server :: 's
  nt_progs :: "nat \<Rightarrow> prog option"
  nt_grants :: "lock_lease list"
  nt_log :: "(outcome \<times> lock_lease list) list"

fun granted :: "outcome \<Rightarrow> lock_lease list" where
  "granted (Out_Acquire (Acquired l)) = [l]"
| "granted _ = []"

fun settle :: "nat \<Rightarrow> prog \<Rightarrow> 's lock_net \<Rightarrow> 's lock_net" where
  "settle i (Done x) n = n\<lparr> nt_progs := (nt_progs n)(i := None), nt_grants := granted x @ nt_grants n, nt_log := (x, nt_grants n) # nt_log n \<rparr>"
| "settle i p n = n\<lparr> nt_progs := (nt_progs n)(i \<mapsto> p) \<rparr>"

inductive redis_run ::
  "(redis_command \<Rightarrow> 's \<Rightarrow> redis_reply \<times> 's) \<Rightarrow> ('s \<Rightarrow> string \<Rightarrow> lock_lease option) \<Rightarrow> ('s \<Rightarrow> string \<Rightarrow> nat) \<Rightarrow> 's \<Rightarrow> 's lock_net \<Rightarrow> bool"
  for exec val cnt s0 where
  start: "redis_run exec val cnt s0 \<lparr> nt_server = s0, nt_progs = (\<lambda>_. None), nt_grants = [], nt_log = [] \<rparr>"
| call: "redis_run exec val cnt s0 n \<Longrightarrow> nt_progs n i = None \<Longrightarrow>
    redis_run exec val cnt s0 (n\<lparr> nt_progs := (nt_progs n)(i \<mapsto> call_prog c) \<rparr>)"
| command: "redis_run exec val cnt s0 n \<Longrightarrow> nt_progs n i = Some (Cmd q k) \<Longrightarrow> exec q (nt_server n) = (r, s') \<Longrightarrow>
    redis_run exec val cnt s0 (settle i (k r) (n\<lparr> nt_server := s' \<rparr>))"
| crash: "redis_run exec val cnt s0 n \<Longrightarrow> redis_run exec val cnt s0 (n\<lparr> nt_progs := (nt_progs n)(i := None) \<rparr>)"
| expiry: "redis_run exec val cnt s0 n \<Longrightarrow> (\<And>k. val s' k = None \<or> val s' k = val (nt_server n) k) \<Longrightarrow> cnt s' = cnt (nt_server n) \<Longrightarrow>
    redis_run exec val cnt s0 (n\<lparr> nt_server := s' \<rparr>)"

section \<open>What one command does\<close>

definition same_grant :: "lock_lease \<Rightarrow> lock_lease \<Rightarrow> bool" where
  "same_grant l g = (ll_resource l = ll_resource g \<and> ll_owner l = ll_owner g \<and> ll_token l = ll_token g)"

definition newest :: "string \<Rightarrow> lock_lease list \<Rightarrow> lock_lease option" where
  "newest resource gs = find (\<lambda>g. ll_resource g = resource) gs"

text \<open>The lease a program is about to store.\<close>

fun pending :: "prog \<Rightarrow> lock_lease option" where
  "pending (Cmd (Set_Nx k l t) c) = Some l"
| "pending _ = None"

definition known :: "prog \<Rightarrow> bool" where
  "known p = ((\<exists>c. p = call_prog c) \<or> (\<exists>l t. p = acquire_set (redisLeaseKey (ll_resource l)) l t) \<or> (\<exists>k l. p = acquire_refused k l)
     \<or> (\<exists>k l l' t. p = renew_swap k l l' t \<and> same_grant l' l) \<or> (\<exists>k l. p = release_del k l) \<or> (\<exists>k l. p = validate_equal k l))"

datatype effect =
    Counted string "lock_lease option"
  | Granted lock_lease
  | Swapped string lock_lease lock_lease
  | Deleted string
  | Quiet

text \<open>The effect of a command on the values and counters of the server, with what its program goes on to do.\<close>

fun has_effect :: "(string \<Rightarrow> lock_lease option) \<Rightarrow> (string \<Rightarrow> nat) \<Rightarrow> (string \<Rightarrow> lock_lease option) \<Rightarrow> (string \<Rightarrow> nat) \<Rightarrow> prog \<Rightarrow> prog \<Rightarrow> effect \<Rightarrow> bool" where
  "has_effect v c v' c' p p' (Counted r ol) = (v' = v \<and> c' = c(redisFencingCounterKey r := Suc (c (redisFencingCounterKey r)))
     \<and> (case ol of None \<Rightarrow> (\<exists>e. p' = Done (Out_Throw e))
        | Some l \<Rightarrow> (\<exists>t. p' = acquire_set (redisLeaseKey r) l t) \<and> ll_resource l = r \<and> ll_token l = Suc (c (redisFencingCounterKey r))))"
| "has_effect v c v' c' p p' (Granted l) = (pending p = Some l \<and> v (redisLeaseKey (ll_resource l)) = None
     \<and> v' = v(redisLeaseKey (ll_resource l) \<mapsto> l) \<and> c' = c \<and> p' = Done (Out_Acquire (Acquired l)))"
| "has_effect v c v' c' p p' (Swapped k l l') = (v k = Some l \<and> v' = v(k \<mapsto> l') \<and> same_grant l' l \<and> c' = c \<and> p' = Done (Out_Renew (Lease_Ok l')))"
| "has_effect v c v' c' p p' (Deleted k) = (v' = v(k := None) \<and> c' = c \<and> p' = Done (Out_Release Lock_Released))"
| "has_effect v c v' c' p p' Quiet = (v' = v \<and> c' = c \<and> pending p' = None
     \<and> (case p' of Cmd q k \<Rightarrow> known p'
        | Done x \<Rightarrow> granted x = [] \<and> (\<forall>l. x \<noteq> Out_Renew (Lease_Ok l)) \<and> (\<forall>l. x = Out_Validate (Lease_Ok l) \<longrightarrow> (\<exists>k. v k = Some l))))"

lemma documented:
  assumes "documented_redis exec val cnt"
  shows "\<exists>s'. exec (Incr k) s = (Reply_Num (Suc (cnt s k)), s') \<and> cnt s' = (cnt s)(k := Suc (cnt s k)) \<and> val s' = val s"
    and "t \<le> 0 \<Longrightarrow> exec (Set_Nx k l t) s = (Reply_Error, s)"
    and "0 < t \<Longrightarrow> val s k = None \<Longrightarrow> \<exists>s'. exec (Set_Nx k l t) s = (Reply_Ok, s') \<and> val s' = (val s)(k \<mapsto> l) \<and> cnt s' = cnt s"
    and "0 < t \<Longrightarrow> val s k \<noteq> None \<Longrightarrow> exec (Set_Nx k l t) s = (Reply_Nil, s)"
    and "exec (Get_Key k) s = (Reply_Value (val s k), s)"
    and "val s k \<noteq> Some l \<Longrightarrow> exec (Swap_If k l l' t) s = (Reply_Num 0, s)"
    and "val s k = Some l \<Longrightarrow> t \<le> 0 \<Longrightarrow> exec (Swap_If k l l' t) s = (Reply_Error, s)"
    and "val s k = Some l \<Longrightarrow> 0 < t \<Longrightarrow> \<exists>s'. exec (Swap_If k l l' t) s = (Reply_Num 1, s') \<and> val s' = (val s)(k \<mapsto> l') \<and> cnt s' = cnt s"
    and "val s k \<noteq> Some l \<Longrightarrow> exec (Del_If k l) s = (Reply_Num 0, s)"
    and "val s k = Some l \<Longrightarrow> \<exists>s'. exec (Del_If k l) s = (Reply_Num 1, s') \<and> val s' = (val s)(k := None) \<and> cnt s' = cnt s"
    and "exec (Equal_If k l) s = (Reply_Num (if val s k = Some l then 1 else 0), s)"
  using assms[unfolded documented_redis_def, THEN spec[of _ s], THEN spec[of _ k], THEN spec[of _ l], THEN spec[of _ l'], THEN spec[of _ t]]
  by (simp_all split: if_splits)


lemma pending_simps [simp]:
  "pending (acquire_set k l t) = Some l" "pending (acquire_refused k l) = None" "pending (renew_swap k l l' t) = None"
  "pending (release_del k l) = None" "pending (validate_equal k l) = None" "pending (call_prog c) = None"
  by (cases c; simp add: acquire_set_def acquire_refused_def renew_swap_def release_del_def validate_equal_def redis_acquire_def
      redis_renew_def redis_release_def redis_validate_def Let_def)+

lemma known_parts [intro]:
  "known (call_prog c)" "known (acquire_set (redisLeaseKey (ll_resource l)) l t)" "known (acquire_refused k l)"
  "same_grant l' l \<Longrightarrow> known (renew_swap k l l' t)" "known (release_del k l)" "known (validate_equal k l)"
  unfolding known_def by blast+

lemma asLease_parts: "asLease i token = Inr l \<Longrightarrow> ll_resource l = aq_resource i \<and> ll_token l = token"
  by (auto simp: asLease_def split: sum.splits)

lemma renewLease_same: "renewLease l now ttl = Inr l' \<Longrightarrow> same_grant l' l"
  by (auto simp: renewLease_def same_grant_def split: sum.splits)

lemma quiet_done: "granted x = [] \<Longrightarrow> (\<And>l. x \<noteq> Out_Renew (Lease_Ok l)) \<Longrightarrow> (\<And>l. x \<noteq> Out_Validate (Lease_Ok l)) \<Longrightarrow>
    has_effect v c v c p (Done x) Quiet"
  by simp

lemma quiet_cmd: "known p' \<Longrightarrow> pending p' = None \<Longrightarrow> (\<And>x. p' \<noteq> Done x) \<Longrightarrow> has_effect v c v c p p' Quiet"
  by (cases p') auto

lemma parts_not_done [simp]: "acquire_refused k l \<noteq> Done x" "renew_swap k l l' t \<noteq> Done x" "release_del k l \<noteq> Done x" "validate_equal k l \<noteq> Done x"
  by (simp_all add: acquire_refused_def renew_swap_def release_del_def validate_equal_def)

lemma acquire_effect:
  assumes "documented_redis exec val cnt" "redis_acquire i = Cmd q k" "exec q s = (r, s')"
  shows "\<exists>e. has_effect (val s) (cnt s) (val s') (cnt s') (Cmd q k) (k r) e"
proof -
  let ?k = "redisFencingCounterKey (aq_resource i)"
  have q: "q = Incr ?k" using assms(2) by (simp add: redis_acquire_def)
  obtain s2 where "exec (Incr ?k) s = (Reply_Num (Suc (cnt s ?k)), s2)" "cnt s2 = (cnt s)(?k := Suc (cnt s ?k))" "val s2 = val s"
    using documented(1)[OF assms(1)] by blast
  then have r: "r = Reply_Num (Suc (cnt s ?k))" "cnt s' = (cnt s)(?k := Suc (cnt s ?k))" "val s' = val s"
    using assms(3) q by auto
  show ?thesis
  proof (cases "asLease i (Suc (cnt s ?k))")
    case (Inl e)
    then have "k r = Done (Out_Throw e)" using assms(2) r by (auto simp: redis_acquire_def)
    then show ?thesis using r by (intro exI[of _ "Counted (aq_resource i) None"]) simp
  next
    case (Inr l)
    then have "k r = acquire_set (redisLeaseKey (aq_resource i)) l (aq_ttl i)" using assms(2) r by (auto simp: redis_acquire_def)
    then show ?thesis using r asLease_parts[OF Inr] by (intro exI[of _ "Counted (aq_resource i) (Some l)"]) auto
  qed
qed

lemma set_effect:
  assumes d: "documented_redis exec val cnt" and "acquire_set (redisLeaseKey (ll_resource l)) l t = Cmd q k" "exec q s = (r, s')"
  shows "\<exists>e. has_effect (val s) (cnt s) (val s') (cnt s') (Cmd q k) (k r) e"
proof -
  let ?k = "redisLeaseKey (ll_resource l)"
  have q: "q = Set_Nx ?k l t" and k: "k = (\<lambda>r. if r = Reply_Error then Done (Out_Throw redis_failure)
     else if \<not> isRedisOk r then acquire_refused ?k l else Done (Out_Acquire (Acquired l)))"
    using assms(2) by (simp_all add: acquire_set_def)
  consider "t \<le> 0" | "0 < t" "val s ?k = None" | "0 < t" "val s ?k \<noteq> None" by linarith
  then show ?thesis
  proof cases
    case 1
    then have "r = Reply_Error" "s' = s" using documented(2)[OF d 1] assms(3) q by auto
    then show ?thesis by (intro exI[of _ Quiet]) (simp add: k)
  next
    case 2
    then show ?thesis using documented(3)[OF d 2, of l] assms(3)
      by (intro exI[of _ "Granted l"]) (auto simp: k q isRedisOk_def)
  next
    case 3
    then have "r = Reply_Nil" "s' = s" using documented(4)[OF d 3, of l] assms(3) q by auto
    then show ?thesis using quiet_cmd[OF known_parts(3) pending_simps(2) parts_not_done(1)]
      by (intro exI[of _ Quiet]) (simp only: k isRedisOk_def, simp)
  qed
qed

text \<open>After a command that answers with the stored value, what follows is quiet.\<close>

lemma get_effect:
  assumes d: "documented_redis exec val cnt" and e: "exec (Get_Key key) s = (r, s')"
    and next_prog: "\<And>v. (\<exists>x. k (Reply_Value v) = Done x \<and> granted x = [] \<and> (\<forall>l. x \<noteq> Out_Renew (Lease_Ok l)) \<and> (\<forall>l. x \<noteq> Out_Validate (Lease_Ok l)))
      \<or> (known (k (Reply_Value v)) \<and> pending (k (Reply_Value v)) = None \<and> (\<forall>x. k (Reply_Value v) \<noteq> Done x))"
  shows "has_effect (val s) (cnt s) (val s') (cnt s') p (k r) Quiet"
proof -
  have "r = Reply_Value (val s key)" "s' = s" using documented(5)[OF d, of key s] e by simp_all
  then show ?thesis using next_prog[of "val s key"] quiet_done quiet_cmd by metis
qed

lemma refused_effect:
  assumes "documented_redis exec val cnt" "acquire_refused key l = Cmd q k" "exec q s = (r, s')"
  shows "has_effect (val s) (cnt s) (val s') (cnt s') (Cmd q k) (k r) Quiet"
proof -
  have q: "q = Get_Key key" using assms(2) by (simp add: acquire_refused_def)
  show ?thesis
    by (rule get_effect[OF assms(1) assms(3)[unfolded q]]) (use assms(2) in \<open>auto simp: acquire_refused_def\<close>)
qed

lemma renew_effect:
  assumes "documented_redis exec val cnt" "redis_renew i = Cmd q k" "exec q s = (r, s')"
  shows "has_effect (val s) (cnt s) (val s') (cnt s') (Cmd q k) (k r) Quiet"
proof -
  have q: "q = Get_Key (redisLeaseKey (rn_resource i))" using assms(2) by (simp add: redis_renew_def Let_def)
  show ?thesis
  proof (rule get_effect[OF assms(1) assms(3)[unfolded q]], goal_cases)
    case (1 v)
    show ?case using assms(2)
      by (auto simp: redis_renew_def Let_def read_value_def intro: known_parts(4)[OF renewLease_same] split: option.splits sum.splits)
  qed
qed

lemma release_effect:
  assumes "documented_redis exec val cnt" "redis_release res owner token = Cmd q k" "exec q s = (r, s')"
  shows "has_effect (val s) (cnt s) (val s') (cnt s') (Cmd q k) (k r) Quiet"
proof -
  have q: "q = Get_Key (redisLeaseKey res)" using assms(2) by (simp add: redis_release_def Let_def)
  show ?thesis
  proof (rule get_effect[OF assms(1) assms(3)[unfolded q]], goal_cases)
    case (1 v)
    show ?case using assms(2) by (cases v) (auto simp: redis_release_def Let_def read_value_def split: if_splits)
  qed
qed

lemma validate_effect:
  assumes "documented_redis exec val cnt" "redis_validate res owner token now = Cmd q k" "exec q s = (r, s')"
  shows "has_effect (val s) (cnt s) (val s') (cnt s') (Cmd q k) (k r) Quiet"
proof -
  have q: "q = Get_Key (redisLeaseKey res)" using assms(2) by (simp add: redis_validate_def Let_def)
  show ?thesis
  proof (rule get_effect[OF assms(1) assms(3)[unfolded q]], goal_cases)
    case (1 v)
    show ?case using assms(2)
      by (cases v; cases "validateLease (the v) owner token now") (auto simp: redis_validate_def Let_def read_value_def)
  qed
qed

lemma swap_effect:
  assumes d: "documented_redis exec val cnt" and "renew_swap key l l' t = Cmd q k" "exec q s = (r, s')" "same_grant l' l"
  shows "\<exists>e. has_effect (val s) (cnt s) (val s') (cnt s') (Cmd q k) (k r) e"
proof -
  have q: "q = Swap_If key l l' t" and k: "k = (\<lambda>r. if r = Reply_Error then Done (Out_Throw redis_failure)
     else Done (Out_Renew (if r = Reply_Num 1 then Lease_Ok l' else Lease_Refused Stale_Fencing_Token (Some l))))"
    using assms(2) by (simp_all add: renew_swap_def)
  consider "val s key \<noteq> Some l" | "val s key = Some l" "t \<le> 0" | "val s key = Some l" "0 < t" by linarith
  then show ?thesis
  proof cases
    case 1
    then show ?thesis using documented(6)[OF d 1, of l' t] assms(3) by (intro exI[of _ Quiet]) (auto simp: k q)
  next
    case 2
    then show ?thesis using documented(7)[OF d 2, of l'] assms(3) by (intro exI[of _ Quiet]) (auto simp: k q)
  next
    case 3
    then show ?thesis using documented(8)[OF d 3, of l'] assms(3,4) by (intro exI[of _ "Swapped key l l'"]) (auto simp: k q)
  qed
qed

lemma del_effect:
  assumes d: "documented_redis exec val cnt" and "release_del key l = Cmd q k" "exec q s = (r, s')"
  shows "\<exists>e. has_effect (val s) (cnt s) (val s') (cnt s') (Cmd q k) (k r) e"
proof -
  have q: "q = Del_If key l" and k: "k = (\<lambda>r. if r = Reply_Error then Done (Out_Throw redis_failure)
     else Done (Out_Release (if r = Reply_Num 1 then Lock_Released else Not_Released Stale_Fencing_Token (Some l))))"
    using assms(2) by (simp_all add: release_del_def)
  show ?thesis
  proof (cases "val s key = Some l")
    case True
    then show ?thesis using documented(10)[OF d True] assms(3) by (intro exI[of _ "Deleted key"]) (auto simp: k q)
  next
    case False
    then show ?thesis using documented(9)[OF d False] assms(3) by (intro exI[of _ Quiet]) (auto simp: k q)
  qed
qed

lemma equal_effect:
  assumes d: "documented_redis exec val cnt" and "validate_equal key l = Cmd q k" "exec q s = (r, s')"
  shows "has_effect (val s) (cnt s) (val s') (cnt s') (Cmd q k) (k r) Quiet"
proof -
  have q: "q = Equal_If key l" and k: "k = (\<lambda>r. if r = Reply_Error then Done (Out_Throw redis_failure)
     else Done (Out_Validate (if r = Reply_Num 1 then Lease_Ok l else Lease_Refused Stale_Fencing_Token (Some l))))"
    using assms(2) by (simp_all add: validate_equal_def)
  show ?thesis using documented(11)[OF d, of key l s] assms(3) by (auto simp: k q split: if_splits)
qed

lemma step_effect:
  assumes "documented_redis exec val cnt" "known (Cmd q k)" "exec q s = (r, s')"
  shows "\<exists>e. has_effect (val s) (cnt s) (val s') (cnt s') (Cmd q k) (k r) e"
proof -
  note d = assms(1) and x = assms(3)
  from assms(2)[unfolded known_def] consider c where "Cmd q k = call_prog c"
    | l t where "Cmd q k = acquire_set (redisLeaseKey (ll_resource l)) l t" | key l where "Cmd q k = acquire_refused key l"
    | key l l' t where "Cmd q k = renew_swap key l l' t" "same_grant l' l" | key l where "Cmd q k = release_del key l"
    | key l where "Cmd q k = validate_equal key l" by blast
  then show ?thesis
  proof cases
    case 1
    show ?thesis
    proof (cases c)
      case (Call_Acquire i)
      then have "redis_acquire i = Cmd q k" using 1 by simp
      from acquire_effect[OF d this x] show ?thesis by blast
    next
      case (Call_Renew i)
      then have "redis_renew i = Cmd q k" using 1 by simp
      from renew_effect[OF d this x] show ?thesis by blast
    next
      case (Call_Release res own tok)
      then have "redis_release res own tok = Cmd q k" using 1 by simp
      from release_effect[OF d this x] show ?thesis by blast
    next
      case (Call_Validate res own tok now)
      then have "redis_validate res own tok now = Cmd q k" using 1 by simp
      from validate_effect[OF d this x] show ?thesis by blast
    qed
  next
    case 2
    then show ?thesis using set_effect[OF d _ x] by metis
  next
    case 3
    then show ?thesis using refused_effect[OF d _ x] by metis
  next
    case 4
    then show ?thesis using swap_effect[OF d _ x] by metis
  next
    case 5
    then show ?thesis using del_effect[OF d _ x] by metis
  next
    case 6
    then show ?thesis using equal_effect[OF d _ x] by metis
  qed
qed

section \<open>What every interleaving keeps\<close>

abbreviation counter_key :: "lock_lease \<Rightarrow> string" where
  "counter_key l \<equiv> redisFencingCounterKey (ll_resource l)"

definition tok_id :: "lock_lease \<Rightarrow> string \<times> nat" where
  "tok_id l = (ll_resource l, ll_token l)"

definition held_by_newest :: "(string \<Rightarrow> lock_lease option) \<Rightarrow> lock_lease list \<Rightarrow> bool" where
  "held_by_newest v gs = (\<forall>k l. v k = Some l \<longrightarrow>
     k = redisLeaseKey (ll_resource l) \<and> (\<exists>g. newest (ll_resource l) gs = Some g \<and> same_grant l g))"

definition counted :: "(string \<Rightarrow> nat) \<Rightarrow> (nat \<Rightarrow> lock_lease option) \<Rightarrow> lock_lease list \<Rightarrow> bool" where
  "counted c cl gs = (distinct (map tok_id gs)
     \<and> (\<forall>g \<in> set gs. ll_token g \<le> c (counter_key g))
     \<and> (\<forall>i l. cl i = Some l \<longrightarrow> ll_token l \<le> c (counter_key l) \<and> tok_id l \<notin> tok_id ` set gs)
     \<and> (\<forall>i j l l'. cl i = Some l \<longrightarrow> cl j = Some l' \<longrightarrow> tok_id l = tok_id l' \<longrightarrow> i = j))"

lemma key_inj [simp]: "redisLeaseKey r = redisLeaseKey r' \<longleftrightarrow> r = r'" "redisFencingCounterKey r = redisFencingCounterKey r' \<longleftrightarrow> r = r'"
  by (simp_all add: redisLeaseKey_def redisFencingCounterKey_def)

lemma counted_drop: "counted c cl gs \<Longrightarrow> counted c (cl(i := None)) gs"
  unfolding counted_def by (auto split: if_splits)

lemma counted_up: "counted c cl gs \<Longrightarrow> counted (c(k := Suc (c k))) cl gs"
  unfolding counted_def by (auto simp: le_Suc_eq)

lemma counted_claim:
  assumes n: "counted c cl gs" and l: "ll_token l = Suc (c (counter_key l))"
  shows "counted (c(counter_key l := Suc (c (counter_key l)))) (cl(i := Some l)) gs"
proof -
  have fresh: "tok_id g \<noteq> tok_id l" if "ll_token g \<le> c (counter_key g)" for g
    using that l by (auto simp: tok_id_def)
  have "tok_id l \<notin> tok_id ` set gs" using n fresh unfolding counted_def by (metis imageE)
  moreover have other: "tok_id l' \<noteq> tok_id l" if "cl j = Some l'" for j l' using n fresh that unfolding counted_def by blast
  moreover have "counted (c(counter_key l := Suc (c (counter_key l)))) cl gs" using n by (rule counted_up)
  ultimately show ?thesis using l unfolding counted_def by (auto split: if_splits dest: other[THEN not_sym])
qed

lemma counted_grant: "counted c cl gs \<Longrightarrow> cl i = Some l \<Longrightarrow> counted c (cl(i := None)) (l # gs)"
  unfolding counted_def by (auto split: if_splits)

lemma newest_Cons: "newest r (g # gs) = (if ll_resource g = r then Some g else newest r gs)"
  by (simp add: newest_def)

lemma same_grant_trans: "same_grant a b \<Longrightarrow> same_grant b c \<Longrightarrow> same_grant a c"
  by (simp add: same_grant_def)

lemma newest_grant:
  assumes h: "held_by_newest v gs" and f: "v (redisLeaseKey (ll_resource l)) = None"
  shows "held_by_newest (v(redisLeaseKey (ll_resource l) \<mapsto> l)) (l # gs)"
  unfolding held_by_newest_def
proof (intro allI impI)
  fix k x
  assume x: "(v(redisLeaseKey (ll_resource l) \<mapsto> l)) k = Some x"
  show "k = redisLeaseKey (ll_resource x) \<and> (\<exists>g. newest (ll_resource x) (l # gs) = Some g \<and> same_grant x g)"
  proof (cases "k = redisLeaseKey (ll_resource l)")
    case True
    then show ?thesis using x by (simp add: newest_Cons same_grant_def)
  next
    case False
    then have vk: "v k = Some x" using x by simp
    then have "k = redisLeaseKey (ll_resource x)" using h by (simp add: held_by_newest_def)
    then show ?thesis using h vk False unfolding held_by_newest_def newest_Cons by auto
  qed
qed

lemma newest_swap:
  assumes "held_by_newest v gs" "v k = Some l" "same_grant l' l"
  shows "held_by_newest (v(k \<mapsto> l')) gs"
  using assms same_grant_trans[OF assms(3)] unfolding held_by_newest_def by (auto simp: same_grant_def)

lemma newest_less: "held_by_newest v gs \<Longrightarrow> (\<And>k. v' k = None \<or> v' k = v k) \<Longrightarrow> held_by_newest v' gs"
  unfolding held_by_newest_def by (metis option.distinct(1))

text \<open>What a renewal or a validation that succeeds attests.\<close>

fun attested :: "outcome \<Rightarrow> lock_lease list \<Rightarrow> bool" where
  "attested (Out_Renew (Lease_Ok l)) gs = (\<exists>g. newest (ll_resource l) gs = Some g \<and> same_grant l g)"
| "attested (Out_Validate (Lease_Ok l)) gs = (\<exists>g. newest (ll_resource l) gs = Some g \<and> same_grant l g)"
| "attested x gs = True"

definition claims :: "'s lock_net \<Rightarrow> nat \<Rightarrow> lock_lease option" where
  "claims n = (\<lambda>i. Option.bind (nt_progs n i) pending)"

definition net_ok :: "('s \<Rightarrow> string \<Rightarrow> lock_lease option) \<Rightarrow> ('s \<Rightarrow> string \<Rightarrow> nat) \<Rightarrow> 's lock_net \<Rightarrow> bool" where
  "net_ok val cnt n = (counted (cnt (nt_server n)) (claims n) (nt_grants n) \<and> held_by_newest (val (nt_server n)) (nt_grants n)
     \<and> (\<forall>i p. nt_progs n i = Some p \<longrightarrow> known p) \<and> (\<forall>e \<in> set (nt_log n). attested (fst e) (snd e)))"

lemma claims_settle: "claims (settle i p n) = (claims n)(i := pending p)"
  by (cases p) (auto simp: claims_def)

lemma claims_server [simp]: "claims (n\<lparr>nt_server := s\<rparr>) = claims n"
  by (simp add: claims_def)

lemma known_settle:
  "(\<forall>j q. nt_progs n j = Some q \<longrightarrow> known q) \<Longrightarrow> (\<And>q k. p = Cmd q k \<Longrightarrow> known p) \<Longrightarrow> nt_progs (settle i p n) j = Some q \<Longrightarrow> known q"
  by (cases p) (auto split: if_splits)

fun settled_grants :: "prog \<Rightarrow> lock_lease list \<Rightarrow> lock_lease list" where
  "settled_grants (Done x) gs = granted x @ gs"
| "settled_grants (Cmd q k) gs = gs"

lemma net_ok_intro:
  assumes n: "net_ok val cnt n"
    and "counted (cnt s') ((claims n)(i := pending p')) (settled_grants p' (nt_grants n))"
    and "held_by_newest (val s') (settled_grants p' (nt_grants n))"
    and "\<And>q k. p' = Cmd q k \<Longrightarrow> known p'" and "\<And>x. p' = Done x \<Longrightarrow> attested x (nt_grants n)"
  shows "net_ok val cnt (settle i p' (n\<lparr>nt_server := s'\<rparr>))"
proof -
  have k: "\<forall>j q. nt_progs n j = Some q \<longrightarrow> known q" "\<forall>e \<in> set (nt_log n). attested (fst e) (snd e)"
    using n unfolding net_ok_def by auto
  show ?thesis
    using assms(2-5) k known_settle[of "n\<lparr>nt_server := s'\<rparr>" p' i] unfolding net_ok_def claims_settle
    by (cases p') auto
qed

lemma net_ok_settle:
  assumes n: "net_ok val cnt n" and i: "nt_progs n i = Some p"
    and e: "has_effect (val (nt_server n)) (cnt (nt_server n)) (val s') (cnt s') p p' e"
  shows "net_ok val cnt (settle i p' (n\<lparr>nt_server := s'\<rparr>))"
proof -
  let ?v = "val (nt_server n)" and ?c = "cnt (nt_server n)" and ?gs = "nt_grants n"
  have ok: "counted ?c (claims n) ?gs" "held_by_newest ?v ?gs" using n unfolding net_ok_def by auto
  note drop = counted_drop[OF ok(1), of i]
  show ?thesis
  proof (cases e)
    case (Counted r ol)
    show ?thesis
    proof (cases ol)
      case None
      then obtain x where x: "p' = Done (Out_Throw x)" and s': "val s' = ?v" "cnt s' = ?c(redisFencingCounterKey r := Suc (?c (redisFencingCounterKey r)))"
        using e Counted by auto
      show ?thesis by (rule net_ok_intro[OF n]) (simp_all add: x s' ok(2) counted_up[OF drop])
    next
      case (Some l)
      then obtain t where p': "p' = acquire_set (redisLeaseKey r) l t" and l: "ll_resource l = r" "ll_token l = Suc (?c (redisFencingCounterKey r))"
        and s': "val s' = ?v" "cnt s' = ?c(redisFencingCounterKey r := Suc (?c (redisFencingCounterKey r)))"
        using e Counted by auto
      have k: "known p'" using p' l by auto
      have g: "settled_grants p' gs = gs" and nd: "p' \<noteq> Done x" for gs x by (simp_all add: p' acquire_set_def)
      have c: "counted (cnt s') ((claims n)(i := pending p')) ?gs" using counted_claim[OF ok(1), of l i] l s' p' by simp
      show ?thesis
        by (rule net_ok_intro[OF n]) (use k nd c ok(2) in \<open>simp_all add: g s' del: fun_upd_apply\<close>)
    qed
  next
    case (Granted l)
    then have g: "pending p = Some l" "?v (redisLeaseKey (ll_resource l)) = None" "val s' = ?v(redisLeaseKey (ll_resource l) \<mapsto> l)" "cnt s' = ?c"
      "p' = Done (Out_Acquire (Acquired l))" using e by simp_all
    have "claims n i = Some l" using i g(1) by (simp add: claims_def)
    then show ?thesis
      by (intro net_ok_intro[OF n]) (auto simp: g counted_grant[OF ok(1)] newest_grant[OF ok(2) g(2)] simp del: fun_upd_apply)
  next
    case (Swapped k l l')
    then have g: "?v k = Some l" "val s' = ?v(k \<mapsto> l')" "same_grant l' l" "cnt s' = ?c" "p' = Done (Out_Renew (Lease_Ok l'))" using e by simp_all
    have h: "held_by_newest (?v(k \<mapsto> l')) ?gs" by (rule newest_swap[OF ok(2) g(1,3)])
    have "(?v(k \<mapsto> l')) k = Some l'" by simp
    then have t: "attested (Out_Renew (Lease_Ok l')) ?gs" using h unfolding held_by_newest_def by (simp del: fun_upd_apply)
    show ?thesis by (rule net_ok_intro[OF n]) (use t in \<open>auto simp: g h drop simp del: fun_upd_apply\<close>)
  next
    case (Deleted k)
    then have g: "val s' = ?v(k := None)" "cnt s' = ?c" "p' = Done (Out_Release Lock_Released)" using e by simp_all
    have h: "held_by_newest (?v(k := None)) ?gs" by (rule newest_less[OF ok(2)]) simp
    show ?thesis by (rule net_ok_intro[OF n]) (auto simp: g h drop simp del: fun_upd_apply)
  next
    case Quiet
    then have g: "val s' = ?v" "cnt s' = ?c" "pending p' = None" using e by simp_all
    show ?thesis
    proof (cases p')
      case (Done x)
      then have x: "granted x = []" "\<forall>l. x \<noteq> Out_Renew (Lease_Ok l)" "\<forall>l. x = Out_Validate (Lease_Ok l) \<longrightarrow> (\<exists>k. ?v k = Some l)"
        using e Quiet by simp_all
      have t: "attested x ?gs" using x(2,3) ok(2) unfolding held_by_newest_def by (cases "(x, ?gs)" rule: attested.cases) auto
      show ?thesis by (rule net_ok_intro[OF n]) (simp_all add: Done g x(1) t ok(2) drop)
    next
      case (Cmd q k)
      then have kn: "known p'" using e Quiet by simp
      show ?thesis by (rule net_ok_intro[OF n]) (use kn in \<open>simp_all add: Cmd g[unfolded Cmd] ok(2) drop\<close>)
    qed
  qed
qed

theorem redis_run_ok:
  assumes d: "documented_redis exec val cnt" and fresh: "val s0 = (\<lambda>_. None)" and run: "redis_run exec val cnt s0 n"
  shows "net_ok val cnt n"
  using run
proof induction
  case start
  then show ?case using fresh by (simp add: net_ok_def counted_def held_by_newest_def claims_def)
next
  case (call n i c)
  have "claims (n\<lparr>nt_progs := (nt_progs n)(i \<mapsto> call_prog c)\<rparr>) = (claims n)(i := None)" by (auto simp: claims_def)
  then show ?case using call counted_drop[of _ "claims n"] by (auto simp: net_ok_def)
next
  case (command n i q k r s')
  then have "known (Cmd q k)" by (auto simp: net_ok_def)
  from step_effect[OF d this command(3)] obtain e where
    "has_effect (val (nt_server n)) (cnt (nt_server n)) (val s') (cnt s') (Cmd q k) (k r) e" by blast
  from net_ok_settle[OF command(4,2) this] show ?case .
next
  case (crash n i)
  have "claims (n\<lparr>nt_progs := (nt_progs n)(i := None)\<rparr>) = (claims n)(i := None)" by (auto simp: claims_def)
  then show ?case using crash counted_drop[of _ "claims n"] by (auto simp: net_ok_def)
next
  case (expiry n s')
  then show ?case using newest_less[of "val (nt_server n)" _ "val s'"] by (auto simp: net_ok_def)
qed

section \<open>A run in which the newer lease has the smaller token\<close>

definition reaches ::
  "(redis_command \<Rightarrow> 's \<Rightarrow> redis_reply \<times> 's) \<Rightarrow> ('s \<Rightarrow> string \<Rightarrow> lock_lease option) \<Rightarrow> ('s \<Rightarrow> string \<Rightarrow> nat) \<Rightarrow> 's \<Rightarrow>
   (nat \<Rightarrow> prog option) \<Rightarrow> lock_lease list \<Rightarrow> (string \<Rightarrow> lock_lease option) \<Rightarrow> (string \<Rightarrow> nat) \<Rightarrow> bool" where
  "reaches exec val cnt s0 P gs v c = (\<exists>n. redis_run exec val cnt s0 n \<and> nt_progs n = P \<and> nt_grants n = gs
     \<and> val (nt_server n) = v \<and> cnt (nt_server n) = c)"

lemma reaches_call: "reaches exec val cnt s0 P gs v c \<Longrightarrow> P i = None \<Longrightarrow> reaches exec val cnt s0 (P(i \<mapsto> call_prog q)) gs v c"
  unfolding reaches_def by (metis (no_types, lifting) call lock_net.select_convs(1) lock_net.simps lock_net.surjective)

lemma reaches_command:
  assumes r: "reaches exec val cnt s0 P gs v c" and i: "P i = Some (Cmd q k)"
    and e: "\<And>s. val s = v \<Longrightarrow> cnt s = c \<Longrightarrow> \<exists>s'. exec q s = (r, s') \<and> val s' = v' \<and> cnt s' = c'"
  shows "reaches exec val cnt s0 (P(i := (case k r of Done x \<Rightarrow> None | p \<Rightarrow> Some p))) (settled_grants (k r) gs) v' c'"
proof -
  from r obtain n where n: "redis_run exec val cnt s0 n" "nt_progs n = P" "nt_grants n = gs" "val (nt_server n) = v" "cnt (nt_server n) = c"
    unfolding reaches_def by blast
  obtain s' where s': "exec q (nt_server n) = (r, s')" "val s' = v'" "cnt s' = c'" using e n(4,5) by blast
  have "redis_run exec val cnt s0 (settle i (k r) (n\<lparr>nt_server := s'\<rparr>))"
    using command[OF n(1) _ s'(1)] i n(2) by simp
  then show ?thesis unfolding reaches_def
    by (intro exI[of _ "settle i (k r) (n\<lparr>nt_server := s'\<rparr>)"]) (cases "k r"; simp add: n s')
qed

lemma reaches_incr:
  assumes d: "documented_redis exec val cnt" and r: "reaches exec val cnt s0 P gs v c" and i: "P i = Some (redis_acquire a)"
    and l: "asLease a (Suc (c (redisFencingCounterKey (aq_resource a)))) = Inr l"
  shows "reaches exec val cnt s0 (P(i \<mapsto> acquire_set (redisLeaseKey (aq_resource a)) l (aq_ttl a))) gs v
    (c(redisFencingCounterKey (aq_resource a) := Suc (c (redisFencingCounterKey (aq_resource a)))))"
proof -
  let ?k = "redisFencingCounterKey (aq_resource a)"
  obtain q k where p: "redis_acquire a = Cmd q k" by (simp add: redis_acquire_def)
  have q: "q = Incr ?k" and k: "k (Reply_Num (Suc (c ?k))) = acquire_set (redisLeaseKey (aq_resource a)) l (aq_ttl a)"
    using p l by (auto simp: redis_acquire_def)
  obtain q' k' where s: "acquire_set (redisLeaseKey (aq_resource a)) l (aq_ttl a) = Cmd q' k'" by (simp add: acquire_set_def)
  have "\<exists>s'. exec q s = (Reply_Num (Suc (c ?k)), s') \<and> val s' = v \<and> cnt s' = c(?k := Suc (c ?k))" if "val s = v" "cnt s = c" for s
    using documented(1)[OF d, of ?k s] that q by auto
  from reaches_command[where v' = v and c' = "c(?k := Suc (c ?k))", OF r i[unfolded p] this] show ?thesis by (simp add: k s)
qed

lemma reaches_set:
  assumes d: "documented_redis exec val cnt" and r: "reaches exec val cnt s0 P gs v c" and i: "P i = Some (acquire_set key l t)"
    and f: "0 < t" "v key = None"
  shows "reaches exec val cnt s0 (P(i := None)) (l # gs) (v(key \<mapsto> l)) c"
proof -
  have "\<exists>s'. exec (Set_Nx key l t) s = (Reply_Ok, s') \<and> val s' = v(key \<mapsto> l) \<and> cnt s' = c" if "val s = v" "cnt s = c" for s
    using documented(3)[OF d f(1), of s key l] f(2) that by auto
  from reaches_command[where v' = "v(key \<mapsto> l)" and c' = c, OF r i[unfolded acquire_set_def] this] show ?thesis by (simp add: isRedisOk_def)
qed

lemma reaches_release:
  assumes d: "documented_redis exec val cnt" and r: "reaches exec val cnt s0 P gs v c"
    and i: "P i = Some (redis_release res (ll_owner l) (ll_token l))" and l: "v (redisLeaseKey res) = Some l"
  shows "reaches exec val cnt s0 (P(i := None)) gs (v(redisLeaseKey res := None)) c"
proof -
  let ?k = "redisLeaseKey res"
  have g: "\<exists>s'. exec (Get_Key ?k) s = (Reply_Value (Some l), s') \<and> val s' = v \<and> cnt s' = c" if "val s = v" "cnt s = c" for s
    using documented(5)[OF d, of ?k s] that l by auto
  have "reaches exec val cnt s0 (P(i \<mapsto> release_del ?k l)) gs v c"
    using reaches_command[where v' = v and c' = c, OF r i[unfolded redis_release_def Let_def] g] by (simp add: read_value_def release_del_def)
  note r2 = this
  have dl: "\<exists>s'. exec (Del_If ?k l) s = (Reply_Num 1, s') \<and> val s' = v(?k := None) \<and> cnt s' = c" if "val s = v" "cnt s = c" for s
    using documented(10)[OF d, of s ?k l] that l by auto
  show ?thesis
    using reaches_command[where v' = "v(?k := None)" and c' = c and i = i, OF r2 _ dl] by (simp add: release_del_def)
qed

definition caller :: "string \<Rightarrow> string \<Rightarrow> acquire_input" where
  "caller res owner = \<lparr> aq_resource = res, aq_owner = owner, aq_now = Iso 0, aq_ttl = 1000 \<rparr>"

definition lease_for :: "string \<Rightarrow> string \<Rightarrow> nat \<Rightarrow> lock_lease" where
  "lease_for res owner token = \<lparr> ll_resource = res, ll_owner = owner, ll_token = token, ll_acquired = Iso 0, ll_expires = Iso 1000 \<rparr>"

lemma asLease_caller: "asLease (caller res owner) token = Inr (lease_for res owner token)"
  by (simp add: asLease_def caller_def lease_for_def to_iso_def num_add_def)

lemma tokens_can_fall:
  assumes d: "documented_redis exec val cnt" and fresh: "val s0 = (\<lambda>_. None)"
  shows "\<exists>n older newer. redis_run exec val cnt s0 n \<and> nt_grants n = [newer, older] \<and> ll_resource newer = res \<and> ll_resource older = res
    \<and> ll_token newer < ll_token older \<and> val (nt_server n) (redisLeaseKey res) = Some newer"
proof -
  let ?c = "cnt s0" and ?ck = "redisFencingCounterKey res" and ?k = "redisLeaseKey res"
  let ?m = "?c ?ck" and ?set = "\<lambda>o' t. acquire_set (redisLeaseKey res) (lease_for res o' t) 1000"
  let ?a = "lease_for res ''a'' (Suc ?m)" and ?b = "lease_for res ''b'' (Suc (Suc ?m))"
  have c: "aq_resource (caller res o') = res" "aq_ttl (caller res o') = 1000" for o' by (simp_all add: caller_def)
  have "reaches exec val cnt s0 (\<lambda>_. None) [] (\<lambda>_. None) ?c" unfolding reaches_def using start fresh by fastforce
  from reaches_call[OF this, of 0 "Call_Acquire (caller res ''a'')"]
  have "reaches exec val cnt s0 [0 \<mapsto> redis_acquire (caller res ''a'')] [] (\<lambda>_. None) ?c" by simp
  from reaches_incr[OF d this, of 0 "caller res ''a''", OF _ asLease_caller]
  have "reaches exec val cnt s0 [0 \<mapsto> ?set ''a'' (Suc ?m)] [] (\<lambda>_. None) (?c(?ck := Suc ?m))" by (simp add: c)
  from reaches_call[OF this, of 1 "Call_Acquire (caller res ''b'')"]
  have "reaches exec val cnt s0 [0 \<mapsto> ?set ''a'' (Suc ?m), 1 \<mapsto> redis_acquire (caller res ''b'')] [] (\<lambda>_. None) (?c(?ck := Suc ?m))" by simp
  from reaches_incr[OF d this, of 1 "caller res ''b''", OF _ asLease_caller]
  have "reaches exec val cnt s0 [0 \<mapsto> ?set ''a'' (Suc ?m), 1 \<mapsto> ?set ''b'' (Suc (Suc ?m))] [] (\<lambda>_. None) (?c(?ck := Suc (Suc ?m)))"
    by (simp add: c)
  from reaches_set[OF d this, of 1]
  have "reaches exec val cnt s0 [0 \<mapsto> ?set ''a'' (Suc ?m)] [?b] [?k \<mapsto> ?b] (?c(?ck := Suc (Suc ?m)))" by (simp add: fun_upd_idem)
  from reaches_call[OF this, of 1 "Call_Release res (ll_owner ?b) (ll_token ?b)"]
  have "reaches exec val cnt s0 [0 \<mapsto> ?set ''a'' (Suc ?m), 1 \<mapsto> redis_release res (ll_owner ?b) (ll_token ?b)] [?b] [?k \<mapsto> ?b] (?c(?ck := Suc (Suc ?m)))"
    by simp
  from reaches_release[OF d this, of 1 res ?b]
  have "reaches exec val cnt s0 [0 \<mapsto> ?set ''a'' (Suc ?m)] [?b] (\<lambda>_. None) (?c(?ck := Suc (Suc ?m)))" by (simp add: fun_upd_idem)
  from reaches_set[OF d this, of 0]
  have "reaches exec val cnt s0 (\<lambda>_. None) [?a, ?b] [?k \<mapsto> ?a] (?c(?ck := Suc (Suc ?m)))" by (simp add: fun_upd_idem)
  then obtain n where "redis_run exec val cnt s0 n" "nt_grants n = [?a, ?b]" "val (nt_server n) = [?k \<mapsto> ?a]" unfolding reaches_def by blast
  then show ?thesis by (intro exI[of _ n] exI[of _ ?b] exI[of _ ?a]) (simp add: lease_for_def)
qed

text \<open>C40. The Redis lock store under every interleaving of the commands of its callers, with callers that stop half-way and keys that
  expire at any moment, on any server that behaves as documented and starts without leases. No fencing token of a resource is granted
  twice; what is stored for a resource is the lease granted last, renewals aside; and a renewal or a validation that succeeds was, at
  its last command, for the lease granted last. But the tokens do not grow as those of the in-memory store do: the counter is
  incremented in a command of its own before the lease is set, so there is a run in which the resource is granted under a token smaller
  than the one granted before it, and whoever fences by growing tokens refuses the only holder.\<close>

theorem redis_tokens_unique_not_ordered:
  assumes "documented_redis exec val cnt" and "val s0 = (\<lambda>_. None)"
  shows "(\<forall>n. redis_run exec val cnt s0 n \<longrightarrow>
       distinct (map tok_id (nt_grants n))
       \<and> (\<forall>res l. val (nt_server n) (redisLeaseKey res) = Some l \<longrightarrow> (\<exists>g. newest res (nt_grants n) = Some g \<and> same_grant l g))
       \<and> (\<forall>x gs l. (x, gs) \<in> set (nt_log n) \<longrightarrow> x \<in> {Out_Renew (Lease_Ok l), Out_Validate (Lease_Ok l)} \<longrightarrow>
            (\<exists>g. newest (ll_resource l) gs = Some g \<and> same_grant l g)))
     \<and> (\<exists>n older newer. redis_run exec val cnt s0 n \<and> nt_grants n = [newer, older] \<and> ll_resource newer = ''r'' \<and> ll_resource older = ''r''
          \<and> ll_token newer < ll_token older \<and> val (nt_server n) (redisLeaseKey ''r'') = Some newer)"
proof (intro conjI allI impI)
  fix n assume "redis_run exec val cnt s0 n"
  then have ok: "net_ok val cnt n" by (rule redis_run_ok[OF assms])
  then show "distinct (map tok_id (nt_grants n))" by (simp add: net_ok_def counted_def)
  fix res l assume "val (nt_server n) (redisLeaseKey res) = Some l"
  then show "\<exists>g. newest res (nt_grants n) = Some g \<and> same_grant l g"
    using ok unfolding net_ok_def held_by_newest_def by (metis key_inj(1))
next
  fix n x gs l assume "redis_run exec val cnt s0 n" and x: "(x, gs) \<in> set (nt_log n)" "x \<in> {Out_Renew (Lease_Ok l), Out_Validate (Lease_Ok l)}"
  then have "net_ok val cnt n" by (intro redis_run_ok[OF assms])
  then have "attested x gs" using x(1) by (fastforce simp: net_ok_def)
  then show "\<exists>g. newest (ll_resource l) gs = Some g \<and> same_grant l g" using x(2) by auto
qed (rule tokens_can_fall[OF assms])

text \<open>A server that behaves as documented.\<close>

fun sample_redis :: "redis_command \<Rightarrow> (string \<Rightarrow> lock_lease option) \<times> (string \<Rightarrow> nat) \<Rightarrow> redis_reply \<times> ((string \<Rightarrow> lock_lease option) \<times> (string \<Rightarrow> nat))" where
  "sample_redis (Incr k) (v, c) = (Reply_Num (Suc (c k)), (v, c(k := Suc (c k))))"
| "sample_redis (Set_Nx k l t) (v, c) = (if t \<le> 0 then (Reply_Error, (v, c)) else if v k = None then (Reply_Ok, (v(k \<mapsto> l), c)) else (Reply_Nil, (v, c)))"
| "sample_redis (Get_Key k) (v, c) = (Reply_Value (v k), (v, c))"
| "sample_redis (Swap_If k l l' t) (v, c) = (if v k \<noteq> Some l then (Reply_Num 0, (v, c)) else if t \<le> 0 then (Reply_Error, (v, c)) else (Reply_Num 1, (v(k \<mapsto> l'), c)))"
| "sample_redis (Del_If k l) (v, c) = (if v k \<noteq> Some l then (Reply_Num 0, (v, c)) else (Reply_Num 1, (v(k := None), c)))"
| "sample_redis (Equal_If k l) (v, c) = (Reply_Num (if v k = Some l then 1 else 0), (v, c))"

lemma sample_redis_documented: "documented_redis sample_redis fst snd"
  unfolding documented_redis_def by auto

lemma redis_tokens_unique_not_ordered_witness:
  "\<exists>n older newer. redis_run sample_redis fst snd (\<lambda>_. None, \<lambda>_. 0) n \<and> nt_grants n = [newer, older] \<and> ll_resource newer = ''r''
     \<and> ll_resource older = ''r'' \<and> ll_token newer < ll_token older \<and> fst (nt_server n) (redisLeaseKey ''r'') = Some newer"
  using redis_tokens_unique_not_ordered[OF sample_redis_documented, of "(\<lambda>_. None, \<lambda>_. 0)"] by simp

end
