(* ===== verification/Language_Models.thy ===== *)
theory Language_Models
  imports Dashboard Runtime_Config
begin

text \<open>
  The clients of the language models (\<open>packages/llm/src/index.ts\<close>): what is sent, how an answer is read, and every way to fail.
  The network is an argument: the request's address, headers and body give the answer's \<open>ok\<close> and text, or nothing when the
  request fails or takes too long. \<open>JSON.parse\<close> is an argument; an \<open>LlmProviderError\<close> is an error with its message.
\<close>

datatype llm_provider = Openai | Anthropic | Mock_Provider

record llm_input =
  li_provider :: llm_provider
  li_model :: string
  li_apiKey :: "string option"
  li_temperature :: json
  li_mockOutputs :: "json list option"

record llm_request =
  lq_schemaName :: string
  lq_prompt :: string
  lq_schema :: json

record http_call =
  hc_url :: string
  hc_headers :: "string jsrec"
  hc_body :: json

type_synonym network = "http_call \<Rightarrow> (bool \<times> string) option"

definition provider_error :: "string \<Rightarrow> js_error" where
  "provider_error m = Js_Error PlainError m []"

definition requireApiKey :: "llm_input \<Rightarrow> string \<Rightarrow> string result" where
  "requireApiKey i providerName = (if \<not> truthy (map_option js_trim (li_apiKey i))
     then Inl (provider_error (providerName @ '' provider requires llm.apiKey'')) else Inr (the (li_apiKey i)))"

definition fetchWithTimeout :: "network \<Rightarrow> http_call \<Rightarrow> (bool \<times> string) result" where
  "fetchWithTimeout net c = (case net c of None \<Rightarrow> Inl (provider_error ''LLM provider request failed'') | Some x \<Rightarrow> Inr x)"

definition parseJsonResponse :: "(string \<Rightarrow> json option) \<Rightarrow> bool \<times> string \<Rightarrow> string \<Rightarrow> json result" where
  "parseJsonResponse parse response providerName =
     (if \<not> fst response then Inl (provider_error (providerName @ '' returned an error response''))
      else (case parse (snd response) of None \<Rightarrow> Inl (provider_error (providerName @ '' response was not valid JSON'')) | Some v \<Rightarrow> Inr v))"

definition parseGeneratedObject :: "(string \<Rightarrow> json option) \<Rightarrow> string \<Rightarrow> string \<Rightarrow> json result" where
  "parseGeneratedObject parse text' providerName = (case parse text' of
     None \<Rightarrow> Inl (provider_error (providerName @ '' did not return a valid structured JSON object'')) | Some v \<Rightarrow> Inr v)"

fun isRecord :: "json \<Rightarrow> bool" where
  "isRecord (JObj kvs) = True"
| "isRecord _ = False"

fun list_of :: "json option \<Rightarrow> json list option" where
  "list_of (Some (JArr xs)) = Some xs"
| "list_of _ = None"

definition text_parts :: "json list \<Rightarrow> string list" where
  "text_parts entries = List.map_filter (\<lambda>e. text_member e ''text'') entries"

definition content_texts :: "json \<Rightarrow> string list" where
  "content_texts item = (case list_of (rec_get (members_of item) ''content'') of None \<Rightarrow> [] | Some cs \<Rightarrow> text_parts cs)"

definition joined_texts :: "string list \<Rightarrow> string" where
  "joined_texts parts = js_trim (join [CHR 0x0A] parts)"

definition readOpenAiOutputText :: "json \<Rightarrow> string result" where
  "readOpenAiOutputText payload =
     (if \<not> isRecord payload then Inl (provider_error ''OpenAI response payload must be an object'')
      else if truthy (map_option js_trim (text_member payload ''output_text'')) then Inr (the (text_member payload ''output_text''))
      else (case list_of (rec_get (members_of payload) ''output'') of
          None \<Rightarrow> Inl (provider_error ''OpenAI response is missing output text'')
        | Some output \<Rightarrow>
            (let t = joined_texts (concat (map content_texts output)) in
             if t = [] then Inl (provider_error ''OpenAI response output text was empty'') else Inr t)))"

definition readAnthropicOutputText :: "json \<Rightarrow> string result" where
  "readAnthropicOutputText payload = (case list_of (rec_get (members_of payload) ''content'') of
     None \<Rightarrow> Inl (provider_error ''Anthropic response is missing content text'')
   | Some entries \<Rightarrow>
       (let t = joined_texts (text_parts entries) in
        if t = [] then Inl (provider_error ''Anthropic response content text was empty'') else Inr t))"

definition readAnthropicStructuredOutput :: "(string \<Rightarrow> json option) \<Rightarrow> json \<Rightarrow> json result" where
  "readAnthropicStructuredOutput parse payload =
     (if \<not> isRecord payload then Inl (provider_error ''Anthropic response payload must be an object'')
      else (case rec_get (members_of payload) ''parsed_output'' of
          Some v \<Rightarrow> Inr v
        | None \<Rightarrow> rbind (readAnthropicOutputText payload) (\<lambda>t. parseGeneratedObject parse t ''Anthropic Messages API'')))"

section \<open>Clients\<close>

definition openai_call :: "llm_input \<Rightarrow> string \<Rightarrow> llm_request \<Rightarrow> http_call" where
  "openai_call i key q = \<lparr> hc_url = ''https://api.openai.com/v1/responses'',
     hc_headers = [(''authorization'', ''Bearer '' @ key), (''content-type'', ''application/json'')],
     hc_body = JObj [(''model'', JStr (li_model i)), (''input'', JStr (lq_prompt q)), (''temperature'', li_temperature i),
       (''text'', JObj [(''format'', JObj [(''type'', JStr ''json_schema''), (''name'', JStr (lq_schemaName q)),
          (''schema'', lq_schema q), (''strict'', JBool True)])])] \<rparr>"

definition anthropic_call :: "llm_input \<Rightarrow> string \<Rightarrow> llm_request \<Rightarrow> http_call" where
  "anthropic_call i key q = \<lparr> hc_url = ''https://api.anthropic.com/v1/messages'',
     hc_headers = [(''x-api-key'', key), (''anthropic-version'', ''2023-06-01''), (''content-type'', ''application/json'')],
     hc_body = JObj [(''model'', JStr (li_model i)), (''max_tokens'', JNum 4096), (''temperature'', li_temperature i),
       (''output_config'', JObj [(''format'', JObj [(''type'', JStr ''json_schema''), (''schema'', lq_schema q)])]),
       (''messages'', JArr [JObj [(''role'', JStr ''user''), (''content'', JStr (lq_prompt q))]])] \<rparr>"

definition openai_generateObject :: "(string \<Rightarrow> json option) \<Rightarrow> network \<Rightarrow> llm_input \<Rightarrow> llm_request \<Rightarrow> json result" where
  "openai_generateObject parse net i q =
     rbind (requireApiKey i ''OpenAI'') (\<lambda>key.
     rbind (fetchWithTimeout net (openai_call i key q)) (\<lambda>response.
     rbind (parseJsonResponse parse response ''OpenAI Responses API'') (\<lambda>payload.
     rbind (readOpenAiOutputText payload) (\<lambda>t. parseGeneratedObject parse t ''OpenAI Responses API''))))"

definition anthropic_generateObject :: "(string \<Rightarrow> json option) \<Rightarrow> network \<Rightarrow> llm_input \<Rightarrow> llm_request \<Rightarrow> json result" where
  "anthropic_generateObject parse net i q =
     rbind (requireApiKey i ''Anthropic'') (\<lambda>key.
     rbind (fetchWithTimeout net (anthropic_call i key q)) (\<lambda>response.
     rbind (parseJsonResponse parse response ''Anthropic Messages API'') (readAnthropicStructuredOutput parse)))"

text \<open>The state is the queue of the mock client.\<close>

definition mock_generateObject :: "(json list, json) act" where
  "mock_generateObject queue = (case queue of
     [] \<Rightarrow> (Inl (Js_Error PlainError ''MockLlmClient queue is empty'' []), []) | x # xs \<Rightarrow> (Inr x, xs))"

definition createLlmClient :: "(string \<Rightarrow> json option) \<Rightarrow> network \<Rightarrow> llm_input \<Rightarrow> llm_request \<Rightarrow> (json list, json) act" where
  "createLlmClient parse net i q = (case li_provider i of
     Mock_Provider \<Rightarrow> mock_generateObject
   | Openai \<Rightarrow> liftA (openai_generateObject parse net i q)
   | Anthropic \<Rightarrow> liftA (anthropic_generateObject parse net i q))"

section \<open>When an answer comes back\<close>

lemma requireApiKey_iff: "requireApiKey i n = Inr key \<longleftrightarrow> li_apiKey i = Some key \<and> \<not> blank key"
  by (cases "li_apiKey i") (auto simp: requireApiKey_def blank_def)

lemma parseJsonResponse_iff: "parseJsonResponse parse r n = Inr v \<longleftrightarrow> fst r \<and> parse (snd r) = Some v"
  by (auto simp: parseJsonResponse_def split: option.splits)

lemma parseGeneratedObject_iff: "parseGeneratedObject parse t n = Inr v \<longleftrightarrow> parse t = Some v"
  by (auto simp: parseGeneratedObject_def split: option.splits)

text \<open>An answer of the first provider is the JSON of a text that is not blank, read from an answer of the server that was fine.\<close>

lemma openai_text_not_blank: "readOpenAiOutputText payload = Inr t \<Longrightarrow> t \<noteq> []"
  by (cases "text_member payload ''output_text''")
    (auto simp: readOpenAiOutputText_def Let_def split: if_splits option.splits)

lemma fetchWithTimeout_iff: "fetchWithTimeout net c = Inr x \<longleftrightarrow> net c = Some x"
  by (auto simp: fetchWithTimeout_def split: option.splits)

lemma openai_answers_iff:
  "openai_generateObject parse net i q = Inr v \<longleftrightarrow>
     (\<exists>key body payload t. li_apiKey i = Some key \<and> \<not> blank key \<and> net (openai_call i key q) = Some (True, body)
        \<and> parse body = Some payload \<and> readOpenAiOutputText payload = Inr t \<and> parse t = Some v)"
  unfolding openai_generateObject_def rbind_Inr requireApiKey_iff parseJsonResponse_iff parseGeneratedObject_iff fetchWithTimeout_iff
    split_paired_Ex fst_conv snd_conv by (simp add: ex_bool_eq)

end
