(* ===== verification/Spec2Isabelle.thy ===== *)
theory Spec2Isabelle
  imports Backlog_Model Roles Policy Effects Evidence Dedup Locks Keyed_Mutex Queue_Leases
    State_Records Project_State Workflow State_Store Run_World Recorders Failure_Handling Retry Mutation_Pipeline Git_Lifecycle Role_Runner Task_Contract Held_Lease Cycle_Contract
    Planning_Roles Repository_Roles Project_Services Code_Roles Tester_Contract Approvals
    Governance Service_Levels Effective_Config Tool_Policy Tool_Set Tool_Contract Redaction Observability Runtime_Config Dashboard Dashboard_Access Dashboard_Api Redis_Locks Language_Models
begin

text \<open>
  A verification library for the AI Orchestrator, a TypeScript control plane that lets AI roles work on a
  repository under policies, locks, budgets and human approval. Paths below are relative to \<open>src/\<close>.

  \<^bold>\<open>The program.\<close> A control plane command or the worker's loop (\<open>apps/control-plane\<close>, \<open>apps/worker\<close>) calls the application
  services (\<open>packages/application\<close>). The service for a run cycle is the orchestrator (\<open>packages/execution\<close>): it loads the project
  state from the store (\<open>packages/state\<close>), takes the run lease from the lock store, asks the workflow's policies
  (\<open>packages/workflow\<close>) or the task manager role for a task, prepares a workspace, and runs the task: prompt, executor role,
  review, test (\<open>packages/agents\<close>, each through the role runner's action loop with its tools, \<open>packages/tools\<close>), completion
  evidence, git commit, push and draft pull request, save. Every irreversible action passes a policy gate that persists its
  decision, the deduplication guard, the lease and, where configured, an approval. Every step leaves an entry in a hash chain. A
  failed review or test goes to the failure handler, which retries, splits or blocks the task and finally dead-letters it;
  people resume or replay from there, decide approvals, pause the system and read dashboards.

  \<^bold>\<open>Conventions.\<close> \<open>Prelude\<close>, \<open>Ordering\<close>, \<open>Timestamps\<close>, \<open>Iso_Text\<close>, \<open>Json\<close> and \<open>Effects\<close> hold the language: optional
  members are options, a dictionary is an association list in insertion order, \<open>sort\<close> is a stable insertion sort whose comparator
  is an instance of the locale \<open>comparator\<close>, instants are whole milliseconds and \<open>Date.parse\<close> may give NaN, which is \<open>None\<close>.
  A class or interface is a \<open>record\<close>, a union of literals a \<open>datatype\<close>, a thrown error a value \<open>Inl\<close>. Code that reads and
  writes shared objects is an \<open>act\<close>: a function from the state to a result and the state left behind, so that writes before a
  throw stay. \<open>wp\<close>, \<open>preserves\<close> and \<open>keeps\<close>, with their rule collections, are how the components are proved; the locale
  \<open>frame\<close> is the contract of a relation every step keeps. Code outside the repository or left to the host is an argument: SHA-256,
  \<open>localeCompare\<close>, what Zod says (messages and \<open>iso.datetime\<close>), random numbers, ids, clocks, git, gh, model providers, the file
  system. Nothing is assumed about them unless a theorem says so; a theorem about hashes is stated up to a collision.
  Numbers are whole or rational: rounding of doubles is not modelled.

  \<^bold>\<open>Data.\<close> \<open>Backlog_Model\<close> (tasks, features, epics, task splitting), \<open>Roles\<close> (roles, constraints, reviews, tests),
  \<open>State_Records\<close> (failures, decisions, artifacts, milestones, events and the checks on each), \<open>Project_State\<close> (the state, the literals
  of its schema and the checks across records, as \<open>validateProjectState\<close>).

  \<^bold>\<open>Policies.\<close> \<open>Policy\<close>: the decision record, risk classification, the evaluator and the autonomy level.
  \<open>Governance\<close>: access, kill switch, override, rollout, readiness review. \<open>Approvals\<close>: the life of a request, its
  routing, reminders and escalation. \<open>Effective_Config\<close>: the layers of the configuration. The theorems say exactly what is
  allowed, to whom, and equate optimised or layered code with a reference.

  \<^bold>\<open>State and coordination.\<close> \<open>State_Store\<close>: the in-memory store and its lease-protected wrapper; the locale
  \<open>state_store\<close> is the contract both meet (the state stays valid, events are only appended, the revision counts commits, a stale snapshot is
  refused). \<open>Locks\<close>: the lock store with fencing tokens, contract \<open>lock_store\<close>, and its clients.
  \<open>Redis_Locks\<close>: the lock store on a Redis server, each call a program of commands, under every interleaving; what is documented of
  the server is the hypothesis \<open>documented_redis\<close>, and the theorem shows which part of the contract this store keeps and which it breaks. \<open>Keyed_Mutex\<close>: the promise
  tails as a step relation, with exclusion, fairness and progress by rule induction. \<open>Queue_Leases\<close>: leases on queued jobs and the
  worker's back-off. \<open>Dedup\<close>: keys of side effects and the registry, contract \<open>dedup_registry\<close>. \<open>Evidence\<close>: the hash
  chain of run steps, its transition table, and why the chain binds its entries. \<open>Service_Levels\<close>: indicators, alerts and the
  audit log's chain.

  \<^bold>\<open>Running.\<close> \<open>Run_World\<close> is the state of one run (store, locks, lease, the object being changed, what has been sent
  outside). \<open>Recorders\<close> writes run steps and policy decisions to it. \<open>Retry\<close> is the retry loop with its abort signals.
  \<open>Role_Outputs\<close>, \<open>Planning_Roles\<close>, \<open>Repository_Roles\<close> and \<open>Code_Roles\<close> are the roles and the validation of their
  answers. \<open>Role_Runner\<close> is the action loop, with budgets, tools and the one retry. \<open>Git_Lifecycle\<close> is what completion
  does to git. \<open>Task_Runner\<close> composes them for one task, \<open>Failure_Handling\<close> takes over when a check fails, \<open>Orchestrator\<close> is the
  cycle around it. \<open>Mutation_Pipeline\<close> is the staged pipeline beside it. \<open>Workflow\<close> has the selection and stop policies.
  \<open>Project_Services\<close> are the application's other use cases.

  \<^bold>\<open>Tools and configuration.\<close> \<open>Tool_Policy\<close> (paths, allowed roots and the policy adapter) and \<open>Tool_Set\<close>
  (\<open>createLocalToolSet\<close> with its file, git, shell, SQL, search and quality adapters, argument schemas and error envelope) model
  \<open>packages/tools\<close>; \<open>Tool_Contract\<close> states what a whole session of calls keeps, in the locales \<open>tool_steps\<close> and
  \<open>tool_invariant\<close>, interpreted three times on the model. \<open>Redaction\<close> (\<open>packages/tools\<close>) and \<open>Runtime_Secrets\<close>
  (\<open>packages/shared\<close>) are the two redactors: what may not leave does not leave, as long as a
  registered secret does not overlap the placeholder. \<open>Runtime_Config\<close> is
  \<open>packages/shared/src/config\<close>: the schema, the layers defaults, file and environment, the safety policy, the database address and
  the file system guards. \<open>Observability\<close> is the in-memory observability store with its metric and trace audit. \<open>Dashboard\<close>
  has the read models, their queries and pages (\<open>packages/application\<close>); \<open>Dashboard_Access\<close> is who is let in over HTTP (tokens, API
  keys, their configuration) and \<open>Dashboard_Api\<close> answers a request (inputs, endpoints, service, exception filter; \<open>apps/dashboard-api\<close>).
  \<open>Language_Models\<close> reads the answers of the model providers (\<open>packages/llm\<close>).

  \<^bold>\<open>Theorems about compositions.\<close> \<open>Task_Contract\<close>: what stands behind a completed task and what a throw leaves.
  \<open>Tester_Contract\<close>: what a passing test has run. \<open>Held_Lease\<close>: a cycle frees the lock it took. \<open>Cycle_Contract\<close>: which plan a
  cycle writes. \<open>Sample_Run\<close> carries one successful run through all of it, so that the theorems with hypotheses are applied
  to a real run.

  \<^bold>\<open>Termination, bounds and fuel.\<close> Most loops of the source are structural or have a measure: the retry loop by the attempts left,
  the merge preview by the tasks not yet placed, the mutation stages by the stages left, abort propagation by the signals not yet
  aborted, \<open>extractImports\<close> by the text left, \<open>findNearestExistingAncestor\<close> by the path's segments. The role runner's loop recurses on the steps left, which is the code's own
  bound. Only \<open>walkDirectory\<close> has fuel, the depth of the directory tree, which is finite on any disk: a depth at least that
  of the tree gives the code's list.

  \<^bold>\<open>Not modelled.\<close> SQL and its migrations (\<open>packages/state/src/postgres\<close>, the observability tables), the Postgres and etcd
  lock stores and the unused lock authority (\<open>packages/execution/src/locks\<close>, \<open>lock-authority.ts\<close>): they are statements and client
  calls to services that are not in the repository. The command line, the dashboard's health checks and module wiring: they print or connect.
  Prompt texts and telemetry: no decision of the program is made in them. The tools' patch, snapshot and branch helpers and the schemas of
  tenants and projects, which no component calls; the workspace manager, which is git and file system commands. Timers: a race with
  one is given by its outcome. Loggers. Keys of \<open>Object.prototype\<close> used as dictionary keys.
\<close>

end
